(* ===== verification/Prelude.thy ===== *)
theory Prelude
  imports Main "HOL-Library.Sublist" "HOL-Library.List_Lexorder" "HOL-Library.Char_ord"
begin

text \<open>
  Shared vocabulary of the development: Go's string operations over byte strings
  (\<open>strings.Split\<close>, \<open>strings.Join\<close>, \<open>strings.TrimPrefix\<close>, \<open>strings.TrimSuffix\<close>,
  \<open>strings.Cut\<close>), decimal rendering, first-error loops, and the collections of hints that the
  component theories extend.  A Go string is a \<^typ>\<open>string\<close>, one \<^typ>\<open>char\<close> per byte;
  \<open>sort.Strings\<close> is \<^const>\<open>sort\<close> under the lexicographic order of bytes.
\<close>

named_theorems str_simps \<open>rewrite rules for the string operations\<close>
named_theorems wf_intros \<open>introduction rules for well-formedness invariants\<close>

subsection \<open>Errors as values\<close>

text \<open>\<open>Inl\<close> is an error, \<open>Inr\<close> a result.\<close>

definition is_ok :: "'e + 'a \<Rightarrow> bool" where
  "is_ok r = (case r of Inl _ \<Rightarrow> False | Inr _ \<Rightarrow> True)"

lemma is_ok_simps [simp]: "is_ok (Inr x)" "\<not> is_ok (Inl e)"
  by (simp_all add: is_ok_def)

lemma is_okE: "is_ok r \<Longrightarrow> (\<And>x. r = Inr x \<Longrightarrow> P) \<Longrightarrow> P"
  by (cases r) auto

text \<open>A loop that returns the first error of its body.\<close>

fun first_err :: "('a \<Rightarrow> 'e option) \<Rightarrow> 'a list \<Rightarrow> 'e option" where
  "first_err f [] = None"
| "first_err f (x # xs) = (case f x of Some e \<Rightarrow> Some e | None \<Rightarrow> first_err f xs)"

lemma first_err_None: "first_err f xs = None \<longleftrightarrow> (\<forall>x\<in>set xs. f x = None)"
  by (induction xs) (auto split: option.splits)

lemma first_err_Some: "first_err f xs = Some e \<Longrightarrow> \<exists>x\<in>set xs. f x = Some e"
  by (induction xs) (auto split: option.splits)

text \<open>A loop that collects one message per offending element.\<close>

lemma concat_guard_nil:
  "concat (map (\<lambda>x. if P x then [f x] else []) xs) = [] \<longleftrightarrow> (\<forall>x\<in>set xs. \<not> P x)"
  by (induction xs) auto

subsection \<open>Prefixes and suffixes\<close>

definition trim_prefix :: "'a list \<Rightarrow> 'a list \<Rightarrow> 'a list" where
  "trim_prefix p s = (if prefix p s then drop (length p) s else s)"

definition trim_suffix :: "'a list \<Rightarrow> 'a list \<Rightarrow> 'a list" where
  "trim_suffix q s = (if suffix q s then take (length s - length q) s else s)"

lemma trim_prefix_append [simp, str_simps]: "trim_prefix p (p @ s) = s"
  by (simp add: trim_prefix_def)

lemma trim_prefix_id [str_simps]: "\<not> prefix p s \<Longrightarrow> trim_prefix p s = s"
  by (simp add: trim_prefix_def)

lemma suffix_appendR [simp]: "suffix q (s @ q)"
  by (simp add: suffix_def)

lemma trim_suffix_append [simp, str_simps]: "trim_suffix q (s @ q) = s"
  by (simp add: trim_suffix_def)

lemma trim_suffix_id [str_simps]: "\<not> suffix q s \<Longrightarrow> trim_suffix q s = s"
  by (simp add: trim_suffix_def)

lemma suffix_trim_suffix: "suffix q s \<Longrightarrow> trim_suffix q s @ q = s"
  by (auto simp: suffix_def)

lemma prefix_trim_prefix: "prefix p s \<Longrightarrow> p @ trim_prefix p s = s"
  by (auto simp: prefix_def)

lemma suffix_code_rev [str_simps]: "suffix xs ys \<longleftrightarrow> prefix (rev xs) (rev ys)"
  by (rule suffix_to_prefix)

subsection \<open>Splitting and joining\<close>

text \<open>\<open>strings.Split\<close> with a one-byte separator: never empty.\<close>

fun split_on :: "char \<Rightarrow> string \<Rightarrow> string list" where
  "split_on c [] = [[]]"
| "split_on c (x # xs) =
     (if x = c then [] # split_on c xs
      else case split_on c xs of [] \<Rightarrow> [[x]] | y # ys \<Rightarrow> (x # y) # ys)"

fun join :: "string \<Rightarrow> string list \<Rightarrow> string" where
  "join sep [] = []"
| "join sep [x] = x"
| "join sep (x # y # ys) = x @ sep @ join sep (y # ys)"

lemma split_on_ne [simp]: "split_on c s \<noteq> []"
  by (induction s) (auto split: list.splits)

lemma split_on_no_sep: "x \<in> set (split_on c s) \<Longrightarrow> c \<notin> set x"
proof (induction s arbitrary: x)
  case Nil
  then show ?case by simp
next
  case (Cons a s)
  then show ?case by (auto split: list.splits if_splits)
qed

lemma join_Cons: "ys \<noteq> [] \<Longrightarrow> join sep (x # ys) = x @ sep @ join sep ys"
  by (cases ys) auto

lemma join_split_on [simp]: "join [c] (split_on c s) = s"
proof (induction s)
  case Nil
  show ?case by simp
next
  case (Cons a s)
  obtain y ys where y: "split_on c s = y # ys"
    by (cases "split_on c s") auto
  have s: "join [c] (y # ys) = s" using Cons y by simp
  show ?case
  proof (cases "a = c")
    case True
    then show ?thesis using y s by simp
  next
    case False
    have "join [c] ((a # y) # ys) = a # join [c] (y # ys)" by (cases ys) auto
    then show ?thesis using False y s by simp
  qed
qed

lemma split_on_append_sep: "c \<notin> set x \<Longrightarrow> split_on c (x @ c # s) = x # split_on c s"
  by (induction x) auto

lemma split_on_plain: "c \<notin> set x \<Longrightarrow> split_on c x = [x]"
  by (induction x) auto

lemma split_on_join:
  "xs \<noteq> [] \<Longrightarrow> (\<And>x. x \<in> set xs \<Longrightarrow> c \<notin> set x) \<Longrightarrow> split_on c (join [c] xs) = xs"
proof (induction xs)
  case Nil
  then show ?case by simp
next
  case (Cons x xs)
  show ?case
  proof (cases xs)
    case Nil
    then show ?thesis using Cons.prems by (simp add: split_on_plain)
  next
    case (Cons y ys)
    have "split_on c (join [c] xs) = xs"
      using Cons.IH Cons.prems(2) Cons by simp
    then show ?thesis
      using Cons Cons.prems(2) by (simp add: split_on_append_sep)
  qed
qed

lemma split_on_app: "split_on c (a @ c # b) = split_on c a @ split_on c b"
proof (induction a)
  case Nil
  show ?case by simp
next
  case (Cons x a)
  then show ?case by (cases "split_on c a") auto
qed

lemma split_on_join_concat:
  "xs \<noteq> [] \<Longrightarrow> split_on c (join [c] xs) = concat (map (split_on c) xs)"
proof (induction xs)
  case Nil
  then show ?case by simp
next
  case (Cons x xs)
  then show ?case by (cases xs) (simp_all add: split_on_app)
qed

lemma set_split_on: "x \<in> set (split_on c s) \<Longrightarrow> set x \<subseteq> set s"
proof (induction s arbitrary: x)
  case Nil
  then show ?case by simp
next
  case (Cons a s)
  then show ?case by (fastforce split: list.splits if_splits)
qed

text \<open>\<open>strings.Cut\<close> at the first occurrence of a byte.\<close>

fun cut_at :: "char \<Rightarrow> string \<Rightarrow> (string \<times> string) option" where
  "cut_at c [] = None"
| "cut_at c (x # xs) =
     (if x = c then Some ([], xs)
      else map_option (\<lambda>(a, b). (x # a, b)) (cut_at c xs))"

lemma cut_at_Some: "cut_at c s = Some (a, b) \<Longrightarrow> s = a @ c # b \<and> c \<notin> set a"
  by (induction s arbitrary: a) (auto split: if_splits)

lemma cut_at_append: "c \<notin> set a \<Longrightarrow> cut_at c (a @ c # b) = Some (a, b)"
  by (induction a) auto

lemma cut_at_None: "cut_at c s = None \<longleftrightarrow> c \<notin> set s"
  by (induction s) auto

text \<open>\<open>strings.Contains\<close>.\<close>

fun contains_str :: "string \<Rightarrow> string \<Rightarrow> bool" where
  "contains_str [] p = (p = [])"
| "contains_str (x # xs) p = (prefix p (x # xs) \<or> contains_str xs p)"

lemma contains_str_iff: "contains_str s p \<longleftrightarrow> sublist p s"
  by (induction s) (auto simp: sublist_Cons_right)

subsection \<open>Decimal rendering\<close>

definition digit :: "nat \<Rightarrow> char" where
  "digit n = char_of (48 + n)"

fun itoa :: "nat \<Rightarrow> string" where
  "itoa n = (if n < 10 then [digit n] else itoa (n div 10) @ [digit (n mod 10)])"

declare itoa.simps [simp del]

text \<open>The \<open>%02d\<close> verb of a non-negative number.\<close>

definition pad2 :: "nat \<Rightarrow> string" where
  "pad2 n = (if n < 10 then ''0'' @ itoa n else itoa n)"

fun atoi_aux :: "nat \<Rightarrow> string \<Rightarrow> nat option" where
  "atoi_aux acc [] = Some acc"
| "atoi_aux acc (c # cs) =
     (let d = of_char c :: nat in
      if 48 \<le> d \<and> d \<le> 57 then atoi_aux (acc * 10 + (d - 48)) cs else None)"

definition atoi :: "string \<Rightarrow> nat option" where
  "atoi s = (if s = [] then None else atoi_aux 0 s)"

lemma of_char_digit [simp]: "n < 10 \<Longrightarrow> (of_char (digit n) :: nat) = 48 + n"
  by (simp add: digit_def)

lemma atoi_aux_append:
  "atoi_aux acc (s @ t) = (case atoi_aux acc s of None \<Rightarrow> None | Some a \<Rightarrow> atoi_aux a t)"
  by (induction s arbitrary: acc) (auto simp: Let_def)

lemma atoi_aux_itoa: "atoi_aux 0 (itoa n) = Some n"
proof (induction n rule: itoa.induct)
  case (1 n)
  show ?case
  proof (cases "n < 10")
    case True
    then show ?thesis by (subst itoa.simps) (simp add: Let_def)
  next
    case False
    with 1 have "atoi_aux 0 (itoa (n div 10)) = Some (n div 10)" by simp
    with False show ?thesis
      by (subst itoa.simps) (simp add: atoi_aux_append Let_def)
  qed
qed

lemma itoa_ne [simp]: "itoa n \<noteq> []"
  by (subst itoa.simps) simp

lemma atoi_itoa [simp]: "atoi (itoa n) = Some n"
  by (simp add: atoi_def atoi_aux_itoa)

lemma itoa_inj: "itoa m = itoa n \<Longrightarrow> m = n"
  by (metis atoi_itoa option.inject)

lemma itoa_digits: "c \<in> set (itoa n) \<Longrightarrow> 48 \<le> (of_char c :: nat) \<and> (of_char c :: nat) \<le> 57"
proof (induction n rule: itoa.induct)
  case (1 n)
  have m: "n mod 10 < 10" by simp
  show ?case
  proof (cases "n < 10")
    case True
    with 1 show ?thesis by (subst (asm) itoa.simps) auto
  next
    case False
    have d: "(of_char (digit (n mod 10)) :: nat) = 48 + n mod 10"
      using m by (rule of_char_digit)
    from False "1.prems" have "c \<in> set (itoa (n div 10)) \<or> c = digit (n mod 10)"
      by (subst (asm) itoa.simps) auto
    then show ?thesis using "1.IH" [OF False] d m by auto
  qed
qed

end
