(* ===== verification/PathGlob.thy ===== *)
theory PathGlob
  imports Prelude
begin

text \<open>
  Model of \<open>internal/pathglob/pathglob.go\<close>: parsing and validation of path globs, the regular
  expression a glob compiles to, matching of a request path, and the product-automaton walk
  that decides whether two globs can match a common path.

  Go ranges over runes; the model ranges over bytes.  Every byte of a multi-byte rune lies
  outside \<open>segmentChars\<close>, so both reject the same segments, and the accepted segments are ASCII.
\<close>

subsection \<open>Patterns and their syntax\<close>

datatype glob_err =
    GENonRoot | GENoLeadingSlash | GETrailingSlash | GEEmptySegment
  | GEDotSegment string | GEDoubleStarNotLast | GEDoubleStarInside string
  | GEBadChar string | GEMatchesAll | GECompile string

definition segmentChars :: string where
  "segmentChars =
     ''ABCDEFGHIJKLMNOPQRSTUVWXYZabcdefghijklmnopqrstuvwxyz0123456789._-''"

text \<open>The compiled regular expression: the constructs \<open>Regex\<close> emits, in order.\<close>

datatype rx =
    RBegin          \<comment> \<open>\<open>^\<close>\<close>
  | REnd            \<comment> \<open>\<open>$\<close>\<close>
  | RLit char
  | RSegPlus        \<comment> \<open>\<open>[^/]+\<close>\<close>
  | RTail           \<comment> \<open>\<open>(/.*)?\<close>\<close>
  | RDotStar        \<comment> \<open>\<open>.*\<close>, the rest of an entered \<open>RTail\<close>\<close>

record pattern =
  raw :: string
  segments :: "string list"
  tail :: bool
  re :: "rx list"

text \<open>\<open>regexp.QuoteMeta\<close> and the per-segment compilation.\<close>

definition regexMeta :: string where
  "regexMeta = [CHR 0x5C] @ ''.+*?()|[]{}^$''"

definition quoteMeta :: "string \<Rightarrow> string" where
  "quoteMeta s = concat (map (\<lambda>c. if c \<in> set regexMeta then [CHR 0x5C, c] else [c]) s)"

definition segmentRegex :: "string \<Rightarrow> string" where
  "segmentRegex seg = join ''[^/]+'' (map quoteMeta (split_on CHR ''*'' seg))"

definition Regex :: "string list \<Rightarrow> bool \<Rightarrow> string" where
  "Regex segs tl' = ''^'' @ concat (map (\<lambda>seg. ''/'' @ segmentRegex seg) segs)
     @ (if tl' then ''(/.*)?'' else []) @ ''$''"

text \<open>
  \<open>regexp.Compile\<close> on the constructs above: an escaped byte and an ordinary byte are
  literals; a metacharacter outside these constructs is not accepted.
\<close>

function re_compile :: "string \<Rightarrow> rx list option" where
  "re_compile s =
     (if s = [] then Some []
      else if prefix ''[^/]+'' s then map_option ((#) RSegPlus) (re_compile (drop 5 s))
      else if prefix ''(/.*)?'' s then map_option ((#) RTail) (re_compile (drop 6 s))
      else (case s of
          [] \<Rightarrow> Some []
        | c # cs \<Rightarrow>
            if c = CHR 0x5C then
              (case cs of [] \<Rightarrow> None | d # ds \<Rightarrow> map_option ((#) (RLit d)) (re_compile ds))
            else if c = CHR ''^'' then map_option ((#) RBegin) (re_compile cs)
            else if c = CHR ''$'' then map_option ((#) REnd) (re_compile cs)
            else if c \<in> set regexMeta then None
            else map_option ((#) (RLit c)) (re_compile cs)))"
  by pat_completeness auto
termination
  by (relation "measure length") auto

declare re_compile.simps [simp del]

text \<open>
  Backtracking match from a position: \<open>st\<close> says that the position is the start of the text.
  \<open>.\<close> matches any byte but a newline, as Go's default flags say.
\<close>

function re_here :: "rx list \<Rightarrow> bool \<Rightarrow> string \<Rightarrow> bool" where
  "re_here [] st s = True"
| "re_here (RBegin # rs) st s = (st \<and> re_here rs st s)"
| "re_here (REnd # rs) st s = (s = [] \<and> re_here rs st s)"
| "re_here (RLit c # rs) st [] = False"
| "re_here (RLit c # rs) st (d # ds) = (d = c \<and> re_here rs False ds)"
| "re_here (RSegPlus # rs) st [] = False"
| "re_here (RSegPlus # rs) st (d # ds) =
     (d \<noteq> CHR ''/'' \<and> (re_here rs False ds \<or> re_here (RSegPlus # rs) False ds))"
| "re_here (RTail # rs) st [] = re_here rs st []"
| "re_here (RTail # rs) st (d # ds) =
     (re_here rs st (d # ds) \<or> (d = CHR ''/'' \<and> re_here (RDotStar # rs) False ds))"
| "re_here (RDotStar # rs) st [] = re_here rs st []"
| "re_here (RDotStar # rs) st (d # ds) =
     (re_here rs st (d # ds) \<or> (d \<noteq> CHR 0x0A \<and> re_here (RDotStar # rs) False ds))"
  by pat_completeness auto
termination
  by (relation "measures [\<lambda>(rs, st, s). length s, \<lambda>(rs, st, s). length rs]") auto

text \<open>\<open>MatchString\<close>: a match anywhere in the text.\<close>

fun re_search :: "rx list \<Rightarrow> bool \<Rightarrow> string \<Rightarrow> bool" where
  "re_search rs st [] = re_here rs st []"
| "re_search rs st (c # cs) = (re_here rs st (c # cs) \<or> re_search rs False cs)"

definition Matches :: "pattern \<Rightarrow> string \<Rightarrow> bool" where
  "Matches p path = re_search (re p) True path"

subsection \<open>Parsing\<close>

definition bad_seg_char :: "char \<Rightarrow> bool" where
  "bad_seg_char c \<longleftrightarrow> c \<noteq> CHR ''*'' \<and> c \<notin> set segmentChars"

definition check_seg :: "bool \<Rightarrow> string \<Rightarrow> glob_err option" where
  "check_seg isLast seg =
     (if seg = [] then Some GEEmptySegment
      else if seg = ''.'' \<or> seg = ''..'' then Some (GEDotSegment seg)
      else if seg = ''**'' then (if isLast then None else Some GEDoubleStarNotLast)
      else if contains_str seg ''**'' then Some (GEDoubleStarInside seg)
      else if list_ex bad_seg_char seg then Some (GEBadChar seg)
      else None)"

fun check_segs :: "string list \<Rightarrow> glob_err option" where
  "check_segs [] = None"
| "check_segs (seg # rest) =
     (case check_seg (rest = []) seg of Some e \<Rightarrow> Some e | None \<Rightarrow> check_segs rest)"

definition Parse :: "string \<Rightarrow> glob_err + pattern" where
  "Parse s =
     (if s = [] \<or> s = ''/'' then Inl GENonRoot
      else if \<not> prefix ''/'' s then Inl GENoLeadingSlash
      else if suffix ''/'' s then Inl GETrailingSlash
      else let segs = split_on CHR ''/'' (drop 1 s) in
        (case check_segs segs of
          Some e \<Rightarrow> Inl e
        | None \<Rightarrow>
            let tl' = (last segs = ''**'');
                segs' = (if tl' then butlast segs else segs)
            in if tl' \<and> segs' = [] then Inl GEMatchesAll
               else (case re_compile (Regex segs' tl') of
                   None \<Rightarrow> Inl (GECompile s)
                 | Some r \<Rightarrow> Inr \<lparr>raw = s, segments = segs', tail = tl', re = r\<rparr>)))"

definition check_exact_seg :: "string \<Rightarrow> glob_err option" where
  "check_exact_seg seg =
     (if seg = [] then Some GEEmptySegment
      else if seg = ''.'' \<or> seg = ''..'' then Some (GEDotSegment seg)
      else if list_ex (\<lambda>c. c \<notin> set segmentChars) seg then Some (GEBadChar seg)
      else None)"

definition CheckExact :: "string \<Rightarrow> glob_err option" where
  "CheckExact p =
     (if p = [] \<or> p = ''/'' then Some GENonRoot
      else if \<not> prefix ''/'' p then Some GENoLeadingSlash
      else if suffix ''/'' p then Some GETrailingSlash
      else first_err check_exact_seg (split_on CHR ''/'' (drop 1 p)))"

subsection \<open>Overlap: tokens and the product walk\<close>

datatype tok = TChar char | TAny | TStar0

fun tokens :: "string \<Rightarrow> tok list" where
  "tokens [] = []"
| "tokens (c # cs) = (if c = CHR ''*'' then [TAny, TStar0] else [TChar c]) @ tokens cs"

definition lit_clash :: "tok \<Rightarrow> tok \<Rightarrow> bool" where
  "lit_clash x y = (case (x, y) of (TChar a, TChar b) \<Rightarrow> a \<noteq> b | _ \<Rightarrow> False)"

text \<open>
  The pushes of one iteration, in push order (\<open>st\<close> holds the top of the stack at its head):
  the epsilon moves over a loop token, then the moves that consume one character.
\<close>

definition push_eps :: "tok list \<Rightarrow> tok list \<Rightarrow> nat \<Rightarrow> nat \<Rightarrow> (nat \<times> nat) list \<Rightarrow> (nat \<times> nat) list" where
  "push_eps ta tb i j st =
     (let st1 = (if i \<noteq> length ta \<and> ta ! i = TStar0 then (i + 1, j) # st else st)
      in if j \<noteq> length tb \<and> tb ! j = TStar0 then (i, j + 1) # st1 else st1)"

definition push_char :: "tok list \<Rightarrow> tok list \<Rightarrow> nat \<Rightarrow> nat \<Rightarrow> (nat \<times> nat) list \<Rightarrow> (nat \<times> nat) list" where
  "push_char ta tb i j st =
     (let x = ta ! i; y = tb ! j;
          ni = (if x = TStar0 then i else i + 1);
          nj = (if y = TStar0 then j else j + 1);
          st1 = (ni, nj) # st;
          st2 = (if x = TStar0 then (i + 1, nj) # st1 else st1)
      in if y = TStar0 then (ni, j + 1) # st2 else st2)"

text \<open>
  The loop of \<open>segmentsOverlap\<close>.  \<open>None\<close> is the index-out-of-range panic of \<open>ta[s.i]\<close>; it is
  shown never to happen from the initial state.
\<close>

function overlap_walk ::
  "tok list \<Rightarrow> tok list \<Rightarrow> (nat \<times> nat) list \<Rightarrow> (nat \<times> nat) list \<Rightarrow> bool option" where
  "overlap_walk ta tb seen [] = Some False"
| "overlap_walk ta tb seen ((i, j) # st) =
     (if (i, j) \<in> set seen then overlap_walk ta tb seen st
      else if length ta < i \<or> length tb < j then None
      else if i = length ta \<and> j = length tb then Some True
      else if i = length ta \<or> j = length tb
        then overlap_walk ta tb ((i, j) # seen) (push_eps ta tb i j st)
      else if lit_clash (ta ! i) (tb ! j)
        then overlap_walk ta tb ((i, j) # seen) (push_eps ta tb i j st)
      else overlap_walk ta tb ((i, j) # seen) (push_char ta tb i j (push_eps ta tb i j st)))"
  by pat_completeness auto

definition grid :: "tok list \<Rightarrow> tok list \<Rightarrow> (nat \<times> nat) set" where
  "grid ta tb = {0..length ta} \<times> {0..length tb}"

lemma finite_grid [simp]: "finite (grid ta tb)"
  by (simp add: grid_def)

lemma grid_visit_less:
  assumes "(i, j) \<notin> set seen" "\<not> length ta < i" "\<not> length tb < j"
  shows "card (grid ta tb - insert (i, j) (set seen)) < card (grid ta tb - set seen)"
proof (rule psubset_card_mono)
  show "finite (grid ta tb - set seen)" by simp
  have "(i, j) \<in> grid ta tb" using assms by (auto simp: grid_def)
  then show "grid ta tb - insert (i, j) (set seen) \<subset> grid ta tb - set seen"
    using assms(1) by auto
qed

termination overlap_walk
  by (relation "measures [\<lambda>(ta, tb, seen, st). card (grid ta tb - set seen),
                          \<lambda>(ta, tb, seen, st). length st]")
     (auto simp: grid_visit_less)

definition segmentsOverlap :: "string \<Rightarrow> string \<Rightarrow> bool option" where
  "segmentsOverlap a b = overlap_walk (tokens a) (tokens b) [] [(0, 0)]"

text \<open>\<open>Overlaps\<close>: every shared position must overlap; then depth and tails decide.\<close>

definition Overlaps :: "pattern \<Rightarrow> pattern \<Rightarrow> bool" where
  "Overlaps p o' =
     (list_all (\<lambda>(a, b). segmentsOverlap a b = Some True) (zip (segments p) (segments o')) \<and>
      (if length (segments p) = length (segments o') then True
       else if length (segments p) < length (segments o') then tail p
       else tail o'))"

subsection \<open>The language of a segment\<close>

text \<open>Strings a token list matches; the declarative reading of the walk's positions.\<close>

fun tmatch :: "tok list \<Rightarrow> string \<Rightarrow> bool" where
  "tmatch [] s = (s = [])"
| "tmatch (TChar c # ts) [] = False"
| "tmatch (TChar c # ts) (d # ds) = (d = c \<and> tmatch ts ds)"
| "tmatch (TAny # ts) [] = False"
| "tmatch (TAny # ts) (d # ds) = (d \<noteq> CHR ''/'' \<and> tmatch ts ds)"
| "tmatch (TStar0 # ts) [] = tmatch ts []"
| "tmatch (TStar0 # ts) (d # ds) =
     (tmatch ts (d # ds) \<or> d \<noteq> CHR ''/'' \<and> tmatch (TStar0 # ts) ds)"

definition slash_free :: "tok list \<Rightarrow> bool" where
  "slash_free ts \<longleftrightarrow> TChar CHR ''/'' \<notin> set ts"

lemma slash_free_simps [simp]:
  "slash_free []"
  "slash_free (t # ts) \<longleftrightarrow> t \<noteq> TChar CHR ''/'' \<and> slash_free ts"
  by (auto simp: slash_free_def)

lemma slash_free_tokens: "CHR ''/'' \<notin> set seg \<Longrightarrow> slash_free (tokens seg)"
  by (induction seg) auto

lemma tmatch_no_slash: "tmatch ts s \<Longrightarrow> slash_free ts \<Longrightarrow> CHR ''/'' \<notin> set s"
  by (induction ts s rule: tmatch.induct) auto

subsection \<open>The walk decides whether two token lists match a common string\<close>

definition final_state :: "tok list \<Rightarrow> tok list \<Rightarrow> nat \<times> nat \<Rightarrow> bool" where
  "final_state ta tb s \<longleftrightarrow> s = (length ta, length tb)"

text \<open>The states one iteration pushes from \<open>(i, j)\<close>.\<close>

definition succs :: "tok list \<Rightarrow> tok list \<Rightarrow> nat \<times> nat \<Rightarrow> (nat \<times> nat) set" where
  "succs ta tb s = (case s of (i, j) \<Rightarrow>
     (if i = length ta \<or> j = length tb \<or> lit_clash (ta ! i) (tb ! j)
      then set (push_eps ta tb i j [])
      else set (push_char ta tb i j (push_eps ta tb i j []))))"

lemma set_push_eps: "set (push_eps ta tb i j st) = set (push_eps ta tb i j []) \<union> set st"
  by (auto simp: push_eps_def Let_def)

lemma set_push_char:
  "set (push_char ta tb i j st) = set (push_char ta tb i j []) \<union> set st"
  by (auto simp: push_char_def Let_def)

lemma push_eps_grid:
  "(i, j) \<in> grid ta tb \<Longrightarrow> set (push_eps ta tb i j []) \<subseteq> grid ta tb"
  by (auto simp: push_eps_def grid_def Let_def)

lemma push_char_grid:
  "i < length ta \<Longrightarrow> j < length tb \<Longrightarrow> set (push_char ta tb i j []) \<subseteq> grid ta tb"
  by (auto simp: push_char_def grid_def Let_def)

lemma succs_grid:
  assumes "s \<in> grid ta tb"
  shows "succs ta tb s \<subseteq> grid ta tb"
proof -
  obtain i j where s: "s = (i, j)" by (cases s)
  have e: "set (push_eps ta tb i j []) \<subseteq> grid ta tb"
    using assms s push_eps_grid by simp
  show ?thesis
  proof (cases "i = length ta \<or> j = length tb \<or> lit_clash (ta ! i) (tb ! j)")
    case True
    then show ?thesis using e s by (auto simp: succs_def)
  next
    case False
    then have "i < length ta" "j < length tb" using assms s by (auto simp: grid_def)
    then have "set (push_char ta tb i j []) \<subseteq> grid ta tb" by (rule push_char_grid)
    then have "set (push_char ta tb i j (push_eps ta tb i j [])) \<subseteq> grid ta tb"
      using e by (subst set_push_char) simp
    then show ?thesis using False s by (simp add: succs_def)
  qed
qed

inductive reaches :: "tok list \<Rightarrow> tok list \<Rightarrow> nat \<times> nat \<Rightarrow> bool" for ta tb where
  reach_final: "final_state ta tb s \<Longrightarrow> reaches ta tb s"
| reach_step: "t \<in> succs ta tb s \<Longrightarrow> reaches ta tb t \<Longrightarrow> reaches ta tb s"

lemma closed_no_reach:
  assumes "reaches ta tb s" "s \<in> S" "\<And>s. s \<in> S \<Longrightarrow> succs ta tb s \<subseteq> S"
    "\<And>s. s \<in> S \<Longrightarrow> \<not> final_state ta tb s"
  shows False
  using assms by (induction rule: reaches.induct) auto

text \<open>The invariant of the search: visited states are not final and lead only to known states.\<close>

definition walk_inv :: "tok list \<Rightarrow> tok list \<Rightarrow> (nat \<times> nat) list \<Rightarrow> (nat \<times> nat) list \<Rightarrow> bool" where
  "walk_inv ta tb seen st \<longleftrightarrow>
     set seen \<subseteq> grid ta tb \<and> set st \<subseteq> grid ta tb \<and>
     (\<forall>s\<in>set seen. \<not> final_state ta tb s \<and> succs ta tb s \<subseteq> set seen \<union> set st)"

lemma walk_inv_visit:
  assumes inv: "walk_inv ta tb seen (s # st)"
    and nf: "\<not> final_state ta tb s"
    and st': "set st' = succs ta tb s \<union> set st"
  shows "walk_inv ta tb (s # seen) st'"
  using inv nf succs_grid [of s ta tb] unfolding walk_inv_def st' by auto

lemma overlap_walk_correct:
  "walk_inv ta tb seen st \<Longrightarrow>
   (\<exists>r. overlap_walk ta tb seen st = Some r \<and> (r \<longleftrightarrow> (\<exists>s\<in>set st. reaches ta tb s) \<or> (\<exists>s\<in>set seen. reaches ta tb s)))"
proof (induction ta tb seen st rule: overlap_walk.induct)
  case (1 ta tb seen)
  have "\<not> reaches ta tb s" if "s \<in> set seen" for s
    using closed_no_reach [of ta tb s "set seen"] that 1 by (auto simp: walk_inv_def)
  then show ?case by (intro exI [of _ False]) simp
next
  case (2 ta tb seen i j st)
  have g: "i \<le> length ta" "j \<le> length tb"
    using "2.prems" by (auto simp: walk_inv_def grid_def)
  show ?case
  proof (cases "(i, j) \<in> set seen")
    case True
    then have "walk_inv ta tb seen st" using "2.prems" by (auto simp: walk_inv_def)
    then show ?thesis using "2.IH"(1) [OF True] True by auto
  next
    case unseen: False
    show ?thesis
    proof (cases "final_state ta tb (i, j)")
      case True
      then show ?thesis using unseen by (auto simp: final_state_def intro: reach_final)
    next
      case nf: False
      let ?st = "if i = length ta \<or> j = length tb \<or> lit_clash (ta ! i) (tb ! j)
                 then push_eps ta tb i j st else push_char ta tb i j (push_eps ta tb i j st)"
      have st': "set ?st = succs ta tb (i, j) \<union> set st"
        by (auto simp: succs_def set_push_eps [of _ _ _ _ st]
              set_push_char [of _ _ _ _ "push_eps _ _ _ _ _"])
      have inv': "walk_inv ta tb ((i, j) # seen) ?st"
        using walk_inv_visit [OF "2.prems" nf st'] .
      have unf: "overlap_walk ta tb seen ((i, j) # st) = overlap_walk ta tb ((i, j) # seen) ?st"
        using unseen nf g by (auto simp: final_state_def)
      have "\<exists>r. overlap_walk ta tb ((i, j) # seen) ?st = Some r \<and>
          (r \<longleftrightarrow> (\<exists>s\<in>set ?st. reaches ta tb s) \<or> (\<exists>s\<in>set ((i, j) # seen). reaches ta tb s))"
        using "2.IH"(2-4) inv' unseen nf g
        by (cases "i = length ta \<or> j = length tb"; cases "lit_clash (ta ! i) (tb ! j)")
           (auto simp: final_state_def)
      then obtain r where r: "overlap_walk ta tb ((i, j) # seen) ?st = Some r"
          "r \<longleftrightarrow> (\<exists>s\<in>set ?st. reaches ta tb s) \<or> (\<exists>s\<in>set ((i, j) # seen). reaches ta tb s)"
        by blast
      have "reaches ta tb (i, j) \<longleftrightarrow> (\<exists>t\<in>succs ta tb (i, j). reaches ta tb t)"
        using nf by (auto elim: reaches.cases intro: reach_step)
      then have "(\<exists>s\<in>set ?st. reaches ta tb s) \<or> (\<exists>s\<in>set ((i, j) # seen). reaches ta tb s) \<longleftrightarrow>
          (\<exists>s\<in>set ((i, j) # st). reaches ta tb s) \<or> (\<exists>s\<in>set seen. reaches ta tb s)"
        unfolding st' by auto
      with r unf show ?thesis by simp
    qed
  qed
qed

subsection \<open>Reaching the end is matching a common string\<close>

definition common :: "tok list \<Rightarrow> tok list \<Rightarrow> nat \<times> nat \<Rightarrow> string \<Rightarrow> bool" where
  "common ta tb s w \<longleftrightarrow> tmatch (drop (fst s) ta) w \<and> tmatch (drop (snd s) tb) w"

lemma drop_nth_Cons: "i < length xs \<Longrightarrow> drop i xs = xs ! i # drop (Suc i) xs"
  by (simp add: Cons_nth_drop_Suc)

lemma eps_common:
  assumes "t \<in> set (push_eps ta tb i j [])" "(i, j) \<in> grid ta tb" "common ta tb t w"
  shows "common ta tb (i, j) w"
  using assms
  by (cases w) (auto simp: push_eps_def common_def grid_def Let_def drop_nth_Cons
        split: if_splits)

text \<open>A character both tokens accept.\<close>

definition accepted_char :: "tok \<Rightarrow> tok \<Rightarrow> char" where
  "accepted_char x y = (case x of TChar c \<Rightarrow> c | _ \<Rightarrow> (case y of TChar c \<Rightarrow> c | _ \<Rightarrow> CHR ''a''))"

lemma char_common:
  assumes t: "t \<in> set (push_char ta tb i j [])" and i: "i < length ta" and j: "j < length tb"
    and cl: "\<not> lit_clash (ta ! i) (tb ! j)" and c: "common ta tb t w"
    and sf: "slash_free ta" "slash_free tb"
  shows "common ta tb (i, j) (accepted_char (ta ! i) (tb ! j) # w)"
proof -
  have ns: "ta ! i \<noteq> TChar CHR ''/''" "tb ! j \<noteq> TChar CHR ''/''"
    using sf i j nth_mem [of i ta] nth_mem [of j tb] unfolding slash_free_def by metis+
  have d: "drop i ta = ta ! i # drop (Suc i) ta" "drop j tb = tb ! j # drop (Suc j) tb"
    using i j by (simp_all add: drop_nth_Cons)
  have skip: "tmatch ts v \<Longrightarrow> tmatch (TStar0 # ts) v" for ts v
    by (cases v) auto
  have l: "tmatch (drop i ta) (accepted_char (ta ! i) (tb ! j) # w)"
    using t c ns cl d
    by (cases "ta ! i"; cases "tb ! j")
       (auto simp: push_char_def common_def accepted_char_def lit_clash_def Let_def skip
         split: if_splits)
  have r: "tmatch (drop j tb) (accepted_char (ta ! i) (tb ! j) # w)"
    using t c ns cl d
    by (cases "ta ! i"; cases "tb ! j")
       (auto simp: push_char_def common_def accepted_char_def lit_clash_def Let_def skip
         split: if_splits)
  from l r show ?thesis by (simp add: common_def)
qed

lemma reaches_common:
  assumes "reaches ta tb s" "s \<in> grid ta tb" "slash_free ta" "slash_free tb"
  shows "\<exists>w. common ta tb s w"
  using assms
proof (induction rule: reaches.induct)
  case (reach_final s)
  then show ?case by (intro exI [of _ "[]"]) (simp add: final_state_def common_def)
next
  case (reach_step t s)
  obtain i j where s: "s = (i, j)" by (cases s)
  have tg: "t \<in> grid ta tb" using reach_step.hyps(1) reach_step.prems(1) succs_grid by blast
  then obtain w where w: "common ta tb t w" using reach_step by blast
  show ?case
  proof (cases "t \<in> set (push_eps ta tb i j [])")
    case True
    then show ?thesis using eps_common [OF True] w reach_step.prems(1) s by blast
  next
    case False
    then have nb: "\<not> (i = length ta \<or> j = length tb \<or> lit_clash (ta ! i) (tb ! j))"
      using reach_step.hyps(1) s by (auto simp: succs_def split: if_splits)
    then have t: "t \<in> set (push_char ta tb i j [])"
      using reach_step.hyps(1) s False
      by (auto simp: succs_def set_push_char [of _ _ _ _ "push_eps _ _ _ _ _"])
    have ij: "i < length ta" "j < length tb"
      using nb reach_step.prems(1) s by (auto simp: grid_def)
    from nb have "\<not> lit_clash (ta ! i) (tb ! j)" by simp
    from char_common [OF t ij this w reach_step.prems(2,3)] show ?thesis using s by blast
  qed
qed

lemma common_reaches:
  assumes "common ta tb (i, j) w" "i \<le> length ta" "j \<le> length tb"
  shows "reaches ta tb (i, j)"
  using assms
proof (induction "length w + (length ta - i) + (length tb - j)" arbitrary: i j w rule: less_induct)
  case less
  have eA: "reaches ta tb (i, j)" if a: "i < length ta" "ta ! i = TStar0" "common ta tb (Suc i, j) w"
  proof -
    have "(Suc i, j) \<in> succs ta tb (i, j)"
      using a by (auto simp: succs_def push_eps_def Let_def set_push_char [of _ _ _ _ "_ # _"]
          set_push_char [of _ _ _ _ "if _ then _ else _"])
    moreover have "reaches ta tb (Suc i, j)"
      by (rule less.hyps [OF _ a(3)]) (use a less.prems in auto)
    ultimately show ?thesis by (rule reach_step)
  qed
  have eB: "reaches ta tb (i, j)" if b: "j < length tb" "tb ! j = TStar0" "common ta tb (i, Suc j) w"
  proof -
    have "(i, Suc j) \<in> succs ta tb (i, j)"
      using b by (auto simp: succs_def push_eps_def Let_def set_push_char [of _ _ _ _ "_ # _"])
    moreover have "reaches ta tb (i, Suc j)"
      by (rule less.hyps [OF _ b(3)]) (use b less.prems in auto)
    ultimately show ?thesis by (rule reach_step)
  qed
  show ?case
  proof (cases "i = length ta \<and> j = length tb")
    case True
    then show ?thesis by (intro reach_final) (simp add: final_state_def)
  next
    case nfin: False
    show ?thesis
    proof (cases w)
      case Nil
      have "i < length ta \<and> ta ! i = TStar0 \<and> common ta tb (Suc i, j) w
          \<or> j < length tb \<and> tb ! j = TStar0 \<and> common ta tb (i, Suc j) w"
      proof (cases "i < length ta")
        case True
        then show ?thesis
          using less.prems Nil by (cases "ta ! i") (auto simp: common_def drop_nth_Cons)
      next
        case False
        then have "j < length tb" using nfin less.prems by auto
        then show ?thesis
          using less.prems Nil by (cases "tb ! j") (auto simp: common_def drop_nth_Cons)
      qed
      then show ?thesis using eA eB by blast
    next
      case (Cons c w')
      have ij: "i < length ta" "j < length tb"
        using less.prems Cons by (auto simp: common_def not_less le_less)
      have dA: "drop i ta = ta ! i # drop (Suc i) ta" "drop j tb = tb ! j # drop (Suc j) tb"
        using ij by (simp_all add: drop_nth_Cons)
      show ?thesis
      proof (cases "(ta ! i = TStar0 \<and> common ta tb (Suc i, j) w)
                  \<or> (tb ! j = TStar0 \<and> common ta tb (i, Suc j) w)")
        case True
        then show ?thesis using eA eB ij by blast
      next
        case False
        let ?i = "if ta ! i = TStar0 then i else Suc i"
        let ?j = "if tb ! j = TStar0 then j else Suc j"
        have cm: "common ta tb (?i, ?j) w'"
          using less.prems(1) False Cons dA
          by (cases "ta ! i"; cases "tb ! j") (auto simp: common_def)
        have "\<not> lit_clash (ta ! i) (tb ! j)"
          using less.prems(1) Cons dA
          by (cases "ta ! i"; cases "tb ! j") (auto simp: common_def lit_clash_def)
        then have "(?i, ?j) \<in> succs ta tb (i, j)"
          using ij by (auto simp: succs_def push_char_def Let_def)
        moreover have "reaches ta tb (?i, ?j)"
          by (rule less.hyps [OF _ cm]) (use ij Cons in auto)
        ultimately show ?thesis by (rule reach_step)
      qed
    qed
  qed
qed

lemma segmentsOverlap_total: "\<exists>r. segmentsOverlap a b = Some r"
  and segmentsOverlap_reach:
    "segmentsOverlap a b = Some True \<longleftrightarrow> reaches (tokens a) (tokens b) (0, 0)"
proof -
  have "walk_inv (tokens a) (tokens b) [] [(0, 0)]" by (simp add: walk_inv_def grid_def)
  from overlap_walk_correct [OF this]
  show "\<exists>r. segmentsOverlap a b = Some r"
    and "segmentsOverlap a b = Some True \<longleftrightarrow> reaches (tokens a) (tokens b) (0, 0)"
    by (auto simp: segmentsOverlap_def)
qed

lemma segmentsOverlap_iff:
  assumes "CHR ''/'' \<notin> set a" "CHR ''/'' \<notin> set b"
  shows "segmentsOverlap a b = Some True \<longleftrightarrow> (\<exists>w. tmatch (tokens a) w \<and> tmatch (tokens b) w)"
proof -
  have "(0, 0) \<in> grid (tokens a) (tokens b)" by (simp add: grid_def)
  then have "reaches (tokens a) (tokens b) (0, 0) \<longleftrightarrow> (\<exists>w. common (tokens a) (tokens b) (0, 0) w)"
    using reaches_common common_reaches slash_free_tokens assms by blast
  then show ?thesis by (simp add: segmentsOverlap_reach common_def)
qed

subsection \<open>The compiled expression and the language of a pattern\<close>

text \<open>Segments as \<open>Parse\<close> leaves them.\<close>

definition seg_ok :: "string \<Rightarrow> bool" where
  "seg_ok seg \<longleftrightarrow> seg \<noteq> [] \<and> \<not> list_ex bad_seg_char seg"

lemma seg_ok_chars: "seg_ok seg \<Longrightarrow> c \<in> set seg \<Longrightarrow> c = CHR ''*'' \<or> c \<in> set segmentChars"
  by (auto simp: seg_ok_def bad_seg_char_def list_ex_iff)

lemma segmentChars_no_slash [simp]: "CHR ''/'' \<notin> set segmentChars"
  by (simp add: segmentChars_def)

lemma segmentChars_no_newline [simp]: "CHR 0x0A \<notin> set segmentChars"
  by (simp add: segmentChars_def)

lemma seg_ok_no_slash: "seg_ok seg \<Longrightarrow> CHR ''/'' \<notin> set seg"
  using seg_ok_chars by fastforce

definition seg_rx :: "string \<Rightarrow> rx list" where
  "seg_rx seg = map (\<lambda>c. if c = CHR ''*'' then RSegPlus else RLit c) seg"

definition glob_rx :: "string list \<Rightarrow> bool \<Rightarrow> rx list" where
  "glob_rx segs tl' = RBegin # concat (map (\<lambda>seg. RLit CHR ''/'' # seg_rx seg) segs)
     @ (if tl' then [RTail] else []) @ [REnd]"

definition char_regex :: "char \<Rightarrow> string" where
  "char_regex c = (if c = CHR ''*'' then ''[^/]+'' else quoteMeta [c])"

lemma segmentRegex_chars: "segmentRegex seg = concat (map char_regex seg)"
proof (induction seg)
  case Nil
  show ?case by (simp add: segmentRegex_def quoteMeta_def)
next
  case (Cons c seg)
  obtain y ys where y: "split_on CHR ''*'' seg = y # ys"
    by (cases "split_on CHR ''*'' seg") auto
  show ?case
  proof (cases "c = CHR ''*''")
    case True
    have "segmentRegex (c # seg) = ''[^/]+'' @ segmentRegex seg"
      using y True by (simp add: segmentRegex_def quoteMeta_def)
    then show ?thesis using Cons True by (simp add: char_regex_def)
  next
    case False
    have "segmentRegex (c # seg) = quoteMeta [c] @ segmentRegex seg"
      using y False by (cases ys) (simp_all add: segmentRegex_def quoteMeta_def)
    then show ?thesis using Cons False by (simp add: char_regex_def)
  qed
qed

lemma compile_star: "re_compile (''[^/]+'' @ r) = map_option ((#) RSegPlus) (re_compile r)"
  by (subst re_compile.simps) simp

lemma compile_tail: "re_compile (''(/.*)?'' @ r) = map_option ((#) RTail) (re_compile r)"
  by (subst re_compile.simps) simp

lemma compile_anchors:
  "re_compile (CHR ''^'' # r) = map_option ((#) RBegin) (re_compile r)"
  "re_compile (CHR ''$'' # r) = map_option ((#) REnd) (re_compile r)"
  by (subst re_compile.simps, simp)+

lemma compile_plain:
  assumes "c \<notin> set regexMeta"
  shows "re_compile (c # r) = map_option ((#) (RLit c)) (re_compile r)"
  using assms by (subst re_compile.simps) (auto simp: regexMeta_def)

lemma compile_escaped:
  "re_compile (CHR 0x5C # c # r) = map_option ((#) (RLit c)) (re_compile r)"
  by (subst re_compile.simps) simp

lemma compile_quoted:
  "re_compile (quoteMeta [c] @ r) = map_option ((#) (RLit c)) (re_compile r)"
  by (simp add: quoteMeta_def compile_plain compile_escaped)

lemma compile_slash: "re_compile (CHR ''/'' # r) = map_option ((#) (RLit CHR ''/'')) (re_compile r)"
  by (rule compile_plain) (simp add: regexMeta_def)

lemma compile_seg:
  "re_compile (segmentRegex seg @ r) = map_option ((@) (seg_rx seg)) (re_compile r)"
  unfolding segmentRegex_chars
proof (induction seg)
  case Nil
  show ?case by (cases "re_compile r") (simp_all add: seg_rx_def)
next
  case (Cons c seg)
  then show ?case
    by (cases "re_compile r")
       (simp_all add: char_regex_def seg_rx_def compile_quoted
          compile_star [simplified])
qed

lemma compile_segs:
  "re_compile (concat (map (\<lambda>seg. ''/'' @ segmentRegex seg) segs) @ r) =
     map_option ((@) (concat (map (\<lambda>seg. RLit CHR ''/'' # seg_rx seg) segs))) (re_compile r)"
proof (induction segs)
  case Nil
  show ?case by (cases "re_compile r") simp_all
next
  case (Cons seg segs)
  then show ?case by (cases "re_compile r") (simp_all add: compile_slash compile_seg)
qed

lemma compile_Regex: "re_compile (Regex segs tl') = Some (glob_rx segs tl')"
proof -
  have e: "re_compile [] = Some []" by (subst re_compile.simps) simp
  have "re_compile ((if tl' then ''(/.*)?'' else []) @ ''$'')
      = Some ((if tl' then [RTail] else []) @ [REnd])"
    using compile_tail [of "''$''"] e by (simp add: compile_anchors)
  then show ?thesis
    using compile_segs [of segs] by (simp add: Regex_def glob_rx_def compile_anchors)
qed

lemma re_here_pos: "RBegin \<notin> set rs \<Longrightarrow> re_here rs st s = re_here rs st' s"
  by (induction rs st s arbitrary: st' rule: re_here.induct) auto

lemma re_search_anchored: "re_search (RBegin # rs) True s = re_here rs True s"
proof -
  have "\<not> re_search (RBegin # rs) False t" for t by (induction t) auto
  then show ?thesis by (cases s) auto
qed

lemma here_plus:
  "re_here (RSegPlus # rs) st s \<longleftrightarrow>
     (\<exists>x y. s = x @ y \<and> tmatch [TAny, TStar0] x \<and> re_here rs False y)"
proof -
  have star: "tmatch [TStar0] x \<longleftrightarrow> CHR ''/'' \<notin> set x" for x by (induction x) auto
  have "re_here (RSegPlus # rs) st s \<longleftrightarrow>
      (\<exists>x y. s = x @ y \<and> x \<noteq> [] \<and> CHR ''/'' \<notin> set x \<and> re_here rs False y)" for st
  proof (induction s arbitrary: st)
    case Nil
    then show ?case by simp
  next
    case (Cons d ds)
    show ?case (is "?l = ?r")
    proof
      assume ?l
      then have d: "d \<noteq> CHR ''/''" and
        "re_here rs False ds \<or> re_here (RSegPlus # rs) False ds" by auto
      then show ?r
      proof (elim disjE)
        assume "re_here rs False ds"
        with d show ?r by (intro exI [of _ "[d]"] exI [of _ ds]) auto
      next
        assume "re_here (RSegPlus # rs) False ds"
        then obtain x y where "ds = x @ y" "x \<noteq> []" "CHR ''/'' \<notin> set x" "re_here rs False y"
          using Cons by blast
        with d show ?r by (intro exI [of _ "d # x"] exI [of _ y]) auto
      qed
    next
      assume ?r
      then obtain x y where xy: "d # ds = x @ y" "x \<noteq> []" "CHR ''/'' \<notin> set x" "re_here rs False y"
        by blast
      then obtain x' where x': "x = d # x'" "ds = x' @ y" by (cases x) auto
      show ?l
      proof (cases "x' = []")
        case True
        then show ?thesis using xy x' by auto
      next
        case False
        then have "re_here (RSegPlus # rs) False ds" using Cons xy x' by auto
        then show ?thesis using xy x' by auto
      qed
    qed
  qed
  moreover have "tmatch [TAny, TStar0] x \<longleftrightarrow> x \<noteq> [] \<and> CHR ''/'' \<notin> set x" for x
    using star by (cases x) auto
  ultimately show ?thesis by simp
qed

lemma tmatch_star0: "tmatch [TStar0] x \<longleftrightarrow> CHR ''/'' \<notin> set x"
  by (induction x) auto

lemma split_plus:
  "(\<exists>x y. d # ds = x @ y \<and> tmatch [TAny, TStar0] x \<and> P y) \<longleftrightarrow>
     d \<noteq> CHR ''/'' \<and> (\<exists>x y. ds = x @ y \<and> CHR ''/'' \<notin> set x \<and> P y)" (is "?l \<longleftrightarrow> ?r")
proof
  assume ?l
  then obtain x y where "d # ds = x @ y" "tmatch [TAny, TStar0] x" "P y" by blast
  then show ?r by (cases x) (auto simp: tmatch_star0)
next
  assume ?r
  then obtain x y where xy: "d \<noteq> CHR ''/''" "ds = x @ y" "CHR ''/'' \<notin> set x" "P y" by blast
  then show ?l
    by (intro exI [of _ "d # x"] exI [of _ y]) (simp add: tmatch_star0)
qed

lemma split_three:
  "(\<exists>x y z. s = x @ y @ z \<and> A x \<and> B y \<and> C z) \<longleftrightarrow>
     (\<exists>w z. s = w @ z \<and> (\<exists>x y. w = x @ y \<and> A x \<and> B y) \<and> C z)"
  by (metis append.assoc)

lemma tmatch_plus_append:
  "tmatch (TAny # TStar0 # ts) s \<longleftrightarrow>
     (\<exists>x y. s = x @ y \<and> tmatch [TAny, TStar0] x \<and> tmatch ts y)"
proof -
  have star: "tmatch (TStar0 # ts) s \<longleftrightarrow> (\<exists>x y. s = x @ y \<and> CHR ''/'' \<notin> set x \<and> tmatch ts y)" for s
  proof (induction s)
    case Nil
    then show ?case by simp
  next
    case (Cons d ds)
    show ?case (is "?l = ?r")
    proof
      assume ?l
      then consider "tmatch ts (d # ds)" | "d \<noteq> CHR ''/''" "tmatch (TStar0 # ts) ds" by auto
      then show ?r
      proof cases
        case 1
        then show ?r by (intro exI [of _ "[]"] exI [of _ "d # ds"]) simp
      next
        case 2
        with Cons obtain x y where "ds = x @ y" "CHR ''/'' \<notin> set x" "tmatch ts y" by blast
        with 2 show ?r by (intro exI [of _ "d # x"] exI [of _ y]) auto
      qed
    next
      assume ?r
      then obtain x y where "d # ds = x @ y" "CHR ''/'' \<notin> set x" "tmatch ts y" by blast
      then show ?l using Cons by (cases x) auto
    qed
  qed
  show ?thesis
  proof (cases s)
    case Nil
    then show ?thesis by auto
  next
    case (Cons d ds)
    show ?thesis using star [of ds] split_plus [of d ds "tmatch ts"] Cons by simp
  qed
qed

lemma here_seg:
  "RBegin \<notin> set rs \<Longrightarrow> re_here (seg_rx seg @ rs) st s \<longleftrightarrow>
     (\<exists>x y. s = x @ y \<and> tmatch (tokens seg) x \<and> re_here rs False y)"
proof (induction seg arbitrary: st s)
  case Nil
  then show ?case using re_here_pos [of rs st s False] by (simp add: seg_rx_def)
next
  case (Cons c seg)
  show ?case
  proof (cases "c = CHR ''*''")
    case True
    have t: "tmatch (tokens (c # seg)) w \<longleftrightarrow>
        (\<exists>x y. w = x @ y \<and> tmatch [TAny, TStar0] x \<and> tmatch (tokens seg) y)" for w
      using True tmatch_plus_append [of "tokens seg" w] by simp
    have "re_here (seg_rx (c # seg) @ rs) st s = re_here (RSegPlus # seg_rx seg @ rs) st s"
      using True by (simp add: seg_rx_def)
    also have "\<dots> \<longleftrightarrow> (\<exists>x u. s = x @ u \<and> tmatch [TAny, TStar0] x \<and>
        (\<exists>y z. u = y @ z \<and> tmatch (tokens seg) y \<and> re_here rs False z))"
      by (simp only: here_plus Cons.IH [OF Cons.prems])
    also have "\<dots> \<longleftrightarrow> (\<exists>x y z. s = x @ y @ z \<and> tmatch [TAny, TStar0] x \<and> tmatch (tokens seg) y
        \<and> re_here rs False z)"
      by blast
    also have "\<dots> \<longleftrightarrow> (\<exists>x y. s = x @ y \<and> tmatch (tokens (c # seg)) x \<and> re_here rs False y)"
      unfolding t by (rule split_three)
    finally show ?thesis .
  next
    case False
    then have "re_here (seg_rx (c # seg) @ rs) st s = re_here (RLit c # seg_rx seg @ rs) st s"
      by (simp add: seg_rx_def)
    also have "\<dots> \<longleftrightarrow> (\<exists>t. s = c # t \<and> (\<exists>x y. t = x @ y \<and> tmatch (tokens seg) x \<and> re_here rs False y))"
      using Cons.IH [OF Cons.prems] by (cases s) auto
    also have "\<dots> \<longleftrightarrow> (\<exists>x y. s = x @ y \<and> tmatch (TChar c # tokens seg) x \<and> re_here rs False y)"
      (is "?l \<longleftrightarrow> ?r")
    proof
      assume ?l
      then obtain x y where "s = c # x @ y" "tmatch (tokens seg) x" "re_here rs False y" by blast
      then show ?r by (intro exI [of _ "c # x"] exI [of _ y]) simp
    next
      assume ?r
      then obtain x y where "s = x @ y" "tmatch (TChar c # tokens seg) x" "re_here rs False y"
        by blast
      then show ?l by (cases x) auto
    qed
    also have "\<dots> \<longleftrightarrow> (\<exists>x y. s = x @ y \<and> tmatch (tokens (c # seg)) x \<and> re_here rs False y)"
      using False by simp
    finally show ?thesis .
  qed
qed

text \<open>The paths a pattern matches, segment by segment.\<close>

definition tail_rest :: "bool \<Rightarrow> string \<Rightarrow> bool" where
  "tail_rest tl' r \<longleftrightarrow> r = [] \<or> tl' \<and> (\<exists>u. r = CHR ''/'' # u \<and> CHR 0x0A \<notin> set u)"

definition slashed :: "string list \<Rightarrow> string" where
  "slashed xs = concat (map (\<lambda>x. CHR ''/'' # x) xs)"

definition path_lang :: "string list \<Rightarrow> bool \<Rightarrow> string \<Rightarrow> bool" where
  "path_lang segs tl' path \<longleftrightarrow>
     (\<exists>xs r. list_all2 (\<lambda>seg x. tmatch (tokens seg) x) segs xs \<and> path = slashed xs @ r \<and> tail_rest tl' r)"

lemma slashed_simps [simp]: "slashed [] = []" "slashed (x # xs) = CHR ''/'' # x @ slashed xs"
  by (simp_all add: slashed_def)

lemma here_end: "re_here [REnd] st s \<longleftrightarrow> s = []"
  by simp

lemma here_dotstar: "re_here [RDotStar, REnd] st s \<longleftrightarrow> CHR 0x0A \<notin> set s"
  by (induction s arbitrary: st) auto

lemma here_tail: "re_here ((if tl' then [RTail] else []) @ [REnd]) st s \<longleftrightarrow> tail_rest tl' s"
  by (cases s) (auto simp: tail_rest_def here_dotstar)

lemma here_segs:
  "re_here (concat (map (\<lambda>seg. RLit CHR ''/'' # seg_rx seg) segs)
       @ (if tl' then [RTail] else []) @ [REnd]) st s \<longleftrightarrow> path_lang segs tl' s"
proof (induction segs arbitrary: st s)
  case Nil
  show ?case using here_tail [of tl' st s] by (simp add: path_lang_def)
next
  case (Cons seg segs)
  let ?rs = "concat (map (\<lambda>seg. RLit CHR ''/'' # seg_rx seg) segs)
       @ (if tl' then [RTail] else []) @ [REnd]"
  have nb: "RBegin \<notin> set ?rs" by (auto simp: seg_rx_def)
  have "re_here (concat (map (\<lambda>seg. RLit CHR ''/'' # seg_rx seg) (seg # segs))
       @ (if tl' then [RTail] else []) @ [REnd]) st s
     \<longleftrightarrow> (\<exists>t. s = CHR ''/'' # t \<and> re_here (seg_rx seg @ ?rs) False t)"
    by (cases s) auto
  also have "\<dots> \<longleftrightarrow> (\<exists>x y. s = CHR ''/'' # x @ y \<and> tmatch (tokens seg) x \<and> path_lang segs tl' y)"
    unfolding here_seg [OF nb] Cons.IH by auto
  also have "\<dots> \<longleftrightarrow> path_lang (seg # segs) tl' s"
    unfolding path_lang_def list_all2_Cons1 by fastforce
  finally show ?case .
qed

lemma Matches_lang:
  assumes "re p = glob_rx (segments p) (tail p)"
  shows "Matches p path \<longleftrightarrow> path_lang (segments p) (tail p) path"
proof -
  let ?rs = "concat (map (\<lambda>seg. RLit CHR ''/'' # seg_rx seg) (segments p))
       @ (if tail p then [RTail] else []) @ [REnd]"
  have "Matches p path \<longleftrightarrow> re_search (RBegin # ?rs) True path"
    by (simp add: Matches_def assms glob_rx_def)
  also have "\<dots> \<longleftrightarrow> re_here ?rs True path"
    by (simp only: re_search_anchored re_here.simps simp_thms)
  also have "\<dots> \<longleftrightarrow> path_lang (segments p) (tail p) path"
    by (rule here_segs)
  finally show ?thesis .
qed

subsection \<open>What \<open>Parse\<close> guarantees\<close>

definition pattern_wf :: "pattern \<Rightarrow> bool" where
  "pattern_wf p \<longleftrightarrow> segments p \<noteq> [] \<and> list_all seg_ok (segments p) \<and>
     re p = glob_rx (segments p) (tail p)"

lemma check_segs_None:
  "check_segs segs = None \<Longrightarrow> list_all seg_ok (butlast segs) \<and>
     (segs \<noteq> [] \<longrightarrow> last segs = ''**'' \<or> seg_ok (last segs))"
proof (induction segs)
  case Nil
  then show ?case by simp
next
  case (Cons seg rest)
  have ih: "list_all seg_ok (butlast rest) \<and> (rest \<noteq> [] \<longrightarrow> last rest = ''**'' \<or> seg_ok (last rest))"
    and c: "check_seg (rest = []) seg = None"
    using Cons by (auto split: option.splits)
  have "seg = ''**'' \<and> rest = [] \<or> seg_ok seg"
    using c by (auto simp: check_seg_def seg_ok_def split: if_splits)
  with ih show ?case by auto
qed

lemma Parse_wf:
  assumes "Parse s = Inr p"
  shows "pattern_wf p" and "raw p = s"
proof -
  let ?segs = "split_on CHR ''/'' (drop 1 s)"
  let ?tl = "last ?segs = ''**''"
  let ?segs' = "if ?tl then butlast ?segs else ?segs"
  have c: "check_segs ?segs = None"
    using assms by (auto simp: Parse_def Let_def split: if_splits option.splits)
  have ne: "\<not> (?tl \<and> ?segs' = [])"
    using assms c by (auto simp: Parse_def Let_def split: if_splits option.splits)
  have p: "p = \<lparr>raw = s, segments = ?segs', tail = ?tl, re = glob_rx ?segs' ?tl\<rparr>"
    using assms c ne by (auto simp: Parse_def Let_def compile_Regex split: if_splits)
  have "list_all seg_ok ?segs'"
  proof (cases "?tl")
    case True
    then show ?thesis using check_segs_None [OF c] by simp
  next
    case False
    then have "seg_ok (last ?segs)" "list_all seg_ok (butlast ?segs)"
      using check_segs_None [OF c] by simp_all
    then have "list_all seg_ok (butlast ?segs @ [last ?segs])"
      by (simp only: list_all_append list.pred_inject simp_thms)
    then have "list_all seg_ok ?segs" by (simp only: append_butlast_last_id split_on_ne not_False_eq_True)
    then show ?thesis using False by (simp only: if_False)
  qed
  moreover have "?segs' \<noteq> []" using ne by (cases "?tl") auto
  ultimately show "pattern_wf p" and "raw p = s"
    unfolding p pattern_wf_def by simp_all
qed

lemma Parse_never_compile_error: "Parse s \<noteq> Inl (GECompile e)"
proof
  assume "Parse s = Inl (GECompile e)"
  moreover have "check_segs xs \<noteq> Some (GECompile e)" for xs
    by (induction xs) (auto simp: check_seg_def split: option.splits if_splits)
  ultimately show False
    by (auto simp: Parse_def Let_def compile_Regex split: if_splits option.splits)
qed

lemma Parse_matches:
  assumes "Parse s = Inr p"
  shows "Matches p path \<longleftrightarrow> path_lang (segments p) (tail p) path"
  using Parse_wf [OF assms] Matches_lang unfolding pattern_wf_def by blast

subsection \<open>Overlap is exactly a common path\<close>

lemma slashed_split:
  assumes "slashed xs @ r = slashed ys @ q" "length xs \<le> length ys"
    "\<forall>x\<in>set xs. CHR ''/'' \<notin> set x" "\<forall>y\<in>set ys. CHR ''/'' \<notin> set y"
    "tail_rest tp r" "tail_rest tq q"
  shows "take (length xs) ys = xs \<and> r = slashed (drop (length xs) ys) @ q"
  using assms
proof (induction xs arbitrary: ys)
  case Nil
  then show ?case by simp
next
  case (Cons x xs)
  then obtain y ys' where ys: "ys = y # ys'" by (cases ys) auto
  have hd_rest: "slashed zs @ u = [] \<or> hd (slashed zs @ u) = CHR ''/''"
    if "tail_rest t u" for zs u t
    using that by (cases zs) (auto simp: tail_rest_def)
  have eq: "x @ (slashed xs @ r) = y @ (slashed ys' @ q)" using Cons.prems(1) ys by simp
  have fx: "CHR ''/'' \<notin> set x" "CHR ''/'' \<notin> set y" using Cons.prems ys by auto
  have "x = y"
  proof -
    have tw: "takeWhile (\<lambda>c. c \<noteq> CHR ''/'') (z @ w) = z"
      if "CHR ''/'' \<notin> set z" "w = [] \<or> hd w = CHR ''/''" for z w
    proof -
      have "takeWhile (\<lambda>c. c \<noteq> CHR ''/'') (z @ w) = z @ takeWhile (\<lambda>c. c \<noteq> CHR ''/'') w"
        using that(1) by (intro takeWhile_append2) auto
      then show ?thesis using that(2) by (cases w) auto
    qed
    have "x = takeWhile (\<lambda>c. c \<noteq> CHR ''/'') (x @ (slashed xs @ r))"
      using tw [OF fx(1) hd_rest [OF Cons.prems(5)]] by simp
    also have "\<dots> = y" unfolding eq using tw [OF fx(2) hd_rest [OF Cons.prems(6)]] by simp
    finally show ?thesis .
  qed
  moreover from this eq have "slashed xs @ r = slashed ys' @ q" by simp
  ultimately show ?case using Cons ys by simp
qed

text \<open>A string every well-formed segment matches: each wildcard stands for one \<open>a\<close>.\<close>

definition seg_instance :: "string \<Rightarrow> string" where
  "seg_instance seg = map (\<lambda>c. if c = CHR ''*'' then CHR ''a'' else c) seg"

lemma seg_instance_match: "tmatch (tokens seg) (seg_instance seg)"
proof -
  have "tmatch (TStar0 # ts) s" if "tmatch ts s" for ts s
    using that by (cases s) auto
  then show ?thesis by (induction seg) (auto simp: seg_instance_def)
qed

lemma seg_instance_no_newline: "seg_ok seg \<Longrightarrow> CHR 0x0A \<notin> set (seg_instance seg)"
  using seg_ok_chars by (fastforce simp: seg_instance_def)

lemma slashed_no_newline:
  "\<forall>x\<in>set xs. CHR 0x0A \<notin> set x \<Longrightarrow> CHR 0x0A \<notin> set (slashed xs)"
  by (induction xs) auto

lemma common_path_shorter:
  assumes p: "pattern_wf p" and q: "pattern_wf q"
    and le: "length (segments p) \<le> length (segments q)"
  shows "(list_all (\<lambda>(a, b). segmentsOverlap a b = Some True) (zip (segments p) (segments q)) \<and>
      (length (segments p) < length (segments q) \<longrightarrow> tail p)) \<longleftrightarrow>
     (\<exists>path. path_lang (segments p) (tail p) path \<and> path_lang (segments q) (tail q) path)"
    (is "?ov \<longleftrightarrow> ?common")
proof
  let ?n = "length (segments p)"
  have ns: "CHR ''/'' \<notin> set a" if "a \<in> set (segments p) \<union> set (segments q)" for a
    using that p q seg_ok_no_slash by (auto simp: pattern_wf_def list_all_iff)
  {
    assume ?ov
    then have ex: "\<exists>w. tmatch (tokens (segments p ! i)) w \<and> tmatch (tokens (segments q ! i)) w"
      if "i < ?n" for i
      using that le ns segmentsOverlap_iff [of "segments p ! i" "segments q ! i"]
      by (auto simp: list_all_length)
    then obtain w where w: "i < ?n \<Longrightarrow>
        tmatch (tokens (segments p ! i)) (w i) \<and> tmatch (tokens (segments q ! i)) (w i)" for i
      by metis
    let ?xs = "map w [0..<?n]"
    let ?ys = "map seg_instance (drop ?n (segments q))"
    have mp: "list_all2 (\<lambda>seg x. tmatch (tokens seg) x) (segments p) ?xs"
      using w by (auto simp: list_all2_conv_all_nth)
    have "list_all2 (\<lambda>seg x. tmatch (tokens seg) x)
        (take ?n (segments q) @ drop ?n (segments q)) (?xs @ ?ys)"
      using w le seg_instance_match by (intro list_all2_appendI) (auto simp: list_all2_conv_all_nth)
    then have mq: "list_all2 (\<lambda>seg x. tmatch (tokens seg) x) (segments q) (?xs @ ?ys)" by simp
    have "tail_rest (tail p) (slashed ?ys)"
    proof (cases "drop ?n (segments q)")
      case Nil
      then show ?thesis by (simp add: tail_rest_def)
    next
      case (Cons s ss)
      then have tp: "tail p" using \<open>?ov\<close> le by (cases "?n = length (segments q)") auto
      have sub: "set (s # ss) \<subseteq> set (segments q)" using Cons set_drop_subset by metis
      then have nl: "CHR 0x0A \<notin> set (seg_instance t)" if "t \<in> set (s # ss)" for t
        using that q seg_instance_no_newline by (auto simp: pattern_wf_def list_all_iff)
      then have "CHR 0x0A \<notin> set (slashed (map seg_instance ss))"
        by (intro slashed_no_newline) auto
      then show ?thesis using Cons tp nl by (simp add: tail_rest_def)
    qed
    then have "path_lang (segments p) (tail p) (slashed (?xs @ ?ys))"
      unfolding path_lang_def using mp
      by (intro exI [of _ ?xs] exI [of _ "slashed ?ys"]) (simp add: slashed_def)
    moreover have "path_lang (segments q) (tail q) (slashed (?xs @ ?ys))"
      unfolding path_lang_def using mq
      by (intro exI [of _ "?xs @ ?ys"] exI [of _ "[]"]) (simp add: tail_rest_def)
    ultimately show ?common by blast
  next
    assume ?common
    then obtain xs ys r t where
      xs: "list_all2 (\<lambda>seg x. tmatch (tokens seg) x) (segments p) xs" "tail_rest (tail p) r" and
      ys: "list_all2 (\<lambda>seg x. tmatch (tokens seg) x) (segments q) ys" "tail_rest (tail q) t" and
      eq: "slashed xs @ r = slashed ys @ t"
      unfolding path_lang_def by metis
    have len: "length xs = ?n" "length ys = length (segments q)"
      using xs ys by (auto dest: list_all2_lengthD)
    have fr: "\<forall>x\<in>set xs. CHR ''/'' \<notin> set x" "\<forall>y\<in>set ys. CHR ''/'' \<notin> set y"
      using xs(1) ys(1) ns tmatch_no_slash slash_free_tokens
      by (fastforce simp: list_all2_conv_all_nth in_set_conv_nth)+
    have sp: "take ?n ys = xs \<and> r = slashed (drop ?n ys) @ t"
      using slashed_split [OF eq _ fr xs(2) ys(2)] len le by simp
    have "segmentsOverlap (segments p ! i) (segments q ! i) = Some True" if i: "i < ?n" for i
    proof -
      have "xs ! i = ys ! i" using sp i nth_take [of i ?n ys] by simp
      then show ?thesis
        using xs(1) ys(1) i le len ns segmentsOverlap_iff [of "segments p ! i" "segments q ! i"]
        by (auto simp: list_all2_conv_all_nth)
    qed
    moreover have "tail p" if "?n < length (segments q)"
    proof -
      have "drop ?n ys \<noteq> []" using that len by simp
      then have "r \<noteq> []" using sp by (cases "drop ?n ys") auto
      then show ?thesis using xs(2) by (auto simp: tail_rest_def)
    qed
    ultimately show ?ov using le by (auto simp: list_all_length)
  }
qed

lemma segmentsOverlap_sym:
  assumes "CHR ''/'' \<notin> set a" "CHR ''/'' \<notin> set b"
  shows "segmentsOverlap a b = Some True \<longleftrightarrow> segmentsOverlap b a = Some True"
  using segmentsOverlap_iff assms by blast

lemma wf_overlaps_iff:
  assumes p: "pattern_wf p" and q: "pattern_wf q"
  shows "Overlaps p q \<longleftrightarrow> (\<exists>path. Matches p path \<and> Matches q path)"
proof -
  have mp: "Matches p path \<longleftrightarrow> path_lang (segments p) (tail p) path"
    and mq: "Matches q path \<longleftrightarrow> path_lang (segments q) (tail q) path" for path
    using p q Matches_lang by (auto simp: pattern_wf_def)
  show ?thesis
  proof (cases "length (segments p) \<le> length (segments q)")
    case True
    then show ?thesis
      using common_path_shorter [OF p q True] unfolding mp mq by (auto simp: Overlaps_def)
  next
    case False
    then have le: "length (segments q) \<le> length (segments p)" by simp
    have "list_all (\<lambda>(a, b). segmentsOverlap a b = Some True) (zip (segments p) (segments q)) \<longleftrightarrow>
        list_all (\<lambda>(a, b). segmentsOverlap a b = Some True) (zip (segments q) (segments p))"
      using p q segmentsOverlap_sym seg_ok_no_slash
      by (auto simp: list_all_length pattern_wf_def)
    then show ?thesis
      using common_path_shorter [OF q p le] False unfolding mp mq
      by (auto simp: Overlaps_def)
  qed
qed

lemma Overlaps_commute: "pattern_wf p \<Longrightarrow> pattern_wf q \<Longrightarrow> Overlaps p q \<longleftrightarrow> Overlaps q p"
  using wf_overlaps_iff by blast

subsection \<open>The contract of a path language\<close>

text \<open>
  What the route checks rely on: two parsed patterns clash exactly when some path is accepted by
  both.  Tables of patterns without clashes then give every request at most one owner.
\<close>

locale path_language =
  fixes parse :: "string \<Rightarrow> 'e + 'p"
    and accepts :: "'p \<Rightarrow> string \<Rightarrow> bool"
    and clashes :: "'p \<Rightarrow> 'p \<Rightarrow> bool"
  assumes clashes_iff: "parse g = Inr p \<Longrightarrow> parse h = Inr q \<Longrightarrow>
    clashes p q \<longleftrightarrow> (\<exists>path. accepts p path \<and> accepts q path)"
begin

lemma clash_sym: "parse g = Inr p \<Longrightarrow> parse h = Inr q \<Longrightarrow> clashes p q \<longleftrightarrow> clashes q p"
  using clashes_iff [of g p h q] clashes_iff [of h q g p] by blast

lemma separated:
  assumes "parse g = Inr p" "parse h = Inr q" "\<not> clashes p q" "accepts p path"
  shows "\<not> accepts q path"
  using clashes_iff [OF assms(1,2)] assms(3,4) by blast

lemma unique_owner:
  assumes pairwise: "\<And>i j. i < j \<Longrightarrow> j < length table \<Longrightarrow> fst (table ! i) \<noteq> fst (table ! j) \<Longrightarrow>
      \<not> clashes (snd (table ! i)) (snd (table ! j))"
    and parsed: "\<And>row. row \<in> set table \<Longrightarrow> \<exists>g. parse g = Inr (snd row)"
    and rows: "a \<in> set table" "b \<in> set table"
    and acc: "accepts (snd a) path" "accepts (snd b) path"
  shows "fst a = fst b"
proof (rule ccontr)
  assume ne: "fst a \<noteq> fst b"
  obtain g h where gh: "parse g = Inr (snd a)" "parse h = Inr (snd b)"
    using parsed rows by metis
  obtain i j where ij: "i < length table" "table ! i = a" "j < length table" "table ! j = b"
    using rows by (auto simp: in_set_conv_nth)
  have "\<not> clashes (snd a) (snd b) \<or> \<not> clashes (snd b) (snd a)"
    using pairwise [of i j] pairwise [of j i] ij ne by (cases i j rule: linorder_cases) auto
  then have "\<not> clashes (snd a) (snd b)" using clash_sym gh by blast
  then show False using clashes_iff [OF gh] acc by blast
qed

end

interpretation glob: path_language Parse Matches Overlaps
  by unfold_locales (rule wf_overlaps_iff [OF Parse_wf(1) Parse_wf(1)])

end
