(* ===== verification/NginxAst.thy ===== *)
theory NginxAst
  imports PathGlob
begin

text \<open>
  nginx configurations as trees of directives, the value \<open>crossplane.Build\<close> prints, and the meaning
  of the few directives the renderers use: choice of a location, the rewrite phase with its \<open>if\<close> and
  \<open>return\<close>, \<open>proxy_pass\<close> with its headers, and \<open>map\<close> variables.  The meaning follows the nginx
  documentation; only the constructs of the renderers are understood.
\<close>

subsection \<open>Directives\<close>

datatype directive = Directive (d_name: string) (d_args: "string list") (d_block: "directive list option")

definition dir :: "string \<Rightarrow> string list \<Rightarrow> directive" where
  "dir name args = Directive name args None"

definition block :: "string \<Rightarrow> string list \<Rightarrow> directive list \<Rightarrow> directive" where
  "block name args children = Directive name args (Some children)"

lemma dir_simps [simp]:
  "d_name (dir n a) = n" "d_args (dir n a) = a" "d_block (dir n a) = None"
  "d_name (block n a c) = n" "d_args (block n a c) = a" "d_block (block n a c) = Some c"
  by (simp_all add: dir_def block_def)

definition Itoa :: "int \<Rightarrow> string" where
  "Itoa i = (if i < 0 then CHR ''-'' # itoa (nat (- i)) else itoa (nat i))"

lemma Itoa_inj: "Itoa i = Itoa j \<Longrightarrow> i = j"
proof -
  have d: "itoa n \<noteq> CHR ''-'' # s" for n s
    using itoa_digits [of "CHR ''-''" n] by auto
  show "Itoa i = Itoa j \<Longrightarrow> i = j"
    using d d [symmetric] by (auto simp: Itoa_def dest: itoa_inj split: if_splits)
qed

text \<open>The address of a \<open>listen\<close> directive.\<close>

definition children_of :: "directive \<Rightarrow> directive list" where
  "children_of d = (case d_block d of None \<Rightarrow> [] | Some c \<Rightarrow> c)"

definition named :: "string \<Rightarrow> directive list \<Rightarrow> directive list" where
  "named n ds = filter (\<lambda>d. d_name d = n) ds"

lemma children_of_simps [simp]: "children_of (block n a c) = c" "children_of (dir n a) = []"
  by (simp_all add: children_of_def)

lemma named_simps [simp]:
  "named n [] = []" "named n (d # ds) = (if d_name d = n then d # named n ds else named n ds)"
  "named n (xs @ ys) = named n xs @ named n ys"
  by (simp_all add: named_def)

definition listens :: "directive list \<Rightarrow> string list" where
  "listens ds = concat (map (\<lambda>s. map (hd \<circ> d_args) (named ''listen'' (children_of s))) (named ''server'' ds))"

lemma listens_simps [simp]:
  "listens [] = []"
  "listens (xs @ ys) = listens xs @ listens ys"
  "listens (d # ds) = (if d_name d = ''server'' then map (hd \<circ> d_args) (named ''listen'' (children_of d)) else []) @ listens ds"
  by (simp_all add: listens_def)

subsection \<open>Requests\<close>

text \<open>What a server does with a request: answer it, or proxy it with some headers set.\<close>

datatype outcome = Answer "string list" | Proxied string "(string \<times> string) list" | Unhandled

text \<open>
  The choice of a location: an exact match, else the first regular expression that matches, else the
  longest prefix.  \<open>rx\<close> is the matcher of regular expressions.
\<close>

definition exact_location :: "string \<Rightarrow> directive \<Rightarrow> bool" where
  "exact_location path d \<longleftrightarrow> d_name d = ''location'' \<and> d_args d = [''='', path]"

definition regex_location :: "(string \<Rightarrow> string \<Rightarrow> bool) \<Rightarrow> string \<Rightarrow> directive \<Rightarrow> bool" where
  "regex_location rx path d \<longleftrightarrow> d_name d = ''location'' \<and>
     (case d_args d of [m, rex] \<Rightarrow> m = ''~'' \<and> rx rex path | _ \<Rightarrow> False)"

definition prefix_location :: "string \<Rightarrow> directive \<Rightarrow> bool" where
  "prefix_location path d \<longleftrightarrow> d_name d = ''location'' \<and> (case d_args d of [p] \<Rightarrow> prefix p path | _ \<Rightarrow> False)"

fun longest_location :: "directive list \<Rightarrow> directive option" where
  "longest_location [] = None"
| "longest_location (d # ds) =
     (case longest_location ds of
        None \<Rightarrow> Some d
      | Some e \<Rightarrow> Some (if length (hd (d_args e)) > length (hd (d_args d)) then e else d))"

definition pick_location :: "(string \<Rightarrow> string \<Rightarrow> bool) \<Rightarrow> directive list \<Rightarrow> string \<Rightarrow> directive option" where
  "pick_location rx ds path =
     (case find (exact_location path) ds of
        Some d \<Rightarrow> Some d
      | None \<Rightarrow>
          (case find (regex_location rx path) ds of
             Some d \<Rightarrow> Some d
           | None \<Rightarrow> longest_location (filter (prefix_location path) ds)))"

text \<open>The rewrite phase runs before the content phase, wherever \<open>proxy_pass\<close> stands.\<close>

fun rewrite_phase :: "(string \<Rightarrow> string) \<Rightarrow> directive list \<Rightarrow> string list option" where
  "rewrite_phase vars [] = None"
| "rewrite_phase vars (d # ds) =
     (if d_name d = ''return'' then Some (d_args d)
      else if d_name d = ''if'' \<and> (case d_args d of [v, op, x] \<Rightarrow> op = ''='' \<and> vars v = x | _ \<Rightarrow> False)
      then (case named ''return'' (children_of d) of [] \<Rightarrow> rewrite_phase vars ds | r # rs \<Rightarrow> Some (d_args r))
      else rewrite_phase vars ds)"

fun set_headers :: "directive list \<Rightarrow> (string \<times> string) list" where
  "set_headers [] = []"
| "set_headers (d # ds) =
     (if d_name d = ''proxy_set_header''
      then (case d_args d of [h, v] \<Rightarrow> (h, v) # set_headers ds | _ \<Rightarrow> set_headers ds)
      else set_headers ds)"

definition run_location :: "(string \<Rightarrow> string) \<Rightarrow> directive list \<Rightarrow> outcome" where
  "run_location vars ds =
     (case rewrite_phase vars ds of
        Some args \<Rightarrow> Answer args
      | None \<Rightarrow>
          (case named ''proxy_pass'' ds of
             [] \<Rightarrow> Unhandled
           | p # ps \<Rightarrow> Proxied (concat (d_args p)) (set_headers ds)))"

definition serve :: "(string \<Rightarrow> string \<Rightarrow> bool) \<Rightarrow> (string \<Rightarrow> string) \<Rightarrow> directive \<Rightarrow> string \<Rightarrow> outcome" where
  "serve rx vars server path =
     (case pick_location rx (children_of server) path of
        None \<Rightarrow> Unhandled
      | Some d \<Rightarrow> run_location vars (children_of d))"

subsection \<open>Maps\<close>

text \<open>
  A map variable: an entry that equals the value, ignoring case, else the default.  The one regular
  expression of the renderers, which takes the common name from a subject, is the pair at the end.
\<close>

definition lower_char :: "char \<Rightarrow> char" where
  "lower_char c = (let n = of_char c :: nat in if 65 \<le> n \<and> n \<le> 90 then char_of (n + 32) else c)"

definition lower :: "string \<Rightarrow> string" where
  "lower = map lower_char"

definition cn_regex :: string where
  "cn_regex = ''~^CN=(?<cn>.+)$''"

definition cn_of :: "string \<Rightarrow> string option" where
  "cn_of dn = (if prefix ''CN='' dn \<and> length dn > 3 \<and> CHR 0x0A \<notin> set dn then Some (drop 3 dn) else None)"

text \<open>A key of a map block that nginx takes literally: \<open>default\<close> and \<open>include\<close> are directives of the
  block, and a key with a tilde is a regular expression.\<close>

definition plain_key :: "string \<Rightarrow> bool" where
  "plain_key k \<longleftrightarrow> k \<noteq> ''default'' \<and> k \<noteq> ''include'' \<and> (\<forall>c\<in>set (take 1 k). c \<noteq> CHR ''~'')"

definition entry_value :: "directive \<Rightarrow> string" where
  "entry_value e = concat (d_args e)"

definition map_value :: "directive list \<Rightarrow> string \<Rightarrow> string" where
  "map_value entries v =
     (case find (\<lambda>e. plain_key (d_name e) \<and> lower (d_name e) = lower v) entries of
        Some e \<Rightarrow> entry_value e
      | None \<Rightarrow>
          (case find (\<lambda>e. d_name e = cn_regex) entries of
             Some e \<Rightarrow>
               (case cn_of v of
                  Some cn \<Rightarrow> if entry_value e = ''$cn'' then cn else entry_value e
                | None \<Rightarrow> concat (map entry_value (take 1 (named ''default'' entries))))
           | None \<Rightarrow> concat (map entry_value (take 1 (named ''default'' entries)))))"

text \<open>The variables after the maps of a context; a later map of one variable replaces an earlier.\<close>

fun map_vars :: "directive list \<Rightarrow> (string \<Rightarrow> string) \<Rightarrow> (string \<Rightarrow> string)" where
  "map_vars [] vars = vars"
| "map_vars (d # ds) vars =
     (if d_name d = ''map'' then
        (case d_args d of
           [src, dst] \<Rightarrow> map_vars ds (vars(dst := map_value (children_of d) (vars src)))
         | _ \<Rightarrow> map_vars ds vars)
      else map_vars ds vars)"

subsection \<open>Facts\<close>

lemma map_vars_append: "map_vars (xs @ ys) vars = map_vars ys (map_vars xs vars)"
  by (induction xs arbitrary: vars) (simp_all split: list.splits)

lemma map_vars_skip: "named ''map'' ds = [] \<Longrightarrow> map_vars ds vars = vars"
  by (induction ds arbitrary: vars) (auto split: if_splits)

lemma find_append: "find P (xs @ ys) = (case find P xs of None \<Rightarrow> find P ys | Some x \<Rightarrow> Some x)"
  by (induction xs) auto

lemma find_map_Some: "find P (map f xs) = map_option f (find (P \<circ> f) xs)"
  by (induction xs) auto

lemma find_eq_Some: "find P xs = Some x \<Longrightarrow> x \<in> set xs \<and> P x"
  by (induction xs) (auto split: if_splits)

lemma exact_block [simp]:
  "exact_location path (block ''location'' a c) \<longleftrightarrow> a = [''='', path]"
  "regex_location rx path (block ''location'' [rex] c) = False"
  "regex_location rx path (block ''location'' [m, rex] c) \<longleftrightarrow> m = ''~'' \<and> rx rex path"
  "prefix_location path (block ''location'' [p] c) \<longleftrightarrow> prefix p path"
  "prefix_location path (block ''location'' [m, rex] c) = False"
  by (auto simp: exact_location_def regex_location_def prefix_location_def)

lemma not_location [simp]:
  "n \<noteq> ''location'' \<Longrightarrow> \<not> exact_location path (dir n a)"
  "n \<noteq> ''location'' \<Longrightarrow> \<not> regex_location rx path (dir n a)"
  "n \<noteq> ''location'' \<Longrightarrow> \<not> prefix_location path (dir n a)"
  by (simp_all add: exact_location_def regex_location_def prefix_location_def)

subsection \<open>Regular-expression locations of path globs\<close>

text \<open>The regular expressions of the configurations are those \<open>pathglob\<close> compiles.\<close>

definition path_rx :: "string \<Rightarrow> string \<Rightarrow> bool" where
  "path_rx rex path = (case re_compile rex of None \<Rightarrow> False | Some rs \<Rightarrow> re_search rs True path)"

lemma path_rx_Regex: "Parse g = Inr p \<Longrightarrow> path_rx (Regex (segments p) (tail p)) path \<longleftrightarrow> Matches p path"
  using Parse_wf(1) by (auto simp: path_rx_def compile_Regex Matches_def pattern_wf_def)

text \<open>A server whose locations are exact ones, then regular expressions, then one catch-all.\<close>

lemma pick_plain:
  assumes "\<forall>d\<in>set plain. d_name d \<noteq> ''location''"
    and "\<forall>d\<in>set exact. d_name d = ''location'' \<and> (\<exists>p. d_args d = [''='', p])"
    and "\<forall>d\<in>set regex. d_name d = ''location'' \<and> (\<exists>re. d_args d = [''~'', re])"
    and "d_name last_loc = ''location''" "d_args last_loc = [''/'']"
  shows "pick_location rx (plain @ exact @ regex @ [last_loc]) path =
     (case find (\<lambda>d. d_args d = [''='', path]) exact of
        Some d \<Rightarrow> Some d
      | None \<Rightarrow>
          (case find (\<lambda>d. rx (d_args d ! 1) path) regex of
             Some d \<Rightarrow> Some d
           | None \<Rightarrow> if prefix ''/'' path then Some last_loc else None))"
proof -
  have p: "find (exact_location path) plain = None" "find (regex_location rx path) plain = None"
    "filter (prefix_location path) plain = []"
    using assms(1) by (auto simp: find_None_iff filter_empty_conv exact_location_def regex_location_def prefix_location_def)
  have e: "find (exact_location path) exact = find (\<lambda>d. d_args d = [''='', path]) exact"
    "find (regex_location rx path) exact = None" "filter (prefix_location path) exact = []"
    using assms(2) by (auto simp: find_None_iff filter_empty_conv exact_location_def regex_location_def
        prefix_location_def intro!: find_cong)
  have r: "find (exact_location path) regex = None"
    "find (regex_location rx path) regex = find (\<lambda>d. rx (d_args d ! 1) path) regex" "filter (prefix_location path) regex = []"
    using assms(3) by (auto simp: find_None_iff filter_empty_conv exact_location_def regex_location_def
        prefix_location_def intro!: find_cong)
  have l: "\<not> exact_location path last_loc" "\<not> regex_location rx path last_loc"
    "prefix_location path last_loc \<longleftrightarrow> prefix ''/'' path"
    using assms(4,5) by (auto simp: exact_location_def regex_location_def prefix_location_def)
  show ?thesis
    unfolding pick_location_def
    by (simp add: find_append p e r l split: option.splits)
qed

text \<open>What an exact-key map gives.\<close>

lemma find_table:
  "\<forall>x\<in>set xs. plain_key (key x) \<Longrightarrow>
     find (\<lambda>e. plain_key (d_name e) \<and> lower (d_name e) = w) (map (\<lambda>x. dir (key x) [val x]) xs)
       = map_option (\<lambda>x. dir (key x) [val x]) (find (\<lambda>x. lower (key x) = w) xs)"
  by (induction xs) simp_all

lemma cn_regex_not_plain [simp]: "\<not> plain_key cn_regex" "\<not> plain_key ''default''" "cn_regex \<noteq> ''default''" "''default'' \<noteq> cn_regex"
  by (simp_all add: plain_key_def cn_regex_def)

lemma find_table_cn:
  "\<forall>x\<in>set xs. plain_key (key x) \<Longrightarrow> find (\<lambda>e. d_name e = cn_regex) (map (\<lambda>x. dir (key x) [val x]) xs) = None"
  using cn_regex_not_plain(1) by (induction xs) auto

lemma map_value_table:
  assumes "\<forall>x\<in>set xs. plain_key (key x)"
  shows "map_value (dir ''default'' [d] # map (\<lambda>x. dir (key x) [val x]) xs) v =
     (case find (\<lambda>x. lower (key x) = lower v) xs of Some x \<Rightarrow> val x | None \<Rightarrow> d)"
  by (simp add: map_value_def find_table [OF assms] find_table_cn [OF assms] entry_value_def split: option.splits)

end
