(* ===== verification/Types.thy ===== *)
theory Types
  imports Prelude
begin

text \<open>
  The declarative resource specs of \<open>internal/types/types.go\<close>, one record per Go struct, and the
  small pure methods on them.  A Go map that the code ranges over is an association list (its
  keys are distinct, its order is never relied on); a pointer field is an \<open>option\<close>; Go's \<open>int\<close>
  is \<^typ>\<open>int\<close> (ports and counts, never near the 64-bit bounds).
\<close>

record subnet_spec =
  sub_name :: string
  sub_cidr :: string

record network_spec =
  net_name :: string
  net_container :: string
  net_provider :: string
  net_cidr :: string
  net_subnets :: "subnet_spec list"

record ingress_spec =
  ing_name :: string
  ing_container :: string
  ing_host :: string
  ing_health_port :: int
  ing_security :: "bool option"

record app_spec =
  app_name :: string
  app_container :: string
  app_ingress :: string
  app_subdomain :: string
  app_spa :: bool

record gateway_spec =
  gw_name :: string
  gw_container :: string
  gw_host :: string
  gw_ingress :: string
  gw_pki :: string
  gw_subdomain :: string
  gw_services :: "string list"
  gw_health_port :: int
  gw_health_paths :: "string list"
  gw_security :: "bool option"

record firewall_rule =
  fr_proto :: string
  fr_port :: string

record deploy_user_spec =
  du_name :: string

record compute_spec =
  cmp_name :: string
  cmp_kind :: string
  cmp_container :: string
  cmp_provider :: string
  cmp_network :: string
  cmp_subnet :: string
  cmp_size :: string
  cmp_image :: string
  cmp_cloud_init :: string
  cmp_instances :: int
  cmp_firewall :: "firewall_rule list option"
  cmp_deploy_user :: "deploy_user_spec option"

record cluster_spec =
  cl_name :: string
  cl_container :: string
  cl_engine :: string
  cl_host :: string
  cl_provider :: string
  cl_version :: string

record backup_policy =
  bk_enabled :: "bool option"
  bk_interval :: string
  bk_keep :: int

record database_spec =
  db_name :: string
  db_container :: string
  db_cluster :: string
  db_database :: string
  db_owner :: string
  db_size_gb :: int
  db_backup :: backup_policy
  db_metrics :: "bool option"

record route_spec =
  rt_type :: string
  rt_listen :: int
  rt_target :: int
  rt_vanity :: "string list"

record mesh_spec =
  mesh_port :: int
  mesh_allowed :: "string list"
  mesh_public :: "string list"
  mesh_internal :: "string list"

record grant_spec =
  gr_resource :: string
  gr_permission :: string
  gr_outputs :: "(string \<times> string) list"

record exposed_port =
  ep_proto :: string
  ep_port :: int

record service_spec =
  svc_name :: string
  svc_container :: string
  svc_host :: string
  svc_type :: string
  svc_user :: string
  svc_pki :: string
  svc_mtls_files :: bool
  svc_reload :: string
  svc_ingress :: string
  svc_routes :: "route_spec list"
  svc_health_port :: int
  svc_health_paths :: "string list"
  svc_exposed :: "exposed_port list"
  svc_mesh :: "mesh_spec option"
  svc_grants :: "grant_spec list"
  svc_env :: "(string \<times> string) list"

record pki_resource_spec =
  pkr_name :: string
  pkr_container :: string
  pkr_topology :: string
  pkr_validity :: string

record resources =
  res_network :: "network_spec list"
  res_compute :: "compute_spec list"
  res_cluster :: "cluster_spec list"
  res_database :: "database_spec list"
  res_service :: "service_spec list"
  res_pki :: "pki_resource_spec list"
  res_ingress :: "ingress_spec list"
  res_app :: "app_spec list"
  res_gateway :: "gateway_spec list"

record provider_defaults =
  pd_compute :: string
  pd_database :: "string \<rightharpoonup> string"

record rate_limit_config =
  rl_enabled :: bool
  rl_rps :: int
  rl_burst :: int
  rl_maxconn :: int

record rate_limit_profile =
  rp_name :: string
  rp_rps :: int
  rp_burst :: int
  rp_maxconn :: int

subsection \<open>Constants\<close>

definition IngressTypeTLSTermination :: string where
  "IngressTypeTLSTermination = ''tls-termination''"

definition IngressTypeForward :: string where
  "IngressTypeForward = ''forward''"

definition DefaultHealthProbesPort :: int where
  "DefaultHealthProbesPort = 81"

definition GlobalPrefix :: string where
  "GlobalPrefix = ''global/''"

definition SelfHostedProvider :: string where
  "SelfHostedProvider = ''self-hosted''"

lemma route_types_differ [simp]: "IngressTypeForward \<noteq> IngressTypeTLSTermination"
  by (simp add: IngressTypeForward_def IngressTypeTLSTermination_def)

subsection \<open>Methods\<close>

definition ingress_health_port :: "ingress_spec \<Rightarrow> int" where
  "ingress_health_port s =
     (if ing_health_port s = 0 then DefaultHealthProbesPort else ing_health_port s)"

definition gateway_health_port :: "gateway_spec \<Rightarrow> int" where
  "gateway_health_port s =
     (if gw_health_port s = 0 then DefaultHealthProbesPort else gw_health_port s)"

definition MetricsEnabled :: "database_spec \<Rightarrow> bool" where
  "MetricsEnabled d = (case db_metrics d of None \<Rightarrow> True | Some b \<Rightarrow> b)"

definition HasAny :: "resources \<Rightarrow> bool" where
  "HasAny r \<longleftrightarrow>
     length (res_network r) + length (res_compute r) + length (res_cluster r) +
     length (res_database r) + length (res_service r) + length (res_pki r) +
     length (res_ingress r) + length (res_app r) + length (res_gateway r) > 0"

definition StripGlobalPrefix :: "string \<Rightarrow> string" where
  "StripGlobalPrefix name = trim_prefix GlobalPrefix name"

text \<open>The value (\<open>None\<close> when not found), the resolved region and the bare name.\<close>

definition ResolveScoped ::
  "(string \<rightharpoonup> string \<rightharpoonup> 'v) \<Rightarrow> string \<Rightarrow> string \<Rightarrow> 'v option \<times> string \<times> string" where
  "ResolveScoped m region name =
     (let (rr, bare) = (if prefix GlobalPrefix name
                        then (''global'', drop (length GlobalPrefix) name) else (region, name))
      in case m rr of
           None \<Rightarrow> (None, rr, bare)
         | Some inner \<Rightarrow> (inner bare, rr, bare))"

definition ResolveProvider :: "string \<Rightarrow> string \<Rightarrow> string \<Rightarrow> provider_defaults \<Rightarrow> string" where
  "ResolveProvider override cls engine d =
     (if override \<noteq> [] then override
      else if cls = ''compute'' \<or> cls = ''network'' then pd_compute d
      else if cls = ''database'' then
        (case pd_database d engine of
           Some p \<Rightarrow> if p \<noteq> [] then p else SelfHostedProvider
         | None \<Rightarrow> SelfHostedProvider)
      else [])"

definition ResolvedRateLimit :: "rate_limit_config \<Rightarrow> rate_limit_profile option" where
  "ResolvedRateLimit rl =
     (if \<not> rl_enabled rl \<or> (rl_rps rl \<le> 0 \<and> rl_maxconn rl \<le> 0) then None
      else Some \<lparr>rp_name = ''edge'', rp_rps = rl_rps rl, rp_burst = rl_burst rl,
                 rp_maxconn = rl_maxconn rl\<rparr>)"

subsection \<open>Lemmas\<close>

lemma health_port_nonzero [simp]:
  "ingress_health_port s \<noteq> 0" "gateway_health_port g \<noteq> 0"
  by (simp_all add: ingress_health_port_def gateway_health_port_def DefaultHealthProbesPort_def)

text \<open>Both readings of a \<open>global/\<close> reference agree on the bare name.\<close>

lemma ResolveScoped_bare: "snd (snd (ResolveScoped m region name)) = StripGlobalPrefix name"
  by (simp add: ResolveScoped_def StripGlobalPrefix_def trim_prefix_def Let_def
      split: option.splits)

lemma ResolveScoped_region:
  "fst (snd (ResolveScoped m region name)) =
     (if prefix GlobalPrefix name then ''global'' else region)"
  by (simp add: ResolveScoped_def Let_def split: option.splits)

lemma ResolveScoped_value:
  "fst (ResolveScoped m region name) =
     Option.bind (m (if prefix GlobalPrefix name then ''global'' else region))
       (\<lambda>inner. inner (StripGlobalPrefix name))"
  by (simp add: ResolveScoped_def StripGlobalPrefix_def trim_prefix_def Let_def
      split: option.splits)

lemma ResolveProvider_database_nonempty: "ResolveProvider ov ''database'' engine d \<noteq> []"
  by (simp add: ResolveProvider_def SelfHostedProvider_def split: option.splits)

end
