(* ===== verification/Ports.thy ===== *)
theory Ports
  imports Prelude
begin

text \<open>
  The host-local addresses inforge reserves: the mesh paths and ports of
  \<open>internal/meshpaths/meshpaths.go\<close>, the unit and runtime paths of \<open>internal/hostpaths\<close>, the
  PostgreSQL cluster ports and paths of \<open>internal/postgres/paths.go\<close>, the loopback ports of
  \<open>internal/nginx/paths.go\<close>, and the mesh certificate delivery contract and trust set of
  \<open>internal/meshcert/meshcert.go\<close>.
\<close>

subsection \<open>Mesh\<close>

definition MTLSPort :: int where "MTLSPort = 8443"
definition EgressBase :: int where "EgressBase = 9500"
definition MaxServices :: int where "MaxServices = 256"

definition mesh_RuntimeDir :: string where "mesh_RuntimeDir = ''/run/wardnet/mesh''"

definition LeafCertFile :: string where "LeafCertFile = ''leaf.crt''"
definition LeafKeyFile :: string where "LeafKeyFile = ''leaf.key''"
definition BundleKey :: string where "BundleKey = ''bundle.crt''"

definition LeafCertPath :: "string \<Rightarrow> string" where
  "LeafCertPath service = mesh_RuntimeDir @ ''/'' @ service @ ''/leaf.crt''"

definition LeafKeyPath :: "string \<Rightarrow> string" where
  "LeafKeyPath service = mesh_RuntimeDir @ ''/'' @ service @ ''/leaf.key''"

definition LeafCertKey :: "string \<Rightarrow> string" where
  "LeafCertKey service = service @ ''/'' @ LeafCertFile"

definition LeafKeyKey :: "string \<Rightarrow> string" where
  "LeafKeyKey service = service @ ''/'' @ LeafKeyFile"

definition DNSName :: "string \<Rightarrow> string \<Rightarrow> string" where
  "DNSName scope service = service @ ''.'' @ scope @ ''.mesh''"

definition EgressPort :: "int \<Rightarrow> int" where
  "EgressPort index = EgressBase + index"

definition GatewayMember :: string where "GatewayMember = ''gateway''"

definition GatewayEgressPort :: int where
  "GatewayEgressPort = EgressBase + MaxServices"

definition InReservedEgressRange :: "int \<Rightarrow> bool" where
  "InReservedEgressRange port \<longleftrightarrow> port \<ge> EgressBase \<and> port \<le> GatewayEgressPort"

lemmas mesh_port_defs = MTLSPort_def EgressBase_def MaxServices_def EgressPort_def
  GatewayEgressPort_def InReservedEgressRange_def

subsection \<open>Host paths\<close>

definition RuntimeSubdir :: "string \<Rightarrow> string" where
  "RuntimeSubdir service = ''wardnet/'' @ service"

definition host_RuntimeDir :: "string \<Rightarrow> string" where
  "host_RuntimeDir service = ''/run/'' @ RuntimeSubdir service"

definition host_UnitName :: "string \<Rightarrow> string" where
  "host_UnitName service = ''wardnet-'' @ service @ ''.service''"

subsection \<open>PostgreSQL clusters\<close>

definition PortBase :: int where "PortBase = 5432"
definition MaxClustersPerHost :: int where "MaxClustersPerHost = 32"
definition dataRoot :: string where "dataRoot = ''/var/lib/wardnet/db''"
definition DefaultVersion :: string where "DefaultVersion = ''17''"

definition MountDir :: "string \<Rightarrow> string" where "MountDir cluster = dataRoot @ ''/'' @ cluster"
definition DataDir :: "string \<Rightarrow> string" where "DataDir cluster = MountDir cluster @ ''/pgdata''"

definition pg_UnitName :: "string \<Rightarrow> string" where
  "pg_UnitName cluster = ''wardnet-db-'' @ cluster"

definition pg_ServiceName :: "string \<Rightarrow> string" where
  "pg_ServiceName cluster = pg_UnitName cluster @ ''.service''"

definition pg_UnitPath :: "string \<Rightarrow> string" where
  "pg_UnitPath cluster = ''/etc/systemd/system/'' @ pg_ServiceName cluster"

definition ClusterPort :: "int \<Rightarrow> int" where "ClusterPort index = PortBase + index"

definition InReservedPortRange :: "int \<Rightarrow> bool" where
  "InReservedPortRange port \<longleftrightarrow> port \<ge> PortBase \<and> port < PortBase + MaxClustersPerHost"

definition resolveVersion :: "string \<Rightarrow> string" where
  "resolveVersion version = (if version = [] then DefaultVersion else version)"

definition BinDir :: "string \<Rightarrow> string" where
  "BinDir version = ''/usr/lib/postgresql/'' @ resolveVersion version @ ''/bin''"

lemmas pg_port_defs = PortBase_def MaxClustersPerHost_def ClusterPort_def InReservedPortRange_def

subsection \<open>nginx\<close>

definition acmePort :: int where "acmePort = 80"
definition LoopbackBase :: int where "LoopbackBase = 11443"
definition MaxMixedPorts :: int where "MaxMixedPorts = 64"
definition GatewayHTTPPort :: int where "GatewayHTTPPort = 8442"

lemmas nginx_port_defs = acmePort_def LoopbackBase_def MaxMixedPorts_def GatewayHTTPPort_def

subsection \<open>Mesh certificate delivery\<close>

definition MtlsDir :: string where "MtlsDir = ''mtls''"

text \<open>A Go map literal with distinct keys is an association list.\<close>

definition CertFiles :: "string \<Rightarrow> string \<Rightarrow> string \<Rightarrow> (string \<times> string) list" where
  "CertFiles leafPEM keyPEM bundlePEM =
     [(''leaf.crt'', leafPEM), (''leaf.key'', keyPEM), (''bundle.crt'', bundlePEM)]"

definition BlobFiles :: "string \<Rightarrow> string \<Rightarrow> string \<Rightarrow> (string \<times> string) list" where
  "BlobFiles leafPEM keyPEM bundlePEM =
     map (\<lambda>(k, v). (MtlsDir @ ''/'' @ k, v)) (CertFiles leafPEM keyPEM bundlePEM)"

definition DescriptorFiles :: "(string \<times> string) list" where
  "DescriptorFiles =
     [(''MTLS_LEAF_CERT_PATH'', MtlsDir @ ''/leaf.crt''),
      (''MTLS_LEAF_KEY_PATH'', MtlsDir @ ''/leaf.key''),
      (''MTLS_TRUST_BUNDLE_PATH'', MtlsDir @ ''/bundle.crt'')]"

definition ScopeGlobal :: string where "ScopeGlobal = ''global''"

definition TrustSet :: "string \<Rightarrow> string list \<Rightarrow> string list" where
  "TrustSet ownScope allRegions =
     sort (remdups (ScopeGlobal #
       (if ownScope = ScopeGlobal then allRegions else [ownScope])))"

subsection \<open>Lemmas\<close>

lemma GatewayEgressPort_value: "GatewayEgressPort = 9756"
  by (simp add: mesh_port_defs)

text \<open>The reserved range is exactly the ports the plan can hand out.\<close>

lemma egress_range_iff:
  "InReservedEgressRange p \<longleftrightarrow>
     (\<exists>i. 0 \<le> i \<and> i < MaxServices \<and> p = EgressPort i) \<or> p = GatewayEgressPort"
proof
  assume "InReservedEgressRange p"
  then show "(\<exists>i. 0 \<le> i \<and> i < MaxServices \<and> p = EgressPort i) \<or> p = GatewayEgressPort"
    by (cases "p = GatewayEgressPort")
       (auto simp: mesh_port_defs intro!: exI [of _ "p - 9500"])
qed (auto simp: mesh_port_defs)

lemma pg_range_iff:
  "InReservedPortRange p \<longleftrightarrow> (\<exists>i. 0 \<le> i \<and> i < MaxClustersPerHost \<and> p = ClusterPort i)"
  by (auto simp: pg_port_defs intro!: exI [of _ "p - 5432"])

text \<open>The reserved ranges and single ports are pairwise disjoint.\<close>

lemma reserved_disjoint:
  "InReservedPortRange p \<Longrightarrow> \<not> InReservedEgressRange p"
  "InReservedEgressRange p \<Longrightarrow> p \<noteq> MTLSPort \<and> p \<noteq> GatewayHTTPPort"
  "InReservedEgressRange p \<Longrightarrow> p < LoopbackBase"
  "InReservedPortRange p \<Longrightarrow> p < LoopbackBase"
  by (auto simp: mesh_port_defs pg_port_defs nginx_port_defs)

text \<open>Every descriptor file names a key the pushed blob carries.\<close>

lemma descriptor_blob_keys:
  "snd ` set DescriptorFiles = fst ` set (BlobFiles l k b)"
  by (simp add: DescriptorFiles_def BlobFiles_def CertFiles_def MtlsDir_def)

lemma TrustSet_set:
  "set (TrustSet own regions) =
     insert ScopeGlobal (if own = ScopeGlobal then set regions else {own})"
  by (auto simp: TrustSet_def)

lemma TrustSet_sorted: "sorted (TrustSet own regions)" "distinct (TrustSet own regions)"
  by (simp_all add: TrustSet_def)

text \<open>
  Trust is symmetric exactly where it has to be: two scopes that exist trust each other when one
  is global or they are the same region.
\<close>

lemma TrustSet_symmetric:
  assumes "a \<in> insert ScopeGlobal (set regions)" and "b \<in> insert ScopeGlobal (set regions)"
  shows "a \<in> set (TrustSet b regions) \<longleftrightarrow> b \<in> set (TrustSet a regions)"
  using assms by (auto simp: TrustSet_set)

lemma TrustSet_region_boundary:
  "a \<noteq> ScopeGlobal \<Longrightarrow> b \<noteq> ScopeGlobal \<Longrightarrow> b \<in> set (TrustSet a regions) \<longleftrightarrow> b = a"
  by (auto simp: TrustSet_set)

end
