(* ===== verification/NginxConfig.thy ===== *)
theory NginxConfig
  imports NginxAst Types Ports "HOL-Library.Product_Lexorder"
begin

text \<open>
  The north-south nginx (\<open>internal/nginx/config.go\<close>): the checks of \<open>Render\<close>, the choice of mixed
  ports and of their loopback terminators, and every server of the http and stream contexts.
\<close>

subsection \<open>Inputs\<close>

record ingress_route =
  ir_service :: string
  ir_type :: string
  ir_fqdns :: "string list"
  ir_listen :: int
  ir_target :: int
  ir_backend :: string
  ir_limit :: "rate_limit_profile option"

record ingress_app =
  ia_name :: string
  ia_fqdn :: string
  ia_root :: string
  ia_spa :: bool
  ia_limit :: "rate_limit_profile option"

record ingress_health =
  ih_service :: string
  ih_fqdn :: string
  ih_target :: int
  ih_backend :: string
  ih_paths :: "string list"

record gateway_route =
  gwr_pattern :: string
  gwr_service :: string

record ingress_gateway =
  ig_name :: string
  ig_fqdn :: string
  ig_routes :: "gateway_route list"
  ig_probes :: "string list"
  ig_limit :: "rate_limit_profile option"
  ig_backend :: string
  ig_port :: int
  ig_real_ip :: string
  ig_listen :: string

datatype nginx_err =
    RouteNoBackend string
  | RouteUnknownType string string
  | AppNoRoot string
  | HealthNoBackend string
  | HealthNoPaths string
  | HealthNoPort
  | GatewayNoFQDN string
  | GatewayNoBackend string
  | GatewayUnwired string
  | GatewayBadGlob string string string glob_err
  | ForwardTwice int string string
  | ForwardOnAcme string
  | ForwardOnHealth string int
  | TooManyMixed nat
  | NginxBuild string

subsection \<open>Checks\<close>

definition route_err :: "ingress_route \<Rightarrow> nginx_err option" where
  "route_err r =
     (if ir_backend r = [] then Some (RouteNoBackend (ir_service r))
      else if ir_type r \<noteq> IngressTypeTLSTermination \<and> ir_type r \<noteq> IngressTypeForward
      then Some (RouteUnknownType (ir_service r) (ir_type r)) else None)"

definition app_err :: "ingress_app \<Rightarrow> nginx_err option" where
  "app_err a = (if ia_root a = [] then Some (AppNoRoot (ia_name a)) else None)"

definition health_err :: "ingress_health \<Rightarrow> nginx_err option" where
  "health_err h =
     (if ih_backend h = [] then Some (HealthNoBackend (ih_service h))
      else if ih_paths h = [] then Some (HealthNoPaths (ih_service h)) else None)"

definition health_port_err :: "ingress_health list \<Rightarrow> int \<Rightarrow> nginx_err option" where
  "health_port_err health healthPort = (if health \<noteq> [] \<and> healthPort \<le> 0 then Some HealthNoPort else None)"

definition gateway_err :: "ingress_gateway \<Rightarrow> nginx_err option" where
  "gateway_err g =
     (if ig_fqdn g = [] then Some (GatewayNoFQDN (ig_name g))
      else if ig_backend g = [] \<or> ig_port g \<le> 0 then Some (GatewayNoBackend (ig_name g)) else None)"

definition pattern_err :: "ingress_gateway \<Rightarrow> gateway_route \<Rightarrow> nginx_err option" where
  "pattern_err g rt =
     (case Parse (gwr_pattern rt) of
        Inl e \<Rightarrow> Some (GatewayBadGlob (ig_name g) (gwr_service rt) (gwr_pattern rt) e)
      | Inr p \<Rightarrow> None)"

definition gateway_route_err :: "ingress_gateway \<Rightarrow> nginx_err option" where
  "gateway_route_err g =
     (if ig_listen g = [] \<or> ig_port g \<le> 0 \<or> ig_real_ip g = [] then Some (GatewayUnwired (ig_name g))
      else first_err (pattern_err g) (ig_routes g))"

text \<open>\<open>gatewayRegexOf\<close>: the expression of a pattern depends on the pattern alone.\<close>

definition gatewayRegexOf :: "string \<Rightarrow> string" where
  "gatewayRegexOf pat = (case Parse pat of Inl e \<Rightarrow> [] | Inr p \<Rightarrow> Regex (segments p) (tail p))"

text \<open>The forwards by port; the first duplicate in order is the error.\<close>

fun forward_err :: "ingress_route list \<Rightarrow> ingress_route list \<Rightarrow> nginx_err option" where
  "forward_err seen [] = None"
| "forward_err seen (f # fs) =
     (case find (\<lambda>g. ir_listen g = ir_listen f) seen of
        Some prev \<Rightarrow> Some (ForwardTwice (ir_listen f) (ir_service prev) (ir_service f))
      | None \<Rightarrow> forward_err (f # seen) fs)"

definition forwardByListen :: "ingress_route list \<Rightarrow> int \<Rightarrow> ingress_route option" where
  "forwardByListen fs p = find (\<lambda>f. ir_listen f = p) fs"

definition acme_err :: "bool \<Rightarrow> ingress_route list \<Rightarrow> nginx_err option" where
  "acme_err terminatesTLS fs =
     (if terminatesTLS then map_option (\<lambda>f. ForwardOnAcme (ir_service f)) (forwardByListen fs acmePort) else None)"

definition health_forward_err :: "ingress_health list \<Rightarrow> int \<Rightarrow> ingress_route list \<Rightarrow> nginx_err option" where
  "health_forward_err health healthPort fs =
     (if health \<noteq> []
      then map_option (\<lambda>f. ForwardOnHealth (ir_service f) healthPort) (forwardByListen fs healthPort) else None)"

subsection \<open>Mixed ports\<close>

record mixed_port =
  mp_listen :: int
  mp_loopback :: int
  mp_fqdns :: "string list"
  mp_forward :: ingress_route

definition mixed_listens :: "ingress_route list \<Rightarrow> ingress_route list \<Rightarrow> bool \<Rightarrow> int list" where
  "mixed_listens terminate forward on443 =
     sort (remdups (filter (\<lambda>p. p \<in> ir_listen ` set terminate \<or> p = 443 \<and> on443) (map ir_listen forward)))"

definition loopback_of :: "int list \<Rightarrow> int \<Rightarrow> int option" where
  "loopback_of mixed p = map_of (zip mixed (map (\<lambda>i. LoopbackBase + int i) [0..<length mixed])) p"

definition mixed_fqdns :: "ingress_route list \<Rightarrow> ingress_app list \<Rightarrow> ingress_gateway list \<Rightarrow> int \<Rightarrow> string list" where
  "mixed_fqdns terminate apps gateways p =
     sort (concat (map ir_fqdns (filter (\<lambda>t. ir_listen t = p) terminate))
       @ (if p = 443 then map ia_fqdn apps @ map ig_fqdn gateways else []))"

definition mixed_ports :: "ingress_route list \<Rightarrow> ingress_route list \<Rightarrow> ingress_app list \<Rightarrow> ingress_gateway list
    \<Rightarrow> int list \<Rightarrow> mixed_port list" where
  "mixed_ports terminate forward apps gateways mixed =
     concat (map (\<lambda>p.
        case (loopback_of mixed p, forwardByListen forward p) of
          (Some lp, Some f) \<Rightarrow> [\<lparr>mp_listen = p, mp_loopback = lp, mp_fqdns = mixed_fqdns terminate apps gateways p, mp_forward = f\<rparr>]
        | _ \<Rightarrow> []) mixed)"

definition listenDir :: "int list \<Rightarrow> int \<Rightarrow> directive" where
  "listenDir mixed p =
     (case loopback_of mixed p of
        Some lp \<Rightarrow> dir ''listen'' [''127.0.0.1:'' @ Itoa lp, ''ssl'', ''proxy_protocol'']
      | None \<Rightarrow> dir ''listen'' [Itoa p, ''ssl''])"

subsection \<open>Rate limits\<close>

definition rlReqZone :: "string \<Rightarrow> string" where "rlReqZone name = ''rl_'' @ name"
definition rlConnZone :: "string \<Rightarrow> string" where "rlConnZone name = ''rlc_'' @ name"
definition rlStreamConnZone :: "string \<Rightarrow> string" where "rlStreamConnZone name = ''rls_'' @ name"
definition rlZoneSize :: string where "rlZoneSize = ''10m''"

definition rlHTTPLimitDirs :: "rate_limit_profile option \<Rightarrow> directive list" where
  "rlHTTPLimitDirs po =
     (case po of
        None \<Rightarrow> []
      | Some p \<Rightarrow>
          (if rp_rps p > 0
           then [dir ''limit_req'' [''zone='' @ rlReqZone (rp_name p), ''burst='' @ Itoa (rp_burst p), ''nodelay'']] else [])
          @ (if rp_maxconn p > 0 then [dir ''limit_conn'' [rlConnZone (rp_name p), Itoa (rp_maxconn p)]] else []))"

definition rlStreamLimitDirs :: "rate_limit_profile option \<Rightarrow> directive list" where
  "rlStreamLimitDirs po =
     (case po of
        None \<Rightarrow> []
      | Some p \<Rightarrow> if rp_maxconn p \<le> 0 then [] else [dir ''limit_conn'' [rlStreamConnZone (rp_name p), Itoa (rp_maxconn p)]])"

text \<open>The last profile of a name counts.\<close>

definition dedupeProfiles :: "rate_limit_profile option list \<Rightarrow> rate_limit_profile list" where
  "dedupeProfiles ps =
     (let seen = map (\<lambda>p. (rp_name p, p)) (rev (concat (map (\<lambda>po. case po of None \<Rightarrow> [] | Some p \<Rightarrow> [p]) ps)))
      in map (\<lambda>n. the (map_of seen n)) (sort (remdups (map fst seen))))"

definition httpRateLimitZones :: "rate_limit_profile option list \<Rightarrow> directive list" where
  "httpRateLimitZones profiles =
     (let ps = dedupeProfiles profiles in
      concat (map (\<lambda>p.
         (if rp_rps p > 0
          then [dir ''limit_req_zone'' [''$binary_remote_addr'', ''zone='' @ rlReqZone (rp_name p) @ '':'' @ rlZoneSize,
                ''rate='' @ Itoa (rp_rps p) @ ''r/s'']] else [])
         @ (if rp_maxconn p > 0
            then [dir ''limit_conn_zone'' [''$binary_remote_addr'', ''zone='' @ rlConnZone (rp_name p) @ '':'' @ rlZoneSize]]
            else [])) ps)
      @ (if \<exists>p\<in>set ps. rp_rps p > 0 then [dir ''limit_req_status'' [''429'']] else [])
      @ (if \<exists>p\<in>set ps. rp_maxconn p > 0 then [dir ''limit_conn_status'' [''429'']] else []))"

subsection \<open>Servers\<close>

definition acmeIssuer :: string where "acmeIssuer = ''letsencrypt''"

definition acme_dirs :: "directive list" where
  "acme_dirs =
     [dir ''acme_certificate'' [acmeIssuer],
      dir ''ssl_certificate'' [''$acme_certificate''],
      dir ''ssl_certificate_key'' [''$acme_certificate_key''],
      dir ''ssl_certificate_cache'' [''max=2'']]"

definition http_url :: "string \<Rightarrow> int \<Rightarrow> string" where
  "http_url host port = ''http://'' @ host @ '':'' @ Itoa port"

definition terminateServer :: "ingress_route \<Rightarrow> directive \<Rightarrow> directive" where
  "terminateServer r listen =
     block ''server'' []
       ([listen, dir ''server_name'' (ir_fqdns r)] @ acme_dirs
        @ [block ''location'' [''/'']
             (rlHTTPLimitDirs (ir_limit r)
              @ [dir ''proxy_pass'' [http_url (ir_backend r) (ir_target r)],
                 dir ''proxy_set_header'' [''Host'', ''$host''],
                 dir ''proxy_set_header'' [''X-Forwarded-For'', ''$proxy_add_x_forwarded_for''],
                 dir ''proxy_set_header'' [''X-Forwarded-Proto'', ''$scheme'']])])"

definition appServer :: "ingress_app \<Rightarrow> directive \<Rightarrow> directive" where
  "appServer a listen =
     block ''server'' []
       ([listen, dir ''server_name'' [ia_fqdn a]] @ acme_dirs
        @ [dir ''root'' [ia_root a],
           dir ''index'' [''index.html''],
           block ''location'' [''/'']
             (rlHTTPLimitDirs (ia_limit a)
              @ [dir ''try_files'' (if ia_spa a then [''$uri'', ''$uri/'', ''/index.html''] else [''$uri'', ''$uri/'', ''=404''])])])"

definition gatewayTerminationServer :: "ingress_gateway \<Rightarrow> directive \<Rightarrow> directive" where
  "gatewayTerminationServer g listen =
     block ''server'' []
       ([listen, dir ''server_name'' [ig_fqdn g]] @ acme_dirs
        @ [block ''location'' [''/'']
             (rlHTTPLimitDirs (ig_limit g)
              @ [dir ''proxy_http_version'' [''1.1''],
                 dir ''proxy_set_header'' [''Upgrade'', ''$http_upgrade''],
                 dir ''proxy_set_header'' [''Connection'', ''$connection_upgrade''],
                 dir ''proxy_set_header'' [''Host'', ''$host''],
                 dir ''proxy_set_header'' [''X-Forwarded-For'', ''$proxy_add_x_forwarded_for''],
                 dir ''proxy_set_header'' [''X-Forwarded-Proto'', ''$scheme''],
                 dir ''proxy_read_timeout'' [''3600s''],
                 dir ''proxy_pass'' [http_url (ig_backend g) (ig_port g)]])])"

definition jsonNotFoundLocation :: directive where
  "jsonNotFoundLocation = block ''location'' [''/'']
     [dir ''default_type'' [''application/json''],
      dir ''return'' [''404'', [CHR 0x7B, CHR 0x22] @ ''error'' @ [CHR 0x22] @ '':'' @ [CHR 0x22] @ ''not_found'' @ [CHR 0x22, CHR 0x7D]]]"

definition probe_location :: "string \<Rightarrow> directive" where
  "probe_location p = block ''location'' [''='', p] [dir ''default_type'' [''text/plain''], dir ''return'' [''200'', ''ok'']]"

definition route_location :: "gateway_route \<Rightarrow> directive" where
  "route_location rt =
     block ''location'' [''~'', gatewayRegexOf (gwr_pattern rt)]
       [dir ''proxy_http_version'' [''1.1''],
        dir ''proxy_set_header'' [''Upgrade'', ''$http_upgrade''],
        dir ''proxy_set_header'' [''Connection'', ''$connection_upgrade''],
        dir ''proxy_set_header'' [''Host'', ''$host''],
        dir ''proxy_set_header'' [''X-Forwarded-For'', ''$remote_addr''],
        dir ''proxy_set_header'' [''X-Forwarded-Proto'', ''$http_x_forwarded_proto''],
        dir ''proxy_set_header'' [''X-Mesh-Target'', gwr_service rt],
        dir ''proxy_read_timeout'' [''3600s''],
        dir ''proxy_pass'' [''http://127.0.0.1:'' @ Itoa GatewayEgressPort]]"

definition gatewayRoutingServer :: "ingress_gateway \<Rightarrow> directive" where
  "gatewayRoutingServer g =
     block ''server'' []
       ([dir ''listen'' [ig_listen g @ '':'' @ Itoa (ig_port g)],
         dir ''server_name'' [ig_fqdn g],
         dir ''set_real_ip_from'' [ig_real_ip g],
         dir ''real_ip_header'' [''X-Forwarded-For''],
         dir ''real_ip_recursive'' [''on'']]
        @ map probe_location (sort (ig_probes g))
        @ map route_location (sort_key (\<lambda>rt. (gwr_pattern rt, gwr_service rt)) (ig_routes g))
        @ [jsonNotFoundLocation])"

definition healthCatchAllServer :: "int \<Rightarrow> directive" where
  "healthCatchAllServer healthPort =
     block ''server'' []
       [dir ''listen'' [Itoa healthPort, ''default_server''], dir ''server_name'' [''_''], dir ''return'' [''404'']]"

definition healthServer :: "ingress_health \<Rightarrow> int \<Rightarrow> directive" where
  "healthServer h healthPort =
     block ''server'' []
       ([dir ''listen'' [Itoa healthPort], dir ''server_name'' [ih_fqdn h]]
        @ map (\<lambda>p. block ''location'' [''='', p]
             [dir ''proxy_pass'' [http_url (ih_backend h) (ih_target h)], dir ''proxy_set_header'' [''Host'', ''$host'']])
            (sort (ih_paths h))
        @ [block ''location'' [''/''] [dir ''return'' [''404'']]])"

definition acmeServer :: directive where
  "acmeServer = block ''server'' []
     [dir ''listen'' [Itoa acmePort],
      block ''location'' [''/''] [dir ''return'' [''301'', ''https://$host$request_uri'']]]"

subsection \<open>Contexts\<close>

record nginx_plan =
  np_terminate :: "ingress_route list"
  np_forward :: "ingress_route list"
  np_apps :: "ingress_app list"
  np_health :: "ingress_health list"
  np_health_port :: int
  np_gateways :: "ingress_gateway list"
  np_gateway_routes :: "ingress_gateway list"

definition terminatesTLS :: "nginx_plan \<Rightarrow> bool" where
  "terminatesTLS np \<longleftrightarrow> np_terminate np \<noteq> [] \<or> np_apps np \<noteq> [] \<or> np_gateways np \<noteq> []"

definition plan_mixed :: "nginx_plan \<Rightarrow> int list" where
  "plan_mixed np = mixed_listens (np_terminate np) (np_forward np) (np_apps np \<noteq> [] \<or> np_gateways np \<noteq> [])"

definition http_prelude :: "nginx_plan \<Rightarrow> directive list" where
  "http_prelude np =
     [dir ''include'' [''/etc/nginx/mime.types''], dir ''default_type'' [''application/octet-stream'']]
     @ (if np_gateways np \<noteq> [] \<or> np_gateway_routes np \<noteq> []
        then [block ''map'' [''$http_upgrade'', ''$connection_upgrade'']
                [dir ''default'' [''upgrade''], dir [CHR 0x27, CHR 0x27] [''close'']]] else [])
     @ (if terminatesTLS np
        then [dir ''resolver'' [''1.1.1.1'', ''8.8.8.8'', ''valid=300s''],
              block ''acme_issuer'' [acmeIssuer]
                [dir ''uri'' [''https://acme-v02.api.letsencrypt.org/directory''],
                 dir ''state_path'' [''/var/cache/nginx/acme-letsencrypt''],
                 dir ''accept_terms_of_service'' []],
              dir ''acme_shared_zone'' [''zone=ngx_acme_shared:1M'']] else [])
     @ (if plan_mixed np \<noteq> []
        then [dir ''set_real_ip_from'' [''127.0.0.1''], dir ''real_ip_header'' [''proxy_protocol'']] else [])
     @ httpRateLimitZones (map ir_limit (np_terminate np) @ map ia_limit (np_apps np) @ map ig_limit (np_gateways np))"

definition http_servers :: "nginx_plan \<Rightarrow> directive list" where
  "http_servers np =
     (let mixed = plan_mixed np in
      map (\<lambda>r. terminateServer r (listenDir mixed (ir_listen r))) (np_terminate np)
      @ map (\<lambda>a. appServer a (listenDir mixed 443)) (np_apps np)
      @ map (\<lambda>g. gatewayTerminationServer g (listenDir mixed 443)) (np_gateways np)
      @ map gatewayRoutingServer (np_gateway_routes np)
      @ (if np_health np \<noteq> [] then [healthCatchAllServer (np_health_port np)] else [])
      @ map (\<lambda>h. healthServer h (np_health_port np)) (np_health np)
      @ (if terminatesTLS np then [acmeServer] else []))"

definition httpBlock :: "nginx_plan \<Rightarrow> directive" where
  "httpBlock np = block ''http'' [] (http_prelude np @ http_servers np)"

definition preread_map :: "mixed_port \<Rightarrow> directive" where
  "preread_map mp =
     block ''map'' [''$ssl_preread_server_name'', ''$ingress_upstream_'' @ Itoa (mp_listen mp)]
       (map (\<lambda>fqdn. dir fqdn [''127.0.0.1:'' @ Itoa (mp_loopback mp)]) (mp_fqdns mp)
        @ [dir ''default'' [ir_backend (mp_forward mp) @ '':'' @ Itoa (ir_target (mp_forward mp))]])"

definition preread_server :: "mixed_port \<Rightarrow> directive" where
  "preread_server mp =
     block ''server'' []
       [dir ''listen'' [Itoa (mp_listen mp)],
        dir ''ssl_preread'' [''on''],
        dir ''proxy_pass'' [''$ingress_upstream_'' @ Itoa (mp_listen mp)],
        dir ''proxy_protocol'' [''on'']]"

definition forward_server :: "ingress_route \<Rightarrow> directive" where
  "forward_server r =
     block ''server'' []
       ([dir ''listen'' [Itoa (ir_listen r)]] @ rlStreamLimitDirs (ir_limit r)
        @ [dir ''proxy_pass'' [ir_backend r @ '':'' @ Itoa (ir_target r)], dir ''proxy_protocol'' [''on'']])"

definition streamBlock :: "ingress_route list \<Rightarrow> mixed_port list \<Rightarrow> directive" where
  "streamBlock forwardOnly mixed =
     block ''stream'' []
       (concat (map (\<lambda>p. if rp_maxconn p > 0
            then [dir ''limit_conn_zone'' [''$binary_remote_addr'', ''zone='' @ rlStreamConnZone (rp_name p) @ '':'' @ rlZoneSize]]
            else []) (dedupeProfiles (map ir_limit forwardOnly)))
        @ map preread_map mixed @ map preread_server mixed @ map forward_server forwardOnly)"

subsection \<open>Render\<close>

definition plan_of :: "ingress_route list \<Rightarrow> ingress_app list \<Rightarrow> ingress_health list \<Rightarrow> int \<Rightarrow> ingress_gateway list
    \<Rightarrow> ingress_gateway list \<Rightarrow> nginx_plan" where
  "plan_of routes apps health healthPort gateways gatewayRoutes =
     (let by_listen = sort_key (\<lambda>r. (ir_listen r, ir_service r)) in
      \<lparr>np_terminate = by_listen (filter (\<lambda>r. ir_type r = IngressTypeTLSTermination) routes),
       np_forward = by_listen (filter (\<lambda>r. ir_type r = IngressTypeForward) routes),
       np_apps = sort_key ia_fqdn apps,
       np_health = sort_key ih_fqdn health,
       np_health_port = healthPort,
       np_gateways = sort_key ig_fqdn gateways,
       np_gateway_routes = sort_key ig_fqdn gatewayRoutes\<rparr>)"

text \<open>The first check that fails, in the order of the code.\<close>

fun first_of :: "'e option list \<Rightarrow> 'e option" where
  "first_of [] = None"
| "first_of (x # xs) = (case x of None \<Rightarrow> first_of xs | Some e \<Rightarrow> Some e)"

definition nginx_plan_err :: "ingress_route list \<Rightarrow> ingress_app list \<Rightarrow> ingress_health list \<Rightarrow> int \<Rightarrow> ingress_gateway list
    \<Rightarrow> ingress_gateway list \<Rightarrow> nginx_err option" where
  "nginx_plan_err routes apps health healthPort gateways gatewayRoutes =
     (let np = plan_of routes apps health healthPort gateways gatewayRoutes in
      first_of
        [first_err route_err routes, first_err app_err apps, first_err health_err health,
         health_port_err health healthPort, first_err gateway_err gateways, first_err gateway_route_err gatewayRoutes,
         forward_err [] (np_forward np), acme_err (terminatesTLS np) (np_forward np),
         health_forward_err health healthPort (np_forward np),
         (if length (plan_mixed np) > nat MaxMixedPorts then Some (TooManyMixed (length (plan_mixed np))) else None)])"

definition nginx_top :: "nginx_plan \<Rightarrow> directive list" where
  "nginx_top np =
     (let mixed = mixed_ports (np_terminate np) (np_forward np) (np_apps np) (np_gateways np) (plan_mixed np);
          forwardOnly = filter (\<lambda>f. ir_listen f \<notin> set (plan_mixed np)) (np_forward np) in
      [dir ''load_module'' [''modules/ngx_http_acme_module.so''],
       dir ''user'' [''nginx''],
       dir ''worker_processes'' [''auto''],
       dir ''pid'' [''/run/nginx.pid''],
       block ''events'' [] [dir ''worker_connections'' [''1024'']]]
      @ (if np_terminate np \<noteq> [] \<or> np_apps np \<noteq> [] \<or> np_health np \<noteq> [] \<or> np_gateways np \<noteq> [] \<or> np_gateway_routes np \<noteq> []
         then [httpBlock np] else [])
      @ (if forwardOnly \<noteq> [] \<or> mixed \<noteq> [] then [streamBlock forwardOnly mixed] else []))"

definition nginx_directives :: "ingress_route list \<Rightarrow> ingress_app list \<Rightarrow> ingress_health list \<Rightarrow> int \<Rightarrow> ingress_gateway list
    \<Rightarrow> ingress_gateway list \<Rightarrow> nginx_err + directive list" where
  "nginx_directives routes apps health healthPort gateways gatewayRoutes =
     (case nginx_plan_err routes apps health healthPort gateways gatewayRoutes of
        Some e \<Rightarrow> Inl e
      | None \<Rightarrow> Inr (nginx_top (plan_of routes apps health healthPort gateways gatewayRoutes)))"

text \<open>\<open>build\<close> is \<open>crossplane.Build\<close>; the banner and the newline around its text are left out.\<close>

definition nginx_Render :: "(directive list \<Rightarrow> string + string) \<Rightarrow> ingress_route list \<Rightarrow> ingress_app list
    \<Rightarrow> ingress_health list \<Rightarrow> int \<Rightarrow> ingress_gateway list \<Rightarrow> ingress_gateway list \<Rightarrow> nginx_err + string" where
  "nginx_Render build routes apps health healthPort gateways gatewayRoutes =
     (case nginx_directives routes apps health healthPort gateways gatewayRoutes of
        Inl e \<Rightarrow> Inl e
      | Inr tree \<Rightarrow> (case build tree of Inl e \<Rightarrow> Inl (NginxBuild e) | Inr t \<Rightarrow> Inr t))"

end
