(* ===== verification/Naming.thy ===== *)
theory Naming
  imports Types
begin

text \<open>
  Model of \<open>internal/naming/naming.go\<close>, \<open>internal/tags/tags.go\<close>, \<open>internal/regions/regions.go\<close> and
  \<open>internal/sizes/sizes.go\<close>: resource identifiers and their decoding, host and DNS names, vanity
  expansion and zone membership, the region and size tables.
\<close>

subsection \<open>Instance keys of computes\<close>

definition SpecKey :: "string \<Rightarrow> int \<Rightarrow> string" where
  "SpecKey name i = name @ ''-'' @ pad2 (nat i)"

text \<open>\<open>strings.LastIndex\<close> of a one-byte separator.\<close>

definition last_index :: "char \<Rightarrow> string \<Rightarrow> nat option" where
  "last_index c s =
     (if c \<in> set s then Some (length s - 1 - length (takeWhile (\<lambda>x. x \<noteq> c) (rev s))) else None)"

definition BareComputeName :: "string \<Rightarrow> string" where
  "BareComputeName k =
     (case last_index CHR ''-'' k of
        Some i \<Rightarrow> if i > 0 then take i k else k
      | None \<Rightarrow> k)"

fun canonical_instances :: "string \<Rightarrow> int list \<Rightarrow> (string \<rightharpoonup> string) \<Rightarrow> (string \<rightharpoonup> string)" where
  "canonical_instances name [] m = m"
| "canonical_instances name (i # is) m =
     canonical_instances name is (m(SpecKey name i \<mapsto> SpecKey name i))"

fun canonical_from :: "compute_spec list \<Rightarrow> (string \<rightharpoonup> string) \<Rightarrow> (string \<rightharpoonup> string)" where
  "canonical_from [] m = m"
| "canonical_from (c # cs) m =
     (let m1 = canonical_instances (cmp_name c) [1..cmp_instances c] m;
          m2 = (if cmp_instances c = 1 then m1(cmp_name c \<mapsto> SpecKey (cmp_name c) 1) else m1)
      in canonical_from cs m2)"

definition CanonicalComputeKeys :: "compute_spec list \<Rightarrow> (string \<rightharpoonup> string)" where
  "CanonicalComputeKeys computes = canonical_from computes Map.empty"

fun deploy_users_from :: "compute_spec list \<Rightarrow> (string \<rightharpoonup> string) \<Rightarrow> (string \<rightharpoonup> string)" where
  "deploy_users_from [] m = m"
| "deploy_users_from (c # cs) m =
     (case cmp_deploy_user c of
        None \<Rightarrow> deploy_users_from cs m
      | Some u \<Rightarrow> deploy_users_from cs
          (fold (\<lambda>i m. m(SpecKey (cmp_name c) i \<mapsto> du_name u)) [1..cmp_instances c] m))"

definition DeployUsersByHost :: "compute_spec list \<Rightarrow> (string \<rightharpoonup> string)" where
  "DeployUsersByHost computes = deploy_users_from computes Map.empty"

subsection \<open>Resource names\<close>

definition usage :: string where
  "usage = ''wardnet''"

definition resourceTypes :: "string list" where
  "resourceTypes = [''vm'', ''fw'', ''net'', ''subnet'', ''vol'', ''db'', ''record'',
     ''ingress'', ''svc'', ''app'', ''key'', ''dbrole'', ''dbbackup'', ''mesh'', ''otelcol'']"

definition GlobalResource :: "string \<Rightarrow> string \<Rightarrow> string \<Rightarrow> string" where
  "GlobalResource env typ name = join ''-'' [usage, env, typ, name]"

definition Resource :: "string \<Rightarrow> string \<Rightarrow> string \<Rightarrow> string \<Rightarrow> string" where
  "Resource env slug typ name =
     (if slug = [] then GlobalResource env typ name
      else join ''-'' [usage, env, slug, typ, name])"

definition ResourceInstance :: "string \<Rightarrow> string \<Rightarrow> string \<Rightarrow> string \<Rightarrow> int \<Rightarrow> string" where
  "ResourceInstance env slug typ name i =
     (if slug = [] then join ''-'' [usage, env, typ, name, pad2 (nat i)]
      else join ''-'' [usage, env, slug, typ, name, pad2 (nat i)])"

text \<open>
  The scan of \<open>ParseResourceName\<close>: \<open>prev\<close> is the token before the current one and \<open>first\<close> says
  that the scan is at index 2; the last token is never taken as a type.
\<close>

fun scan_type :: "bool \<Rightarrow> string \<Rightarrow> string list \<Rightarrow> (string \<times> string \<times> string) option" where
  "scan_type at2 prev [] = None"
| "scan_type at2 prev [t] = None"
| "scan_type at2 prev (t # u # ts) =
     (if t \<in> set resourceTypes
      then Some (t, join ''-'' (u # ts), if at2 then [] else prev)
      else scan_type False t (u # ts))"

definition ParseResourceName :: "string \<Rightarrow> (string \<times> string \<times> string) option" where
  "ParseResourceName name =
     (let parts = split_on CHR ''-'' name in
      if length parts < 4 \<or> hd parts \<noteq> usage then None
      else scan_type True [] (drop 2 parts))"

subsection \<open>DNS names\<close>

definition RecordName :: "string \<Rightarrow> string \<Rightarrow> string \<Rightarrow> string" where
  "RecordName env slug subdomain =
     (if slug = [] then join ''.'' [subdomain, env] else join ''.'' [subdomain, env, slug])"

definition RecordFQDN :: "string \<Rightarrow> string \<Rightarrow> string \<Rightarrow> string \<Rightarrow> string" where
  "RecordFQDN env slug subdomain base = join ''.'' [RecordName env slug subdomain, base]"

definition HostFQDN :: "string \<Rightarrow> string \<Rightarrow> string \<Rightarrow> string \<Rightarrow> string" where
  "HostFQDN env slug compute base = RecordFQDN env slug (compute @ ''.vm'') base"

definition ServiceFQDN :: "string \<Rightarrow> string \<Rightarrow> string \<Rightarrow> string \<Rightarrow> string" where
  "ServiceFQDN env slug service base = RecordFQDN env slug (service @ ''.svc'') base"

definition IngressDNSLabel :: string where
  "IngressDNSLabel = ''ingress''"

definition AppFQDN :: "string \<Rightarrow> string \<Rightarrow> string \<Rightarrow> string \<Rightarrow> string" where
  "AppFQDN subdomain slug base eslug =
     join ''.'' ([subdomain] @ (if eslug \<noteq> [] then [eslug] else [])
       @ (if slug \<noteq> [] then [slug] else []) @ [base])"

text \<open>\<open>strings.NewReplacer(...).Replace\<close> for non-empty keys: leftmost match, in argument order.\<close>

function replacer :: "(string \<times> string) list \<Rightarrow> string \<Rightarrow> string" where
  "replacer ps [] = []"
| "replacer ps (c # cs) =
     (case find (\<lambda>(k, v). k \<noteq> [] \<and> prefix k (c # cs)) ps of
        Some (k, v) \<Rightarrow> if k = [] then c # replacer ps cs else v @ replacer ps (drop (length k) (c # cs))
      | None \<Rightarrow> c # replacer ps cs)"
  by pat_completeness auto
termination
  by (relation "measure (\<lambda>(ps, s). length s)") auto

definition ExpandVanity :: "string \<Rightarrow> string \<Rightarrow> string \<Rightarrow> string \<Rightarrow> string" where
  "ExpandVanity vanity env slug base =
     (if CHR ''.'' \<notin> set vanity \<and> CHR ''{'' \<notin> set vanity then RecordFQDN env slug vanity base
      else replacer [(''{BASE_DOMAIN}'', base), (''{ENV}'', env), (''{REGION_SLUG}'', slug)] vanity)"

definition InZone :: "string \<Rightarrow> string \<Rightarrow> bool" where
  "InZone fqdn base \<longleftrightarrow> fqdn = base \<or> suffix (CHR ''.'' # base) fqdn"

definition ZoneRelative :: "string \<Rightarrow> string \<Rightarrow> string" where
  "ZoneRelative fqdn base =
     (if fqdn = base then ''@'' else trim_suffix (CHR ''.'' # base) fqdn)"

definition TelemetryServiceName :: "string \<Rightarrow> string" where
  "TelemetryServiceName service = usage @ ''-'' @ service"

subsection \<open>Tags\<close>

record ephemeral_labels =
  eph_enabled :: bool
  eph_expires_at :: string

definition ContainerTag :: "string \<Rightarrow> string \<Rightarrow> string \<Rightarrow> string" where
  "ContainerTag slug env container = join '':'' [''urn'', slug, ''wardnet'', env, container]"

definition HetznerLabels ::
  "string \<Rightarrow> string \<Rightarrow> string \<Rightarrow> string \<Rightarrow> ephemeral_labels \<Rightarrow> (string \<rightharpoonup> string)" where
  "HetznerLabels project env region container eph =
     (let m = [''project'' \<mapsto> project, ''env'' \<mapsto> env, ''region'' \<mapsto> region];
          m1 = (if container \<noteq> [] then m(''container'' \<mapsto> container) else m)
      in if eph_enabled eph then
           (let m2 = m1(''ephemeral'' \<mapsto> ''true'') in
            if eph_expires_at eph \<noteq> [] then m2(''expires_at'' \<mapsto> eph_expires_at eph) else m2)
         else m1)"

definition CloudflareTags :: "string \<Rightarrow> string \<Rightarrow> string \<Rightarrow> string \<Rightarrow> string list" where
  "CloudflareTags project env region container =
     [''project:'' @ project, ''env:'' @ env, ''region:'' @ region]
       @ (if container \<noteq> [] then [''container:'' @ container] else [])"

subsection \<open>Region and size tables\<close>

record dns_authority =
  dns_provider :: string
  dns_zone :: string

record abstract_region =
  ar_slug :: string
  ar_dns :: "dns_authority option"
  ar_providers :: "(string \<times> (string \<times> string) list) list"

type_synonym region_table = "(string \<times> abstract_region) list"

record global_block =
  gb_placement :: string
  gb_providers :: "(string \<times> (string \<times> string) list) list"

definition region_DefaultTable :: region_table where
  "region_DefaultTable =
     (let r = (\<lambda>s. \<lparr>ar_slug = s, ar_dns = None, ar_providers = []\<rparr>) in
      [(''us-east-1'', r ''use1''), (''us-west-1'', r ''usw1''),
       (''eu-central-1'', r ''euc1''), (''ap-east-1'', r ''ape1'')])"

definition region_Slug :: "region_table \<Rightarrow> string \<Rightarrow> string option" where
  "region_Slug t r = map_option ar_slug (map_of t r)"

definition SortedNames :: "region_table \<Rightarrow> string list" where
  "SortedNames t = sort (map fst t)"

definition size_DefaultTable :: "string list" where
  "size_DefaultTable = [''SMALL'', ''MEDIUM'', ''LARGE'']"

definition size_Resolve :: "string list \<Rightarrow> string \<Rightarrow> bool" where
  "size_Resolve t name \<longleftrightarrow> name \<in> set t"

subsection \<open>Lemmas: instance keys\<close>

lemma pad2_digits: "c \<in> set (pad2 n) \<Longrightarrow> 48 \<le> (of_char c :: nat) \<and> (of_char c :: nat) \<le> 57"
proof -
  assume "c \<in> set (pad2 n)"
  then have "c = CHR ''0'' \<or> c \<in> set (itoa n)"
    by (auto simp: pad2_def split: if_splits)
  then show ?thesis using itoa_digits by auto
qed

lemma pad2_no_dash: "CHR ''-'' \<notin> set (pad2 n)"
  using pad2_digits by fastforce

lemma pad2_no_dot: "CHR ''.'' \<notin> set (pad2 n)"
  using pad2_digits by fastforce

lemma pad2_inj: "pad2 m = pad2 n \<Longrightarrow> m = n"
proof -
  assume "pad2 m = pad2 n"
  moreover have "atoi (pad2 k) = Some k" for k
    using atoi_itoa [of k] by (simp add: pad2_def atoi_def)
  ultimately show ?thesis by (metis option.inject)
qed

lemma last_index_append:
  "c \<notin> set b \<Longrightarrow> last_index c (a @ c # b) = Some (length a)"
proof -
  assume b: "c \<notin> set b"
  have "takeWhile (\<lambda>x. x \<noteq> c) (rev b @ [c] @ rev a) = rev b"
    using b by (subst takeWhile_append2) auto
  then show ?thesis by (simp add: last_index_def)
qed

lemma BareComputeName_SpecKey: "name \<noteq> [] \<Longrightarrow> BareComputeName (SpecKey name i) = name"
  by (simp add: BareComputeName_def SpecKey_def last_index_append pad2_no_dash)

lemma SpecKey_inj:
  assumes "SpecKey a i = SpecKey b j" "0 \<le> i" "0 \<le> j"
  shows "a = b \<and> i = j"
proof -
  have "last_index CHR ''-'' (SpecKey a i) = Some (length a)"
    and "last_index CHR ''-'' (SpecKey b j) = Some (length b)"
    by (simp_all add: SpecKey_def last_index_append pad2_no_dash)
  with assms(1) have "length a = length b" by simp
  with assms(1) have "a = b" "pad2 (nat i) = pad2 (nat j)" by (simp_all add: SpecKey_def)
  then show ?thesis using assms pad2_inj by fastforce
qed

lemma canonical_instances_lookup:
  "canonical_instances name is m k =
     (if \<exists>i\<in>set is. k = SpecKey name i then Some k else m k)"
  by (induction "is" arbitrary: m) auto

text \<open>Every accepted form resolves to an instance key of a declared compute.\<close>

lemma canonical_from_range:
  "canonical_from cs m k = Some v \<Longrightarrow>
     m k = Some v \<or> (\<exists>c\<in>set cs. \<exists>i\<in>{1..cmp_instances c}. v = SpecKey (cmp_name c) i \<and>
        (k = v \<or> (cmp_instances c = 1 \<and> k = cmp_name c)))"
proof (induction cs arbitrary: m)
  case Nil
  then show ?case by simp
next
  case (Cons c cs)
  let ?m1 = "canonical_instances (cmp_name c) [1..cmp_instances c] m"
  let ?m2 = "if cmp_instances c = 1 then ?m1(cmp_name c \<mapsto> SpecKey (cmp_name c) 1) else ?m1"
  have "canonical_from cs ?m2 k = Some v" using Cons.prems by (simp add: Let_def)
  from Cons.IH [OF this] have "?m2 k = Some v \<or> (\<exists>c'\<in>set (c # cs). \<exists>i\<in>{1..cmp_instances c'}.
        v = SpecKey (cmp_name c') i \<and> (k = v \<or> (cmp_instances c' = 1 \<and> k = cmp_name c')))"
    by auto
  then show ?case
  proof
    assume "?m2 k = Some v"
    then show ?thesis
      by (auto simp: canonical_instances_lookup split: if_splits)
  qed auto
qed

lemma canonical_range:
  "CanonicalComputeKeys cs k = Some v \<Longrightarrow>
     \<exists>c\<in>set cs. \<exists>i\<in>{1..cmp_instances c}. v = SpecKey (cmp_name c) i \<and>
        (k = v \<or> (cmp_instances c = 1 \<and> k = cmp_name c))"
  using canonical_from_range [of cs Map.empty k v] by (simp add: CanonicalComputeKeys_def)

lemma canonical_from_dom:
  "dom (canonical_from cs m) = dom m \<union> (\<Union>c\<in>set cs. SpecKey (cmp_name c) ` {1..cmp_instances c}
      \<union> (if cmp_instances c = 1 then {cmp_name c} else {}))"
proof (induction cs arbitrary: m)
  case Nil
  show ?case by simp
next
  case (Cons c cs)
  have d: "dom (canonical_instances (cmp_name c) [1..cmp_instances c] m)
      = dom m \<union> SpecKey (cmp_name c) ` {1..cmp_instances c}" for m
    by (auto simp: canonical_instances_lookup dom_def)
  show ?case by (auto simp: Cons.IH Let_def d)
qed

lemma SpecKey_nonempty [simp]: "SpecKey n i \<noteq> []"
  by (simp add: SpecKey_def)

lemma canonical_nonempty: "CanonicalComputeKeys cs k = Some v \<Longrightarrow> v \<noteq> []"
  using canonical_range SpecKey_nonempty by metis

subsection \<open>Lemmas: resource names\<close>

lemma scan_type_skip:
  "\<forall>t\<in>set xs. t \<notin> set resourceTypes \<Longrightarrow> ys \<noteq> [] \<Longrightarrow> xs \<noteq> [] \<Longrightarrow>
     scan_type at2 prev (xs @ ys) = scan_type False (last xs) ys"
proof (induction xs arbitrary: at2 prev)
  case Nil
  then show ?case by simp
next
  case (Cons x xs)
  obtain u us where u: "xs @ ys = u # us" using Cons.prems(2) by (cases "xs @ ys") auto
  have "scan_type at2 prev ((x # xs) @ ys) = scan_type False x (xs @ ys)"
    using Cons.prems(1) u by simp
  then show ?case using Cons by (cases "xs = []") auto
qed

lemma resourceTypes_no_dash: "t \<in> set resourceTypes \<Longrightarrow> CHR ''-'' \<notin> set t"
  by (auto simp: resourceTypes_def)

lemma parts_of_name:
  assumes "typ \<in> set resourceTypes" "CHR ''-'' \<notin> set slug"
  shows "split_on CHR ''-'' (join ''-'' [usage, env, slug, typ, name])
       = usage # split_on CHR ''-'' env @ [slug, typ] @ split_on CHR ''-'' name"
    and "split_on CHR ''-'' (join ''-'' [usage, env, typ, name])
       = usage # split_on CHR ''-'' env @ [typ] @ split_on CHR ''-'' name"
proof -
  have u: "CHR ''-'' \<notin> set usage" by (simp add: usage_def)
  have t: "CHR ''-'' \<notin> set typ" using assms(1) by (rule resourceTypes_no_dash)
  show "split_on CHR ''-'' (join ''-'' [usage, env, slug, typ, name])
       = usage # split_on CHR ''-'' env @ [slug, typ] @ split_on CHR ''-'' name"
    by (subst split_on_join_concat) (simp_all add: split_on_plain u t assms(2))
  show "split_on CHR ''-'' (join ''-'' [usage, env, typ, name])
       = usage # split_on CHR ''-'' env @ [typ] @ split_on CHR ''-'' name"
    by (subst split_on_join_concat) (simp_all add: split_on_plain u t)
qed

lemma parse_parts:
  assumes p: "split_on CHR ''-'' n = usage # split_on CHR ''-'' env @ mid @ typ # split_on CHR ''-'' name"
    and ty: "typ \<in> set resourceTypes"
    and free: "\<forall>t\<in>set (tl (split_on CHR ''-'' env) @ mid). t \<notin> set resourceTypes"
  shows "ParseResourceName n = Some (typ, name,
     if tl (split_on CHR ''-'' env) @ mid = [] then [] else last (tl (split_on CHR ''-'' env) @ mid))"
proof -
  let ?xs = "tl (split_on CHR ''-'' env) @ mid"
  obtain y ys where y: "split_on CHR ''-'' name = y # ys"
    by (cases "split_on CHR ''-'' name") auto
  have d: "drop 2 (split_on CHR ''-'' n) = ?xs @ typ # y # ys"
    unfolding p y by (cases "split_on CHR ''-'' env") simp_all
  have l: "\<not> length (split_on CHR ''-'' n) < 4" "hd (split_on CHR ''-'' n) = usage"
    unfolding p y by (cases "split_on CHR ''-'' env", simp_all)+
  have nm: "join ''-'' (y # ys) = name" using y join_split_on [of "CHR ''-''" name] by simp
  have "ParseResourceName n = scan_type True [] (?xs @ typ # y # ys)"
    using d l by (simp add: ParseResourceName_def Let_def)
  also have "\<dots> = Some (typ, name, if ?xs = [] then [] else last ?xs)"
  proof (cases "?xs = []")
    case True
    then show ?thesis using ty nm by simp
  next
    case False
    have "scan_type True [] (?xs @ typ # y # ys) = scan_type False (last ?xs) (typ # y # ys)"
      using free False by (intro scan_type_skip) auto
    also have "\<dots> = Some (typ, name, last ?xs)" using ty nm by simp
    finally show ?thesis by (simp only: if_not_P [OF False])
  qed
  finally show ?thesis .
qed

lemma parse_Resource:
  assumes "typ \<in> set resourceTypes" "slug \<noteq> []" "CHR ''-'' \<notin> set slug" "slug \<notin> set resourceTypes"
    and "\<forall>t\<in>set (tl (split_on CHR ''-'' env)). t \<notin> set resourceTypes"
  shows "ParseResourceName (Resource env slug typ name) = Some (typ, name, slug)"
  using parse_parts [of "Resource env slug typ name" env "[slug]" "typ" name]
    parts_of_name(1) [OF assms(1,3), of env name] assms
  by (simp add: Resource_def)

lemma parse_GlobalResource:
  assumes "typ \<in> set resourceTypes"
    and "\<forall>t\<in>set (tl (split_on CHR ''-'' env)). t \<notin> set resourceTypes"
  shows "ParseResourceName (GlobalResource env typ name) =
     Some (typ, name, if CHR ''-'' \<in> set env then last (split_on CHR ''-'' env) else [])"
proof -
  have e: "tl (split_on CHR ''-'' env) = [] \<longleftrightarrow> CHR ''-'' \<notin> set env"
  proof -
    have "CHR ''-'' \<in> set env \<Longrightarrow> tl (split_on CHR ''-'' env) \<noteq> []"
      using split_list [of "CHR ''-''" env] by (auto simp: split_on_app tl_append2)
    then show ?thesis using split_on_plain [of "CHR ''-''" env] by auto
  qed
  have "ParseResourceName (GlobalResource env typ name) = Some (typ, name,
      if tl (split_on CHR ''-'' env) = [] then [] else last (tl (split_on CHR ''-'' env)))"
    using parse_parts [of "GlobalResource env typ name" env "[]" "typ" name]
      parts_of_name(2) [OF assms(1), of "[]" env name] assms
    by (simp add: GlobalResource_def)
  then show ?thesis using e by (auto simp: last_tl)
qed

subsection \<open>Lemmas: DNS names and zones\<close>

lemma RecordFQDN_in_zone: "InZone (RecordFQDN env slug sub base) base"
  by (simp add: InZone_def RecordFQDN_def suffix_def)

lemma HostFQDN_in_zone: "InZone (HostFQDN env slug c base) base"
  by (simp add: HostFQDN_def RecordFQDN_in_zone)

lemma ServiceFQDN_in_zone: "InZone (ServiceFQDN env slug c base) base"
  by (simp add: ServiceFQDN_def RecordFQDN_in_zone)

lemma AppFQDN_in_zone: "InZone (AppFQDN sub slug base eslug) base"
  by (simp add: InZone_def AppFQDN_def suffix_def)

text \<open>The provider appends the zone: inside the zone that rebuilds the name.\<close>

definition provider_appends :: "string \<Rightarrow> string \<Rightarrow> string" where
  "provider_appends rel base = (if rel = ''@'' then base else rel @ CHR ''.'' # base)"

lemma ZoneRelative_rebuilds:
  assumes "InZone fqdn base" "fqdn \<noteq> ''@.'' @ base"
  shows "provider_appends (ZoneRelative fqdn base) base = fqdn"
proof (cases "fqdn = base")
  case True
  then show ?thesis by (simp add: ZoneRelative_def provider_appends_def)
next
  case False
  then obtain p where p: "fqdn = p @ CHR ''.'' # base"
    using assms(1) by (auto simp: InZone_def suffix_def)
  then have "ZoneRelative fqdn base = p"
    using False by (simp add: ZoneRelative_def)
  then show ?thesis using assms(2) p by (auto simp: provider_appends_def)
qed

text \<open>Out of the zone the provider lands on a different name: the check is not vacuous.\<close>

lemma ZoneRelative_outside:
  "\<not> InZone fqdn base \<Longrightarrow> ZoneRelative fqdn base = fqdn"
  by (auto simp: InZone_def ZoneRelative_def trim_suffix_id)

lemma ExpandVanity_bare:
  "CHR ''.'' \<notin> set v \<Longrightarrow> CHR ''{'' \<notin> set v \<Longrightarrow> InZone (ExpandVanity v env slug base) base"
  by (simp add: ExpandVanity_def RecordFQDN_in_zone)

lemma replacer_append_plain:
  assumes "\<forall>(k, v)\<in>set ps. k \<noteq> [] \<longrightarrow> hd k = CHR ''{''" "CHR ''{'' \<notin> set a"
  shows "replacer ps (a @ b) = a @ replacer ps b"
  using assms(2)
proof (induction a)
  case Nil
  show ?case by simp
next
  case (Cons c a)
  have "\<not> (k \<noteq> [] \<and> prefix k (c # a @ b))" if kv: "(k, v) \<in> set ps" for k v
  proof
    assume h: "k \<noteq> [] \<and> prefix k (c # a @ b)"
    have "k \<noteq> [] \<longrightarrow> hd k = CHR ''{''" using assms(1) kv by fastforce
    with h have "c = CHR ''{''" by (cases k) auto
    with Cons.prems show False by simp
  qed
  then have "find (\<lambda>(k, v). k \<noteq> [] \<and> prefix k (c # a @ b)) ps = None"
    by (auto simp: find_None_iff)
  then show ?case using Cons by simp
qed

text \<open>A template that ends in \<open>.{BASE_DOMAIN}\<close> after literal text expands into the zone.\<close>

lemma ExpandVanity_template:
  assumes "CHR ''{'' \<notin> set a"
  shows "ExpandVanity (a @ ''.{BASE_DOMAIN}'') env slug base = a @ ''.'' @ base"
proof -
  let ?ps = "[(''{BASE_DOMAIN}'', base), (''{ENV}'', env), (''{REGION_SLUG}'', slug)]"
  have "replacer ?ps (a @ ''.{BASE_DOMAIN}'') = a @ replacer ?ps ''.{BASE_DOMAIN}''"
    using assms by (intro replacer_append_plain) auto
  also have "replacer ?ps ''.{BASE_DOMAIN}'' = ''.'' @ base" by simp
  finally show ?thesis by (simp add: ExpandVanity_def)
qed

end
