(* ===== verification/EdgePlan.thy ===== *)
theory EdgePlan
  imports NginxConfig Naming
begin

text \<open>
  What the deploy derives from the specs of one scope (\<open>program/program.go\<close>): the inputs of the nginx
  of every host, the firewall ports, the DNS records, and the substitution of backend addresses that the
  provider makes before it renders (\<open>providers/hetzner/tls.go\<close>).  A Go map filled in order is read
  through \<^term>\<open>map_of\<close> of the reversed entries (the last one counts); a map of slices is the list of
  its appends, read with \<open>entries_at\<close>.
\<close>

definition entries_at :: "('k \<times> 'v) list \<Rightarrow> 'k \<Rightarrow> 'v list" where
  "entries_at kvs k = map snd (filter (\<lambda>kv. fst kv = k) kvs)"

definition last_map :: "('k \<times> 'v) list \<Rightarrow> ('k \<rightharpoonup> 'v)" where
  "last_map kvs = map_of (rev kvs)"

text \<open>A lookup that misses gives the zero value, the empty string.\<close>

definition go_string :: "('k \<rightharpoonup> string) \<Rightarrow> 'k \<Rightarrow> string" where
  "go_string m k = (case m k of None \<Rightarrow> [] | Some s \<Rightarrow> s)"

datatype edge_err =
    SNITwice string string int string string
  | HealthPortMismatch string int int
  | SNICollision string string string string
  | NoComputeOutput string
  | NoBackendOutput string string string
  | NoPeerOutput string string string
  | UnresolvedRoute string
  | UnresolvedHealth string
  | UnresolvedTermination string
  | UnresolvedListen string
  | UnresolvedRealIP string
  | GatewayHostUnresolved string string
  | GatewayWithoutIngress string
  | GatewayIngressUnresolved string string
  | RecordOutOfZone string
  | RecordTwice string string string
  | RecordNoOutput string string
  | RenderFailed nginx_err

subsection \<open>Resolving foreign keys\<close>

definition ingressHostsByName :: "resources \<Rightarrow> (string \<rightharpoonup> string) \<Rightarrow> (string \<rightharpoonup> string)" where
  "ingressHostsByName res canonical =
     last_map (concat (map (\<lambda>ing. case canonical (ing_host ing) of None \<Rightarrow> [] | Some hk \<Rightarrow> [(ing_name ing, hk)]) (res_ingress res)))"

definition ingressProvidersByHost :: "compute_spec list \<Rightarrow> provider_defaults \<Rightarrow> (string \<rightharpoonup> string)" where
  "ingressProvidersByHost computes defaults =
     last_map (concat (map (\<lambda>c. map (\<lambda>i. (SpecKey (cmp_name c) i, ResolveProvider (cmp_provider c) ''compute'' [] defaults))
        [1..cmp_instances c]) computes))"

definition ingressFQDNs :: "string \<Rightarrow> route_spec \<Rightarrow> string \<Rightarrow> string \<Rightarrow> string \<Rightarrow> string list" where
  "ingressFQDNs svcName rt env slug base = ServiceFQDN env slug svcName base # map (\<lambda>v. ExpandVanity v env slug base) (rt_vanity rt)"

record ingress_service =
  is_svc :: service_spec
  is_ingHost :: string
  is_svcHost :: string
  is_coLocated :: bool

definition ingress_service_of :: "(string \<rightharpoonup> string) \<Rightarrow> (string \<rightharpoonup> string) \<Rightarrow> service_spec \<Rightarrow> ingress_service list" where
  "ingress_service_of ingHosts canonical s =
     (if svc_ingress s = [] \<or> svc_routes s = [] \<and> svc_health_port s = 0 then []
      else
        case (ingHosts (svc_ingress s), canonical (svc_host s)) of
          (Some ih, Some sh) \<Rightarrow> [\<lparr>is_svc = s, is_ingHost = ih, is_svcHost = sh, is_coLocated = (sh = ih)\<rparr>]
        | _ \<Rightarrow> [])"

definition resolveIngressServices :: "resources \<Rightarrow> (string \<rightharpoonup> string) \<Rightarrow> ingress_service list" where
  "resolveIngressServices res canonical =
     concat (map (ingress_service_of (ingressHostsByName res canonical) canonical) (res_service res))"

record resolved_app =
  ra_app :: app_spec
  ra_ingHost :: string

definition resolveIngressApps :: "resources \<Rightarrow> (string \<rightharpoonup> string) \<Rightarrow> resolved_app list" where
  "resolveIngressApps res canonical =
     concat (map (\<lambda>a. if app_ingress a = [] then []
        else case ingressHostsByName res canonical (app_ingress a) of
               None \<Rightarrow> [] | Some ih \<Rightarrow> [\<lparr>ra_app = a, ra_ingHost = ih\<rparr>]) (res_app res))"

record resolved_gateway =
  rg_gw :: gateway_spec
  rg_host :: string
  rg_ingHost :: string
  rg_fqdn :: string

definition resolveGateways :: "resources \<Rightarrow> (string \<rightharpoonup> string) \<Rightarrow> string \<Rightarrow> string \<Rightarrow> string \<Rightarrow> resolved_gateway list" where
  "resolveGateways res canonical slug base eslug =
     concat (map (\<lambda>gw. case canonical (gw_host gw) of
          None \<Rightarrow> []
        | Some hk \<Rightarrow> [\<lparr>rg_gw = gw, rg_host = hk,
            rg_ingHost = go_string (ingressHostsByName res canonical) (gw_ingress gw),
            rg_fqdn = AppFQDN (gw_subdomain gw) slug base eslug\<rparr>]) (res_gateway res))"

definition gateway_fk_err :: "(string \<rightharpoonup> string) \<Rightarrow> (string \<rightharpoonup> string) \<Rightarrow> gateway_spec \<Rightarrow> edge_err option" where
  "gateway_fk_err canonical ingHosts gw =
     (if canonical (gw_host gw) = None then Some (GatewayHostUnresolved (gw_name gw) (gw_host gw))
      else if gw_ingress gw = [] then Some (GatewayWithoutIngress (gw_name gw))
      else if ingHosts (gw_ingress gw) = None then Some (GatewayIngressUnresolved (gw_name gw) (gw_ingress gw))
      else None)"

definition checkGatewayFKs :: "resources \<Rightarrow> edge_err option" where
  "checkGatewayFKs res =
     (let canonical = CanonicalComputeKeys (res_compute res) in
      first_err (gateway_fk_err canonical (ingressHostsByName res canonical)) (res_gateway res))"

definition servicesByName :: "service_spec list \<Rightarrow> (string \<rightharpoonup> service_spec)" where
  "servicesByName svcs = last_map (map (\<lambda>s. (svc_name s, s)) svcs)"

subsection \<open>Routes\<close>

definition route_entry :: "ingress_service \<Rightarrow> string \<Rightarrow> string \<Rightarrow> string \<Rightarrow> route_spec \<Rightarrow> ingress_route" where
  "route_entry is env slug base rt =
     \<lparr>ir_service = svc_name (is_svc is), ir_type = rt_type rt,
      ir_fqdns = (if rt_type rt = IngressTypeTLSTermination then sort (ingressFQDNs (svc_name (is_svc is)) rt env slug base) else []),
      ir_listen = rt_listen rt, ir_target = rt_target rt,
      ir_backend = (if is_coLocated is then ''127.0.0.1'' else []), ir_limit = None\<rparr>"

definition route_entries :: "resources \<Rightarrow> (string \<rightharpoonup> string) \<Rightarrow> string \<Rightarrow> string \<Rightarrow> string \<Rightarrow> (string \<times> ingress_route) list" where
  "route_entries res canonical env slug base =
     concat (map (\<lambda>is. map (\<lambda>rt. (is_ingHost is, route_entry is env slug base rt)) (svc_routes (is_svc is)))
        (resolveIngressServices res canonical))"

text \<open>The first server name that a later route of the host claims again on one listen port.\<close>

fun sni_names :: "string \<Rightarrow> ingress_route \<Rightarrow> ((int \<times> string) \<times> string) list \<Rightarrow> string list
    \<Rightarrow> edge_err + ((int \<times> string) \<times> string) list" where
  "sni_names host rt seen [] = Inr seen"
| "sni_names host rt seen (n # ns) =
     (case map_of seen (ir_listen rt, n) of
        Some prev \<Rightarrow> Inl (SNITwice host n (ir_listen rt) prev (ir_service rt))
      | None \<Rightarrow> sni_names host rt (((ir_listen rt, n), ir_service rt) # seen) ns)"

fun sni_routes :: "string \<Rightarrow> ((int \<times> string) \<times> string) list \<Rightarrow> ingress_route list \<Rightarrow> edge_err option" where
  "sni_routes host seen [] = None"
| "sni_routes host seen (rt # rts) =
     (case sni_names host rt seen (ir_fqdns rt) of
        Inl e \<Rightarrow> Some e
      | Inr seen' \<Rightarrow> sni_routes host seen' rts)"

text \<open>The Go loop over the hosts has no order; the model takes the hosts as they first appear.\<close>

definition ingressRoutesByHost :: "resources \<Rightarrow> (string \<rightharpoonup> string) \<Rightarrow> string \<Rightarrow> string \<Rightarrow> string
    \<Rightarrow> edge_err + (string \<Rightarrow> ingress_route list)" where
  "ingressRoutesByHost res canonical env slug base =
     (let es = route_entries res canonical env slug base in
      case first_err (\<lambda>h. sni_routes h [] (entries_at es h)) (remdups (map fst es)) of
        Some e \<Rightarrow> Inl e
      | None \<Rightarrow> Inr (\<lambda>h. sort_key (\<lambda>r. (ir_listen r, ir_service r)) (entries_at es h)))"

text \<open>The second result of the routes: which backends are on other hosts.\<close>

definition ingressCrossHostBackends :: "ingress_service list \<Rightarrow> (string \<times> string \<times> string) list" where
  "ingressCrossHostBackends iss =
     concat (map (\<lambda>is. if is_coLocated is then [] else [(is_ingHost is, svc_name (is_svc is), is_svcHost is)]) iss)"

subsection \<open>Apps\<close>

definition app_Folder :: "string \<Rightarrow> string" where
  "app_Folder name = ''/srv/wardnet/app/'' @ name"

definition CurrentPath :: "string \<Rightarrow> string" where
  "CurrentPath name = app_Folder name @ ''/current''"

definition app_entries :: "resources \<Rightarrow> (string \<rightharpoonup> string) \<Rightarrow> string \<Rightarrow> string \<Rightarrow> string \<Rightarrow> (string \<times> ingress_app) list" where
  "app_entries res canonical slug base eslug =
     map (\<lambda>ra. (ra_ingHost ra,
        \<lparr>ia_name = app_name (ra_app ra), ia_fqdn = AppFQDN (app_subdomain (ra_app ra)) slug base eslug,
         ia_root = CurrentPath (app_name (ra_app ra)), ia_spa = app_spa (ra_app ra), ia_limit = None\<rparr>))
       (resolveIngressApps res canonical)"

definition ingressAppsByHost :: "resources \<Rightarrow> (string \<rightharpoonup> string) \<Rightarrow> string \<Rightarrow> string \<Rightarrow> string \<Rightarrow> string \<Rightarrow> ingress_app list" where
  "ingressAppsByHost res canonical slug base eslug h = sort_key ia_fqdn (entries_at (app_entries res canonical slug base eslug) h)"

subsection \<open>Gateways\<close>

definition toGatewayNginxRoutes :: "string list \<Rightarrow> service_spec list \<Rightarrow> gateway_route list" where
  "toGatewayNginxRoutes names svcs =
     concat (map (\<lambda>name. case Option.bind (servicesByName svcs name) svc_mesh of
          None \<Rightarrow> []
        | Some m \<Rightarrow> map (\<lambda>p. \<lparr>gwr_pattern = p, gwr_service = name\<rparr>) (mesh_public m)) names)"

definition bare_gateway :: "resolved_gateway \<Rightarrow> ingress_gateway" where
  "bare_gateway rg =
     \<lparr>ig_name = gw_name (rg_gw rg), ig_fqdn = rg_fqdn rg, ig_routes = [], ig_probes = [], ig_limit = None,
      ig_backend = [], ig_port = GatewayHTTPPort, ig_real_ip = [], ig_listen = []\<rparr>"

definition termination_entry :: "resolved_gateway \<Rightarrow> ingress_gateway" where
  "termination_entry rg = (bare_gateway rg)\<lparr>ig_backend := (if rg_host rg = rg_ingHost rg then ''127.0.0.1'' else [])\<rparr>"

definition routing_entry :: "service_spec list \<Rightarrow> resolved_gateway \<Rightarrow> ingress_gateway" where
  "routing_entry svcs rg =
     (bare_gateway rg)
       \<lparr>ig_routes := toGatewayNginxRoutes (gw_services (rg_gw rg)) svcs,
        ig_probes := gw_health_paths (rg_gw rg),
        ig_listen := (if rg_host rg = rg_ingHost rg then ''127.0.0.1'' else []),
        ig_real_ip := (if rg_host rg = rg_ingHost rg then ''127.0.0.1'' else [])\<rparr>"

definition fronted_gateways :: "resources \<Rightarrow> (string \<rightharpoonup> string) \<Rightarrow> string \<Rightarrow> string \<Rightarrow> string \<Rightarrow> resolved_gateway list" where
  "fronted_gateways res canonical slug base eslug =
     filter (\<lambda>rg. rg_ingHost rg \<noteq> []) (resolveGateways res canonical slug base eslug)"

definition terminations :: "resources \<Rightarrow> (string \<rightharpoonup> string) \<Rightarrow> string \<Rightarrow> string \<Rightarrow> string \<Rightarrow> string \<Rightarrow> ingress_gateway list" where
  "terminations res canonical slug base eslug h =
     sort_key ig_fqdn (entries_at (map (\<lambda>rg. (rg_ingHost rg, termination_entry rg)) (fronted_gateways res canonical slug base eslug)) h)"

definition routings :: "resources \<Rightarrow> (string \<rightharpoonup> string) \<Rightarrow> string \<Rightarrow> string \<Rightarrow> string \<Rightarrow> string \<Rightarrow> ingress_gateway list" where
  "routings res canonical slug base eslug h =
     sort_key ig_fqdn (entries_at (map (\<lambda>rg. (rg_host rg, routing_entry (res_service res) rg)) (fronted_gateways res canonical slug base eslug)) h)"

definition gateway_peers :: "resources \<Rightarrow> (string \<rightharpoonup> string) \<Rightarrow> string \<Rightarrow> string \<Rightarrow> string \<Rightarrow> (string \<times> string \<times> string) list" where
  "gateway_peers res canonical slug base eslug =
     concat (map (\<lambda>rg. if rg_host rg = rg_ingHost rg then []
        else [(rg_ingHost rg, gw_name (rg_gw rg), rg_host rg), (rg_host rg, gw_name (rg_gw rg), rg_ingHost rg)])
       (fronted_gateways res canonical slug base eslug))"

subsection \<open>Health\<close>

definition healthEntry :: "service_spec \<Rightarrow> bool \<Rightarrow> string \<Rightarrow> string \<Rightarrow> string \<Rightarrow> ingress_health" where
  "healthEntry s coLocated env slug base =
     \<lparr>ih_service = svc_name s, ih_fqdn = ServiceFQDN env slug (svc_name s) base, ih_target = svc_health_port s,
      ih_backend = (if coLocated then ''127.0.0.1'' else []), ih_paths = svc_health_paths s\<rparr>"

definition ingress_health_entries :: "ingress_service list \<Rightarrow> string \<Rightarrow> string \<Rightarrow> string \<Rightarrow> (string \<times> ingress_health) list" where
  "ingress_health_entries iss env slug base =
     concat (map (\<lambda>is. if svc_health_port (is_svc is) = 0 then []
        else [(is_ingHost is, healthEntry (is_svc is) (is_coLocated is) env slug base)]) iss)"

definition ingressHealthByHost :: "ingress_service list \<Rightarrow> string \<Rightarrow> string \<Rightarrow> string \<Rightarrow> string \<Rightarrow> ingress_health list" where
  "ingressHealthByHost iss env slug base h = sort_key ih_fqdn (entries_at (ingress_health_entries iss env slug base) h)"

record gateway_health_service =
  gh_svc :: service_spec
  gh_gwHost :: string
  gh_svcHost :: string
  gh_coLocated :: bool
  gh_port :: int

fun gateway_health_of :: "(string \<rightharpoonup> service_spec) \<Rightarrow> (string \<rightharpoonup> string) \<Rightarrow> string list
    \<Rightarrow> (resolved_gateway \<times> string) list \<Rightarrow> gateway_health_service list" where
  "gateway_health_of byName canonical seen [] = []"
| "gateway_health_of byName canonical seen ((rg, name) # xs) =
     (case byName name of
        None \<Rightarrow> gateway_health_of byName canonical seen xs
      | Some s \<Rightarrow>
          (if svc_health_port s = 0 \<or> svc_ingress s \<noteq> [] \<or> name \<in> set seen then gateway_health_of byName canonical seen xs
           else case canonical (svc_host s) of
                  None \<Rightarrow> gateway_health_of byName canonical seen xs
                | Some sh \<Rightarrow>
                    \<lparr>gh_svc = s, gh_gwHost = rg_ingHost rg, gh_svcHost = sh, gh_coLocated = (sh = rg_ingHost rg),
                     gh_port = gateway_health_port (rg_gw rg)\<rparr> # gateway_health_of byName canonical (name # seen) xs))"

definition resolveGatewayHealthServices :: "resources \<Rightarrow> (string \<rightharpoonup> string) \<Rightarrow> gateway_health_service list" where
  "resolveGatewayHealthServices res canonical =
     gateway_health_of (servicesByName (res_service res)) canonical []
       (concat (map (\<lambda>rg. map (Pair rg) (gw_services (rg_gw rg))) (fronted_gateways res canonical [] [] [])))"

definition gatewayHealthByHost :: "gateway_health_service list \<Rightarrow> string \<Rightarrow> string \<Rightarrow> string \<Rightarrow> string \<Rightarrow> ingress_health list" where
  "gatewayHealthByHost ghs env slug base h =
     sort_key ih_fqdn (entries_at (map (\<lambda>g. (gh_gwHost g, healthEntry (gh_svc g) (gh_coLocated g) env slug base)) ghs) h)"

definition ingressHealthPortByHost :: "resources \<Rightarrow> (string \<rightharpoonup> string) \<Rightarrow> (string \<rightharpoonup> int)" where
  "ingressHealthPortByHost res canonical =
     last_map (concat (map (\<lambda>ing. case canonical (ing_host ing) of None \<Rightarrow> [] | Some hk \<Rightarrow> [(hk, ingress_health_port ing)]) (res_ingress res)))"

definition ingressHealthPortByName :: "resources \<Rightarrow> (string \<rightharpoonup> int)" where
  "ingressHealthPortByName res = last_map (map (\<lambda>ing. (ing_name ing, ingress_health_port ing)) (res_ingress res))"

text \<open>The gateway health tier joins the health ports of the ingresses.\<close>

fun join_health_ports :: "(string \<rightharpoonup> int) \<Rightarrow> gateway_health_service list \<Rightarrow> edge_err + (string \<rightharpoonup> int)" where
  "join_health_ports m [] = Inr m"
| "join_health_ports m (g # gs) =
     (case m (gh_gwHost g) of
        Some existing \<Rightarrow>
          (if existing \<noteq> gh_port g then Inl (HealthPortMismatch (gh_gwHost g) existing (gh_port g))
           else join_health_ports (m(gh_gwHost g \<mapsto> gh_port g)) gs)
      | None \<Rightarrow> join_health_ports (m(gh_gwHost g \<mapsto> gh_port g)) gs)"

subsection \<open>Server-name collisions on port 443\<close>

fun claim_names :: "('a \<Rightarrow> string) \<Rightarrow> ('a \<Rightarrow> string) \<Rightarrow> string \<Rightarrow> string \<Rightarrow> (string \<rightharpoonup> string) \<Rightarrow> 'a list
    \<Rightarrow> edge_err + (string \<rightharpoonup> string)" where
  "claim_names fqdn name kind host owner [] = Inr owner"
| "claim_names fqdn name kind host owner (x # xs) =
     (case owner (fqdn x) of
        Some prev \<Rightarrow> Inl (SNICollision host (kind @ name x) (fqdn x) prev)
      | None \<Rightarrow> claim_names fqdn name kind host (owner(fqdn x \<mapsto> kind @ name x)) xs)"

definition route_owners :: "ingress_route list \<Rightarrow> (string \<rightharpoonup> string)" where
  "route_owners rts =
     last_map (concat (map (\<lambda>rt. if ir_type rt \<noteq> IngressTypeTLSTermination \<or> ir_listen rt \<noteq> 443 then []
        else map (\<lambda>n. (n, ''service '' @ ir_service rt)) (ir_fqdns rt)) rts))"

definition host_collision :: "(string \<Rightarrow> ingress_route list) \<Rightarrow> (string \<Rightarrow> ingress_app list) \<Rightarrow> (string \<Rightarrow> ingress_gateway list)
    \<Rightarrow> string \<Rightarrow> edge_err option" where
  "host_collision routes apps gws h =
     (case claim_names ia_fqdn ia_name ''app '' h (route_owners (routes h)) (apps h) of
        Inl e \<Rightarrow> Some e
      | Inr owner \<Rightarrow>
          (case claim_names ig_fqdn ig_name ''gateway '' h owner (gws h) of Inl e \<Rightarrow> Some e | Inr owner' \<Rightarrow> None))"

definition checkAppSNICollisions :: "(string \<Rightarrow> ingress_route list) \<Rightarrow> (string \<Rightarrow> ingress_app list) \<Rightarrow> (string \<Rightarrow> ingress_gateway list)
    \<Rightarrow> string list \<Rightarrow> edge_err option" where
  "checkAppSNICollisions routes apps gws hosts =
     first_err (host_collision routes apps gws) (sort (remdups (filter (\<lambda>h. apps h \<noteq> [] \<or> gws h \<noteq> []) hosts)))"

subsection \<open>Rate limits\<close>

definition securityOptOut :: "('a \<Rightarrow> string) \<Rightarrow> ('a \<Rightarrow> bool option) \<Rightarrow> 'a list \<Rightarrow> (string \<rightharpoonup> bool)" where
  "securityOptOut name flag specs = last_map (map (\<lambda>s. (name s, flag s = Some False)) specs)"

definition fkByName :: "('a \<Rightarrow> string) \<Rightarrow> ('a \<Rightarrow> string) \<Rightarrow> 'a list \<Rightarrow> (string \<rightharpoonup> string)" where
  "fkByName name fk specs = last_map (map (\<lambda>s. (name s, fk s)) specs)"

definition stamp_route :: "rate_limit_profile option \<Rightarrow> resources \<Rightarrow> ingress_route \<Rightarrow> ingress_route" where
  "stamp_route rl res r =
     (if rl \<noteq> None \<and> securityOptOut ing_name ing_security (res_ingress res)
           (go_string (fkByName svc_name svc_ingress (res_service res)) (ir_service r)) \<noteq> Some True
      then r\<lparr>ir_limit := rl\<rparr> else r)"

definition stamp_app :: "rate_limit_profile option \<Rightarrow> resources \<Rightarrow> ingress_app \<Rightarrow> ingress_app" where
  "stamp_app rl res a =
     (if rl \<noteq> None \<and> securityOptOut ing_name ing_security (res_ingress res)
           (go_string (fkByName app_name app_ingress (res_app res)) (ia_name a)) \<noteq> Some True
      then a\<lparr>ia_limit := rl\<rparr> else a)"

definition stamp_gateway :: "rate_limit_profile option \<Rightarrow> resources \<Rightarrow> ingress_gateway \<Rightarrow> ingress_gateway" where
  "stamp_gateway rl res g =
     (if rl \<noteq> None \<and> securityOptOut gw_name gw_security (res_gateway res) (ig_name g) \<noteq> Some True
      then g\<lparr>ig_limit := rl\<rparr> else g)"

subsection \<open>The plan of a scope\<close>

record scope_names =
  sn_env :: string
  sn_slug :: string
  sn_base :: string
  sn_eslug :: string

record edge_plan =
  eg_routes :: "string \<Rightarrow> ingress_route list"
  eg_apps :: "string \<Rightarrow> ingress_app list"
  eg_health :: "string \<Rightarrow> ingress_health list"
  eg_health_port :: "string \<rightharpoonup> int"
  eg_terms :: "string \<Rightarrow> ingress_gateway list"
  eg_routings :: "string \<Rightarrow> ingress_gateway list"
  eg_cross :: "string \<Rightarrow> (string \<rightharpoonup> string)"
  eg_peers :: "string \<Rightarrow> (string \<rightharpoonup> string)"

definition edge_cross :: "resources \<Rightarrow> (string \<rightharpoonup> string) \<Rightarrow> (string \<times> string \<times> string) list" where
  "edge_cross res canonical =
     ingressCrossHostBackends (resolveIngressServices res canonical)
     @ concat (map (\<lambda>g. if gh_coLocated g then [] else [(gh_gwHost g, svc_name (gh_svc g), gh_svcHost g)])
         (resolveGatewayHealthServices res canonical))"

text \<open>Every host any derivation can name.\<close>

definition edge_hosts :: "resources \<Rightarrow> (string \<rightharpoonup> string) \<Rightarrow> string list" where
  "edge_hosts res canonical =
     map is_ingHost (resolveIngressServices res canonical) @ map ra_ingHost (resolveIngressApps res canonical)
     @ concat (map (\<lambda>rg. [rg_ingHost rg, rg_host rg]) (fronted_gateways res canonical [] [] []))"

definition edge_plan_of :: "resources \<Rightarrow> scope_names \<Rightarrow> rate_limit_config \<Rightarrow> edge_err + edge_plan" where
  "edge_plan_of res sn sec =
     (let canonical = CanonicalComputeKeys (res_compute res);
          rl = ResolvedRateLimit sec;
          iss = resolveIngressServices res canonical;
          ghs = resolveGatewayHealthServices res canonical in
      case ingressRoutesByHost res canonical (sn_env sn) (sn_slug sn) (sn_base sn) of
        Inl e \<Rightarrow> Inl e
      | Inr routes0 \<Rightarrow>
          (let routes = (\<lambda>h. map (stamp_route rl res) (routes0 h));
               apps = (\<lambda>h. map (stamp_app rl res) (ingressAppsByHost res canonical (sn_slug sn) (sn_base sn) (sn_eslug sn) h));
               gws = (\<lambda>h. map (stamp_gateway rl res) (terminations res canonical (sn_slug sn) (sn_base sn) (sn_eslug sn) h)) in
           case join_health_ports (ingressHealthPortByHost res canonical) ghs of
             Inl e \<Rightarrow> Inl e
           | Inr ports \<Rightarrow>
               (case checkAppSNICollisions routes apps gws (edge_hosts res canonical) of
                  Some e \<Rightarrow> Inl e
                | None \<Rightarrow> Inr
                    \<lparr>eg_routes = routes, eg_apps = apps,
                     eg_health = (\<lambda>h. sort_key ih_fqdn (ingressHealthByHost iss (sn_env sn) (sn_slug sn) (sn_base sn) h
                        @ gatewayHealthByHost ghs (sn_env sn) (sn_slug sn) (sn_base sn) h)),
                     eg_health_port = ports, eg_terms = gws,
                     eg_routings = routings res canonical (sn_slug sn) (sn_base sn) (sn_eslug sn),
                     eg_cross = (\<lambda>h. last_map (entries_at (edge_cross res canonical) h)),
                     eg_peers = (\<lambda>h. last_map (entries_at
                        (gateway_peers res canonical (sn_slug sn) (sn_base sn) (sn_eslug sn)) h))\<rparr>)))"

definition ingressHostUnion :: "edge_plan \<Rightarrow> string list \<Rightarrow> string list" where
  "ingressHostUnion pl hosts =
     sort (remdups (filter (\<lambda>h. eg_routes pl h \<noteq> [] \<or> eg_apps pl h \<noteq> [] \<or> eg_health pl h \<noteq> [] \<or> eg_terms pl h \<noteq> []
        \<or> eg_routings pl h \<noteq> []) hosts))"

end
