(* ===== verification/EdgeRealize.thy ===== *)
theory EdgeRealize
  imports EdgePlan
begin

text \<open>
  Realising the plan of a scope: the provider's substitution of private addresses before it renders one
  host, the firewall ports of every host, the self-hosted database clusters and the DNS records.
\<close>

subsection \<open>Rendering one host\<close>

text \<open>\<open>fill\<close> replaces an empty address by the resolved one, which must not be empty.\<close>

definition fill :: "edge_err \<Rightarrow> string \<Rightarrow> string \<Rightarrow> edge_err + string" where
  "fill e current resolved = (if current \<noteq> [] then Inr current else if resolved = [] then Inl e else Inr resolved)"

definition fill_route :: "(string \<rightharpoonup> string) \<Rightarrow> ingress_route \<Rightarrow> edge_err + ingress_route" where
  "fill_route ips r =
     (case fill (UnresolvedRoute (ir_service r)) (ir_backend r) (go_string ips (ir_service r)) of
        Inl e \<Rightarrow> Inl e | Inr ip \<Rightarrow> Inr (r\<lparr>ir_backend := ip\<rparr>))"

definition fill_health :: "(string \<rightharpoonup> string) \<Rightarrow> ingress_health \<Rightarrow> edge_err + ingress_health" where
  "fill_health ips h =
     (case fill (UnresolvedHealth (ih_service h)) (ih_backend h) (go_string ips (ih_service h)) of
        Inl e \<Rightarrow> Inl e | Inr ip \<Rightarrow> Inr (h\<lparr>ih_backend := ip\<rparr>))"

definition fill_termination :: "(string \<rightharpoonup> string) \<Rightarrow> ingress_gateway \<Rightarrow> edge_err + ingress_gateway" where
  "fill_termination gwIPs g =
     (case fill (UnresolvedTermination (ig_name g)) (ig_backend g) (go_string gwIPs (ig_name g)) of
        Inl e \<Rightarrow> Inl e | Inr ip \<Rightarrow> Inr (g\<lparr>ig_backend := ip\<rparr>))"

definition fill_routing :: "(string \<rightharpoonup> string) \<Rightarrow> string \<Rightarrow> ingress_gateway \<Rightarrow> edge_err + ingress_gateway" where
  "fill_routing gwIPs hostIP g =
     (case fill (UnresolvedListen (ig_name g)) (ig_listen g) hostIP of
        Inl e \<Rightarrow> Inl e
      | Inr la \<Rightarrow>
          (case fill (UnresolvedRealIP (ig_name g)) (ig_real_ip g) (go_string gwIPs (ig_name g)) of
             Inl e \<Rightarrow> Inl e | Inr ip \<Rightarrow> Inr (g\<lparr>ig_listen := la, ig_real_ip := ip\<rparr>)))"

fun fill_all :: "('a \<Rightarrow> edge_err + 'a) \<Rightarrow> 'a list \<Rightarrow> edge_err + 'a list" where
  "fill_all f [] = Inr []"
| "fill_all f (x # xs) =
     (case f x of
        Inl e \<Rightarrow> Inl e
      | Inr y \<Rightarrow> (case fill_all f xs of Inl e \<Rightarrow> Inl e | Inr ys \<Rightarrow> Inr (y # ys)))"

text \<open>The inputs of a host once the addresses of its backends, its peers and itself are known.\<close>

record host_inputs =
  hi_routes :: "ingress_route list"
  hi_health :: "ingress_health list"
  hi_terms :: "ingress_gateway list"
  hi_routings :: "ingress_gateway list"

definition fill_inputs :: "edge_plan \<Rightarrow> string \<Rightarrow> (string \<rightharpoonup> string) \<Rightarrow> (string \<rightharpoonup> string) \<Rightarrow> string \<Rightarrow> edge_err + host_inputs" where
  "fill_inputs pl h backendIPs gwIPs hostIP =
     (if backendIPs = Map.empty \<and> gwIPs = Map.empty
      then Inr \<lparr>hi_routes = eg_routes pl h, hi_health = eg_health pl h, hi_terms = eg_terms pl h, hi_routings = eg_routings pl h\<rparr>
      else
        case fill_all (fill_route backendIPs) (eg_routes pl h) of
          Inl e \<Rightarrow> Inl e
        | Inr rts \<Rightarrow>
            (case fill_all (fill_health backendIPs) (eg_health pl h) of
               Inl e \<Rightarrow> Inl e
             | Inr hs \<Rightarrow>
                 (case fill_all (fill_termination gwIPs) (eg_terms pl h) of
                    Inl e \<Rightarrow> Inl e
                  | Inr gws \<Rightarrow>
                      (case fill_all (fill_routing gwIPs hostIP) (eg_routings pl h) of
                         Inl e \<Rightarrow> Inl e
                       | Inr grs \<Rightarrow> Inr \<lparr>hi_routes = rts, hi_health = hs, hi_terms = gws, hi_routings = grs\<rparr>))))"

definition host_health_port :: "edge_plan \<Rightarrow> string \<Rightarrow> int" where
  "host_health_port pl h =
     (case eg_health_port pl h of None \<Rightarrow> DefaultHealthProbesPort | Some p \<Rightarrow> if p = 0 then DefaultHealthProbesPort else p)"

text \<open>
  \<open>outs\<close> holds the private address of every realised compute.  The loop over a Go map has no order: the
  model reports the first missing peer in the order of the names it is given.
\<close>

definition missing_output :: "(string \<Rightarrow> string \<Rightarrow> edge_err) \<Rightarrow> (string \<rightharpoonup> string) \<Rightarrow> (string \<rightharpoonup> string) \<Rightarrow> string list \<Rightarrow> edge_err option" where
  "missing_output e outs peers names =
     first_err (\<lambda>n. case peers n of None \<Rightarrow> None | Some p \<Rightarrow> if outs p = None then Some (e n p) else None) names"

definition realize_inputs :: "resources \<Rightarrow> edge_plan \<Rightarrow> (string \<rightharpoonup> string) \<Rightarrow> string \<Rightarrow> edge_err + host_inputs" where
  "realize_inputs res pl outs h =
     (case outs h of
        None \<Rightarrow> Inl (NoComputeOutput h)
      | Some hostIP \<Rightarrow>
          (case missing_output (NoBackendOutput h) outs (eg_cross pl h) (map svc_name (res_service res)) of
             Some e \<Rightarrow> Inl e
           | None \<Rightarrow>
               (case missing_output (NoPeerOutput h) outs (eg_peers pl h) (map gw_name (res_gateway res)) of
                  Some e \<Rightarrow> Inl e
                | None \<Rightarrow> fill_inputs pl h (outs \<circ>\<^sub>m eg_cross pl h) (outs \<circ>\<^sub>m eg_peers pl h) hostIP)))"

definition realize_host :: "resources \<Rightarrow> edge_plan \<Rightarrow> (string \<rightharpoonup> string) \<Rightarrow> string \<Rightarrow> edge_err + directive list" where
  "realize_host res pl outs h =
     (case realize_inputs res pl outs h of
        Inl e \<Rightarrow> Inl e
      | Inr hi \<Rightarrow>
          (case nginx_directives (hi_routes hi) (eg_apps pl h) (hi_health hi) (host_health_port pl h) (hi_terms hi) (hi_routings hi) of
             Inl e \<Rightarrow> Inl (RenderFailed e)
           | Inr tree \<Rightarrow> Inr tree))"

subsection \<open>Database clusters\<close>

definition clusterPortsByHost :: "resources \<Rightarrow> (string \<rightharpoonup> string) \<Rightarrow> string \<Rightarrow> (string \<rightharpoonup> int)" where
  "clusterPortsByHost res canonical h =
     (let names = sort (map cl_name (filter (\<lambda>c. canonical (cl_host c) = Some h) (res_cluster res))) in
      last_map (zip names (map (\<lambda>i. ClusterPort (int i)) [0..<length names])))"

definition clusterVolumeSizeGB :: "resources \<Rightarrow> string \<Rightarrow> int" where
  "clusterVolumeSizeGB res cluster = sum_list (map db_size_gb (filter (\<lambda>d. db_cluster d = cluster) (res_database res)))"

definition databasesOfCluster :: "resources \<Rightarrow> string \<Rightarrow> database_spec list" where
  "databasesOfCluster res cluster = sort_key db_name (filter (\<lambda>d. db_cluster d = cluster) (res_database res))"

subsection \<open>Firewall\<close>

record firewall_ports =
  fp_public :: "int list"
  fp_private :: "int list"
  fp_exposed :: "exposed_port list"
  fp_cidr :: string

definition sortedInts :: "int list \<Rightarrow> int list" where
  "sortedInts xs = sort (remdups xs)"

definition sortedExposedPorts :: "exposed_port list \<Rightarrow> exposed_port list" where
  "sortedExposedPorts xs = sort_key (\<lambda>e. (ep_proto e, ep_port e)) (remdups xs)"

definition networkCIDRByCompute :: "resources \<Rightarrow> (string \<rightharpoonup> string)" where
  "networkCIDRByCompute res =
     (let cidrs = last_map (map (\<lambda>n. (net_name n, net_cidr n)) (res_network res)) in
      last_map (concat (map (\<lambda>c.
         map (\<lambda>i. (SpecKey (cmp_name c) i, go_string cidrs (cmp_network c))) [1..cmp_instances c]
         @ [(cmp_name c, go_string cidrs (cmp_network c))]) (res_compute res))))"

definition service_public :: "(string \<rightharpoonup> int) \<Rightarrow> ingress_service \<Rightarrow> (string \<times> int) list" where
  "service_public portByName is =
     concat (map (\<lambda>rt. (is_ingHost is, rt_listen rt)
          # (if rt_type rt = IngressTypeTLSTermination then [(is_ingHost is, 80)] else [])) (svc_routes (is_svc is)))
     @ (if svc_health_port (is_svc is) > 0
        then [(is_ingHost is, case portByName (svc_ingress (is_svc is)) of None \<Rightarrow> 0 | Some p \<Rightarrow> p)] else [])"

definition service_private :: "ingress_service \<Rightarrow> (string \<times> int) list" where
  "service_private is =
     (if is_coLocated is then []
      else map (\<lambda>rt. (is_svcHost is, rt_target rt)) (svc_routes (is_svc is))
        @ (if svc_health_port (is_svc is) > 0 then [(is_svcHost is, svc_health_port (is_svc is))] else []))"

definition mesh_ports :: "resources \<Rightarrow> (string \<rightharpoonup> string) \<Rightarrow> (string \<times> int) list" where
  "mesh_ports res canonical =
     concat (map (\<lambda>s. if svc_pki s = [] then []
        else case canonical (svc_host s) of None \<Rightarrow> [] | Some h \<Rightarrow> [(h, MTLSPort)]) (res_service res))"

definition public_ports :: "resources \<Rightarrow> (string \<rightharpoonup> string) \<Rightarrow> bool \<Rightarrow> (string \<times> int) list" where
  "public_ports res canonical meshPublic =
     concat (map (service_public (ingressHealthPortByName res)) (resolveIngressServices res canonical))
     @ concat (map (\<lambda>ra. [(ra_ingHost ra, 443), (ra_ingHost ra, 80)]) (resolveIngressApps res canonical))
     @ concat (map (\<lambda>rg. [(rg_ingHost rg, 443), (rg_ingHost rg, 80)]) (fronted_gateways res canonical [] [] []))
     @ map (\<lambda>g. (gh_gwHost g, gh_port g)) (resolveGatewayHealthServices res canonical)
     @ (if meshPublic then mesh_ports res canonical else [])"

definition private_ports :: "resources \<Rightarrow> (string \<rightharpoonup> string) \<Rightarrow> bool \<Rightarrow> (string \<times> int) list" where
  "private_ports res canonical meshPublic =
     concat (map service_private (resolveIngressServices res canonical))
     @ concat (map (\<lambda>rg. if rg_host rg \<noteq> rg_ingHost rg then [(rg_host rg, GatewayHTTPPort)] else [])
         (fronted_gateways res canonical [] [] []))
     @ concat (map (\<lambda>g. if gh_coLocated g then [] else [(gh_svcHost g, svc_health_port (gh_svc g))])
         (resolveGatewayHealthServices res canonical))
     @ concat (map (\<lambda>c. case canonical (cl_host c) of
           None \<Rightarrow> []
         | Some h \<Rightarrow> (case clusterPortsByHost res canonical h (cl_name c) of None \<Rightarrow> [] | Some p \<Rightarrow> [(h, p)])) (res_cluster res))
     @ (if meshPublic then [] else mesh_ports res canonical)"

definition exposed_ports :: "resources \<Rightarrow> (string \<rightharpoonup> string) \<Rightarrow> (string \<times> exposed_port) list" where
  "exposed_ports res canonical =
     concat (map (\<lambda>s. case canonical (svc_host s) of None \<Rightarrow> [] | Some h \<Rightarrow> map (Pair h) (svc_exposed s)) (res_service res))"

definition firewallPlanByHost :: "resources \<Rightarrow> bool \<Rightarrow> string \<Rightarrow> firewall_ports option" where
  "firewallPlanByHost res meshPublic h =
     (let canonical = CanonicalComputeKeys (res_compute res);
          pub = entries_at (public_ports res canonical meshPublic) h;
          priv = entries_at (private_ports res canonical meshPublic) h;
          expo = entries_at (exposed_ports res canonical) h in
      if pub = [] \<and> priv = [] \<and> expo = [] then None
      else Some \<lparr>fp_public = sortedInts pub, fp_private = sortedInts priv, fp_exposed = sortedExposedPorts expo,
             fp_cidr = (if priv \<noteq> [] \<or> expo \<noteq> [] then go_string (networkCIDRByCompute res) h else [])\<rparr>)"

subsection \<open>DNS\<close>

definition recordResourceName :: "string \<Rightarrow> string" where
  "recordResourceName rel = (if rel = ''@'' then ''apex'' else map (\<lambda>c. if c = CHR ''.'' then CHR ''-'' else c) rel)"

record derived_record =
  dr_name :: string
  dr_record :: string
  dr_container :: string
  dr_hostKey :: string
  dr_fqdn :: string

definition record_of :: "string \<Rightarrow> string \<times> string \<times> string \<Rightarrow> derived_record" where
  "record_of base =
     (\<lambda>(fqdn, container, hostKey).
        \<lparr>dr_name = recordResourceName (ZoneRelative fqdn base), dr_record = ZoneRelative fqdn base,
         dr_container = container, dr_hostKey = hostKey, dr_fqdn = fqdn\<rparr>)"

text \<open>The names in the order of their derivation, before the duplicates are dropped.\<close>

definition record_names :: "resources \<Rightarrow> scope_names \<Rightarrow> (string \<times> string \<times> string) list" where
  "record_names res sn =
     (let canonical = CanonicalComputeKeys (res_compute res); env = sn_env sn; slug = sn_slug sn; base = sn_base sn; eslug = sn_eslug sn in
      map (\<lambda>c. (HostFQDN env slug (cmp_name c) base, cmp_container c, SpecKey (cmp_name c) 1)) (res_compute res)
      @ concat (map (\<lambda>is.
          concat (map (\<lambda>rt. map (\<lambda>n. (n, svc_container (is_svc is), is_ingHost is))
             (ingressFQDNs (svc_name (is_svc is)) rt env slug base)) (svc_routes (is_svc is)))
          @ (if svc_health_port (is_svc is) > 0
             then [(ServiceFQDN env slug (svc_name (is_svc is)) base, svc_container (is_svc is), is_ingHost is)] else []))
         (resolveIngressServices res canonical))
      @ map (\<lambda>g. (ServiceFQDN env slug (svc_name (gh_svc g)) base, svc_container (gh_svc g), gh_gwHost g))
         (resolveGatewayHealthServices res canonical)
      @ map (\<lambda>ra. (AppFQDN (app_subdomain (ra_app ra)) slug base eslug, app_container (ra_app ra), ra_ingHost ra))
         (resolveIngressApps res canonical)
      @ map (\<lambda>rg. (rg_fqdn rg, gw_container (rg_gw rg), rg_ingHost rg)) (fronted_gateways res canonical slug base eslug)
      @ concat (map (\<lambda>ing. case canonical (ing_host ing) of None \<Rightarrow> []
          | Some hk \<Rightarrow> [(AppFQDN IngressDNSLabel slug base eslug, ing_container ing, hk)]) (res_ingress res)))"

fun dedup_records :: "(string \<times> string) list \<Rightarrow> derived_record list \<Rightarrow> derived_record list" where
  "dedup_records seen [] = []"
| "dedup_records seen (r # rs) =
     (if (dr_record r, dr_hostKey r) \<in> set seen then dedup_records seen rs
      else r # dedup_records ((dr_record r, dr_hostKey r) # seen) rs)"

definition derivedRecords :: "resources \<Rightarrow> scope_names \<Rightarrow> derived_record list" where
  "derivedRecords res sn = dedup_records [] (map (record_of (sn_base sn)) (record_names res sn))"

text \<open>
  The creation of the records: \<open>target\<close> has the public address of every compute; the result is the list
  of records given to the provider, with their target.
\<close>

fun create_records :: "string \<Rightarrow> (string \<rightharpoonup> string) \<Rightarrow> (string \<rightharpoonup> string) \<Rightarrow> derived_record list
    \<Rightarrow> edge_err + (derived_record \<times> string) list" where
  "create_records base target seen [] = Inr []"
| "create_records base target seen (r # rs) =
     (if \<not> InZone (dr_fqdn r) base then Inl (RecordOutOfZone (dr_fqdn r))
      else
        case seen (dr_record r) of
          Some prev \<Rightarrow> Inl (RecordTwice (dr_record r) prev (dr_name r))
        | None \<Rightarrow>
            (case target (dr_hostKey r) of
               None \<Rightarrow> Inl (RecordNoOutput (dr_record r) (dr_hostKey r))
             | Some ip \<Rightarrow>
                 (case create_records base target (seen(dr_record r \<mapsto> dr_name r)) rs of
                    Inl e \<Rightarrow> Inl e
                  | Inr cs \<Rightarrow> Inr ((r, ip) # cs))))"

definition createDNSRecords :: "bool \<Rightarrow> (string \<rightharpoonup> string) \<Rightarrow> resources \<Rightarrow> scope_names \<Rightarrow> edge_err + (derived_record \<times> string) list" where
  "createDNSRecords authority target res sn =
     (if \<not> authority then Inr [] else create_records (sn_base sn) target Map.empty (derivedRecords res sn))"

end
