(* ===== verification/NginxFacts.thy ===== *)
theory NginxFacts
  imports NginxConfig
begin

text \<open>
  Facts on the rendered north-south configuration: its sockets, the demultiplexing of mixed ports, and
  the routes of a gateway server.
\<close>

subsection \<open>Sockets\<close>

lemma Itoa_no_colon: "CHR '':'' \<notin> set (Itoa i)"
  using itoa_digits [of "CHR '':''"] by (auto simp: Itoa_def)

lemma Itoa_not_address [simp]: "Itoa i \<noteq> a @ CHR '':'' # b"
  using Itoa_no_colon [of i] by auto

lemma first_of_None: "first_of xs = None \<longleftrightarrow> (\<forall>x\<in>set xs. x = None)"
  by (induction xs) (auto split: option.splits)

lemma forward_err_None: "forward_err seen fs = None \<Longrightarrow>
    distinct (map ir_listen fs) \<and> ir_listen ` set fs \<inter> ir_listen ` set seen = {}"
proof (induction fs arbitrary: seen)
  case (Cons f fs)
  then have f: "find (\<lambda>g. ir_listen g = ir_listen f) seen = None" "forward_err (f # seen) fs = None"
    by (auto split: option.splits)
  then show ?case using Cons.IH [OF f(2)] by (auto simp: find_None_iff)
qed simp

lemma forwardByListen_iff: "forwardByListen fs p = None \<longleftrightarrow> p \<notin> ir_listen ` set fs"
  by (auto simp: forwardByListen_def find_None_iff)

lemma forwardByListen_Some: "forwardByListen fs p = Some f \<Longrightarrow> f \<in> set fs \<and> ir_listen f = p"
  unfolding forwardByListen_def by (drule find_eq_Some) simp

text \<open>The mixed ports of a plan.\<close>

lemma mixed_listens_set:
  "set (mixed_listens term fwd on443) = {p \<in> ir_listen ` set fwd. p \<in> ir_listen ` set term \<or> p = 443 \<and> on443}"
  by (auto simp: mixed_listens_def)

lemma distinct_mixed: "distinct (mixed_listens term fwd on443)"
  by (simp add: mixed_listens_def)

lemma loopback_None: "loopback_of mixed p = None \<longleftrightarrow> p \<notin> set mixed"
  by (simp add: loopback_of_def map_of_zip_is_None)

lemma loopback_Some:
  assumes "loopback_of mixed p = Some lp"
  shows "\<exists>i<length mixed. lp = LoopbackBase + int i \<and> mixed ! i = p"
proof -
  have "(p, lp) \<in> set (zip mixed (map (\<lambda>i. LoopbackBase + int i) [0..<length mixed]))"
    using assms unfolding loopback_of_def by (rule map_of_SomeD)
  then show ?thesis by (auto simp: in_set_zip)
qed

lemma loopback_inj: "loopback_of mixed p = Some lp \<Longrightarrow> loopback_of mixed q = Some lp \<Longrightarrow> p = q"
  by (drule loopback_Some)+ auto

lemma mixed_ports_listens:
  assumes "set mixed \<subseteq> ir_listen ` set fwd"
  shows "map mp_listen (mixed_ports term fwd apps gws mixed) = mixed"
proof -
  have one: "map mp_listen (case (loopback_of mixed p, forwardByListen fwd p) of
          (Some lp, Some f) \<Rightarrow> [\<lparr>mp_listen = p, mp_loopback = lp, mp_fqdns = mixed_fqdns term apps gws p, mp_forward = f\<rparr>]
        | _ \<Rightarrow> []) = [p]" if p: "p \<in> set mixed" for p
  proof -
    obtain lp where "loopback_of mixed p = Some lp" using p loopback_None [of mixed p] by auto
    moreover obtain f where "forwardByListen fwd p = Some f"
      using p assms forwardByListen_iff [of fwd p] by auto
    ultimately show ?thesis by simp
  qed
  then show ?thesis
    unfolding mixed_ports_def map_concat map_map comp_def
    by (subst map_cong [OF refl one]) simp_all
qed

text \<open>The sockets of the two contexts.\<close>

lemma listens_plain: "\<forall>d\<in>set ds. d_name d \<noteq> ''server'' \<Longrightarrow> listens ds = []"
  by (induction ds) auto

lemma listens_map: "(\<And>x. x \<in> set xs \<Longrightarrow> listens [f x] = [g x]) \<Longrightarrow> listens (map f xs) = map g xs"
  by (induction xs) (auto split: if_splits)

lemma named_listen_limits [simp]:
  "named ''listen'' (rlHTTPLimitDirs po) = []" "named ''listen'' (rlStreamLimitDirs po) = []" "named ''listen'' acme_dirs = []"
  by (auto simp: rlHTTPLimitDirs_def rlStreamLimitDirs_def acme_dirs_def split: option.splits)

lemma named_listen_locations [simp]:
  "named ''listen'' (map probe_location ps) = []" "named ''listen'' (map route_location rts) = []"
  "named ''listen'' (map (\<lambda>p. block ''location'' (a p) (b p)) xs) = []"
  by (simp_all add: named_def filter_empty_conv probe_location_def route_location_def)

definition listen_address :: "int list \<Rightarrow> int \<Rightarrow> string" where
  "listen_address mixed p = hd (d_args (listenDir mixed p))"

lemma listenDir_name [simp]: "d_name (listenDir mixed p) = ''listen''"
  by (auto simp: listenDir_def split: option.splits)

lemma listen_address_cases:
  "listen_address mixed p = (case loopback_of mixed p of Some lp \<Rightarrow> ''127.0.0.1:'' @ Itoa lp | None \<Rightarrow> Itoa p)"
  by (auto simp: listen_address_def listenDir_def split: option.splits)

lemma server_listens:
  "listens [terminateServer r (listenDir m p)] = [listen_address m p]"
  "listens [appServer a (listenDir m p)] = [listen_address m p]"
  "listens [gatewayTerminationServer g (listenDir m p)] = [listen_address m p]"
  "listens [gatewayRoutingServer g] = [ig_listen g @ '':'' @ Itoa (ig_port g)]"
  "listens [healthCatchAllServer hp] = [Itoa hp]"
  "listens [healthServer h hp] = [Itoa hp]"
  "listens [acmeServer] = [Itoa acmePort]"
  "listens [preread_server mp] = [Itoa (mp_listen mp)]"
  "listens [forward_server r] = [Itoa (ir_listen r)]"
  by (simp_all add: terminateServer_def appServer_def gatewayTerminationServer_def gatewayRoutingServer_def
      healthCatchAllServer_def healthServer_def acmeServer_def preread_server_def forward_server_def listen_address_def
      jsonNotFoundLocation_def)

lemma http_prelude_no_server: "listens (http_prelude np) = []"
  by (rule listens_plain)
    (auto simp: http_prelude_def httpRateLimitZones_def Let_def split: if_splits)

lemma listens_if: "listens (if c then xs else []) = (if c then listens xs else [])"
  by simp

lemma http_listens:
  "set (listens (children_of (httpBlock np))) =
     listen_address (plan_mixed np) ` ir_listen ` set (np_terminate np)
     \<union> (if np_apps np \<noteq> [] \<or> np_gateways np \<noteq> [] then {listen_address (plan_mixed np) 443} else {})
     \<union> (\<lambda>g. ig_listen g @ '':'' @ Itoa (ig_port g)) ` set (np_gateway_routes np)
     \<union> (if np_health np \<noteq> [] then {Itoa (np_health_port np)} else {})
     \<union> (if terminatesTLS np then {Itoa acmePort} else {})"
proof -
  have servers: "listens (http_servers np) =
      map (\<lambda>r. listen_address (plan_mixed np) (ir_listen r)) (np_terminate np)
      @ map (\<lambda>a. listen_address (plan_mixed np) 443) (np_apps np)
      @ map (\<lambda>g. listen_address (plan_mixed np) 443) (np_gateways np)
      @ map (\<lambda>g. ig_listen g @ '':'' @ Itoa (ig_port g)) (np_gateway_routes np)
      @ (if np_health np \<noteq> [] then [Itoa (np_health_port np)] else [])
      @ map (\<lambda>h. Itoa (np_health_port np)) (np_health np)
      @ (if terminatesTLS np then [Itoa acmePort] else [])"
    unfolding http_servers_def Let_def
    by (simp only: listens_simps(1,2) listens_if listens_map [OF server_listens(1)] listens_map [OF server_listens(2)]
        listens_map [OF server_listens(3)] listens_map [OF server_listens(4)] listens_map [OF server_listens(6)]
        server_listens(5,7))
  have c: "set (map (\<lambda>x. k) xs) = (if xs \<noteq> [] then {k} else {})" for k :: string and xs :: "'x list"
    by (cases xs) auto
  show ?thesis
    unfolding httpBlock_def children_of_simps listens_simps http_prelude_no_server servers set_append c append_Nil
    by (cases "np_apps np = []"; cases "np_gateways np = []"; cases "np_health np = []"; cases "terminatesTLS np")
      (auto simp: image_image simp del: append.simps)
qed

lemma stream_listens:
  "listens (children_of (streamBlock fwd mps)) = map (\<lambda>mp. Itoa (mp_listen mp)) mps @ map (\<lambda>r. Itoa (ir_listen r)) fwd"
proof -
  have z: "listens (concat (map (\<lambda>p. if rp_maxconn p > 0
            then [dir ''limit_conn_zone'' [''$binary_remote_addr'', ''zone='' @ rlStreamConnZone (rp_name p) @ '':'' @ rlZoneSize]]
            else []) ps)) = []" for ps
    by (rule listens_plain) (auto split: if_splits)
  have m: "listens (map preread_map mps) = []" by (rule listens_plain) (auto simp: preread_map_def)
  show ?thesis
    by (simp add: streamBlock_def z m listens_map [OF server_listens(8)] listens_map [OF server_listens(9)])
qed

subsection \<open>A map whose default comes last\<close>

lemma map_value_table_last:
  assumes "\<forall>x\<in>set xs. plain_key (key x)"
  shows "map_value (map (\<lambda>x. dir (key x) [val x]) xs @ [dir ''default'' [d]]) v =
     (case find (\<lambda>x. lower (key x) = lower v) xs of Some x \<Rightarrow> val x | None \<Rightarrow> d)"
proof -
  have "named ''default'' (map (\<lambda>x. dir (key x) [val x]) xs) = []"
    using assms by (induction xs) (auto simp: plain_key_def)
  then show ?thesis
    by (simp add: map_value_def find_append find_table [OF assms] find_table_cn [OF assms] entry_value_def split: option.splits)
qed

subsection \<open>The gateway server\<close>

definition gateway_headers :: "string \<Rightarrow> (string \<times> string) list" where
  "gateway_headers target =
     [(''Upgrade'', ''$http_upgrade''), (''Connection'', ''$connection_upgrade''), (''Host'', ''$host''),
      (''X-Forwarded-For'', ''$remote_addr''), (''X-Forwarded-Proto'', ''$http_x_forwarded_proto''),
      (''X-Mesh-Target'', target)]"

lemma run_route_location:
  "run_location vars (children_of (route_location rt)) =
     Proxied (''http://127.0.0.1:'' @ Itoa GatewayEgressPort) (gateway_headers (gwr_service rt))"
  by (simp add: run_location_def route_location_def gateway_headers_def)

definition route_matches :: "string \<Rightarrow> gateway_route \<Rightarrow> bool" where
  "route_matches path rt \<longleftrightarrow> (case Parse (gwr_pattern rt) of Inr p \<Rightarrow> Matches p path | Inl e \<Rightarrow> False)"

lemma gateway_rx:
  "pattern_err g rt = None \<Longrightarrow> path_rx (gatewayRegexOf (gwr_pattern rt)) path \<longleftrightarrow> route_matches path rt"
  by (auto simp: pattern_err_def gatewayRegexOf_def route_matches_def path_rx_Regex split: sum.splits)

lemma serve_gateway:
  assumes "gateway_route_err g = None" "prefix ''/'' path"
  shows "serve path_rx vars (gatewayRoutingServer g) path =
     (if path \<in> set (ig_probes g) then Answer [''200'', ''ok'']
      else case find (route_matches path) (sort_key (\<lambda>rt. (gwr_pattern rt, gwr_service rt)) (ig_routes g)) of
             Some rt \<Rightarrow> Proxied (''http://127.0.0.1:'' @ Itoa GatewayEgressPort) (gateway_headers (gwr_service rt))
           | None \<Rightarrow> Answer (d_args (last (children_of jsonNotFoundLocation))))"
proof -
  let ?rts = "sort_key (\<lambda>rt. (gwr_pattern rt, gwr_service rt)) (ig_routes g)"
  let ?plain = "[dir ''listen'' [ig_listen g @ '':'' @ Itoa (ig_port g)], dir ''server_name'' [ig_fqdn g],
         dir ''set_real_ip_from'' [ig_real_ip g], dir ''real_ip_header'' [''X-Forwarded-For''],
         dir ''real_ip_recursive'' [''on'']]"
  let ?exact = "map probe_location (sort (ig_probes g))" and ?regex = "map route_location ?rts"
  have ch: "children_of (gatewayRoutingServer g) = ?plain @ ?exact @ ?regex @ [jsonNotFoundLocation]"
    by (simp add: gatewayRoutingServer_def)
  have ok: "\<forall>rt\<in>set ?rts. pattern_err g rt = None"
    using assms(1) by (auto simp: gateway_route_err_def first_err_None split: if_splits)
  have pick: "pick_location path_rx (?plain @ ?exact @ ?regex @ [jsonNotFoundLocation]) path =
     (case find (\<lambda>d. d_args d = [''='', path]) ?exact of
        Some d \<Rightarrow> Some d
      | None \<Rightarrow> (case find (\<lambda>d. path_rx (d_args d ! 1) path) ?regex of Some d \<Rightarrow> Some d | None \<Rightarrow> Some jsonNotFoundLocation))"
    by (subst pick_plain) (use assms(2) in \<open>auto simp: probe_location_def route_location_def jsonNotFoundLocation_def\<close>)
  have e: "find (\<lambda>d. d_args d = [''='', path]) (map probe_location ps) = (if path \<in> set ps then Some (probe_location path) else None)" for ps
    by (induction ps) (auto simp: probe_location_def)
  have r: "find (\<lambda>d. path_rx (d_args d ! 1) path) (map route_location rts) = map_option route_location (find (route_matches path) rts)"
    if "\<forall>rt\<in>set rts. pattern_err g rt = None" for rts
    using that by (induction rts) (auto simp: gateway_rx, auto simp: route_location_def gateway_rx)
  have "run_location vars (children_of (probe_location path)) = Answer [''200'', ''ok'']"
    by (simp add: run_location_def probe_location_def)
  moreover have "run_location vars (children_of jsonNotFoundLocation) = Answer (d_args (last (children_of jsonNotFoundLocation)))"
    by (simp add: run_location_def jsonNotFoundLocation_def)
  ultimately show ?thesis
    unfolding serve_def ch pick e r [OF ok]
    by (auto simp: run_route_location split: option.splits)
qed

end
