(* ===== verification/NginxProps.thy ===== *)
theory NginxProps
  imports NginxFacts
begin

text \<open>
  What the rendered north-south configuration guarantees: which sockets its two contexts bind and when
  they overlap, and that a port shared by a passthrough and by TLS terminators is split by server name.
\<close>

subsection \<open>The contexts of a configuration\<close>

definition http_context :: "directive list \<Rightarrow> directive list" where
  "http_context tree = concat (map children_of (named ''http'' tree))"

definition stream_context :: "directive list \<Rightarrow> directive list" where
  "stream_context tree = concat (map children_of (named ''stream'' tree))"

definition plan_forward_only :: "nginx_plan \<Rightarrow> ingress_route list" where
  "plan_forward_only np = filter (\<lambda>f. ir_listen f \<notin> set (plan_mixed np)) (np_forward np)"

definition plan_mixed_ports :: "nginx_plan \<Rightarrow> mixed_port list" where
  "plan_mixed_ports np = mixed_ports (np_terminate np) (np_forward np) (np_apps np) (np_gateways np) (plan_mixed np)"

lemma top_contexts:
  "http_context (nginx_top np) = (if np_terminate np \<noteq> [] \<or> np_apps np \<noteq> [] \<or> np_health np \<noteq> [] \<or> np_gateways np \<noteq> []
     \<or> np_gateway_routes np \<noteq> [] then children_of (httpBlock np) else [])"
  "stream_context (nginx_top np) = (if plan_forward_only np \<noteq> [] \<or> plan_mixed_ports np \<noteq> []
     then children_of (streamBlock (plan_forward_only np) (plan_mixed_ports np)) else [])"
  by (simp_all add: http_context_def stream_context_def nginx_top_def httpBlock_def streamBlock_def
      plan_forward_only_def plan_mixed_ports_def Let_def del: children_of_simps)

lemma directives_ok:
  assumes "nginx_directives routes apps health hp gws grs = Inr tree"
  defines "np \<equiv> plan_of routes apps health hp gws grs"
  shows "tree = nginx_top np" "first_err route_err routes = None" "forward_err [] (np_forward np) = None"
    "acme_err (terminatesTLS np) (np_forward np) = None" "health_forward_err health hp (np_forward np) = None"
    "length (plan_mixed np) \<le> nat MaxMixedPorts" "first_err gateway_route_err grs = None"
  using assms
  by (auto simp: nginx_directives_def nginx_plan_err_def Let_def np_def split: option.splits if_splits)

lemma plan_of_sets [simp]:
  "set (np_terminate (plan_of routes apps health hp gws grs)) = {r \<in> set routes. ir_type r = IngressTypeTLSTermination}"
  "set (np_forward (plan_of routes apps health hp gws grs)) = {r \<in> set routes. ir_type r = IngressTypeForward}"
  "set (np_apps (plan_of routes apps health hp gws grs)) = set apps"
  "set (np_health (plan_of routes apps health hp gws grs)) = set health"
  "set (np_gateways (plan_of routes apps health hp gws grs)) = set gws"
  "set (np_gateway_routes (plan_of routes apps health hp gws grs)) = set grs"
  "np_health_port (plan_of routes apps health hp gws grs) = hp"
  by (auto simp: plan_of_def Let_def)

lemma plan_mixed_set:
  "set (plan_mixed np) = {p \<in> ir_listen ` set (np_forward np). p \<in> ir_listen ` set (np_terminate np)
      \<or> p = 443 \<and> (np_apps np \<noteq> [] \<or> np_gateways np \<noteq> [])}"
  by (simp add: plan_mixed_def mixed_listens_set)

lemma stream_socket_set:
  assumes "forward_err [] (np_forward np) = None"
  shows "distinct (listens (stream_context (nginx_top np)))"
    and "set (listens (stream_context (nginx_top np))) = Itoa ` ir_listen ` set (np_forward np)"
proof -
  have sub: "set (plan_mixed np) \<subseteq> ir_listen ` set (np_forward np)" by (auto simp: plan_mixed_set)
  have dm: "distinct (plan_mixed np)" by (simp add: plan_mixed_def distinct_mixed)
  have df: "distinct (map ir_listen (np_forward np))" using forward_err_None [OF assms] by simp
  have ports: "map mp_listen (plan_mixed_ports np) = plan_mixed np"
    unfolding plan_mixed_ports_def by (rule mixed_ports_listens [OF sub])
  have l: "listens (children_of (streamBlock (plan_forward_only np) (plan_mixed_ports np)))
      = map Itoa (plan_mixed np @ map ir_listen (plan_forward_only np))"
    unfolding stream_listens ports [symmetric] by (simp add: comp_def)
  have "distinct (plan_mixed np @ map ir_listen (plan_forward_only np))"
    using dm df by (auto simp: plan_forward_only_def distinct_map_filter)
  then have "distinct (map Itoa (plan_mixed np @ map ir_listen (plan_forward_only np)))"
    by (simp add: distinct_map inj_on_def Itoa_inj del: map_append)
  then show "distinct (listens (stream_context (nginx_top np)))"
    unfolding top_contexts by (simp add: l)
  have "set (plan_mixed np @ map ir_listen (plan_forward_only np)) = ir_listen ` set (np_forward np)"
    using sub by (auto simp: plan_forward_only_def)
  then have all: "set (listens (children_of (streamBlock (plan_forward_only np) (plan_mixed_ports np))))
      = Itoa ` ir_listen ` set (np_forward np)"
    unfolding l set_map by simp
  have "plan_mixed np = [] \<and> plan_forward_only np = [] \<longrightarrow> np_forward np = []"
    by (auto simp: plan_forward_only_def filter_empty_conv)
  moreover have "plan_mixed_ports np = [] \<longleftrightarrow> plan_mixed np = []" using ports by auto
  ultimately show "set (listens (stream_context (nginx_top np))) = Itoa ` ir_listen ` set (np_forward np)"
    using all unfolding top_contexts by (auto split: if_splits)
qed

lemma http_socket_other:
  assumes ok: "acme_err (terminatesTLS np) (np_forward np) = None"
      "np_health np \<noteq> [] \<longrightarrow> np_health_port np \<notin> ir_listen ` set (np_forward np)"
    and a: "a \<in> set (listens (http_context (nginx_top np)))" and p: "p \<in> ir_listen ` set (np_forward np)"
  shows "a \<noteq> Itoa p"
proof
  assume e: "a = Itoa p"
  have "Itoa p \<in> set (listens (children_of (httpBlock np)))"
    using a unfolding e top_contexts by (simp split: if_splits)
  then consider
      (tls) q where "Itoa p = listen_address (plan_mixed np) q" "q \<in> ir_listen ` set (np_terminate np) \<or> q = 443 \<and> (np_apps np \<noteq> [] \<or> np_gateways np \<noteq> [])"
    | (gw) g :: ingress_gateway where "Itoa p = ig_listen g @ '':'' @ Itoa (ig_port g)"
    | (health) "np_health np \<noteq> []" "Itoa p = Itoa (np_health_port np)"
    | (acme) "terminatesTLS np" "Itoa p = Itoa acmePort"
    using http_listens [of np] by (auto split: if_splits)
  then show False
  proof cases
    case tls
    show False
    proof (cases "loopback_of (plan_mixed np) q")
      case None
      then have "Itoa p = Itoa q" "q \<notin> set (plan_mixed np)"
        using tls(1) loopback_None [of "plan_mixed np" q] by (simp_all add: listen_address_cases)
      then show False using tls(2) p Itoa_inj [of p q] by (auto simp: plan_mixed_set)
    next
      case (Some lp)
      then have "Itoa p = ''127.0.0.1'' @ CHR '':'' # Itoa lp" using tls(1) by (simp add: listen_address_cases)
      then show False by (simp only: Itoa_not_address)
    qed
  next
    case gw
    then show False using Itoa_not_address [of p "ig_listen g" "Itoa (ig_port g)"] by simp
  next
    case health
    then show False using ok(2) p Itoa_inj [of p "np_health_port np"] by auto
  next
    case acme
    then have "forwardByListen (np_forward np) p = None"
      using ok(1) Itoa_inj [of p acmePort] by (simp add: acme_err_def)
    then show False using p by (simp add: forwardByListen_iff)
  qed
qed

subsection \<open>Properties\<close>

text \<open>
  A listen argument is a port, on all addresses, or an address and a port.  Two sockets of different
  contexts overlap when they have one port and no two different addresses: the second bind then fails.
\<close>

definition listen_port :: "string \<Rightarrow> string" where
  "listen_port a = rev (takeWhile (\<lambda>c. c \<noteq> CHR '':'') (rev a))"

definition listen_host :: "string \<Rightarrow> string" where
  "listen_host a = rev (drop 1 (dropWhile (\<lambda>c. c \<noteq> CHR '':'') (rev a)))"

definition sockets_overlap :: "string \<Rightarrow> string \<Rightarrow> bool" where
  "sockets_overlap a b \<longleftrightarrow> listen_port a = listen_port b
     \<and> (listen_host a = [] \<or> listen_host b = [] \<or> listen_host a = listen_host b)"

lemma distinct_singleton: "distinct xs \<Longrightarrow> set xs = {x} \<Longrightarrow> xs = [x]"
proof (cases xs)
  case (Cons y ys)
  assume "distinct xs" "set xs = {x}"
  then have "y = x" "set ys \<subseteq> {x}" "x \<notin> set ys" using Cons by auto
  then show ?thesis using Cons by (cases ys) auto
qed auto

text \<open>The ports on which a passthrough service and a TLS terminator of one host meet.\<close>

definition shared_ports :: "ingress_route list \<Rightarrow> ingress_app list \<Rightarrow> ingress_gateway list \<Rightarrow> int set" where
  "shared_ports routes apps gws =
     {p. (\<exists>f\<in>set routes. ir_type f = IngressTypeForward \<and> ir_listen f = p)
       \<and> ((\<exists>r\<in>set routes. ir_type r = IngressTypeTLSTermination \<and> ir_listen r = p) \<or> p = 443 \<and> (apps \<noteq> [] \<or> gws \<noteq> []))}"

lemma listen_split:
  "CHR '':'' \<notin> set q \<Longrightarrow> listen_port q = q \<and> listen_host q = []"
  "CHR '':'' \<notin> set q \<Longrightarrow> listen_port (a @ CHR '':'' # q) = q \<and> listen_host (a @ CHR '':'' # q) = a"
proof -
  assume q: "CHR '':'' \<notin> set q"
  then have "\<forall>c\<in>set (rev q). c \<noteq> CHR '':''" by auto
  then have t: "takeWhile (\<lambda>c. c \<noteq> CHR '':'') (rev q) = rev q" "dropWhile (\<lambda>c. c \<noteq> CHR '':'') (rev q) = []"
    "takeWhile (\<lambda>c. c \<noteq> CHR '':'') (rev q @ CHR '':'' # rev a) = rev q"
    "dropWhile (\<lambda>c. c \<noteq> CHR '':'') (rev q @ CHR '':'' # rev a) = CHR '':'' # rev a"
    by (simp_all add: takeWhile_append dropWhile_append)
  show "listen_port q = q \<and> listen_host q = []"
    unfolding listen_port_def listen_host_def t by simp
  show "listen_port (a @ CHR '':'' # q) = q \<and> listen_host (a @ CHR '':'' # q) = a"
    unfolding listen_port_def listen_host_def rev_append rev.simps append_assoc append_Cons append_Nil t by simp
qed

lemma plan_mixed_shared: "set (plan_mixed (plan_of routes apps health hp gws grs)) = shared_ports routes apps gws"
  unfolding plan_mixed_set shared_ports_def by (auto simp: image_iff simp flip: set_empty)

text \<open>The sockets of the http context that have an address, with their ports.\<close>

lemma addressed_sockets:
  fixes p :: int and routes apps health hp gws grs
  defines "np \<equiv> plan_of routes apps health hp gws grs"
  assumes "a \<noteq> Itoa p" "listen_port a = Itoa p" "a \<in> set (listens (http_context (nginx_top np)))"
  shows "(\<exists>g\<in>set grs. ig_port g = p) \<or> (\<exists>i<length (plan_mixed np). p = LoopbackBase + int i)"
proof -
  have "a \<in> set (listens (children_of (httpBlock np)))"
    using assms(4) unfolding top_contexts by (simp split: if_splits)
  then have "(\<exists>q. a = listen_address (plan_mixed np) q)
      \<or> (\<exists>g\<in>set (np_gateway_routes np). a = ig_listen g @ '':'' @ Itoa (ig_port g)) \<or> (\<exists>q. a = Itoa q)"
    unfolding http_listens by (auto simp del: Itoa_not_address split: if_splits)
  then consider (tls) q where "a = listen_address (plan_mixed np) q"
    | (gw) g where "g \<in> set grs" "a = ig_listen g @ '':'' @ Itoa (ig_port g)" | (port) q where "a = Itoa q"
    unfolding np_def plan_of_sets by blast
  then show ?thesis
  proof cases
    case tls
    show ?thesis
    proof (cases "loopback_of (plan_mixed np) q")
      case None
      then have "a = Itoa q" using tls by (simp add: listen_address_cases)
      then show ?thesis using assms(2,3) listen_split(1) [OF Itoa_no_colon] by simp
    next
      case (Some lp)
      then have "a = ''127.0.0.1'' @ CHR '':'' # Itoa lp" using tls by (simp add: listen_address_cases)
      then have "listen_port a = Itoa lp" by (simp only: listen_split(2) [OF Itoa_no_colon])
      then have "lp = p" using assms(3) Itoa_inj by metis
      then show ?thesis using loopback_Some [OF Some] by blast
    qed
  next
    case gw
    then have "a = ig_listen g @ CHR '':'' # Itoa (ig_port g)" by simp
    then have "listen_port a = Itoa (ig_port g)" by (simp only: listen_split(2) [OF Itoa_no_colon])
    then have "ig_port g = p" using assms(3) Itoa_inj by metis
    then show ?thesis using gw(1) by blast
  next
    case port
    then show ?thesis using assms(2,3) listen_split(1) [OF Itoa_no_colon] by simp
  qed
qed

lemma addressed_bound:
  fixes p :: int and routes apps health hp gws grs
  defines "np \<equiv> plan_of routes apps health hp gws grs"
  assumes "(\<exists>g\<in>set grs. ig_port g = p) \<or> (\<exists>i<length (plan_mixed np). p = LoopbackBase + int i)"
  shows "\<exists>a\<in>set (listens (http_context (nginx_top np))). listen_port a = Itoa p"
  using assms(2)
proof (elim disjE bexE exE conjE)
  fix g assume g: "g \<in> set grs" "ig_port g = p"
  then have "grs \<noteq> []" by auto
  then have "np_gateway_routes np \<noteq> []" unfolding np_def by (simp flip: set_empty)
  moreover have "ig_listen g @ '':'' @ Itoa (ig_port g) \<in> set (listens (children_of (httpBlock np)))"
    using g(1) unfolding http_listens np_def by auto
  moreover have "listen_port (ig_listen g @ '':'' @ Itoa (ig_port g)) = Itoa p"
    using g(2) listen_split(2) [OF Itoa_no_colon, of "ig_listen g" p] by simp
  ultimately show ?thesis unfolding top_contexts by (auto split: if_splits)
next
  fix i assume i: "i < length (plan_mixed np)" "p = LoopbackBase + int i"
  let ?q = "plan_mixed np ! i"
  have d: "distinct (plan_mixed np)" by (simp add: plan_mixed_def distinct_mixed)
  have q: "?q \<in> set (plan_mixed np)" using i(1) by simp
  then obtain lp where lp: "loopback_of (plan_mixed np) ?q = Some lp" using loopback_None [of "plan_mixed np" ?q] by auto
  obtain j where "j < length (plan_mixed np)" "lp = LoopbackBase + int j" "plan_mixed np ! j = ?q"
    using loopback_Some [OF lp] by blast
  then have "lp = p" using d i nth_eq_iff_index_eq [OF d] by simp
  then have a: "listen_address (plan_mixed np) ?q = ''127.0.0.1'' @ CHR '':'' # Itoa p"
    using lp by (simp add: listen_address_cases)
  have t: "?q \<in> ir_listen ` set (np_terminate np) \<or> ?q = 443 \<and> (np_apps np \<noteq> [] \<or> np_gateways np \<noteq> [])"
    using q unfolding plan_mixed_set by auto
  then have "listen_address (plan_mixed np) ?q \<in> set (listens (children_of (httpBlock np)))"
    unfolding http_listens by (elim disjE) auto
  moreover have "np_terminate np \<noteq> [] \<or> np_apps np \<noteq> [] \<or> np_gateways np \<noteq> []" using t by auto
  ultimately have "listen_address (plan_mixed np) ?q \<in> set (listens (http_context (nginx_top np)))"
    unfolding top_contexts by auto
  then show ?thesis using a listen_split(2) [OF Itoa_no_colon, of "''127.0.0.1''" p] by metis
qed

text \<open>C16: The stream context of a configuration the renderer accepts binds exactly the passthrough ports,
  each once and on all addresses, and the http context has no socket for such a port on all addresses, the
  port-80 and health servers included.  A socket of one context overlaps one of the other, so that the
  second bind fails, exactly when a passthrough port is the port of a gateway's routing server on the host
  or one of the loopback ports of its TLS terminators, one for each port shared with a passthrough.\<close>
theorem render_sockets:
  assumes "nginx_directives routes apps health hp gws grs = Inr tree"
  defines "fwd \<equiv> ir_listen ` {f \<in> set routes. ir_type f = IngressTypeForward}"
  shows "distinct (listens (stream_context tree)) \<and> set (listens (stream_context tree)) = Itoa ` fwd
    \<and> Itoa ` fwd \<inter> set (listens (http_context tree)) = {}
    \<and> ((\<exists>a\<in>set (listens (stream_context tree)). \<exists>b\<in>set (listens (http_context tree)). sockets_overlap a b)
        \<longleftrightarrow> fwd \<inter> (ig_port ` set grs \<union> {LoopbackBase + int i | i. i < card (shared_ports routes apps gws)}) \<noteq> {})"
proof -
  let ?np = "plan_of routes apps health hp gws grs"
  note ok = directives_ok [OF assms(1)]
  note s = stream_socket_set [OF ok(3)]
  have f: "ir_listen ` set (np_forward ?np) = fwd" by (simp add: fwd_def)
  have h: "np_health ?np \<noteq> [] \<longrightarrow> np_health_port ?np \<notin> ir_listen ` set (np_forward ?np)"
  proof
    assume "np_health ?np \<noteq> []"
    then have "health \<noteq> []" by (simp flip: set_empty)
    then show "np_health_port ?np \<notin> ir_listen ` set (np_forward ?np)"
      using ok(5) by (simp add: health_forward_err_def forwardByListen_iff del: plan_of_sets(2))
  qed
  have st: "set (listens (stream_context tree)) = Itoa ` fwd" using s(2) f ok(1) by simp
  have other: "a \<noteq> Itoa p" if "a \<in> set (listens (http_context tree))" "p \<in> fwd" for a p
    using http_socket_other [OF ok(4) h] that unfolding ok(1) f [symmetric] by blast
  have card: "length (plan_mixed ?np) = card (shared_ports routes apps gws)"
    unfolding plan_mixed_shared [of routes apps health hp gws grs, symmetric]
    by (simp add: distinct_card plan_mixed_def distinct_mixed)
  have ov: "sockets_overlap (Itoa p) b \<longleftrightarrow> listen_port b = Itoa p" for p b
    using listen_split(1) [OF Itoa_no_colon, of p] by (auto simp: sockets_overlap_def)
  have "(\<exists>b\<in>set (listens (http_context tree)). listen_port b = Itoa p) \<longleftrightarrow>
      p \<in> ig_port ` set grs \<union> {LoopbackBase + int i | i. i < card (shared_ports routes apps gws)}" if "p \<in> fwd" for p
  proof -
    have in_iff: "p \<in> ig_port ` set grs \<union> {LoopbackBase + int i | i. i < card (shared_ports routes apps gws)} \<longleftrightarrow>
        (\<exists>g\<in>set grs. ig_port g = p) \<or> (\<exists>i<length (plan_mixed ?np). p = LoopbackBase + int i)"
      unfolding card by (auto simp: image_iff)
    show ?thesis
      unfolding in_iff unfolding ok(1)
      using addressed_sockets [of _ p routes apps health hp gws grs] addressed_bound [of grs p routes apps health hp gws]
        other [OF _ that] unfolding ok(1) by blast
  qed
  then have "(\<exists>a\<in>Itoa ` fwd. \<exists>b\<in>set (listens (http_context tree)). sockets_overlap a b)
      \<longleftrightarrow> fwd \<inter> (ig_port ` set grs \<union> {LoopbackBase + int i | i. i < card (shared_ports routes apps gws)}) \<noteq> {}"
    unfolding bex_simps(7) ov by blast
  moreover have "Itoa ` fwd \<inter> set (listens (http_context tree)) = {}" using other by blast
  moreover have "distinct (listens (stream_context tree))" using s(1) ok(1) by simp
  ultimately show ?thesis unfolding st by blast
qed

subsection \<open>The ports of a configuration\<close>

definition bound_port :: "directive list \<Rightarrow> int \<Rightarrow> bool" where
  "bound_port tree p \<longleftrightarrow> Itoa p \<in> set (listens (http_context tree)) \<or> Itoa p \<in> set (listens (stream_context tree))"

lemma Itoa_eq [simp]: "Itoa p = Itoa q \<longleftrightarrow> p = q"
  using Itoa_inj by blast

lemma listen_address_port: "Itoa p = listen_address mixed q \<longleftrightarrow> p = q \<and> q \<notin> set mixed"
proof (cases "loopback_of mixed q")
  case None
  then show ?thesis using loopback_None [of mixed q] by (simp add: listen_address_cases)
next
  case (Some lp)
  have "Itoa p \<noteq> ''127.0.0.1:'' @ Itoa lp"
    using Itoa_not_address [of p "''127.0.0.1''" "Itoa lp"] by simp
  then show ?thesis using Some loopback_None [of mixed q] by (simp add: listen_address_cases)
qed

lemma http_bound:
  "Itoa p \<in> set (listens (http_context (nginx_top np))) \<longleftrightarrow>
     p \<in> ir_listen ` set (np_terminate np) \<and> p \<notin> set (plan_mixed np)
     \<or> (np_apps np \<noteq> [] \<or> np_gateways np \<noteq> []) \<and> p = 443 \<and> p \<notin> set (plan_mixed np)
     \<or> np_health np \<noteq> [] \<and> p = np_health_port np \<or> terminatesTLS np \<and> p = acmePort"
proof -
  have all: "set (listens (http_context (nginx_top np))) = set (listens (children_of (httpBlock np)))"
  proof (cases "np_terminate np = [] \<and> np_apps np = [] \<and> np_health np = [] \<and> np_gateways np = [] \<and> np_gateway_routes np = []")
    case True
    then have "set (listens (children_of (httpBlock np))) = {}"
      unfolding http_listens by (simp add: terminatesTLS_def)
    then show ?thesis using True unfolding top_contexts by simp
  next
    case False
    then show ?thesis unfolding top_contexts by (simp only: if_True de_Morgan_conj)
  qed
  have gw: "Itoa p \<notin> (\<lambda>g. ig_listen g @ '':'' @ Itoa (ig_port g)) ` set (np_gateway_routes np)" by auto
  have t: "Itoa p \<in> listen_address (plan_mixed np) ` ir_listen ` set (np_terminate np) \<longleftrightarrow>
      p \<in> ir_listen ` set (np_terminate np) \<and> p \<notin> set (plan_mixed np)"
    by (auto simp: listen_address_port)
  show ?thesis unfolding all http_listens Un_iff t using gw by (auto simp: listen_address_port)
qed

lemma sort_key_nil: "sort_key f xs = [] \<longleftrightarrow> xs = []"
  by (metis set_empty set_sort)

text \<open>Both contexts together.\<close>

lemma bound_ports:
  assumes "nginx_directives routes apps health hp gws grs = Inr tree"
  shows "bound_port tree p \<longleftrightarrow> p \<in> ir_listen ` set routes \<or> (apps \<noteq> [] \<or> gws \<noteq> []) \<and> p = 443
     \<or> health \<noteq> [] \<and> p = hp
     \<or> ((\<exists>r\<in>set routes. ir_type r = IngressTypeTLSTermination) \<or> apps \<noteq> [] \<or> gws \<noteq> []) \<and> p = acmePort"
proof -
  let ?np = "plan_of routes apps health hp gws grs"
  note ok = directives_ok [OF assms]
  have e: "np_apps ?np = [] \<longleftrightarrow> apps = []" "np_gateways ?np = [] \<longleftrightarrow> gws = []" "np_health ?np = [] \<longleftrightarrow> health = []"
    "np_terminate ?np = [] \<longleftrightarrow> \<not> (\<exists>r\<in>set routes. ir_type r = IngressTypeTLSTermination)"
    by (simp_all add: plan_of_def Let_def sort_key_nil filter_empty_conv)
  have ty: "\<forall>r\<in>set routes. ir_type r = IngressTypeTLSTermination \<or> ir_type r = IngressTypeForward"
    using ok(2) by (auto simp: first_err_None route_err_def split: if_splits)
  have r: "p \<in> ir_listen ` set routes \<longleftrightarrow> p \<in> ir_listen ` set (np_terminate ?np) \<or> p \<in> ir_listen ` set (np_forward ?np)"
    using ty by auto
  have mx: "p \<in> set (plan_mixed ?np) \<Longrightarrow> p \<in> ir_listen ` set (np_forward ?np)"
    by (simp add: plan_mixed_set)
  have st: "Itoa p \<in> set (listens (stream_context (nginx_top ?np))) \<longleftrightarrow> p \<in> ir_listen ` set (np_forward ?np)"
    unfolding stream_socket_set(2) [OF ok(3)] by auto
  show ?thesis
    unfolding bound_port_def ok(1) http_bound st r terminatesTLS_def e plan_of_sets(7) using mx by blast
qed

text \<open>The names a port terminates.\<close>

definition terminated_on :: "ingress_route list \<Rightarrow> ingress_app list \<Rightarrow> ingress_gateway list \<Rightarrow> int \<Rightarrow> string set" where
  "terminated_on routes apps gws p =
     (\<Union>r\<in>{r \<in> set routes. ir_type r = IngressTypeTLSTermination \<and> ir_listen r = p}. set (ir_fqdns r))
     \<union> (if p = 443 then ia_fqdn ` set apps \<union> ig_fqdn ` set gws else {})"

lemma mixed_fqdns_set:
  "set (mixed_fqdns (np_terminate (plan_of routes apps health hp gws grs)) (np_apps (plan_of routes apps health hp gws grs))
     (np_gateways (plan_of routes apps health hp gws grs)) p) = terminated_on routes apps gws p"
  by (auto simp: mixed_fqdns_def terminated_on_def)

lemma plan_mixed_port:
  assumes "forward_err [] (np_forward np) = None" "f \<in> set (np_forward np)" "ir_listen f \<in> set (plan_mixed np)"
  shows "\<exists>lp. loopback_of (plan_mixed np) (ir_listen f) = Some lp
    \<and> \<lparr>mp_listen = ir_listen f, mp_loopback = lp,
        mp_fqdns = mixed_fqdns (np_terminate np) (np_apps np) (np_gateways np) (ir_listen f), mp_forward = f\<rparr>
      \<in> set (plan_mixed_ports np)"
proof -
  obtain lp where lp: "loopback_of (plan_mixed np) (ir_listen f) = Some lp"
    using assms(3) loopback_None [of "plan_mixed np" "ir_listen f"] by auto
  obtain g where g: "forwardByListen (np_forward np) (ir_listen f) = Some g"
    using assms(2) forwardByListen_iff [of "np_forward np" "ir_listen f"] by auto
  then have "g \<in> set (np_forward np)" "ir_listen g = ir_listen f" using forwardByListen_Some by blast+
  then have "g = f" using forward_err_None [OF assms(1)] assms(2) by (auto simp: distinct_map inj_on_def)
  then show ?thesis using lp g assms(3) by (auto simp: plan_mixed_ports_def mixed_ports_def intro!: bexI [of _ "ir_listen f"])
qed

lemma preread_map_value:
  assumes "\<forall>n\<in>set (mp_fqdns mp). plain_key n"
  shows "map_value (children_of (preread_map mp)) sni =
    (if lower sni \<in> lower ` set (mp_fqdns mp) then ''127.0.0.1:'' @ Itoa (mp_loopback mp)
     else ir_backend (mp_forward mp) @ '':'' @ Itoa (ir_target (mp_forward mp)))"
proof -
  have "find (\<lambda>x. lower x = lower sni) (mp_fqdns mp) = None \<longleftrightarrow> lower sni \<notin> lower ` set (mp_fqdns mp)"
    by (auto simp: find_None_iff image_iff)
  then show ?thesis
    unfolding preread_map_def children_of_simps
    using map_value_table_last [OF assms, where val = "\<lambda>n. ''127.0.0.1:'' @ Itoa (mp_loopback mp)", of
        "ir_backend (mp_forward mp) @ '':'' @ Itoa (ir_target (mp_forward mp))" sni]
    by (auto split: option.splits)
qed

text \<open>The server that terminates a name of a port.\<close>

lemma terminator_exists:
  fixes health :: "ingress_health list" and hp :: int and grs :: "ingress_gateway list"
  assumes "n \<in> terminated_on routes apps gws p"
  defines "np \<equiv> plan_of routes apps health hp gws grs"
  shows "\<exists>srv\<in>set (http_context (nginx_top np)). d_name srv = ''server''
    \<and> listenDir (plan_mixed np) p \<in> set (children_of srv)
    \<and> (\<exists>names. dir ''server_name'' names \<in> set (children_of srv) \<and> n \<in> set names)"
proof -
  define G where "G srv \<longleftrightarrow> d_name srv = ''server'' \<and> listenDir (plan_mixed np) p \<in> set (children_of srv)
    \<and> (\<exists>names. dir ''server_name'' names \<in> set (children_of srv) \<and> n \<in> set names)" for srv
  have ctx: "set (http_servers np) \<subseteq> set (http_context (nginx_top np))" if "terminatesTLS np"
    using that unfolding top_contexts by (auto simp: terminatesTLS_def httpBlock_def)
  consider (route) r where "r \<in> set (np_terminate np)" "ir_listen r = p" "n \<in> set (ir_fqdns r)"
    | (app) a where "a \<in> set (np_apps np)" "p = 443" "n = ia_fqdn a"
    | (gw) g where "g \<in> set (np_gateways np)" "p = 443" "n = ig_fqdn g"
    using assms(1) by (auto simp: terminated_on_def np_def split: if_splits)
  then have "\<exists>srv\<in>set (http_servers np). G srv \<and> terminatesTLS np"
  proof cases
    case route
    then have "terminateServer r (listenDir (plan_mixed np) p) \<in> set (http_servers np)" by (auto simp: http_servers_def Let_def)
    moreover have "G (terminateServer r (listenDir (plan_mixed np) p))"
      using route(3) unfolding G_def terminateServer_def by auto
    moreover have "terminatesTLS np" using route(1) by (auto simp: terminatesTLS_def)
    ultimately show ?thesis by blast
  next
    case app
    then have "appServer a (listenDir (plan_mixed np) p) \<in> set (http_servers np)" by (auto simp: http_servers_def Let_def)
    moreover have "G (appServer a (listenDir (plan_mixed np) p))"
      using app(3) unfolding G_def appServer_def by auto
    moreover have "terminatesTLS np" using app(1) by (auto simp: terminatesTLS_def)
    ultimately show ?thesis by blast
  next
    case gw
    then have "gatewayTerminationServer g (listenDir (plan_mixed np) p) \<in> set (http_servers np)" by (auto simp: http_servers_def Let_def)
    moreover have "G (gatewayTerminationServer g (listenDir (plan_mixed np) p))"
      using gw(3) unfolding G_def gatewayTerminationServer_def by auto
    moreover have "terminatesTLS np" using gw(1) by (auto simp: terminatesTLS_def)
    ultimately show ?thesis by blast
  qed
  then show ?thesis using ctx unfolding G_def by blast
qed

text \<open>C15: On a port that a passthrough service shares with TLS terminators, the stream context sends a
  connection whose server name is terminated on that port, whatever its case, to one loopback port, where
  for each such name an http server with that name listens, and every other connection to the backend of
  the passthrough service.\<close>
theorem sni_demux:
  assumes "nginx_directives routes apps health hp gws grs = Inr tree"
    and "f \<in> set routes" "ir_type f = IngressTypeForward"
    and "terminated_on routes apps gws (ir_listen f) \<noteq> {}"
    and "\<forall>n\<in>terminated_on routes apps gws (ir_listen f). plain_key n"
  shows "\<exists>lp m. m \<in> set (stream_context tree) \<and> d_name m = ''map''
    \<and> d_args m = [''$ssl_preread_server_name'', ''$ingress_upstream_'' @ Itoa (ir_listen f)]
    \<and> (\<forall>sni. map_value (children_of m) sni =
         (if lower sni \<in> lower ` terminated_on routes apps gws (ir_listen f) then ''127.0.0.1:'' @ Itoa lp
          else ir_backend f @ '':'' @ Itoa (ir_target f)))
    \<and> (\<exists>srv\<in>set (stream_context tree). d_name srv = ''server'' \<and> dir ''listen'' [Itoa (ir_listen f)] \<in> set (children_of srv)
         \<and> dir ''ssl_preread'' [''on''] \<in> set (children_of srv)
         \<and> dir ''proxy_pass'' [''$ingress_upstream_'' @ Itoa (ir_listen f)] \<in> set (children_of srv))
    \<and> (\<forall>n\<in>terminated_on routes apps gws (ir_listen f). \<exists>srv\<in>set (http_context tree). d_name srv = ''server''
         \<and> dir ''listen'' [''127.0.0.1:'' @ Itoa lp, ''ssl'', ''proxy_protocol''] \<in> set (children_of srv)
         \<and> (\<exists>names. dir ''server_name'' names \<in> set (children_of srv) \<and> n \<in> set names))"
proof -
  let ?np = "plan_of routes apps health hp gws grs"
  note ok = directives_ok [OF assms(1)]
  have f: "f \<in> set (np_forward ?np)" using assms(2,3) by simp
  have m: "ir_listen f \<in> set (plan_mixed ?np)"
  proof -
    have "(\<exists>r\<in>set (np_terminate ?np). ir_listen r = ir_listen f)
        \<or> ir_listen f = 443 \<and> (np_apps ?np \<noteq> [] \<or> np_gateways ?np \<noteq> [])"
      using assms(4) by (auto simp: terminated_on_def simp flip: set_empty split: if_splits)
    then show ?thesis using f unfolding plan_mixed_set by (auto simp: image_iff)
  qed
  obtain lp where lp: "loopback_of (plan_mixed ?np) (ir_listen f) = Some lp"
    and mp: "\<lparr>mp_listen = ir_listen f, mp_loopback = lp,
        mp_fqdns = mixed_fqdns (np_terminate ?np) (np_apps ?np) (np_gateways ?np) (ir_listen f), mp_forward = f\<rparr>
      \<in> set (plan_mixed_ports ?np)" (is "?mp \<in> _")
    using plan_mixed_port [OF ok(3) f m] by blast
  have fq: "set (mp_fqdns ?mp) = terminated_on routes apps gws (ir_listen f)" by (simp add: mixed_fqdns_set)
  have sub: "preread_map ?mp \<in> set (stream_context tree)" "preread_server ?mp \<in> set (stream_context tree)"
    using mp unfolding ok(1) top_contexts by (auto simp: streamBlock_def)
  have val: "map_value (children_of (preread_map ?mp)) sni =
      (if lower sni \<in> lower ` terminated_on routes apps gws (ir_listen f) then ''127.0.0.1:'' @ Itoa lp
       else ir_backend f @ '':'' @ Itoa (ir_target f))" for sni
    using preread_map_value [of ?mp sni] assms(5) unfolding fq by simp
  have ld: "listenDir (plan_mixed ?np) (ir_listen f) = dir ''listen'' [''127.0.0.1:'' @ Itoa lp, ''ssl'', ''proxy_protocol'']"
    by (simp add: listenDir_def lp)
  have tls: "\<forall>n\<in>terminated_on routes apps gws (ir_listen f). \<exists>srv\<in>set (http_context tree). d_name srv = ''server''
         \<and> dir ''listen'' [''127.0.0.1:'' @ Itoa lp, ''ssl'', ''proxy_protocol''] \<in> set (children_of srv)
         \<and> (\<exists>names. dir ''server_name'' names \<in> set (children_of srv) \<and> n \<in> set names)"
    using terminator_exists [of _ routes apps gws "ir_listen f" health hp grs] unfolding ok(1) ld by blast
  have parts: "d_name (preread_map ?mp) = ''map''"
    "d_args (preread_map ?mp) = [''$ssl_preread_server_name'', ''$ingress_upstream_'' @ Itoa (ir_listen f)]"
    by (simp_all add: preread_map_def)
  have srv: "d_name (preread_server ?mp) = ''server''" "dir ''listen'' [Itoa (ir_listen f)] \<in> set (children_of (preread_server ?mp))"
    "dir ''ssl_preread'' [''on''] \<in> set (children_of (preread_server ?mp))"
    "dir ''proxy_pass'' [''$ingress_upstream_'' @ Itoa (ir_listen f)] \<in> set (children_of (preread_server ?mp))"
    by (simp_all add: preread_server_def)
  show ?thesis
    by (intro exI [of _ lp] exI [of _ "preread_map ?mp"] conjI allI sub parts val tls bexI [OF _ sub(2)] srv)
qed

subsection \<open>Witnesses\<close>

definition demo_routes :: "ingress_route list" where
  "demo_routes =
     [\<lparr>ir_service = ''db'', ir_type = IngressTypeForward, ir_fqdns = [], ir_listen = 443, ir_target = 9443,
       ir_backend = ''10.0.0.3'', ir_limit = None\<rparr>,
      \<lparr>ir_service = ''api'', ir_type = IngressTypeTLSTermination, ir_fqdns = [''api.example.io''], ir_listen = 443,
       ir_target = 8080, ir_backend = ''127.0.0.1'', ir_limit = None\<rparr>]"

lemma demo_plan:
  "plan_of demo_routes [] [] 81 [] [] =
     \<lparr>np_terminate = [demo_routes ! 1], np_forward = [demo_routes ! 0], np_apps = [], np_health = [], np_health_port = 81,
       np_gateways = [], np_gateway_routes = []\<rparr>"
  by (simp add: plan_of_def demo_routes_def IngressTypeForward_def IngressTypeTLSTermination_def)

lemma plan_accepted:
  assumes "first_err route_err routes = None" "first_err app_err apps = None" "first_err health_err health = None"
    "health_port_err health hp = None" "first_err gateway_err gws = None" "first_err gateway_route_err grs = None"
    "forward_err [] (np_forward (plan_of routes apps health hp gws grs)) = None"
    "acme_err (terminatesTLS (plan_of routes apps health hp gws grs)) (np_forward (plan_of routes apps health hp gws grs)) = None"
    "health_forward_err health hp (np_forward (plan_of routes apps health hp gws grs)) = None"
    "length (plan_mixed (plan_of routes apps health hp gws grs)) \<le> nat MaxMixedPorts"
  shows "nginx_plan_err routes apps health hp gws grs = None"
  using assms by (simp add: nginx_plan_err_def Let_def)

lemma demo_plan_ok: "nginx_plan_err demo_routes [] [] 81 [] [] = None"
proof (rule plan_accepted)
  show "first_err route_err demo_routes = None"
    by (simp add: demo_routes_def route_err_def)
  show "acme_err (terminatesTLS (plan_of demo_routes [] [] 81 [] [])) (np_forward (plan_of demo_routes [] [] 81 [] [])) = None"
    unfolding demo_plan by (simp add: acme_err_def forwardByListen_def demo_routes_def acmePort_def)
  show "length (plan_mixed (plan_of demo_routes [] [] 81 [] [])) \<le> nat MaxMixedPorts"
    unfolding demo_plan by (simp add: plan_mixed_def mixed_listens_def demo_routes_def MaxMixedPorts_def)
  show "forward_err [] (np_forward (plan_of demo_routes [] [] 81 [] [])) = None"
    unfolding demo_plan by simp
qed (simp_all add: health_port_err_def health_forward_err_def)

lemma demo_directives: "nginx_directives demo_routes [] [] 81 [] [] = Inr (nginx_top (plan_of demo_routes [] [] 81 [] []))"
  by (simp add: nginx_directives_def demo_plan_ok)

theorem render_sockets_witness:
  "listens (stream_context (nginx_top (plan_of demo_routes [] [] 81 [] []))) = [Itoa 443]
   \<and> \<not> (\<exists>b\<in>set (listens (http_context (nginx_top (plan_of demo_routes [] [] 81 [] [])))). sockets_overlap (Itoa 443) b)"
proof -
  have f: "ir_listen ` {f \<in> set demo_routes. ir_type f = IngressTypeForward} = {443}"
  proof -
    have "{f \<in> set demo_routes. ir_type f = IngressTypeForward} = {demo_routes ! 0}"
      by (auto simp: demo_routes_def IngressTypeForward_def IngressTypeTLSTermination_def)
    then show ?thesis by (simp add: demo_routes_def)
  qed
  note t = render_sockets [OF demo_directives, unfolded f]
  have "distinct (listens (stream_context (nginx_top (plan_of demo_routes [] [] 81 [] []))))"
    "set (listens (stream_context (nginx_top (plan_of demo_routes [] [] 81 [] [])))) = {Itoa 443}"
    using t by auto
  then have l: "listens (stream_context (nginx_top (plan_of demo_routes [] [] 81 [] []))) = [Itoa 443]"
    by (rule distinct_singleton)
  have "(443 :: int) \<noteq> LoopbackBase + int i" for i by (simp add: LoopbackBase_def)
  then show ?thesis using t unfolding l by auto
qed

theorem sni_demux_witness:
  "\<exists>lp m. m \<in> set (stream_context (nginx_top (plan_of demo_routes [] [] 81 [] [])))
     \<and> map_value (children_of m) ''API.example.io'' = ''127.0.0.1:'' @ Itoa lp
     \<and> map_value (children_of m) ''db.example.io'' = ''10.0.0.3:9443''"
proof -
  let ?f = "demo_routes ! 0"
  have names: "terminated_on demo_routes [] [] (ir_listen ?f) = {''api.example.io''}"
    using mixed_fqdns_set [of demo_routes "[]" "[]" 81 "[]" "[]" "ir_listen ?f"] unfolding demo_plan
    by (simp add: mixed_fqdns_def) (simp add: demo_routes_def)
  have f: "?f \<in> set demo_routes" "ir_type ?f = IngressTypeForward" by (simp_all add: demo_routes_def)
  have ne: "terminated_on demo_routes [] [] (ir_listen ?f) \<noteq> {}"
    "\<forall>n\<in>terminated_on demo_routes [] [] (ir_listen ?f). plain_key n"
    unfolding names by (simp_all add: plain_key_def)
  have low: "lower ''API.example.io'' \<in> lower ` {''api.example.io''}" "lower ''db.example.io'' \<notin> lower ` {''api.example.io''}"
    by code_simp+
  have fwd: "ir_backend ?f @ '':'' @ Itoa (ir_target ?f) = ''10.0.0.3:9443''"
    by (simp add: demo_routes_def Itoa_def itoa.simps digit_def) code_simp
  obtain lp m where m: "m \<in> set (stream_context (nginx_top (plan_of demo_routes [] [] 81 [] [])))"
    and v: "\<forall>sni. map_value (children_of m) sni =
      (if lower sni \<in> lower ` {''api.example.io''} then ''127.0.0.1:'' @ Itoa lp else ''10.0.0.3:9443'')"
    using sni_demux [OF demo_directives f ne] unfolding names fwd by (elim exE conjE) (rule that)
  have "map_value (children_of m) ''API.example.io'' = ''127.0.0.1:'' @ Itoa lp"
    "map_value (children_of m) ''db.example.io'' = ''10.0.0.3:9443''"
    using v low by simp_all
  then show ?thesis using m by blast
qed

end
