(* ===== verification/EdgeFacts.thy ===== *)
theory EdgeFacts
  imports EdgeRealize NginxProps
begin

text \<open>
  Facts on the derivations of one scope: what stands in the plan of a host, what the provider's
  substitution keeps, and the ports each derivation names.
\<close>

subsection \<open>Maps and lists\<close>

lemma entries_at_iff [simp]: "v \<in> set (entries_at kvs k) \<longleftrightarrow> (k, v) \<in> set kvs"
  by (force simp: entries_at_def)

lemma entries_at_append: "entries_at (xs @ ys) k = entries_at xs k @ entries_at ys k"
  by (simp add: entries_at_def)

lemma last_map_SomeD: "last_map kvs k = Some v \<Longrightarrow> (k, v) \<in> set kvs"
  by (auto simp: last_map_def dest: map_of_SomeD)

lemma last_map_unique:
  assumes "(k, v) \<in> set kvs" "\<And>w. (k, w) \<in> set kvs \<Longrightarrow> w = v"
  shows "last_map kvs k = Some v"
proof -
  have "last_map kvs k \<noteq> None"
    using assms(1) by (auto simp: last_map_def map_of_eq_None_iff intro: rev_image_eqI)
  then show ?thesis using assms(2) last_map_SomeD [of kvs k] by auto
qed

lemma go_string_nonempty: "go_string m k \<noteq> [] \<Longrightarrow> m k = Some (go_string m k)"
  by (simp add: go_string_def split: option.splits)

lemma fill_all_list: "fill_all f xs = Inr ys \<Longrightarrow> list_all2 (\<lambda>x y. f x = Inr y) xs ys"
  by (induction xs arbitrary: ys) (auto split: sum.splits)

lemma fill_all_map:
  assumes "fill_all f xs = Inr ys" "\<And>x y. f x = Inr y \<Longrightarrow> g y = g x"
  shows "map g ys = map g xs"
proof -
  have "list_all2 (\<lambda>x y. g y = g x) xs ys"
    using fill_all_list [OF assms(1)] by (rule list_all2_mono) (rule assms(2))
  then show ?thesis by (induction rule: list_all2_induct) simp_all
qed

lemma fill_ok: "fill e c r = Inr x \<Longrightarrow> x = (if c \<noteq> [] then c else r) \<and> x \<noteq> []"
  by (auto simp: fill_def split: if_splits)

subsection \<open>The plan\<close>

lemma edge_plan_parts:
  assumes "edge_plan_of res sn sec = Inr pl"
  defines "c \<equiv> CanonicalComputeKeys (res_compute res)"
  shows "eg_routes pl h = map (stamp_route (ResolvedRateLimit sec) res)
       (sort_key (\<lambda>r. (ir_listen r, ir_service r)) (entries_at (route_entries res c (sn_env sn) (sn_slug sn) (sn_base sn)) h))"
    and "eg_apps pl h = map (stamp_app (ResolvedRateLimit sec) res) (ingressAppsByHost res c (sn_slug sn) (sn_base sn) (sn_eslug sn) h)"
    and "eg_terms pl h = map (stamp_gateway (ResolvedRateLimit sec) res) (terminations res c (sn_slug sn) (sn_base sn) (sn_eslug sn) h)"
    and "eg_routings pl h = routings res c (sn_slug sn) (sn_base sn) (sn_eslug sn) h"
    and "eg_health pl h = sort_key ih_fqdn (ingressHealthByHost (resolveIngressServices res c) (sn_env sn) (sn_slug sn) (sn_base sn) h
          @ gatewayHealthByHost (resolveGatewayHealthServices res c) (sn_env sn) (sn_slug sn) (sn_base sn) h)"
    and "join_health_ports (ingressHealthPortByHost res c) (resolveGatewayHealthServices res c) = Inr (eg_health_port pl)"
    and "eg_cross pl h = last_map (entries_at (edge_cross res c) h)"
    and "eg_peers pl h = last_map (entries_at (gateway_peers res c (sn_slug sn) (sn_base sn) (sn_eslug sn)) h)"
    and "checkAppSNICollisions (eg_routes pl) (eg_apps pl) (eg_terms pl) (edge_hosts res c) = None"
  using assms
  by (auto simp: edge_plan_of_def ingressRoutesByHost_def Let_def split: sum.splits option.splits)

lemma stamp_keeps [simp]:
  "ir_listen (stamp_route rl res r) = ir_listen r" "ir_type (stamp_route rl res r) = ir_type r"
  "ir_fqdns (stamp_route rl res r) = ir_fqdns r" "ir_backend (stamp_route rl res r) = ir_backend r"
  "ir_service (stamp_route rl res r) = ir_service r" "ir_target (stamp_route rl res r) = ir_target r"
  "ia_fqdn (stamp_app rl res a) = ia_fqdn a"
  "ig_fqdn (stamp_gateway rl res g) = ig_fqdn g" "ig_backend (stamp_gateway rl res g) = ig_backend g"
  "ig_name (stamp_gateway rl res g) = ig_name g" "ig_port (stamp_gateway rl res g) = ig_port g"
  by (simp_all add: stamp_route_def stamp_app_def stamp_gateway_def)

lemma route_entry_fields [simp]:
  "ir_listen (route_entry is env slug base rt) = rt_listen rt" "ir_type (route_entry is env slug base rt) = rt_type rt"
  "ir_service (route_entry is env slug base rt) = svc_name (is_svc is)"
  "ir_target (route_entry is env slug base rt) = rt_target rt"
  "ir_backend (route_entry is env slug base rt) = (if is_coLocated is then ''127.0.0.1'' else [])"
  by (simp_all add: route_entry_def)

text \<open>The rows of each derivation, by their source.\<close>

lemma fronted_fqdn:
  "fronted_gateways res c slug base eslug =
     map (\<lambda>rg. rg\<lparr>rg_fqdn := AppFQDN (gw_subdomain (rg_gw rg)) slug base eslug\<rparr>) (fronted_gateways res c [] [] [])"
proof -
  have e: "(\<lambda>gw. case c (gw_host gw) of None \<Rightarrow> []
        | Some hk \<Rightarrow> [\<lparr>rg_gw = gw, rg_host = hk, rg_ingHost = go_string (ingressHostsByName res c) (gw_ingress gw),
            rg_fqdn = AppFQDN (gw_subdomain gw) slug base eslug\<rparr>]) =
      (\<lambda>gw. map (\<lambda>rg. rg\<lparr>rg_fqdn := AppFQDN (gw_subdomain (rg_gw rg)) slug base eslug\<rparr>) (case c (gw_host gw) of None \<Rightarrow> []
        | Some hk \<Rightarrow> [\<lparr>rg_gw = gw, rg_host = hk, rg_ingHost = go_string (ingressHostsByName res c) (gw_ingress gw),
            rg_fqdn = AppFQDN (gw_subdomain gw) [] [] []\<rparr>]))"
    by (auto split: option.splits)
  have "resolveGateways res c slug base eslug =
      map (\<lambda>rg. rg\<lparr>rg_fqdn := AppFQDN (gw_subdomain (rg_gw rg)) slug base eslug\<rparr>) (resolveGateways res c [] [] [])"
    unfolding resolveGateways_def e map_concat map_map comp_def ..
  then show ?thesis by (simp add: fronted_gateways_def filter_map comp_def)
qed

lemma fronted_row:
  "rg \<in> set (fronted_gateways res c slug base eslug) \<longleftrightarrow>
     rg_gw rg \<in> set (res_gateway res) \<and> c (gw_host (rg_gw rg)) = Some (rg_host rg)
     \<and> ingressHostsByName res c (gw_ingress (rg_gw rg)) = Some (rg_ingHost rg) \<and> rg_ingHost rg \<noteq> []
     \<and> rg_fqdn rg = AppFQDN (gw_subdomain (rg_gw rg)) slug base eslug"
  (is "?l \<longleftrightarrow> ?r")
proof
  show "?l \<Longrightarrow> ?r"
    by (auto simp: fronted_gateways_def resolveGateways_def go_string_def split: option.splits)
next
  assume r: ?r
  then have "rg = \<lparr>rg_gw = rg_gw rg, rg_host = rg_host rg,
      rg_ingHost = go_string (ingressHostsByName res c) (gw_ingress (rg_gw rg)), rg_fqdn = AppFQDN (gw_subdomain (rg_gw rg)) slug base eslug\<rparr>"
    by (cases rg) (simp add: go_string_def)
  then show ?l using r unfolding fronted_gateways_def resolveGateways_def
    by (auto intro!: bexI [of _ "rg_gw rg"])
qed

lemma is_row:
  "is \<in> set (resolveIngressServices res c) \<Longrightarrow>
     is_svc is \<in> set (res_service res) \<and> svc_ingress (is_svc is) \<noteq> []
     \<and> ingressHostsByName res c (svc_ingress (is_svc is)) = Some (is_ingHost is)
     \<and> c (svc_host (is_svc is)) = Some (is_svcHost is) \<and> (is_coLocated is \<longleftrightarrow> is_svcHost is = is_ingHost is)"
  by (auto simp: resolveIngressServices_def ingress_service_of_def split: if_splits option.splits)

definition health_from :: "(string \<rightharpoonup> service_spec) \<Rightarrow> (string \<rightharpoonup> string) \<Rightarrow> gateway_health_service \<Rightarrow> resolved_gateway \<times> string \<Rightarrow> bool" where
  "health_from byName c g x \<longleftrightarrow> byName (snd x) = Some (gh_svc g) \<and> svc_health_port (gh_svc g) \<noteq> 0
     \<and> svc_ingress (gh_svc g) = [] \<and> c (svc_host (gh_svc g)) = Some (gh_svcHost g) \<and> gh_gwHost g = rg_ingHost (fst x)
     \<and> (gh_coLocated g \<longleftrightarrow> gh_svcHost g = gh_gwHost g) \<and> gh_port g = gateway_health_port (rg_gw (fst x))"

lemma health_row: "g \<in> set (gateway_health_of byName c seen xs) \<Longrightarrow> \<exists>x\<in>set xs. health_from byName c g x"
proof (induction xs arbitrary: seen)
  case (Cons x xs)
  obtain rg name where x: "x = (rg, name)" by (cases x)
  have "(\<exists>seen'. g \<in> set (gateway_health_of byName c seen' xs)) \<or> health_from byName c g x"
    using Cons.prems x by (auto simp: health_from_def split: option.splits if_splits)
  then show ?case using Cons.IH by auto
qed simp

lemma gh_row:
  assumes "g \<in> set (resolveGatewayHealthServices res c)"
  shows "gh_svc g \<in> set (res_service res) \<and> svc_health_port (gh_svc g) \<noteq> 0 \<and> svc_ingress (gh_svc g) = []
     \<and> c (svc_host (gh_svc g)) = Some (gh_svcHost g) \<and> (gh_coLocated g \<longleftrightarrow> gh_svcHost g = gh_gwHost g)"
  using health_row [OF assms [unfolded resolveGatewayHealthServices_def]]
  by (auto simp: health_from_def servicesByName_def dest!: last_map_SomeD)

text \<open>Ports that join.\<close>

lemma join_ports:
  "join_health_ports m gs = Inr m' \<Longrightarrow>
     (\<forall>g\<in>set gs. m' (gh_gwHost g) = Some (gh_port g)) \<and> (\<forall>h v. m h = Some v \<longrightarrow> m' h = Some v)"
proof (induction gs arbitrary: m)
  case (Cons g gs)
  have j: "join_health_ports (m(gh_gwHost g \<mapsto> gh_port g)) gs = Inr m'" "m (gh_gwHost g) = None \<or> m (gh_gwHost g) = Some (gh_port g)"
    using Cons.prems by (auto split: option.splits if_splits)
  note ih = Cons.IH [OF j(1)]
  have "m' (gh_gwHost g) = Some (gh_port g)" using ih by (simp add: fun_upd_def)
  moreover have "m' h = Some v" if "m h = Some v" for h v
    using ih j(2) that by (cases "h = gh_gwHost g") (auto simp: fun_upd_def)
  ultimately show ?case using ih by simp
qed simp

end
