(* ===== verification/EdgeProps.thy ===== *)
theory EdgeProps
  imports EdgeFacts
begin

text \<open>
  The derivations of a scope agree: the firewall opens exactly the public ports nginx binds, privately
  every port a proxy reaches, and the names with a certificate resolve to the host that holds it.
\<close>

subsection \<open>What each host binds\<close>

lemma realize_parts:
  assumes "realize_host res pl outs h = Inr tree"
  obtains hi where "realize_inputs res pl outs h = Inr hi"
    "nginx_directives (hi_routes hi) (eg_apps pl h) (hi_health hi) (host_health_port pl h) (hi_terms hi) (hi_routings hi) = Inr tree"
  using assms by (auto simp: realize_host_def split: sum.splits)

lemma inputs_fill:
  assumes "realize_inputs res pl outs h = Inr hi"
  obtains hostIP where "outs h = Some hostIP"
    "fill_inputs pl h (outs \<circ>\<^sub>m eg_cross pl h) (outs \<circ>\<^sub>m eg_peers pl h) hostIP = Inr hi"
    "missing_output (NoBackendOutput h) outs (eg_cross pl h) (map svc_name (res_service res)) = None"
    "missing_output (NoPeerOutput h) outs (eg_peers pl h) (map gw_name (res_gateway res)) = None"
  using assms by (auto simp: realize_inputs_def split: option.splits)

lemma fill_route_keeps:
  "fill_route ips r = Inr r' \<Longrightarrow> ir_listen r' = ir_listen r \<and> ir_type r' = ir_type r \<and> ir_fqdns r' = ir_fqdns r"
  by (auto simp: fill_route_def split: sum.splits)

lemma fill_termination_keeps: "fill_termination ips g = Inr g' \<Longrightarrow> ig_fqdn g' = ig_fqdn g"
  by (auto simp: fill_termination_def split: sum.splits)

lemma inputs_keep:
  assumes "realize_inputs res pl outs h = Inr hi"
  shows "map (\<lambda>r. (ir_listen r, ir_type r, ir_fqdns r)) (hi_routes hi) = map (\<lambda>r. (ir_listen r, ir_type r, ir_fqdns r)) (eg_routes pl h)"
    and "map ig_fqdn (hi_terms hi) = map ig_fqdn (eg_terms pl h)"
    and "length (hi_health hi) = length (eg_health pl h)"
proof -
  obtain hostIP where f: "fill_inputs pl h (outs \<circ>\<^sub>m eg_cross pl h) (outs \<circ>\<^sub>m eg_peers pl h) hostIP = Inr hi"
    by (rule inputs_fill [OF assms])
  show "map (\<lambda>r. (ir_listen r, ir_type r, ir_fqdns r)) (hi_routes hi) = map (\<lambda>r. (ir_listen r, ir_type r, ir_fqdns r)) (eg_routes pl h)"
    using f fill_all_map [of "fill_route (outs \<circ>\<^sub>m eg_cross pl h)" "eg_routes pl h" _ "\<lambda>r. (ir_listen r, ir_type r, ir_fqdns r)"]
    by (auto simp: fill_inputs_def fill_route_keeps split: if_splits sum.splits)
  show "map ig_fqdn (hi_terms hi) = map ig_fqdn (eg_terms pl h)"
    using f fill_all_map [of "fill_termination (outs \<circ>\<^sub>m eg_peers pl h)" "eg_terms pl h" _ ig_fqdn]
    by (auto simp: fill_inputs_def fill_termination_keeps split: if_splits sum.splits)
  show "length (hi_health hi) = length (eg_health pl h)"
    using f by (auto simp: fill_inputs_def split: if_splits sum.splits dest!: fill_all_list list_all2_lengthD)
qed

lemma map_eq_bex:
  assumes "map f xs = map f ys"
  shows "(\<exists>x\<in>set xs. Q (f x)) \<longleftrightarrow> (\<exists>y\<in>set ys. Q (f y))"
proof -
  have "f ` set xs = f ` set ys" using assms by (metis image_set)
  then have "(\<exists>z\<in>f ` set xs. Q z) \<longleftrightarrow> (\<exists>z\<in>f ` set ys. Q z)" by (simp only:)
  then show ?thesis by simp
qed

text \<open>The rows of the plan of a host.\<close>

lemma plan_routes:
  assumes "edge_plan_of res sn sec = Inr pl"
  shows "(\<exists>r\<in>set (eg_routes pl h). P (ir_listen r) (ir_type r)) \<longleftrightarrow>
    (\<exists>is\<in>set (resolveIngressServices res (CanonicalComputeKeys (res_compute res))). is_ingHost is = h
       \<and> (\<exists>rt\<in>set (svc_routes (is_svc is)). P (rt_listen rt) (rt_type rt)))"
proof -
  have row: "(h, r) \<in> set (route_entries res c env slug base) \<longleftrightarrow> (\<exists>is\<in>set (resolveIngressServices res c). is_ingHost is = h
      \<and> (\<exists>rt\<in>set (svc_routes (is_svc is)). r = route_entry is env slug base rt))" for c env slug base r
    by (auto simp: route_entries_def)
  have "(\<exists>r\<in>set (eg_routes pl h). P (ir_listen r) (ir_type r)) \<longleftrightarrow>
      (\<exists>r. (h, r) \<in> set (route_entries res (CanonicalComputeKeys (res_compute res)) (sn_env sn) (sn_slug sn) (sn_base sn))
         \<and> P (ir_listen r) (ir_type r))"
    unfolding edge_plan_parts(1) [OF assms] set_map set_sort bex_simps(7) stamp_keeps
    by (auto simp: Bex_def)
  then show ?thesis unfolding row by (metis route_entry_fields(1,2))
qed

lemma plan_apps:
  assumes "edge_plan_of res sn sec = Inr pl"
  shows "eg_apps pl h \<noteq> [] \<longleftrightarrow> (\<exists>ra\<in>set (resolveIngressApps res (CanonicalComputeKeys (res_compute res))). ra_ingHost ra = h)"
  unfolding edge_plan_parts(2) [OF assms]
  by (auto simp: ingressAppsByHost_def sort_key_nil entries_at_def app_entries_def filter_empty_conv)

lemma plan_terms:
  assumes "edge_plan_of res sn sec = Inr pl"
  shows "eg_terms pl h \<noteq> [] \<longleftrightarrow> (\<exists>rg\<in>set (fronted_gateways res (CanonicalComputeKeys (res_compute res)) [] [] []). rg_ingHost rg = h)"
  unfolding edge_plan_parts(3) [OF assms] terminations_def fronted_fqdn [of res _ "sn_slug sn" "sn_base sn" "sn_eslug sn"]
  by (auto simp: sort_key_nil entries_at_def filter_empty_conv)

lemma plan_health:
  assumes "edge_plan_of res sn sec = Inr pl"
  defines "c \<equiv> CanonicalComputeKeys (res_compute res)"
  shows "eg_health pl h \<noteq> [] \<longleftrightarrow>
     (\<exists>is\<in>set (resolveIngressServices res c). is_ingHost is = h \<and> svc_health_port (is_svc is) \<noteq> 0)
     \<or> (\<exists>g\<in>set (resolveGatewayHealthServices res c). gh_gwHost g = h)"
  unfolding edge_plan_parts(5) [OF assms(1)] c_def
  by (auto simp: sort_key_nil ingressHealthByHost_def gatewayHealthByHost_def entries_at_def ingress_health_entries_def
      filter_empty_conv)

text \<open>The health port of a host.\<close>

lemma plan_health_port:
  assumes "edge_plan_of res sn sec = Inr pl" "length (res_ingress res) \<le> 1"
  defines "c \<equiv> CanonicalComputeKeys (res_compute res)"
  shows "is \<in> set (resolveIngressServices res c) \<Longrightarrow> is_ingHost is = h \<Longrightarrow>
      ingressHealthPortByName res (svc_ingress (is_svc is)) = Some (host_health_port pl h)"
    and "g \<in> set (resolveGatewayHealthServices res c) \<Longrightarrow> gh_gwHost g = h \<Longrightarrow> gh_port g = host_health_port pl h"
proof -
  note j = join_ports [OF edge_plan_parts(6) [OF assms(1)], folded c_def]
  show "gh_port g = host_health_port pl h" if g: "g \<in> set (resolveGatewayHealthServices res c)" "gh_gwHost g = h"
  proof -
    have "gh_port g \<noteq> 0"
      using health_row [OF g(1) [unfolded resolveGatewayHealthServices_def]] by (auto simp: health_from_def)
    moreover have "eg_health_port pl h = Some (gh_port g)" using j g by blast
    ultimately show ?thesis by (simp add: host_health_port_def)
  qed
  show "ingressHealthPortByName res (svc_ingress (is_svc is)) = Some (host_health_port pl h)"
    if i: "is \<in> set (resolveIngressServices res c)" "is_ingHost is = h"
  proof -
    have n: "ingressHostsByName res c (svc_ingress (is_svc is)) = Some h" using is_row [OF i(1)] i(2) by simp
    obtain ing where ing: "res_ingress res = [ing]"
      using assms(2) n by (cases "res_ingress res") (auto simp: ingressHostsByName_def last_map_def)
    have e: "ing_name ing = svc_ingress (is_svc is)" "c (ing_host ing) = Some h"
      using n by (auto simp: ingressHostsByName_def ing last_map_def split: option.splits if_splits)
    have "ingressHealthPortByHost res c h = Some (ingress_health_port ing)"
      by (simp add: ingressHealthPortByHost_def ing e last_map_def)
    then have "eg_health_port pl h = Some (ingress_health_port ing)" using j by blast
    then show ?thesis by (simp add: host_health_port_def ingressHealthPortByName_def ing e(1) last_map_def)
  qed
qed

subsection \<open>The firewall\<close>

definition mesh_host :: "resources \<Rightarrow> string \<Rightarrow> bool" where
  "mesh_host res h \<longleftrightarrow>
     (\<exists>s\<in>set (res_service res). svc_pki s \<noteq> [] \<and> CanonicalComputeKeys (res_compute res) (svc_host s) = Some h)"

definition open_ports :: "(firewall_ports \<Rightarrow> int list) \<Rightarrow> resources \<Rightarrow> bool \<Rightarrow> string \<Rightarrow> int set" where
  "open_ports sel res meshPublic h =
     (case firewallPlanByHost res meshPublic h of None \<Rightarrow> {} | Some fw \<Rightarrow> set (sel fw))"

lemma open_public: "open_ports fp_public res mp h = {p. (h, p) \<in> set (public_ports res (CanonicalComputeKeys (res_compute res)) mp)}"
  by (auto simp: open_ports_def firewallPlanByHost_def Let_def sortedInts_def simp flip: entries_at_iff)

lemma open_private: "open_ports fp_private res mp h = {p. (h, p) \<in> set (private_ports res (CanonicalComputeKeys (res_compute res)) mp)}"
  by (auto simp: open_ports_def firewallPlanByHost_def Let_def sortedInts_def simp flip: entries_at_iff)

lemma mesh_ports_iff: "(h, p) \<in> set (mesh_ports res (CanonicalComputeKeys (res_compute res))) \<longleftrightarrow> mesh_host res h \<and> p = MTLSPort"
proof -
  have one: "(h, p) \<in> set (if svc_pki s = [] then [] else case c (svc_host s) of None \<Rightarrow> [] | Some h \<Rightarrow> [(h, MTLSPort)]) \<longleftrightarrow>
      svc_pki s \<noteq> [] \<and> c (svc_host s) = Some h \<and> p = MTLSPort" for c :: "string \<rightharpoonup> string" and s :: service_spec
    by (auto split: option.splits)
  show ?thesis
    unfolding mesh_ports_def mesh_host_def set_concat set_map UN_iff bex_simps(7) one by blast
qed

lemma public_ports_iff:
  fixes res :: resources
  defines "c \<equiv> CanonicalComputeKeys (res_compute res)"
  shows "(h, p) \<in> set (public_ports res c mp) \<longleftrightarrow>
    (\<exists>is\<in>set (resolveIngressServices res c). is_ingHost is = h \<and> (\<exists>rt\<in>set (svc_routes (is_svc is)). rt_listen rt = p))
    \<or> (\<exists>is\<in>set (resolveIngressServices res c). is_ingHost is = h \<and> (\<exists>rt\<in>set (svc_routes (is_svc is)). rt_type rt = IngressTypeTLSTermination)) \<and> p = 80
    \<or> (\<exists>is\<in>set (resolveIngressServices res c). is_ingHost is = h \<and> svc_health_port (is_svc is) > 0
         \<and> p = (case ingressHealthPortByName res (svc_ingress (is_svc is)) of None \<Rightarrow> 0 | Some p \<Rightarrow> p))
    \<or> ((\<exists>ra\<in>set (resolveIngressApps res c). ra_ingHost ra = h) \<or> (\<exists>rg\<in>set (fronted_gateways res c [] [] []). rg_ingHost rg = h))
        \<and> (p = 443 \<or> p = 80)
    \<or> (\<exists>g\<in>set (resolveGatewayHealthServices res c). gh_gwHost g = h \<and> gh_port g = p)
    \<or> mp \<and> mesh_host res h \<and> p = MTLSPort"
proof -
  have s: "(h, p) \<in> set (service_public pn is) \<longleftrightarrow> is_ingHost is = h \<and>
      ((\<exists>rt\<in>set (svc_routes (is_svc is)). rt_listen rt = p) \<or> (\<exists>rt\<in>set (svc_routes (is_svc is)). rt_type rt = IngressTypeTLSTermination) \<and> p = 80
       \<or> svc_health_port (is_svc is) > 0 \<and> p = (case pn (svc_ingress (is_svc is)) of None \<Rightarrow> 0 | Some p \<Rightarrow> p))" for pn "is"
    by (auto simp: service_public_def split: if_splits)
  have m: "(h, p) \<in> set (if mp then mesh_ports res c else []) \<longleftrightarrow> mp \<and> mesh_host res h \<and> p = MTLSPort"
    using mesh_ports_iff unfolding c_def by simp
  have p: "(h, p) \<in> set (public_ports res c mp) \<longleftrightarrow>
      (\<exists>is\<in>set (resolveIngressServices res c). (h, p) \<in> set (service_public (ingressHealthPortByName res) is))
      \<or> (\<exists>ra\<in>set (resolveIngressApps res c). ra_ingHost ra = h \<and> (p = 443 \<or> p = 80))
      \<or> (\<exists>rg\<in>set (fronted_gateways res c [] [] []). rg_ingHost rg = h \<and> (p = 443 \<or> p = 80))
      \<or> (\<exists>g\<in>set (resolveGatewayHealthServices res c). gh_gwHost g = h \<and> gh_port g = p)
      \<or> (h, p) \<in> set (if mp then mesh_ports res c else [])"
    unfolding public_ports_def set_append set_concat Un_iff by auto
  show ?thesis unfolding p s m by blast
qed

text \<open>C12: The public ports the firewall opens on a host are exactly the ports its rendered nginx binds, and
  the mesh port where the scope's mesh is public: no socket is bound behind a closed port and no port is
  opened that nothing serves.\<close>
theorem edge_firewall_exact:
  assumes "edge_plan_of res sn sec = Inr pl" "realize_host res pl outs h = Inr tree"
    and "length (res_ingress res) \<le> 1" "\<forall>s\<in>set (res_service res). 0 \<le> svc_health_port s"
  shows "p \<in> open_ports fp_public res meshPublic h \<longleftrightarrow>
    bound_port tree p \<or> meshPublic \<and> mesh_host res h \<and> p = MTLSPort"
proof -
  let ?c = "CanonicalComputeKeys (res_compute res)"
  obtain hi where hi: "realize_inputs res pl outs h = Inr hi"
    and nd: "nginx_directives (hi_routes hi) (eg_apps pl h) (hi_health hi) (host_health_port pl h) (hi_terms hi) (hi_routings hi) = Inr tree"
    by (rule realize_parts [OF assms(2)])
  note k = inputs_keep [OF hi]
  have rts: "(\<exists>r\<in>set (hi_routes hi). P (ir_listen r) (ir_type r)) \<longleftrightarrow> (\<exists>r\<in>set (eg_routes pl h). P (ir_listen r) (ir_type r))" for P
    using map_eq_bex [OF k(1), of "\<lambda>(l, t, n). P l t"] by simp
  have terms: "hi_terms hi \<noteq> [] \<longleftrightarrow> eg_terms pl h \<noteq> []" and health: "hi_health hi \<noteq> [] \<longleftrightarrow> eg_health pl h \<noteq> []"
    using k(2,3) by auto
  have bound: "bound_port tree p \<longleftrightarrow> (\<exists>r\<in>set (eg_routes pl h). ir_listen r = p) \<or> (eg_apps pl h \<noteq> [] \<or> eg_terms pl h \<noteq> []) \<and> p = 443
     \<or> eg_health pl h \<noteq> [] \<and> p = host_health_port pl h
     \<or> ((\<exists>r\<in>set (eg_routes pl h). ir_type r = IngressTypeTLSTermination) \<or> eg_apps pl h \<noteq> [] \<or> eg_terms pl h \<noteq> []) \<and> p = 80"
    using bound_ports [OF nd] rts [of "\<lambda>l t. l = p"] rts [of "\<lambda>l t. t = IngressTypeTLSTermination"] terms health
    by (auto simp: acmePort_def image_iff)
  have hp: "eg_health pl h \<noteq> [] \<and> p = host_health_port pl h \<longleftrightarrow>
      (\<exists>is\<in>set (resolveIngressServices res ?c). is_ingHost is = h \<and> svc_health_port (is_svc is) > 0
         \<and> p = (case ingressHealthPortByName res (svc_ingress (is_svc is)) of None \<Rightarrow> 0 | Some p \<Rightarrow> p))
      \<or> (\<exists>g\<in>set (resolveGatewayHealthServices res ?c). gh_gwHost g = h \<and> gh_port g = p)"
    (is "?l \<longleftrightarrow> ?r")
  proof -
    have pos: "svc_health_port (is_svc is) \<noteq> 0 \<longleftrightarrow> svc_health_port (is_svc is) > 0" if "is \<in> set (resolveIngressServices res ?c)" for "is"
      using assms(4) is_row [OF that] by force
    note port = plan_health_port [OF assms(1,3)]
    show ?thesis
      unfolding plan_health [OF assms(1)] using port pos by (auto; force)
  qed
  show ?thesis
    unfolding bound open_public mem_Collect_eq public_ports_iff plan_routes [OF assms(1), of h "\<lambda>l t. l = p"]
      plan_routes [OF assms(1), of h "\<lambda>l t. t = IngressTypeTLSTermination"] plan_apps [OF assms(1)] plan_terms [OF assms(1)] hp
    by blast
qed

subsection \<open>Backends\<close>

lemma fill_all_in:
  assumes "fill_all f xs = Inr ys" "y \<in> set ys"
  shows "\<exists>x\<in>set xs. f x = Inr y"
  using fill_all_list [OF assms(1)] assms(2) by (fastforce simp: list_all2_conv_all_nth in_set_conv_nth)

text \<open>An input of a host is a row of its plan, with its own address or the one that was resolved.\<close>

lemma hi_sources:
  assumes "realize_inputs res pl outs h = Inr hi"
  defines "ips \<equiv> outs \<circ>\<^sub>m eg_cross pl h" and "gips \<equiv> outs \<circ>\<^sub>m eg_peers pl h"
  shows "r' \<in> set (hi_routes hi) \<Longrightarrow> \<exists>r\<in>set (eg_routes pl h). ir_service r' = ir_service r \<and> ir_target r' = ir_target r
      \<and> (ir_backend r' = ir_backend r \<or> ir_backend r = [] \<and> ips (ir_service r) = Some (ir_backend r'))"
    and "x' \<in> set (hi_health hi) \<Longrightarrow> \<exists>x\<in>set (eg_health pl h). ih_service x' = ih_service x \<and> ih_target x' = ih_target x
      \<and> (ih_backend x' = ih_backend x \<or> ih_backend x = [] \<and> ips (ih_service x) = Some (ih_backend x'))"
    and "g' \<in> set (hi_terms hi) \<Longrightarrow> \<exists>g\<in>set (eg_terms pl h). ig_name g' = ig_name g \<and> ig_port g' = ig_port g
      \<and> (ig_backend g' = ig_backend g \<or> ig_backend g = [] \<and> gips (ig_name g) = Some (ig_backend g'))"
proof -
  obtain hostIP where f: "fill_inputs pl h ips gips hostIP = Inr hi"
    using inputs_fill [OF assms(1)] unfolding ips_def gips_def by blast
  have flds: "(hi_routes hi = eg_routes pl h \<or> fill_all (fill_route ips) (eg_routes pl h) = Inr (hi_routes hi))
    \<and> (hi_health hi = eg_health pl h \<or> fill_all (fill_health ips) (eg_health pl h) = Inr (hi_health hi))
    \<and> (hi_terms hi = eg_terms pl h \<or> fill_all (fill_termination gips) (eg_terms pl h) = Inr (hi_terms hi))"
    using f by (auto simp: fill_inputs_def split: if_splits sum.splits)
  have r: "fill_route ips r = Inr y \<Longrightarrow> ir_service y = ir_service r \<and> ir_target y = ir_target r
      \<and> (ir_backend y = ir_backend r \<or> ir_backend r = [] \<and> ips (ir_service r) = Some (ir_backend y))" for r y
    using go_string_nonempty [of ips "ir_service r"] by (auto simp: fill_route_def split: sum.splits dest!: fill_ok split: if_splits)
  have x: "fill_health ips x = Inr y \<Longrightarrow> ih_service y = ih_service x \<and> ih_target y = ih_target x
      \<and> (ih_backend y = ih_backend x \<or> ih_backend x = [] \<and> ips (ih_service x) = Some (ih_backend y))" for x y
    using go_string_nonempty [of ips "ih_service x"] by (auto simp: fill_health_def split: sum.splits dest!: fill_ok split: if_splits)
  have g: "fill_termination gips g = Inr y \<Longrightarrow> ig_name y = ig_name g \<and> ig_port y = ig_port g
      \<and> (ig_backend y = ig_backend g \<or> ig_backend g = [] \<and> gips (ig_name g) = Some (ig_backend y))" for g y
    using go_string_nonempty [of gips "ig_name g"] by (auto simp: fill_termination_def split: sum.splits dest!: fill_ok split: if_splits)
  show "\<exists>r\<in>set (eg_routes pl h). ir_service r' = ir_service r \<and> ir_target r' = ir_target r
      \<and> (ir_backend r' = ir_backend r \<or> ir_backend r = [] \<and> ips (ir_service r) = Some (ir_backend r'))"
    if "r' \<in> set (hi_routes hi)"
    using flds that fill_all_in [of "fill_route ips" "eg_routes pl h" "hi_routes hi" r'] r by (elim conjE disjE) auto
  show "\<exists>x\<in>set (eg_health pl h). ih_service x' = ih_service x \<and> ih_target x' = ih_target x
      \<and> (ih_backend x' = ih_backend x \<or> ih_backend x = [] \<and> ips (ih_service x) = Some (ih_backend x'))"
    if "x' \<in> set (hi_health hi)"
    using flds that fill_all_in [of "fill_health ips" "eg_health pl h" "hi_health hi" x'] x by (elim conjE disjE) auto
  show "\<exists>g\<in>set (eg_terms pl h). ig_name g' = ig_name g \<and> ig_port g' = ig_port g
      \<and> (ig_backend g' = ig_backend g \<or> ig_backend g = [] \<and> gips (ig_name g) = Some (ig_backend g'))"
    if "g' \<in> set (hi_terms hi)"
    using flds that fill_all_in [of "fill_termination gips" "eg_terms pl h" "hi_terms hi" g'] g by (elim conjE disjE) auto
qed

text \<open>Where a cross-host backend runs.\<close>

lemma cross_rows:
  "(h, n, hb) \<in> set (edge_cross res c) \<longleftrightarrow>
     (\<exists>is\<in>set (resolveIngressServices res c). \<not> is_coLocated is \<and> is_ingHost is = h \<and> svc_name (is_svc is) = n \<and> is_svcHost is = hb)
     \<or> (\<exists>g\<in>set (resolveGatewayHealthServices res c). \<not> gh_coLocated g \<and> gh_gwHost g = h \<and> svc_name (gh_svc g) = n \<and> gh_svcHost g = hb)"
  by (auto simp: edge_cross_def ingressCrossHostBackends_def split: if_splits)

lemma cross_host:
  assumes "distinct (map svc_name (res_service res))" "(h, n, hb) \<in> set (edge_cross res c)"
  shows "last_map (entries_at (edge_cross res c) h) n = Some hb"
proof (rule last_map_unique)
  show "(n, hb) \<in> set (entries_at (edge_cross res c) h)" using assms(2) by simp
  have src: "\<exists>s\<in>set (res_service res). svc_name s = n \<and> c (svc_host s) = Some w" if "(h, n, w) \<in> set (edge_cross res c)" for w
    using that is_row [of _ res c] gh_row [of _ res c] unfolding cross_rows by blast
  show "w = hb" if "(n, w) \<in> set (entries_at (edge_cross res c) h)" for w
    using src [of w] src [OF assms(2)] that assms(1) by (auto simp: distinct_map inj_on_def)
qed

lemma peer_host:
  assumes "distinct (map gw_name (res_gateway res))" "rg \<in> set (fronted_gateways res c slug base eslug)" "rg_host rg \<noteq> rg_ingHost rg"
  shows "last_map (entries_at (gateway_peers res c slug base eslug) (rg_ingHost rg)) (gw_name (rg_gw rg)) = Some (rg_host rg)"
proof (rule last_map_unique)
  have row: "(h, n, w) \<in> set (gateway_peers res c slug base eslug) \<longleftrightarrow> (\<exists>rg\<in>set (fronted_gateways res c slug base eslug).
      rg_host rg \<noteq> rg_ingHost rg \<and> n = gw_name (rg_gw rg) \<and> (h = rg_ingHost rg \<and> w = rg_host rg \<or> h = rg_host rg \<and> w = rg_ingHost rg))" for h n w
    by (auto simp: gateway_peers_def split: if_splits)
  show "(gw_name (rg_gw rg), rg_host rg) \<in> set (entries_at (gateway_peers res c slug base eslug) (rg_ingHost rg))"
    using assms(2,3) by (auto simp: row)
  fix w assume "(gw_name (rg_gw rg), w) \<in> set (entries_at (gateway_peers res c slug base eslug) (rg_ingHost rg))"
  then obtain rg' where r: "rg' \<in> set (fronted_gateways res c slug base eslug)" "rg_host rg' \<noteq> rg_ingHost rg'" "gw_name (rg_gw rg) = gw_name (rg_gw rg')"
    "rg_ingHost rg = rg_ingHost rg' \<and> w = rg_host rg' \<or> rg_ingHost rg = rg_host rg' \<and> w = rg_ingHost rg'"
    by (auto simp: row)
  have "rg_gw rg' = rg_gw rg"
    using r(1,3) assms(1,2) by (auto simp: fronted_row distinct_map inj_on_def)
  then have "rg_host rg' = rg_host rg" "rg_ingHost rg' = rg_ingHost rg"
    using r(1) assms(2) by (auto simp: fronted_row)
  then show "w = rg_host rg" using r(4) assms(3) by auto
qed

lemma private_rows:
  fixes res :: resources
  defines "c \<equiv> CanonicalComputeKeys (res_compute res)"
  shows "is \<in> set (resolveIngressServices res c) \<Longrightarrow> \<not> is_coLocated is \<Longrightarrow> rt \<in> set (svc_routes (is_svc is)) \<Longrightarrow>
      rt_target rt \<in> open_ports fp_private res mp (is_svcHost is)"
    and "is \<in> set (resolveIngressServices res c) \<Longrightarrow> \<not> is_coLocated is \<Longrightarrow> svc_health_port (is_svc is) > 0 \<Longrightarrow>
      svc_health_port (is_svc is) \<in> open_ports fp_private res mp (is_svcHost is)"
    and "g \<in> set (resolveGatewayHealthServices res c) \<Longrightarrow> \<not> gh_coLocated g \<Longrightarrow>
      svc_health_port (gh_svc g) \<in> open_ports fp_private res mp (gh_svcHost g)"
    and "rg \<in> set (fronted_gateways res c [] [] []) \<Longrightarrow> rg_host rg \<noteq> rg_ingHost rg \<Longrightarrow>
      GatewayHTTPPort \<in> open_ports fp_private res mp (rg_host rg)"
proof -
  have r: "(h, p) \<in> set (private_ports res c mp)"
    if "(\<exists>is\<in>set (resolveIngressServices res c). (h, p) \<in> set (service_private is))
      \<or> (\<exists>rg\<in>set (fronted_gateways res c [] [] []). rg_host rg \<noteq> rg_ingHost rg \<and> (h, p) = (rg_host rg, GatewayHTTPPort))
      \<or> (\<exists>g\<in>set (resolveGatewayHealthServices res c). \<not> gh_coLocated g \<and> (h, p) = (gh_svcHost g, svc_health_port (gh_svc g)))" for h p
    using that unfolding private_ports_def set_append set_concat set_map Un_iff UN_iff bex_simps(7)
    by (elim disjE) (force simp del: set_map)+
  have s: "rt \<in> set (svc_routes (is_svc is)) \<Longrightarrow> \<not> is_coLocated is \<Longrightarrow> (is_svcHost is, rt_target rt) \<in> set (service_private is)"
    "svc_health_port (is_svc is) > 0 \<Longrightarrow> \<not> is_coLocated is \<Longrightarrow> (is_svcHost is, svc_health_port (is_svc is)) \<in> set (service_private is)"
    for "is" rt by (auto simp: service_private_def)
  show "is \<in> set (resolveIngressServices res c) \<Longrightarrow> \<not> is_coLocated is \<Longrightarrow> rt \<in> set (svc_routes (is_svc is)) \<Longrightarrow>
      rt_target rt \<in> open_ports fp_private res mp (is_svcHost is)"
    "is \<in> set (resolveIngressServices res c) \<Longrightarrow> \<not> is_coLocated is \<Longrightarrow> svc_health_port (is_svc is) > 0 \<Longrightarrow>
      svc_health_port (is_svc is) \<in> open_ports fp_private res mp (is_svcHost is)"
    "g \<in> set (resolveGatewayHealthServices res c) \<Longrightarrow> \<not> gh_coLocated g \<Longrightarrow>
      svc_health_port (gh_svc g) \<in> open_ports fp_private res mp (gh_svcHost g)"
    "rg \<in> set (fronted_gateways res c [] [] []) \<Longrightarrow> rg_host rg \<noteq> rg_ingHost rg \<Longrightarrow>
      GatewayHTTPPort \<in> open_ports fp_private res mp (rg_host rg)"
    unfolding open_private mem_Collect_eq using r [unfolded c_def] s unfolding c_def by blast+
qed

text \<open>
  A backend that runs on \<open>home\<close> as the proxy of \<open>h\<close> must address it: over the loopback on its own host,
  and else at the private address of \<open>home\<close>, whose firewall opens the port to the network of \<open>home\<close>.
\<close>

definition private_rule :: "resources \<Rightarrow> bool \<Rightarrow> string \<Rightarrow> int \<Rightarrow> bool" where
  "private_rule res meshPublic home port \<longleftrightarrow>
     (case firewallPlanByHost res meshPublic home of
        None \<Rightarrow> False
      | Some fw \<Rightarrow> port \<in> set (fp_private fw) \<and> fp_cidr fw = go_string (networkCIDRByCompute res) home)"

definition addressed :: "resources \<Rightarrow> bool \<Rightarrow> (string \<rightharpoonup> string) \<Rightarrow> string \<Rightarrow> string \<Rightarrow> string \<Rightarrow> int \<Rightarrow> bool" where
  "addressed res meshPublic outs h home ip port \<longleftrightarrow>
     (if home = h then ip = ''127.0.0.1'' else outs home = Some ip \<and> private_rule res meshPublic home port)"

definition service_backend ::
    "resources \<Rightarrow> bool \<Rightarrow> (string \<rightharpoonup> string) \<Rightarrow> string \<Rightarrow> service_spec \<Rightarrow> string \<Rightarrow> int \<Rightarrow> bool" where
  "service_backend res meshPublic outs h s ip port \<longleftrightarrow>
     (\<exists>home. CanonicalComputeKeys (res_compute res) (svc_host s) = Some home \<and> addressed res meshPublic outs h home ip port)"

definition gateway_backend ::
    "resources \<Rightarrow> bool \<Rightarrow> (string \<rightharpoonup> string) \<Rightarrow> string \<Rightarrow> gateway_spec \<Rightarrow> string \<Rightarrow> int \<Rightarrow> bool" where
  "gateway_backend res meshPublic outs h g ip port \<longleftrightarrow>
     (\<exists>home. CanonicalComputeKeys (res_compute res) (gw_host g) = Some home \<and> addressed res meshPublic outs h home ip port)"

lemma opens_private: "port \<in> open_ports fp_private res mp home \<Longrightarrow> private_rule res mp home port"
  by (auto simp: open_ports_def private_rule_def firewallPlanByHost_def Let_def sortedInts_def split: if_splits simp flip: entries_at_iff)

lemma route_backend:
  assumes "edge_plan_of res sn sec = Inr pl" "realize_inputs res pl outs h = Inr hi" "distinct (map svc_name (res_service res))"
    and "r \<in> set (hi_routes hi)" "ir_backend r \<noteq> []"
  shows "\<exists>s\<in>set (res_service res). svc_name s = ir_service r \<and> ir_target r \<in> rt_target ` set (svc_routes s)
    \<and> service_backend res mp outs h s (ir_backend r) (ir_target r)"
proof -
  let ?c = "CanonicalComputeKeys (res_compute res)"
  obtain r0 where r0: "r0 \<in> set (eg_routes pl h)" "ir_service r = ir_service r0" "ir_target r = ir_target r0"
    "ir_backend r = ir_backend r0 \<or> ir_backend r0 = [] \<and> (outs \<circ>\<^sub>m eg_cross pl h) (ir_service r0) = Some (ir_backend r)"
    using hi_sources(1) [OF assms(2,4)] by blast
  obtain "is" rt where i: "is \<in> set (resolveIngressServices res ?c)" "is_ingHost is = h" "rt \<in> set (svc_routes (is_svc is))"
    "ir_backend r0 = (if is_coLocated is then ''127.0.0.1'' else [])" "ir_service r0 = svc_name (is_svc is)" "ir_target r0 = rt_target rt"
    using r0(1) unfolding edge_plan_parts(1) [OF assms(1)] by (auto simp: route_entries_def)
  note row = is_row [OF i(1)]
  have "addressed res mp outs h (is_svcHost is) (ir_backend r) (ir_target r)"
  proof (cases "is_coLocated is")
    case True
    then show ?thesis using r0(4) i(2,4) row by (simp add: addressed_def)
  next
    case False
    have "(h, svc_name (is_svc is), is_svcHost is) \<in> set (edge_cross res ?c)" using i(1,2) False by (auto simp: cross_rows)
    from cross_host [OF assms(3) this] have "outs (is_svcHost is) = Some (ir_backend r)"
      using r0(4) i(4,5) False assms(5) unfolding edge_plan_parts(7) [OF assms(1)] by (auto simp: map_comp_def)
    then show ?thesis
      using opens_private [OF private_rows(1) [OF i(1) False i(3)]] i(2,6) r0(3) row False by (simp add: addressed_def)
  qed
  then have "service_backend res mp outs h (is_svc is) (ir_backend r) (ir_target r)"
    using row unfolding service_backend_def by blast
  moreover have "svc_name (is_svc is) = ir_service r" "ir_target r \<in> rt_target ` set (svc_routes (is_svc is))"
    using r0(2,3) i(3,5,6) by auto
  ultimately show ?thesis using row by blast
qed

text \<open>The health rows of a host, and their backends.\<close>

lemma health_sources:
  assumes "edge_plan_of res sn sec = Inr pl" "\<forall>s\<in>set (res_service res). 0 \<le> svc_health_port s" "x \<in> set (eg_health pl h)"
  obtains s sh where "x = healthEntry s (sh = h) (sn_env sn) (sn_slug sn) (sn_base sn)"
    "s \<in> set (res_service res)" "CanonicalComputeKeys (res_compute res) (svc_host s) = Some sh"
    "sh = h \<or> (h, svc_name s, sh) \<in> set (edge_cross res (CanonicalComputeKeys (res_compute res)))
       \<and> svc_health_port s \<in> open_ports fp_private res mp sh"
proof -
  let ?c = "CanonicalComputeKeys (res_compute res)"
  have "(\<exists>is\<in>set (resolveIngressServices res ?c). is_ingHost is = h \<and> svc_health_port (is_svc is) \<noteq> 0
        \<and> x = healthEntry (is_svc is) (is_coLocated is) (sn_env sn) (sn_slug sn) (sn_base sn))
      \<or> (\<exists>g\<in>set (resolveGatewayHealthServices res ?c). gh_gwHost g = h
        \<and> x = healthEntry (gh_svc g) (gh_coLocated g) (sn_env sn) (sn_slug sn) (sn_base sn))"
    using assms(3) unfolding edge_plan_parts(5) [OF assms(1)]
    by (auto simp: ingressHealthByHost_def gatewayHealthByHost_def ingress_health_entries_def split: if_splits)
  then show thesis
  proof (elim disjE bexE conjE)
    fix "is" assume i: "is \<in> set (resolveIngressServices res ?c)" "is_ingHost is = h" "svc_health_port (is_svc is) \<noteq> 0"
      "x = healthEntry (is_svc is) (is_coLocated is) (sn_env sn) (sn_slug sn) (sn_base sn)"
    note row = is_row [OF i(1)]
    then have "svc_health_port (is_svc is) > 0" using i(3) assms(2) by force
    then show thesis
      using that [of "is_svc is" "is_svcHost is"] i(1,2,4) row private_rows(2) [OF i(1), of mp] by (auto simp: cross_rows)
  next
    fix g assume g: "g \<in> set (resolveGatewayHealthServices res ?c)" "gh_gwHost g = h"
      "x = healthEntry (gh_svc g) (gh_coLocated g) (sn_env sn) (sn_slug sn) (sn_base sn)"
    then show thesis
      using that [of "gh_svc g" "gh_svcHost g"] gh_row [OF g(1)] private_rows(3) [OF g(1), of mp] by (auto simp: cross_rows)
  qed
qed

lemma health_backend:
  assumes "edge_plan_of res sn sec = Inr pl" "realize_inputs res pl outs h = Inr hi" "distinct (map svc_name (res_service res))"
    and "\<forall>s\<in>set (res_service res). 0 \<le> svc_health_port s" "x \<in> set (hi_health hi)" "ih_backend x \<noteq> []"
  shows "\<exists>s\<in>set (res_service res). svc_name s = ih_service x \<and> svc_health_port s = ih_target x
    \<and> service_backend res mp outs h s (ih_backend x) (ih_target x)"
proof -
  obtain x0 where x0: "x0 \<in> set (eg_health pl h)" "ih_service x = ih_service x0" "ih_target x = ih_target x0"
    "ih_backend x = ih_backend x0 \<or> ih_backend x0 = [] \<and> (outs \<circ>\<^sub>m eg_cross pl h) (ih_service x0) = Some (ih_backend x)"
    using hi_sources(2) [OF assms(2,5)] by blast
  obtain s sh where s: "x0 = healthEntry s (sh = h) (sn_env sn) (sn_slug sn) (sn_base sn)"
    "s \<in> set (res_service res)" "CanonicalComputeKeys (res_compute res) (svc_host s) = Some sh"
    "sh = h \<or> (h, svc_name s, sh) \<in> set (edge_cross res (CanonicalComputeKeys (res_compute res)))
       \<and> svc_health_port s \<in> open_ports fp_private res mp sh"
    by (rule health_sources [OF assms(1,4) x0(1), where mp = mp])
  have f: "svc_name s = ih_service x" "svc_health_port s = ih_target x" using x0(2,3) s(1) by (simp_all add: healthEntry_def)
  have "addressed res mp outs h sh (ih_backend x) (ih_target x)"
  proof (cases "sh = h")
    case True
    then show ?thesis using x0(4) s(1) by (simp add: healthEntry_def addressed_def)
  next
    case False
    then have c: "(h, svc_name s, sh) \<in> set (edge_cross res (CanonicalComputeKeys (res_compute res)))"
      "svc_health_port s \<in> open_ports fp_private res mp sh" using s(4) by auto
    from cross_host [OF assms(3) c(1)] have "outs sh = Some (ih_backend x)"
      using x0(4) s(1) False assms(6) unfolding edge_plan_parts(7) [OF assms(1)] by (auto simp: map_comp_def healthEntry_def)
    then show ?thesis using opens_private [OF c(2)] f(2) False by (simp add: addressed_def)
  qed
  then show ?thesis using s(2,3) f unfolding service_backend_def by blast
qed

lemma termination_backend:
  assumes "edge_plan_of res sn sec = Inr pl" "realize_inputs res pl outs h = Inr hi" "distinct (map gw_name (res_gateway res))"
    and "g \<in> set (hi_terms hi)" "ig_backend g \<noteq> []"
  shows "\<exists>gw\<in>set (res_gateway res). gw_name gw = ig_name g \<and> ig_port g = GatewayHTTPPort
    \<and> gateway_backend res mp outs h gw (ig_backend g) (ig_port g)"
proof -
  let ?c = "CanonicalComputeKeys (res_compute res)"
  obtain g0 where g0: "g0 \<in> set (eg_terms pl h)" "ig_name g = ig_name g0" "ig_port g = ig_port g0"
    "ig_backend g = ig_backend g0 \<or> ig_backend g0 = [] \<and> (outs \<circ>\<^sub>m eg_peers pl h) (ig_name g0) = Some (ig_backend g)"
    using hi_sources(3) [OF assms(2,4)] by blast
  obtain rg where rg: "rg \<in> set (fronted_gateways res ?c (sn_slug sn) (sn_base sn) (sn_eslug sn))" "rg_ingHost rg = h"
    "ig_backend g0 = (if rg_host rg = rg_ingHost rg then ''127.0.0.1'' else [])" "ig_name g0 = gw_name (rg_gw rg)" "ig_port g0 = GatewayHTTPPort"
    using g0(1) unfolding edge_plan_parts(3) [OF assms(1)] by (auto simp: terminations_def termination_entry_def bare_gateway_def)
  have row: "rg_gw rg \<in> set (res_gateway res)" "?c (gw_host (rg_gw rg)) = Some (rg_host rg)"
    using rg(1) by (simp_all add: fronted_row)
  have "addressed res mp outs h (rg_host rg) (ig_backend g) (ig_port g)"
  proof (cases "rg_host rg = rg_ingHost rg")
    case True
    then show ?thesis using g0(4) rg(2,3) by (simp add: addressed_def)
  next
    case False
    have o': "outs (rg_host rg) = Some (ig_backend g)"
      using peer_host [OF assms(3) rg(1) False] g0(4) rg(2,3,4) False assms(5) unfolding edge_plan_parts(8) [OF assms(1)]
      by (auto simp: map_comp_def)
    obtain rg' where "rg' \<in> set (fronted_gateways res ?c [] [] [])" "rg_host rg' = rg_host rg" "rg_ingHost rg' = rg_ingHost rg"
      using rg(1) unfolding fronted_fqdn [of res ?c "sn_slug sn" "sn_base sn" "sn_eslug sn"] by auto
    then have "GatewayHTTPPort \<in> open_ports fp_private res mp (rg_host rg)"
      using private_rows(4) [of rg' res mp] False by simp
    from opens_private [OF this] show ?thesis using o' rg(2,5) g0(3) False by (simp add: addressed_def)
  qed
  then show ?thesis using row rg(4,5) g0(2,3) unfolding gateway_backend_def by auto
qed

text \<open>C13: Whatever the edge of a host proxies to reaches the workload it is for.  A route or a health endpoint
  names a service of the scope and one of its target ports or its health port, a TLS termination of a
  gateway names the gateway and the port of its routing server; when the compute of that workload is the
  host itself the address is the loopback, and otherwise it is the private address of that compute, whose
  firewall opens the port to the address range of the compute's network.  Services and gateways have
  distinct names and no health port is negative, as validation and the schema demand.\<close>
theorem edge_backends_reachable:
  assumes "edge_plan_of res sn sec = Inr pl" "realize_inputs res pl outs h = Inr hi" "realize_host res pl outs h = Inr tree"
    and "distinct (map svc_name (res_service res))" "distinct (map gw_name (res_gateway res))"
    and "\<forall>s\<in>set (res_service res). 0 \<le> svc_health_port s"
  shows "(\<forall>r\<in>set (hi_routes hi). \<exists>s\<in>set (res_service res). svc_name s = ir_service r
        \<and> ir_target r \<in> rt_target ` set (svc_routes s) \<and> service_backend res meshPublic outs h s (ir_backend r) (ir_target r))
    \<and> (\<forall>x\<in>set (hi_health hi). \<exists>s\<in>set (res_service res). svc_name s = ih_service x
        \<and> svc_health_port s = ih_target x \<and> service_backend res meshPublic outs h s (ih_backend x) (ih_target x))
    \<and> (\<forall>g\<in>set (hi_terms hi). \<exists>gw\<in>set (res_gateway res). gw_name gw = ig_name g
        \<and> ig_port g = GatewayHTTPPort \<and> gateway_backend res meshPublic outs h gw (ig_backend g) (ig_port g))"
proof -
  have "nginx_directives (hi_routes hi) (eg_apps pl h) (hi_health hi) (host_health_port pl h) (hi_terms hi) (hi_routings hi) = Inr tree"
    using realize_parts [OF assms(3)] assms(2) by auto
  then have ne: "\<forall>r\<in>set (hi_routes hi). ir_backend r \<noteq> []" "\<forall>x\<in>set (hi_health hi). ih_backend x \<noteq> []" "\<forall>g\<in>set (hi_terms hi). ig_backend g \<noteq> []"
    by (auto simp: nginx_directives_def nginx_plan_err_def Let_def first_err_None route_err_def health_err_def gateway_err_def
        split: option.splits if_splits)
  show ?thesis
    using route_backend [OF assms(1,2,4)] health_backend [OF assms(1,2,4,6)] termination_backend [OF assms(1,2,5)] ne
    by blast
qed

end
