(* ===== verification/EdgeDns.thy ===== *)
theory EdgeDns
  imports EdgeProps
begin

text \<open>
  The DNS records of a scope against its nginx: every name a server holds a certificate for has a record
  at the host of that server, and a record name has one target.
\<close>

subsection \<open>Records\<close>

lemma dedup_records_cover:
  "r \<in> set rs \<Longrightarrow> (dr_record r, dr_hostKey r) \<notin> set seen \<Longrightarrow>
     \<exists>r'\<in>set (dedup_records seen rs). dr_record r' = dr_record r \<and> dr_hostKey r' = dr_hostKey r"
proof (induction rs arbitrary: seen)
  case (Cons a rs)
  then show ?case
    by (cases "(dr_record a, dr_hostKey a) = (dr_record r, dr_hostKey r)"; cases "(dr_record a, dr_hostKey a) \<in> set seen") auto
qed simp

lemma fst_in: "map fst cs = rs \<Longrightarrow> r \<in> set rs \<Longrightarrow> \<exists>ip. (r, ip) \<in> set cs"
  by force

lemma in_fst: "map fst cs = rs \<Longrightarrow> (r, ip) \<in> set cs \<Longrightarrow> r \<in> set rs"
  by force

definition created :: "string \<Rightarrow> (string \<rightharpoonup> string) \<Rightarrow> (string \<rightharpoonup> string) \<Rightarrow> derived_record \<times> string \<Rightarrow> bool" where
  "created base target seen x \<longleftrightarrow> target (dr_hostKey (fst x)) = Some (snd x) \<and> InZone (dr_fqdn (fst x)) base \<and> seen (dr_record (fst x)) = None"

lemma create_records_all:
  "create_records base target seen rs = Inr cs \<Longrightarrow>
     map fst cs = rs \<and> (\<forall>x\<in>set cs. created base target seen x) \<and> distinct (map dr_record rs)"
proof (induction rs arbitrary: cs seen)
  case (Cons r rs)
  obtain ip cs' where c: "InZone (dr_fqdn r) base" "seen (dr_record r) = None" "target (dr_hostKey r) = Some ip"
    "create_records base target (seen(dr_record r \<mapsto> dr_name r)) rs = Inr cs'" "cs = (r, ip) # cs'"
    using Cons.prems by (auto split: if_splits option.splits sum.splits)
  from Cons.IH [OF c(4)] have ih: "map fst cs' = rs" "\<forall>x\<in>set cs'. created base target (seen(dr_record r \<mapsto> dr_name r)) x"
    "distinct (map dr_record rs)" by blast+
  have other: "created base target seen x \<and> dr_record (fst x) \<noteq> dr_record r" if "x \<in> set cs'" for x
    using ih(2) that by (auto simp: created_def split: if_splits)
  have "created base target seen (r, ip)" using c by (simp add: created_def)
  moreover have "dr_record r \<notin> dr_record ` set rs"
  proof
    assume "dr_record r \<in> dr_record ` set rs"
    then obtain r' ip' where "(r', ip') \<in> set cs'" "dr_record r' = dr_record r" using fst_in [OF ih(1)] by (metis (no_types, lifting) imageE)
    then show False using other [of "(r', ip')"] by simp
  qed
  ultimately show ?case using other ih(1,3) c(5) by simp
qed simp

lemma record_of_fields [simp]:
  "dr_record (record_of base x) = ZoneRelative (fst x) base" "dr_hostKey (record_of base x) = snd (snd x)"
  "dr_fqdn (record_of base x) = fst x"
  by (simp_all add: record_of_def split_def)

text \<open>A derived name has one record, at its host.\<close>

lemma derived_record:
  assumes "createDNSRecords True target res sn = Inr cs" "(n, container, h) \<in> set (record_names res sn)"
  shows "\<exists>r ip. (r, ip) \<in> set cs \<and> dr_record r = ZoneRelative n (sn_base sn) \<and> dr_hostKey r = h \<and> target h = Some ip
    \<and> (\<forall>r' ip'. (r', ip') \<in> set cs \<and> dr_record r' = dr_record r \<longrightarrow> ip' = ip)"
proof -
  let ?rs = "derivedRecords res sn"
  have c: "create_records (sn_base sn) target Map.empty ?rs = Inr cs" using assms(1) by (simp add: createDNSRecords_def)
  note all = create_records_all [OF c]
  have "record_of (sn_base sn) (n, container, h) \<in> set (map (record_of (sn_base sn)) (record_names res sn))"
    using assms(2) by simp
  from dedup_records_cover [OF this, of "[]"] obtain r where r: "r \<in> set ?rs" "dr_record r = ZoneRelative n (sn_base sn)" "dr_hostKey r = h"
    by (auto simp: derivedRecords_def)
  obtain ip where ip: "(r, ip) \<in> set cs" using fst_in [OF conjunct1 [OF all] r(1)] ..
  have "ip' = ip" if "(r', ip') \<in> set cs" "dr_record r' = dr_record r" for r' ip'
  proof -
    have "r' \<in> set ?rs" by (rule in_fst [OF conjunct1 [OF all] that(1)])
    then have "r' = r" using all r(1) that(2) by (auto simp: distinct_map inj_on_def)
    moreover have "created (sn_base sn) target Map.empty (r', ip')" "created (sn_base sn) target Map.empty (r, ip)"
      using all that(1) ip by blast+
    ultimately show ?thesis by (simp add: created_def)
  qed
  moreover have "target h = Some ip" using all ip r(3) by (force simp: created_def)
  ultimately show ?thesis using ip r(2,3) by blast
qed

subsection \<open>Certificates\<close>

text \<open>The names a host terminates are derived names of the host.\<close>

lemma record_names_parts:
  fixes res :: resources
  defines "c \<equiv> CanonicalComputeKeys (res_compute res)"
  shows "is \<in> set (resolveIngressServices res c) \<Longrightarrow> rt \<in> set (svc_routes (is_svc is)) \<Longrightarrow>
      n \<in> set (ingressFQDNs (svc_name (is_svc is)) rt (sn_env sn) (sn_slug sn) (sn_base sn)) \<Longrightarrow>
      (n, svc_container (is_svc is), is_ingHost is) \<in> set (record_names res sn)"
    and "ra \<in> set (resolveIngressApps res c) \<Longrightarrow>
      (AppFQDN (app_subdomain (ra_app ra)) (sn_slug sn) (sn_base sn) (sn_eslug sn), app_container (ra_app ra), ra_ingHost ra)
        \<in> set (record_names res sn)"
    and "rg \<in> set (fronted_gateways res c (sn_slug sn) (sn_base sn) (sn_eslug sn)) \<Longrightarrow>
      (rg_fqdn rg, gw_container (rg_gw rg), rg_ingHost rg) \<in> set (record_names res sn)"
  unfolding record_names_def Let_def c_def set_append set_concat set_map Un_iff UN_iff bex_simps(7)
  by (blast, blast, blast)

text \<open>The operator's own names: the expansions of the vanity patterns of the routes.\<close>

definition vanity_name :: "resources \<Rightarrow> scope_names \<Rightarrow> string \<Rightarrow> bool" where
  "vanity_name res sn n \<longleftrightarrow>
     (\<exists>s\<in>set (res_service res). \<exists>rt\<in>set (svc_routes s). \<exists>v\<in>set (rt_vanity rt).
        n = ExpandVanity v (sn_env sn) (sn_slug sn) (sn_base sn))"

lemma terminated_names:
  assumes "edge_plan_of res sn sec = Inr pl" "realize_inputs res pl outs h = Inr hi"
    and "(\<exists>r\<in>set (hi_routes hi). n \<in> set (ir_fqdns r)) \<or> n \<in> ia_fqdn ` set (eg_apps pl h) \<or> n \<in> ig_fqdn ` set (hi_terms hi)"
  shows "(\<exists>container. (n, container, h) \<in> set (record_names res sn)) \<and> (InZone n (sn_base sn) \<or> vanity_name res sn n)"
proof -
  let ?c = "CanonicalComputeKeys (res_compute res)"
  note k = inputs_keep [OF assms(2)]
  consider (route) r where "r \<in> set (eg_routes pl h)" "n \<in> set (ir_fqdns r)"
    | (app) a where "a \<in> set (eg_apps pl h)" "n = ia_fqdn a" | (gw) g where "g \<in> set (eg_terms pl h)" "n = ig_fqdn g"
    using assms(3) map_eq_bex [OF k(1), of "\<lambda>(l, t, ns). n \<in> set ns"] map_eq_bex [OF k(2), of "\<lambda>x. n = x"] by auto
  then show ?thesis
  proof cases
    case route
    then obtain "is" rt where r: "is \<in> set (resolveIngressServices res ?c)" "is_ingHost is = h" "rt \<in> set (svc_routes (is_svc is))"
      "n \<in> set (ingressFQDNs (svc_name (is_svc is)) rt (sn_env sn) (sn_slug sn) (sn_base sn))"
      unfolding edge_plan_parts(1) [OF assms(1)] by (auto simp: route_entries_def route_entry_def split: if_splits)
    have "InZone n (sn_base sn) \<or> vanity_name res sn n"
      using r is_row [OF r(1)] by (auto simp: ingressFQDNs_def vanity_name_def ServiceFQDN_in_zone)
    then show ?thesis using record_names_parts(1) [OF r(1,3,4)] r(2) by blast
  next
    case app
    then obtain ra where "ra \<in> set (resolveIngressApps res ?c)" "ra_ingHost ra = h"
      "n = AppFQDN (app_subdomain (ra_app ra)) (sn_slug sn) (sn_base sn) (sn_eslug sn)"
      unfolding edge_plan_parts(2) [OF assms(1)] by (auto simp: ingressAppsByHost_def app_entries_def)
    then show ?thesis using record_names_parts(2) AppFQDN_in_zone by blast
  next
    case gw
    then obtain rg where "rg \<in> set (fronted_gateways res ?c (sn_slug sn) (sn_base sn) (sn_eslug sn))" "rg_ingHost rg = h" "n = rg_fqdn rg"
      unfolding edge_plan_parts(3) [OF assms(1)] by (auto simp: terminations_def termination_entry_def bare_gateway_def)
    then show ?thesis using record_names_parts(3) AppFQDN_in_zone fronted_row by metis
  qed
qed

text \<open>The servers that hold a certificate.\<close>

definition holds_certificate :: "directive \<Rightarrow> bool" where
  "holds_certificate srv \<longleftrightarrow> d_name srv = ''server'' \<and> dir ''acme_certificate'' [acmeIssuer] \<in> set (children_of srv)"

definition server_names :: "directive \<Rightarrow> string list" where
  "server_names srv = concat (map d_args (named ''server_name'' (children_of srv)))"

lemma dir_eq [simp]: "dir a x = dir b y \<longleftrightarrow> a = b \<and> x = y" "dir a x \<noteq> block b y z" "block b y z \<noteq> dir a x"
  by (simp_all add: dir_def block_def)

lemma named_server_name [simp]:
  "named ''server_name'' acme_dirs = []" "named ''server_name'' (rlHTTPLimitDirs po) = []"
  by (auto simp: acme_dirs_def rlHTTPLimitDirs_def split: option.splits)

lemma listenDir_not_name [simp]:
  "named ''server_name'' (listenDir m p # ds) = named ''server_name'' ds"
  "dir ''acme_certificate'' x \<noteq> listenDir m p" 
  by (auto simp: listenDir_def split: option.splits)

lemma certificate_servers:
  assumes "srv \<in> set (http_context (nginx_top np))" "holds_certificate srv" "n \<in> set (server_names srv)"
  shows "(\<exists>r\<in>set (np_terminate np). n \<in> set (ir_fqdns r)) \<or> n \<in> ia_fqdn ` set (np_apps np) \<or> n \<in> ig_fqdn ` set (np_gateways np)"
proof -
  have "srv \<in> set (http_prelude np) \<or> srv \<in> set (http_servers np)"
    using assms(1) unfolding top_contexts by (auto simp: httpBlock_def split: if_splits)
  moreover have "srv \<notin> set (http_prelude np)"
    using assms(2) by (auto simp: holds_certificate_def http_prelude_def httpRateLimitZones_def Let_def split: if_splits)
  ultimately have "srv \<in> set (http_servers np)" by blast
  moreover have "\<not> holds_certificate (gatewayRoutingServer g)" "\<not> holds_certificate (healthCatchAllServer p)"
    "\<not> holds_certificate (healthServer x p)" "\<not> holds_certificate acmeServer" for g p x
    by (auto simp: holds_certificate_def gatewayRoutingServer_def healthCatchAllServer_def healthServer_def acmeServer_def
        jsonNotFoundLocation_def probe_location_def route_location_def)
  ultimately have "(\<exists>r\<in>set (np_terminate np). srv = terminateServer r (listenDir (plan_mixed np) (ir_listen r)))
      \<or> (\<exists>a\<in>set (np_apps np). srv = appServer a (listenDir (plan_mixed np) 443))
      \<or> (\<exists>g\<in>set (np_gateways np). srv = gatewayTerminationServer g (listenDir (plan_mixed np) 443))"
    using assms(2) by (auto simp: http_servers_def Let_def split: if_splits)
  then show ?thesis
    using assms(3) by (auto simp: server_names_def terminateServer_def appServer_def gatewayTerminationServer_def)
qed

text \<open>A record is the name it was derived from exactly within the zone.\<close>

lemma ZoneRelative_rebuilds_iff:
  "provider_appends (ZoneRelative n base) base = n \<longleftrightarrow> InZone n base \<and> n \<noteq> ''@.'' @ base"
proof (cases "InZone n base")
  case False
  then have "n \<noteq> base" by (auto simp: InZone_def)
  then have "provider_appends n base \<noteq> n" by (auto simp: provider_appends_def)
  then show ?thesis using False by (simp add: ZoneRelative_outside)
next
  case True
  have "provider_appends (ZoneRelative (''@.'' @ base) base) base \<noteq> ''@.'' @ base"
  proof -
    have "''@.'' @ base \<noteq> base" by simp
    moreover have "''@.'' @ base = ''@'' @ CHR ''.'' # base" by simp
    ultimately have "ZoneRelative (''@.'' @ base) base = ''@''"
      unfolding ZoneRelative_def by (simp only: if_False trim_suffix_append)
    then show ?thesis by (simp add: provider_appends_def)
  qed
  then show ?thesis using True ZoneRelative_rebuilds [OF True] by blast
qed

text \<open>C14: When a scope deploys with a DNS authority, every name that a server on a host holds a certificate
  for has a record that points at that host, and no other target is given for the record.  The record is
  that very name exactly when the name lies in the zone and is not the apex written with an at sign, so
  that the HTTP-01 challenge of the certificate reaches the server that asks for it; the only names that
  can lie outside the zone are expansions of an operator's vanity patterns.\<close>
theorem edge_certificates_resolve:
  assumes "edge_plan_of res sn sec = Inr pl" "realize_host res pl outs h = Inr tree"
    and "createDNSRecords True target res sn = Inr cs"
    and "srv \<in> set (http_context tree)" "holds_certificate srv" "n \<in> set (server_names srv)"
  shows "(\<exists>r ip. (r, ip) \<in> set cs \<and> dr_hostKey r = h \<and> target h = Some ip
      \<and> (provider_appends (dr_record r) (sn_base sn) = n \<longleftrightarrow> InZone n (sn_base sn) \<and> n \<noteq> ''@.'' @ sn_base sn)
      \<and> (\<forall>r' ip'. (r', ip') \<in> set cs \<and> dr_record r' = dr_record r \<longrightarrow> ip' = ip))
    \<and> (InZone n (sn_base sn) \<or> vanity_name res sn n)"
proof -
  obtain hi where hi: "realize_inputs res pl outs h = Inr hi"
    and nd: "nginx_directives (hi_routes hi) (eg_apps pl h) (hi_health hi) (host_health_port pl h) (hi_terms hi) (hi_routings hi) = Inr tree"
    by (rule realize_parts [OF assms(2)])
  have "(\<exists>r\<in>set (hi_routes hi). n \<in> set (ir_fqdns r)) \<or> n \<in> ia_fqdn ` set (eg_apps pl h) \<or> n \<in> ig_fqdn ` set (hi_terms hi)"
    using certificate_servers [OF assms(4) [unfolded directives_ok(1) [OF nd]] assms(5,6)] by auto
  then obtain container where c: "(n, container, h) \<in> set (record_names res sn)" "InZone n (sn_base sn) \<or> vanity_name res sn n"
    using terminated_names [OF assms(1) hi] by blast
  from derived_record [OF assms(3) c(1)] obtain r ip where "(r, ip) \<in> set cs" "dr_record r = ZoneRelative n (sn_base sn)"
    "dr_hostKey r = h" "target h = Some ip" "\<forall>r' ip'. (r', ip') \<in> set cs \<and> dr_record r' = dr_record r \<longrightarrow> ip' = ip"
    by blast
  moreover from this(2) have "provider_appends (dr_record r) (sn_base sn) = n \<longleftrightarrow> InZone n (sn_base sn) \<and> n \<noteq> ''@.'' @ sn_base sn"
    by (simp only: ZoneRelative_rebuilds_iff)
  ultimately show ?thesis using c(2) by blast
qed

end
