(* ===== verification/EdgeExample.thy ===== *)
theory EdgeExample
  imports EdgeDns
begin

text \<open>
  A small scope with an ingress on one compute and its service on another, deployed: the inputs of its
  edge, the rendered configuration and the records.  The witnesses of the edge properties rest on it.
\<close>

definition ed_compute :: "string \<Rightarrow> compute_spec" where
  "ed_compute name =
     \<lparr>cmp_name = name, cmp_kind = ''vm'', cmp_container = ''core'', cmp_provider = [], cmp_network = ''lan'', cmp_subnet = [],
      cmp_size = ''small'', cmp_image = ''debian'', cmp_cloud_init = [], cmp_instances = 1, cmp_firewall = None,
      cmp_deploy_user = None\<rparr>"

definition ed_service :: service_spec where
  "ed_service =
     \<lparr>svc_name = ''api'', svc_container = ''core'', svc_host = ''back'', svc_type = ''raw'', svc_user = [], svc_pki = [],
      svc_mtls_files = False, svc_reload = [], svc_ingress = ''edge'',
      svc_routes = [\<lparr>rt_type = ''tls-termination'', rt_listen = 443, rt_target = 8080, rt_vanity = []\<rparr>],
      svc_health_port = 0, svc_health_paths = [], svc_exposed = [], svc_mesh = None, svc_grants = [], svc_env = []\<rparr>"

definition ed_res :: resources where
  "ed_res =
     \<lparr>res_network = [\<lparr>net_name = ''lan'', net_container = ''core'', net_provider = [], net_cidr = ''10.0.0.0/16'', net_subnets = []\<rparr>],
      res_compute = [ed_compute ''web'', ed_compute ''back''], res_cluster = [], res_database = [], res_service = [ed_service],
      res_pki = [],
      res_ingress = [\<lparr>ing_name = ''edge'', ing_container = ''core'', ing_host = ''web'', ing_health_port = 0, ing_security = None\<rparr>],
      res_app = [], res_gateway = []\<rparr>"

definition ed_names :: scope_names where
  "ed_names = \<lparr>sn_env = ''prd'', sn_slug = [], sn_base = ''ex.io'', sn_eslug = []\<rparr>"

definition ed_sec :: rate_limit_config where
  "ed_sec = \<lparr>rl_enabled = True, rl_rps = 50, rl_burst = 100, rl_maxconn = 0\<rparr>"

definition ed_outs :: "string \<rightharpoonup> string" where
  "ed_outs = [''web-01'' \<mapsto> ''10.0.0.2'', ''back-01'' \<mapsto> ''10.0.0.3'']"

abbreviation ed_canon :: "string \<rightharpoonup> string" where
  "ed_canon \<equiv> CanonicalComputeKeys (res_compute ed_res)"

lemma ed_res_sel [simp]:
  "res_service ed_res = [ed_service]" "res_app ed_res = []" "res_gateway ed_res = []" "res_cluster ed_res = []"
  "res_compute ed_res = [ed_compute ''web'', ed_compute ''back'']"
  "res_ingress ed_res = [\<lparr>ing_name = ''edge'', ing_container = ''core'', ing_host = ''web'', ing_health_port = 0, ing_security = None\<rparr>]"
  by (simp_all add: ed_res_def)

lemma ed_service_sel [simp]:
  "svc_name ed_service = ''api''" "svc_host ed_service = ''back''" "svc_ingress ed_service = ''edge''"
  "svc_health_port ed_service = 0" "svc_pki ed_service = []"
  "svc_routes ed_service = [\<lparr>rt_type = ''tls-termination'', rt_listen = 443, rt_target = 8080, rt_vanity = []\<rparr>]"
  "svc_container ed_service = ''core''"
  by (simp_all add: ed_service_def)

lemma ed_compute_sel [simp]: "cmp_name (ed_compute n) = n" "cmp_instances (ed_compute n) = 1" "cmp_container (ed_compute n) = ''core''"
  by (simp_all add: ed_compute_def)

lemma ed_keys: "SpecKey ''web'' 1 = ''web-01''" "SpecKey ''back'' 1 = ''back-01''"
  by code_simp+

lemma ed_canon: "CanonicalComputeKeys [ed_compute ''web'', ed_compute ''back''] =
    [''web-01'' \<mapsto> ''web-01'', ''web'' \<mapsto> ''web-01'', ''back-01'' \<mapsto> ''back-01'', ''back'' \<mapsto> ''back-01'']"
  by (simp add: CanonicalComputeKeys_def ed_keys)

definition ed_is :: ingress_service where
  "ed_is = \<lparr>is_svc = ed_service, is_ingHost = ''web-01'', is_svcHost = ''back-01'', is_coLocated = False\<rparr>"

lemma ed_services: "resolveIngressServices ed_res ed_canon = [ed_is]"
  by (simp add: resolveIngressServices_def ingress_service_of_def ingressHostsByName_def last_map_def ed_canon ed_is_def)

lemma ed_none [simp]:
  "resolveIngressApps ed_res c = []" "fronted_gateways ed_res c slug base eslug = []" "resolveGatewayHealthServices ed_res c = []"
  by (simp_all add: resolveIngressApps_def fronted_gateways_def resolveGateways_def resolveGatewayHealthServices_def)

definition ed_route :: ingress_route where
  "ed_route = \<lparr>ir_service = ''api'', ir_type = ''tls-termination'', ir_fqdns = [''api.svc.prd.ex.io''], ir_listen = 443,
     ir_target = 8080, ir_backend = [], ir_limit = None\<rparr>"

lemma ed_routes: "route_entries ed_res ed_canon ''prd'' [] ''ex.io'' = [(''web-01'', ed_route)]"
  unfolding route_entries_def ed_services
  by (simp add: ed_is_def route_entry_def ed_route_def IngressTypeTLSTermination_def ingressFQDNs_def ServiceFQDN_def
      RecordFQDN_def RecordName_def)

lemma ed_routes_ok: "is_ok (ingressRoutesByHost ed_res ed_canon ''prd'' [] ''ex.io'')"
  unfolding ingressRoutesByHost_def ed_routes Let_def by (simp add: entries_at_def ed_route_def is_ok_def)

definition ed_plan :: edge_plan where
  "ed_plan = (case edge_plan_of ed_res ed_names ed_sec of Inr pl \<Rightarrow> pl | Inl e \<Rightarrow> undefined)"

lemma ed_names_sel [simp]: "sn_env ed_names = ''prd''" "sn_slug ed_names = []" "sn_base ed_names = ''ex.io''" "sn_eslug ed_names = []"
  by (simp_all add: ed_names_def)

lemma ed_empty [simp]:
  "ingressAppsByHost ed_res c slug base eslug h = []" "terminations ed_res c slug base eslug h = []"
  "routings ed_res c slug base eslug h = []" "gateway_peers ed_res c slug base eslug = []"
  by (simp_all add: ingressAppsByHost_def app_entries_def terminations_def routings_def gateway_peers_def entries_at_def)

lemma ed_planned: "edge_plan_of ed_res ed_names ed_sec = Inr ed_plan"
proof -
  obtain rts where "ingressRoutesByHost ed_res ed_canon ''prd'' [] ''ex.io'' = Inr rts"
    using ed_routes_ok by (auto simp: is_ok_def split: sum.splits)
  then have "\<exists>pl. edge_plan_of ed_res ed_names ed_sec = Inr pl"
    by (simp add: edge_plan_of_def Let_def checkAppSNICollisions_def)
  then show ?thesis by (auto simp: ed_plan_def)
qed

lemma ed_limit: "ResolvedRateLimit ed_sec = Some \<lparr>rp_name = ''edge'', rp_rps = 50, rp_burst = 100, rp_maxconn = 0\<rparr>"
  by (simp add: ResolvedRateLimit_def ed_sec_def)

definition ed_stamped :: ingress_route where
  "ed_stamped = ed_route\<lparr>ir_limit := ResolvedRateLimit ed_sec\<rparr>"

lemma ed_plan_rows:
  "eg_routes ed_plan ''web-01'' = [ed_stamped]" "eg_apps ed_plan h = []" "eg_terms ed_plan h = []" "eg_routings ed_plan h = []"
  "eg_health ed_plan h = []" "eg_cross ed_plan ''web-01'' = [''api'' \<mapsto> ''back-01'']" "eg_peers ed_plan h = Map.empty"
proof -
  note p = edge_plan_parts [OF ed_planned]
  have "eg_routes ed_plan ''web-01'' = map (stamp_route (ResolvedRateLimit ed_sec) ed_res) [ed_route]"
    unfolding p(1) ed_names_sel ed_routes by (simp add: entries_at_def)
  then show "eg_routes ed_plan ''web-01'' = [ed_stamped]"
    by (simp add: stamp_route_def ed_stamped_def ed_limit securityOptOut_def fkByName_def go_string_def last_map_def ed_route_def)
  show "eg_apps ed_plan h = []" "eg_terms ed_plan h = []" "eg_routings ed_plan h = []" unfolding p by simp_all
  show "eg_health ed_plan h = []"
    unfolding p ed_services by (simp add: ingressHealthByHost_def gatewayHealthByHost_def ingress_health_entries_def entries_at_def ed_is_def)
  show "eg_cross ed_plan ''web-01'' = [''api'' \<mapsto> ''back-01'']"
    unfolding p edge_cross_def ed_services
    by (simp add: ingressCrossHostBackends_def entries_at_def ed_is_def last_map_def)
  show "eg_peers ed_plan h = Map.empty" unfolding p by (simp add: entries_at_def last_map_def)
qed

definition ed_inputs :: host_inputs where
  "ed_inputs = \<lparr>hi_routes = [ed_stamped\<lparr>ir_backend := ''10.0.0.3''\<rparr>], hi_health = [], hi_terms = [], hi_routings = []\<rparr>"

lemma ed_realized: "realize_inputs ed_res ed_plan ed_outs ''web-01'' = Inr ed_inputs"
proof -
  have ips: "ed_outs \<circ>\<^sub>m [''api'' \<mapsto> ''back-01''] = [''api'' \<mapsto> ''10.0.0.3'']"
    by (rule ext) (simp add: map_comp_def ed_outs_def)
  have "fill_route [''api'' \<mapsto> ''10.0.0.3''] ed_stamped = Inr (ed_stamped\<lparr>ir_backend := ''10.0.0.3''\<rparr>)"
    by (simp add: fill_route_def fill_def go_string_def ed_stamped_def ed_route_def)
  then have "fill_inputs ed_plan ''web-01'' [''api'' \<mapsto> ''10.0.0.3''] Map.empty ''10.0.0.2'' = Inr ed_inputs"
    by (simp add: fill_inputs_def ed_plan_rows ed_inputs_def)
  moreover have o: "ed_outs ''web-01'' = Some ''10.0.0.2''" "ed_outs \<circ>\<^sub>m Map.empty = Map.empty"
    by (simp add: ed_outs_def, rule ext, simp add: map_comp_def)
  moreover have "missing_output (NoBackendOutput ''web-01'') ed_outs (eg_cross ed_plan ''web-01'') (map svc_name (res_service ed_res)) = None"
    "missing_output (NoPeerOutput ''web-01'') ed_outs (eg_peers ed_plan ''web-01'') (map gw_name (res_gateway ed_res)) = None"
    unfolding ed_plan_rows by (simp_all add: missing_output_def ed_outs_def)
  ultimately show ?thesis
    unfolding realize_inputs_def by (simp only: ed_plan_rows(6,7) ips o option.case)
qed

definition ed_tree :: "directive list" where
  "ed_tree = nginx_top (plan_of (hi_routes ed_inputs) [] [] (host_health_port ed_plan ''web-01'') [] [])"

lemma ed_rendered: "realize_host ed_res ed_plan ed_outs ''web-01'' = Inr ed_tree"
proof -
  let ?r = "ed_stamped\<lparr>ir_backend := ''10.0.0.3''\<rparr>" and ?hp = "host_health_port ed_plan ''web-01''"
  have t: "ir_type ?r = IngressTypeTLSTermination" by (simp add: ed_stamped_def ed_route_def IngressTypeTLSTermination_def)
  have fwd: "np_forward (plan_of [?r] [] [] ?hp [] []) = []"
    by (simp add: plan_of_def t) (simp add: IngressTypeForward_def IngressTypeTLSTermination_def)
  have "nginx_plan_err [?r] [] [] ?hp [] [] = None"
  proof (rule plan_accepted)
    show "first_err route_err [?r] = None" by (simp add: route_err_def t)
    show "length (plan_mixed (plan_of [?r] [] [] ?hp [] [])) \<le> nat MaxMixedPorts"
      by (simp add: plan_mixed_def fwd mixed_listens_def)
  qed (simp_all add: fwd health_port_err_def health_forward_err_def acme_err_def forwardByListen_def)
  then have "nginx_directives (hi_routes ed_inputs) [] [] ?hp [] [] = Inr ed_tree"
    by (simp add: nginx_directives_def ed_tree_def ed_inputs_def)
  then show ?thesis by (simp add: realize_host_def ed_realized ed_plan_rows) (simp add: ed_inputs_def)
qed

subsection \<open>Witnesses\<close>

lemma ed_created: "createDNSRecords True [''web-01'' \<mapsto> ''203.0.113.2'', ''back-01'' \<mapsto> ''203.0.113.3''] ed_res ed_names =
    Inr (map (\<lambda>r. (r, if dr_hostKey r = ''web-01'' then ''203.0.113.2'' else ''203.0.113.3'')) (derivedRecords ed_res ed_names))"
proof -
  have "record_names ed_res ed_names =
      [(''web.vm.prd.ex.io'', ''core'', ''web-01''), (''back.vm.prd.ex.io'', ''core'', ''back-01''),
       (''api.svc.prd.ex.io'', ''core'', ''web-01''), (''ingress.ex.io'', ''core'', ''web-01'')]"
    unfolding record_names_def Let_def ed_services
    by (simp add: HostFQDN_def RecordFQDN_def RecordName_def ServiceFQDN_def ingressFQDNs_def AppFQDN_def IngressDNSLabel_def
        ed_keys ed_is_def ed_canon)
  moreover have "ZoneRelative ''web.vm.prd.ex.io'' ''ex.io'' = ''web.vm.prd''" "ZoneRelative ''back.vm.prd.ex.io'' ''ex.io'' = ''back.vm.prd''"
    "ZoneRelative ''api.svc.prd.ex.io'' ''ex.io'' = ''api.svc.prd''" "ZoneRelative ''ingress.ex.io'' ''ex.io'' = ''ingress''"
    by code_simp+
  moreover have "InZone ''web.vm.prd.ex.io'' ''ex.io''" "InZone ''back.vm.prd.ex.io'' ''ex.io''"
    "InZone ''api.svc.prd.ex.io'' ''ex.io''" "InZone ''ingress.ex.io'' ''ex.io''"
    by code_simp+
  ultimately show ?thesis
    by (simp add: createDNSRecords_def derivedRecords_def record_of_def)
qed

theorem edge_firewall_exact_witness:
  "bound_port ed_tree 443 \<and> bound_port ed_tree 80 \<and> \<not> bound_port ed_tree 8080"
proof -
  have e: "p \<in> open_ports fp_public ed_res False ''web-01'' \<longleftrightarrow> bound_port ed_tree p" for p
    using edge_firewall_exact [OF ed_planned ed_rendered, of p False] by simp
  have "p \<in> open_ports fp_public ed_res False ''web-01'' \<longleftrightarrow> p = 443 \<or> p = 80" for p
    unfolding open_public public_ports_iff mem_Collect_eq ed_services ed_none
    by (auto simp: ed_is_def IngressTypeTLSTermination_def)
  then show ?thesis unfolding e by simp
qed

theorem edge_backends_reachable_witness:
  "service_backend ed_res False ed_outs ''web-01'' ed_service ''10.0.0.3'' 8080
   \<and> private_rule ed_res False ''back-01'' 8080 \<and> go_string (networkCIDRByCompute ed_res) ''back-01'' = ''10.0.0.0/16''"
proof -
  have b: "service_backend ed_res False ed_outs ''web-01'' ed_service ''10.0.0.3'' 8080"
    using edge_backends_reachable [OF ed_planned ed_realized ed_rendered, of False]
    by (simp add: ed_inputs_def ed_stamped_def ed_route_def)
  have "ed_canon ''back'' = Some ''back-01''" by (simp add: ed_canon)
  then have "private_rule ed_res False ''back-01'' 8080"
    using b by (auto simp: service_backend_def addressed_def)
  moreover have "go_string (networkCIDRByCompute ed_res) ''back-01'' = ''10.0.0.0/16''" by code_simp
  ultimately show ?thesis using b by blast
qed

theorem edge_certificates_resolve_witness:
  "\<exists>r ip. (r, ip) \<in> set (map (\<lambda>r. (r, if dr_hostKey r = ''web-01'' then ''203.0.113.2'' else ''203.0.113.3'')) (derivedRecords ed_res ed_names))
     \<and> dr_hostKey r = ''web-01'' \<and> ip = ''203.0.113.2'' \<and> provider_appends (dr_record r) ''ex.io'' = ''api.svc.prd.ex.io''"
proof -
  let ?r = "ed_stamped\<lparr>ir_backend := ''10.0.0.3''\<rparr>" and ?np = "plan_of (hi_routes ed_inputs) [] [] (host_health_port ed_plan ''web-01'') [] []"
  have r: "?r \<in> set (np_terminate ?np)"
    by (simp add: ed_inputs_def ed_stamped_def ed_route_def IngressTypeTLSTermination_def)
  let ?srv = "terminateServer ?r (listenDir (plan_mixed ?np) 443)"
  have "?srv \<in> set (http_context ed_tree)"
  proof -
    have "ir_listen ?r = 443" by (simp add: ed_stamped_def ed_route_def)
    then have "?srv \<in> set (http_servers ?np)" using r by (auto simp: http_servers_def Let_def intro!: image_eqI [of _ _ ?r])
    moreover have "np_terminate ?np \<noteq> []" using r by (metis empty_iff list.set(1))
    ultimately show ?thesis unfolding ed_tree_def top_contexts by (simp add: httpBlock_def)
  qed
  moreover have "holds_certificate ?srv" by (simp add: holds_certificate_def terminateServer_def acme_dirs_def)
  moreover have "''api.svc.prd.ex.io'' \<in> set (server_names ?srv)"
    by (simp add: server_names_def terminateServer_def ed_stamped_def ed_route_def)
  moreover have "InZone ''api.svc.prd.ex.io'' ''ex.io''" by code_simp
  ultimately show ?thesis
    using edge_certificates_resolve [OF ed_planned ed_rendered ed_created, of ?srv "''api.svc.prd.ex.io''"] by auto
qed

end
