(* ===== verification/Dsl.thy ===== *)
theory Dsl
  imports Types Ports
begin

text \<open>
  Grants (\<open>internal/grant\<close>): permissions, the fields a resource publishes, \<open>Grant\<close> of a database and
  of a certificate resource, and the template language of a grant's outputs
  (\<open>ParseTemplate\<close>, \<open>Fields\<close>, \<open>HasLiteral\<close>, \<open>Interpolate\<close>).
\<close>

subsection \<open>Permissions\<close>

definition PermissionRO :: string where "PermissionRO = ''ro''"
definition PermissionRW :: string where "PermissionRW = ''rw''"

definition Permission_Valid :: "string \<Rightarrow> bool" where
  "Permission_Valid p \<longleftrightarrow> p = PermissionRO \<or> p = PermissionRW"

subsection \<open>Grantable resources\<close>

datatype grantable = Database | PKIResource

definition grant_For :: "string \<Rightarrow> grantable option" where
  "grant_For rtype =
     (if rtype = ''database'' then Some Database
      else if rtype = ''pki'' then Some PKIResource
      else None)"

definition FieldCert :: string where "FieldCert = ''CERT''"
definition FieldKey :: string where "FieldKey = ''KEY''"

definition dbValueFields :: "string list" where
  "dbValueFields = [''USER'', ''PASSWORD'', ''HOST'', ''PORT'', ''DBNAME'', ''URL'']"

text \<open>The value fields and the file fields.\<close>

definition FieldNames :: "grantable \<Rightarrow> string \<Rightarrow> string list \<times> string list" where
  "FieldNames g perm =
     (case g of
        Database \<Rightarrow> (dbValueFields, [])
      | PKIResource \<Rightarrow>
          if perm = PermissionRO then ([], [FieldCert])
          else if perm = PermissionRW then ([], [FieldCert, FieldKey])
          else ([], []))"

definition ascii_lower :: "char \<Rightarrow> char" where
  "ascii_lower c =
     (let n = of_char c :: nat in if 65 \<le> n \<and> n \<le> 90 then char_of (n + 32) else c)"

definition FileKey :: "string \<Rightarrow> string \<Rightarrow> string" where
  "FileKey pkiName field =
     ''pki'' @ ''/'' @ pkiName @ ''/'' @ map ascii_lower field @ ''.pem''"

datatype grant_err =
    NoProvisioner
  | InvalidPermission string
  | UnknownPermission string string
  | NoMaterial string string string
  | ProvisionFailed string

record role_fields =
  rf_user :: string
  rf_password :: string
  rf_host :: string
  rf_port :: string
  rf_dbname :: string
  rf_url :: string

text \<open>
  \<open>Database.Grant\<close>; the role provisioner is the deploy-side collaborator, a partial function
  from role and permission to its outputs (\<open>None\<close> for the provisioner itself when absent).
\<close>

definition Database_Grant ::
  "(string \<Rightarrow> string \<Rightarrow> string + role_fields) option \<Rightarrow> string \<Rightarrow> string
     \<Rightarrow> grant_err + (string \<times> string) list" where
  "Database_Grant prov role perm =
     (case prov of
        None \<Rightarrow> Inl NoProvisioner
      | Some provision \<Rightarrow>
          if \<not> Permission_Valid perm then Inl (InvalidPermission perm)
          else (case provision role perm of
                  Inl e \<Rightarrow> Inl (ProvisionFailed e)
                | Inr f \<Rightarrow> Inr [(''USER'', rf_user f), (''PASSWORD'', rf_password f),
                    (''HOST'', rf_host f), (''PORT'', rf_port f), (''DBNAME'', rf_dbname f),
                    (''URL'', rf_url f)]))"

text \<open>The PEM material of each published field, or the first field that has none.\<close>

fun pki_material :: "string \<Rightarrow> string \<Rightarrow> (string \<Rightarrow> string) \<Rightarrow> string list
    \<Rightarrow> grant_err + (string \<times> string) list" where
  "pki_material service perm material [] = Inr []"
| "pki_material service perm material (n # ns) =
     (if material n = [] then Inl (NoMaterial service n perm)
      else case pki_material service perm material ns of
             Inl e \<Rightarrow> Inl e
           | Inr fs \<Rightarrow> Inr ((n, material n) # fs))"

definition PKIResource_Grant ::
  "string \<Rightarrow> string \<Rightarrow> string \<Rightarrow> string \<Rightarrow> grant_err + (string \<times> string) list" where
  "PKIResource_Grant cert key service perm =
     (let names = snd (FieldNames PKIResource perm) in
      if names = [] then Inl (UnknownPermission service perm)
      else pki_material service perm
        (\<lambda>f. if f = FieldCert then cert else if f = FieldKey then key else []) names)"

subsection \<open>Output templates\<close>

record tseg =
  seg_literal :: string
  seg_field :: string

datatype template_err =
    UnbalancedOpen string
  | InvalidPlaceholder string string
  | UnbalancedClose string

definition is_alpha_us :: "char \<Rightarrow> bool" where
  "is_alpha_us c =
     (let n = of_char c :: nat in (65 \<le> n \<and> n \<le> 90) \<or> (97 \<le> n \<and> n \<le> 122) \<or> n = 95)"

definition is_digit :: "char \<Rightarrow> bool" where
  "is_digit c = (let n = of_char c :: nat in 48 \<le> n \<and> n \<le> 57)"

text \<open>The expression \<open>^[A-Za-z_][A-Za-z0-9_]*$\<close>.\<close>

fun fieldNameRE :: "string \<Rightarrow> bool" where
  "fieldNameRE [] = False"
| "fieldNameRE (c # cs) = (is_alpha_us c \<and> list_all (\<lambda>x. is_alpha_us x \<or> is_digit x) cs)"

definition flush_lit :: "string \<Rightarrow> tseg list" where
  "flush_lit lit = (if lit = [] then [] else [\<lparr>seg_literal = lit, seg_field = []\<rparr>])"

text \<open>\<open>lit\<close> is the builder of the pending literal, \<open>whole\<close> the template for the messages.\<close>

function parse_segs :: "string \<Rightarrow> string \<Rightarrow> string \<Rightarrow> template_err + tseg list" where
  "parse_segs whole lit [] = Inr (flush_lit lit)"
| "parse_segs whole lit (c # s) =
     (if c = CHR ''{'' then
        (case cut_at CHR ''}'' s of
           None \<Rightarrow> Inl (UnbalancedOpen whole)
         | Some (name, rest) \<Rightarrow>
             if \<not> fieldNameRE name then Inl (InvalidPlaceholder name whole)
             else (case parse_segs whole [] rest of
                     Inl e \<Rightarrow> Inl e
                   | Inr segs \<Rightarrow>
                       Inr (flush_lit lit @ \<lparr>seg_literal = [], seg_field = name\<rparr> # segs)))
      else if c = CHR ''}'' then Inl (UnbalancedClose whole)
      else parse_segs whole (lit @ [c]) s)"
  by pat_completeness auto
termination
  by (relation "measure (\<lambda>(w, l, s). length s)") (auto dest!: cut_at_Some)

definition ParseTemplate :: "string \<Rightarrow> template_err + tseg list" where
  "ParseTemplate s = parse_segs s [] s"

definition template_Fields :: "tseg list \<Rightarrow> string list" where
  "template_Fields t = filter (\<lambda>f. f \<noteq> []) (map seg_field t)"

definition HasLiteral :: "tseg list \<Rightarrow> bool" where
  "HasLiteral t \<longleftrightarrow> list_ex (\<lambda>s. seg_literal s \<noteq> []) t"

text \<open>\<open>Inl f\<close>: no value for field \<open>f\<close>.\<close>

fun Interpolate :: "tseg list \<Rightarrow> (string \<rightharpoonup> string) \<Rightarrow> string + string" where
  "Interpolate [] values = Inr []"
| "Interpolate (s # t) values =
     (if seg_field s = [] then map_sum id (\<lambda>r. seg_literal s @ r) (Interpolate t values)
      else case values (seg_field s) of
             None \<Rightarrow> Inl (seg_field s)
           | Some v \<Rightarrow> map_sum id (\<lambda>r. v @ r) (Interpolate t values))"

text \<open>The source text of a parsed template.\<close>

definition render_seg :: "tseg \<Rightarrow> string" where
  "render_seg s = (if seg_field s = [] then seg_literal s else ''{'' @ seg_field s @ ''}'')"

definition seg_wf :: "tseg \<Rightarrow> bool" where
  "seg_wf s \<longleftrightarrow> (seg_field s = [] \<and> seg_literal s \<noteq> []
                   \<and> CHR ''{'' \<notin> set (seg_literal s) \<and> CHR ''}'' \<notin> set (seg_literal s))
              \<or> (seg_literal s = [] \<and> fieldNameRE (seg_field s))"

lemma render_field [simp]:
  "name \<noteq> [] \<Longrightarrow> render_seg \<lparr>seg_literal = [], seg_field = name\<rparr> = ''{'' @ name @ ''}''"
  by (simp add: render_seg_def)

lemma seg_wf_field [simp]:
  "seg_wf \<lparr>seg_literal = [], seg_field = name\<rparr> \<longleftrightarrow> fieldNameRE name"
  by (cases name) (simp_all add: seg_wf_def)

lemma flush_lit_render [simp]: "concat (map render_seg (flush_lit lit)) = lit"
  by (simp add: flush_lit_def render_seg_def)

lemma fieldNameRE_ne [simp]: "\<not> fieldNameRE []"
  by simp

lemma parse_segs_render:
  "parse_segs w lit s = Inr segs \<Longrightarrow> concat (map render_seg segs) = lit @ s"
proof (induction w lit s arbitrary: segs rule: parse_segs.induct)
  case (1 w lit)
  then show ?case by auto
next
  case (2 w lit c s)
  show ?case
  proof (cases "c = CHR ''{''")
    case True
    with "2.prems" obtain name rest segs' where
      n: "cut_at CHR ''}'' s = Some (name, rest)" "fieldNameRE name"
         "parse_segs w [] rest = Inr segs'"
         "segs = flush_lit lit @ \<lparr>seg_literal = [], seg_field = name\<rparr> # segs'"
      by (auto split: option.splits if_splits sum.splits)
    have "concat (map render_seg segs') = rest"
      using "2.IH"(1) [OF True n(1) refl _ n(3)] n(2) by simp
    moreover have "name \<noteq> []" using n(2) by auto
    ultimately show ?thesis
      using n True cut_at_Some [OF n(1)] by simp
  next
    case False
    with "2.prems" have "c \<noteq> CHR ''}''" "parse_segs w (lit @ [c]) s = Inr segs"
      by (auto split: if_splits)
    then show ?thesis using "2.IH"(2) False by simp
  qed
qed

lemma flush_lit_wf:
  "CHR ''{'' \<notin> set lit \<Longrightarrow> CHR ''}'' \<notin> set lit \<Longrightarrow> list_all seg_wf (flush_lit lit)"
  by (simp add: flush_lit_def seg_wf_def)

lemma parse_segs_wf:
  "parse_segs w lit s = Inr segs \<Longrightarrow> CHR ''{'' \<notin> set lit \<Longrightarrow> CHR ''}'' \<notin> set lit
   \<Longrightarrow> list_all seg_wf segs"
proof (induction w lit s arbitrary: segs rule: parse_segs.induct)
  case (1 w lit)
  then show ?case using flush_lit_wf by auto
next
  case (2 w lit c s)
  show ?case
  proof (cases "c = CHR ''{''")
    case True
    with "2.prems"(1) obtain name rest segs' where
      n: "cut_at CHR ''}'' s = Some (name, rest)" "fieldNameRE name"
         "parse_segs w [] rest = Inr segs'"
         "segs = flush_lit lit @ \<lparr>seg_literal = [], seg_field = name\<rparr> # segs'"
      by (auto split: option.splits if_splits sum.splits)
    have "list_all seg_wf segs'"
      using "2.IH"(1) [OF True n(1) refl _ n(3)] n(2) by simp
    then show ?thesis
      using n flush_lit_wf "2.prems"(2,3) by simp
  next
    case False
    with "2.prems"(1) have c: "c \<noteq> CHR ''}''" "parse_segs w (lit @ [c]) s = Inr segs"
      by (auto split: if_splits)
    show ?thesis
      by (rule "2.IH"(2) [OF False c]) (use "2.prems"(2,3) False c(1) in auto)
  qed
qed

text \<open>A template is printed back as it was written.\<close>

lemma ParseTemplate_render: "ParseTemplate s = Inr t \<Longrightarrow> concat (map render_seg t) = s"
  by (auto simp: ParseTemplate_def dest!: parse_segs_render)

lemma ParseTemplate_wf: "ParseTemplate s = Inr t \<Longrightarrow> list_all seg_wf t"
  by (auto simp: ParseTemplate_def intro: parse_segs_wf)

lemma template_Fields_wf:
  "list_all seg_wf t \<Longrightarrow> f \<in> set (template_Fields t) \<Longrightarrow> fieldNameRE f"
  by (auto simp: template_Fields_def list_all_iff seg_wf_def)

text \<open>Interpolation fails exactly when a referenced field has no value.\<close>

lemma Interpolate_ok_iff:
  "is_ok (Interpolate t vs) \<longleftrightarrow> set (template_Fields t) \<subseteq> dom vs"
proof (induction t)
  case Nil
  show ?case by (simp add: template_Fields_def)
next
  case (Cons s t)
  then show ?case
    by (cases "Interpolate t vs")
       (auto simp: template_Fields_def is_ok_def split: option.splits)
qed

lemma Interpolate_value:
  "Interpolate t vs = Inr r \<Longrightarrow>
   r = concat (map (\<lambda>s. if seg_field s = [] then seg_literal s else the (vs (seg_field s))) t)"
proof (induction t arbitrary: r)
  case Nil
  then show ?case by simp
next
  case (Cons s t)
  then show ?case
    by (cases "Interpolate t vs") (auto split: option.splits if_splits)
qed

text \<open>A template without literals and with one field is that field alone.\<close>

lemma single_field_template:
  assumes "list_all seg_wf t" "\<not> HasLiteral t" "length (template_Fields t) = 1"
  shows "t = [\<lparr>seg_literal = [], seg_field = hd (template_Fields t)\<rparr>]"
proof -
  have all: "\<forall>s\<in>set t. seg_literal s = [] \<and> fieldNameRE (seg_field s)"
    using assms(1,2) by (auto simp: list_all_iff HasLiteral_def list_ex_iff seg_wf_def)
  then have "template_Fields t = map seg_field t"
    by (auto simp: template_Fields_def filter_id_conv)
  with assms(3) obtain s where "t = [s]" "template_Fields t = [seg_field s]"
    by (cases t) auto
  then show ?thesis using all by simp
qed

end
