(* ===== verification/Sources.thy ===== *)
theory Sources
  imports Dsl
begin

text \<open>
  References and keys of the YAML files (\<open>internal/yamldoc/dsl.go\<close>, \<open>env.go\<close>), the resolver chain
  (\<open>internal/yamldoc/yamldoc.go\<close>), the sources of a service environment
  (\<open>internal/validate/source.go\<close>) and the normalisation done by the loader
  (\<open>internal/loader/loader.go\<close>).
\<close>

subsection \<open>White space\<close>

text \<open>The UTF-8 encodings of the code points that \<open>unicode.IsSpace\<close> accepts.\<close>

definition space_encodings :: "string list" where
  "space_encodings =
     map (map char_of) ([[9], [10], [11], [12], [13], [32], [0xC2, 0x85], [0xC2, 0xA0],
       [0xE1, 0x9A, 0x80], [0xE2, 0x80, 0xA8], [0xE2, 0x80, 0xA9], [0xE2, 0x80, 0xAF],
       [0xE2, 0x81, 0x9F], [0xE3, 0x80, 0x80],
       [0xE2, 0x80, 0x80], [0xE2, 0x80, 0x81], [0xE2, 0x80, 0x82], [0xE2, 0x80, 0x83],
       [0xE2, 0x80, 0x84], [0xE2, 0x80, 0x85], [0xE2, 0x80, 0x86], [0xE2, 0x80, 0x87],
       [0xE2, 0x80, 0x88], [0xE2, 0x80, 0x89], [0xE2, 0x80, 0x8A]] :: nat list list)"

fun strip_front :: "string list \<Rightarrow> nat \<Rightarrow> string \<Rightarrow> string" where
  "strip_front ws 0 s = s"
| "strip_front ws (Suc n) s =
     (case find (\<lambda>w. prefix w s) ws of
        None \<Rightarrow> s
      | Some w \<Rightarrow> strip_front ws n (drop (length w) s))"

definition trim_left :: "string \<Rightarrow> string" where
  "trim_left s = strip_front space_encodings (length s) s"

definition trim_right :: "string \<Rightarrow> string" where
  "trim_right s = rev (strip_front (map rev space_encodings) (length s) (rev s))"

definition TrimSpace :: "string \<Rightarrow> string" where
  "TrimSpace s = trim_right (trim_left s)"

subsection \<open>References and keys\<close>

definition RefScheme :: string where "RefScheme = ''ref:''"
definition EnvScheme :: string where "EnvScheme = ''env:''"
definition VaultScheme :: string where "VaultScheme = ''vault:''"

datatype source_err =
    BadRef string
  | EmptyKey string string
  | MissingEnv string

record ref_parts =
  ref_Type :: string
  ref_Name :: string
  ref_Output :: string

definition is_lower :: "char \<Rightarrow> bool" where
  "is_lower c = (let n = of_char c :: nat in 97 \<le> n \<and> n \<le> 122)"

text \<open>Cut at the last occurrence of a byte.\<close>

definition cut_last :: "char \<Rightarrow> string \<Rightarrow> (string \<times> string) option" where
  "cut_last c s = map_option (\<lambda>(a, b). (rev b, rev a)) (cut_at c (rev s))"

text \<open>
  The submatches of \<open>^ref:([a-z]+)/(.+)\.([^.]+)$\<close>: the first group ends at the first slash, the
  second (which a newline cannot be part of) at the last dot.
\<close>

definition refPattern :: "string \<Rightarrow> ref_parts option" where
  "refPattern raw =
     (if \<not> prefix RefScheme raw then None
      else case cut_at CHR ''/'' (drop (length RefScheme) raw) of
             None \<Rightarrow> None
           | Some (t, rest) \<Rightarrow>
               if t = [] \<or> \<not> list_all is_lower t then None
               else (case cut_last CHR ''.'' rest of
                       None \<Rightarrow> None
                     | Some (n, out) \<Rightarrow>
                         if n = [] \<or> CHR ''\<newline>'' \<in> set n \<or> out = [] then None
                         else Some \<lparr>ref_Type = t, ref_Name = n, ref_Output = out\<rparr>))"

text \<open>\<open>None\<close>: the text has another scheme.\<close>

definition ParseRef :: "string \<Rightarrow> (source_err + ref_parts) option" where
  "ParseRef raw =
     (if \<not> prefix RefScheme raw then None
      else case refPattern raw of
             None \<Rightarrow> Some (Inl (BadRef raw))
           | Some r \<Rightarrow> Some (Inr r))"

definition ParseKey :: "string \<Rightarrow> string \<Rightarrow> (source_err + string) option" where
  "ParseKey scheme raw =
     (if \<not> prefix scheme raw then None
      else let v = TrimSpace (drop (length scheme) raw) in
           if v = [] then Some (Inl (EmptyKey raw scheme)) else Some (Inr v))"

definition EnvResolver_Resolve :: "(string \<rightharpoonup> string) \<Rightarrow> string \<Rightarrow> source_err + string" where
  "EnvResolver_Resolve lookup raw =
     (let (key, err) = (case ParseKey EnvScheme raw of
                          None \<Rightarrow> ([], None)
                        | Some (Inl e) \<Rightarrow> ([], Some e)
                        | Some (Inr k) \<Rightarrow> (k, None)) in
      case err of
        Some e \<Rightarrow> Inl e
      | None \<Rightarrow> (case lookup key of
                  Some v \<Rightarrow> if v = [] then Inl (MissingEnv key) else Inr v
                | None \<Rightarrow> Inl (MissingEnv key)))"

subsection \<open>The resolver chain\<close>

record 'v resolver =
  rsv_Name :: string
  rsv_Matches :: "string \<Rightarrow> bool"
  rsv_Resolve :: "string \<Rightarrow> source_err + 'v"

definition EnvResolver :: "(string \<rightharpoonup> string) \<Rightarrow> string resolver" where
  "EnvResolver lookup =
     \<lparr>rsv_Name = ''env'', rsv_Matches = (\<lambda>raw. prefix EnvScheme raw),
      rsv_Resolve = EnvResolver_Resolve lookup\<rparr>"

definition Chain_Claim :: "'v resolver list \<Rightarrow> string \<Rightarrow> 'v resolver option" where
  "Chain_Claim c raw = find (\<lambda>r. rsv_Matches r raw) c"

text \<open>\<open>None\<close>: no resolver claims the text; an error carries the resolver's name.\<close>

definition Chain_Resolve ::
  "'v resolver list \<Rightarrow> string \<Rightarrow> (string \<times> source_err + 'v) option" where
  "Chain_Resolve c raw =
     (case Chain_Claim c raw of
        None \<Rightarrow> None
      | Some r \<Rightarrow> (case rsv_Resolve r raw of
                    Inl e \<Rightarrow> Some (Inl (rsv_Name r, e))
                  | Inr v \<Rightarrow> Some (Inr v)))"

definition Scalar_Resolve :: "string resolver list \<Rightarrow> string \<Rightarrow> string \<times> source_err + string" where
  "Scalar_Resolve chain raw =
     (case Chain_Resolve chain raw of None \<Rightarrow> Inr raw | Some r \<Rightarrow> r)"

subsection \<open>Sources of a service environment\<close>

datatype source =
    SourceRef string string string
  | SourceEnv string
  | SourceVault string
  | SourceLiteral string

definition ParseSource :: "string \<Rightarrow> source_err + source" where
  "ParseSource s =
     (case ParseRef s of
        Some (Inl e) \<Rightarrow> Inl e
      | Some (Inr r) \<Rightarrow> Inr (SourceRef (ref_Type r) (ref_Name r) (ref_Output r))
      | None \<Rightarrow>
     (case ParseKey VaultScheme s of
        Some (Inl e) \<Rightarrow> Inl e
      | Some (Inr k) \<Rightarrow> Inr (SourceVault k)
      | None \<Rightarrow>
     (case ParseKey EnvScheme s of
        Some (Inl e) \<Rightarrow> Inl e
      | Some (Inr k) \<Rightarrow> Inr (SourceEnv k)
      | None \<Rightarrow> Inr (SourceLiteral s))))"

subsection \<open>Normalisation\<close>

definition trimAll :: "string list \<Rightarrow> string list" where
  "trimAll ss = map TrimSpace ss"

text \<open>
  \<open>resolve\<close> is \<open>filepath.Abs\<close> of \<open>filepath.Join\<close> with the compute's folder; a path is absolute when
  it begins with a slash.
\<close>

definition NormalizeCompute :: "(string \<Rightarrow> string) \<Rightarrow> compute_spec \<Rightarrow> compute_spec" where
  "NormalizeCompute resolve c =
     c\<lparr>cmp_kind := (if cmp_kind c = [] then ''vm'' else cmp_kind c),
       cmp_instances := (if cmp_instances c = 0 then 1 else cmp_instances c),
       cmp_cloud_init := (if cmp_cloud_init c \<noteq> [] \<and> \<not> prefix ''/'' (cmp_cloud_init c)
                          then resolve (cmp_cloud_init c) else cmp_cloud_init c)\<rparr>"

definition NormalizeDatabaseCluster :: "cluster_spec \<Rightarrow> cluster_spec" where
  "NormalizeDatabaseCluster d =
     \<lparr>cl_name = TrimSpace (cl_name d), cl_container = TrimSpace (cl_container d),
      cl_engine = TrimSpace (cl_engine d), cl_host = TrimSpace (cl_host d),
      cl_provider = TrimSpace (cl_provider d),
      cl_version = (let v = TrimSpace (cl_version d) in
                    if v = [] then DefaultVersion else v)\<rparr>"

definition NormalizeDatabase :: "database_spec \<Rightarrow> database_spec" where
  "NormalizeDatabase d =
     d\<lparr>db_name := TrimSpace (db_name d), db_container := TrimSpace (db_container d),
       db_cluster := TrimSpace (db_cluster d), db_database := TrimSpace (db_database d),
       db_owner := TrimSpace (db_owner d),
       db_backup :=
         \<lparr>bk_enabled = (case bk_enabled (db_backup d) of None \<Rightarrow> Some True | Some b \<Rightarrow> Some b),
          bk_interval = (if bk_interval (db_backup d) = [] then ''24h''
                         else bk_interval (db_backup d)),
          bk_keep = (if bk_keep (db_backup d) = 0 then 7 else bk_keep (db_backup d))\<rparr>\<rparr>"

definition NormalizeService :: "service_spec \<Rightarrow> service_spec" where
  "NormalizeService s =
     s\<lparr>svc_type := (if svc_type s = [] then ''raw'' else svc_type s),
       svc_pki := TrimSpace (svc_pki s), svc_reload := TrimSpace (svc_reload s),
       svc_ingress := TrimSpace (svc_ingress s),
       svc_health_paths := trimAll (svc_health_paths s),
       svc_mesh := map_option (\<lambda>m.
         m\<lparr>mesh_allowed := trimAll (mesh_allowed m), mesh_public := trimAll (mesh_public m),
           mesh_internal := trimAll (mesh_internal m)\<rparr>) (svc_mesh s)\<rparr>"

definition NormalizeGateway :: "gateway_spec \<Rightarrow> gateway_spec" where
  "NormalizeGateway g =
     g\<lparr>gw_name := TrimSpace (gw_name g), gw_container := TrimSpace (gw_container g),
       gw_host := TrimSpace (gw_host g), gw_ingress := TrimSpace (gw_ingress g),
       gw_pki := TrimSpace (gw_pki g), gw_subdomain := TrimSpace (gw_subdomain g),
       gw_services := trimAll (gw_services g), gw_health_paths := trimAll (gw_health_paths g),
       gw_health_port := gateway_health_port g\<rparr>"

definition NormalizeIngress :: "ingress_spec \<Rightarrow> ingress_spec" where
  "NormalizeIngress i =
     i\<lparr>ing_name := TrimSpace (ing_name i), ing_container := TrimSpace (ing_container i),
       ing_host := TrimSpace (ing_host i), ing_health_port := ingress_health_port i\<rparr>"

definition NormalizeApp :: "app_spec \<Rightarrow> app_spec" where
  "NormalizeApp a =
     a\<lparr>app_name := TrimSpace (app_name a), app_container := TrimSpace (app_container a),
       app_ingress := TrimSpace (app_ingress a), app_subdomain := TrimSpace (app_subdomain a)\<rparr>"

definition NormalizePKIResource :: "pki_resource_spec \<Rightarrow> pki_resource_spec" where
  "NormalizePKIResource p = p\<lparr>pkr_topology := TrimSpace (pkr_topology p)\<rparr>"

subsection \<open>Lemmas on white space\<close>

definition starts_with_any :: "string list \<Rightarrow> string \<Rightarrow> bool" where
  "starts_with_any ws s \<longleftrightarrow> (\<exists>w\<in>set ws. prefix w s)"

lemma strip_front_suffix: "suffix (strip_front ws n s) s"
proof (induction n arbitrary: s)
  case 0
  show ?case by simp
next
  case (Suc n)
  then show ?case
    by (auto split: option.splits intro: suffix_order.trans suffix_drop)
qed

lemma strip_front_done:
  "[] \<notin> set ws \<Longrightarrow> length s \<le> n \<Longrightarrow> \<not> starts_with_any ws (strip_front ws n s)"
proof (induction n arbitrary: s)
  case 0
  then show ?case by (auto simp: starts_with_any_def)
next
  case (Suc n)
  show ?case
  proof (cases "find (\<lambda>w. prefix w s) ws")
    case None
    then have "\<not> starts_with_any ws s" by (auto simp: find_None_iff starts_with_any_def)
    then show ?thesis using None by simp
  next
    case (Some w)
    then have w: "w \<in> set ws" "prefix w s" by (auto simp: find_Some_iff)
    with Suc.prems(1) have "w \<noteq> []" by auto
    then have "length (drop (length w) s) \<le> n"
      using w Suc.prems(2) by (cases w) (auto simp: prefix_def)
    then show ?thesis using Suc.IH [OF Suc.prems(1)] Some by simp
  qed
qed

lemma strip_front_id: "\<not> starts_with_any ws s \<Longrightarrow> strip_front ws n s = s"
  by (cases n) (auto simp: starts_with_any_def find_None_iff split: option.splits
    dest!: find_Some_iff [THEN iffD1])

lemma space_encodings_ne [simp]: "[] \<notin> set space_encodings"
  by (simp add: space_encodings_def)

lemma space_encodings_rev_ne [simp]: "[] \<notin> rev ` set space_encodings"
  by (auto simp: image_iff)

definition edge_free :: "string \<Rightarrow> bool" where
  "edge_free s \<longleftrightarrow> \<not> starts_with_any space_encodings s
                   \<and> \<not> starts_with_any (map rev space_encodings) (rev s)"

lemma TrimSpace_edge_free: "edge_free (TrimSpace s)"
proof -
  let ?l = "trim_left s"
  let ?r = "strip_front (map rev space_encodings) (length ?l) (rev ?l)"
  have l: "\<not> starts_with_any space_encodings ?l"
    by (simp add: trim_left_def strip_front_done)
  have "suffix ?r (rev ?l)" by (rule strip_front_suffix)
  then have p: "prefix (rev ?r) ?l" by (simp add: suffix_to_prefix)
  have "\<not> starts_with_any space_encodings (rev ?r)"
    using l p by (auto simp: starts_with_any_def dest: prefix_order.trans)
  moreover have "\<not> starts_with_any (map rev space_encodings) ?r"
    by (rule strip_front_done) simp_all
  ultimately show ?thesis by (simp add: edge_free_def TrimSpace_def trim_right_def)
qed

lemma TrimSpace_id: "edge_free s \<Longrightarrow> TrimSpace s = s"
  by (simp add: edge_free_def TrimSpace_def trim_left_def trim_right_def strip_front_id)

text \<open>A string that begins and ends with a graphic ASCII character is left alone.\<close>

definition graphic :: "char \<Rightarrow> bool" where
  "graphic c \<longleftrightarrow> 33 \<le> (of_char c :: nat) \<and> (of_char c :: nat) \<le> 126"

lemma space_edges_not_graphic:
  "w \<in> set space_encodings \<Longrightarrow> \<not> graphic (hd w) \<and> \<not> graphic (last w)"
  by (auto simp: space_encodings_def graphic_def)

lemma not_starts_graphic:
  assumes "\<And>w. w \<in> set ws \<Longrightarrow> w \<noteq> [] \<and> \<not> graphic (hd w)" and "graphic (hd s)"
  shows "\<not> starts_with_any ws s"
proof
  assume "starts_with_any ws s"
  then obtain w where "w \<in> set ws" "prefix w s" by (auto simp: starts_with_any_def)
  then show False using assms(1) [of w] assms(2) by (cases w) (auto simp: prefix_def)
qed

lemma TrimSpace_graphic:
  assumes "s = [] \<or> graphic (hd s) \<and> graphic (last s)"
  shows "TrimSpace s = s"
proof (rule TrimSpace_id)
  have ne: "w \<noteq> []" if "w \<in> set space_encodings" for w
    using that space_encodings_ne by metis
  show "edge_free s"
  proof (cases "s = []")
    case True
    then show ?thesis using ne by (auto simp: edge_free_def starts_with_any_def)
  next
    case False
    then have g: "graphic (hd s)" "graphic (hd (rev s))" using assms by (auto simp: hd_rev)
    have "\<not> starts_with_any space_encodings s"
      by (rule not_starts_graphic [OF _ g(1)]) (use ne space_edges_not_graphic in blast)
    moreover have "\<not> starts_with_any (map rev space_encodings) (rev s)"
      by (rule not_starts_graphic [OF _ g(2)]) (use ne space_edges_not_graphic in \<open>auto simp: hd_rev\<close>)
    ultimately show ?thesis by (simp add: edge_free_def)
  qed
qed

lemma TrimSpace_code [code]:
  "TrimSpace s = (if s = [] \<or> graphic (hd s) \<and> graphic (last s) then s else trim_right (trim_left s))"
  using TrimSpace_graphic [of s] by (auto simp: TrimSpace_def)

lemma TrimSpace_idem [simp]: "TrimSpace (TrimSpace s) = TrimSpace s"
  by (simp add: TrimSpace_id TrimSpace_edge_free)

lemma TrimSpace_sublist: "sublist (TrimSpace s) s"
proof -
  have "suffix (trim_left s) s" by (simp add: trim_left_def strip_front_suffix)
  moreover have "prefix (trim_right (trim_left s)) (trim_left s)"
    by (metis rev_rev_ident strip_front_suffix suffix_to_prefix trim_right_def)
  ultimately show ?thesis
    by (metis TrimSpace_def prefix_imp_sublist sublist_order.order_trans suffix_imp_sublist)
qed

lemma TrimSpace_DefaultVersion [simp]: "TrimSpace DefaultVersion = DefaultVersion"
  by code_simp

lemma trimAll_idem [simp]: "trimAll (trimAll ss) = trimAll ss"
  by (simp add: trimAll_def)

text \<open>Normalisation is idempotent, so a spec may be normalised again without effect.\<close>

lemma Normalize_idem:
  "NormalizeDatabaseCluster (NormalizeDatabaseCluster d) = NormalizeDatabaseCluster d"
  "NormalizeDatabase (NormalizeDatabase db) = NormalizeDatabase db"
  "NormalizeService (NormalizeService s) = NormalizeService s"
  "NormalizeGateway (NormalizeGateway g) = NormalizeGateway g"
  "NormalizeIngress (NormalizeIngress i) = NormalizeIngress i"
  "NormalizeApp (NormalizeApp a) = NormalizeApp a"
  "NormalizePKIResource (NormalizePKIResource p) = NormalizePKIResource p"
  by (simp_all add: NormalizeDatabaseCluster_def NormalizeDatabase_def NormalizeService_def
      NormalizeGateway_def NormalizeIngress_def NormalizeApp_def NormalizePKIResource_def
      Let_def gateway_health_port_def ingress_health_port_def
      DefaultHealthProbesPort_def option.map_comp o_def split: option.splits)

subsection \<open>Lemmas on references\<close>

lemma cut_last_Some: "cut_last c s = Some (a, b) \<Longrightarrow> s = a @ c # b \<and> c \<notin> set b"
proof -
  assume "cut_last c s = Some (a, b)"
  then have "cut_at c (rev s) = Some (rev b, rev a)" by (auto simp: cut_last_def)
  from cut_at_Some [OF this] have "rev s = rev b @ c # rev a" "c \<notin> set b" by auto
  then have "s = rev (rev b @ c # rev a)" by (metis rev_rev_ident)
  then show "s = a @ c # b \<and> c \<notin> set b" using \<open>c \<notin> set b\<close> by simp
qed

lemma cut_last_append: "c \<notin> set b \<Longrightarrow> cut_last c (a @ c # b) = Some (a, b)"
  by (simp add: cut_last_def cut_at_append)

lemma lower_no_slash: "list_all is_lower t \<Longrightarrow> CHR ''/'' \<notin> set t"
  by (auto simp: list_all_iff is_lower_def)

definition ref_wf :: "ref_parts \<Rightarrow> bool" where
  "ref_wf r \<longleftrightarrow> ref_Type r \<noteq> [] \<and> list_all is_lower (ref_Type r)
     \<and> ref_Name r \<noteq> [] \<and> CHR ''\<newline>'' \<notin> set (ref_Name r)
     \<and> ref_Output r \<noteq> [] \<and> CHR ''.'' \<notin> set (ref_Output r)"

definition ref_text :: "ref_parts \<Rightarrow> string" where
  "ref_text r = RefScheme @ ref_Type r @ ''/'' @ ref_Name r @ ''.'' @ ref_Output r"

lemma refPattern_text:
  assumes "ref_wf r" shows "refPattern (ref_text r) = Some r"
proof -
  have "cut_at CHR ''/'' (ref_Type r @ CHR ''/'' # ref_Name r @ CHR ''.'' # ref_Output r)
        = Some (ref_Type r, ref_Name r @ CHR ''.'' # ref_Output r)"
    using assms by (intro cut_at_append lower_no_slash) (simp add: ref_wf_def)
  moreover have "cut_last CHR ''.'' (ref_Name r @ CHR ''.'' # ref_Output r)
        = Some (ref_Name r, ref_Output r)"
    using assms by (intro cut_last_append) (simp add: ref_wf_def)
  ultimately show ?thesis
    using assms by (simp add: refPattern_def ref_text_def ref_wf_def)
qed

lemma refPattern_Some: "refPattern raw = Some r \<Longrightarrow> ref_wf r \<and> raw = ref_text r"
proof -
  assume a: "refPattern raw = Some r"
  then have p: "prefix RefScheme raw" by (auto simp: refPattern_def split: if_splits)
  with a obtain t rest n out where
    c: "cut_at CHR ''/'' (drop (length RefScheme) raw) = Some (t, rest)"
       "t \<noteq> []" "list_all is_lower t" "cut_last CHR ''.'' rest = Some (n, out)"
       "n \<noteq> []" "CHR ''\<newline>'' \<notin> set n" "out \<noteq> []"
       "r = \<lparr>ref_Type = t, ref_Name = n, ref_Output = out\<rparr>"
    by (auto simp: refPattern_def split: if_splits option.splits prod.splits)
  have "raw = RefScheme @ drop (length RefScheme) raw"
    using p by (auto simp: prefix_def)
  moreover note cut_at_Some [OF c(1)] cut_last_Some [OF c(4)]
  ultimately show "ref_wf r \<and> raw = ref_text r"
    using c by (simp add: ref_wf_def ref_text_def)
qed

text \<open>
  The reference grammar: the text is accepted exactly when it is the printed form of a
  well-formed reference, and it is then that reference.
\<close>

lemma refPattern_iff: "refPattern raw = Some r \<longleftrightarrow> ref_wf r \<and> raw = ref_text r"
  using refPattern_Some refPattern_text by blast

lemma ref_text_prefix: "prefix RefScheme (ref_text r)"
  by (simp add: ref_text_def)

lemma ParseKey_Inr: "ParseKey sch raw = Some (Inr k) \<Longrightarrow> k \<noteq> [] \<and> edge_free k \<and> prefix sch raw"
  by (auto simp: ParseKey_def Let_def TrimSpace_edge_free split: if_splits)

text \<open>The schemes exclude each other, so the order of the tests does not matter.\<close>

lemma schemes_disjoint:
  "prefix RefScheme s \<Longrightarrow> \<not> prefix VaultScheme s \<and> \<not> prefix EnvScheme s"
  "prefix VaultScheme s \<Longrightarrow> \<not> prefix RefScheme s \<and> \<not> prefix EnvScheme s"
  "prefix EnvScheme s \<Longrightarrow> \<not> prefix RefScheme s \<and> \<not> prefix VaultScheme s"
  by (auto simp: RefScheme_def VaultScheme_def EnvScheme_def prefix_def)

lemmas scheme_defs = RefScheme_def VaultScheme_def EnvScheme_def

lemma ParseSource_kind:
  "ParseSource s = Inr src \<Longrightarrow>
   (case src of
      SourceRef t n out \<Rightarrow> s = ref_text \<lparr>ref_Type = t, ref_Name = n, ref_Output = out\<rparr>
        \<and> ref_wf \<lparr>ref_Type = t, ref_Name = n, ref_Output = out\<rparr>
    | SourceVault k \<Rightarrow> prefix VaultScheme s \<and> k = TrimSpace (drop (length VaultScheme) s) \<and> k \<noteq> []
    | SourceEnv k \<Rightarrow> prefix EnvScheme s \<and> k = TrimSpace (drop (length EnvScheme) s) \<and> k \<noteq> []
    | SourceLiteral v \<Rightarrow> v = s \<and> \<not> prefix RefScheme s \<and> \<not> prefix VaultScheme s
        \<and> \<not> prefix EnvScheme s)"
proof -
  assume a: "ParseSource s = Inr src"
  consider "prefix RefScheme s" | "prefix VaultScheme s" | "prefix EnvScheme s"
    | "\<not> prefix RefScheme s" "\<not> prefix VaultScheme s" "\<not> prefix EnvScheme s" by blast
  then show ?thesis
  proof cases
    case 1
    with a obtain r where "refPattern s = Some r"
        "src = SourceRef (ref_Type r) (ref_Name r) (ref_Output r)"
      by (auto simp: ParseSource_def ParseRef_def split: option.splits)
    then show ?thesis by (cases r) (simp add: refPattern_iff)
  next
    case 2
    then show ?thesis using a schemes_disjoint(2) [OF 2]
      by (auto simp: ParseSource_def ParseRef_def ParseKey_def Let_def scheme_defs
          split: if_splits)
  next
    case 3
    then show ?thesis using a schemes_disjoint(3) [OF 3]
      by (auto simp: ParseSource_def ParseRef_def ParseKey_def Let_def scheme_defs
          split: if_splits)
  next
    case 4
    then show ?thesis using a by (auto simp: ParseSource_def ParseRef_def ParseKey_def)
  qed
qed

text \<open>The chain consults exactly the first resolver that claims the text.\<close>

lemma Chain_Claim_first:
  "Chain_Claim c raw = Some r \<longleftrightarrow>
     (\<exists>i<length c. c ! i = r \<and> rsv_Matches r raw \<and> (\<forall>j<i. \<not> rsv_Matches (c ! j) raw))"
  by (auto simp: Chain_Claim_def find_Some_iff)

lemma Scalar_Resolve_literal:
  "(\<And>r. r \<in> set c \<Longrightarrow> \<not> rsv_Matches r raw) \<Longrightarrow> Scalar_Resolve c raw = Inr raw"
  by (simp add: Scalar_Resolve_def Chain_Resolve_def Chain_Claim_def find_None_iff
      split: option.splits)
    (auto simp: find_None_iff find_Some_iff)

text \<open>A vault reference never resolves under an environment-only chain.\<close>

lemma vault_needs_resolver:
  "prefix VaultScheme raw \<Longrightarrow> Scalar_Resolve [EnvResolver lookup] raw = Inr raw"
  by (rule Scalar_Resolve_literal) (auto simp: EnvResolver_def dest: schemes_disjoint)

end
