(* ===== verification/Stores.thy ===== *)
theory Stores
  imports Sources "HOL-Library.AList"
begin

text \<open>
  Model of \<open>internal/secretstore/store.go\<close> and \<open>internal/pki/store.go\<close>: the two-level maps of the
  secret store behind the service and reserved accessors, the checks of the two \<open>Load\<close>
  functions on a decoded file, and the certificate store with its trust bundles.  A Go map is an
  association list with distinct keys (\<open>stored_wf\<close>); a nil map is the empty one.  Reading,
  writing and decoding the YAML files, and the age ciphertexts, are outside.
\<close>

subsection \<open>Two-level maps\<close>

type_synonym ns_map = "(string \<times> (string \<times> string) list) list"

definition ns_sub :: "ns_map \<Rightarrow> string \<Rightarrow> (string \<times> string) list" where
  "ns_sub m ns = (case map_of m ns of Some sub \<Rightarrow> sub | None \<Rightarrow> [])"

definition nsGet :: "ns_map \<Rightarrow> string \<Rightarrow> string \<Rightarrow> string option" where
  "nsGet m ns key = map_of (ns_sub m ns) key"

definition nsSet :: "ns_map \<Rightarrow> string \<Rightarrow> string \<Rightarrow> string \<Rightarrow> ns_map" where
  "nsSet m ns key ciphertext = AList.update ns (AList.update key ciphertext (ns_sub m ns)) m"

text \<open>Whether the entry existed, and the map with an emptied inner map pruned.\<close>

definition nsDelete :: "ns_map \<Rightarrow> string \<Rightarrow> string \<Rightarrow> bool \<times> ns_map" where
  "nsDelete m ns key =
     (case map_of m ns of
        None \<Rightarrow> (False, m)
      | Some sub \<Rightarrow>
          (case map_of sub key of
             None \<Rightarrow> (False, m)
           | Some _ \<Rightarrow>
               let sub' = AList.delete key sub in
               (True, if sub' = [] then AList.delete ns m else AList.update ns sub' m)))"

definition nsKeys :: "ns_map \<Rightarrow> string \<Rightarrow> string list" where
  "nsKeys m ns = sort (map fst (ns_sub m ns))"

subsection \<open>The secret store\<close>

record secret_store =
  st_recipient :: string
  st_services :: ns_map
  st_reserved :: ns_map
  st_containers :: ns_map

datatype load_err =
    NoRecipient
  | StillContainers "string list"
  | MissingRecipient
  | UnknownTopology string string

text \<open>The checks of \<open>Load\<close> on a decoded file.\<close>

definition secret_Load :: "secret_store \<Rightarrow> load_err + secret_store" where
  "secret_Load s =
     (if st_recipient s = [] then Inl NoRecipient
      else if st_containers s \<noteq> [] then Inl (StillContainers (sort (map fst (st_containers s))))
      else Inr s)"

definition store_Get :: "secret_store \<Rightarrow> string \<Rightarrow> string \<Rightarrow> string option" where
  "store_Get s service key = nsGet (st_services s) service key"

definition store_GetReserved :: "secret_store \<Rightarrow> string \<Rightarrow> string \<Rightarrow> string option" where
  "store_GetReserved s namespace key = nsGet (st_reserved s) namespace key"

definition store_Set :: "secret_store \<Rightarrow> string \<Rightarrow> string \<Rightarrow> string \<Rightarrow> secret_store" where
  "store_Set s service key c = s\<lparr>st_services := nsSet (st_services s) service key c\<rparr>"

definition store_SetReserved :: "secret_store \<Rightarrow> string \<Rightarrow> string \<Rightarrow> string \<Rightarrow> secret_store" where
  "store_SetReserved s namespace key c = s\<lparr>st_reserved := nsSet (st_reserved s) namespace key c\<rparr>"

definition store_Delete :: "secret_store \<Rightarrow> string \<Rightarrow> string \<Rightarrow> bool \<times> secret_store" where
  "store_Delete s service key =
     (case nsDelete (st_services s) service key of (b, m) \<Rightarrow> (b, s\<lparr>st_services := m\<rparr>))"

definition store_DeleteReserved :: "secret_store \<Rightarrow> string \<Rightarrow> string \<Rightarrow> bool \<times> secret_store" where
  "store_DeleteReserved s namespace key =
     (case nsDelete (st_reserved s) namespace key of (b, m) \<Rightarrow> (b, s\<lparr>st_reserved := m\<rparr>))"

definition store_Keys :: "secret_store \<Rightarrow> string \<Rightarrow> string list" where
  "store_Keys s service = nsKeys (st_services s) service"

definition store_ReservedKeys :: "secret_store \<Rightarrow> string \<Rightarrow> string list" where
  "store_ReservedKeys s namespace = nsKeys (st_reserved s) namespace"

subsection \<open>The invariant of a stored map\<close>

definition ns_wf :: "ns_map \<Rightarrow> bool" where
  "ns_wf m \<longleftrightarrow> distinct (map fst m)
     \<and> list_all (\<lambda>(ns, sub). sub \<noteq> [] \<and> distinct (map fst sub)) m"

definition stored_wf :: "secret_store \<Rightarrow> bool" where
  "stored_wf s \<longleftrightarrow> ns_wf (st_services s) \<and> ns_wf (st_reserved s)"

lemma ns_sub_update:
  "ns_sub (AList.update ns sub m) ns' = (if ns' = ns then sub else ns_sub m ns')"
  by (simp add: ns_sub_def update_conv')

lemma ns_sub_delete: "ns_sub (AList.delete ns m) ns' = (if ns' = ns then [] else ns_sub m ns')"
  by (simp add: ns_sub_def delete_conv')

lemma ns_sub_distinct: "ns_wf m \<Longrightarrow> distinct (map fst (ns_sub m ns))"
  by (auto simp: ns_wf_def ns_sub_def list_all_iff split: option.splits dest: map_of_SomeD)

lemma nsGet_nsSet:
  "nsGet (nsSet m ns k v) ns' k' = (if ns' = ns \<and> k' = k then Some v else nsGet m ns' k')"
  by (simp add: nsGet_def nsSet_def ns_sub_update update_conv')

lemma nsDelete_Some:
  assumes "nsGet m ns k = Some v"
  shows "nsDelete m ns k = (True, let sub' = AList.delete k (ns_sub m ns) in
           if sub' = [] then AList.delete ns m else AList.update ns sub' m)"
  using assms by (auto simp: nsDelete_def nsGet_def ns_sub_def Let_def split: option.splits)

lemma nsDelete_None: "nsGet m ns k = None \<Longrightarrow> nsDelete m ns k = (False, m)"
  by (auto simp: nsDelete_def nsGet_def ns_sub_def split: option.splits)

lemma nsDelete_found: "fst (nsDelete m ns k) \<longleftrightarrow> nsGet m ns k \<noteq> None"
  by (cases "nsGet m ns k") (simp_all add: nsDelete_None nsDelete_Some)

lemma nsGet_nsDelete:
  "nsGet (snd (nsDelete m ns k)) ns' k' = (if ns' = ns \<and> k' = k then None else nsGet m ns' k')"
proof (cases "nsGet m ns k")
  case None
  then show ?thesis by (auto simp: nsDelete_None)
next
  case (Some v)
  let ?sub = "AList.delete k (ns_sub m ns)"
  have e: "map_of ?sub k' = (if k' = k then None else map_of (ns_sub m ns) k')" for k'
    by (simp add: delete_conv')
  show ?thesis
  proof (cases "?sub = []")
    case True
    then have "map_of (ns_sub m ns) k' = None" if "k' \<noteq> k"
      using e [of k'] that by simp
    then show ?thesis using Some True
      by (simp add: nsDelete_Some nsGet_def ns_sub_delete)
  next
    case False
    then show ?thesis using Some e
      by (simp add: nsDelete_Some nsGet_def ns_sub_update Let_def)
  qed
qed

lemma set_update: "set (AList.update k v m) \<subseteq> insert (k, v) (set m)"
  by (induction m) auto

lemma AList_update_ne [simp]: "AList.update k v m \<noteq> []"
  by (cases m) auto

lemma list_all_update: "P (k, v) \<Longrightarrow> list_all P m \<Longrightarrow> list_all P (AList.update k v m)"
  using set_update [of k v m] by (auto simp: list_all_iff)

lemma list_all_delete: "list_all P m \<Longrightarrow> list_all P (AList.delete k m)"
  by (auto simp: list_all_iff AList.delete_eq)

lemma ns_wf_nsSet [wf_intros]: "ns_wf m \<Longrightarrow> ns_wf (nsSet m ns k v)"
  using ns_sub_distinct [of m ns]
  by (auto simp: ns_wf_def nsSet_def distinct_update intro: list_all_update)

lemma ns_wf_nsDelete [wf_intros]: "ns_wf m \<Longrightarrow> ns_wf (snd (nsDelete m ns k))"
  using ns_sub_distinct [of m ns]
  by (cases "nsGet m ns k")
     (auto simp: nsDelete_None nsDelete_Some Let_def ns_wf_def distinct_update distinct_delete
       intro: list_all_update list_all_delete)

lemma nsKeys_set: "set (nsKeys m ns) = {k. nsGet m ns k \<noteq> None}"
  by (auto simp: nsKeys_def nsGet_def map_of_eq_None_iff image_iff)

lemma nsKeys_sorted: "sorted (nsKeys m ns)"
  by (simp add: nsKeys_def)

lemma nsKeys_distinct: "ns_wf m \<Longrightarrow> distinct (nsKeys m ns)"
  by (simp add: nsKeys_def ns_sub_distinct)

text \<open>A pruned map keeps no namespace without a key.\<close>

lemma ns_wf_dom: "ns_wf m \<Longrightarrow> ns \<in> set (map fst m) \<longleftrightarrow> (\<exists>k. nsGet m ns k \<noteq> None)"
proof
  assume w: "ns_wf m" and "ns \<in> set (map fst m)"
  then obtain sub where s: "map_of m ns = Some sub"
    by (metis map_of_eq_None_iff not_None_eq set_map)
  then have "(ns, sub) \<in> set m" by (rule map_of_SomeD)
  with w have "sub \<noteq> []" by (auto simp: ns_wf_def list_all_iff)
  then obtain k v t where "sub = (k, v) # t" by (cases sub) auto
  then have "nsGet m ns k \<noteq> None" using s by (simp add: nsGet_def ns_sub_def)
  then show "\<exists>k. nsGet m ns k \<noteq> None" ..
next
  assume "\<exists>k. nsGet m ns k \<noteq> None"
  then have "map_of m ns \<noteq> None"
    by (auto simp: nsGet_def ns_sub_def split: option.splits)
  then show "ns \<in> set (map fst m)" by (auto simp: map_of_eq_None_iff)
qed

subsection \<open>The contract of a secret view\<close>

text \<open>
  What the commands and the deploy rely on, for either namespace: reads after writes and
  deletes, the deletion report, and the sorted key listing.
\<close>

locale secret_view =
  fixes look :: "'s \<Rightarrow> string \<Rightarrow> string \<Rightarrow> string option"
    and put :: "'s \<Rightarrow> string \<Rightarrow> string \<Rightarrow> string \<Rightarrow> 's"
    and del :: "'s \<Rightarrow> string \<Rightarrow> string \<Rightarrow> bool \<times> 's"
    and listing :: "'s \<Rightarrow> string \<Rightarrow> string list"
    and inv :: "'s \<Rightarrow> bool"
  assumes look_put: "look (put s n k v) n' k' = (if n' = n \<and> k' = k then Some v else look s n' k')"
    and look_del: "look (snd (del s n k)) n' k' = (if n' = n \<and> k' = k then None else look s n' k')"
    and del_found: "fst (del s n k) \<longleftrightarrow> look s n k \<noteq> None"
    and inv_put: "inv s \<Longrightarrow> inv (put s n k v)"
    and inv_del: "inv s \<Longrightarrow> inv (snd (del s n k))"
    and listing_set: "set (listing s n) = {k. look s n k \<noteq> None}"
    and listing_sorted: "sorted (listing s n)"
    and listing_distinct: "inv s \<Longrightarrow> distinct (listing s n)"
begin

text \<open>A listing is determined by what can be looked up, so equal views list equally.\<close>

lemma listing_cong:
  assumes "inv s" "inv t" "\<And>k. look s n k = look t n k"
  shows "listing s n = listing t n"
proof -
  have "set (listing s n) = set (listing t n)" using assms(3) by (simp add: listing_set)
  then show ?thesis
    using assms(1,2) listing_sorted listing_distinct
    by (metis sorted_distinct_set_unique)
qed

lemma put_put: "look (put (put s n k v) n k w) = look (put s n k w)"
  by (intro ext) (simp add: look_put)

lemma del_put: "look s n k = None \<Longrightarrow> look (snd (del (put s n k v) n k)) = look s"
  by (intro ext) (auto simp: look_put look_del)

lemma put_commute:
  "(n, k) \<noteq> (n', k') \<Longrightarrow> look (put (put s n k v) n' k' w) = look (put (put s n' k' w) n k v)"
  by (intro ext) (auto simp: look_put)

text \<open>Rotating a key touches that key only, and leaves the listings as they were.\<close>

lemma rotate_listing:
  assumes "inv s" "look s n k \<noteq> None"
  shows "listing (put s n k v) n' = listing s n'"
proof -
  have "set (listing (put s n k v) n') = set (listing s n')"
    using assms(2) by (auto simp: listing_set look_put)
  then show ?thesis
    using assms(1) inv_put listing_sorted listing_distinct by (metis sorted_distinct_set_unique)
qed

end

lemma stored_wf_ops [wf_intros]:
  "stored_wf s \<Longrightarrow> stored_wf (store_Set s n k v)"
  "stored_wf s \<Longrightarrow> stored_wf (store_SetReserved s n k v)"
  "stored_wf s \<Longrightarrow> stored_wf (snd (store_Delete s n k))"
  "stored_wf s \<Longrightarrow> stored_wf (snd (store_DeleteReserved s n k))"
  using ns_wf_nsDelete [of "st_services s" n k] ns_wf_nsDelete [of "st_reserved s" n k]
  by (auto simp: stored_wf_def store_Set_def store_SetReserved_def store_Delete_def
      store_DeleteReserved_def ns_wf_nsSet split: prod.splits)

lemmas store_defs = store_Get_def store_GetReserved_def store_Set_def store_SetReserved_def
  store_Delete_def store_DeleteReserved_def store_Keys_def store_ReservedKeys_def

lemma stored_keys_distinct:
  "stored_wf s \<Longrightarrow> distinct (nsKeys (st_services s) n)"
  "stored_wf s \<Longrightarrow> distinct (nsKeys (st_reserved s) n)"
  by (simp_all add: stored_wf_def nsKeys_distinct)

interpretation services: secret_view store_Get store_Set store_Delete store_Keys stored_wf
proof unfold_locales
  fix s n k v n' k'
  show "store_Get (store_Set s n k v) n' k' = (if n' = n \<and> k' = k then Some v else store_Get s n' k')"
    by (simp add: store_defs nsGet_nsSet)
  show "store_Get (snd (store_Delete s n k)) n' k'
        = (if n' = n \<and> k' = k then None else store_Get s n' k')"
    using nsGet_nsDelete [of "st_services s" n k n' k']
    by (cases "nsDelete (st_services s) n k") (simp add: store_defs)
  show "fst (store_Delete s n k) \<longleftrightarrow> store_Get s n k \<noteq> None"
    using nsDelete_found [of "st_services s" n k]
    by (cases "nsDelete (st_services s) n k") (simp add: store_defs)
  show "set (store_Keys s n) = {k. store_Get s n k \<noteq> None}"
    by (simp add: store_defs nsKeys_set)
qed (simp_all add: stored_wf_ops stored_keys_distinct nsKeys_sorted store_Keys_def)

interpretation reserved: secret_view store_GetReserved store_SetReserved store_DeleteReserved
  store_ReservedKeys stored_wf
proof unfold_locales
  fix s n k v n' k'
  show "store_GetReserved (store_SetReserved s n k v) n' k'
        = (if n' = n \<and> k' = k then Some v else store_GetReserved s n' k')"
    by (simp add: store_defs nsGet_nsSet)
  show "store_GetReserved (snd (store_DeleteReserved s n k)) n' k'
        = (if n' = n \<and> k' = k then None else store_GetReserved s n' k')"
    using nsGet_nsDelete [of "st_reserved s" n k n' k']
    by (cases "nsDelete (st_reserved s) n k") (simp add: store_defs)
  show "fst (store_DeleteReserved s n k) \<longleftrightarrow> store_GetReserved s n k \<noteq> None"
    using nsDelete_found [of "st_reserved s" n k]
    by (cases "nsDelete (st_reserved s) n k") (simp add: store_defs)
  show "set (store_ReservedKeys s n) = {k. store_GetReserved s n k \<noteq> None}"
    by (simp add: store_defs nsKeys_set)
qed (simp_all add: stored_wf_ops stored_keys_distinct nsKeys_sorted store_ReservedKeys_def)

text \<open>The namespaces do not see each other's writes.\<close>

lemma store_isolation:
  "store_GetReserved (store_Set s n k v) = store_GetReserved s"
  "store_Get (store_SetReserved s n k v) = store_Get s"
  "store_GetReserved (snd (store_Delete s n k)) = store_GetReserved s"
  "store_Get (snd (store_DeleteReserved s n k)) = store_Get s"
  by (auto simp: store_defs intro!: ext split: prod.splits)

subsection \<open>The certificate store\<close>

definition TopologyTwoTier :: string where "TopologyTwoTier = ''two-tier''"
definition TopologyRootOnly :: string where "TopologyRootOnly = ''root-only''"

definition ValidTopology :: "string \<Rightarrow> bool" where
  "ValidTopology t \<longleftrightarrow> t = TopologyTwoTier \<or> t = TopologyRootOnly"

record material =
  mat_cert :: string
  mat_key :: string

record pki =
  pki_topology :: string
  pki_scope :: string
  pki_root :: material
  pki_previous_roots :: "material list"
  pki_intermediates :: "(string \<times> material) list"
  pki_previous_intermediates :: "(string \<times> string list) list"

record pki_store =
  ps_root_recipient :: string
  ps_recipient :: string
  ps_pkis :: "(string \<times> pki) list"

definition RootCerts :: "pki \<Rightarrow> string list" where
  "RootCerts p = mat_cert (pki_root p) # map mat_cert (pki_previous_roots p)"

definition RootKeyRecipient :: "pki_store \<Rightarrow> string \<Rightarrow> string" where
  "RootKeyRecipient s topology =
     (if topology = TopologyRootOnly then ps_recipient s else ps_root_recipient s)"

definition IntermediateKeyRecipient :: "pki_store \<Rightarrow> string" where
  "IntermediateKeyRecipient s = ps_recipient s"

text \<open>The checks of \<open>Load\<close> on a decoded file; with several bad entries Go reports any one.\<close>

definition pki_Load :: "pki_store \<Rightarrow> load_err + pki_store" where
  "pki_Load s =
     (if ps_root_recipient s = [] \<or> ps_recipient s = [] then Inl MissingRecipient
      else case find (\<lambda>(n, p). \<not> ValidTopology (pki_topology p)) (ps_pkis s) of
             Some (n, p) \<Rightarrow> Inl (UnknownTopology n (pki_topology p))
           | None \<Rightarrow> Inr s)"

definition pki_Get :: "pki_store \<Rightarrow> string \<Rightarrow> pki option" where
  "pki_Get s name = map_of (ps_pkis s) name"

definition pki_Set :: "pki_store \<Rightarrow> string \<Rightarrow> pki \<Rightarrow> pki_store" where
  "pki_Set s name p = s\<lparr>ps_pkis := AList.update name p (ps_pkis s)\<rparr>"

definition pki_Names :: "pki_store \<Rightarrow> string list" where
  "pki_Names s = sort (map fst (ps_pkis s))"

datatype bundle_err =
    PkiNotFound string
  | NoIntermediate string string
  | NoRootCertificate string

text \<open>\<open>strings.TrimRight\<close> of newlines.\<close>

definition trim_newlines :: "string \<Rightarrow> string" where
  "trim_newlines s = rev (dropWhile (\<lambda>c. c = CHR 0x0A) (rev s))"

definition pem_line :: "string \<Rightarrow> string" where
  "pem_line c = trim_newlines c @ [CHR 0x0A]"

fun scope_certs :: "string \<Rightarrow> pki \<Rightarrow> string list \<Rightarrow> bundle_err + string list" where
  "scope_certs name p [] = Inr []"
| "scope_certs name p (scope # scopes) =
     (case map_of (pki_intermediates p) scope of
        None \<Rightarrow> Inl (NoIntermediate name scope)
      | Some m \<Rightarrow> map_sum id (\<lambda>cs. pem_line (mat_cert m) # cs) (scope_certs name p scopes))"

definition TrustBundle :: "pki_store \<Rightarrow> string \<Rightarrow> string list \<Rightarrow> bundle_err + string" where
  "TrustBundle s pkiName scopes =
     (case pki_Get s pkiName of
        None \<Rightarrow> Inl (PkiNotFound pkiName)
      | Some p \<Rightarrow>
     (case scope_certs pkiName p scopes of
        Inl e \<Rightarrow> Inl e
      | Inr cs \<Rightarrow>
          let roots = filter (\<lambda>r. TrimSpace r \<noteq> []) (RootCerts p) in
          if roots = [] then Inl (NoRootCertificate pkiName)
          else Inr (concat cs @ concat (map pem_line roots))))"

lemma topologies_differ [simp]: "TopologyTwoTier \<noteq> TopologyRootOnly" "TopologyRootOnly \<noteq> TopologyTwoTier"
  by (simp_all add: TopologyTwoTier_def TopologyRootOnly_def)

text \<open>Custody: only the key of a root-only root and the intermediates are readable by CI.\<close>

lemma root_custody:
  "ps_recipient s \<noteq> ps_root_recipient s \<Longrightarrow>
   RootKeyRecipient s t = IntermediateKeyRecipient s \<longleftrightarrow> t = TopologyRootOnly"
  by (auto simp: RootKeyRecipient_def IntermediateKeyRecipient_def)

lemma pki_Load_ok: "pki_Load s = Inr t \<Longrightarrow> t = s \<and> ps_recipient s \<noteq> [] \<and> ps_root_recipient s \<noteq> []
    \<and> (\<forall>n p. pki_Get s n = Some p \<longrightarrow> ValidTopology (pki_topology p))"
  by (auto simp: pki_Load_def pki_Get_def find_None_iff split: if_splits option.splits
      dest: map_of_SomeD)

lemma scope_certs_Inr:
  "scope_certs n p scopes = Inr cs \<longleftrightarrow>
     (\<forall>s\<in>set scopes. map_of (pki_intermediates p) s \<noteq> None)
     \<and> cs = map (\<lambda>s. pem_line (mat_cert (the (map_of (pki_intermediates p) s)))) scopes"
proof (induction scopes arbitrary: cs)
  case Nil
  then show ?case by auto
next
  case (Cons s scopes)
  then show ?case
    by (cases "scope_certs n p scopes") (auto split: option.splits)
qed

lemma TrustBundle_ok_iff:
  "is_ok (TrustBundle s n scopes) \<longleftrightarrow>
     (\<exists>p. pki_Get s n = Some p \<and> (\<forall>sc\<in>set scopes. map_of (pki_intermediates p) sc \<noteq> None)
        \<and> (\<exists>r\<in>set (RootCerts p). TrimSpace r \<noteq> []))"
proof (cases "pki_Get s n")
  case None
  then show ?thesis by (simp add: TrustBundle_def)
next
  case (Some p)
  let ?all = "\<forall>sc\<in>set scopes. map_of (pki_intermediates p) sc \<noteq> None"
  show ?thesis
  proof (cases "scope_certs n p scopes")
    case (Inl e)
    then have "\<not> ?all" using scope_certs_Inr [of n p scopes] by force
    then show ?thesis using Some Inl by (auto simp: TrustBundle_def)
  next
    case (Inr cs)
    then have "?all" using scope_certs_Inr [of n p scopes cs] by blast
    then show ?thesis using Some Inr by (auto simp: TrustBundle_def Let_def filter_empty_conv)
  qed
qed

text \<open>During a rotation the bundle ends with every non-blank root, the active one first.\<close>

lemma TrustBundle_roots:
  "TrustBundle s n scopes = Inr b \<Longrightarrow> pki_Get s n = Some p \<Longrightarrow>
     suffix (concat (map pem_line (filter (\<lambda>r. TrimSpace r \<noteq> []) (RootCerts p)))) b
     \<and> (\<forall>sc\<in>set scopes. \<exists>m. map_of (pki_intermediates p) sc = Some m
          \<and> sublist (pem_line (mat_cert m)) b)"
proof -
  assume b: "TrustBundle s n scopes = Inr b" and p: "pki_Get s n = Some p"
  then obtain cs where c: "scope_certs n p scopes = Inr cs"
    "b = concat cs @ concat (map pem_line (filter (\<lambda>r. TrimSpace r \<noteq> []) (RootCerts p)))"
    by (auto simp: TrustBundle_def Let_def split: sum.splits if_splits)
  have "sublist x (concat cs)" if "x \<in> set cs" for x
    using that by (auto simp: in_set_conv_decomp sublist_def) blast
  then have sub: "sublist x b" if "x \<in> set cs" for x
    using that c(2) by (meson sublist_appendI sublist_append_rightI sublist_order.order_trans)
  have cs: "\<forall>sc\<in>set scopes. map_of (pki_intermediates p) sc \<noteq> None"
    "cs = map (\<lambda>sc. pem_line (mat_cert (the (map_of (pki_intermediates p) sc)))) scopes"
    using scope_certs_Inr [of n p scopes cs] c(1) by blast+
  have "\<exists>m. map_of (pki_intermediates p) sc = Some m \<and> sublist (pem_line (mat_cert m)) b"
    if sc: "sc \<in> set scopes" for sc
  proof -
    obtain m where m: "map_of (pki_intermediates p) sc = Some m"
      using bspec [OF cs(1) sc] by auto
    have "pem_line (mat_cert (the (map_of (pki_intermediates p) sc))) \<in> set cs"
      unfolding cs(2) set_map using sc by (rule imageI)
    then have "sublist (pem_line (mat_cert m)) b" using m sub by simp
    with m show ?thesis by blast
  qed
  moreover have "suffix (concat (map pem_line (filter (\<lambda>r. TrimSpace r \<noteq> []) (RootCerts p)))) b"
    unfolding c(2) by (rule suffix_appendR)
  ultimately show ?thesis by blast
qed

end
