(* ===== verification/PgRole.thy ===== *)
theory PgRole
  imports Prelude
begin

text \<open>
  Model of \<open>internal/pgrole/pgrole.go\<close>: quoting of identifiers and literals, the statements that
  provision a per-service database role, and the checks on derived group role names.  Statements
  are a datatype with one constructor per format string; \<open>render\<close> is the formatted text.
\<close>

subsection \<open>Quoting\<close>

definition NUL :: char where "NUL = CHR 0x00"
definition dquote :: char where "dquote = CHR 0x22"
definition squote :: char where "squote = CHR 0x27"

text \<open>\<open>strings.ReplaceAll\<close> of a byte by two copies of it, and of NUL by nothing.\<close>

definition double_char :: "char \<Rightarrow> string \<Rightarrow> string" where
  "double_char q s = concat (map (\<lambda>c. if c = q then [q, q] else [c]) s)"

definition strip_nul :: "string \<Rightarrow> string" where
  "strip_nul s = filter (\<lambda>c. c \<noteq> NUL) s"

definition QuoteIdent :: "string \<Rightarrow> string" where
  "QuoteIdent ident = [dquote] @ double_char dquote (strip_nul ident) @ [dquote]"

definition QuoteLiteral :: "string \<Rightarrow> string" where
  "QuoteLiteral s = [squote] @ double_char squote (strip_nul s) @ [squote]"

text \<open>
  How a quoted token is read back: up to the first quote that is not doubled (the lexical rule of
  delimited identifiers and of standard-conforming strings).
\<close>

fun scan_quoted :: "char \<Rightarrow> string \<Rightarrow> (string \<times> string) option" where
  "scan_quoted q [] = None"
| "scan_quoted q [c] = (if c = q then Some ([], []) else None)"
| "scan_quoted q (c # d # s) =
     (if c = q then
        (if d = q then map_option (\<lambda>(v, r). (q # v, r)) (scan_quoted q s)
         else Some ([], d # s))
      else map_option (\<lambda>(v, r). (c # v, r)) (scan_quoted q (d # s)))"

definition read_quoted :: "char \<Rightarrow> string \<Rightarrow> (string \<times> string) option" where
  "read_quoted q s = (case s of [] \<Rightarrow> None | c # t \<Rightarrow> if c = q then scan_quoted q t else None)"

subsection \<open>Statements\<close>

datatype tables_or_sequences = Tables | Sequences

datatype sql =
    EnsureRoleNoLogin string
  | CreateRoleLogin string string
  | GrantConnect string string
  | GrantSchemaUsage string
  | GrantSchemaUsageCreate string
  | GrantMembership string string
  | GrantSelectTables string
  | GrantSelectSequences string
  | GrantDmlTables string
  | GrantUseSequences string
  | DefaultSelect string tables_or_sequences string
  | DefaultDmlTables string string
  | DefaultUseSequences string string
  | RevokeAllTables string
  | RevokeAllSequences string
  | RevokeSchema string
  | RevokeDatabase string string
  | RevokeMemberships string string string
  | RevokeDefaults tables_or_sequences string
  | RevokeDefaultsFor string tables_or_sequences string string
  | ReassignOwned string string
  | DropOwned string
  | DropRole string
  | GrantMonitor string

definition ReaderGroup :: "string \<Rightarrow> string" where "ReaderGroup database = database @ ''_ro''"
definition WriterGroup :: "string \<Rightarrow> string" where "WriterGroup database = database @ ''_rw''"

definition EnsureGroupRolesSQL :: "string \<Rightarrow> sql list" where
  "EnsureGroupRolesSQL database =
     [EnsureRoleNoLogin (ReaderGroup database), EnsureRoleNoLogin (WriterGroup database)]"

definition MaxIdentifierLen :: nat where "MaxIdentifierLen = 63"

datatype pgrole_err =
    OwnerTooLong string string nat
  | GroupTooLong string string nat
  | OwnerIsGroup string string
  | RoleIsGroup string string
  | UnknownGrantPermission string
  | RoMintNeedsOwner string

definition CheckGroupRoleNames :: "string \<Rightarrow> string \<Rightarrow> string \<Rightarrow> pgrole_err option" where
  "CheckGroupRoleNames role database owner =
     (if length owner > MaxIdentifierLen
      then Some (OwnerTooLong database owner (length owner))
      else first_err (\<lambda>group.
             if length group > MaxIdentifierLen
             then Some (GroupTooLong database group (length group))
             else if owner = group then Some (OwnerIsGroup database owner)
             else if role = group then Some (RoleIsGroup database role)
             else None) [ReaderGroup database, WriterGroup database])"

definition GrantSQL :: "string \<Rightarrow> string \<Rightarrow> string \<Rightarrow> pgrole_err + sql list" where
  "GrantSQL permission role database =
     (if permission = ''ro'' then
        Inr [GrantConnect database role, GrantSchemaUsage role,
             GrantMembership (ReaderGroup database) role,
             GrantSelectTables role, GrantSelectSequences role]
      else if permission = ''rw'' then
        Inr [GrantConnect database role, GrantSchemaUsageCreate role,
             GrantMembership (WriterGroup database) role,
             GrantDmlTables role, GrantUseSequences role,
             DefaultSelect role Tables (ReaderGroup database),
             DefaultSelect role Sequences (ReaderGroup database),
             DefaultDmlTables role (WriterGroup database),
             DefaultUseSequences role (WriterGroup database)]
      else Inl (UnknownGrantPermission permission))"

definition RevokeAllSQL :: "string \<Rightarrow> string \<Rightarrow> sql list" where
  "RevokeAllSQL role database =
     [RevokeAllTables role, RevokeAllSequences role, RevokeSchema role,
      RevokeDatabase database role,
      RevokeMemberships (ReaderGroup database) (WriterGroup database) role,
      RevokeDefaults Tables role, RevokeDefaults Sequences role,
      RevokeDefaultsFor role Tables (ReaderGroup database) (WriterGroup database),
      RevokeDefaultsFor role Sequences (ReaderGroup database) (WriterGroup database)]"

definition MintRoleSQL ::
  "string \<Rightarrow> string \<Rightarrow> string \<Rightarrow> string \<Rightarrow> string \<Rightarrow> pgrole_err + sql list" where
  "MintRoleSQL role password database owner permission =
     (case GrantSQL permission role database of
        Inl e \<Rightarrow> Inl e
      | Inr grants \<Rightarrow>
     (case CheckGroupRoleNames role database owner of
        Some e \<Rightarrow> Inl e
      | None \<Rightarrow>
          if permission = ''ro'' \<and> owner = [] then Inl (RoMintNeedsOwner role)
          else Inr (EnsureGroupRolesSQL database @ [CreateRoleLogin role password]
                 @ (if permission = ''ro'' then [ReassignOwned role owner] else [])
                 @ RevokeAllSQL role database @ grants)))"

definition MintMonitorRoleSQL :: "string \<Rightarrow> string \<Rightarrow> string list \<Rightarrow> sql list" where
  "MintMonitorRoleSQL role password databases =
     [CreateRoleLogin role password, GrantMonitor role]
     @ map (\<lambda>db. GrantConnect db role) databases"

definition ReassignDropSQL :: "string \<Rightarrow> string \<Rightarrow> sql list" where
  "ReassignDropSQL role owner = [ReassignOwned role owner, DropOwned role]"

definition DropRoleSQL :: "string \<Rightarrow> sql" where "DropRoleSQL role = DropRole role"

subsection \<open>The text of the statements\<close>

definition nl :: string where "nl = [CHR 0x0A]"

definition class_name :: "tables_or_sequences \<Rightarrow> string" where
  "class_name c = (case c of Tables \<Rightarrow> ''TABLES'' | Sequences \<Rightarrow> ''SEQUENCES'')"

fun render :: "sql \<Rightarrow> string" where
  "render (EnsureRoleNoLogin role) =
     ''DO $$'' @ nl @ ''BEGIN'' @ nl
     @ ''  IF NOT EXISTS (SELECT FROM pg_roles WHERE rolname = '' @ QuoteLiteral role @ '') THEN''
     @ nl @ ''    CREATE ROLE '' @ QuoteIdent role @ '' NOLOGIN;'' @ nl
     @ ''  END IF;'' @ nl @ ''END'' @ nl @ ''$$''"
| "render (CreateRoleLogin role password) =
     ''DO $$'' @ nl @ ''BEGIN'' @ nl
     @ ''  IF NOT EXISTS (SELECT FROM pg_roles WHERE rolname = '' @ QuoteLiteral role @ '') THEN''
     @ nl @ ''    CREATE ROLE '' @ QuoteIdent role @ '' LOGIN INHERIT PASSWORD ''
     @ QuoteLiteral password @ '';'' @ nl @ ''  ELSE'' @ nl
     @ ''    ALTER ROLE '' @ QuoteIdent role @ '' WITH LOGIN INHERIT PASSWORD ''
     @ QuoteLiteral password @ '';'' @ nl
     @ ''  END IF;'' @ nl @ ''END'' @ nl @ ''$$''"
| "render (GrantConnect db r) =
     ''GRANT CONNECT ON DATABASE '' @ QuoteIdent db @ '' TO '' @ QuoteIdent r"
| "render (GrantSchemaUsage r) = ''GRANT USAGE ON SCHEMA public TO '' @ QuoteIdent r"
| "render (GrantSchemaUsageCreate r) =
     ''GRANT USAGE, CREATE ON SCHEMA public TO '' @ QuoteIdent r"
| "render (GrantMembership g r) = ''GRANT '' @ QuoteIdent g @ '' TO '' @ QuoteIdent r"
| "render (GrantSelectTables r) =
     ''GRANT SELECT ON ALL TABLES IN SCHEMA public TO '' @ QuoteIdent r"
| "render (GrantSelectSequences r) =
     ''GRANT SELECT ON ALL SEQUENCES IN SCHEMA public TO '' @ QuoteIdent r"
| "render (GrantDmlTables r) =
     ''GRANT SELECT, INSERT, UPDATE, DELETE ON ALL TABLES IN SCHEMA public TO '' @ QuoteIdent r"
| "render (GrantUseSequences r) =
     ''GRANT USAGE, SELECT, UPDATE ON ALL SEQUENCES IN SCHEMA public TO '' @ QuoteIdent r"
| "render (DefaultSelect r c g) =
     ''ALTER DEFAULT PRIVILEGES FOR ROLE '' @ QuoteIdent r
     @ '' IN SCHEMA public GRANT SELECT ON '' @ class_name c @ '' TO '' @ QuoteIdent g"
| "render (DefaultDmlTables r g) =
     ''ALTER DEFAULT PRIVILEGES FOR ROLE '' @ QuoteIdent r
     @ '' IN SCHEMA public GRANT SELECT, INSERT, UPDATE, DELETE ON TABLES TO '' @ QuoteIdent g"
| "render (DefaultUseSequences r g) =
     ''ALTER DEFAULT PRIVILEGES FOR ROLE '' @ QuoteIdent r
     @ '' IN SCHEMA public GRANT USAGE, SELECT, UPDATE ON SEQUENCES TO '' @ QuoteIdent g"
| "render (RevokeAllTables r) =
     ''REVOKE ALL PRIVILEGES ON ALL TABLES IN SCHEMA public FROM '' @ QuoteIdent r"
| "render (RevokeAllSequences r) =
     ''REVOKE ALL PRIVILEGES ON ALL SEQUENCES IN SCHEMA public FROM '' @ QuoteIdent r"
| "render (RevokeSchema r) = ''REVOKE ALL PRIVILEGES ON SCHEMA public FROM '' @ QuoteIdent r"
| "render (RevokeDatabase db r) =
     ''REVOKE ALL PRIVILEGES ON DATABASE '' @ QuoteIdent db @ '' FROM '' @ QuoteIdent r"
| "render (RevokeMemberships ro rw r) =
     ''REVOKE '' @ QuoteIdent ro @ '', '' @ QuoteIdent rw @ '' FROM '' @ QuoteIdent r"
| "render (RevokeDefaults c r) =
     ''ALTER DEFAULT PRIVILEGES IN SCHEMA public REVOKE ALL ON '' @ class_name c
     @ '' FROM '' @ QuoteIdent r"
| "render (RevokeDefaultsFor r c ro rw) =
     ''ALTER DEFAULT PRIVILEGES FOR ROLE '' @ QuoteIdent r @ '' IN SCHEMA public REVOKE ALL ON ''
     @ class_name c @ '' FROM '' @ QuoteIdent ro @ '', '' @ QuoteIdent rw"
| "render (ReassignOwned r own) =
     ''REASSIGN OWNED BY '' @ QuoteIdent r @ '' TO '' @ QuoteIdent own"
| "render (DropOwned r) = ''DROP OWNED BY '' @ QuoteIdent r"
| "render (DropRole r) = ''DROP ROLE IF EXISTS '' @ QuoteIdent r"
| "render (GrantMonitor r) = ''GRANT pg_monitor TO '' @ QuoteIdent r"

subsection \<open>Lemmas on quoting\<close>

lemma double_char_simps [simp]:
  "double_char q [] = []"
  "double_char q (c # s) = (if c = q then q # q # double_char q s else c # double_char q s)"
  by (simp_all add: double_char_def)

lemma scan_double:
  assumes "rest = [] \<or> hd rest \<noteq> q"
  shows "scan_quoted q (double_char q s @ q # rest) = Some (s, rest)"
proof (induction s)
  case Nil
  show ?case using assms by (cases rest) auto
next
  case (Cons c s)
  show ?case
  proof (cases "c = q")
    case True
    then show ?thesis using Cons by simp
  next
    case False
    obtain d t where dt: "double_char q s @ q # rest = d # t"
      by (cases "double_char q s @ q # rest") auto
    then show ?thesis using False Cons by simp
  qed
qed

text \<open>A quoted token is read back as the text that was quoted, and nothing after it is consumed.\<close>

lemma read_QuoteIdent:
  "rest = [] \<or> hd rest \<noteq> dquote \<Longrightarrow>
   read_quoted dquote (QuoteIdent s @ rest) = Some (strip_nul s, rest)"
  by (simp add: QuoteIdent_def read_quoted_def scan_double)

lemma read_QuoteLiteral:
  "rest = [] \<or> hd rest \<noteq> squote \<Longrightarrow>
   read_quoted squote (QuoteLiteral s @ rest) = Some (strip_nul s, rest)"
  by (simp add: QuoteLiteral_def read_quoted_def scan_double)

lemma QuoteIdent_inj: "QuoteIdent a = QuoteIdent b \<longleftrightarrow> strip_nul a = strip_nul b"
proof
  assume e: "QuoteIdent a = QuoteIdent b"
  have "read_quoted dquote (QuoteIdent a) = Some (strip_nul a, [])"
    "read_quoted dquote (QuoteIdent b) = Some (strip_nul b, [])"
    using read_QuoteIdent [of "[]"] by auto
  with e show "strip_nul a = strip_nul b" by simp
qed (simp add: QuoteIdent_def)

lemma double_char_set: "q \<noteq> NUL \<Longrightarrow> NUL \<notin> set (double_char q (strip_nul s))"
  by (induction s) (auto simp: strip_nul_def)

lemma quoted_no_nul: "NUL \<notin> set (QuoteIdent s)" "NUL \<notin> set (QuoteLiteral s)"
  using double_char_set [of dquote s] double_char_set [of squote s]
  by (auto simp: QuoteIdent_def QuoteLiteral_def dquote_def squote_def NUL_def)

subsection \<open>Lemmas on group role names\<close>

lemma group_names_differ [simp]: "ReaderGroup d \<noteq> WriterGroup d" "WriterGroup d \<noteq> ReaderGroup d"
  by (simp_all add: ReaderGroup_def WriterGroup_def)

lemma group_names_inj [simp]:
  "ReaderGroup d = ReaderGroup e \<longleftrightarrow> d = e" "WriterGroup d = WriterGroup e \<longleftrightarrow> d = e"
  by (simp_all add: ReaderGroup_def WriterGroup_def)

lemma reader_ne_writer: "ReaderGroup d \<noteq> WriterGroup e"
proof
  assume "ReaderGroup d = WriterGroup e"
  then have "last (ReaderGroup d) = last (WriterGroup e)" by simp
  then show False by (simp add: ReaderGroup_def WriterGroup_def)
qed

lemma CheckGroupRoleNames_None:
  "CheckGroupRoleNames role database owner = None \<longleftrightarrow>
     length owner \<le> MaxIdentifierLen \<and> length database + 3 \<le> MaxIdentifierLen
     \<and> owner \<notin> {ReaderGroup database, WriterGroup database}
     \<and> role \<notin> {ReaderGroup database, WriterGroup database}"
  by (auto simp: CheckGroupRoleNames_def ReaderGroup_def WriterGroup_def split: if_splits)

text \<open>
  The server keeps \<open>MaxIdentifierLen\<close> bytes of a name.  Names that pass the check are stored
  as written, so distinct databases have distinct group roles after truncation.
\<close>

definition stored_name :: "string \<Rightarrow> string" where "stored_name s = take MaxIdentifierLen s"

lemma group_roles_stored:
  assumes "CheckGroupRoleNames r d o1 = None"
  shows "stored_name (ReaderGroup d) = ReaderGroup d"
    and "stored_name (WriterGroup d) = WriterGroup d"
    and "stored_name o1 = o1"
  using assms by (auto simp: CheckGroupRoleNames_None stored_name_def ReaderGroup_def
      WriterGroup_def MaxIdentifierLen_def)

subsection \<open>What a mint leaves a role with\<close>

text \<open>
  The rights the statements grant and take away, as the statements read: \<open>(g, R)\<close> is in the
  state when role \<open>g\<close> holds \<open>R\<close> directly.
\<close>

datatype pg_right =
    Connect string
  | SchemaUse
  | SchemaCreate
  | Member string
  | Read tables_or_sequences
  | Modify tables_or_sequences
  | Owns

fun apply_sql :: "sql \<Rightarrow> (string \<times> pg_right) set \<Rightarrow> (string \<times> pg_right) set" where
  "apply_sql (GrantConnect db r) S = insert (r, Connect db) S"
| "apply_sql (GrantSchemaUsage r) S = insert (r, SchemaUse) S"
| "apply_sql (GrantSchemaUsageCreate r) S = S \<union> {(r, SchemaUse), (r, SchemaCreate)}"
| "apply_sql (GrantMembership g r) S = insert (r, Member g) S"
| "apply_sql (GrantSelectTables r) S = insert (r, Read Tables) S"
| "apply_sql (GrantSelectSequences r) S = insert (r, Read Sequences) S"
| "apply_sql (GrantDmlTables r) S = S \<union> {(r, Read Tables), (r, Modify Tables)}"
| "apply_sql (GrantUseSequences r) S = S \<union> {(r, Read Sequences), (r, Modify Sequences)}"
| "apply_sql (RevokeAllTables r) S = S - {(r, Read Tables), (r, Modify Tables)}"
| "apply_sql (RevokeAllSequences r) S = S - {(r, Read Sequences), (r, Modify Sequences)}"
| "apply_sql (RevokeSchema r) S = S - {(r, SchemaUse), (r, SchemaCreate)}"
| "apply_sql (RevokeDatabase db r) S = S - {(r, Connect db)}"
| "apply_sql (RevokeMemberships a b r) S = S - {(r, Member a), (r, Member b)}"
| "apply_sql (ReassignOwned r own) S =
     (if (r, Owns) \<in> S then insert (own, Owns) (S - {(r, Owns)}) else S)"
| "apply_sql (GrantMonitor r) S = insert (r, Member ''pg_monitor'') S"
| "apply_sql _ S = S"

definition apply_all :: "sql list \<Rightarrow> (string \<times> pg_right) set \<Rightarrow> (string \<times> pg_right) set" where
  "apply_all stmts S = fold apply_sql stmts S"

text \<open>The rights a mint on \<open>database\<close> owns: those on other databases are not its business.\<close>

definition rights_on :: "string \<Rightarrow> string \<Rightarrow> (string \<times> pg_right) set \<Rightarrow> pg_right set" where
  "rights_on role database S =
     {R. (role, R) \<in> S \<and> (case R of Connect d \<Rightarrow> d = database
        | Member g \<Rightarrow> g \<in> {ReaderGroup database, WriterGroup database} | _ \<Rightarrow> True)}"

definition ro_rights :: "string \<Rightarrow> pg_right set" where
  "ro_rights d = {Connect d, SchemaUse, Member (ReaderGroup d), Read Tables, Read Sequences}"

definition rw_rights :: "string \<Rightarrow> pg_right set" where
  "rw_rights d = {Connect d, SchemaUse, SchemaCreate, Member (WriterGroup d), Read Tables,
     Modify Tables, Read Sequences, Modify Sequences}"

lemma MintRoleSQL_Inr:
  "MintRoleSQL role password d owner perm = Inr stmts \<Longrightarrow>
   (\<exists>grants. GrantSQL perm role d = Inr grants \<and> CheckGroupRoleNames role d owner = None
     \<and> (perm = ''ro'' \<or> perm = ''rw'') \<and> (perm = ''ro'' \<longrightarrow> owner \<noteq> [])
     \<and> stmts = EnsureGroupRolesSQL d @ [CreateRoleLogin role password]
         @ (if perm = ''ro'' then [ReassignOwned role owner] else [])
         @ RevokeAllSQL role d @ grants)"
  by (auto simp: MintRoleSQL_def GrantSQL_def split: sum.splits option.splits if_splits)

lemma apply_all_append: "apply_all (a @ b) S = apply_all b (apply_all a S)"
  by (simp add: apply_all_def)

lemma revoke_all_rights:
  "rights_on role d (apply_all (RevokeAllSQL role d) S) \<subseteq> {Owns}
   \<and> ((role, Owns) \<in> apply_all (RevokeAllSQL role d) S \<longleftrightarrow> (role, Owns) \<in> S)"
proof -
  have "rights_on role d (apply_all (RevokeAllSQL role d) S) \<subseteq> {Owns}"
  proof
    fix R assume "R \<in> rights_on role d (apply_all (RevokeAllSQL role d) S)"
    then show "R \<in> {Owns}"
      by (cases R) (auto simp: rights_on_def apply_all_def RevokeAllSQL_def
          intro: tables_or_sequences.exhaust)
  qed
  then show ?thesis by (simp add: apply_all_def RevokeAllSQL_def)
qed

lemma grant_rights:
  "GrantSQL ''ro'' role d = Inr g \<Longrightarrow>
     rights_on role d (apply_all g S) = rights_on role d S \<union> ro_rights d"
  "GrantSQL ''rw'' role d = Inr g \<Longrightarrow>
     rights_on role d (apply_all g S) = rights_on role d S \<union> rw_rights d"
  by (auto simp: GrantSQL_def apply_all_def rights_on_def ro_rights_def rw_rights_def)

lemma setup_keeps_rights:
  "apply_all (EnsureGroupRolesSQL d @ [CreateRoleLogin role password]) S = S"
  by (simp add: apply_all_def EnsureGroupRolesSQL_def)

lemma apply_all_reassign:
  "(role, Owns) \<in> apply_all [ReassignOwned role owner] S \<longleftrightarrow> owner = role \<and> (role, Owns) \<in> S"
  by (auto simp: apply_all_def)

text \<open>
  A read-only mint leaves exactly the read rights, whatever the role held before: a downgrade
  drops write privileges, schema creation, writer membership and ownership.  Only a role that is named
  as the owner itself keeps the ownership, since its objects are reassigned to it.
\<close>

lemma mint_ro_exact:
  assumes "MintRoleSQL role password d owner ''ro'' = Inr stmts"
  shows "rights_on role d (apply_all stmts S) =
    ro_rights d \<union> (if owner = role \<and> (role, Owns) \<in> S then {Owns} else {})"
proof -
  obtain g where g: "GrantSQL ''ro'' role d = Inr g"
    and st: "stmts = (EnsureGroupRolesSQL d @ [CreateRoleLogin role password])
      @ [ReassignOwned role owner] @ RevokeAllSQL role d @ g"
    using MintRoleSQL_Inr [OF assms(1)] by auto
  let ?T = "apply_all [ReassignOwned role owner] S"
  have st': "apply_all stmts S = apply_all g (apply_all (RevokeAllSQL role d) ?T)"
    unfolding st apply_all_append [of "_ @ _"] apply_all_append [of "[_]"]
      apply_all_append [of "RevokeAllSQL _ _"] setup_keeps_rights ..
  have "rights_on role d (apply_all (RevokeAllSQL role d) ?T) = (if owner = role \<and> (role, Owns) \<in> S then {Owns} else {})"
    using revoke_all_rights [of role d ?T] apply_all_reassign [of role owner S]
    by (auto simp: rights_on_def)
  then show ?thesis using grant_rights(1) [OF g] st' by auto
qed

lemma mint_rw_exact:
  assumes "MintRoleSQL role password d owner ''rw'' = Inr stmts"
  shows "rights_on role d (apply_all stmts S) =
           rw_rights d \<union> (if (role, Owns) \<in> S then {Owns} else {})"
proof -
  obtain g where g: "GrantSQL ''rw'' role d = Inr g"
    and st: "stmts = (EnsureGroupRolesSQL d @ [CreateRoleLogin role password])
      @ RevokeAllSQL role d @ g"
    using MintRoleSQL_Inr [OF assms] by auto
  have st': "apply_all stmts S = apply_all g (apply_all (RevokeAllSQL role d) S)"
    unfolding st apply_all_append [of "_ @ _"]
      apply_all_append [of "RevokeAllSQL _ _"] setup_keeps_rights ..
  have "rights_on role d (apply_all (RevokeAllSQL role d) S)
        = (if (role, Owns) \<in> S then {Owns} else {})"
    using revoke_all_rights [of role d S] by (auto simp: rights_on_def)
  then show ?thesis using grant_rights(2) [OF g] st' by auto
qed

text \<open>A monitor mint only connects and joins the monitoring role.\<close>

lemma mint_monitor_rights:
  "apply_all (MintMonitorRoleSQL role password dbs) S =
     S \<union> {(role, Member ''pg_monitor'')} \<union> {(role, Connect d) | d. d \<in> set dbs}"
proof -
  have "apply_all (map (\<lambda>db. GrantConnect db role) dbs) T =
          T \<union> {(role, Connect d) | d. d \<in> set dbs}" for T
    by (induction dbs arbitrary: T) (auto simp: apply_all_def)
  then show ?thesis
    by (auto simp: MintMonitorRoleSQL_def apply_all_append) (auto simp: apply_all_def)
qed

text \<open>A refused mint yields no statement; an accepted one is what the checks allow.\<close>

lemma mint_ok_iff:
  "is_ok (MintRoleSQL role password d owner perm) \<longleftrightarrow>
     (perm = ''ro'' \<and> owner \<noteq> [] \<or> perm = ''rw'') \<and> CheckGroupRoleNames role d owner = None"
  by (auto simp: MintRoleSQL_def GrantSQL_def is_ok_def split: option.splits)

end
