(* ===== verification/ValidateCtx.thy ===== *)
theory ValidateCtx
  imports Naming Stores PathGlob PgRole
begin

text \<open>
  The context of the semantic checks of \<open>internal/validate/validate.go\<close>: the files of a resource
  set, the references of the global slice, the record \<open>regionContext\<close> and the passes of
  \<open>validateResourceSet\<close> that fill it, one step function per loop.  A Go map used as a set is a
  predicate, a map of counters a function, a map with a zero-value read a total function, and a
  map that the code ranges over an association list.
\<close>

subsection \<open>Files\<close>

text \<open>
  A resource file after reading: \<open>sf_parse_err\<close> is the recorded parse error, \<open>sf_schema_errs\<close> the
  messages of the JSON schema validator (a library) on the raw document.
\<close>

record 'a src_file =
  sf_path :: string
  sf_parse_err :: "string option"
  sf_schema_errs :: "string list"
  sf_spec :: 'a

definition all_specs :: "'a src_file list \<Rightarrow> 'a list" where
  "all_specs fs = map sf_spec fs"

definition parsed_specs :: "'a src_file list \<Rightarrow> 'a list" where
  "parsed_specs fs = map sf_spec (filter (\<lambda>f. sf_parse_err f = None) fs)"

record file_set =
  fs_network :: "network_spec src_file list"
  fs_compute :: "compute_spec src_file list"
  fs_cluster :: "cluster_spec src_file list"
  fs_database :: "database_spec src_file list"
  fs_service :: "service_spec src_file list"
  fs_pki :: "pki_resource_spec src_file list"
  fs_ingress :: "ingress_spec src_file list"
  fs_app :: "app_spec src_file list"
  fs_gateway :: "gateway_spec src_file list"

subsection \<open>References of the global slice\<close>

record global_refs =
  gl_databases :: "string list"
  gl_computeKind :: "(string \<times> string) list"
  gl_pkiTopology :: "(string \<times> string) list"
  gl_meshServices :: "(string \<times> string) list"

definition compute_kind_entries :: "compute_spec \<Rightarrow> (string \<times> string) list" where
  "compute_kind_entries c =
     map (\<lambda>i. (SpecKey (cmp_name c) i, cmp_kind c)) [1..cmp_instances c]
     @ (if cmp_instances c = 1 then [(cmp_name c, cmp_kind c)] else [])"

text \<open>The later entry of a key wins, as assignments to a Go map do.\<close>

definition buildGlobalRefs :: "resources \<Rightarrow> global_refs" where
  "buildGlobalRefs g =
     \<lparr>gl_databases = map db_name (res_database g),
      gl_computeKind = rev (concat (map compute_kind_entries (res_compute g))),
      gl_pkiTopology = rev (map (\<lambda>p. (pkr_name p, pkr_topology p)) (res_pki g)),
      gl_meshServices = rev (map (\<lambda>s. (svc_name s, svc_pki s))
                              (filter (\<lambda>s. svc_pki s \<noteq> []) (res_service g)))\<rparr>"

definition globalNeedsDNS :: "resources \<Rightarrow> bool" where
  "globalNeedsDNS g \<longleftrightarrow> length (res_compute g) > 0"

definition bindReasonHealth :: string where
  "bindReasonHealth = ''public health listener''"

definition gatewayCallerName :: string where "gatewayCallerName = ''gateway''"
definition meshReservedName :: string where "meshReservedName = ''mesh''"

text \<open>The secret store as the checks see it.\<close>

record secret_store_state =
  ss_store :: "secret_store option"
  ss_unreadable :: bool

text \<open>Found and known.\<close>

definition store_lookup :: "secret_store_state \<Rightarrow> string \<Rightarrow> string \<Rightarrow> bool \<times> bool" where
  "store_lookup s service key =
     (case ss_store s of
        None \<Rightarrow> (False, False)
      | Some st \<Rightarrow> if ss_unreadable s then (False, False)
                   else (store_Get st service key \<noteq> None, True))"

subsection \<open>The context\<close>

type_synonym port_users = "string \<Rightarrow> int \<Rightarrow> string list"

record region_ctx =
  cx_available :: "(string \<Rightarrow> bool) option"
  cx_sizes :: "string list"
  cx_networks :: "(string \<times> network_spec) list"
  cx_computeKind :: "string \<rightharpoonup> string"
  cx_canonical :: "string \<rightharpoonup> string"
  cx_instances :: "string \<Rightarrow> int"
  cx_deployer :: "string \<Rightarrow> bool"
  cx_computeNames :: "string \<Rightarrow> bool"
  cx_computeNetwork :: "string \<Rightarrow> string"
  cx_databaseNames :: "string \<Rightarrow> bool"
  cx_dbPhysical :: "string \<Rightarrow> nat"
  cx_backupsBucket :: bool
  cx_clusterNames :: "string \<Rightarrow> bool"
  cx_clusterHosts :: "string \<Rightarrow> bool"
  cx_clusterHostByName :: "string \<Rightarrow> string"
  cx_dbCluster :: "string \<Rightarrow> string"
  cx_ingressNames :: "string list"
  cx_ingressHost :: "string \<rightharpoonup> string"
  cx_appSubdomains :: "string \<Rightarrow> nat"
  cx_pkiResources :: "string \<rightharpoonup> string"
  cx_pkiGenerated :: "string \<Rightarrow> bool"
  cx_portUsers :: port_users
  cx_nginxBinds :: "string \<Rightarrow> int \<rightharpoonup> string"
  cx_meshHosts :: "string \<Rightarrow> bool"
  cx_forwardUsers :: port_users
  cx_ingressHealth :: "string \<Rightarrow> int"
  cx_ingressNamesByHost :: "string \<Rightarrow> string list"
  cx_targetUsers :: port_users
  cx_udpUsers :: port_users
  cx_tlsTerm :: "string list"
  cx_gatewayCount :: nat
  cx_allowsGateway :: "string \<Rightarrow> bool"
  cx_publicPaths :: "string \<Rightarrow> string list"
  cx_gatewayTargets :: "string \<Rightarrow> bool"
  cx_gatewayHost :: string
  cx_gatewayIngressHost :: string
  cx_gatewayHealth :: int
  cx_servicePki :: "string \<Rightarrow> string"
  cx_serviceHost :: "string \<Rightarrow> string"
  cx_serviceNames :: "string \<Rightarrow> bool"
  cx_meshServices :: "string \<Rightarrow> bool"
  cx_callerCandidates :: "string \<Rightarrow> bool"
  cx_forbiddenCallers :: "string \<Rightarrow> bool"
  cx_callerPki :: "string \<Rightarrow> string"
  cx_store :: secret_store_state
  cx_defaults :: provider_defaults

definition pkiGeneratedNames :: "pki_store option \<Rightarrow> string \<Rightarrow> bool" where
  "pkiGeneratedNames store name =
     (case store of
        None \<Rightarrow> False
      | Some s \<Rightarrow> (case pki_Get s name of
                     None \<Rightarrow> False
                   | Some p \<Rightarrow> pki_topology p = TopologyRootOnly))"

text \<open>The read of a string map: the empty string for an absent key.\<close>

definition str_at :: "(string \<rightharpoonup> string) \<Rightarrow> string \<Rightarrow> string" where
  "str_at m k = (case m k of Some v \<Rightarrow> v | None \<Rightarrow> [])"

definition canonicalHost :: "string \<Rightarrow> region_ctx \<Rightarrow> string" where
  "canonicalHost host ctx =
     (if \<not> cx_computeNames ctx host then []
      else let c = str_at (cx_canonical ctx) host in
           if c \<noteq> [] then c else SpecKey host 1)"

text \<open>Append a user to the list of a port on a host.\<close>

definition add_user :: "string \<Rightarrow> int \<Rightarrow> string \<Rightarrow> port_users \<Rightarrow> port_users" where
  "add_user host port user m = m(host := (m host)(port := m host port @ [user]))"

definition set_true :: "string \<Rightarrow> (string \<Rightarrow> bool) \<Rightarrow> (string \<Rightarrow> bool)" where
  "set_true k m = m(k := True)"

subsection \<open>Filling the context\<close>

definition empty_ctx :: "(string \<Rightarrow> bool) option \<Rightarrow> string list \<Rightarrow> bool \<Rightarrow> pki_store option
    \<Rightarrow> secret_store_state \<Rightarrow> provider_defaults \<Rightarrow> nat \<Rightarrow> region_ctx" where
  "empty_ctx available sizes bucket pkis store defaults gateways =
     \<lparr>cx_available = available, cx_sizes = sizes, cx_networks = [],
      cx_computeKind = Map.empty, cx_canonical = Map.empty, cx_instances = (\<lambda>_. 0),
      cx_deployer = (\<lambda>_. False), cx_computeNames = (\<lambda>_. False), cx_computeNetwork = (\<lambda>_. []),
      cx_databaseNames = (\<lambda>_. False), cx_dbPhysical = (\<lambda>_. 0), cx_backupsBucket = bucket,
      cx_clusterNames = (\<lambda>_. False), cx_clusterHosts = (\<lambda>_. False),
      cx_clusterHostByName = (\<lambda>_. []), cx_dbCluster = (\<lambda>_. []), cx_ingressNames = [],
      cx_ingressHost = Map.empty, cx_appSubdomains = (\<lambda>_. 0), cx_pkiResources = Map.empty,
      cx_pkiGenerated = pkiGeneratedNames pkis, cx_portUsers = (\<lambda>_ _. []),
      cx_nginxBinds = (\<lambda>_. Map.empty), cx_meshHosts = (\<lambda>_. False),
      cx_forwardUsers = (\<lambda>_ _. []), cx_ingressHealth = (\<lambda>_. 0),
      cx_ingressNamesByHost = (\<lambda>_. []), cx_targetUsers = (\<lambda>_ _. []), cx_udpUsers = (\<lambda>_ _. []),
      cx_tlsTerm = [], cx_gatewayCount = gateways, cx_allowsGateway = (\<lambda>_. False),
      cx_publicPaths = (\<lambda>_. []), cx_gatewayTargets = (\<lambda>_. False), cx_gatewayHost = [],
      cx_gatewayIngressHost = [], cx_gatewayHealth = 0, cx_servicePki = (\<lambda>_. []),
      cx_serviceHost = (\<lambda>_. []), cx_serviceNames = (\<lambda>_. False), cx_meshServices = (\<lambda>_. False),
      cx_callerCandidates = (\<lambda>_. False), cx_forbiddenCallers = (\<lambda>_. False),
      cx_callerPki = (\<lambda>_. []), cx_store = store, cx_defaults = defaults\<rparr>"

text \<open>The cross-scope callers of the global pass, then those of the regional pass.\<close>

definition ctx_callers :: "(string \<times> string) list \<Rightarrow> global_refs option \<Rightarrow> region_ctx \<Rightarrow> region_ctx" where
  "ctx_callers siblings global ctx =
     (let ctx1 = fold (\<lambda>(name, pki) c. c\<lparr>cx_callerCandidates := set_true name (cx_callerCandidates c),
                        cx_callerPki := (cx_callerPki c)(name := pki)\<rparr>) siblings ctx
      in case global of
           None \<Rightarrow> ctx1
         | Some g \<Rightarrow> fold (\<lambda>(name, pki) c.
             c\<lparr>cx_forbiddenCallers := set_true name (cx_forbiddenCallers c),
               cx_callerPki := (cx_callerPki c)(name := pki)\<rparr>) (rev (gl_meshServices g)) ctx1)"

definition ctx_network :: "network_spec \<Rightarrow> region_ctx \<Rightarrow> region_ctx" where
  "ctx_network n ctx = ctx\<lparr>cx_networks := AList.update (net_name n) n (cx_networks ctx)\<rparr>"

definition ctx_instance :: "compute_spec \<Rightarrow> int \<Rightarrow> region_ctx \<Rightarrow> region_ctx" where
  "ctx_instance c i ctx =
     (let key = SpecKey (cmp_name c) i;
          hasDeployer = (case cmp_deploy_user c of None \<Rightarrow> False | Some u \<Rightarrow> du_name u \<noteq> [])
      in ctx\<lparr>cx_computeKind := (cx_computeKind ctx)(key \<mapsto> cmp_kind c),
             cx_instances := (cx_instances ctx)(key := cmp_instances c),
             cx_deployer := (cx_deployer ctx)(key := hasDeployer),
             cx_computeNetwork := (cx_computeNetwork ctx)(key := cmp_network c)\<rparr>)"

definition ctx_compute :: "compute_spec \<Rightarrow> region_ctx \<Rightarrow> region_ctx" where
  "ctx_compute c ctx =
     (let ctx1 = fold (ctx_instance c) [1..cmp_instances c] ctx;
          ctx2 = ctx1\<lparr>cx_computeNames := set_true (cmp_name c) (cx_computeNames ctx1),
                     cx_computeNetwork := (cx_computeNetwork ctx1)(cmp_name c := cmp_network c)\<rparr>
      in if cmp_instances c = 1
         then ctx2\<lparr>cx_computeKind := (cx_computeKind ctx2)(cmp_name c \<mapsto> cmp_kind c),
                   cx_instances := (cx_instances ctx2)(cmp_name c := cmp_instances c)\<rparr>
         else ctx2)"

definition ctx_cluster :: "cluster_spec \<Rightarrow> region_ctx \<Rightarrow> region_ctx" where
  "ctx_cluster d ctx =
     (let ctx1 = ctx\<lparr>cx_clusterNames := set_true (cl_name d) (cx_clusterNames ctx)\<rparr>;
          hk = canonicalHost (cl_host d) ctx1
      in if hk \<noteq> []
         then ctx1\<lparr>cx_clusterHosts := set_true hk (cx_clusterHosts ctx1),
                   cx_clusterHostByName := (cx_clusterHostByName ctx1)(cl_name d := hk)\<rparr>
         else ctx1)"

definition physical_key :: "string \<Rightarrow> string \<Rightarrow> string" where
  "physical_key cluster database = cluster @ [NUL] @ database"

definition ctx_database :: "database_spec src_file \<Rightarrow> region_ctx \<Rightarrow> region_ctx" where
  "ctx_database f ctx =
     (let d = sf_spec f;
          ctx1 = ctx\<lparr>cx_databaseNames := set_true (db_name d) (cx_databaseNames ctx)\<rparr>
      in if sf_parse_err f = None \<and> db_cluster d \<noteq> [] then
           (let ctx2 = ctx1\<lparr>cx_dbCluster := (cx_dbCluster ctx1)(db_name d := db_cluster d)\<rparr>;
                k = physical_key (db_cluster d) (db_database d)
            in if db_database d \<noteq> []
               then ctx2\<lparr>cx_dbPhysical := (cx_dbPhysical ctx2)(k := cx_dbPhysical ctx2 k + 1)\<rparr>
               else ctx2)
         else ctx1)"

definition ctx_pki :: "pki_resource_spec \<Rightarrow> region_ctx \<Rightarrow> region_ctx" where
  "ctx_pki p ctx = ctx\<lparr>cx_pkiResources := (cx_pkiResources ctx)(pkr_name p \<mapsto> pkr_topology p)\<rparr>"

definition ctx_ingress :: "ingress_spec \<Rightarrow> region_ctx \<Rightarrow> region_ctx" where
  "ctx_ingress i ctx =
     (let ctx1 = ctx\<lparr>cx_ingressNames := List.insert (ing_name i) (cx_ingressNames ctx),
                     cx_ingressHealth := (cx_ingressHealth ctx)(ing_name i := ingress_health_port i)\<rparr>;
          hk = canonicalHost (ing_host i) ctx1
      in if hk \<noteq> []
         then ctx1\<lparr>cx_ingressHost := (cx_ingressHost ctx1)(ing_name i \<mapsto> hk),
                   cx_ingressNamesByHost := (cx_ingressNamesByHost ctx1)
                     (hk := cx_ingressNamesByHost ctx1 hk @ [ing_name i])\<rparr>
         else ctx1)"

definition ctx_app :: "app_spec \<Rightarrow> region_ctx \<Rightarrow> region_ctx" where
  "ctx_app a ctx =
     ctx\<lparr>cx_appSubdomains := (cx_appSubdomains ctx)
           (app_subdomain a := cx_appSubdomains ctx (app_subdomain a) + 1)\<rparr>"

definition ctx_gateway :: "gateway_spec \<Rightarrow> region_ctx \<Rightarrow> region_ctx" where
  "ctx_gateway g ctx =
     (let ctx1 = ctx\<lparr>cx_gatewayTargets := fold set_true (gw_services g) (cx_gatewayTargets ctx)\<rparr>
      in ctx1\<lparr>cx_gatewayHost := canonicalHost (gw_host g) ctx1,
              cx_gatewayIngressHost := str_at (cx_ingressHost ctx1) (gw_ingress g),
              cx_gatewayHealth := gateway_health_port g\<rparr>)"

definition ctx_service_names :: "service_spec \<Rightarrow> region_ctx \<Rightarrow> region_ctx" where
  "ctx_service_names s ctx =
     (let ctx1 = ctx\<lparr>cx_serviceNames := set_true (svc_name s) (cx_serviceNames ctx),
                     cx_servicePki := (cx_servicePki ctx)(svc_name s := svc_pki s),
                     cx_serviceHost := (cx_serviceHost ctx)(svc_name s := svc_host s)\<rparr>;
          ctx2 = (if svc_pki s \<noteq> []
                  then ctx1\<lparr>cx_meshServices := set_true (svc_name s) (cx_meshServices ctx1)\<rparr>
                  else ctx1)
      in case svc_mesh s of
           None \<Rightarrow> ctx2
         | Some m \<Rightarrow> ctx2\<lparr>cx_publicPaths := (cx_publicPaths ctx2)(svc_name s := mesh_public m)\<rparr>)"

definition ctx_mesh :: "service_spec \<Rightarrow> region_ctx \<Rightarrow> region_ctx" where
  "ctx_mesh s ctx =
     (case svc_mesh s of
        None \<Rightarrow> ctx
      | Some m \<Rightarrow>
          let ctx1 = (if gatewayCallerName \<in> set (mesh_allowed m)
                      then ctx\<lparr>cx_allowsGateway := set_true (svc_name s) (cx_allowsGateway ctx)\<rparr>
                      else ctx);
              backend = canonicalHost (svc_host s) ctx1
          in if mesh_port m \<noteq> 0 \<and> backend \<noteq> []
             then ctx1\<lparr>cx_targetUsers := add_user backend (mesh_port m) (svc_name s) (cx_targetUsers ctx1)\<rparr>
             else ctx1)"

definition ctx_route :: "service_spec \<Rightarrow> string option \<Rightarrow> string \<Rightarrow> route_spec \<Rightarrow> region_ctx \<Rightarrow> region_ctx" where
  "ctx_route s ing backend rt ctx =
     (let ctx1 =
        (case ing of
           None \<Rightarrow> ctx
         | Some ih \<Rightarrow>
             let c1 = ctx\<lparr>cx_portUsers := add_user ih (rt_listen rt) (svc_name s) (cx_portUsers ctx)\<rparr>;
                 c2 = (if rt_type rt = IngressTypeTLSTermination
                       then c1\<lparr>cx_tlsTerm := List.insert ih (cx_tlsTerm c1)\<rparr> else c1)
             in if rt_type rt = IngressTypeForward
                then c2\<lparr>cx_forwardUsers := add_user ih (rt_listen rt) (svc_name s) (cx_forwardUsers c2)\<rparr>
                else c2)
      in if backend \<noteq> []
         then ctx1\<lparr>cx_targetUsers := add_user backend (rt_target rt) (svc_name s) (cx_targetUsers ctx1)\<rparr>
         else ctx1)"

definition ctx_routes :: "service_spec \<Rightarrow> region_ctx \<Rightarrow> region_ctx" where
  "ctx_routes s ctx =
     (let hb = canonicalHost (svc_host s) ctx;
          ctx1 = (if svc_health_port s \<noteq> 0 \<and> hb \<noteq> []
                  then ctx\<lparr>cx_targetUsers := add_user hb (svc_health_port s) (svc_name s) (cx_targetUsers ctx)\<rparr>
                  else ctx)
      in if svc_ingress s = [] \<or> (svc_routes s = [] \<and> svc_health_port s = 0) then ctx1
         else fold (ctx_route s (cx_ingressHost ctx1 (svc_ingress s)) hb) (svc_routes s) ctx1)"

definition ctx_exposed_port :: "service_spec \<Rightarrow> string \<Rightarrow> exposed_port \<Rightarrow> region_ctx \<Rightarrow> region_ctx" where
  "ctx_exposed_port s backend ep ctx =
     (if ep_proto ep = ''udp''
      then ctx\<lparr>cx_udpUsers := add_user backend (ep_port ep) (svc_name s) (cx_udpUsers ctx)\<rparr>
      else ctx\<lparr>cx_targetUsers := add_user backend (ep_port ep) (svc_name s) (cx_targetUsers ctx)\<rparr>)"

definition ctx_exposed :: "service_spec \<Rightarrow> region_ctx \<Rightarrow> region_ctx" where
  "ctx_exposed s ctx =
     (let backend = canonicalHost (svc_host s) ctx in
      if svc_exposed s = [] \<or> backend = [] then ctx
      else fold (ctx_exposed_port s backend) (svc_exposed s) ctx)"

definition addNginxBind :: "string \<Rightarrow> int \<Rightarrow> string \<Rightarrow> region_ctx \<Rightarrow> region_ctx" where
  "addNginxBind host port reason ctx =
     (if host = [] \<or> port = 0 then ctx
      else case cx_nginxBinds ctx host port of
             Some _ \<Rightarrow> ctx
           | None \<Rightarrow> ctx\<lparr>cx_nginxBinds := (cx_nginxBinds ctx)
                        (host := (cx_nginxBinds ctx host)(port \<mapsto> reason))\<rparr>)"

definition ctx_app_tls :: "app_spec \<Rightarrow> region_ctx \<Rightarrow> region_ctx" where
  "ctx_app_tls a ctx =
     (let host = str_at (cx_ingressHost ctx) (app_ingress a) in
      if host = [] then ctx
      else addNginxBind host 443 ''app TLS listener''
             (ctx\<lparr>cx_tlsTerm := List.insert host (cx_tlsTerm ctx)\<rparr>))"

definition ctx_gateway_binds :: "region_ctx \<Rightarrow> region_ctx" where
  "ctx_gateway_binds ctx =
     (if cx_gatewayHost ctx = [] then ctx
      else let ih = cx_gatewayIngressHost ctx;
               ctx1 = (if ih \<noteq> []
                       then addNginxBind ih 443 ''gateway TLS termination''
                              (ctx\<lparr>cx_tlsTerm := List.insert ih (cx_tlsTerm ctx)\<rparr>)
                       else ctx)
           in addNginxBind (cx_gatewayHost ctx1) GatewayHTTPPort ''gateway routing listener'' ctx1)"

definition ctx_acme :: "region_ctx \<Rightarrow> region_ctx" where
  "ctx_acme ctx =
     fold (\<lambda>host. addNginxBind host 80 ''ACME HTTP-01 challenge/redirect'') (cx_tlsTerm ctx) ctx"

definition ctx_health_bind :: "service_spec \<Rightarrow> region_ctx \<Rightarrow> region_ctx" where
  "ctx_health_bind s ctx =
     (let ctx1 =
        (if svc_health_port s \<noteq> 0 then
           (case (cx_ingressHost ctx (svc_ingress s), svc_ingress s \<noteq> []) of
              (Some host, True) \<Rightarrow>
                addNginxBind host (cx_ingressHealth ctx (svc_ingress s)) bindReasonHealth ctx
            | _ \<Rightarrow> if svc_ingress s = [] \<and> cx_gatewayTargets ctx (svc_name s)
                   then addNginxBind (cx_gatewayHost ctx) (cx_gatewayHealth ctx) bindReasonHealth ctx
                   else ctx)
         else ctx);
          hk = canonicalHost (svc_host s) ctx1
      in if svc_pki s \<noteq> [] \<and> hk \<noteq> []
         then ctx1\<lparr>cx_meshHosts := set_true hk (cx_meshHosts ctx1)\<rparr> else ctx1)"

definition ctx_gateway_mesh :: "region_ctx \<Rightarrow> region_ctx" where
  "ctx_gateway_mesh ctx =
     (if cx_gatewayHost ctx \<noteq> []
      then ctx\<lparr>cx_meshHosts := set_true (cx_gatewayHost ctx) (cx_meshHosts ctx)\<rparr> else ctx)"

definition ctx_global :: "global_refs option \<Rightarrow> region_ctx \<Rightarrow> region_ctx" where
  "ctx_global global ctx =
     (case global of
        None \<Rightarrow> ctx
      | Some g \<Rightarrow> ctx\<lparr>
          cx_databaseNames := fold (\<lambda>n. set_true (''global/'' @ n)) (gl_databases g) (cx_databaseNames ctx),
          cx_computeKind := fold (\<lambda>(k, v) m. m(''global/'' @ k \<mapsto> v)) (rev (gl_computeKind g)) (cx_computeKind ctx),
          cx_pkiResources := fold (\<lambda>(k, v) m. m(''global/'' @ k \<mapsto> v)) (rev (gl_pkiTopology g)) (cx_pkiResources ctx)\<rparr>)"

text \<open>The passes before and after the public-port facts, composed in the order of the code.\<close>

definition ctx_base :: "file_set \<Rightarrow> region_ctx \<Rightarrow> region_ctx" where
  "ctx_base fs ctx0 =
     (let c1 = fold ctx_network (all_specs (fs_network fs)) ctx0;
          c2 = fold ctx_compute (all_specs (fs_compute fs)) c1;
          c3 = c2\<lparr>cx_canonical := CanonicalComputeKeys (all_specs (fs_compute fs))\<rparr>;
          c4 = fold ctx_cluster (parsed_specs (fs_cluster fs)) c3;
          c5 = fold ctx_database (fs_database fs) c4;
          c6 = fold ctx_pki (parsed_specs (fs_pki fs)) c5;
          c7 = fold ctx_ingress (parsed_specs (fs_ingress fs)) c6;
          c8 = fold ctx_app (parsed_specs (fs_app fs)) c7;
          c9 = fold ctx_gateway (parsed_specs (fs_gateway fs)) c8
      in fold ctx_service_names (parsed_specs (fs_service fs)) c9)"

definition ctx_binds :: "file_set \<Rightarrow> region_ctx \<Rightarrow> region_ctx" where
  "ctx_binds fs ctx =
     (let svcs = parsed_specs (fs_service fs)
      in fold ctx_exposed svcs (fold ctx_routes svcs (fold ctx_mesh svcs ctx)))"

definition ctx_nginx :: "file_set \<Rightarrow> region_ctx \<Rightarrow> region_ctx" where
  "ctx_nginx fs ctx =
     ctx_gateway_mesh (fold ctx_health_bind (parsed_specs (fs_service fs))
       (ctx_acme (ctx_gateway_binds (fold ctx_app_tls (parsed_specs (fs_app fs)) ctx))))"

record validate_input =
  vi_available :: "(string \<Rightarrow> bool) option"
  vi_sizes :: "string list"
  vi_global :: "global_refs option"
  vi_siblings :: "(string \<times> string) list"
  vi_store :: secret_store_state
  vi_pkis :: "pki_store option"
  vi_defaults :: provider_defaults
  vi_bucket :: bool

definition build_ctx :: "validate_input \<Rightarrow> file_set \<Rightarrow> region_ctx" where
  "build_ctx vi fs =
     ctx_global (vi_global vi) (ctx_nginx fs (ctx_binds fs (ctx_base fs
       (ctx_callers (vi_siblings vi) (vi_global vi)
         (empty_ctx (vi_available vi) (vi_sizes vi) (vi_bucket vi) (vi_pkis vi) (vi_store vi)
            (vi_defaults vi) (length (fs_gateway fs)))))))"

end
