(* ===== verification/CtxFacts.thy ===== *)
theory CtxFacts
  imports ValidateCtx
begin

text \<open>
  What the passes of the context record: each pass only adds to the port tables, keeps the
  identity of hosts, and registers every bind a parsed service declares.  The checks are proved
  against these facts, not against the passes.
\<close>

subsection \<open>Growth of the port tables\<close>

definition table_le :: "port_users \<Rightarrow> port_users \<Rightarrow> bool" where
  "table_le m m' \<longleftrightarrow> (\<forall>h p. prefix (m h p) (m' h p))"

lemma table_le_refl [simp]: "table_le m m"
  by (simp add: table_le_def)

lemma table_le_trans: "table_le a b \<Longrightarrow> table_le b c \<Longrightarrow> table_le a c"
  unfolding table_le_def using prefix_order.order_trans by blast

lemma table_le_add [simp]: "table_le m (add_user h p u m)"
  by (simp add: table_le_def add_user_def)

lemma add_user_in [simp]: "u \<in> set (add_user h p u m h p)"
  by (simp add: add_user_def)

lemma table_le_set: "table_le m m' \<Longrightarrow> u \<in> set (m h p) \<Longrightarrow> u \<in> set (m' h p)"
  unfolding table_le_def by (meson set_mono_prefix subsetD)

text \<open>The fields that the passes after the base context only read.\<close>

definition same_base :: "region_ctx \<Rightarrow> region_ctx \<Rightarrow> bool" where
  "same_base c d \<longleftrightarrow>
     cx_computeNames d = cx_computeNames c \<and> cx_canonical d = cx_canonical c
     \<and> cx_ingressHost d = cx_ingressHost c \<and> cx_ingressHealth d = cx_ingressHealth c
     \<and> cx_ingressNamesByHost d = cx_ingressNamesByHost c \<and> cx_gatewayHost d = cx_gatewayHost c
     \<and> cx_gatewayTargets d = cx_gatewayTargets c \<and> cx_gatewayHealth d = cx_gatewayHealth c
     \<and> cx_clusterHosts d = cx_clusterHosts c \<and> cx_gatewayIngressHost d = cx_gatewayIngressHost c
     \<and> cx_networks d = cx_networks c \<and> cx_computeNetwork d = cx_computeNetwork c
     \<and> cx_servicePki d = cx_servicePki c \<and> cx_serviceHost d = cx_serviceHost c
     \<and> cx_serviceNames d = cx_serviceNames c \<and> cx_meshServices d = cx_meshServices c
     \<and> cx_publicPaths d = cx_publicPaths c \<and> cx_ingressNames d = cx_ingressNames c
     \<and> cx_dbPhysical d = cx_dbPhysical c \<and> cx_callerPki d = cx_callerPki c
     \<and> cx_callerCandidates d = cx_callerCandidates c \<and> cx_store d = cx_store c
     \<and> cx_appSubdomains d = cx_appSubdomains c"

definition ctx_le :: "region_ctx \<Rightarrow> region_ctx \<Rightarrow> bool" where
  "ctx_le c d \<longleftrightarrow> same_base c d
     \<and> table_le (cx_targetUsers c) (cx_targetUsers d) \<and> table_le (cx_udpUsers c) (cx_udpUsers d)
     \<and> table_le (cx_portUsers c) (cx_portUsers d)
     \<and> table_le (cx_forwardUsers c) (cx_forwardUsers d)
     \<and> (\<forall>h. cx_nginxBinds c h \<subseteq>\<^sub>m cx_nginxBinds d h)
     \<and> set (cx_tlsTerm c) \<subseteq> set (cx_tlsTerm d)
     \<and> (\<forall>h. cx_meshHosts c h \<longrightarrow> cx_meshHosts d h)"

lemma ctx_le_refl [simp]: "ctx_le c c"
  by (simp add: ctx_le_def same_base_def)

lemma ctx_le_trans: "ctx_le a b \<Longrightarrow> ctx_le b c \<Longrightarrow> ctx_le a c"
  unfolding ctx_le_def same_base_def by (auto intro: table_le_trans map_le_trans)

lemma canonicalHost_base: "same_base c d \<Longrightarrow> canonicalHost h d = canonicalHost h c"
  by (simp add: same_base_def canonicalHost_def)

lemma ctx_le_same: "ctx_le c d \<Longrightarrow> same_base c d"
  by (simp add: ctx_le_def)

lemma fold_ctx_le:
  "(\<And>x c. ctx_le c (f x c)) \<Longrightarrow> ctx_le c (fold f xs c)"
proof (induction xs arbitrary: c)
  case Nil
  then show ?case by simp
next
  case (Cons x xs)
  then show ?case by (metis ctx_le_trans fold_simps(2))
qed

text \<open>An element of a pass is stepped from a context in between.\<close>

lemma fold_ctx_at:
  assumes "\<And>x c. ctx_le c (f x c)" and "x \<in> set xs"
  obtains c' where "ctx_le c c'" "ctx_le (f x c') (fold f xs c)"
proof -
  from assms(2) obtain ys zs where "xs = ys @ x # zs" by (meson split_list)
  then have "fold f xs c = fold f zs (f x (fold f ys c))" by simp
  then show thesis
    using that [of "fold f ys c"] fold_ctx_le [of f, OF assms(1)] by simp
qed

subsection \<open>Each pass grows the context\<close>

lemma ctx_le_mesh: "ctx_le c (ctx_mesh s c)"
  by (auto simp: ctx_mesh_def ctx_le_def same_base_def Let_def split: option.splits)

lemma ctx_le_route: "ctx_le c (ctx_route s ing b rt c)"
  by (auto simp: ctx_route_def ctx_le_def same_base_def Let_def split: option.splits)

lemma ctx_le_routes: "ctx_le c (ctx_routes s c)"
proof -
  let ?hb = "canonicalHost (svc_host s) c"
  let ?c1 = "if svc_health_port s \<noteq> 0 \<and> ?hb \<noteq> []
    then c\<lparr>cx_targetUsers := add_user ?hb (svc_health_port s) (svc_name s) (cx_targetUsers c)\<rparr> else c"
  have "ctx_le c ?c1" by (simp add: ctx_le_def same_base_def)
  moreover have "ctx_le d (if A then d else fold (ctx_route s ing b) rts d)" for A d ing b rts
    by (simp add: fold_ctx_le ctx_le_route)
  ultimately show ?thesis
    unfolding ctx_routes_def Let_def by (rule ctx_le_trans)
qed

lemma ctx_le_exposed_port: "ctx_le c (ctx_exposed_port s b ep c)"
  by (simp add: ctx_exposed_port_def ctx_le_def same_base_def)

lemma ctx_le_exposed: "ctx_le c (ctx_exposed s c)"
  by (simp add: ctx_exposed_def Let_def fold_ctx_le ctx_le_exposed_port)

lemma ctx_le_bind: "ctx_le c (addNginxBind h p r c)"
  by (auto simp: addNginxBind_def ctx_le_def same_base_def map_le_def split: option.splits)

lemma ctx_le_tls: "ctx_le c (c\<lparr>cx_tlsTerm := List.insert h (cx_tlsTerm c)\<rparr>)"
  by (auto simp: ctx_le_def same_base_def)

lemma ctx_le_app_tls: "ctx_le c (ctx_app_tls a c)"
  by (simp add: ctx_app_tls_def Let_def ctx_le_trans [OF ctx_le_tls ctx_le_bind])

lemma ctx_le_gateway_binds: "ctx_le c (ctx_gateway_binds c)"
proof -
  have "ctx_le c (addNginxBind h p r (addNginxBind h' p' r'
      (c\<lparr>cx_tlsTerm := List.insert t (cx_tlsTerm c)\<rparr>)))" for h p r h' p' r' t
    by (rule ctx_le_trans [OF ctx_le_trans [OF ctx_le_tls ctx_le_bind] ctx_le_bind])
  then show ?thesis by (simp add: ctx_gateway_binds_def Let_def ctx_le_bind)
qed

lemma ctx_le_acme: "ctx_le c (ctx_acme c)"
  by (simp add: ctx_acme_def fold_ctx_le ctx_le_bind)

lemma ctx_le_mesh_host: "ctx_le c (c\<lparr>cx_meshHosts := set_true h (cx_meshHosts c)\<rparr>)"
  by (simp add: ctx_le_def same_base_def set_true_def)

lemma ctx_le_health_bind: "ctx_le c (ctx_health_bind s c)"
proof -
  let ?c1 = "if svc_health_port s \<noteq> 0 then
           (case (cx_ingressHost c (svc_ingress s), svc_ingress s \<noteq> []) of
              (Some host, True) \<Rightarrow>
                addNginxBind host (cx_ingressHealth c (svc_ingress s)) bindReasonHealth c
            | _ \<Rightarrow> if svc_ingress s = [] \<and> cx_gatewayTargets c (svc_name s)
                   then addNginxBind (cx_gatewayHost c) (cx_gatewayHealth c) bindReasonHealth c
                   else c)
         else c"
  have "ctx_le c ?c1" by (auto simp: ctx_le_bind split: option.splits bool.splits)
  moreover have "ctx_le d (if A then d\<lparr>cx_meshHosts := set_true h (cx_meshHosts d)\<rparr> else d)"
    for A d h by (simp add: ctx_le_mesh_host)
  ultimately show ?thesis
    unfolding ctx_health_bind_def Let_def by (rule ctx_le_trans)
qed

lemma ctx_le_gateway_mesh: "ctx_le c (ctx_gateway_mesh c)"
  by (simp add: ctx_gateway_mesh_def ctx_le_mesh_host)

lemma ctx_le_global: "ctx_le c (ctx_global g c)"
  by (simp add: ctx_global_def ctx_le_def same_base_def split: option.splits)

lemmas ctx_le_steps = ctx_le_mesh ctx_le_routes ctx_le_exposed ctx_le_app_tls ctx_le_health_bind

end
