(* ===== verification/CtxBinds.thy ===== *)
theory CtxBinds
  imports CtxFacts
begin

text \<open>
  The registration theorem of the context: every port that a parsed service, app or gateway
  binds on a host is in the table the checks consult for that host.
\<close>

subsection \<open>What a service binds\<close>

definition mesh_binds :: "service_spec \<Rightarrow> int list" where
  "mesh_binds s = (case svc_mesh s of None \<Rightarrow> []
     | Some m \<Rightarrow> if mesh_port m \<noteq> 0 then [mesh_port m] else [])"

definition health_binds :: "service_spec \<Rightarrow> int list" where
  "health_binds s = (if svc_health_port s \<noteq> 0 then [svc_health_port s] else [])"

definition route_binds :: "service_spec \<Rightarrow> int list" where
  "route_binds s = (if svc_ingress s \<noteq> [] then map rt_target (svc_routes s) else [])"

definition tcp_exposed :: "service_spec \<Rightarrow> int list" where
  "tcp_exposed s = map ep_port (filter (\<lambda>e. ep_proto e \<noteq> ''udp'') (svc_exposed s))"

definition udp_exposed :: "service_spec \<Rightarrow> int list" where
  "udp_exposed s = map ep_port (filter (\<lambda>e. ep_proto e = ''udp'') (svc_exposed s))"

definition tcp_binds :: "service_spec \<Rightarrow> int list" where
  "tcp_binds s = mesh_binds s @ health_binds s @ route_binds s @ tcp_exposed s"

subsection \<open>Where the passes stand in the final context\<close>

definition start_ctx :: "validate_input \<Rightarrow> file_set \<Rightarrow> region_ctx" where
  "start_ctx vi fs = ctx_base fs (ctx_callers (vi_siblings vi) (vi_global vi)
     (empty_ctx (vi_available vi) (vi_sizes vi) (vi_bucket vi) (vi_pkis vi) (vi_store vi)
        (vi_defaults vi) (length (fs_gateway fs))))"

abbreviation services_of :: "file_set \<Rightarrow> service_spec list" where
  "services_of fs \<equiv> parsed_specs (fs_service fs)"

lemma build_ctx_start:
  "build_ctx vi fs = ctx_global (vi_global vi) (ctx_nginx fs (ctx_binds fs (start_ctx vi fs)))"
  by (simp add: build_ctx_def start_ctx_def)

lemma ctx_le_nginx_tail:
  "ctx_le (ctx_gateway_binds (fold ctx_app_tls apps c))
     (ctx_gateway_mesh (fold ctx_health_bind svcs (ctx_acme (ctx_gateway_binds (fold ctx_app_tls apps c)))))"
  by (rule ctx_le_trans [OF ctx_le_acme ctx_le_trans [OF fold_ctx_le ctx_le_gateway_mesh]])
     (rule ctx_le_health_bind)

lemma ctx_le_nginx: "ctx_le c (ctx_nginx fs c)"
  unfolding ctx_nginx_def
  by (rule ctx_le_trans [OF ctx_le_trans [OF fold_ctx_le ctx_le_gateway_binds] ctx_le_nginx_tail])
     (rule ctx_le_app_tls)

lemma ctx_le_build: "ctx_le (ctx_binds fs (start_ctx vi fs)) (build_ctx vi fs)"
  unfolding build_ctx_start by (rule ctx_le_trans [OF ctx_le_nginx ctx_le_global])

lemma mesh_pass:
  assumes "s \<in> set (services_of fs)"
  obtains c where "ctx_le (start_ctx vi fs) c" "ctx_le (ctx_mesh s c) (build_ctx vi fs)"
proof -
  let ?m = "fold ctx_mesh (services_of fs) (start_ctx vi fs)"
  have "ctx_le ?m (ctx_binds fs (start_ctx vi fs))"
    unfolding ctx_binds_def Let_def
    by (intro ctx_le_trans [OF fold_ctx_le fold_ctx_le] ctx_le_routes ctx_le_exposed)
  then have le: "ctx_le ?m (build_ctx vi fs)" by (rule ctx_le_trans [OF _ ctx_le_build])
  obtain c where "ctx_le (start_ctx vi fs) c" "ctx_le (ctx_mesh s c) ?m"
    using fold_ctx_at [of ctx_mesh, OF ctx_le_mesh assms] by blast
  then show thesis using that ctx_le_trans [OF _ le] by blast
qed

lemma routes_pass:
  assumes "s \<in> set (services_of fs)"
  obtains c where "ctx_le (start_ctx vi fs) c" "ctx_le (ctx_routes s c) (build_ctx vi fs)"
proof -
  let ?m = "fold ctx_mesh (services_of fs) (start_ctx vi fs)"
  let ?r = "fold ctx_routes (services_of fs) ?m"
  have "ctx_le ?r (ctx_binds fs (start_ctx vi fs))"
    unfolding ctx_binds_def Let_def by (intro fold_ctx_le ctx_le_exposed)
  then have le: "ctx_le ?r (build_ctx vi fs)" by (rule ctx_le_trans [OF _ ctx_le_build])
  have st: "ctx_le (start_ctx vi fs) ?m" by (intro fold_ctx_le ctx_le_mesh)
  obtain c where "ctx_le ?m c" "ctx_le (ctx_routes s c) ?r"
    using fold_ctx_at [of ctx_routes, OF ctx_le_routes assms] by blast
  then show thesis using that ctx_le_trans [OF _ le] ctx_le_trans [OF st] by blast
qed

lemma exposed_pass:
  assumes "s \<in> set (services_of fs)"
  obtains c where "ctx_le (start_ctx vi fs) c" "ctx_le (ctx_exposed s c) (build_ctx vi fs)"
proof -
  let ?r = "fold ctx_routes (services_of fs) (fold ctx_mesh (services_of fs) (start_ctx vi fs))"
  let ?e = "fold ctx_exposed (services_of fs) ?r"
  have le: "ctx_le ?e (build_ctx vi fs)"
    using ctx_le_build [of fs vi] by (simp add: ctx_binds_def Let_def)
  have st: "ctx_le (start_ctx vi fs) ?r"
    by (rule ctx_le_trans [OF fold_ctx_le fold_ctx_le]) (rule ctx_le_mesh ctx_le_routes)+
  obtain c where "ctx_le ?r c" "ctx_le (ctx_exposed s c) ?e"
    using fold_ctx_at [of ctx_exposed, OF ctx_le_exposed assms] by blast
  then show thesis using that ctx_le_trans [OF _ le] ctx_le_trans [OF st] by blast
qed

lemma start_build: "ctx_le (start_ctx vi fs) (build_ctx vi fs)"
proof -
  have "ctx_le (start_ctx vi fs) (ctx_binds fs (start_ctx vi fs))"
    unfolding ctx_binds_def Let_def
    by (rule ctx_le_trans [OF ctx_le_trans [OF fold_ctx_le fold_ctx_le] fold_ctx_le])
       (rule ctx_le_mesh ctx_le_routes ctx_le_exposed)+
  then show ?thesis by (rule ctx_le_trans [OF _ ctx_le_build])
qed

lemma host_between:
  "ctx_le (start_ctx vi fs) c \<Longrightarrow> canonicalHost h c = canonicalHost h (build_ctx vi fs)"
  using canonicalHost_base ctx_le_same start_build by metis

lemma target_le: "ctx_le c d \<Longrightarrow> u \<in> set (cx_targetUsers c h p) \<Longrightarrow> u \<in> set (cx_targetUsers d h p)"
  by (auto simp: ctx_le_def intro: table_le_set)

lemma udp_le: "ctx_le c d \<Longrightarrow> u \<in> set (cx_udpUsers c h p) \<Longrightarrow> u \<in> set (cx_udpUsers d h p)"
  by (auto simp: ctx_le_def intro: table_le_set)

lemma port_le: "ctx_le c d \<Longrightarrow> u \<in> set (cx_portUsers c h p) \<Longrightarrow> u \<in> set (cx_portUsers d h p)"
  by (auto simp: ctx_le_def intro: table_le_set)

lemma forward_le: "ctx_le c d \<Longrightarrow> u \<in> set (cx_forwardUsers c h p) \<Longrightarrow> u \<in> set (cx_forwardUsers d h p)"
  by (auto simp: ctx_le_def intro: table_le_set)

lemma bind_le: "ctx_le c d \<Longrightarrow> cx_nginxBinds c h p \<noteq> None \<Longrightarrow> cx_nginxBinds d h p \<noteq> None"
  by (auto simp: ctx_le_def map_le_def dom_def dest!: spec [of _ h])

lemma canonicalHost_allows [simp]:
  "canonicalHost h (c\<lparr>cx_allowsGateway := x\<rparr>) = canonicalHost h c"
  by (simp add: canonicalHost_def)

subsection \<open>Registration\<close>

lemma mesh_registered:
  assumes "s \<in> set (services_of fs)" and "p \<in> set (mesh_binds s)"
    and h: "h = canonicalHost (svc_host s) (build_ctx vi fs)" "h \<noteq> []"
  shows "svc_name s \<in> set (cx_targetUsers (build_ctx vi fs) h p)"
proof -
  obtain c where c: "ctx_le (start_ctx vi fs) c" "ctx_le (ctx_mesh s c) (build_ctx vi fs)"
    using mesh_pass [OF assms(1)] .
  have "canonicalHost (svc_host s) c = h" using host_between [OF c(1)] h by simp
  then have "svc_name s \<in> set (cx_targetUsers (ctx_mesh s c) h p)"
    using assms(2) h(2) by (auto simp: mesh_binds_def ctx_mesh_def Let_def split: option.splits if_splits)
  then show ?thesis using c(2) by (rule target_le [rotated])
qed

lemma health_registered:
  assumes "s \<in> set (services_of fs)" and "p \<in> set (health_binds s)"
    and h: "h = canonicalHost (svc_host s) (build_ctx vi fs)" "h \<noteq> []"
  shows "svc_name s \<in> set (cx_targetUsers (build_ctx vi fs) h p)"
proof -
  obtain c where c: "ctx_le (start_ctx vi fs) c" "ctx_le (ctx_routes s c) (build_ctx vi fs)"
    using routes_pass [OF assms(1)] .
  have hc: "canonicalHost (svc_host s) c = h" using host_between [OF c(1)] h by simp
  let ?c1 = "c\<lparr>cx_targetUsers := add_user h p (svc_name s) (cx_targetUsers c)\<rparr>"
  have p: "svc_health_port s \<noteq> 0" "p = svc_health_port s"
    using assms(2) by (auto simp: health_binds_def split: if_splits)
  have "ctx_routes s c = (if svc_ingress s = [] \<or> (svc_routes s = [] \<and> svc_health_port s = 0) then ?c1
       else fold (ctx_route s (cx_ingressHost ?c1 (svc_ingress s)) h) (svc_routes s) ?c1)"
    using p h(2) hc by (simp add: ctx_routes_def Let_def)
  moreover have "ctx_le ?c1 (if A then ?c1 else fold (ctx_route s i h) (svc_routes s) ?c1)" for A i
    by (simp add: fold_ctx_le ctx_le_route)
  ultimately have "ctx_le ?c1 (ctx_routes s c)" by simp
  moreover have "svc_name s \<in> set (cx_targetUsers ?c1 h p)" by simp
  ultimately show ?thesis using c(2) target_le by blast
qed

text \<open>A route is registered at its service's own host, and at its ingress's host if that is known.\<close>

lemma route_step:
  assumes "s \<in> set (services_of fs)" and "rt \<in> set (svc_routes s)" and "svc_ingress s \<noteq> []"
    and h: "h = canonicalHost (svc_host s) (build_ctx vi fs)"
  obtains c where "ctx_le (start_ctx vi fs) c"
    "ctx_le (ctx_route s (cx_ingressHost (build_ctx vi fs) (svc_ingress s)) h rt c) (build_ctx vi fs)"
proof -
  obtain c where c: "ctx_le (start_ctx vi fs) c" "ctx_le (ctx_routes s c) (build_ctx vi fs)"
    using routes_pass [OF assms(1)] .
  define c1 where "c1 = (if svc_health_port s \<noteq> 0 \<and> h \<noteq> []
     then c\<lparr>cx_targetUsers := add_user h (svc_health_port s) (svc_name s) (cx_targetUsers c)\<rparr> else c)"
  have le1: "ctx_le c c1" by (simp add: c1_def ctx_le_def same_base_def)
  have hc: "canonicalHost (svc_host s) c = h" using host_between [OF c(1)] h by simp
  have ing: "cx_ingressHost c1 = cx_ingressHost (build_ctx vi fs)"
    using ctx_le_same [OF start_build [of vi fs]] ctx_le_same [OF c(1)] ctx_le_same [OF le1]
    by (simp add: same_base_def)
  have "ctx_routes s c = fold (ctx_route s (cx_ingressHost c1 (svc_ingress s)) h) (svc_routes s) c1"
    using assms(2,3) hc by (auto simp: ctx_routes_def Let_def c1_def)
  then have r: "ctx_routes s c =
      fold (ctx_route s (cx_ingressHost (build_ctx vi fs) (svc_ingress s)) h) (svc_routes s) c1"
    using ing by simp
  obtain c2 where "ctx_le c1 c2"
    "ctx_le (ctx_route s (cx_ingressHost (build_ctx vi fs) (svc_ingress s)) h rt c2) (ctx_routes s c)"
    unfolding r
    using fold_ctx_at [of "ctx_route s (cx_ingressHost (build_ctx vi fs) (svc_ingress s)) h",
        OF ctx_le_route assms(2)] by blast
  then show thesis
    using that c ctx_le_trans le1 by blast
qed

lemma route_registered:
  assumes "s \<in> set (services_of fs)" and "rt \<in> set (svc_routes s)" and "svc_ingress s \<noteq> []"
    and h: "h = canonicalHost (svc_host s) (build_ctx vi fs)" "h \<noteq> []"
  shows "svc_name s \<in> set (cx_targetUsers (build_ctx vi fs) h (rt_target rt))"
proof -
  obtain c where c: "ctx_le (ctx_route s (cx_ingressHost (build_ctx vi fs) (svc_ingress s)) h rt c)
       (build_ctx vi fs)"
    using route_step [OF assms(1-3) h(1)] .
  have "svc_name s \<in> set (cx_targetUsers (ctx_route s i h rt c) h (rt_target rt))" for i
    using h(2) by (simp add: ctx_route_def Let_def)
  then show ?thesis using c target_le by blast
qed

lemma listen_registered:
  assumes "s \<in> set (services_of fs)" and "rt \<in> set (svc_routes s)" and "svc_ingress s \<noteq> []"
    and ih: "cx_ingressHost (build_ctx vi fs) (svc_ingress s) = Some ih"
  shows "svc_name s \<in> set (cx_portUsers (build_ctx vi fs) ih (rt_listen rt))"
    and "rt_type rt = IngressTypeForward \<Longrightarrow>
           svc_name s \<in> set (cx_forwardUsers (build_ctx vi fs) ih (rt_listen rt))"
proof -
  obtain c where c: "ctx_le (ctx_route s (Some ih) (canonicalHost (svc_host s) (build_ctx vi fs)) rt c)
       (build_ctx vi fs)"
    using route_step [OF assms(1-3) refl] ih by metis
  have "svc_name s \<in> set (cx_portUsers (ctx_route s (Some ih) h rt c) ih (rt_listen rt))" for h
    by (simp add: ctx_route_def Let_def)
  then show "svc_name s \<in> set (cx_portUsers (build_ctx vi fs) ih (rt_listen rt))"
    using c port_le by blast
  assume "rt_type rt = IngressTypeForward"
  then have "svc_name s \<in> set (cx_forwardUsers (ctx_route s (Some ih) h rt c) ih (rt_listen rt))" for h
    by (simp add: ctx_route_def Let_def)
  then show "svc_name s \<in> set (cx_forwardUsers (build_ctx vi fs) ih (rt_listen rt))"
    using c forward_le by blast
qed

lemma exposed_registered:
  assumes "s \<in> set (services_of fs)" and "ep \<in> set (svc_exposed s)"
    and h: "h = canonicalHost (svc_host s) (build_ctx vi fs)" "h \<noteq> []"
  shows "ep_proto ep \<noteq> ''udp'' \<Longrightarrow>
           svc_name s \<in> set (cx_targetUsers (build_ctx vi fs) h (ep_port ep))"
    and "ep_proto ep = ''udp'' \<Longrightarrow>
           svc_name s \<in> set (cx_udpUsers (build_ctx vi fs) h (ep_port ep))"
proof -
  obtain c where c: "ctx_le (start_ctx vi fs) c" "ctx_le (ctx_exposed s c) (build_ctx vi fs)"
    using exposed_pass [OF assms(1)] .
  have "canonicalHost (svc_host s) c = h" using host_between [OF c(1)] h by simp
  then have e: "ctx_exposed s c = fold (ctx_exposed_port s h) (svc_exposed s) c"
    using assms(2) h(2) by (auto simp: ctx_exposed_def Let_def)
  obtain d where "ctx_le (ctx_exposed_port s h ep d) (ctx_exposed s c)"
    unfolding e using fold_ctx_at [of "ctx_exposed_port s h", OF ctx_le_exposed_port assms(2)] by blast
  then have d: "ctx_le (ctx_exposed_port s h ep d) (build_ctx vi fs)"
    using c(2) ctx_le_trans by blast
  { assume "ep_proto ep \<noteq> ''udp''"
    then have "svc_name s \<in> set (cx_targetUsers (ctx_exposed_port s h ep d) h (ep_port ep))"
      by (simp add: ctx_exposed_port_def)
    then show "svc_name s \<in> set (cx_targetUsers (build_ctx vi fs) h (ep_port ep))"
      using d target_le by blast }
  { assume "ep_proto ep = ''udp''"
    then have "svc_name s \<in> set (cx_udpUsers (ctx_exposed_port s h ep d) h (ep_port ep))"
      by (simp add: ctx_exposed_port_def)
    then show "svc_name s \<in> set (cx_udpUsers (build_ctx vi fs) h (ep_port ep))"
      using d udp_le by blast }
qed

text \<open>Every TCP port a parsed service binds on its host is in the host's target table.\<close>

lemma tcp_registered:
  assumes "s \<in> set (services_of fs)" and "p \<in> set (tcp_binds s)"
    and "h = canonicalHost (svc_host s) (build_ctx vi fs)" "h \<noteq> []"
  shows "svc_name s \<in> set (cx_targetUsers (build_ctx vi fs) h p)"
  using assms mesh_registered health_registered route_registered exposed_registered(1)
  by (auto simp: tcp_binds_def route_binds_def tcp_exposed_def split: if_splits)

lemma udp_registered:
  assumes "s \<in> set (services_of fs)" and "p \<in> set (udp_exposed s)"
    and "h = canonicalHost (svc_host s) (build_ctx vi fs)" "h \<noteq> []"
  shows "svc_name s \<in> set (cx_udpUsers (build_ctx vi fs) h p)"
  using assms exposed_registered(2) by (auto simp: udp_exposed_def)

subsection \<open>The ports nginx holds\<close>

lemma addNginxBind_bound:
  "h \<noteq> [] \<Longrightarrow> p \<noteq> 0 \<Longrightarrow> cx_nginxBinds (addNginxBind h p r c) h p \<noteq> None"
  by (auto simp: addNginxBind_def split: option.splits)

lemma app_tls_pass:
  assumes "a \<in> set (parsed_specs (fs_app fs))"
    and h: "cx_ingressHost (build_ctx vi fs) (app_ingress a) = Some h" "h \<noteq> []"
  shows "cx_nginxBinds (build_ctx vi fs) h 443 \<noteq> None"
    and "h \<in> set (cx_tlsTerm (fold ctx_app_tls (parsed_specs (fs_app fs)) (ctx_binds fs (start_ctx vi fs))))"
proof -
  let ?b = "ctx_binds fs (start_ctx vi fs)"
  let ?a = "fold ctx_app_tls (parsed_specs (fs_app fs)) ?b"
  obtain c where c: "ctx_le ?b c" "ctx_le (ctx_app_tls a c) ?a"
    using fold_ctx_at [of ctx_app_tls, OF ctx_le_app_tls assms(1)] by blast
  have "cx_ingressHost c = cx_ingressHost (build_ctx vi fs)"
    using ctx_le_same [OF ctx_le_build [of fs vi]] ctx_le_same [OF c(1)] by (simp add: same_base_def)
  then have e: "ctx_app_tls a c
      = addNginxBind h 443 ''app TLS listener'' (c\<lparr>cx_tlsTerm := List.insert h (cx_tlsTerm c)\<rparr>)"
    using h by (simp add: ctx_app_tls_def str_at_def)
  have "ctx_le ?a (build_ctx vi fs)"
    unfolding build_ctx_start ctx_nginx_def
    by (rule ctx_le_trans [OF ctx_le_trans [OF ctx_le_gateway_binds ctx_le_nginx_tail] ctx_le_global])
  moreover have "cx_nginxBinds (ctx_app_tls a c) h 443 \<noteq> None"
    unfolding e by (rule addNginxBind_bound) (use h in auto)
  ultimately show "cx_nginxBinds (build_ctx vi fs) h 443 \<noteq> None"
    using c(2) bind_le by blast
  have "h \<in> set (cx_tlsTerm (ctx_app_tls a c))"
    unfolding e by (simp add: addNginxBind_def split: option.splits)
  then show "h \<in> set (cx_tlsTerm ?a)" using c(2) by (auto simp: ctx_le_def)
qed

text \<open>Port 80 is held wherever the context knows that TLS terminates.\<close>

lemma acme_bound:
  assumes "h \<in> set (cx_tlsTerm (ctx_gateway_binds (fold ctx_app_tls (parsed_specs (fs_app fs))
             (ctx_binds fs (start_ctx vi fs)))))" and "h \<noteq> []"
  shows "cx_nginxBinds (build_ctx vi fs) h 80 \<noteq> None"
proof -
  let ?g = "ctx_gateway_binds (fold ctx_app_tls (parsed_specs (fs_app fs)) (ctx_binds fs (start_ctx vi fs)))"
  let ?f = "\<lambda>h. addNginxBind h 80 ''ACME HTTP-01 challenge/redirect''"
  obtain c where "ctx_le (?f h c) (ctx_acme ?g)"
    using fold_ctx_at [of ?f, OF ctx_le_bind assms(1)] by (metis ctx_acme_def)
  moreover have "cx_nginxBinds (?f h c) h 80 \<noteq> None"
    by (rule addNginxBind_bound) (use assms(2) in auto)
  moreover have "ctx_le (ctx_acme ?g) (build_ctx vi fs)"
    unfolding build_ctx_start ctx_nginx_def
    by (rule ctx_le_trans [OF ctx_le_trans [OF fold_ctx_le ctx_le_gateway_mesh] ctx_le_global])
       (rule ctx_le_health_bind)
  ultimately show ?thesis using bind_le by blast
qed

lemma route_tls_term:
  assumes "s \<in> set (services_of fs)" and "rt \<in> set (svc_routes s)" and "svc_ingress s \<noteq> []"
    and "rt_type rt = IngressTypeTLSTermination"
    and ih: "cx_ingressHost (build_ctx vi fs) (svc_ingress s) = Some ih" "ih \<noteq> []"
  shows "cx_nginxBinds (build_ctx vi fs) ih 80 \<noteq> None"
proof -
  let ?m = "fold ctx_mesh (services_of fs) (start_ctx vi fs)"
  let ?r = "fold ctx_routes (services_of fs) ?m"
  have st: "ctx_le (start_ctx vi fs) ?m" by (intro fold_ctx_le ctx_le_mesh)
  obtain c where c: "ctx_le ?m c" "ctx_le (ctx_routes s c) ?r"
    using fold_ctx_at [of ctx_routes, OF ctx_le_routes assms(1)] by blast
  have ing: "cx_ingressHost c = cx_ingressHost (build_ctx vi fs)"
    using ctx_le_same [OF start_build [of vi fs]] ctx_le_same [OF c(1)] ctx_le_same [OF st]
    by (simp add: same_base_def)
  define hb where "hb = canonicalHost (svc_host s) c"
  define c1 where "c1 = (if svc_health_port s \<noteq> 0 \<and> hb \<noteq> []
     then c\<lparr>cx_targetUsers := add_user hb (svc_health_port s) (svc_name s) (cx_targetUsers c)\<rparr> else c)"
  have r: "ctx_routes s c = fold (ctx_route s (Some ih) hb) (svc_routes s) c1"
    using assms(2,3) ing ih by (auto simp: ctx_routes_def Let_def c1_def hb_def)
  obtain d where "ctx_le (ctx_route s (Some ih) hb rt d) (ctx_routes s c)"
    unfolding r using fold_ctx_at [of "ctx_route s (Some ih) hb", OF ctx_le_route assms(2)] by blast
  moreover have "ih \<in> set (cx_tlsTerm (ctx_route s (Some ih) hb rt d))"
    using assms(4) by (simp add: ctx_route_def Let_def)
  moreover have "ctx_le ?r (ctx_gateway_binds (fold ctx_app_tls (parsed_specs (fs_app fs))
                   (ctx_binds fs (start_ctx vi fs))))"
    unfolding ctx_binds_def Let_def
    by (rule ctx_le_trans [OF ctx_le_trans [OF fold_ctx_le fold_ctx_le] ctx_le_gateway_binds])
       (rule ctx_le_exposed ctx_le_app_tls)+
  ultimately have "ih \<in> set (cx_tlsTerm (ctx_gateway_binds (fold ctx_app_tls (parsed_specs (fs_app fs))
                   (ctx_binds fs (start_ctx vi fs)))))"
    using c(2) by (auto simp: ctx_le_def)
  then show ?thesis using ih(2) by (rule acme_bound)
qed

lemma app_acme:
  assumes "a \<in> set (parsed_specs (fs_app fs))"
    and h: "cx_ingressHost (build_ctx vi fs) (app_ingress a) = Some h" "h \<noteq> []"
  shows "cx_nginxBinds (build_ctx vi fs) h 80 \<noteq> None"
proof (rule acme_bound)
  show "h \<in> set (cx_tlsTerm (ctx_gateway_binds (fold ctx_app_tls (parsed_specs (fs_app fs))
             (ctx_binds fs (start_ctx vi fs)))))"
    using app_tls_pass(2) [OF assms] ctx_le_gateway_binds by (auto simp: ctx_le_def)
qed (rule h)

end
