(* ===== verification/CtxBase.thy ===== *)
theory CtxBase
  imports CtxBinds
begin

text \<open>
  What the base context of the checks says about networks, hosts, clusters, databases, ingresses
  and services: each field of the record is read back as a function of the files.
\<close>

lemma fold_field: "(\<And>x c. g (f x c) = g c) \<Longrightarrow> g (fold f xs c) = g c"
  by (induction xs arbitrary: c) simp_all

lemma fold_hom: "(\<And>x c. g (f x c) = k x (g c)) \<Longrightarrow> g (fold f xs c) = fold k xs (g c)"
  by (induction xs arbitrary: c) simp_all

lemma fold_upd_other: "a \<notin> key ` set xs \<Longrightarrow> fold (\<lambda>x m. m(key x := v x)) xs m a = m a"
  by (induction xs arbitrary: m) auto

lemma fold_upd_at:
  "distinct (map key xs) \<Longrightarrow> x \<in> set xs \<Longrightarrow> fold (\<lambda>x m. m(key x := v x)) xs m (key x) = v x"
proof (induction xs arbitrary: m)
  case Nil
  then show ?case by simp
next
  case (Cons y ys)
  show ?case
  proof (cases "x \<in> set ys")
    case True
    then show ?thesis using Cons by simp
  next
    case False
    then have "x = y" "key x \<notin> key ` set ys" using Cons.prems by auto
    then show ?thesis by (simp add: fold_upd_other del: fun_upd_apply) simp
  qed
qed

lemma fold_update_map_of:
  "distinct (map key xs) \<Longrightarrow> x \<in> set xs \<Longrightarrow>
   map_of (fold (\<lambda>x m. AList.update (key x) x m) xs m) (key x) = Some x"
proof (induction xs arbitrary: m)
  case Nil
  then show ?case by simp
next
  case (Cons y ys)
  have other: "a \<notin> key ` set ys \<Longrightarrow> map_of (fold (\<lambda>x m. AList.update (key x) x m) ys m) a = map_of m a"
    for a m by (induction ys arbitrary: m) (auto simp: update_conv')
  show ?case
  proof (cases "x \<in> set ys")
    case True
    then show ?thesis using Cons by simp
  next
    case False
    then have "x = y" "key x \<notin> key ` set ys" using Cons.prems by auto
    then show ?thesis by (simp add: other update_conv')
  qed
qed

lemma fold_update_dom:
  "set (map fst (fold (\<lambda>x m. AList.update (key x) x m) xs m)) = key ` set xs \<union> set (map fst m)"
  by (induction xs arbitrary: m) (auto simp: dom_update)

subsection \<open>Fields that a pass leaves alone\<close>

lemma instance_networks: "cx_networks (ctx_instance c i ctx) = cx_networks ctx"
  by (simp add: ctx_instance_def Let_def)

lemma fold_instance_fields:
  "cx_networks (fold (ctx_instance c) is ctx) = cx_networks ctx"
  by (rule fold_field) (rule instance_networks)

lemma networks_kept [simp]:
  "cx_networks (ctx_compute c ctx) = cx_networks ctx"
  "cx_networks (ctx_cluster cl ctx) = cx_networks ctx"
  "cx_networks (ctx_database d ctx) = cx_networks ctx"
  "cx_networks (ctx_pki p ctx) = cx_networks ctx"
  "cx_networks (ctx_ingress i ctx) = cx_networks ctx"
  "cx_networks (ctx_app a ctx) = cx_networks ctx"
  "cx_networks (ctx_gateway g ctx) = cx_networks ctx"
  "cx_networks (ctx_service_names s ctx) = cx_networks ctx"
  by (simp_all add: ctx_compute_def ctx_cluster_def ctx_database_def ctx_pki_def ctx_ingress_def
      ctx_app_def ctx_gateway_def ctx_service_names_def Let_def fold_instance_fields instance_networks
      split: option.splits)

definition same_hosts :: "region_ctx \<Rightarrow> region_ctx \<Rightarrow> bool" where
  "same_hosts c d \<longleftrightarrow> cx_computeNames d = cx_computeNames c \<and> cx_canonical d = cx_canonical c"

lemma hosts_kept [simp]:
  "cx_computeNames (ctx_cluster cl ctx) = cx_computeNames ctx"
  "cx_computeNames (ctx_database d ctx) = cx_computeNames ctx"
  "cx_computeNames (ctx_pki p ctx) = cx_computeNames ctx"
  "cx_computeNames (ctx_ingress i ctx) = cx_computeNames ctx"
  "cx_computeNames (ctx_app a ctx) = cx_computeNames ctx"
  "cx_computeNames (ctx_gateway g ctx) = cx_computeNames ctx"
  "cx_computeNames (ctx_service_names s ctx) = cx_computeNames ctx"
  "cx_canonical (ctx_cluster cl ctx) = cx_canonical ctx"
  "cx_canonical (ctx_database d ctx) = cx_canonical ctx"
  "cx_canonical (ctx_pki p ctx) = cx_canonical ctx"
  "cx_canonical (ctx_ingress i ctx) = cx_canonical ctx"
  "cx_canonical (ctx_app a ctx) = cx_canonical ctx"
  "cx_canonical (ctx_gateway g ctx) = cx_canonical ctx"
  "cx_canonical (ctx_service_names s ctx) = cx_canonical ctx"
  by (simp_all add: ctx_cluster_def ctx_database_def ctx_pki_def ctx_ingress_def
      ctx_app_def ctx_gateway_def ctx_service_names_def Let_def split: option.splits)

lemma canonicalHost_cong:
  "cx_computeNames c = cx_computeNames d \<Longrightarrow> cx_canonical c = cx_canonical d
   \<Longrightarrow> canonicalHost h c = canonicalHost h d"
  by (simp add: canonicalHost_def)

lemma clusterHosts_kept [simp]:
  "cx_clusterHosts (ctx_database d ctx) = cx_clusterHosts ctx"
  "cx_clusterHosts (ctx_pki p ctx) = cx_clusterHosts ctx"
  "cx_clusterHosts (ctx_ingress i ctx) = cx_clusterHosts ctx"
  "cx_clusterHosts (ctx_app a ctx) = cx_clusterHosts ctx"
  "cx_clusterHosts (ctx_gateway g ctx) = cx_clusterHosts ctx"
  "cx_clusterHosts (ctx_service_names s ctx) = cx_clusterHosts ctx"
  by (simp_all add: ctx_database_def ctx_pki_def ctx_ingress_def
      ctx_app_def ctx_gateway_def ctx_service_names_def Let_def split: option.splits)

lemma dbPhysical_kept [simp]:
  "cx_dbPhysical (ctx_pki p ctx) = cx_dbPhysical ctx"
  "cx_dbPhysical (ctx_ingress i ctx) = cx_dbPhysical ctx"
  "cx_dbPhysical (ctx_app a ctx) = cx_dbPhysical ctx"
  "cx_dbPhysical (ctx_gateway g ctx) = cx_dbPhysical ctx"
  "cx_dbPhysical (ctx_service_names s ctx) = cx_dbPhysical ctx"
  by (simp_all add: ctx_pki_def ctx_ingress_def
      ctx_app_def ctx_gateway_def ctx_service_names_def Let_def split: option.splits)

lemma ingress_kept [simp]:
  "cx_ingressNames (ctx_app a ctx) = cx_ingressNames ctx"
  "cx_ingressNames (ctx_gateway g ctx) = cx_ingressNames ctx"
  "cx_ingressNames (ctx_service_names s ctx) = cx_ingressNames ctx"
  "cx_ingressHost (ctx_app a ctx) = cx_ingressHost ctx"
  "cx_ingressHost (ctx_gateway g ctx) = cx_ingressHost ctx"
  "cx_ingressHost (ctx_service_names s ctx) = cx_ingressHost ctx"
  by (simp_all add: ctx_app_def ctx_gateway_def ctx_service_names_def Let_def split: option.splits)

lemmas fold_keeps = fold_field [of cx_networks] fold_field [of cx_computeNames]
  fold_field [of cx_canonical] fold_field [of cx_clusterHosts] fold_field [of cx_dbPhysical]
  fold_field [of cx_ingressNames] fold_field [of cx_ingressHost]

subsection \<open>Networks\<close>

lemma start_networks:
  "cx_networks (start_ctx vi fs)
   = fold (\<lambda>n m. AList.update (net_name n) n m) (all_specs (fs_network fs)) []"
proof -
  have callers: "cx_networks (ctx_callers sib gl c) = cx_networks c" for sib gl c
    by (auto simp: ctx_callers_def Let_def split_def fold_keeps split: option.splits)
  have "cx_networks (fold ctx_network ns c)
      = fold (\<lambda>n m. AList.update (net_name n) n m) ns (cx_networks c)" for ns c
    by (rule fold_hom) (simp add: ctx_network_def)
  then show ?thesis
    by (simp add: start_ctx_def ctx_base_def Let_def fold_keeps callers empty_ctx_def)
qed

lemma build_networks: "cx_networks (build_ctx vi fs) = cx_networks (start_ctx vi fs)"
  using ctx_le_same [OF start_build] by (simp add: same_base_def)

lemma network_at:
  assumes "distinct (map net_name (all_specs (fs_network fs)))" and "n \<in> set (all_specs (fs_network fs))"
  shows "map_of (cx_networks (build_ctx vi fs)) (net_name n) = Some n"
  unfolding build_networks start_networks using assms by (rule fold_update_map_of)

lemma network_names:
  "set (map fst (cx_networks (build_ctx vi fs))) = net_name ` set (all_specs (fs_network fs))"
  unfolding build_networks start_networks using fold_update_dom [of net_name _ "[]"] by simp

subsection \<open>Clusters and databases\<close>

lemma cluster_host_registered:
  assumes "d \<in> set (parsed_specs (fs_cluster fs))"
    and h: "h = canonicalHost (cl_host d) (build_ctx vi fs)" "h \<noteq> []"
  shows "cx_clusterHosts (build_ctx vi fs) h"
proof -
  define c3 where "c3 = (let c1 = fold ctx_network (all_specs (fs_network fs))
      (ctx_callers (vi_siblings vi) (vi_global vi)
     (empty_ctx (vi_available vi) (vi_sizes vi) (vi_bucket vi) (vi_pkis vi) (vi_store vi)
        (vi_defaults vi) (length (fs_gateway fs)))) in
     (fold ctx_compute (all_specs (fs_compute fs)) c1)
       \<lparr>cx_canonical := CanonicalComputeKeys (all_specs (fs_compute fs))\<rparr>)"
  let ?f = "fold ctx_cluster (parsed_specs (fs_cluster fs)) c3"
  have st: "cx_clusterHosts (start_ctx vi fs) = cx_clusterHosts ?f"
    "canonicalHost x (start_ctx vi fs) = canonicalHost x c3" for x
    by (simp_all add: start_ctx_def ctx_base_def Let_def fold_keeps c3_def canonicalHost_def)
  have hc: "canonicalHost (cl_host d) c3 = h"
    using host_between [OF ctx_le_refl] st(2) h by simp
  have "d \<in> set ds \<Longrightarrow> canonicalHost (cl_host d) c = h \<Longrightarrow>
      cx_clusterHosts (fold ctx_cluster ds c) h" for ds c
  proof (induction ds arbitrary: c)
    case Nil
    then show ?case by simp
  next
    case (Cons e ds)
    have keep: "canonicalHost x (ctx_cluster e c) = canonicalHost x c" for x
      by (rule canonicalHost_cong) simp_all
    have mono: "cx_clusterHosts c' h \<Longrightarrow> cx_clusterHosts (fold ctx_cluster es c') h" for es c'
      by (induction es arbitrary: c') (auto simp: ctx_cluster_def Let_def set_true_def)
    show ?case
    proof (cases "d \<in> set ds")
      case True
      then show ?thesis using Cons keep by simp
    next
      case False
      then have "d = e" using Cons.prems by simp
      then have "cx_clusterHosts (ctx_cluster e c) h"
        using Cons.prems(2) h(2)
        by (auto simp: ctx_cluster_def Let_def set_true_def canonicalHost_def split: if_splits)
      then show ?thesis using mono by simp
    qed
  qed
  then have "cx_clusterHosts ?f h" using assms(1) hc by blast
  then show ?thesis
    using st(1) ctx_le_same [OF start_build [of vi fs]] by (simp add: same_base_def)
qed

definition targets_db :: "string \<Rightarrow> database_spec src_file \<Rightarrow> bool" where
  "targets_db k f \<longleftrightarrow> sf_parse_err f = None \<and> db_cluster (sf_spec f) \<noteq> []
     \<and> db_database (sf_spec f) \<noteq> []
     \<and> physical_key (db_cluster (sf_spec f)) (db_database (sf_spec f)) = k"

lemma dbPhysical_step:
  "cx_dbPhysical (ctx_database f c) k = cx_dbPhysical c k + (if targets_db k f then 1 else 0)"
  by (auto simp: ctx_database_def Let_def targets_db_def)

lemma dbPhysical_fold:
  "cx_dbPhysical (fold ctx_database fl c) k = cx_dbPhysical c k + length (filter (targets_db k) fl)"
  by (induction fl arbitrary: c) (simp_all add: dbPhysical_step)

lemma instance_dbPhysical: "cx_dbPhysical (ctx_instance c i ctx) = cx_dbPhysical ctx"
  by (simp add: ctx_instance_def Let_def)

lemma dbPhysical_before [simp]:
  "cx_dbPhysical (ctx_network n ctx) = cx_dbPhysical ctx"
  "cx_dbPhysical (ctx_compute c ctx) = cx_dbPhysical ctx"
  "cx_dbPhysical (ctx_cluster cl ctx) = cx_dbPhysical ctx"
  by (simp_all add: ctx_network_def ctx_compute_def ctx_cluster_def Let_def instance_dbPhysical
      fold_keeps)

lemma callers_dbPhysical: "cx_dbPhysical (ctx_callers sib gl c) = cx_dbPhysical c"
  by (auto simp: ctx_callers_def Let_def split_def fold_keeps split: option.splits)

text \<open>The counter of a physical database is the number of database files that target it.\<close>

lemma dbPhysical_count:
  "cx_dbPhysical (build_ctx vi fs) k = length (filter (targets_db k) (fs_database fs))"
proof -
  have "cx_dbPhysical (start_ctx vi fs) k = length (filter (targets_db k) (fs_database fs))"
    by (simp add: start_ctx_def ctx_base_def Let_def fold_keeps dbPhysical_fold callers_dbPhysical
        empty_ctx_def)
  then show ?thesis using ctx_le_same [OF start_build [of vi fs]] by (simp add: same_base_def)
qed

subsection \<open>Services\<close>

lemma service_fields_fold:
  "cx_servicePki (fold ctx_service_names ss c)
     = fold (\<lambda>s m. m(svc_name s := svc_pki s)) ss (cx_servicePki c)"
  "cx_serviceHost (fold ctx_service_names ss c)
     = fold (\<lambda>s m. m(svc_name s := svc_host s)) ss (cx_serviceHost c)"
  by (rule fold_hom, auto simp: ctx_service_names_def Let_def fun_upd_def split: option.splits)+

lemma service_pki_at:
  assumes "distinct (map svc_name (services_of fs))" and "s \<in> set (services_of fs)"
  shows "cx_servicePki (build_ctx vi fs) (svc_name s) = svc_pki s"
    and "cx_serviceHost (build_ctx vi fs) (svc_name s) = svc_host s"
proof -
  have "cx_servicePki (build_ctx vi fs) = cx_servicePki (start_ctx vi fs)"
    "cx_serviceHost (build_ctx vi fs) = cx_serviceHost (start_ctx vi fs)"
    using ctx_le_same [OF start_build [of vi fs]] by (simp_all add: same_base_def)
  then show "cx_servicePki (build_ctx vi fs) (svc_name s) = svc_pki s"
    and "cx_serviceHost (build_ctx vi fs) (svc_name s) = svc_host s"
    using fold_upd_at [of svc_name, OF assms]
    by (simp_all add: start_ctx_def ctx_base_def Let_def service_fields_fold)
qed

lemma public_paths_other:
  "svc_name s \<notin> svc_name ` set ss \<Longrightarrow>
   cx_publicPaths (fold ctx_service_names ss c) (svc_name s) = cx_publicPaths c (svc_name s)"
proof (induction ss arbitrary: c)
  case Nil
  then show ?case by simp
next
  case (Cons x ss)
  then show ?case by (auto simp: ctx_service_names_def Let_def split: option.splits)
qed

lemma public_paths_step:
  "svc_mesh s = Some m \<Longrightarrow> cx_publicPaths (ctx_service_names s c) (svc_name s) = mesh_public m"
  by (simp add: ctx_service_names_def Let_def)

lemma public_paths_fold:
  "distinct (map svc_name ss) \<Longrightarrow> s \<in> set ss \<Longrightarrow> svc_mesh s = Some m \<Longrightarrow>
   cx_publicPaths (fold ctx_service_names ss c) (svc_name s) = mesh_public m"
proof (induction ss arbitrary: c)
  case Nil
  then show ?case by simp
next
  case (Cons x ss)
  show ?case
  proof (cases "s \<in> set ss")
    case True
    then show ?thesis using Cons by simp
  next
    case False
    then have "s = x" "svc_name s \<notin> svc_name ` set ss" using Cons.prems by auto
    then show ?thesis
      using public_paths_other [of s ss "ctx_service_names s c"]
        public_paths_step [OF Cons.prems(3), of c] by simp
  qed
qed

lemma public_paths_at:
  assumes "distinct (map svc_name (services_of fs))" and "s \<in> set (services_of fs)"
    and "svc_mesh s = Some m"
  shows "cx_publicPaths (build_ctx vi fs) (svc_name s) = mesh_public m"
proof -
  have "cx_publicPaths (build_ctx vi fs) = cx_publicPaths (start_ctx vi fs)"
    using ctx_le_same [OF start_build [of vi fs]] by (simp add: same_base_def)
  then show ?thesis
    using public_paths_fold [OF assms] by (simp add: start_ctx_def ctx_base_def Let_def)
qed

subsection \<open>Ingresses\<close>

lemma ingress_names_fold:
  "set (cx_ingressNames (fold ctx_ingress is c)) = ing_name ` set is \<union> set (cx_ingressNames c)"
  by (induction "is" arbitrary: c) (auto simp: ctx_ingress_def Let_def)

lemma ingress_known:
  "i \<in> set (parsed_specs (fs_ingress fs)) \<Longrightarrow> ing_name i \<in> set (cx_ingressNames (build_ctx vi fs))"
proof -
  assume "i \<in> set (parsed_specs (fs_ingress fs))"
  then have "ing_name i \<in> set (cx_ingressNames (start_ctx vi fs))"
    by (simp add: start_ctx_def ctx_base_def Let_def fold_keeps ingress_names_fold)
  then show ?thesis using ctx_le_same [OF start_build [of vi fs]] by (simp add: same_base_def)
qed

end
