(* ===== verification/Cidr.thy ===== *)
theory Cidr
  imports Prelude "HOL-Library.Word"
begin

unbundle bit_operations_syntax

text \<open>
  Model of \<open>internal/validate/cidr.go\<close> and of what it uses of Go's \<open>net\<close> package: CIDR parsing for
  both address families, masks and \<open>IPNet.Contains\<close>, over lists of bytes.
\<close>

type_synonym byte = "8 word"

subsection \<open>Addresses\<close>

definition dec_field :: "string \<Rightarrow> byte option" where
  "dec_field s =
     (case atoi s of
        None \<Rightarrow> None
      | Some n \<Rightarrow> if n > 255 \<or> (length s > 1 \<and> hd s = CHR ''0'') then None
                  else Some (of_nat n))"

fun all_some :: "'a option list \<Rightarrow> 'a list option" where
  "all_some [] = Some []"
| "all_some (None # xs) = None"
| "all_some (Some x # xs) = map_option ((#) x) (all_some xs)"

definition parse_ipv4 :: "string \<Rightarrow> byte list option" where
  "parse_ipv4 s =
     (let fs = split_on CHR ''.'' s in
      if length fs \<noteq> 4 then None else all_some (map dec_field fs))"

definition hex_val :: "char \<Rightarrow> nat option" where
  "hex_val c =
     (let n = of_char c :: nat in
      if 48 \<le> n \<and> n \<le> 57 then Some (n - 48)
      else if 97 \<le> n \<and> n \<le> 102 then Some (n - 87)
      else if 65 \<le> n \<and> n \<le> 70 then Some (n - 55)
      else None)"

definition hex_value :: "string \<Rightarrow> nat" where
  "hex_value s = foldl (\<lambda>a c. a * 16 + (case hex_val c of Some d \<Rightarrow> d | None \<Rightarrow> 0)) 0 s"

text \<open>
  The group loop of the IPv6 parser: \<open>k\<close> groups may still follow, \<open>bs\<close> are the bytes so far and
  \<open>ell\<close> the position of the ellipsis.
\<close>

fun ipv6_groups :: "nat \<Rightarrow> byte list \<Rightarrow> nat option \<Rightarrow> string
    \<Rightarrow> (byte list \<times> nat option \<times> string) option" where
  "ipv6_groups 0 bs ell s = Some (bs, ell, s)"
| "ipv6_groups (Suc k) bs ell s =
     (let h = takeWhile (\<lambda>c. hex_val c \<noteq> None) s; rest = drop (length h) s in
      if h = [] \<or> length h > 4 then None
      else if prefix ''.'' rest then
        (if (ell = None \<and> length bs \<noteq> 12) \<or> length bs + 4 > 16 then None
         else map_option (\<lambda>v4. (bs @ v4, ell, [])) (parse_ipv4 s))
      else
        let bs' = bs @ [of_nat (hex_value h div 256), of_nat (hex_value h mod 256)] in
        if rest = [] then Some (bs', ell, [])
        else if hd rest \<noteq> CHR '':'' \<or> length rest = 1 then None
        else if rest ! 1 = CHR '':'' then
          (if ell \<noteq> None then None
           else if length rest = 2 then Some (bs', Some (length bs'), [])
           else ipv6_groups k bs' (Some (length bs')) (drop 2 rest))
        else ipv6_groups k bs' ell (tl rest))"

definition parse_ipv6 :: "string \<Rightarrow> byte list option" where
  "parse_ipv6 s =
     (let (ell, s') = (if prefix ''::'' s then (Some 0, drop 2 s) else (None, s)) in
      if ell = Some 0 \<and> s' = [] then Some (replicate 16 0)
      else case ipv6_groups 8 [] ell s' of
        None \<Rightarrow> None
      | Some (bs, e, rest) \<Rightarrow>
          if rest \<noteq> [] then None
          else if length bs < 16 then
            (case e of None \<Rightarrow> None
             | Some p \<Rightarrow> Some (take p bs @ replicate (16 - length bs) 0 @ drop p bs))
          else if e \<noteq> None then None else Some bs)"

text \<open>The first of dot, colon and percent sign decides the family; a zone is not allowed.\<close>

definition parse_addr :: "string \<Rightarrow> byte list option" where
  "parse_addr s =
     (case dropWhile (\<lambda>c. c \<notin> {CHR ''.'', CHR '':'', CHR ''%''}) s of
        [] \<Rightarrow> None
      | c # _ \<Rightarrow> if c = CHR ''.'' then parse_ipv4 s
                 else if c = CHR '':'' then
                   (if CHR ''%'' \<in> set s then None else parse_ipv6 s)
                 else None)"

subsection \<open>Networks\<close>

text \<open>The network address (4 or 16 bytes) and the number of leading one bits of the mask.\<close>

record ipnet =
  ipn_ip :: "byte list"
  ipn_ones :: nat

definition byte_mask :: "nat \<Rightarrow> byte" where
  "byte_mask k = (if k \<ge> 8 then 0xFF else push_bit (8 - k) 0xFF)"

definition mask_byte :: "nat \<Rightarrow> nat \<Rightarrow> byte" where
  "mask_byte ones i = byte_mask (ones - 8 * i)"

definition CIDRMask :: "nat \<Rightarrow> nat \<Rightarrow> byte list" where
  "CIDRMask ones n = map (mask_byte ones) [0..<n]"

definition mask_ip :: "byte list \<Rightarrow> byte list \<Rightarrow> byte list" where
  "mask_ip ip m = map2 (AND) ip m"

definition ParseCIDR :: "string \<Rightarrow> ipnet option" where
  "ParseCIDR s =
     (case cut_at CHR ''/'' s of
        None \<Rightarrow> None
      | Some (addr, msk) \<Rightarrow>
     (case parse_addr addr of
        None \<Rightarrow> None
      | Some ip \<Rightarrow>
     (case atoi msk of
        None \<Rightarrow> None
      | Some n \<Rightarrow>
          if n > 8 * length ip then None
          else Some \<lparr>ipn_ip = mask_ip ip (CIDRMask n (length ip)), ipn_ones = n\<rparr>)))"

definition v4prefix :: "byte list" where
  "v4prefix = replicate 10 0 @ [0xFF, 0xFF]"

definition To4 :: "byte list \<Rightarrow> byte list option" where
  "To4 ip = (if length ip = 4 then Some ip
             else if length ip = 16 \<and> take 12 ip = v4prefix then Some (drop 12 ip)
             else None)"

text \<open>\<open>networkNumberAndMask\<close>: a mapped IPv4 network keeps the last four bytes of its mask.\<close>

definition network_number_mask :: "ipnet \<Rightarrow> byte list \<times> byte list" where
  "network_number_mask n =
     (let m = CIDRMask (ipn_ones n) (length (ipn_ip n)) in
      case To4 (ipn_ip n) of
        None \<Rightarrow> (ipn_ip n, m)
      | Some ip4 \<Rightarrow> (ip4, if length m = 16 then drop 12 m else m))"

definition Contains :: "ipnet \<Rightarrow> byte list \<Rightarrow> bool" where
  "Contains n ip =
     (let (nn, m) = network_number_mask n;
          x = (case To4 ip of Some ip4 \<Rightarrow> ip4 | None \<Rightarrow> ip)
      in length x = length nn
         \<and> list_all (\<lambda>((a, b), k). a AND k = b AND k) (zip (zip nn x) m))"

definition cidrContains :: "ipnet \<Rightarrow> ipnet \<Rightarrow> bool" where
  "cidrContains parent child \<longleftrightarrow>
     Contains parent (ipn_ip child) \<and> ipn_ones parent \<le> ipn_ones child"

definition parseCIDR :: "string \<Rightarrow> string \<Rightarrow> (string \<times> string) + ipnet" where
  "parseCIDR field cidr =
     (case ParseCIDR cidr of None \<Rightarrow> Inl (field, cidr) | Some n \<Rightarrow> Inr n)"

subsection \<open>Lemmas\<close>

lemma byte_mask_min: "byte_mask k = byte_mask (min k 8)"
  by (simp add: byte_mask_def)

lemma byte_mask_table:
  "\<forall>a\<in>set [0..<9]. \<forall>b\<in>set [0..<9]. a \<le> b \<longrightarrow> byte_mask a AND byte_mask b = byte_mask a"
  by code_simp

lemma byte_mask_mono: "a \<le> b \<Longrightarrow> byte_mask a AND byte_mask b = byte_mask a"
proof -
  assume "a \<le> b"
  moreover have "min a 8 \<in> set [0..<9]" "min b 8 \<in> set [0..<9]" by auto
  ultimately have "byte_mask (min a 8) AND byte_mask (min b 8) = byte_mask (min a 8)"
    using byte_mask_table by (meson min.mono order_refl)
  then show ?thesis by (simp add: byte_mask_min [symmetric])
qed

lemma mask_byte_mono: "a \<le> b \<Longrightarrow> mask_byte a i AND mask_byte b i = mask_byte a i"
  by (simp add: mask_byte_def byte_mask_mono)

lemma length_CIDRMask [simp]: "length (CIDRMask n k) = k"
  by (simp add: CIDRMask_def)

text \<open>The bytes that an address is compared by.\<close>

definition compared :: "byte list \<Rightarrow> byte list" where
  "compared ip = (case To4 ip of Some ip4 \<Rightarrow> ip4 | None \<Rightarrow> ip)"

definition compare_mask :: "ipnet \<Rightarrow> byte list" where
  "compare_mask n = snd (network_number_mask n)"

lemma length_compared: "length (compared ip) = (if To4 ip = None then length ip else 4)"
  by (auto simp: compared_def To4_def split: if_splits option.splits)

lemma network_number: "fst (network_number_mask n) = compared (ipn_ip n)"
  by (auto simp: network_number_mask_def compared_def Let_def split: option.splits)

lemma compare_mask_length: "length (compare_mask n) = length (compared (ipn_ip n))"
  by (auto simp: compare_mask_def network_number_mask_def length_compared To4_def
      split: option.splits if_splits)

lemma Contains_iff:
  "Contains n ip \<longleftrightarrow> length (compared ip) = length (compared (ipn_ip n))
     \<and> (\<forall>i<length (compared (ipn_ip n)).
           compared (ipn_ip n) ! i AND compare_mask n ! i = compared ip ! i AND compare_mask n ! i)"
proof -
  have "Contains n ip \<longleftrightarrow> length (compared ip) = length (compared (ipn_ip n))
     \<and> list_all (\<lambda>((a, b), k). a AND k = b AND k)
          (zip (zip (compared (ipn_ip n)) (compared ip)) (compare_mask n))"
    by (cases "network_number_mask n")
      (use network_number [of n] in
        \<open>simp add: Contains_def compare_mask_def compared_def [of ip] Let_def\<close>)
  then show ?thesis
    by (auto simp: list_all_length compare_mask_length)
qed

lemma compare_mask_mono:
  assumes "length (ipn_ip p) = length (ipn_ip c)" and "ipn_ones p \<le> ipn_ones c"
    and "length (compared (ipn_ip p)) = length (compared (ipn_ip c))"
    and "i < length (compared (ipn_ip p))"
  shows "compare_mask p ! i AND compare_mask c ! i = compare_mask p ! i"
proof -
  have m: "compare_mask n = (if To4 (ipn_ip n) \<noteq> None \<and> length (ipn_ip n) = 16
      then drop 12 (CIDRMask (ipn_ones n) 16) else CIDRMask (ipn_ones n) (length (ipn_ip n)))" for n
    by (auto simp: compare_mask_def network_number_mask_def Let_def split: option.splits)
  consider "To4 (ipn_ip p) \<noteq> None" "length (ipn_ip p) = 16" "To4 (ipn_ip c) \<noteq> None"
    | "\<not> (To4 (ipn_ip p) \<noteq> None \<and> length (ipn_ip p) = 16)"
      "\<not> (To4 (ipn_ip c) \<noteq> None \<and> length (ipn_ip c) = 16)"
    using assms(1,3) by (auto simp: length_compared split: if_splits)
  then show ?thesis
  proof cases
    case 1
    then show ?thesis using assms m [of p] m [of c]
      by (simp add: length_compared CIDRMask_def mask_byte_mono split: if_splits)
  next
    case 2
    have "length (compared (ipn_ip p)) = length (ipn_ip p)"
      using 2 by (auto simp: length_compared To4_def split: if_splits)
    with 2 show ?thesis using assms(1,2,4) m [of p] m [of c]
      by (simp only: if_False) (simp add: CIDRMask_def mask_byte_mono)
  qed
qed

text \<open>
  For networks of one family the check is containment: every address of the child is an address
  of the parent.
\<close>

lemma cidrContains_sound:
  assumes "cidrContains p c" and "length (ipn_ip p) = length (ipn_ip c)" and "Contains c ip"
  shows "Contains p ip"
proof -
  from assms(1) have pc: "Contains p (ipn_ip c)" "ipn_ones p \<le> ipn_ones c"
    by (simp_all add: cidrContains_def)
  let ?n = "length (compared (ipn_ip p))"
  have len: "length (compared (ipn_ip c)) = ?n" "length (compared ip) = ?n"
    using pc(1) assms(3) by (simp_all add: Contains_iff)
  have "compared (ipn_ip p) ! i AND compare_mask p ! i = compared ip ! i AND compare_mask p ! i"
    if i: "i < ?n" for i
  proof -
    let ?P = "compare_mask p ! i" and ?C = "compare_mask c ! i"
    have m: "?C AND ?P = ?P"
      using compare_mask_mono [OF assms(2) pc(2) _ i] len by (simp add: and.commute)
    have "compared (ipn_ip p) ! i AND ?P = compared (ipn_ip c) ! i AND ?P"
      using pc(1) i by (simp add: Contains_iff)
    also have "\<dots> = (compared (ipn_ip c) ! i AND ?C) AND ?P"
      by (simp add: and.assoc m)
    also have "compared (ipn_ip c) ! i AND ?C = compared ip ! i AND ?C"
      using assms(3) i len by (simp add: Contains_iff)
    also have "(compared ip ! i AND ?C) AND ?P = compared ip ! i AND ?P"
      by (simp add: and.assoc m)
    finally show ?thesis .
  qed
  then show ?thesis using len by (simp add: Contains_iff)
qed

lemma cidrContains_trans:
  "cidrContains a b \<Longrightarrow> cidrContains b c \<Longrightarrow> length (ipn_ip a) = length (ipn_ip b)
   \<Longrightarrow> cidrContains a c"
  using cidrContains_sound [of a b "ipn_ip c"] by (auto simp: cidrContains_def)

lemma cidrContains_refl: "cidrContains n n"
  by (simp add: cidrContains_def Contains_iff)

end
