(* ===== verification/Duration.thy ===== *)
theory Duration
  imports Dsl
begin

text \<open>
  Go's \<open>time.ParseDuration\<close>, as far as the program uses it (backup intervals, the TTL of an
  ephemeral environment): nanoseconds, with the overflow checks of the 64-bit accumulator.  The
  fraction of a unit is computed exactly, where Go rounds through \<open>float64\<close> (a difference of at
  most a nanosecond of the fraction); \<open>None\<close> is the parse error.
\<close>

definition duration_limit :: int where "duration_limit = 2 ^ 63"

definition unit_ns :: "string \<Rightarrow> int option" where
  "unit_ns u =
     (if u = ''ns'' then Some 1
      else if u = ''us'' \<or> u = map char_of [0xC2, 0xB5, 115 :: nat]
              \<or> u = map char_of [0xCE, 0xBC, 115 :: nat] then Some (10 ^ 3)
      else if u = ''ms'' then Some (10 ^ 6)
      else if u = ''s'' then Some (10 ^ 9)
      else if u = ''m'' then Some (60 * 10 ^ 9)
      else if u = ''h'' then Some (3600 * 10 ^ 9)
      else None)"

definition digits_value :: "string \<Rightarrow> int" where
  "digits_value s = foldl (\<lambda>a c. a * 10 + ((of_char c :: int) - 48)) 0 s"

definition num_char :: "char \<Rightarrow> bool" where
  "num_char c \<longleftrightarrow> c = CHR ''.'' \<or> is_digit c"

text \<open>The fraction digits after a dot and what follows them.\<close>

definition scan_fraction :: "string \<Rightarrow> string \<times> string" where
  "scan_fraction s =
     (if prefix ''.'' s then (takeWhile is_digit (tl s), dropWhile is_digit (tl s)) else ([], s))"

text \<open>One term: the value in nanoseconds and the rest of the text.\<close>

definition duration_term :: "string \<Rightarrow> (int \<times> string) option" where
  "duration_term s =
     (let ip = takeWhile is_digit s;
          (fp, s2) = scan_fraction (dropWhile is_digit s);
          u = takeWhile (\<lambda>c. \<not> num_char c) s2
      in if digits_value ip > duration_limit \<or> (ip = [] \<and> fp = []) then None
         else case unit_ns u of
                None \<Rightarrow> None
              | Some k \<Rightarrow>
                  let v = digits_value ip * k + digits_value fp * k div 10 ^ length fp in
                  if digits_value ip > duration_limit div k \<or> v > duration_limit then None
                  else Some (v, dropWhile (\<lambda>c. \<not> num_char c) s2))"

text \<open>The loop over the terms; each consumes at least one byte, so \<open>length s\<close> rounds suffice.\<close>

fun duration_loop :: "nat \<Rightarrow> int \<Rightarrow> string \<Rightarrow> int option" where
  "duration_loop n d [] = Some d"
| "duration_loop 0 d (c # s) = None"
| "duration_loop (Suc n) d (c # s) =
     (if \<not> num_char c then None
      else case duration_term (c # s) of
             None \<Rightarrow> None
           | Some (v, rest) \<Rightarrow>
               if d + v > duration_limit then None else duration_loop n (d + v) rest)"

definition ParseDuration :: "string \<Rightarrow> int option" where
  "ParseDuration s =
     (let signed = s \<noteq> [] \<and> (hd s = CHR ''-'' \<or> hd s = CHR ''+'');
          neg = (s \<noteq> [] \<and> hd s = CHR ''-'');
          t = (if signed then tl s else s)
      in if t = ''0'' then Some 0
         else if t = [] then None
         else case duration_loop (length t) 0 t of
                None \<Rightarrow> None
              | Some d \<Rightarrow> if neg then Some (- d)
                          else if d > duration_limit - 1 then None else Some d)"

lemma length_dropWhile_less: "s \<noteq> [] \<Longrightarrow> takeWhile P s \<noteq> [] \<Longrightarrow> length (dropWhile P s) < length s"
  by (cases s) (auto simp: length_dropWhile_le le_imp_less_Suc split: if_splits)

lemma scan_fraction_length: "length (snd (scan_fraction s)) \<le> length s"
  using length_dropWhile_le [of is_digit "tl s"] le_trans [of _ "length s - 1" "length s"]
  by (simp add: scan_fraction_def)

lemma duration_term_shorter:
  assumes "duration_term s = Some (v, rest)" shows "length rest < length s"
proof -
  obtain fp s2 where f: "scan_fraction (dropWhile is_digit s) = (fp, s2)"
    by (cases "scan_fraction (dropWhile is_digit s)")
  have r: "rest = dropWhile (\<lambda>c. \<not> num_char c) s2"
    and u: "unit_ns (takeWhile (\<lambda>c. \<not> num_char c) s2) \<noteq> None"
    using assms f by (auto simp: duration_term_def Let_def split: if_splits option.splits)
  from u have t: "takeWhile (\<lambda>c. \<not> num_char c) s2 \<noteq> []" by (auto simp: unit_ns_def)
  have "length s2 \<le> length (dropWhile is_digit s)"
    using f scan_fraction_length [of "dropWhile is_digit s"] by simp
  also have "\<dots> \<le> length s" by (rule length_dropWhile_le)
  finally have "length s2 \<le> length s" .
  moreover have "length rest < length s2"
    unfolding r using t by (intro length_dropWhile_less) auto
  ultimately show ?thesis by simp
qed

text \<open>The fuel is enough: more of it does not change the result.\<close>

lemma duration_loop_fuel:
  "length s \<le> n \<Longrightarrow> duration_loop n d s = duration_loop (n + k) d s"
proof (induction n d s rule: duration_loop.induct)
  case (1 n d)
  then show ?case by (cases "n + k") auto
next
  case (2 d c s)
  then show ?case by simp
next
  case (3 n d c s)
  show ?case
  proof (cases "num_char c \<and> duration_term (c # s) \<noteq> None")
    case False
    then show ?thesis by (cases "duration_term (c # s)") auto
  next
    case True
    then obtain v rest where t: "duration_term (c # s) = Some (v, rest)" by auto
    then have "length rest \<le> n" using duration_term_shorter [OF t] 3(2) by simp
    then show ?thesis using 3(1) [OF _ t refl] True t by simp
  qed
qed

lemma duration_loop_limit:
  "duration_loop n a s = Some r \<Longrightarrow> a \<le> duration_limit \<Longrightarrow> r \<le> duration_limit"
  by (induction n a s rule: duration_loop.induct) (auto split: if_splits option.splits)

end
