(* ===== verification/ValidateInfra.thy ===== *)
theory ValidateInfra
  imports CtxBase Cidr Duration
begin

text \<open>
  The checks of \<open>internal/validate/validate.go\<close> on the infrastructure resources: providers,
  networks, computes, host references, database clusters, databases and PKI resources.  One
  constructor per message, carrying the values the message prints; warnings are a second list.
\<close>

subsection \<open>Providers and hosts\<close>

datatype provider_err =
    ProviderRequired string string
  | ProviderUnavailable string

definition resolvedProviderErr ::
  "string \<Rightarrow> string \<Rightarrow> string \<Rightarrow> region_ctx \<Rightarrow> provider_err list" where
  "resolvedProviderErr specProvider cls engine ctx =
     (let effective = ResolveProvider specProvider cls engine (cx_defaults ctx) in
      if effective = SelfHostedProvider then []
      else if effective = [] then [ProviderRequired cls engine]
      else case cx_available ctx of
             None \<Rightarrow> []
           | Some av \<Rightarrow> if av effective then [] else [ProviderUnavailable effective])"

datatype host_err =
    HostIsSpecKey string
  | HostNotFound string
  | HostNotVm string string string
  | HostMultiInstance string string

definition resolveComputeHost ::
  "string \<Rightarrow> string \<Rightarrow> region_ctx \<Rightarrow> string \<times> host_err list" where
  "resolveComputeHost host noun ctx =
     (if \<not> cx_computeNames ctx host then
        ([], if str_at (cx_canonical ctx) host \<noteq> [] then [HostIsSpecKey host] else [HostNotFound host])
      else
        let c = str_at (cx_canonical ctx) host;
            canonical = (if c = [] then SpecKey host 1 else c);
            kind = str_at (cx_computeKind ctx) canonical
        in (canonical,
            (if kind \<noteq> ''vm'' then [HostNotVm host kind noun] else [])
            @ (if cx_instances ctx canonical > 1 then [HostMultiInstance host noun] else [])))"

subsection \<open>Networks\<close>

datatype network_err =
    NetProvider provider_err
  | NetBadCidr string
  | NetCidrDisagrees string string string string
  | SubnetBadCidr nat string
  | SubnetOutside nat string string
  | SubnetTwice nat string
  | SubnetElsewhere nat string string

text \<open>The keys of the map are the names of its networks.\<close>

definition subnet_owner :: "network_spec \<Rightarrow> region_ctx \<Rightarrow> string \<Rightarrow> string option" where
  "subnet_owner s ctx name =
     find (\<lambda>other. name \<in> sub_name ` set (net_subnets (the (map_of (cx_networks ctx) other))))
       (filter (\<lambda>n. n \<noteq> net_name s) (sort (map fst (cx_networks ctx))))"

definition cidr_disagreements :: "network_spec \<Rightarrow> region_ctx \<Rightarrow> network_err list" where
  "cidr_disagreements s ctx =
     concat (map (\<lambda>other. let net = the (map_of (cx_networks ctx) other) in
         if net_container net = net_container s \<and> net_cidr net \<noteq> net_cidr s
         then [NetCidrDisagrees (net_cidr s) other (net_cidr net) (net_container s)] else [])
       (filter (\<lambda>n. n \<noteq> net_name s) (sort (map fst (cx_networks ctx)))))"

fun check_subnets :: "network_spec \<Rightarrow> region_ctx \<Rightarrow> ipnet option \<Rightarrow> nat \<Rightarrow> string list
    \<Rightarrow> subnet_spec list \<Rightarrow> network_err list" where
  "check_subnets s ctx cidr i seen [] = []"
| "check_subnets s ctx cidr i seen (sub # subs) =
     (case ParseCIDR (sub_cidr sub) of
        None \<Rightarrow> [SubnetBadCidr i (sub_cidr sub)]
      | Some subnet \<Rightarrow>
          (case cidr of
             Some c \<Rightarrow> if \<not> cidrContains c subnet
                       then [SubnetOutside i (sub_cidr sub) (net_cidr s)] else []
           | None \<Rightarrow> []))
     @ (if sub_name sub \<in> set seen
        then SubnetTwice i (sub_name sub) # check_subnets s ctx cidr (i + 1) seen subs
        else (case subnet_owner s ctx (sub_name sub) of
                Some owner \<Rightarrow> [SubnetElsewhere i (sub_name sub) owner]
              | None \<Rightarrow> [])
             @ check_subnets s ctx cidr (i + 1) (sub_name sub # seen) subs)"

definition checkNetwork :: "network_spec \<Rightarrow> region_ctx \<Rightarrow> network_err list" where
  "checkNetwork s ctx =
     map NetProvider (resolvedProviderErr (net_provider s) ''network'' [] ctx)
     @ (if ParseCIDR (net_cidr s) = None then [NetBadCidr (net_cidr s)] else [])
     @ cidr_disagreements s ctx
     @ check_subnets s ctx (ParseCIDR (net_cidr s)) 0 [] (net_subnets s)"

subsection \<open>Computes\<close>

text \<open>The expression \<open>^[a-z_][a-z0-9_-]*$\<close> of \<open>cloudinit.Vars.Validate\<close>.\<close>

fun deployUserRe :: "string \<Rightarrow> bool" where
  "deployUserRe [] = False"
| "deployUserRe (c # cs) = ((is_lower c \<or> c = CHR ''_'')
     \<and> list_all (\<lambda>x. is_lower x \<or> is_digit x \<or> x = CHR ''_'' \<or> x = CHR ''-'') cs)"

definition deploy_user_valid :: "string \<Rightarrow> bool" where
  "deploy_user_valid name \<longleftrightarrow> name = [] \<or> deployUserRe name"

datatype compute_err =
    CmpProvider provider_err
  | CmpGlobalNetwork string
  | CmpNoNetwork string
  | CmpNoSubnet string string
  | CmpUnknownSize string
  | CmpNoCloudInit string
  | CmpBadDeployUser string

datatype check_warning = KindReserved | TypeReserved | NoBackupsBucket

text \<open>\<open>exists\<close> says whether a file is there (\<open>os.Stat\<close>).\<close>

definition checkCompute ::
  "(string \<Rightarrow> bool) \<Rightarrow> compute_spec \<Rightarrow> region_ctx \<Rightarrow> compute_err list \<times> check_warning list" where
  "checkCompute exists s ctx =
     (map CmpProvider (resolvedProviderErr (cmp_provider s) ''compute'' [] ctx)
      @ (if prefix ''global/'' (cmp_network s) then [CmpGlobalNetwork (cmp_network s)]
         else (case map_of (cx_networks ctx) (cmp_network s) of
                 None \<Rightarrow> [CmpNoNetwork (cmp_network s)]
               | Some net \<Rightarrow>
                   if cmp_subnet s \<noteq> [] \<and> cmp_subnet s \<notin> sub_name ` set (net_subnets net)
                   then [CmpNoSubnet (cmp_subnet s) (cmp_network s)] else []))
      @ (if \<not> size_Resolve (cx_sizes ctx) (cmp_size s) then [CmpUnknownSize (cmp_size s)] else [])
      @ (if cmp_cloud_init s \<noteq> [] \<and> \<not> exists (cmp_cloud_init s)
         then [CmpNoCloudInit (cmp_cloud_init s)] else [])
      @ (case cmp_deploy_user s of
           None \<Rightarrow> []
         | Some u \<Rightarrow> if deploy_user_valid (du_name u) then [] else [CmpBadDeployUser (du_name u)]),
      if cmp_kind s = ''cluster'' then [KindReserved] else [])"

subsection \<open>Database clusters and databases\<close>

datatype cluster_err =
    ClProvider provider_err
  | ClHostRequired
  | ClGlobalHost string
  | ClHost host_err
  | ClHostOnManaged string string

definition checkDatabaseCluster :: "cluster_spec \<Rightarrow> region_ctx \<Rightarrow> cluster_err list" where
  "checkDatabaseCluster s ctx =
     (let effective = ResolveProvider (cl_provider s) ''database'' (cl_engine s) (cx_defaults ctx) in
      map ClProvider (resolvedProviderErr (cl_provider s) ''database'' (cl_engine s) ctx)
      @ (if effective = SelfHostedProvider then
           (if cl_host s = [] then [ClHostRequired]
            else if prefix ''global/'' (cl_host s) then [ClGlobalHost (cl_host s)]
            else map ClHost (snd (resolveComputeHost (cl_host s) ''a database cluster'' ctx)))
         else if cl_host s \<noteq> [] then [ClHostOnManaged (cl_host s) effective]
         else []))"

datatype database_err =
    DbGlobalCluster string
  | DbNoCluster string
  | DbNegativeSize int
  | DbGroupRoles pgrole_err
  | DbNameTooLong string nat
  | DbDuplicate string string
  | DbBadInterval string
  | DbIntervalNotPositive string
  | DbKeep int

definition checkDatabase ::
  "database_spec \<Rightarrow> region_ctx \<Rightarrow> database_err list \<times> check_warning list" where
  "checkDatabase s ctx =
     (let enabled = (case bk_enabled (db_backup s) of None \<Rightarrow> True | Some b \<Rightarrow> b) in
      ((if prefix ''global/'' (db_cluster s) then [DbGlobalCluster (db_cluster s)]
        else if \<not> cx_clusterNames ctx (db_cluster s) then [DbNoCluster (db_cluster s)]
        else [])
       @ (if db_size_gb s < 0 then [DbNegativeSize (db_size_gb s)] else [])
       @ (if db_database s \<noteq> [] then
            (case CheckGroupRoleNames [] (db_database s) (db_owner s) of
               Some e \<Rightarrow> [DbGroupRoles e] | None \<Rightarrow> [])
          else [])
       @ (if length (db_database s) > MaxIdentifierLen
          then [DbNameTooLong (db_database s) (length (db_database s))] else [])
       @ (if db_cluster s \<noteq> [] \<and> db_database s \<noteq> []
             \<and> cx_dbPhysical ctx (physical_key (db_cluster s) (db_database s)) > 1
          then [DbDuplicate (db_database s) (db_cluster s)] else [])
       @ (if enabled then
            (case ParseDuration (bk_interval (db_backup s)) of
               None \<Rightarrow> [DbBadInterval (bk_interval (db_backup s))]
             | Some d \<Rightarrow> if d \<le> 0 then [DbIntervalNotPositive (bk_interval (db_backup s))] else [])
            @ (if bk_keep (db_backup s) < 1 then [DbKeep (bk_keep (db_backup s))] else [])
          else []),
       if enabled \<and> \<not> cx_backupsBucket ctx then [NoBackupsBucket] else []))"

subsection \<open>PKI resources and mesh membership\<close>

datatype pki_err =
    PkiBadTopology string
  | PkiNoStore string
  | PkiUnknown string "string list"
  | PkiNotTwoTier string string
  | PkiNoIntermediate string string

definition checkPKIResource :: "pki_resource_spec \<Rightarrow> pki_err list" where
  "checkPKIResource s =
     (if pkr_topology s \<noteq> TopologyRootOnly then [PkiBadTopology (pkr_topology s)] else [])"

definition pkiMembershipErrors :: "string \<Rightarrow> string list \<Rightarrow> pki_store option \<Rightarrow> pki_err list" where
  "pkiMembershipErrors pkiName scopes store =
     (if pkiName = [] then []
      else case store of
             None \<Rightarrow> [PkiNoStore pkiName]
           | Some st \<Rightarrow>
          (case pki_Get st pkiName of
             None \<Rightarrow> [PkiUnknown pkiName (pki_Names st)]
           | Some p \<Rightarrow>
               if pki_topology p \<noteq> TopologyTwoTier then [PkiNotTwoTier pkiName (pki_topology p)]
               else concat (map (\<lambda>scope. if map_of (pki_intermediates p) scope = None
                                         then [PkiNoIntermediate pkiName scope] else []) scopes)))"

definition servicePKIErrors :: "service_spec \<Rightarrow> string list \<Rightarrow> pki_store option \<Rightarrow> pki_err list" where
  "servicePKIErrors s scopes store = pkiMembershipErrors (svc_pki s) scopes store"

subsection \<open>Lemmas: networks\<close>

lemma check_subnets_nil:
  "check_subnets s ctx cidr i seen subs = [] \<longleftrightarrow>
     distinct (map sub_name subs) \<and> set (map sub_name subs) \<inter> set seen = {}
     \<and> (\<forall>sub\<in>set subs. subnet_owner s ctx (sub_name sub) = None
           \<and> (\<exists>n. ParseCIDR (sub_cidr sub) = Some n
                 \<and> (\<forall>c. cidr = Some c \<longrightarrow> cidrContains c n)))"
proof (induction s ctx cidr i seen subs rule: check_subnets.induct)
  case (1 s ctx cidr i seen)
  then show ?case by simp
next
  case (2 s ctx cidr i seen sub subs)
  show ?case
  proof (cases "sub_name sub \<in> set seen")
    case True
    then show ?thesis by auto
  next
    case False
    then show ?thesis
      using 2(2) [OF False] by (auto split: option.splits)
  qed
qed

lemma subnet_owner_None:
  "subnet_owner s ctx name = None \<longleftrightarrow>
     (\<forall>o1\<in>set (map fst (cx_networks ctx)). o1 \<noteq> net_name s \<longrightarrow>
        name \<notin> sub_name ` set (net_subnets (the (map_of (cx_networks ctx) o1))))"
  by (auto simp: subnet_owner_def find_None_iff)

lemma cidr_disagreements_nil:
  "cidr_disagreements s ctx = [] \<longleftrightarrow>
     (\<forall>o1\<in>set (map fst (cx_networks ctx)). o1 \<noteq> net_name s \<longrightarrow>
        (let net = the (map_of (cx_networks ctx) o1) in
         net_container net = net_container s \<longrightarrow> net_cidr net = net_cidr s))"
  by (auto simp: cidr_disagreements_def Let_def split: if_splits)

lemma checkNetwork_nil:
  assumes "checkNetwork s ctx = []"
  shows "resolvedProviderErr (net_provider s) ''network'' [] ctx = []"
    and "\<exists>c. ParseCIDR (net_cidr s) = Some c \<and>
          (\<forall>sub\<in>set (net_subnets s). \<exists>n. ParseCIDR (sub_cidr sub) = Some n \<and> cidrContains c n)"
    and "distinct (map sub_name (net_subnets s))"
    and "\<forall>sub\<in>set (net_subnets s). subnet_owner s ctx (sub_name sub) = None"
    and "cidr_disagreements s ctx = []"
  using assms by (auto simp: checkNetwork_def check_subnets_nil split: if_splits)

text \<open>
  A scope whose networks all pass: subnet names are unique over the whole scope and networks of
  one container have one CIDR.
\<close>

lemma scope_networks:
  assumes names: "distinct (map net_name (all_specs (fs_network fs)))"
    and pass: "\<forall>n\<in>set (all_specs (fs_network fs)). checkNetwork n (build_ctx vi fs) = []"
    and ab: "a \<in> set (all_specs (fs_network fs))" "b \<in> set (all_specs (fs_network fs))" "a \<noteq> b"
  shows "set (map sub_name (net_subnets a)) \<inter> set (map sub_name (net_subnets b)) = {}"
    and "net_container a = net_container b \<Longrightarrow> net_cidr a = net_cidr b"
proof -
  let ?c = "build_ctx vi fs"
  have ne: "net_name b \<noteq> net_name a"
    using names ab by (metis distinct_map inj_onD)
  have nb: "net_name b \<in> set (map fst (cx_networks ?c))"
    "the (map_of (cx_networks ?c) (net_name b)) = b"
    using network_at [OF names ab(2)] network_names ab(2) by auto
  have own: "\<forall>sub\<in>set (net_subnets a). subnet_owner a ?c (sub_name sub) = None"
    and dis: "cidr_disagreements a ?c = []"
    using checkNetwork_nil [OF bspec [OF pass ab(1)]] by auto
  show "set (map sub_name (net_subnets a)) \<inter> set (map sub_name (net_subnets b)) = {}"
    using own nb ne by (force simp: subnet_owner_None)
  show "net_container a = net_container b \<Longrightarrow> net_cidr a = net_cidr b"
    using dis nb ne by (force simp: cidr_disagreements_nil Let_def)
qed

subsection \<open>Lemmas: providers, hosts, clusters and databases\<close>

lemma resolvedProviderErr_nil:
  "resolvedProviderErr p cls eng ctx = [] \<Longrightarrow> ResolveProvider p cls eng (cx_defaults ctx) \<noteq> []"
  by (auto simp: resolvedProviderErr_def Let_def SelfHostedProvider_def split: if_splits)

lemma resolveComputeHost_ok:
  assumes "snd (resolveComputeHost host noun ctx) = []"
  shows "fst (resolveComputeHost host noun ctx) = canonicalHost host ctx"
    and "canonicalHost host ctx \<noteq> []"
    and "str_at (cx_computeKind ctx) (canonicalHost host ctx) = ''vm''"
    and "cx_instances ctx (canonicalHost host ctx) \<le> 1"
  using assms by (auto simp: resolveComputeHost_def canonicalHost_def Let_def SpecKey_def
      split: if_splits)

lemma resolveComputeHost_fst: "fst (resolveComputeHost host noun ctx) = canonicalHost host ctx"
  by (simp add: resolveComputeHost_def canonicalHost_def Let_def)

lemma checkDatabaseCluster_nil:
  assumes "checkDatabaseCluster s ctx = []"
  shows "cl_host s \<noteq> [] \<longleftrightarrow>
           ResolveProvider (cl_provider s) ''database'' (cl_engine s) (cx_defaults ctx) = SelfHostedProvider"
    and "cl_host s \<noteq> [] \<Longrightarrow> canonicalHost (cl_host s) ctx \<noteq> []
           \<and> cx_instances ctx (canonicalHost (cl_host s) ctx) \<le> 1"
proof -
  let ?e = "ResolveProvider (cl_provider s) ''database'' (cl_engine s) (cx_defaults ctx)"
  show iff: "cl_host s \<noteq> [] \<longleftrightarrow> ?e = SelfHostedProvider"
    using assms by (auto simp: checkDatabaseCluster_def Let_def split: if_splits)
  assume "cl_host s \<noteq> []"
  then have "snd (resolveComputeHost (cl_host s) ''a database cluster'' ctx) = []"
    using iff assms by (auto simp: checkDatabaseCluster_def Let_def split: if_splits)
  then show "canonicalHost (cl_host s) ctx \<noteq> [] \<and> cx_instances ctx (canonicalHost (cl_host s) ctx) \<le> 1"
    using resolveComputeHost_ok by blast
qed

lemma physical_key_inj:
  "NUL \<notin> set a \<Longrightarrow> NUL \<notin> set a' \<Longrightarrow> physical_key a b = physical_key a' b' \<longleftrightarrow> a = a' \<and> b = b'"
proof (induction a arbitrary: a')
  case Nil
  then show ?case by (cases a') (auto simp: physical_key_def)
next
  case (Cons x a)
  then show ?case by (cases a') (auto simp: physical_key_def)
qed

lemma filter_two: "x \<in> set xs \<Longrightarrow> y \<in> set xs \<Longrightarrow> x \<noteq> y \<Longrightarrow> P x \<Longrightarrow> P y \<Longrightarrow> length (filter P xs) > 1"
proof -
  assume a: "x \<in> set xs" "y \<in> set xs" "x \<noteq> y" "P x" "P y"
  then have "{x, y} \<subseteq> set (filter P xs)" by auto
  then have "card {x, y} \<le> card (set (filter P xs))" by (intro card_mono) auto
  also have "\<dots> \<le> length (filter P xs)" by (rule card_length)
  finally show ?thesis using a(3) by simp
qed

lemma checkDatabase_nil:
  assumes "fst (checkDatabase s ctx) = []"
  shows "cx_clusterNames ctx (db_cluster s)" and "\<not> prefix GlobalPrefix (db_cluster s)"
    and "db_database s \<noteq> [] \<Longrightarrow> CheckGroupRoleNames [] (db_database s) (db_owner s) = None"
    and "length (db_database s) \<le> MaxIdentifierLen"
    and "db_cluster s \<noteq> [] \<Longrightarrow> db_database s \<noteq> [] \<Longrightarrow>
           cx_dbPhysical ctx (physical_key (db_cluster s) (db_database s)) \<le> 1"
  using assms by (auto simp: checkDatabase_def Let_def GlobalPrefix_def split: if_splits option.splits)

text \<open>Two database files of a scope that passes do not share a physical database.\<close>

lemma scope_databases:
  assumes pass: "\<forall>f\<in>set (fs_database fs). fst (checkDatabase (sf_spec f) (build_ctx vi fs)) = []"
    and parsed: "\<forall>f\<in>set (fs_database fs). sf_parse_err f = None"
    and f: "f \<in> set (fs_database fs)" "db_cluster (sf_spec f) \<noteq> []" "db_database (sf_spec f) \<noteq> []"
    and g: "g \<in> set (fs_database fs)" "f \<noteq> g"
  shows "(db_cluster (sf_spec f), db_database (sf_spec f))
          \<noteq> (db_cluster (sf_spec g), db_database (sf_spec g))"
proof
  let ?k = "physical_key (db_cluster (sf_spec f)) (db_database (sf_spec f))"
  assume "(db_cluster (sf_spec f), db_database (sf_spec f))
          = (db_cluster (sf_spec g), db_database (sf_spec g))"
  then have "targets_db ?k f" "targets_db ?k g"
    using parsed f g by (auto simp: targets_db_def)
  then have "cx_dbPhysical (build_ctx vi fs) ?k > 1"
    unfolding dbPhysical_count using filter_two [OF f(1) g] by blast
  then show False using checkDatabase_nil(5) [OF bspec [OF pass f(1)] f(2,3)] by simp
qed

lemma pkiMembershipErrors_nil:
  "pkiMembershipErrors name scopes store = [] \<longleftrightarrow> name = [] \<or>
     (\<exists>st p. store = Some st \<and> pki_Get st name = Some p \<and> pki_topology p = TopologyTwoTier
        \<and> (\<forall>scope\<in>set scopes. map_of (pki_intermediates p) scope \<noteq> None))"
proof (cases store)
  case None
  then show ?thesis by (simp add: pkiMembershipErrors_def)
next
  case (Some st)
  then show ?thesis
    by (cases "pki_Get st name")
      (simp_all add: pkiMembershipErrors_def concat_guard_nil del: concat_eq_Nil_conv)
qed

text \<open>A member that passes can be given its trust bundle, if the PKI has a root certificate.\<close>

lemma membership_bundle:
  assumes "pkiMembershipErrors name scopes (Some st) = []" and "name \<noteq> []"
    and "\<And>p. pki_Get st name = Some p \<Longrightarrow> \<exists>r\<in>set (RootCerts p). TrimSpace r \<noteq> []"
  shows "is_ok (TrustBundle st name scopes)"
  using assms by (auto simp: pkiMembershipErrors_nil TrustBundle_ok_iff)

end
