(* ===== verification/ValidateBinds.thy ===== *)
theory ValidateBinds
  imports ValidateInfra
begin

text \<open>
  The port rules shared by the checks of services, meshes, ingresses and gateways
  (\<open>internal/validate/validate.go\<close>): which ports the edge nginx, the mesh proxy and the database
  clusters hold on a host, other users of a port, and lists of exact paths.
\<close>

datatype bind_err =
    NginxHolds string int string
  | InEgressRange string int
  | InLoopbackRange string int
  | PublicListen string int string
  | SharedPort string int string "string list"
  | InPgRange string int

definition inReservedLoopbackRange :: "int \<Rightarrow> bool" where
  "inReservedLoopbackRange port \<longleftrightarrow> port \<ge> LoopbackBase \<and> port < LoopbackBase + MaxMixedPorts"

definition meshEgressRangeErr :: "string \<Rightarrow> int \<Rightarrow> bind_err list" where
  "meshEgressRangeErr label port =
     (if \<not> InReservedEgressRange port then [] else [InEgressRange label port])"

definition hostRunsEdgeNginx :: "string \<Rightarrow> region_ctx \<Rightarrow> bool" where
  "hostRunsEdgeNginx backendHost ctx \<longleftrightarrow>
     backendHost \<noteq> [] \<and> (length (cx_ingressNamesByHost ctx backendHost) > 0
                        \<or> backendHost = cx_gatewayHost ctx)"

definition hostRunsMeshProxy :: "string \<Rightarrow> region_ctx \<Rightarrow> bool" where
  "hostRunsMeshProxy host ctx \<longleftrightarrow> host \<noteq> [] \<and> cx_meshHosts ctx host"

definition nginxBindErr :: "string \<Rightarrow> string \<Rightarrow> int \<Rightarrow> region_ctx \<Rightarrow> bind_err list" where
  "nginxBindErr label host port ctx =
     (if host = [] then []
      else case cx_nginxBinds ctx host port of
             Some reason \<Rightarrow> [NginxHolds label port reason]
           | None \<Rightarrow> [])"

definition otherUsers :: "string list \<Rightarrow> string \<Rightarrow> string list" where
  "otherUsers users self = sort (remdups (filter (\<lambda>u. u \<noteq> self) users))"

text \<open>The message when another service uses the port of a backend bind.\<close>

definition shared_err :: "string \<Rightarrow> int \<Rightarrow> string \<Rightarrow> string list \<Rightarrow> string \<Rightarrow> bind_err list" where
  "shared_err label port host users self =
     (let others = otherUsers users self in
      if others \<noteq> [] then [SharedPort label port host others] else [])"

datatype path_err =
    PathTwice string string
  | PathInvalid string string glob_err

fun check_exact :: "string \<Rightarrow> string list \<Rightarrow> string list \<Rightarrow> path_err list" where
  "check_exact field seen [] = []"
| "check_exact field seen (p # ps) =
     (if p \<in> set seen then [PathTwice field p]
      else case CheckExact p of
             Some e \<Rightarrow> [PathInvalid field p e]
           | None \<Rightarrow> [])
     @ check_exact field (p # seen) ps"

definition checkExactPaths :: "string \<Rightarrow> string list \<Rightarrow> path_err list" where
  "checkExactPaths field paths = check_exact field [] paths"

subsection \<open>Lemmas\<close>

lemma otherUsers_set [simp]: "set (otherUsers users self) = set users - {self}"
  by (auto simp: otherUsers_def)

lemma otherUsers_empty: "otherUsers users self = [] \<longleftrightarrow> set users \<subseteq> {self}"
  by (metis Diff_eq_empty_iff otherUsers_set set_empty)

lemma shared_err_nil: "shared_err label port host users self = [] \<longleftrightarrow> set users \<subseteq> {self}"
  by (simp add: shared_err_def Let_def otherUsers_empty)

lemma nginxBindErr_nil: "host \<noteq> [] \<Longrightarrow> nginxBindErr label host port ctx = [] \<longleftrightarrow> cx_nginxBinds ctx host port = None"
  by (simp add: nginxBindErr_def split: option.splits)

lemma meshEgressRangeErr_nil: "meshEgressRangeErr label port = [] \<longleftrightarrow> \<not> InReservedEgressRange port"
  by (simp add: meshEgressRangeErr_def)

lemma check_exact_nil:
  "check_exact field seen ps = [] \<longleftrightarrow>
     distinct ps \<and> set ps \<inter> set seen = {} \<and> (\<forall>p\<in>set ps. CheckExact p = None)"
  by (induction field seen ps rule: check_exact.induct) (auto split: option.splits)

lemma checkExactPaths_nil:
  "checkExactPaths field ps = [] \<longleftrightarrow> distinct ps \<and> (\<forall>p\<in>set ps. CheckExact p = None)"
  by (simp add: checkExactPaths_def check_exact_nil)

end
