(* ===== verification/ValidateMesh.thy ===== *)
theory ValidateMesh
  imports ValidateBinds
begin

text \<open>
  The check of a service's mesh block: \<open>checkMesh\<close> and \<open>meshPkiOf\<close> of
  \<open>internal/validate/validate.go\<close>.
\<close>

datatype mesh_err =
    MeshNeedsPki
  | MeshPathTwice string string
  | MeshPathInvalid string string glob_err
  | MeshNoPaths
  | MeshOverlap string string
  | MeshPortRange int
  | MeshPortIsTarget int int
  | MeshPortIsHealth int
  | MeshPortIsExposed int
  | MeshBind bind_err
  | AllowEmpty
  | AllowSelf string
  | AllowTwice string
  | AllowOtherMesh string string string
  | AllowOtherNetwork string string string
  | AllowForbidden string
  | AllowNotMember string
  | AllowUnknown string

definition meshPkiOf :: "string \<Rightarrow> region_ctx \<Rightarrow> string" where
  "meshPkiOf name ctx =
     (if cx_servicePki ctx name \<noteq> [] then cx_servicePki ctx name else cx_callerPki ctx name)"

text \<open>\<open>parsePathList\<close>: the messages and the patterns that parsed.\<close>

fun parsePathList :: "string \<Rightarrow> string list \<Rightarrow> string list \<Rightarrow> mesh_err list \<times> pattern list" where
  "parsePathList field seen [] = ([], [])"
| "parsePathList field seen (g # gs) =
     (if g \<in> set seen
      then (case parsePathList field seen gs of (es, ps) \<Rightarrow> (MeshPathTwice field g # es, ps))
      else case parsePathList field (g # seen) gs of (es, ps) \<Rightarrow>
        (case Parse g of
           Inl e \<Rightarrow> (MeshPathInvalid field g e # es, ps)
         | Inr p \<Rightarrow> (es, p # ps)))"

definition overlap_errs :: "pattern list \<Rightarrow> pattern list \<Rightarrow> mesh_err list" where
  "overlap_errs publics internals =
     concat (map (\<lambda>pp. concat (map (\<lambda>ip.
       if Overlaps pp ip then [MeshOverlap (raw pp) (raw ip)] else []) internals)) publics)"

definition check_mesh_port :: "service_spec \<Rightarrow> mesh_spec \<Rightarrow> string \<Rightarrow> region_ctx \<Rightarrow> mesh_err list" where
  "check_mesh_port s m backendHost ctx =
     (if mesh_port m < 1 \<or> mesh_port m > 65535 then [MeshPortRange (mesh_port m)]
      else
        (case find (\<lambda>rt. rt_target rt = mesh_port m) (svc_routes s) of
           Some rt \<Rightarrow> [MeshPortIsTarget (mesh_port m) (rt_target rt)] | None \<Rightarrow> [])
        @ (if svc_health_port s = mesh_port m then [MeshPortIsHealth (mesh_port m)] else [])
        @ map MeshBind (meshEgressRangeErr ''mesh.port'' (mesh_port m))
        @ (case find (\<lambda>ep. ep_proto ep = ''tcp'' \<and> ep_port ep = mesh_port m) (svc_exposed s) of
             Some ep \<Rightarrow> [MeshPortIsExposed (mesh_port m)] | None \<Rightarrow> [])
        @ (if backendHost \<noteq> [] then
             (if cx_portUsers ctx backendHost (mesh_port m) \<noteq> []
              then [MeshBind (PublicListen ''mesh.port'' (mesh_port m) (svc_host s))]
              else map MeshBind (nginxBindErr ''mesh.port'' backendHost (mesh_port m) ctx))
             @ map MeshBind (shared_err ''mesh.port'' (mesh_port m) (svc_host s)
                  (cx_targetUsers ctx backendHost (mesh_port m)) (svc_name s))
           else []))"

text \<open>One entry of \<open>allowed_services\<close>; \<open>seen\<close> holds the entries before it.\<close>

definition check_caller ::
  "service_spec \<Rightarrow> string \<Rightarrow> region_ctx \<Rightarrow> string list \<Rightarrow> string \<Rightarrow> mesh_err list" where
  "check_caller s backendHost ctx seen dep =
     (let depPki = meshPkiOf dep ctx;
          member = (cx_meshServices ctx dep \<or> cx_callerCandidates ctx dep) in
      if dep = [] then [AllowEmpty]
      else if dep = gatewayCallerName then []
      else if dep = svc_name s then [AllowSelf dep]
      else if dep \<in> set seen then [AllowTwice dep]
      else if member \<and> svc_pki s \<noteq> [] \<and> depPki \<noteq> [] \<and> depPki \<noteq> svc_pki s
        then [AllowOtherMesh dep depPki (svc_pki s)]
      else if member then
        (let callerHost = canonicalHost (cx_serviceHost ctx dep) ctx in
         if cx_meshServices ctx dep \<and> backendHost \<noteq> [] \<and> callerHost \<noteq> [] \<and> callerHost \<noteq> backendHost
            \<and> cx_computeNetwork ctx callerHost \<noteq> cx_computeNetwork ctx backendHost
         then [AllowOtherNetwork dep (cx_computeNetwork ctx callerHost) (cx_computeNetwork ctx backendHost)]
         else [])
      else if cx_forbiddenCallers ctx dep then [AllowForbidden dep]
      else if cx_serviceNames ctx dep then [AllowNotMember dep]
      else [AllowUnknown dep])"

fun check_callers ::
  "service_spec \<Rightarrow> string \<Rightarrow> region_ctx \<Rightarrow> string list \<Rightarrow> string list \<Rightarrow> mesh_err list" where
  "check_callers s backendHost ctx seen [] = []"
| "check_callers s backendHost ctx seen (dep # deps) =
     check_caller s backendHost ctx seen dep @ check_callers s backendHost ctx (dep # seen) deps"

definition checkMesh :: "service_spec \<Rightarrow> mesh_spec \<Rightarrow> string \<Rightarrow> region_ctx \<Rightarrow> mesh_err list" where
  "checkMesh s m backendHost ctx =
     (let (pubErrs, publics) = parsePathList ''public_paths'' [] (mesh_public m);
          (intErrs, internals) = parsePathList ''internal_paths'' [] (mesh_internal m) in
      (if svc_pki s = [] then [MeshNeedsPki] else [])
      @ pubErrs @ intErrs
      @ (if length (mesh_public m) + length (mesh_internal m) = 0 then [MeshNoPaths] else [])
      @ overlap_errs publics internals
      @ check_mesh_port s m backendHost ctx
      @ check_callers s backendHost ctx [] (mesh_allowed m))"

subsection \<open>Lemmas\<close>

lemma parsePathList_nil:
  "fst (parsePathList field seen gs) = [] \<Longrightarrow>
     distinct gs \<and> set gs \<inter> set seen = {}
     \<and> list_all2 (\<lambda>g p. Parse g = Inr p) gs (snd (parsePathList field seen gs))"
  by (induction field seen gs rule: parsePathList.induct)
     (auto split: if_splits prod.splits sum.splits)

lemma overlap_errs_nil:
  "overlap_errs ps qs = [] \<longleftrightarrow> (\<forall>p\<in>set ps. \<forall>q\<in>set qs. \<not> Overlaps p q)"
  by (auto simp: overlap_errs_def split: if_splits)

lemma check_mesh_port_nil:
  assumes "check_mesh_port s m backend ctx = []"
  shows "1 \<le> mesh_port m \<and> mesh_port m \<le> 65535"
    and "\<forall>rt\<in>set (svc_routes s). rt_target rt \<noteq> mesh_port m"
    and "svc_health_port s \<noteq> mesh_port m" and "\<not> InReservedEgressRange (mesh_port m)"
    and "\<forall>ep\<in>set (svc_exposed s). ep_proto ep = ''tcp'' \<longrightarrow> ep_port ep \<noteq> mesh_port m"
    and "backend \<noteq> [] \<Longrightarrow> cx_portUsers ctx backend (mesh_port m) = []
           \<and> cx_nginxBinds ctx backend (mesh_port m) = None
           \<and> set (cx_targetUsers ctx backend (mesh_port m)) \<subseteq> {svc_name s}"
  using assms by (auto simp: check_mesh_port_def shared_err_nil nginxBindErr_nil meshEgressRangeErr_nil
      find_None_iff split: if_splits option.splits)

lemma check_callers_nil:
  "check_callers s backend ctx seen deps = [] \<Longrightarrow> dep \<in> set deps \<Longrightarrow>
   \<exists>seen'. check_caller s backend ctx seen' dep = []"
  by (induction s backend ctx seen deps rule: check_callers.induct) auto

text \<open>An accepted caller is the gateway or a mesh member of the callee's own mesh and network.\<close>

lemma check_caller_nil:
  assumes "check_caller s backend ctx seen dep = []" and "dep \<noteq> gatewayCallerName"
  shows "dep \<noteq> [] \<and> dep \<noteq> svc_name s"
    and "cx_meshServices ctx dep \<or> cx_callerCandidates ctx dep"
    and "svc_pki s \<noteq> [] \<Longrightarrow> meshPkiOf dep ctx \<noteq> [] \<Longrightarrow> meshPkiOf dep ctx = svc_pki s"
    and "cx_meshServices ctx dep \<Longrightarrow> backend \<noteq> [] \<Longrightarrow>
           canonicalHost (cx_serviceHost ctx dep) ctx \<noteq> [] \<Longrightarrow>
           cx_computeNetwork ctx (canonicalHost (cx_serviceHost ctx dep) ctx)
             = cx_computeNetwork ctx backend"
  using assms by (auto simp: check_caller_def Let_def split: if_splits)

lemma checkMesh_nil:
  assumes "checkMesh s m backend ctx = []"
  shows "svc_pki s \<noteq> []"
    and "\<exists>ps. list_all2 (\<lambda>g p. Parse g = Inr p) (mesh_public m) ps
          \<and> (\<exists>qs. list_all2 (\<lambda>g p. Parse g = Inr p) (mesh_internal m) qs
              \<and> (\<forall>p\<in>set ps. \<forall>q\<in>set qs. \<not> Overlaps p q))"
    and "mesh_public m \<noteq> [] \<or> mesh_internal m \<noteq> []"
    and "check_mesh_port s m backend ctx = []"
    and "check_callers s backend ctx [] (mesh_allowed m) = []"
proof -
  obtain es ps where p: "parsePathList ''public_paths'' [] (mesh_public m) = (es, ps)"
    by (cases "parsePathList ''public_paths'' [] (mesh_public m)")
  obtain fs qs where q: "parsePathList ''internal_paths'' [] (mesh_internal m) = (fs, qs)"
    by (cases "parsePathList ''internal_paths'' [] (mesh_internal m)")
  have all: "svc_pki s \<noteq> []" "es = []" "fs = []" "mesh_public m \<noteq> [] \<or> mesh_internal m \<noteq> []"
    "overlap_errs ps qs = []" "check_mesh_port s m backend ctx = []"
    "check_callers s backend ctx [] (mesh_allowed m) = []"
    using assms p q by (auto simp: checkMesh_def split: if_splits)
  then show "svc_pki s \<noteq> []" "mesh_public m \<noteq> [] \<or> mesh_internal m \<noteq> []"
    "check_mesh_port s m backend ctx = []" "check_callers s backend ctx [] (mesh_allowed m) = []"
    by auto
  have "list_all2 (\<lambda>g p. Parse g = Inr p) (mesh_public m) ps"
    "list_all2 (\<lambda>g p. Parse g = Inr p) (mesh_internal m) qs"
    using parsePathList_nil [of "''public_paths''" "[]" "mesh_public m"]
      parsePathList_nil [of "''internal_paths''" "[]" "mesh_internal m"] p q all(2,3) by auto
  then show "\<exists>ps. list_all2 (\<lambda>g p. Parse g = Inr p) (mesh_public m) ps
          \<and> (\<exists>qs. list_all2 (\<lambda>g p. Parse g = Inr p) (mesh_internal m) qs
              \<and> (\<forall>p\<in>set ps. \<forall>q\<in>set qs. \<not> Overlaps p q))"
    using all(5) by (auto simp: overlap_errs_nil)
qed

lemma Parse_exact: "Parse g = Inr p \<Longrightarrow> pattern_wf p"
  by (rule Parse_wf)

text \<open>No request path is both public and internal on a service that passes.\<close>

lemma mesh_visibility:
  assumes "checkMesh s m backend ctx = []"
    and "g \<in> set (mesh_public m)" "Parse g = Inr p" "Matches p path"
    and "h \<in> set (mesh_internal m)" "Parse h = Inr q"
  shows "\<not> Matches q path"
proof -
  obtain ps qs where l: "list_all2 (\<lambda>g p. Parse g = Inr p) (mesh_public m) ps"
    "list_all2 (\<lambda>g p. Parse g = Inr p) (mesh_internal m) qs"
    "\<forall>p\<in>set ps. \<forall>q\<in>set qs. \<not> Overlaps p q"
    using checkMesh_nil(2) [OF assms(1)] by blast
  have "p \<in> set ps" "q \<in> set qs"
    using l(1,2) assms(2,3,5,6)
    by (auto simp: list_all2_conv_all_nth in_set_conv_nth)
  then have "\<not> Overlaps p q" using l(3) by blast
  then show ?thesis
    using wf_overlaps_iff [OF Parse_exact [OF assms(3)] Parse_exact [OF assms(6)]] assms(4) by blast
qed

end
