(* ===== verification/ValidateService.thy ===== *)
theory ValidateService
  imports ValidateMesh
begin

text \<open>
  The check of a service (\<open>checkService\<close> of \<open>internal/validate/validate.go\<close>): its identity and
  host, its routes, its health endpoint, its exposed ports, its environment and the ports a
  co-located database cluster reserves.  The grants are in \<open>ValidateGrants\<close>.
\<close>

subsection \<open>Identity, host and ingress\<close>

datatype service_err =
    ReservedGateway
  | ReservedMesh
  | SvcGlobalHost string
  | ReloadNewline
  | SvcHost host_err
  | NoDeployUser string
  | NoUser
  | SvcGlobalIngress string
  | SvcNoIngress string
  | SvcOtherNetwork string string string

definition check_identity :: "service_spec \<Rightarrow> service_err list" where
  "check_identity s =
     (if svc_name s = gatewayCallerName then [ReservedGateway] else [])
     @ (if svc_name s = meshReservedName then [ReservedMesh] else [])"

definition check_host :: "service_spec \<Rightarrow> region_ctx \<Rightarrow> service_err list" where
  "check_host s ctx =
     (let (canonical, hostErrs) = resolveComputeHost (svc_host s) ''a service'' ctx in
      (if list_ex (\<lambda>c. c = CHR 0x0A \<or> c = CHR 0x0D) (svc_reload s) then [ReloadNewline] else [])
      @ map SvcHost hostErrs
      @ (if canonical \<noteq> [] \<and> \<not> cx_deployer ctx canonical then [NoDeployUser (svc_host s)] else [])
      @ (if svc_user s = [] then [NoUser] else []))"

definition check_ingress_ref :: "service_spec \<Rightarrow> region_ctx \<Rightarrow> service_err list" where
  "check_ingress_ref s ctx =
     (if svc_ingress s = [] then []
      else if prefix ''global/'' (svc_ingress s) then [SvcGlobalIngress (svc_ingress s)]
      else if svc_ingress s \<notin> set (cx_ingressNames ctx) then [SvcNoIngress (svc_ingress s)]
      else [])"

definition check_shared_network :: "service_spec \<Rightarrow> string \<Rightarrow> string \<Rightarrow> region_ctx \<Rightarrow> service_err list" where
  "check_shared_network s ingHost backendHost ctx =
     (if (svc_routes s \<noteq> [] \<or> svc_health_port s \<noteq> 0) \<and> ingHost \<noteq> [] \<and> backendHost \<noteq> []
         \<and> ingHost \<noteq> backendHost \<and> cx_computeNetwork ctx ingHost \<noteq> cx_computeNetwork ctx backendHost
      then [SvcOtherNetwork (svc_ingress s) (cx_computeNetwork ctx ingHost) (cx_computeNetwork ctx backendHost)]
      else [])"

subsection \<open>Routes\<close>

datatype route_err =
    RoutesNeedIngress
  | RouteType string
  | RouteListenRange int
  | RouteTargetRange int
  | RouteSamePort int
  | RouteBind bind_err
  | ForwardVanity int
  | ForwardTaken int string "string list"
  | ForwardAcme string

definition check_forward :: "service_spec \<Rightarrow> string \<Rightarrow> region_ctx \<Rightarrow> route_spec \<Rightarrow> route_err list" where
  "check_forward s ingHost ctx rt =
     (if rt_type rt \<noteq> IngressTypeForward then []
      else (if rt_vanity rt \<noteq> [] then [ForwardVanity (rt_listen rt)] else [])
        @ (let fwd = cx_forwardUsers ctx ingHost (rt_listen rt) in
           if length fwd > 1
           then [ForwardTaken (rt_listen rt) (svc_ingress s) (otherUsers fwd (svc_name s))] else [])
        @ (if rt_listen rt = 80 \<and> ingHost \<in> set (cx_tlsTerm ctx)
           then [ForwardAcme (svc_ingress s)] else []))"

definition check_route :: "service_spec \<Rightarrow> string \<Rightarrow> string \<Rightarrow> region_ctx \<Rightarrow> route_spec \<Rightarrow> route_err list" where
  "check_route s ingHost backendHost ctx rt =
     (let coLocated = (ingHost \<noteq> [] \<and> backendHost \<noteq> [] \<and> ingHost = backendHost) in
      (if rt_type rt \<noteq> IngressTypeTLSTermination \<and> rt_type rt \<noteq> IngressTypeForward
       then [RouteType (rt_type rt)] else [])
      @ (if rt_listen rt < 1 \<or> rt_listen rt > 65535 then [RouteListenRange (rt_listen rt)] else [])
      @ (if rt_target rt < 1 \<or> rt_target rt > 65535 then [RouteTargetRange (rt_listen rt)] else [])
      @ (if coLocated \<and> rt_listen rt = rt_target rt \<and> rt_listen rt \<noteq> 0
         then [RouteSamePort (rt_listen rt)]
         else if backendHost \<noteq> [] \<and> cx_portUsers ctx backendHost (rt_target rt) \<noteq> []
         then [RouteBind (PublicListen ''routes: target'' (rt_target rt) (svc_host s))]
         else map RouteBind (nginxBindErr ''routes: target'' backendHost (rt_target rt) ctx))
      @ (if hostRunsMeshProxy ingHost ctx
         then map RouteBind (meshEgressRangeErr ''routes: listen'' (rt_listen rt)) else [])
      @ (if hostRunsEdgeNginx backendHost ctx \<and> inReservedLoopbackRange (rt_target rt)
         then [RouteBind (InLoopbackRange ''routes: target'' (rt_target rt))] else [])
      @ map RouteBind (meshEgressRangeErr ''routes: target'' (rt_target rt))
      @ (if backendHost \<noteq> []
         then map RouteBind (shared_err ''routes: target'' (rt_target rt) (svc_host s)
                (cx_targetUsers ctx backendHost (rt_target rt)) (svc_name s)) else [])
      @ check_forward s ingHost ctx rt)"

definition check_routes :: "service_spec \<Rightarrow> string \<Rightarrow> string \<Rightarrow> region_ctx \<Rightarrow> route_err list" where
  "check_routes s ingHost backendHost ctx =
     (if svc_routes s = [] then []
      else (if svc_ingress s = [] then [RoutesNeedIngress] else [])
           @ concat (map (check_route s ingHost backendHost ctx) (svc_routes s)))"

subsection \<open>The health endpoint\<close>

datatype health_err =
    HealthNoPaths
  | HealthNoSurface
  | HealthIsTarget int
  | HealthBind bind_err
  | HealthIsIngressPort int string
  | HealthIsGatewayPort int
  | HealthIsGatewayTls int
  | HealthPath path_err
  | HealthPathsWithoutPort

definition check_health_port :: "service_spec \<Rightarrow> string \<Rightarrow> string \<Rightarrow> region_ctx \<Rightarrow> health_err list" where
  "check_health_port s ingHost backendHost ctx =
     (let p = svc_health_port s;
          coLocated = (ingHost \<noteq> [] \<and> backendHost \<noteq> [] \<and> ingHost = backendHost) in
      (if list_ex (\<lambda>rt. rt_target rt = p) (svc_routes s) then [HealthIsTarget p] else [])
      @ (if backendHost \<noteq> [] then
           (if cx_portUsers ctx backendHost p \<noteq> []
            then [HealthBind (PublicListen ''health_probes_port'' p (svc_host s))] else [])
           @ map HealthBind (shared_err ''health_probes_port'' p (svc_host s)
                (cx_targetUsers ctx backendHost p) (svc_name s))
         else [])
      @ (if coLocated \<and> cx_ingressHealth ctx (svc_ingress s) \<noteq> 0 \<and> p = cx_ingressHealth ctx (svc_ingress s)
         then [HealthIsIngressPort p (svc_ingress s)] else [])
      @ (if svc_ingress s = [] \<and> cx_gatewayTargets ctx (svc_name s) \<and> backendHost \<noteq> []
            \<and> backendHost = cx_gatewayHost ctx then
           (if cx_gatewayHealth ctx \<noteq> 0 \<and> p = cx_gatewayHealth ctx then [HealthIsGatewayPort p] else [])
           @ (if p = 443 \<or> p = 80 then [HealthIsGatewayTls p] else [])
         else [])
      @ (if hostRunsEdgeNginx backendHost ctx \<and> inReservedLoopbackRange p
         then [HealthBind (InLoopbackRange ''health_probes_port'' p)] else [])
      @ map HealthBind (meshEgressRangeErr ''health_probes_port'' p))"

definition check_health :: "service_spec \<Rightarrow> string \<Rightarrow> string \<Rightarrow> region_ctx \<Rightarrow> health_err list" where
  "check_health s ingHost backendHost ctx =
     (if svc_health_port s = 0 then []
      else (if svc_health_paths s = [] then [HealthNoPaths] else [])
        @ (if svc_ingress s = [] \<and> \<not> cx_gatewayTargets ctx (svc_name s) then [HealthNoSurface]
           else check_health_port s ingHost backendHost ctx))
     @ map HealthPath (checkExactPaths ''health_probe_paths'' (svc_health_paths s))
     @ (if svc_health_paths s \<noteq> [] \<and> svc_health_port s = 0 then [HealthPathsWithoutPort] else [])"

subsection \<open>Exposed ports\<close>

datatype exposed_err =
    ExposedProto string
  | ExposedTwice string int
  | ExposedIsTarget int
  | ExposedIsHealth int
  | ExposedBind bind_err

definition check_exposed_tcp :: "service_spec \<Rightarrow> string \<Rightarrow> region_ctx \<Rightarrow> int \<Rightarrow> exposed_err list" where
  "check_exposed_tcp s backendHost ctx p =
     (if list_ex (\<lambda>rt. rt_target rt = p) (svc_routes s) then [ExposedIsTarget p] else [])
     @ (if svc_health_port s \<noteq> 0 \<and> svc_health_port s = p then [ExposedIsHealth p] else [])
     @ (if backendHost \<noteq> [] then
          (if cx_portUsers ctx backendHost p \<noteq> []
           then [ExposedBind (PublicListen ''exposed_ports: tcp'' p (svc_host s))]
           else map ExposedBind (nginxBindErr ''exposed_ports: tcp'' backendHost p ctx))
          @ map ExposedBind (shared_err ''exposed_ports: tcp'' p (svc_host s)
               (cx_targetUsers ctx backendHost p) (svc_name s))
        else [])
     @ (if hostRunsEdgeNginx backendHost ctx \<and> inReservedLoopbackRange p
        then [ExposedBind (InLoopbackRange ''exposed_ports: tcp'' p)] else [])
     @ map ExposedBind (meshEgressRangeErr ''exposed_ports: tcp'' p)"

fun check_exposed :: "service_spec \<Rightarrow> string \<Rightarrow> region_ctx \<Rightarrow> exposed_port list \<Rightarrow> exposed_port list
    \<Rightarrow> exposed_err list" where
  "check_exposed s backendHost ctx seen [] = []"
| "check_exposed s backendHost ctx seen (ep # eps) =
     (if ep_proto ep \<noteq> ''tcp'' \<and> ep_proto ep \<noteq> ''udp''
      then ExposedProto (ep_proto ep) # check_exposed s backendHost ctx seen eps
      else if ep \<in> set seen
      then ExposedTwice (ep_proto ep) (ep_port ep) # check_exposed s backendHost ctx seen eps
      else (if ep_proto ep = ''udp'' then
              (if backendHost \<noteq> []
               then map ExposedBind (shared_err ''exposed_ports: udp'' (ep_port ep) (svc_host s)
                      (cx_udpUsers ctx backendHost (ep_port ep)) (svc_name s))
               else [])
            else check_exposed_tcp s backendHost ctx (ep_port ep))
           @ check_exposed s backendHost ctx (ep # seen) eps)"

subsection \<open>The environment\<close>

datatype env_err =
    EnvReservedPrefix string
  | EnvReservedMesh string
  | EnvBadSource string source_err
  | EnvNoStore string string
  | EnvNoSecret string string
  | EnvDatabaseRef string
  | EnvComputeOutput string string
  | EnvNoCompute string string

definition ReservedEnvPrefix :: string where "ReservedEnvPrefix = ''INFORGE_''"

definition reservedEnvNameErrs :: "string \<Rightarrow> string \<Rightarrow> env_err list" where
  "reservedEnvNameErrs envName label =
     (if prefix ReservedEnvPrefix envName then [EnvReservedPrefix label] else [])
     @ (if map_of DescriptorFiles envName \<noteq> None then [EnvReservedMesh label] else [])"

definition check_env_entry :: "service_spec \<Rightarrow> region_ctx \<Rightarrow> string \<Rightarrow> string \<Rightarrow> env_err list" where
  "check_env_entry s ctx k v =
     reservedEnvNameErrs k (''environment.'' @ k)
     @ (case ParseSource v of
          Inl e \<Rightarrow> [EnvBadSource k e]
        | Inr (SourceVault key) \<Rightarrow>
            (case store_lookup (cx_store ctx) (svc_name s) key of
               (found, known) \<Rightarrow>
                 if \<not> known \<and> ss_unreadable (cx_store ctx) then []
                 else if \<not> known then [EnvNoStore k key]
                 else if \<not> found then [EnvNoSecret k key]
                 else [])
        | Inr (SourceRef t n out) \<Rightarrow>
            if t = ''database'' then [EnvDatabaseRef k]
            else if t = ''compute'' then
              (if out \<noteq> ''publicIp'' then [EnvComputeOutput k out] else [])
              @ (if cx_computeKind ctx n = None then [EnvNoCompute k n] else [])
            else []
        | Inr (SourceEnv n) \<Rightarrow> []
        | Inr (SourceLiteral l) \<Rightarrow> [])"

definition check_environment :: "service_spec \<Rightarrow> region_ctx \<Rightarrow> env_err list" where
  "check_environment s ctx =
     concat (map (\<lambda>k. check_env_entry s ctx k (the (map_of (svc_env s) k)))
       (sort (map fst (svc_env s))))"

subsection \<open>Ports a co-located database cluster reserves\<close>

definition pg_reserve_err :: "string \<Rightarrow> int \<Rightarrow> bind_err list" where
  "pg_reserve_err label port = (if InReservedPortRange port then [InPgRange label port] else [])"

definition check_pg_range :: "service_spec \<Rightarrow> string \<Rightarrow> region_ctx \<Rightarrow> bind_err list" where
  "check_pg_range s canonical ctx =
     (if canonical = [] \<or> \<not> cx_clusterHosts ctx canonical then []
      else concat (map (\<lambda>(i, rt). pg_reserve_err (''routes['' @ itoa i @ ''].target'') (rt_target rt))
             (enumerate 0 (svc_routes s)))
        @ (if svc_health_port s > 0 then pg_reserve_err ''health_probes_port'' (svc_health_port s) else [])
        @ (case svc_mesh s of
             None \<Rightarrow> []
           | Some m \<Rightarrow> if mesh_port m \<noteq> 0 then pg_reserve_err ''mesh.port'' (mesh_port m) else [])
        @ concat (map (\<lambda>(i, ep). if ep_proto ep = ''tcp''
               then pg_reserve_err (''exposed_ports['' @ itoa i @ '']'') (ep_port ep) else [])
             (enumerate 0 (svc_exposed s))))"

end
