(* ===== verification/ValidateGrants.thy ===== *)
theory ValidateGrants
  imports ValidateService
begin

text \<open>
  The check of a service's grants (\<open>checkGrants\<close> of \<open>internal/validate/validate.go\<close>) and the
  whole check of a service, composed of its parts in the order of \<open>checkService\<close>.
\<close>

datatype grant_check_err =
    GrantShape nat string
  | GrantTwice nat string
  | GrantType nat string
  | GrantPermission nat string
  | GrantGlobalDatabase nat string
  | GrantDbNetwork nat string string string
  | GrantNoDatabase nat string
  | GrantNoPki nat string
  | GrantPkiTopology nat string string
  | GrantPkiNotGenerated nat string string
  | OutputReserved env_err
  | OutputInEnvironment nat string
  | OutputTwice nat string string
  | OutputTemplate nat string template_err
  | OutputNoField nat string string
  | OutputNotPublished nat string string
  | OutputMixesFile nat string string

text \<open>The messages on a database target and whether it resolved.\<close>

definition resolve_database :: "service_spec \<Rightarrow> region_ctx \<Rightarrow> nat \<Rightarrow> string
    \<Rightarrow> grant_check_err list \<times> bool" where
  "resolve_database s ctx gi name =
     (if prefix ''global/'' name then ([GrantGlobalDatabase gi name], False)
      else if cx_databaseNames ctx name then
        (let svcHost = canonicalHost (svc_host s) ctx;
             dbHost = cx_clusterHostByName ctx (cx_dbCluster ctx name);
             sn = cx_computeNetwork ctx svcHost; dn = cx_computeNetwork ctx dbHost in
         (if svcHost \<noteq> [] \<and> dbHost \<noteq> [] \<and> sn \<noteq> [] \<and> dn \<noteq> [] \<and> sn \<noteq> dn
          then [GrantDbNetwork gi name dn sn] else [], True))
      else ([GrantNoDatabase gi name], False))"

definition resolve_pki :: "region_ctx \<Rightarrow> nat \<Rightarrow> string \<Rightarrow> grant_check_err list \<times> bool" where
  "resolve_pki ctx gi name =
     (case cx_pkiResources ctx name of
        None \<Rightarrow> ([GrantNoPki gi name], False)
      | Some topology \<Rightarrow>
          if topology \<noteq> TopologyRootOnly then ([GrantPkiTopology gi name topology], False)
          else if \<not> cx_pkiGenerated ctx (StripGlobalPrefix name)
          then ([GrantPkiNotGenerated gi name (StripGlobalPrefix name)], False)
          else ([], True))"

definition resolve_target :: "service_spec \<Rightarrow> region_ctx \<Rightarrow> nat \<Rightarrow> grantable \<Rightarrow> string
    \<Rightarrow> grant_check_err list \<times> bool" where
  "resolve_target s ctx gi g name =
     (case g of Database \<Rightarrow> resolve_database s ctx gi name | PKIResource \<Rightarrow> resolve_pki ctx gi name)"

text \<open>The template of one output; \<open>resolved\<close> is \<open>targetResolved\<close>.\<close>

definition check_template :: "nat \<Rightarrow> grantable \<Rightarrow> string \<Rightarrow> bool \<Rightarrow> string \<Rightarrow> string
    \<Rightarrow> grant_check_err list" where
  "check_template gi g perm resolved envName tmpl =
     (case ParseTemplate tmpl of
        Inl e \<Rightarrow> [OutputTemplate gi envName e]
      | Inr t \<Rightarrow>
          let fields = template_Fields t;
              (values, files) = FieldNames g perm;
              published = values @ files in
          if fields = [] then [OutputNoField gi envName tmpl]
          else if \<not> resolved then []
          else concat (map (\<lambda>f. if f \<notin> set published then [OutputNotPublished gi envName f] else []) fields)
            @ (if list_ex (\<lambda>f. f \<in> set published \<and> f \<in> set files) fields
                  \<and> (length fields \<noteq> 1 \<or> HasLiteral t)
               then [OutputMixesFile gi envName tmpl] else []))"

text \<open>
  The outputs in sorted order; \<open>names\<close> maps an output name to the resource of the grant that
  first produced it.
\<close>

fun check_outputs :: "service_spec \<Rightarrow> nat \<Rightarrow> grant_spec \<Rightarrow> grantable \<Rightarrow> bool
    \<Rightarrow> (string \<times> string) list \<Rightarrow> string list \<Rightarrow> grant_check_err list \<times> (string \<times> string) list" where
  "check_outputs s gi g gt resolved names [] = ([], names)"
| "check_outputs s gi g gt resolved names (envName # rest) =
     (let tmpl = the (map_of (gr_outputs g) envName);
          own = map OutputReserved (reservedEnvNameErrs envName
                  (''grants['' @ itoa gi @ ''].outputs.'' @ envName))
            @ (if map_of (svc_env s) envName \<noteq> None then [OutputInEnvironment gi envName] else [])
            @ (case map_of names envName of
                 Some prev \<Rightarrow> [OutputTwice gi envName prev] | None \<Rightarrow> [])
            @ check_template gi gt (gr_permission g) resolved envName tmpl;
          names' = (if map_of names envName = None then (envName, gr_resource g) # names else names);
          (errs, final) = check_outputs s gi g gt resolved names' rest
      in (own @ errs, final))"

fun check_grants :: "service_spec \<Rightarrow> region_ctx \<Rightarrow> nat \<Rightarrow> string list \<Rightarrow> (string \<times> string) list
    \<Rightarrow> grant_spec list \<Rightarrow> grant_check_err list" where
  "check_grants s ctx gi seen names [] = []"
| "check_grants s ctx gi seen names (g # gs) =
     (case cut_at CHR ''/'' (gr_resource g) of
        None \<Rightarrow> GrantShape gi (gr_resource g) # check_grants s ctx (gi + 1) seen names gs
      | Some (typ, name) \<Rightarrow>
          if typ = [] \<or> name = [] then
            GrantShape gi (gr_resource g) # check_grants s ctx (gi + 1) seen names gs
          else if gr_resource g \<in> set seen then
            GrantTwice gi (gr_resource g) # check_grants s ctx (gi + 1) seen names gs
          else case grant_For typ of
            None \<Rightarrow> GrantType gi (gr_resource g)
                    # check_grants s ctx (gi + 1) (gr_resource g # seen) names gs
          | Some gt \<Rightarrow>
              if \<not> Permission_Valid (gr_permission g) then
                GrantPermission gi (gr_permission g)
                # check_grants s ctx (gi + 1) (gr_resource g # seen) names gs
              else
                let (errs, resolved) = resolve_target s ctx gi gt name;
                    (oerrs, names') = check_outputs s gi g gt resolved names
                                        (sort (map fst (gr_outputs g)))
                in errs @ oerrs @ check_grants s ctx (gi + 1) (gr_resource g # seen) names' gs)"

definition checkGrants :: "service_spec \<Rightarrow> region_ctx \<Rightarrow> grant_check_err list" where
  "checkGrants s ctx = check_grants s ctx 0 [] [] (svc_grants s)"

subsection \<open>The check of a service\<close>

datatype svc_err =
    ServiceErr service_err
  | RouteErr route_err
  | MeshErr mesh_err
  | HealthErr health_err
  | ExposedErr exposed_err
  | EnvErr env_err
  | PgErr bind_err
  | GrantErr grant_check_err

definition checkService :: "service_spec \<Rightarrow> region_ctx \<Rightarrow> svc_err list \<times> check_warning list" where
  "checkService s ctx =
     (if prefix ''global/'' (svc_host s) then
        (map ServiceErr (check_identity s @ [SvcGlobalHost (svc_host s)]), [])
      else
        let canonical = fst (resolveComputeHost (svc_host s) ''a service'' ctx);
            ingHost = str_at (cx_ingressHost ctx) (svc_ingress s) in
        (map ServiceErr (check_identity s @ check_host s ctx @ check_ingress_ref s ctx
                         @ check_shared_network s ingHost canonical ctx)
         @ map RouteErr (check_routes s ingHost canonical ctx)
         @ (case svc_mesh s of None \<Rightarrow> [] | Some m \<Rightarrow> map MeshErr (checkMesh s m canonical ctx))
         @ map HealthErr (check_health s ingHost canonical ctx)
         @ map ExposedErr (check_exposed s canonical ctx [] (svc_exposed s))
         @ map EnvErr (check_environment s ctx)
         @ map PgErr (check_pg_range s canonical ctx)
         @ map GrantErr (checkGrants s ctx),
         if svc_type s = ''container'' then [TypeReserved] else []))"

end
