(* ===== verification/ServiceFacts.thy ===== *)
theory ServiceFacts
  imports ValidateGrants
begin

text \<open>
  What a service that passes its check satisfies, part by part, and what a scope whose services
  all pass satisfies: exclusive backend ports, no collision with nginx, with the mesh proxy or
  with a database cluster, exclusive forwards, and grants whose outputs can be materialised.
\<close>

subsection \<open>The parts of a passing check\<close>

definition service_ok :: "region_ctx \<Rightarrow> service_spec \<Rightarrow> bool" where
  "service_ok ctx s \<longleftrightarrow> fst (checkService s ctx) = []"

abbreviation own_host :: "service_spec \<Rightarrow> region_ctx \<Rightarrow> string" where
  "own_host s ctx \<equiv> canonicalHost (svc_host s) ctx"

abbreviation front_host :: "service_spec \<Rightarrow> region_ctx \<Rightarrow> string" where
  "front_host s ctx \<equiv> str_at (cx_ingressHost ctx) (svc_ingress s)"

lemma service_ok_parts:
  assumes "service_ok ctx s"
  shows "check_identity s = []" and "check_host s ctx = []" and "check_ingress_ref s ctx = []"
    and "check_shared_network s (front_host s ctx) (own_host s ctx) ctx = []"
    and "check_routes s (front_host s ctx) (own_host s ctx) ctx = []"
    and "svc_mesh s = Some m \<Longrightarrow> checkMesh s m (own_host s ctx) ctx = []"
    and "check_health s (front_host s ctx) (own_host s ctx) ctx = []"
    and "check_exposed s (own_host s ctx) ctx [] (svc_exposed s) = []"
    and "check_environment s ctx = []"
    and "check_pg_range s (own_host s ctx) ctx = []"
    and "checkGrants s ctx = []"
  using assms
  by (auto simp: service_ok_def checkService_def resolveComputeHost_fst Let_def
      split: if_splits option.splits)

lemma service_host:
  assumes "service_ok ctx s"
  shows "own_host s ctx \<noteq> []" and "cx_deployer ctx (own_host s ctx)"
    and "str_at (cx_computeKind ctx) (own_host s ctx) = ''vm''"
    and "svc_user s \<noteq> []"
proof -
  have c: "check_host s ctx = []" by (rule service_ok_parts(2) [OF assms])
  then have r: "snd (resolveComputeHost (svc_host s) ''a service'' ctx) = []"
    by (auto simp: check_host_def split: prod.splits)
  show "own_host s ctx \<noteq> []" "str_at (cx_computeKind ctx) (own_host s ctx) = ''vm''"
    using resolveComputeHost_ok [OF r] by auto
  have "resolveComputeHost (svc_host s) ''a service'' ctx = (own_host s ctx, [])"
    using r resolveComputeHost_fst [of "svc_host s" "''a service''" ctx] by (metis prod.collapse)
  with c \<open>own_host s ctx \<noteq> []\<close> show "cx_deployer ctx (own_host s ctx)" "svc_user s \<noteq> []"
    by (auto simp: check_host_def split: if_splits)
qed

lemma check_route_nil:
  assumes "check_route s ing h ctx rt = []" and "h \<noteq> []"
  shows "rt_type rt \<in> {IngressTypeTLSTermination, IngressTypeForward}"
    and "1 \<le> rt_listen rt \<and> rt_listen rt \<le> 65535" and "1 \<le> rt_target rt \<and> rt_target rt \<le> 65535"
    and "cx_portUsers ctx h (rt_target rt) = []" and "cx_nginxBinds ctx h (rt_target rt) = None"
    and "set (cx_targetUsers ctx h (rt_target rt)) \<subseteq> {svc_name s}"
    and "\<not> InReservedEgressRange (rt_target rt)"
    and "hostRunsEdgeNginx h ctx \<Longrightarrow> \<not> inReservedLoopbackRange (rt_target rt)"
    and "hostRunsMeshProxy ing ctx \<Longrightarrow> \<not> InReservedEgressRange (rt_listen rt)"
    and "rt_type rt = IngressTypeForward \<Longrightarrow> rt_vanity rt = []
          \<and> length (cx_forwardUsers ctx ing (rt_listen rt)) \<le> 1"
  using assms by (auto simp: check_route_def check_forward_def Let_def shared_err_nil nginxBindErr_nil
      meshEgressRangeErr_nil split: if_splits)

lemma route_ok:
  assumes "service_ok ctx s" and "rt \<in> set (svc_routes s)"
  shows "check_route s (front_host s ctx) (own_host s ctx) ctx rt = []" and "svc_ingress s \<noteq> []"
proof -
  have "check_routes s (front_host s ctx) (own_host s ctx) ctx = []"
    by (rule service_ok_parts(5) [OF assms(1)])
  then show "check_route s (front_host s ctx) (own_host s ctx) ctx rt = []" "svc_ingress s \<noteq> []"
    using assms(2) by (auto simp: check_routes_def split: if_splits)
qed

lemma health_ok:
  assumes "service_ok ctx s" and "svc_health_port s \<noteq> 0"
  shows "check_health_port s (front_host s ctx) (own_host s ctx) ctx = []"
    and "svc_health_paths s \<noteq> []" and "svc_ingress s \<noteq> [] \<or> cx_gatewayTargets ctx (svc_name s)"
    and "distinct (svc_health_paths s)" and "\<forall>p\<in>set (svc_health_paths s). CheckExact p = None"
  using service_ok_parts(7) [OF assms(1)] assms(2)
  by (auto simp: check_health_def checkExactPaths_nil split: if_splits)

lemma check_health_port_nil:
  assumes "check_health_port s ing h ctx = []" and "h \<noteq> []"
  shows "\<forall>rt\<in>set (svc_routes s). rt_target rt \<noteq> svc_health_port s"
    and "cx_portUsers ctx h (svc_health_port s) = []"
    and "set (cx_targetUsers ctx h (svc_health_port s)) \<subseteq> {svc_name s}"
    and "hostRunsEdgeNginx h ctx \<Longrightarrow> \<not> inReservedLoopbackRange (svc_health_port s)"
    and "\<not> InReservedEgressRange (svc_health_port s)"
  using assms by (auto simp: check_health_port_def Let_def shared_err_nil meshEgressRangeErr_nil
      list_ex_iff split: if_splits)

lemma check_exposed_nil:
  assumes "check_exposed s h ctx seen eps = []"
  shows "distinct eps \<and> set eps \<inter> set seen = {}
     \<and> (\<forall>ep\<in>set eps. (ep_proto ep = ''tcp'' \<and> check_exposed_tcp s h ctx (ep_port ep) = [])
          \<or> (ep_proto ep = ''udp'' \<and> (h \<noteq> [] \<longrightarrow> set (cx_udpUsers ctx h (ep_port ep)) \<subseteq> {svc_name s})))"
  using assms by (induction s h ctx seen eps rule: check_exposed.induct)
    (auto simp: shared_err_nil split: if_splits)

lemma check_exposed_tcp_nil:
  assumes "check_exposed_tcp s h ctx p = []" and "h \<noteq> []"
  shows "\<forall>rt\<in>set (svc_routes s). rt_target rt \<noteq> p"
    and "svc_health_port s \<noteq> 0 \<Longrightarrow> svc_health_port s \<noteq> p"
    and "cx_portUsers ctx h p = []" and "cx_nginxBinds ctx h p = None"
    and "set (cx_targetUsers ctx h p) \<subseteq> {svc_name s}"
    and "hostRunsEdgeNginx h ctx \<Longrightarrow> \<not> inReservedLoopbackRange p"
    and "\<not> InReservedEgressRange p"
  using assms by (auto simp: check_exposed_tcp_def shared_err_nil nginxBindErr_nil
      meshEgressRangeErr_nil list_ex_iff split: if_splits)

lemma exposed_ok:
  assumes "service_ok ctx s" and "p \<in> set (tcp_exposed s)"
  shows "check_exposed_tcp s (own_host s ctx) ctx p = []"
  using check_exposed_nil [OF service_ok_parts(8) [OF assms(1)]] assms(2)
  by (auto simp: tcp_exposed_def)

lemma mesh_ok:
  assumes "service_ok ctx s" and "p \<in> set (mesh_binds s)"
  obtains m where "svc_mesh s = Some m" "p = mesh_port m"
    "check_mesh_port s m (own_host s ctx) ctx = []"
proof -
  from assms(2) obtain m where m: "svc_mesh s = Some m" "p = mesh_port m"
    by (cases "svc_mesh s") (auto simp: mesh_binds_def split: if_splits)
  then show thesis using that checkMesh_nil(4) [OF service_ok_parts(6) [OF assms(1) m(1)]] by blast
qed

subsection \<open>Every backend bind of a passing service\<close>

lemma tcp_bind_cases:
  assumes "p \<in> set (tcp_binds s)"
  obtains "p \<in> set (mesh_binds s)" | "p \<in> set (health_binds s)"
    | rt where "rt \<in> set (svc_routes s)" "p = rt_target rt" "svc_ingress s \<noteq> []"
    | "p \<in> set (tcp_exposed s)"
  using assms by (auto simp: tcp_binds_def route_binds_def split: if_splits)

lemma health_binds_iff: "p \<in> set (health_binds s) \<longleftrightarrow> svc_health_port s \<noteq> 0 \<and> p = svc_health_port s"
  by (auto simp: health_binds_def)

definition bind_clear :: "region_ctx \<Rightarrow> service_spec \<Rightarrow> int \<Rightarrow> bool" where
  "bind_clear ctx s p \<longleftrightarrow> set (cx_targetUsers ctx (own_host s ctx) p) \<subseteq> {svc_name s}
     \<and> cx_portUsers ctx (own_host s ctx) p = [] \<and> \<not> InReservedEgressRange p"

lemma mesh_bind_facts:
  assumes "service_ok ctx s" and "p \<in> set (mesh_binds s)"
  shows "bind_clear ctx s p" and "cx_nginxBinds ctx (own_host s ctx) p = None"
    and "1 \<le> p \<and> p \<le> 65535"
proof -
  obtain m where m: "p = mesh_port m" "check_mesh_port s m (own_host s ctx) ctx = []"
    using mesh_ok [OF assms] by blast
  show "bind_clear ctx s p" "cx_nginxBinds ctx (own_host s ctx) p = None" "1 \<le> p \<and> p \<le> 65535"
    using check_mesh_port_nil [OF m(2)] service_host(1) [OF assms(1)] m(1)
    by (simp_all add: bind_clear_def)
qed

lemma health_bind_facts:
  assumes "service_ok ctx s" and "p \<in> set (health_binds s)"
  shows "bind_clear ctx s p"
    and "hostRunsEdgeNginx (own_host s ctx) ctx \<Longrightarrow> \<not> inReservedLoopbackRange p"
proof -
  have p: "svc_health_port s \<noteq> 0" "p = svc_health_port s" using assms(2) by (auto simp: health_binds_iff)
  note n = check_health_port_nil [OF health_ok(1) [OF assms(1) p(1)] service_host(1) [OF assms(1)]]
  show "bind_clear ctx s p" using n p by (simp add: bind_clear_def)
  show "hostRunsEdgeNginx (own_host s ctx) ctx \<Longrightarrow> \<not> inReservedLoopbackRange p" using n p by simp
qed

lemma route_bind_facts:
  assumes "service_ok ctx s" and "rt \<in> set (svc_routes s)"
  shows "bind_clear ctx s (rt_target rt)" and "cx_nginxBinds ctx (own_host s ctx) (rt_target rt) = None"
    and "hostRunsEdgeNginx (own_host s ctx) ctx \<Longrightarrow> \<not> inReservedLoopbackRange (rt_target rt)"
  using check_route_nil [OF route_ok(1) [OF assms] service_host(1) [OF assms(1)]]
  by (simp_all add: bind_clear_def)

lemma exposed_bind_facts:
  assumes "service_ok ctx s" and "p \<in> set (tcp_exposed s)"
  shows "bind_clear ctx s p" and "cx_nginxBinds ctx (own_host s ctx) p = None"
    and "hostRunsEdgeNginx (own_host s ctx) ctx \<Longrightarrow> \<not> inReservedLoopbackRange p"
  using check_exposed_tcp_nil [OF exposed_ok [OF assms] service_host(1) [OF assms(1)]]
  by (simp_all add: bind_clear_def)

lemma bind_facts:
  assumes "service_ok ctx s" and "p \<in> set (tcp_binds s)"
  shows "bind_clear ctx s p"
    and "p \<notin> set (health_binds s) \<Longrightarrow> cx_nginxBinds ctx (own_host s ctx) p = None"
    and "p \<notin> set (mesh_binds s) \<Longrightarrow> hostRunsEdgeNginx (own_host s ctx) ctx \<Longrightarrow>
           \<not> inReservedLoopbackRange p"
  using assms(2)
  by (auto elim!: tcp_bind_cases dest: mesh_bind_facts [OF assms(1)] health_bind_facts [OF assms(1)]
      route_bind_facts [OF assms(1)] exposed_bind_facts [OF assms(1)])

text \<open>The kinds of binds of one service do not collide with each other.\<close>

lemma own_binds_disjoint:
  assumes "service_ok ctx s"
  shows "set (mesh_binds s) \<inter> (set (health_binds s) \<union> rt_target ` set (svc_routes s)) = {}"
    and "set (health_binds s) \<inter> rt_target ` set (svc_routes s) = {}"
    and "set (tcp_exposed s) \<inter> (set (health_binds s) \<union> rt_target ` set (svc_routes s)) = {}"
    and "set (mesh_binds s) \<inter> set (tcp_exposed s) = {}"
proof -
  note h = service_host(1) [OF assms]
  have m: "p \<notin> set (health_binds s) \<and> p \<notin> rt_target ` set (svc_routes s) \<and> p \<notin> set (tcp_exposed s)"
    if p: "p \<in> set (mesh_binds s)" for p
  proof -
    obtain m where m: "p = mesh_port m" "check_mesh_port s m (own_host s ctx) ctx = []"
      using mesh_ok [OF assms p] by blast
    note n = check_mesh_port_nil [OF m(2)]
    have "\<forall>ep\<in>set (svc_exposed s). ep_proto ep \<noteq> ''udp'' \<longrightarrow> ep_proto ep = ''tcp''"
      using check_exposed_nil [OF service_ok_parts(8) [OF assms]] by auto
    then show ?thesis using n(2,3,5) m(1) by (auto simp: health_binds_iff tcp_exposed_def)
  qed
  have e: "p \<notin> set (health_binds s) \<and> p \<notin> rt_target ` set (svc_routes s)"
    if p: "p \<in> set (tcp_exposed s)" for p
    using check_exposed_tcp_nil [OF exposed_ok [OF assms p] h] by (auto simp: health_binds_iff)
  have hl: "p \<notin> rt_target ` set (svc_routes s)" if "p \<in> set (health_binds s)" for p
    using that check_health_port_nil(1) [OF health_ok(1) [OF assms] h] by (auto simp: health_binds_iff)
  show "set (mesh_binds s) \<inter> (set (health_binds s) \<union> rt_target ` set (svc_routes s)) = {}"
    "set (mesh_binds s) \<inter> set (tcp_exposed s) = {}" using m by blast+
  show "set (health_binds s) \<inter> rt_target ` set (svc_routes s) = {}" using hl by blast
  show "set (tcp_exposed s) \<inter> (set (health_binds s) \<union> rt_target ` set (svc_routes s)) = {}"
    using e by blast
qed

subsection \<open>A scope whose services all pass\<close>

definition scope_ok :: "validate_input \<Rightarrow> file_set \<Rightarrow> bool" where
  "scope_ok vi fs \<longleftrightarrow> distinct (map svc_name (services_of fs))
     \<and> list_all (service_ok (build_ctx vi fs)) (services_of fs)"

lemma scope_okD:
  "scope_ok vi fs \<Longrightarrow> s \<in> set (services_of fs) \<Longrightarrow> service_ok (build_ctx vi fs) s"
  by (simp add: scope_ok_def list_all_iff)

lemma scope_names:
  "scope_ok vi fs \<Longrightarrow> s \<in> set (services_of fs) \<Longrightarrow> t \<in> set (services_of fs) \<Longrightarrow> s \<noteq> t
   \<Longrightarrow> svc_name s \<noteq> svc_name t"
  unfolding scope_ok_def by (metis distinct_map inj_onD)

lemma tcp_exclusive:
  assumes ok: "scope_ok vi fs" and st: "s \<in> set (services_of fs)" "t \<in> set (services_of fs)" "s \<noteq> t"
    and h: "own_host s (build_ctx vi fs) = own_host t (build_ctx vi fs)"
  shows "set (tcp_binds s) \<inter> set (tcp_binds t) = {}"
proof (rule ccontr)
  assume "set (tcp_binds s) \<inter> set (tcp_binds t) \<noteq> {}"
  then obtain p where p: "p \<in> set (tcp_binds s)" "p \<in> set (tcp_binds t)" by blast
  let ?c = "build_ctx vi fs"
  have "svc_name t \<in> set (cx_targetUsers ?c (own_host t ?c) p)"
    using tcp_registered [OF st(2) p(2) refl] service_host(1) [OF scope_okD [OF ok st(2)]] by blast
  moreover have "set (cx_targetUsers ?c (own_host s ?c) p) \<subseteq> {svc_name s}"
    using bind_facts(1) [OF scope_okD [OF ok st(1)] p(1)] by (simp add: bind_clear_def)
  ultimately show False using scope_names [OF ok st] h by auto
qed

lemma udp_exclusive:
  assumes ok: "scope_ok vi fs" and st: "s \<in> set (services_of fs)" "t \<in> set (services_of fs)" "s \<noteq> t"
    and h: "own_host s (build_ctx vi fs) = own_host t (build_ctx vi fs)"
  shows "set (udp_exposed s) \<inter> set (udp_exposed t) = {}"
proof (rule ccontr)
  assume "set (udp_exposed s) \<inter> set (udp_exposed t) \<noteq> {}"
  then obtain p where p: "p \<in> set (udp_exposed s)" "p \<in> set (udp_exposed t)" by blast
  let ?c = "build_ctx vi fs"
  have hs: "own_host s ?c \<noteq> []" by (rule service_host(1) [OF scope_okD [OF ok st(1)]])
  have "svc_name t \<in> set (cx_udpUsers ?c (own_host t ?c) p)"
    using udp_registered [OF st(2) p(2) refl] hs h by simp
  moreover have "set (cx_udpUsers ?c (own_host s ?c) p) \<subseteq> {svc_name s}"
    using check_exposed_nil [OF service_ok_parts(8) [OF scope_okD [OF ok st(1)]]] p(1) hs
    by (auto simp: udp_exposed_def)
  ultimately show False using scope_names [OF ok st] h by auto
qed

text \<open>No backend of a host is on a port that nginx publishes there for some service's route.\<close>

lemma backend_off_listens:
  assumes ok: "scope_ok vi fs" and s: "s \<in> set (services_of fs)" and p: "p \<in> set (tcp_binds s)"
    and t: "t \<in> set (services_of fs)" "rt \<in> set (svc_routes t)"
    and h: "cx_ingressHost (build_ctx vi fs) (svc_ingress t) = Some (own_host s (build_ctx vi fs))"
  shows "p \<noteq> rt_listen rt"
proof
  assume e: "p = rt_listen rt"
  have "svc_ingress t \<noteq> []" using route_ok(2) [OF scope_okD [OF ok t(1)] t(2)] .
  then have "svc_name t \<in> set (cx_portUsers (build_ctx vi fs) (own_host s (build_ctx vi fs)) p)"
    using listen_registered(1) [OF t _ h] e by simp
  moreover have "cx_portUsers (build_ctx vi fs) (own_host s (build_ctx vi fs)) p = []"
    using bind_facts(1) [OF scope_okD [OF ok s] p] by (simp add: bind_clear_def)
  ultimately show False by simp
qed

text \<open>Nor, its health endpoint apart, on the ports where the host terminates TLS for an app.\<close>

lemma backend_off_app_tls:
  assumes ok: "scope_ok vi fs" and s: "s \<in> set (services_of fs)"
    and p: "p \<in> set (tcp_binds s)" "p \<notin> set (health_binds s)"
    and a: "a \<in> set (parsed_specs (fs_app fs))"
    and h: "cx_ingressHost (build_ctx vi fs) (app_ingress a) = Some (own_host s (build_ctx vi fs))"
  shows "p \<noteq> 443 \<and> p \<noteq> 80"
  using bind_facts(2) [OF scope_okD [OF ok s] p(1) p(2)] app_tls_pass(1) [OF a h] app_acme [OF a h]
    service_host(1) [OF scope_okD [OF ok s]] by auto

text \<open>A passthrough port of an ingress host belongs to one service.\<close>

lemma forward_exclusive:
  assumes ok: "scope_ok vi fs" and st: "s \<in> set (services_of fs)" "t \<in> set (services_of fs)" "s \<noteq> t"
    and r: "r \<in> set (svc_routes s)" "rt_type r = IngressTypeForward"
    and q: "q \<in> set (svc_routes t)" "rt_type q = IngressTypeForward"
    and h: "cx_ingressHost (build_ctx vi fs) (svc_ingress s) = Some ih"
      "cx_ingressHost (build_ctx vi fs) (svc_ingress t) = Some ih"
  shows "rt_listen r \<noteq> rt_listen q"
proof
  let ?c = "build_ctx vi fs"
  assume e: "rt_listen r = rt_listen q"
  have ni: "svc_ingress s \<noteq> []" "svc_ingress t \<noteq> []"
    using route_ok(2) [OF scope_okD [OF ok st(1)] r(1)] route_ok(2) [OF scope_okD [OF ok st(2)] q(1)] .
  have mem: "svc_name s \<in> set (cx_forwardUsers ?c ih (rt_listen r))"
    "svc_name t \<in> set (cx_forwardUsers ?c ih (rt_listen r))"
    using listen_registered(2) [OF st(1) r(1) ni(1) h(1) r(2)]
      listen_registered(2) [OF st(2) q(1) ni(2) h(2) q(2)] e by auto
  have "length (cx_forwardUsers ?c ih (rt_listen r)) \<le> 1"
    using check_route_nil(10) [OF route_ok(1) [OF scope_okD [OF ok st(1)] r(1)]
        service_host(1) [OF scope_okD [OF ok st(1)]] r(2)] h(1) by (simp add: str_at_def)
  then obtain u where "set (cx_forwardUsers ?c ih (rt_listen r)) \<subseteq> {u}"
    by (cases "cx_forwardUsers ?c ih (rt_listen r)") auto
  then show False using mem scope_names [OF ok st] by auto
qed

end
