(* ===== verification/GrantFacts.thy ===== *)
theory GrantFacts
  imports ServiceFacts
begin

text \<open>
  What the grants, the environment and the mesh callers of a passing service satisfy: outputs
  have distinct unreserved names and templates that the granted fields can fill, vault keys have
  a ciphertext, and callers share the callee's mesh and network.
\<close>

subsection \<open>Grants\<close>

lemma resolve_target_nil: "resolve_target s ctx gi gt name = ([], r) \<Longrightarrow> r"
  by (auto simp: resolve_target_def resolve_database_def resolve_pki_def Let_def
      split: grantable.splits if_splits option.splits)

definition template_ok :: "grantable \<Rightarrow> string \<Rightarrow> string \<Rightarrow> bool" where
  "template_ok gt perm tmpl \<longleftrightarrow>
     (\<exists>t. ParseTemplate tmpl = Inr t \<and> template_Fields t \<noteq> []
        \<and> set (template_Fields t) \<subseteq> set (fst (FieldNames gt perm)) \<union> set (snd (FieldNames gt perm))
        \<and> (set (template_Fields t) \<inter> set (snd (FieldNames gt perm)) \<noteq> {} \<longrightarrow>
             length (template_Fields t) = 1 \<and> \<not> HasLiteral t))"

lemma check_template_nil: "check_template gi gt perm True n tmpl = [] \<longleftrightarrow> template_ok gt perm tmpl"
  by (auto simp: check_template_def template_ok_def Let_def concat_guard_nil list_ex_iff
      simp del: concat_eq_Nil_conv split: sum.splits prod.splits if_splits)

lemma reservedEnvNameErrs_nil:
  "reservedEnvNameErrs n l = [] \<longleftrightarrow> \<not> prefix ReservedEnvPrefix n \<and> n \<notin> fst ` set DescriptorFiles"
  by (auto simp: reservedEnvNameErrs_def map_of_eq_None_iff)

lemma check_outputs_names:
  "fst ` set (snd (check_outputs s gi g gt r names ns)) = fst ` set names \<union> set ns"
proof (induction s gi g gt r names ns rule: check_outputs.induct)
  case (1 s gi g gt r names)
  then show ?case by simp
next
  case (2 s gi g gt r names n ns)
  have "n \<in> fst ` set names" if "map_of names n \<noteq> None"
    using that by (simp add: map_of_eq_None_iff)
  with 2 show ?case by (auto simp: Let_def split_def)
qed

lemma check_outputs_nil:
  "fst (check_outputs s gi g gt True names ns) = [] \<Longrightarrow>
     distinct ns \<and> set ns \<inter> fst ` set names = {}
     \<and> (\<forall>n\<in>set ns. \<not> prefix ReservedEnvPrefix n \<and> n \<notin> fst ` set DescriptorFiles
          \<and> map_of (svc_env s) n = None
          \<and> template_ok gt (gr_permission g) (the (map_of (gr_outputs g) n)))"
proof (induction s gi g gt True names ns rule: check_outputs.induct)
  case (1 s gi g gt names)
  then show ?case by simp
next
  case (2 s gi g gt names n ns)
  let ?names = "if map_of names n = None then (n, gr_resource g) # names else names"
  from 2(2) have own: "reservedEnvNameErrs n (''grants['' @ itoa gi @ ''].outputs.'' @ n) = []"
    "map_of (svc_env s) n = None" "map_of names n = None"
    "check_template gi gt (gr_permission g) True n (the (map_of (gr_outputs g) n)) = []"
    and rest: "fst (check_outputs s gi g gt True ?names ns) = []"
    by (auto simp: Let_def split_def split: if_splits option.splits)
  from 2(1) [OF refl refl refl] rest own show ?case
    by (auto simp: reservedEnvNameErrs_nil check_template_nil map_of_eq_None_iff Let_def)
qed

definition grant_ok :: "service_spec \<Rightarrow> region_ctx \<Rightarrow> grant_spec \<Rightarrow> bool" where
  "grant_ok s ctx g \<longleftrightarrow>
     (\<exists>typ name gt. cut_at CHR ''/'' (gr_resource g) = Some (typ, name) \<and> typ \<noteq> [] \<and> name \<noteq> []
        \<and> grant_For typ = Some gt \<and> Permission_Valid (gr_permission g)
        \<and> (\<exists>gi. resolve_target s ctx gi gt name = ([], True))
        \<and> (\<forall>n\<in>set (map fst (gr_outputs g)). \<not> prefix ReservedEnvPrefix n
             \<and> n \<notin> fst ` set DescriptorFiles \<and> map_of (svc_env s) n = None
             \<and> template_ok gt (gr_permission g) (the (map_of (gr_outputs g) n))))"

lemma check_grants_nil:
  "check_grants s ctx gi seen names gs = [] \<Longrightarrow>
     (\<forall>g\<in>set gs. grant_ok s ctx g)
     \<and> distinct (map gr_resource gs) \<and> set (map gr_resource gs) \<inter> set seen = {}
     \<and> distinct (concat (map (\<lambda>g. sort (map fst (gr_outputs g))) gs))
     \<and> set (concat (map (\<lambda>g. map fst (gr_outputs g)) gs)) \<inter> fst ` set names = {}"
proof (induction gs arbitrary: gi seen names)
  case Nil
  then show ?case by simp
next
  case (Cons g gs)
  obtain ty name where c: "cut_at CHR ''/'' (gr_resource g) = Some (ty, name)"
    "ty \<noteq> []" "name \<noteq> []" "gr_resource g \<notin> set seen"
    using Cons.prems by (auto split: option.splits if_splits)
  obtain gt where gt: "grant_For ty = Some gt" "Permission_Valid (gr_permission g)"
    using Cons.prems c by (auto split: option.splits if_splits)
  obtain errs r where rt: "resolve_target s ctx gi gt name = (errs, r)"
    by (cases "resolve_target s ctx gi gt name")
  obtain oerrs names' where o1:
    "check_outputs s gi g gt r names (sort (map fst (gr_outputs g))) = (oerrs, names')"
    by (cases "check_outputs s gi g gt r names (sort (map fst (gr_outputs g)))")
  have nil: "errs = []" "oerrs = []"
    "check_grants s ctx (gi + 1) (gr_resource g # seen) names' gs = []"
    using Cons.prems c gt rt o1 by (auto simp: Let_def)
  have r: "r" using resolve_target_nil rt nil(1) by metis
  have outs: "fst (check_outputs s gi g gt True names (sort (map fst (gr_outputs g)))) = []"
    using o1 nil(2) r by simp
  have nm: "fst ` set names' = fst ` set names \<union> set (map fst (gr_outputs g))"
    using check_outputs_names [of s gi g gt r names "sort (map fst (gr_outputs g))"] o1 by simp
  have "grant_ok s ctx g"
    unfolding grant_ok_def
    by (intro exI [of _ ty] exI [of _ name] exI [of _ gt] conjI exI [of _ gi])
      (use c gt rt nil(1) r check_outputs_nil [OF outs] in auto)
  moreover define N where "N = set (concat (map (\<lambda>g. map fst (gr_outputs g)) gs))"
  have N: "set (concat (map (\<lambda>g. sort (map fst (gr_outputs g))) gs)) = N" by (simp add: N_def)
  note IH = Cons.IH [OF nil(3), folded N_def]
  have d: "set (map fst (gr_outputs g)) \<inter> N = {}" "N \<inter> fst ` set names = {}"
    using IH nm by blast+
  have o2: "distinct (map fst (gr_outputs g))" "set (map fst (gr_outputs g)) \<inter> fst ` set names = {}"
    using check_outputs_nil [OF outs] by (simp_all add: distinct_sort)
  have "distinct (sort (map fst (gr_outputs g)) @ concat (map (\<lambda>g. sort (map fst (gr_outputs g))) gs))"
    using o2(1) IH d(1) N by (simp only: distinct_append distinct_sort set_sort)
  moreover have "set (concat (map (\<lambda>g. map fst (gr_outputs g)) (g # gs))) \<inter> fst ` set names = {}"
    using o2(2) d(2) by (simp only: list.map concat.simps set_append N_def [symmetric]) blast
  moreover have "distinct (map gr_resource (g # gs)) \<and> set (map gr_resource (g # gs)) \<inter> set seen = {}"
    using IH c(4) by auto
  ultimately show ?case using IH by simp
qed

lemma grants_ok:
  assumes "service_ok ctx s"
  shows "\<forall>g\<in>set (svc_grants s). grant_ok s ctx g"
    and "distinct (map gr_resource (svc_grants s))"
    and "distinct (concat (map (\<lambda>g. sort (map fst (gr_outputs g))) (svc_grants s)))"
  using check_grants_nil [of s ctx 0 "[]" "[]" "svc_grants s"] service_ok_parts(11) [OF assms]
  by (simp_all add: checkGrants_def)

text \<open>What the two grantables hand out.\<close>

lemma Database_Grant_fields:
  "Database_Grant prov role perm = Inr fs \<Longrightarrow>
     Permission_Valid perm \<and> map fst fs = fst (FieldNames Database perm)"
  by (auto simp: Database_Grant_def FieldNames_def dbValueFields_def
      split: option.splits if_splits sum.splits)

lemma pki_material_fields:
  "pki_material service perm material ns = Inr fs \<Longrightarrow>
     map fst fs = ns \<and> (\<forall>(n, v)\<in>set fs. v = material n \<and> v \<noteq> [])"
  by (induction service perm material ns arbitrary: fs rule: pki_material.induct)
     (auto split: if_splits sum.splits)

lemma PKIResource_Grant_fields:
  "PKIResource_Grant cert key service perm = Inr fs \<Longrightarrow>
     map fst fs = snd (FieldNames PKIResource perm) \<and> fs \<noteq> []"
  by (auto simp: PKIResource_Grant_def Let_def dest!: pki_material_fields split: if_splits)

text \<open>A read-only PKI grant never carries the signing key.\<close>

lemma PKIResource_Grant_ro:
  "PKIResource_Grant cert key service PermissionRO = Inr fs \<Longrightarrow> fs = [(FieldCert, cert)]"
  by (auto simp: PKIResource_Grant_def FieldNames_def Let_def split: if_splits sum.splits)

lemma template_ok_interpolates:
  assumes "template_ok gt perm tmpl"
    and "set (fst (FieldNames gt perm)) \<union> set (snd (FieldNames gt perm)) \<subseteq> dom vs"
  shows "\<exists>t r. ParseTemplate tmpl = Inr t \<and> Interpolate t vs = Inr r"
proof -
  from assms(1) obtain t where t: "ParseTemplate tmpl = Inr t"
    "set (template_Fields t) \<subseteq> set (fst (FieldNames gt perm)) \<union> set (snd (FieldNames gt perm))"
    by (auto simp: template_ok_def)
  with assms(2) have "is_ok (Interpolate t vs)" by (auto simp: Interpolate_ok_iff)
  with t(1) show ?thesis by (auto elim: is_okE)
qed

lemma grant_template:
  assumes "service_ok ctx s" and "g \<in> set (svc_grants s)" and "(n, tmpl) \<in> set (gr_outputs g)"
    and "cut_at CHR ''/'' (gr_resource g) = Some (rtype, name)" and "grant_For rtype = Some gt"
  shows "template_ok gt (gr_permission g) tmpl"
proof -
  have "grant_ok s ctx g" using grants_ok(1) [OF assms(1)] assms(2) by blast
  then have ok: "\<forall>n\<in>set (map fst (gr_outputs g)). template_ok gt (gr_permission g) (the (map_of (gr_outputs g) n))"
    using assms(4,5) by (auto simp: grant_ok_def)
  have "distinct (map fst (gr_outputs g))"
    using grants_ok(3) [OF assms(1)] assms(2)
    by (auto simp: distinct_concat_iff distinct_sort)
  then have "map_of (gr_outputs g) n = Some tmpl" using assms(3) by simp
  then show ?thesis using ok assms(3) by (force dest: bspec)
qed

subsection \<open>The environment\<close>

lemma env_entry_ok:
  assumes "service_ok ctx s" and "map_of (svc_env s) k = Some v"
  shows "check_env_entry s ctx k v = []"
proof -
  have "check_environment s ctx = []" by (rule service_ok_parts(9) [OF assms(1)])
  moreover have "k \<in> set (sort (map fst (svc_env s)))"
    using assms(2) by (force dest: map_of_SomeD)
  ultimately show ?thesis using assms(2) by (auto simp: check_environment_def)
qed

text \<open>With a readable store, a vault key of a passing service has a ciphertext of that service.\<close>

lemma vault_present:
  assumes "service_ok ctx s" and "map_of (svc_env s) k = Some v"
    and "ParseSource v = Inr (SourceVault key)" and "ss_store (cx_store ctx) = Some st"
    and "\<not> ss_unreadable (cx_store ctx)"
  shows "store_Get st (svc_name s) key \<noteq> None"
  using env_entry_ok [OF assms(1,2)] assms(3-5)
  by (auto simp: check_env_entry_def store_lookup_def split: if_splits)

lemma env_name_ok:
  assumes "service_ok ctx s" and "map_of (svc_env s) k = Some v"
  shows "\<not> prefix ReservedEnvPrefix k" and "k \<notin> fst ` set DescriptorFiles"
    and "is_ok (ParseSource v)"
  using env_entry_ok [OF assms]
  by (auto simp: check_env_entry_def reservedEnvNameErrs_nil is_ok_def split: sum.splits)

subsection \<open>Mesh callers\<close>

lemma allowed_caller:
  assumes "service_ok ctx s" and "svc_mesh s = Some m" and "dep \<in> set (mesh_allowed m)"
    and "dep \<noteq> gatewayCallerName"
  shows "dep \<noteq> svc_name s" and "cx_meshServices ctx dep \<or> cx_callerCandidates ctx dep"
    and "meshPkiOf dep ctx \<noteq> [] \<Longrightarrow> meshPkiOf dep ctx = svc_pki s"
    and "cx_meshServices ctx dep \<Longrightarrow> canonicalHost (cx_serviceHost ctx dep) ctx \<noteq> [] \<Longrightarrow>
           cx_computeNetwork ctx (canonicalHost (cx_serviceHost ctx dep) ctx)
             = cx_computeNetwork ctx (own_host s ctx)"
proof -
  note mok = service_ok_parts(6) [OF assms(1,2)]
  obtain seen where c: "check_caller s (own_host s ctx) ctx seen dep = []"
    using check_callers_nil [OF checkMesh_nil(5) [OF mok] assms(3)] by blast
  note n = check_caller_nil [OF c assms(4)]
  show "dep \<noteq> svc_name s" "cx_meshServices ctx dep \<or> cx_callerCandidates ctx dep"
    "meshPkiOf dep ctx \<noteq> [] \<Longrightarrow> meshPkiOf dep ctx = svc_pki s"
    "cx_meshServices ctx dep \<Longrightarrow> canonicalHost (cx_serviceHost ctx dep) ctx \<noteq> [] \<Longrightarrow>
           cx_computeNetwork ctx (canonicalHost (cx_serviceHost ctx dep) ctx)
             = cx_computeNetwork ctx (own_host s ctx)"
    using n checkMesh_nil(1) [OF mok] service_host(1) [OF assms(1)] by auto
qed

subsection \<open>Reserved database ports\<close>

lemma pg_reserve_err_nil: "pg_reserve_err l p = [] \<longleftrightarrow> \<not> InReservedPortRange p"
  by (simp add: pg_reserve_err_def)

lemma concat_enumerate_nil:
  "concat (map (\<lambda>(i, x). f i x) (enumerate k xs)) = [] \<longleftrightarrow>
     (\<forall>j<length xs. f (k + j) (xs ! j) = [])"
  by (induction xs arbitrary: k) (auto simp: less_Suc_eq_0_disj)

lemma check_pg_range_nil:
  assumes "check_pg_range s h ctx = []" and "h \<noteq> []" and "cx_clusterHosts ctx h"
  shows "\<forall>rt\<in>set (svc_routes s). \<not> InReservedPortRange (rt_target rt)"
    and "svc_health_port s > 0 \<Longrightarrow> \<not> InReservedPortRange (svc_health_port s)"
    and "\<forall>p\<in>set (mesh_binds s). \<not> InReservedPortRange p"
    and "\<forall>ep\<in>set (svc_exposed s). ep_proto ep = ''tcp'' \<longrightarrow> \<not> InReservedPortRange (ep_port ep)"
proof -
  have a: "concat (map (\<lambda>(i, rt). pg_reserve_err (''routes['' @ itoa i @ ''].target'') (rt_target rt))
             (enumerate 0 (svc_routes s))) = []"
    and b: "(if svc_health_port s > 0 then pg_reserve_err ''health_probes_port'' (svc_health_port s) else []) = []"
    and c: "(case svc_mesh s of None \<Rightarrow> []
           | Some m \<Rightarrow> if mesh_port m \<noteq> 0 then pg_reserve_err ''mesh.port'' (mesh_port m) else []) = []"
    and d: "concat (map (\<lambda>(i, ep). if ep_proto ep = ''tcp''
               then pg_reserve_err (''exposed_ports['' @ itoa i @ '']'') (ep_port ep) else [])
             (enumerate 0 (svc_exposed s))) = []"
    using assms by (simp_all only: check_pg_range_def append_is_Nil_conv if_False de_Morgan_disj not_not simp_thms)
  show "\<forall>rt\<in>set (svc_routes s). \<not> InReservedPortRange (rt_target rt)"
    using a by (auto simp only: concat_enumerate_nil pg_reserve_err_nil in_set_conv_nth)
  show "svc_health_port s > 0 \<Longrightarrow> \<not> InReservedPortRange (svc_health_port s)"
    using b by (simp add: pg_reserve_err_nil)
  show "\<forall>p\<in>set (mesh_binds s). \<not> InReservedPortRange p"
    using c by (cases "svc_mesh s") (auto simp: mesh_binds_def pg_reserve_err_nil)
  show "\<forall>ep\<in>set (svc_exposed s). ep_proto ep = ''tcp'' \<longrightarrow> \<not> InReservedPortRange (ep_port ep)"
  proof (intro ballI impI)
    fix ep assume "ep \<in> set (svc_exposed s)" "ep_proto ep = ''tcp''"
    then obtain j where "j < length (svc_exposed s)" "svc_exposed s ! j = ep" "ep_proto ep = ''tcp''"
      by (auto simp: in_set_conv_nth)
    then show "\<not> InReservedPortRange (ep_port ep)"
      using d unfolding concat_enumerate_nil by (auto simp: pg_reserve_err_nil)
  qed
qed

lemma pg_range_clear:
  assumes "service_ok ctx s" and "cx_clusterHosts ctx (own_host s ctx)" and "p \<in> set (tcp_binds s)"
  shows "\<not> InReservedPortRange p"
proof -
  have neg: "svc_health_port s < 0 \<Longrightarrow> \<not> InReservedPortRange (svc_health_port s)"
    by (simp add: pg_port_defs)
  have nil: "check_pg_range s (own_host s ctx) ctx = []" by (rule service_ok_parts(10) [OF assms(1)])
  note h = service_host(1) [OF assms(1)]
  note n = check_pg_range_nil [OF nil h assms(2)]
  have ep: "\<forall>ep\<in>set (svc_exposed s). ep_proto ep \<noteq> ''udp'' \<longrightarrow> ep_proto ep = ''tcp''"
    using check_exposed_nil [OF service_ok_parts(8) [OF assms(1)]] by auto
  from assms(3) show ?thesis
  proof (cases rule: tcp_bind_cases)
    case 4
    then show ?thesis using n(4) ep by (auto simp: tcp_exposed_def)
    next
    case 2
    then have "p = svc_health_port s" "svc_health_port s \<noteq> 0" by (simp_all add: health_binds_iff)
    then show ?thesis using n(2) neg by (metis linorder_neqE)
  qed (use n(1,3) in auto)
qed

text \<open>A backend of a host with a database cluster stays off every port a cluster there can take.\<close>

lemma cluster_ports_clear:
  assumes ok: "scope_ok vi fs" and s: "s \<in> set (services_of fs)" and p: "p \<in> set (tcp_binds s)"
    and d: "d \<in> set (parsed_specs (fs_cluster fs))"
    and h: "canonicalHost (cl_host d) (build_ctx vi fs) = own_host s (build_ctx vi fs)"
  shows "\<not> InReservedPortRange p"
proof -
  have "cx_clusterHosts (build_ctx vi fs) (own_host s (build_ctx vi fs))"
    using cluster_host_registered [OF d refl] service_host(1) [OF scope_okD [OF ok s]] h by metis
  then show ?thesis using pg_range_clear [OF scope_okD [OF ok s] _ p] by blast
qed

end
