(* ===== verification/ValidateEdge.thy ===== *)
theory ValidateEdge
  imports GrantFacts
begin

text \<open>
  The checks of the public edge: \<open>checkIngress\<close>, \<open>checkApp\<close> and \<open>checkGateway\<close> of
  \<open>internal/validate/validate.go\<close>.
\<close>

subsection \<open>Ingresses\<close>

datatype ingress_err =
    IngGlobalHost string
  | IngHost host_err
  | IngTwo "string list"
  | IngHealth80
  | IngBind bind_err
  | IngHealthListen int "string list"
  | IngHealthBound int string

definition checkIngress :: "ingress_spec \<Rightarrow> region_ctx \<Rightarrow> ingress_err list" where
  "checkIngress s ctx =
     (if prefix ''global/'' (ing_host s) then [IngGlobalHost (ing_host s)]
      else
        let (hostKey, hostErrs) = resolveComputeHost (ing_host s) ''an ingress'' ctx;
            names = sort (cx_ingressNames ctx);
            hp = ingress_health_port s in
        map IngHost hostErrs
        @ (if length (cx_ingressNames ctx) > 1 \<and> ing_name s = names ! 0 then [IngTwo names] else [])
        @ (if hp = 80 then [IngHealth80] else [])
        @ (if inReservedLoopbackRange hp then [IngBind (InLoopbackRange ''health_probes_port'' hp)] else [])
        @ (if hostRunsMeshProxy hostKey ctx
           then map IngBind (meshEgressRangeErr ''health_probes_port'' hp) else [])
        @ (if hostKey \<noteq> [] then
             (if cx_portUsers ctx hostKey hp \<noteq> []
              then [IngHealthListen hp (cx_portUsers ctx hostKey hp)] else [])
             @ (case cx_nginxBinds ctx hostKey hp of
                  Some reason \<Rightarrow> if reason \<noteq> bindReasonHealth \<and> hp \<noteq> 80
                                 then [IngHealthBound hp reason] else []
                | None \<Rightarrow> [])
           else []))"

subsection \<open>Apps\<close>

datatype app_err =
    AppSubdomainTwice string
  | AppSubdomainReserved
  | AppGlobalIngress string
  | AppNoIngress string

definition checkApp :: "app_spec \<Rightarrow> region_ctx \<Rightarrow> app_err list" where
  "checkApp s ctx =
     (if app_subdomain s \<noteq> [] \<and> cx_appSubdomains ctx (app_subdomain s) > 1
      then [AppSubdomainTwice (app_subdomain s)] else [])
     @ (if app_subdomain s = IngressDNSLabel then [AppSubdomainReserved] else [])
     @ (if prefix ''global/'' (app_ingress s) then [AppGlobalIngress (app_ingress s)]
        else if app_ingress s \<notin> set (cx_ingressNames ctx) then [AppNoIngress (app_ingress s)]
        else [])"

subsection \<open>Gateways\<close>

datatype gateway_err =
    GwGlobalHost string
  | GwHost host_err
  | GwTwo
  | GwIngressRequired
  | GwGlobalIngress string
  | GwNoIngress string
  | GwIngressNetwork string string string
  | GwEmptyService
  | GwServiceTwice string
  | GwNoService string
  | GwNotAllowed string
  | GwOtherMesh string string string
  | GwNoPublicPaths string
  | GwServiceNetwork string string string
  | GwOverlap string string string string
  | GwPath path_err
  | GwHealthShadows string string string
  | GwHealthPort int
  | GwBind bind_err
  | GwHealthListen int "string list"
  | GwHealthDiffers int string int
  | GwSubdomainTaken string
  | GwSubdomainReserved

text \<open>The host of the fronting ingress (empty when it does not resolve) and the messages.\<close>

definition check_gateway_ingress :: "gateway_spec \<Rightarrow> string \<Rightarrow> region_ctx \<Rightarrow> gateway_err list \<times> string" where
  "check_gateway_ingress s gwHost ctx =
     (if gw_ingress s = [] then ([GwIngressRequired], [])
      else if prefix ''global/'' (gw_ingress s) then ([GwGlobalIngress (gw_ingress s)], [])
      else if gw_ingress s \<notin> set (cx_ingressNames ctx) then ([GwNoIngress (gw_ingress s)], [])
      else let ingHost = str_at (cx_ingressHost ctx) (gw_ingress s);
               gn = cx_computeNetwork ctx gwHost; inw = cx_computeNetwork ctx ingHost in
        (if gwHost \<noteq> [] \<and> ingHost \<noteq> [] \<and> gwHost \<noteq> ingHost \<and> gn \<noteq> inw
         then [GwIngressNetwork (gw_ingress s) inw gn] else [], ingHost))"

definition parsed_publics :: "string \<Rightarrow> string list \<Rightarrow> (string \<times> pattern) list" where
  "parsed_publics name publics =
     concat (map (\<lambda>g. case Parse g of Inr p \<Rightarrow> [(name, p)] | Inl e \<Rightarrow> []) publics)"

text \<open>The loop over the listed services: messages and public patterns, in order.\<close>

fun check_listed :: "gateway_spec \<Rightarrow> string \<Rightarrow> region_ctx \<Rightarrow> string list \<Rightarrow> string list
    \<Rightarrow> gateway_err list \<times> (string \<times> pattern) list" where
  "check_listed s gwHost ctx seen [] = ([], [])"
| "check_listed s gwHost ctx seen (name # rest) =
     (if name = [] then apfst ((#) GwEmptyService) (check_listed s gwHost ctx seen rest)
      else if name \<in> set seen then apfst ((#) (GwServiceTwice name)) (check_listed s gwHost ctx seen rest)
      else if \<not> cx_serviceNames ctx name
      then apfst ((#) (GwNoService name)) (check_listed s gwHost ctx seen rest)
      else
        let publics = cx_publicPaths ctx name;
            tHost = canonicalHost (cx_serviceHost ctx name) ctx;
            own = (if \<not> cx_allowsGateway ctx name then [GwNotAllowed name]
                   else if gw_pki s \<noteq> [] \<and> cx_servicePki ctx name \<noteq> gw_pki s
                   then [GwOtherMesh name (cx_servicePki ctx name) (gw_pki s)] else [])
              @ (if publics = [] then [GwNoPublicPaths name] else [])
              @ (if gwHost \<noteq> [] \<and> tHost \<noteq> [] \<and> tHost \<noteq> gwHost
                    \<and> cx_computeNetwork ctx gwHost \<noteq> cx_computeNetwork ctx tHost
                 then [GwServiceNetwork name (cx_computeNetwork ctx tHost) (cx_computeNetwork ctx gwHost)]
                 else []);
            (errs, pats) = check_listed s gwHost ctx (name # seen) rest
        in (own @ errs, parsed_publics name publics @ pats))"

fun check_overlaps :: "(string \<times> pattern) list \<Rightarrow> gateway_err list" where
  "check_overlaps [] = []"
| "check_overlaps (x # xs) =
     concat (map (\<lambda>y. if fst x \<noteq> fst y \<and> Overlaps (snd x) (snd y)
                     then [GwOverlap (raw (snd x)) (fst x) (raw (snd y)) (fst y)] else []) xs)
     @ check_overlaps xs"

definition check_shadowing :: "string list \<Rightarrow> (string \<times> pattern) list \<Rightarrow> gateway_err list" where
  "check_shadowing paths pats =
     concat (map (\<lambda>hp. concat (map (\<lambda>pp. if Matches (snd pp) hp
         then [GwHealthShadows hp (fst pp) (raw (snd pp))] else []) pats)) paths)"

definition check_gateway_health :: "gateway_spec \<Rightarrow> string \<Rightarrow> region_ctx \<Rightarrow> gateway_err list" where
  "check_gateway_health s healthHost ctx =
     (let hp = gateway_health_port s in
      (if hp = 80 then [GwHealthPort 80] else [])
      @ (if hp = 443 then [GwHealthPort 443] else [])
      @ (if inReservedLoopbackRange hp then [GwBind (InLoopbackRange ''health_probes_port'' hp)] else [])
      @ map GwBind (meshEgressRangeErr ''health_probes_port'' hp)
      @ (if healthHost \<noteq> [] then
           (if cx_portUsers ctx healthHost hp \<noteq> []
            then [GwHealthListen hp (cx_portUsers ctx healthHost hp)] else [])
           @ concat (map (\<lambda>n. if cx_ingressHealth ctx n \<noteq> 0 \<and> cx_ingressHealth ctx n \<noteq> hp
                then [GwHealthDiffers hp n (cx_ingressHealth ctx n)] else [])
              (cx_ingressNamesByHost ctx healthHost))
         else []))"

definition check_gateway_subdomain :: "gateway_spec \<Rightarrow> region_ctx \<Rightarrow> gateway_err list" where
  "check_gateway_subdomain s ctx =
     (if gw_subdomain s \<noteq> [] \<and> cx_appSubdomains ctx (gw_subdomain s) > 0
      then [GwSubdomainTaken (gw_subdomain s)] else [])
     @ (if gw_subdomain s = IngressDNSLabel then [GwSubdomainReserved] else [])"

definition checkGateway :: "gateway_spec \<Rightarrow> region_ctx \<Rightarrow> gateway_err list" where
  "checkGateway s ctx =
     (if prefix ''global/'' (gw_host s) then [GwGlobalHost (gw_host s)]
      else
        let (gwHost, hostErrs) = resolveComputeHost (gw_host s) ''a gateway'' ctx;
            (ingErrs, ingHost) = check_gateway_ingress s gwHost ctx;
            (svcErrs, pats) = check_listed s gwHost ctx [] (gw_services s);
            healthHost = (if ingHost = [] then gwHost else ingHost) in
        map GwHost hostErrs
        @ (if cx_gatewayCount ctx > 1 then [GwTwo] else [])
        @ ingErrs @ svcErrs
        @ check_overlaps pats
        @ map GwPath (checkExactPaths ''health_probe_paths'' (gw_health_paths s))
        @ check_shadowing (gw_health_paths s) pats
        @ check_gateway_health s healthHost ctx
        @ check_gateway_subdomain s ctx)"

subsection \<open>Lemmas: ingresses\<close>

lemma checkIngress_nil:
  assumes "checkIngress s ctx = []"
  shows "canonicalHost (ing_host s) ctx \<noteq> []"
    and "ingress_health_port s \<noteq> 80" and "\<not> inReservedLoopbackRange (ingress_health_port s)"
    and "cx_portUsers ctx (canonicalHost (ing_host s) ctx) (ingress_health_port s) = []"
    and "hostRunsMeshProxy (canonicalHost (ing_host s) ctx) ctx \<Longrightarrow>
           \<not> InReservedEgressRange (ingress_health_port s)"
    and "length (cx_ingressNames ctx) > 1 \<Longrightarrow> ing_name s \<noteq> sort (cx_ingressNames ctx) ! 0"
    and "cx_nginxBinds ctx (canonicalHost (ing_host s) ctx) (ingress_health_port s) \<in> {None, Some bindReasonHealth}"
proof -
  obtain hk es where r: "resolveComputeHost (ing_host s) ''an ingress'' ctx = (hk, es)"
    by (cases "resolveComputeHost (ing_host s) ''an ingress'' ctx")
  have hk: "hk = canonicalHost (ing_host s) ctx"
    using r resolveComputeHost_fst [of "ing_host s" "''an ingress''" ctx] by simp
  have "es = []" using assms r by (auto simp: checkIngress_def Let_def split: if_splits)
  with r hk show ne: "canonicalHost (ing_host s) ctx \<noteq> []"
    using resolveComputeHost_ok(2) [of "ing_host s" "''an ingress''" ctx] by simp
  show "ingress_health_port s \<noteq> 80" "\<not> inReservedLoopbackRange (ingress_health_port s)"
    "cx_portUsers ctx (canonicalHost (ing_host s) ctx) (ingress_health_port s) = []"
    "hostRunsMeshProxy (canonicalHost (ing_host s) ctx) ctx \<Longrightarrow>
           \<not> InReservedEgressRange (ingress_health_port s)"
    "length (cx_ingressNames ctx) > 1 \<Longrightarrow> ing_name s \<noteq> sort (cx_ingressNames ctx) ! 0"
    "cx_nginxBinds ctx (canonicalHost (ing_host s) ctx) (ingress_health_port s) \<in> {None, Some bindReasonHealth}"
    using assms r ne unfolding hk
    by (auto simp: checkIngress_def Let_def meshEgressRangeErr_nil split: if_splits option.splits)
qed

text \<open>A scope whose ingresses all pass has at most one ingress name.\<close>

lemma one_ingress:
  assumes pass: "\<forall>i\<in>set (parsed_specs (fs_ingress fs)). checkIngress i (build_ctx vi fs) = []"
    and ab: "a \<in> set (parsed_specs (fs_ingress fs))" "b \<in> set (parsed_specs (fs_ingress fs))"
    and only: "set (cx_ingressNames (build_ctx vi fs)) = ing_name ` set (parsed_specs (fs_ingress fs))"
  shows "ing_name a = ing_name b"
proof (rule ccontr)
  let ?N = "cx_ingressNames (build_ctx vi fs)"
  assume ne: "ing_name a \<noteq> ing_name b"
  have "ing_name a \<in> set ?N" "ing_name b \<in> set ?N" using only ab by auto
  then have "card {ing_name a, ing_name b} \<le> card (set ?N)" by (intro card_mono) auto
  then have len: "length ?N > 1" using ne card_length [of ?N] by simp
  then have "sort ?N ! 0 \<in> set ?N"
    by (metis length_sort less_trans nth_mem set_sort zero_less_one)
  then obtain i where i: "i \<in> set (parsed_specs (fs_ingress fs))" "ing_name i = sort ?N ! 0"
    using only by auto
  then show False using checkIngress_nil(6) [OF bspec [OF pass i(1)] len] by simp
qed

lemma ingress_names_build:
  "set (cx_ingressNames (build_ctx vi fs)) = ing_name ` set (parsed_specs (fs_ingress fs))"
proof -
  have before: "cx_ingressNames (ctx_network n c) = cx_ingressNames c"
    "cx_ingressNames (ctx_compute cp c) = cx_ingressNames c"
    "cx_ingressNames (ctx_cluster cl c) = cx_ingressNames c"
    "cx_ingressNames (ctx_database d c) = cx_ingressNames c"
    "cx_ingressNames (ctx_pki p c) = cx_ingressNames c"
    "cx_ingressNames (ctx_callers sib gl c) = cx_ingressNames c" for n cp cl d p sib gl c
  proof -
    have inst: "cx_ingressNames (ctx_instance cp i c) = cx_ingressNames c" for i c
      by (simp add: ctx_instance_def Let_def)
    show "cx_ingressNames (ctx_network n c) = cx_ingressNames c"
      "cx_ingressNames (ctx_compute cp c) = cx_ingressNames c"
      "cx_ingressNames (ctx_cluster cl c) = cx_ingressNames c"
      "cx_ingressNames (ctx_database d c) = cx_ingressNames c"
      "cx_ingressNames (ctx_pki p c) = cx_ingressNames c"
      "cx_ingressNames (ctx_callers sib gl c) = cx_ingressNames c"
      by (auto simp: ctx_network_def ctx_compute_def ctx_cluster_def ctx_database_def ctx_pki_def
          ctx_callers_def Let_def split_def fold_keeps inst split: option.splits)
  qed
  have "set (cx_ingressNames (start_ctx vi fs)) = ing_name ` set (parsed_specs (fs_ingress fs))"
    by (simp add: start_ctx_def ctx_base_def Let_def fold_keeps ingress_names_fold before empty_ctx_def)
  then show ?thesis using ctx_le_same [OF start_build [of vi fs]] by (simp add: same_base_def)
qed

subsection \<open>Lemmas: gateways\<close>

lemma check_listed_parsed:
  "row \<in> set (snd (check_listed s gwHost ctx seen names)) \<Longrightarrow>
     \<exists>g. Parse g = Inr (snd row) \<and> g \<in> set (cx_publicPaths ctx (fst row)) \<and> fst row \<in> set names"
proof (induction names arbitrary: seen)
  case Nil
  then show ?case by simp
next
  case (Cons n ns)
  obtain es ps where r: "check_listed s gwHost ctx (n # seen) ns = (es, ps)"
    by (cases "check_listed s gwHost ctx (n # seen) ns")
  have "row \<in> set (snd (check_listed s gwHost ctx seen ns)) \<or> row \<in> set ps
      \<or> row \<in> set (parsed_publics n (cx_publicPaths ctx n))"
    using Cons.prems r by (auto simp: Let_def split: if_splits)
  then consider "row \<in> set (snd (check_listed s gwHost ctx seen ns))" | "row \<in> set ps"
    | "row \<in> set (parsed_publics n (cx_publicPaths ctx n))" by blast
  then show ?case
  proof cases
    case 1
    then show ?thesis using Cons.IH by fastforce
  next
    case 2
    then show ?thesis using Cons.IH [of "n # seen"] r by fastforce
  next
    case 3
    then show ?thesis by (auto simp: parsed_publics_def split: sum.splits)
  qed
qed

lemma check_listed_nil:
  "fst (check_listed s gwHost ctx seen names) = [] \<Longrightarrow>
     distinct names \<and> set names \<inter> set seen = {}
     \<and> (\<forall>n\<in>set names. n \<noteq> [] \<and> cx_serviceNames ctx n \<and> cx_allowsGateway ctx n
          \<and> (gw_pki s \<noteq> [] \<longrightarrow> cx_servicePki ctx n = gw_pki s) \<and> cx_publicPaths ctx n \<noteq> []
          \<and> (let h = canonicalHost (cx_serviceHost ctx n) ctx in
             gwHost \<noteq> [] \<and> h \<noteq> [] \<longrightarrow> h = gwHost \<or> cx_computeNetwork ctx h = cx_computeNetwork ctx gwHost)
          \<and> (\<forall>g\<in>set (cx_publicPaths ctx n). \<forall>p. Parse g = Inr p \<longrightarrow>
               (n, p) \<in> set (snd (check_listed s gwHost ctx seen names))))"
proof (induction s gwHost ctx seen names rule: check_listed.induct)
  case (1 s gwHost ctx seen)
  then show ?case by simp
next
  case (2 s gwHost ctx seen n ns)
  obtain es ps where r: "check_listed s gwHost ctx (n # seen) ns = (es, ps)"
    by (cases "check_listed s gwHost ctx (n # seen) ns")
  have c: "n \<noteq> []" "n \<notin> set seen" "cx_serviceNames ctx n" "cx_allowsGateway ctx n"
    "gw_pki s \<noteq> [] \<longrightarrow> cx_servicePki ctx n = gw_pki s" "cx_publicPaths ctx n \<noteq> []" "es = []"
    "gwHost \<noteq> [] \<and> canonicalHost (cx_serviceHost ctx n) ctx \<noteq> [] \<longrightarrow>
      canonicalHost (cx_serviceHost ctx n) ctx = gwHost
      \<or> cx_computeNetwork ctx (canonicalHost (cx_serviceHost ctx n) ctx) = cx_computeNetwork ctx gwHost"
    using "2.prems" r by (auto simp: Let_def split: if_splits)
  have out: "snd (check_listed s gwHost ctx seen (n # ns)) = parsed_publics n (cx_publicPaths ctx n) @ ps"
    using c(1-3) r by (simp add: Let_def)
  have own: "(n, p) \<in> set (parsed_publics n (cx_publicPaths ctx n))"
    if "g \<in> set (cx_publicPaths ctx n)" "Parse g = Inr p" for g p
    using that by (force simp: parsed_publics_def)
  have "fst (check_listed s gwHost ctx (n # seen) ns) = []" using r c(7) by simp
  from "2.IH"(4) [OF c(1,2) _ refl refl refl this] c(3)
  show ?case
    unfolding out using c own r by (auto simp: Let_def)
qed

lemma check_overlaps_nil:
  "check_overlaps xs = [] \<Longrightarrow> i < j \<Longrightarrow> j < length xs \<Longrightarrow> fst (xs ! i) \<noteq> fst (xs ! j) \<Longrightarrow>
     \<not> Overlaps (snd (xs ! i)) (snd (xs ! j))"
proof (induction xs arbitrary: i j)
  case Nil
  then show ?case by simp
next
  case (Cons x xs)
  show ?case
  proof (cases i)
    case 0
    then obtain k where k: "j = Suc k" "k < length xs" using Cons.prems by (cases j) auto
    have "\<forall>y\<in>set xs. \<not> (fst x \<noteq> fst y \<and> Overlaps (snd x) (snd y))"
      using Cons.prems(1) unfolding check_overlaps.simps append_is_Nil_conv concat_guard_nil by blast
    moreover have "xs ! k \<in> set xs" using k(2) by simp
    ultimately show ?thesis using 0 k(1) Cons.prems(4) by auto
  next
    case (Suc k)
    then obtain l where "j = Suc l" using Cons.prems by (cases j) auto
    then show ?thesis using Cons Suc by simp
  qed
qed

lemma checkGateway_nil:
  assumes "checkGateway s ctx = []"
  defines "h \<equiv> canonicalHost (gw_host s) ctx"
  shows "fst (check_gateway_ingress s h ctx) = []"
    and "fst (check_listed s h ctx [] (gw_services s)) = []"
    and "check_overlaps (snd (check_listed s h ctx [] (gw_services s))) = []"
    and "check_shadowing (gw_health_paths s) (snd (check_listed s h ctx [] (gw_services s))) = []"
    and "check_gateway_subdomain s ctx = []" and "cx_gatewayCount ctx \<le> 1" and "h \<noteq> []"
proof -
  obtain hk es where r: "resolveComputeHost (gw_host s) ''a gateway'' ctx = (hk, es)"
    by (cases "resolveComputeHost (gw_host s) ''a gateway'' ctx")
  have hk: "hk = h"
    using r resolveComputeHost_fst [of "gw_host s" "''a gateway''" ctx] by (simp add: h_def)
  have parts: "es = []" "fst (check_gateway_ingress s h ctx) = []"
    "fst (check_listed s h ctx [] (gw_services s)) = []"
    "check_overlaps (snd (check_listed s h ctx [] (gw_services s))) = []"
    "check_shadowing (gw_health_paths s) (snd (check_listed s h ctx [] (gw_services s))) = []"
    "check_gateway_subdomain s ctx = []" "cx_gatewayCount ctx \<le> 1"
    using assms(1) r hk by (auto simp: checkGateway_def Let_def split: if_splits prod.splits)
  show "fst (check_gateway_ingress s h ctx) = []" "fst (check_listed s h ctx [] (gw_services s)) = []"
    "check_overlaps (snd (check_listed s h ctx [] (gw_services s))) = []"
    "check_shadowing (gw_health_paths s) (snd (check_listed s h ctx [] (gw_services s))) = []"
    "check_gateway_subdomain s ctx = []" "cx_gatewayCount ctx \<le> 1" by (fact parts)+
  show "h \<noteq> []"
    using resolveComputeHost_ok(2) [of "gw_host s" "''a gateway''" ctx] r parts(1) by (simp add: h_def)
qed

text \<open>A public glob of a listed service, as the gateway routes it.\<close>

definition gateway_serves :: "gateway_spec \<Rightarrow> region_ctx \<Rightarrow> string \<Rightarrow> string \<Rightarrow> bool" where
  "gateway_serves s ctx name path \<longleftrightarrow> name \<in> set (gw_services s) \<and>
     (\<exists>g\<in>set (cx_publicPaths ctx name). case Parse g of Inr p \<Rightarrow> Matches p path | Inl e \<Rightarrow> False)"

lemma gateway_row:
  assumes ok: "checkGateway s ctx = []" and g: "gateway_serves s ctx name path"
  obtains p where "(name, p) \<in> set (snd (check_listed s (canonicalHost (gw_host s) ctx) ctx [] (gw_services s)))"
    and "Matches p path"
proof -
  obtain gl p where p: "gl \<in> set (cx_publicPaths ctx name)" "Parse gl = Inr p" "Matches p path"
    "name \<in> set (gw_services s)"
  proof -
    have "(case Parse gl of Inl e \<Rightarrow> False | Inr p \<Rightarrow> Matches p path) \<longleftrightarrow>
        (\<exists>p. Parse gl = Inr p \<and> Matches p path)" for gl by (cases "Parse gl") auto
    then show thesis using g that unfolding gateway_serves_def by blast
  qed
  have "(name, p) \<in> set (snd (check_listed s (canonicalHost (gw_host s) ctx) ctx [] (gw_services s)))"
    using check_listed_nil [OF checkGateway_nil(2) [OF ok]] p by blast
  then show thesis using that p(3) by blast
qed

lemma gateway_unique_owner:
  assumes ok: "checkGateway s ctx = []"
    and a: "gateway_serves s ctx a path" and b: "gateway_serves s ctx b path"
  shows "a = b"
proof -
  let ?T = "snd (check_listed s (canonicalHost (gw_host s) ctx) ctx [] (gw_services s))"
  obtain p where p: "(a, p) \<in> set ?T" "Matches p path" by (rule gateway_row [OF ok a])
  obtain q where q: "(b, q) \<in> set ?T" "Matches q path" by (rule gateway_row [OF ok b])
  have "fst (a, p) = fst (b, q)"
  proof (rule glob.unique_owner [where table = ?T and path = path])
    show "\<not> Overlaps (snd (?T ! i)) (snd (?T ! j))"
      if "i < j" "j < length ?T" "fst (?T ! i) \<noteq> fst (?T ! j)" for i j
      by (rule check_overlaps_nil [OF checkGateway_nil(3) [OF ok] that])
    show "\<exists>g. Parse g = Inr (snd row)" if "row \<in> set ?T" for row
      using check_listed_parsed [OF that] by blast
  qed (use p q in auto)
  then show ?thesis by simp
qed

lemma gateway_health_free:
  assumes ok: "checkGateway s ctx = []" and hp: "hp \<in> set (gw_health_paths s)"
  shows "\<not> gateway_serves s ctx name hp"
proof
  assume "gateway_serves s ctx name hp"
  then obtain p where p: "(name, p) \<in> set (snd (check_listed s (canonicalHost (gw_host s) ctx) ctx [] (gw_services s)))"
    "Matches p hp" by (rule gateway_row [OF ok])
  let ?T = "snd (check_listed s (canonicalHost (gw_host s) ctx) ctx [] (gw_services s))"
  have "\<forall>h\<in>set (gw_health_paths s). \<forall>pp\<in>set ?T. \<not> Matches (snd pp) h"
    using checkGateway_nil(4) [OF ok] unfolding check_shadowing_def concat_eq_Nil_conv
    by (simp del: concat_eq_Nil_conv add: concat_guard_nil)
  then show False using hp p by force
qed

end
