(* ===== verification/Alerts.thy ===== *)
theory Alerts
  imports Sources
begin

text \<open>
  Alert rules and notification routing: \<open>internal/grafanaalert/grafanaalert.go\<close> (conditions,
  custom rules), the structs of \<open>internal/types\<close> they read, \<open>checkObservability\<close> of
  \<open>internal/validate/observability.go\<close>, and \<open>toRuleArgs\<close> and \<open>contactPointArgs\<close> of
  \<open>program/grafana.go\<close>.  \<open>strconv.ParseFloat\<close> is modelled down to its syntax and its range error.
\<close>

subsection \<open>\<open>strconv.ParseFloat(s, 64)\<close> as a test\<close>

definition lower :: "char \<Rightarrow> char" where
  "lower c = (let n = of_char c :: nat in if 65 \<le> n \<and> n \<le> 90 then char_of (n + 32) else c)"

definition dec_digit :: "char \<Rightarrow> bool" where
  "dec_digit c \<longleftrightarrow> c \<in> set ''0123456789''"

definition is_hex :: "char \<Rightarrow> bool" where
  "is_hex c \<longleftrightarrow> dec_digit c \<or> lower c \<in> set ''abcdef''"

definition hex_digit_value :: "char \<Rightarrow> int" where
  "hex_digit_value c =
     (let n = of_char (lower c) :: nat in if n \<le> 57 then int n - 48 else int n - 87)"

definition strip_sign :: "string \<Rightarrow> string" where
  "strip_sign s = (case s of [] \<Rightarrow> [] | c # cs \<Rightarrow> if c = CHR ''+'' \<or> c = CHR ''-'' then cs else s)"

text \<open>\<open>special\<close>: infinities with a sign, \<open>nan\<close> without.\<close>

definition special_float :: "string \<Rightarrow> bool" where
  "special_float s \<longleftrightarrow>
     map lower (strip_sign s) \<in> {''inf'', ''infinity''} \<or> map lower s = ''nan''"

text \<open>\<open>underscoreOK\<close>: the previous character is a digit or prefix, an underscore, or neither.\<close>

datatype prev_char = AtStart | AtDigit | AtUnderscore | AtOther

fun underscore_scan :: "bool \<Rightarrow> prev_char \<Rightarrow> string \<Rightarrow> bool" where
  "underscore_scan hex p [] = (p \<noteq> AtUnderscore)"
| "underscore_scan hex p (c # cs) =
     (if dec_digit c \<or> (hex \<and> lower c \<in> set ''abcdef'') then underscore_scan hex AtDigit cs
      else if c = CHR ''_'' then p = AtDigit \<and> underscore_scan hex AtUnderscore cs
      else p \<noteq> AtUnderscore \<and> underscore_scan hex AtOther cs)"

definition underscoreOK :: "string \<Rightarrow> bool" where
  "underscoreOK s0 =
     (let s = strip_sign s0 in
      case s of
        a # b # cs \<Rightarrow>
          if a = CHR ''0'' \<and> lower b \<in> set ''box''
          then underscore_scan (lower b = CHR ''x'') AtDigit cs
          else underscore_scan False AtStart s
      | _ \<Rightarrow> underscore_scan False AtStart s)"

text \<open>The mantissa scan: digits after the point, digits read, the rest from the first other byte.\<close>

record mantissa =
  mt_digits :: string
  mt_frac :: nat
  mt_dot :: bool

fun scan_mantissa :: "bool \<Rightarrow> mantissa \<Rightarrow> string \<Rightarrow> mantissa \<times> string" where
  "scan_mantissa hex m [] = (m, [])"
| "scan_mantissa hex m (c # cs) =
     (if c = CHR ''_'' then scan_mantissa hex m cs
      else if c = CHR ''.'' then
        (if mt_dot m then (m, c # cs) else scan_mantissa hex (m\<lparr>mt_dot := True\<rparr>) cs)
      else if dec_digit c \<or> (hex \<and> is_hex c) then
        scan_mantissa hex (m\<lparr>mt_digits := mt_digits m @ [c],
          mt_frac := (if mt_dot m then mt_frac m + 1 else mt_frac m)\<rparr>) cs
      else (m, c # cs))"

text \<open>The exponent digits, capped as Go caps them; an underscore is skipped.\<close>

fun scan_exponent :: "int \<Rightarrow> string \<Rightarrow> int \<times> string" where
  "scan_exponent e [] = (e, [])"
| "scan_exponent e (c # cs) =
     (if c = CHR ''_'' then scan_exponent e cs
      else if dec_digit c then scan_exponent (if e < 10000 then e * 10 + hex_digit_value c else e) cs
      else (e, c # cs))"

text \<open>The exponent part: sign and digits are required after the letter.\<close>

definition read_exponent :: "bool \<Rightarrow> string \<Rightarrow> (int \<times> string) option" where
  "read_exponent hex s =
     (case s of
        [] \<Rightarrow> if hex then None else Some (0, [])
      | c # cs \<Rightarrow>
          if lower c = (if hex then CHR ''p'' else CHR ''e'') then
            let ds = strip_sign cs in
            if ds = [] \<or> \<not> dec_digit (hd ds) then None
            else let (e, tail) = scan_exponent 0 ds in
                 Some (if hd cs = CHR ''-'' then - e else e, tail)
          else if hex then None else Some (0, s))"

definition digits_int :: "int \<Rightarrow> string \<Rightarrow> int" where
  "digits_int base ds = fold (\<lambda>c n. n * base + hex_digit_value c) ds 0"

text \<open>The smallest magnitude that rounds to infinity.\<close>

definition float_overflow :: int where "float_overflow = 2 ^ 1024 - 2 ^ 970"

definition in_float_range :: "int \<Rightarrow> int \<Rightarrow> int \<Rightarrow> bool" where
  "in_float_range m base e =
     (if e \<ge> 0 then m * base ^ nat e < float_overflow
      else m < float_overflow * base ^ nat (- e))"

definition ParseFloat_ok :: "string \<Rightarrow> bool" where
  "ParseFloat_ok s =
     (special_float s \<or>
      (let u = strip_sign s;
           hex = (case u of a # b # c # cs \<Rightarrow> a = CHR ''0'' \<and> lower b = CHR ''x'' | _ \<Rightarrow> False);
           body = (if hex then drop 2 u else u);
           (m, r) = scan_mantissa hex \<lparr>mt_digits = [], mt_frac = 0, mt_dot = False\<rparr> body in
       mt_digits m \<noteq> [] \<and>
       (case read_exponent hex r of
          None \<Rightarrow> False
        | Some (e, tail) \<Rightarrow>
            tail = [] \<and> (CHR ''_'' \<in> set s \<longrightarrow> underscoreOK s)
            \<and> (if hex then in_float_range (digits_int 16 (mt_digits m)) 2 (e - 4 * int (mt_frac m))
               else in_float_range (digits_int 10 (mt_digits m)) 10 (e - int (mt_frac m))))))"

subsection \<open>Conditions\<close>

datatype cond_err = NoThreshold | NotANumber string | BadOperator

definition operators :: "string list" where
  "operators = [''>='', ''<='', ''>'', ''<'']"

text \<open>The operator and the threshold literal.\<close>

definition parseCondition :: "string \<Rightarrow> cond_err + string \<times> string" where
  "parseCondition cond =
     (let s = TrimSpace cond in
      case find (\<lambda>op. prefix op s) operators of
        None \<Rightarrow> Inl BadOperator
      | Some op \<Rightarrow>
          let v = TrimSpace (trim_prefix op s) in
          if v = [] then Inl NoThreshold
          else if \<not> ParseFloat_ok v then Inl (NotANumber v)
          else Inr (op, v))"

definition ValidCondition :: "string \<Rightarrow> cond_err option" where
  "ValidCondition cond = (case parseCondition cond of Inl e \<Rightarrow> Some e | Inr _ \<Rightarrow> None)"

subsection \<open>Rules\<close>

definition Severities :: "string list" where
  "Severities = [''critical'', ''warning'', ''info'']"

record alert_spec =
  al_name :: string
  al_expr :: string
  al_cond :: string
  al_for :: string
  al_severity :: string
  al_profile :: string
  al_summary :: string
  al_labels :: "(string \<times> string) list"

text \<open>
  The model of one query or expression stage; the JSON object that \<open>mustJSON\<close> renders is named
  by its variable parts.
\<close>

datatype rule_model = QueryModel string | ReduceModel | MathModel string

record rule_data =
  rd_ref :: string
  rd_datasource :: string
  rd_model :: rule_model
  rd_from :: int

definition promUID :: string where "promUID = ''grafanacloud-prom''"
definition exprUID :: string where "exprUID = ''__expr__''"

definition dataNodes :: "string \<Rightarrow> string \<Rightarrow> string \<Rightarrow> rule_data list" where
  "dataNodes expr op v =
     [\<lparr>rd_ref = ''A'', rd_datasource = promUID, rd_model = QueryModel expr, rd_from = 600\<rparr>,
      \<lparr>rd_ref = ''B'', rd_datasource = exprUID, rd_model = ReduceModel, rd_from = 0\<rparr>,
      \<lparr>rd_ref = ''C'', rd_datasource = exprUID,
       rd_model = MathModel (''$B '' @ op @ '' '' @ v), rd_from = 0\<rparr>]"

record rule =
  ru_name :: string
  ru_for :: string
  ru_condition :: string
  ru_nodata :: string
  ru_labels :: "string \<rightharpoonup> string"
  ru_annotations :: "string \<rightharpoonup> string"
  ru_data :: "rule_data list"

record alert =
  at_rule :: rule
  at_severity :: string
  at_profile :: string

text \<open>A Go map literal overwritten by a range over another map.\<close>

definition overlay :: "(string \<rightharpoonup> string) \<Rightarrow> (string \<times> string) list \<Rightarrow> (string \<rightharpoonup> string)" where
  "overlay m kvs = m ++ map_of kvs"

definition build_rule :: "string \<Rightarrow> string \<Rightarrow> string \<Rightarrow> string \<Rightarrow> string \<Rightarrow> string \<Rightarrow> string
    \<Rightarrow> (string \<times> string) list \<Rightarrow> cond_err + rule" where
  "build_rule name expr cond forDur severity summary noData labels =
     (case parseCondition cond of
        Inl e \<Rightarrow> Inl e
      | Inr (op, v) \<Rightarrow>
          Inr \<lparr>ru_name = name, ru_for = (if forDur = [] then ''0'' else forDur),
               ru_condition = ''C'', ru_nodata = (if noData = [] then ''NoData'' else noData),
               ru_labels = overlay [''severity'' \<mapsto> severity] labels,
               ru_annotations = (if summary = [] then Map.empty else [''summary'' \<mapsto> summary]),
               ru_data = dataNodes expr op v\<rparr>)"

datatype custom_err = CustomSeverity string string | CustomCondition string cond_err

fun Custom :: "alert_spec list \<Rightarrow> custom_err + alert list" where
  "Custom [] = Inr []"
| "Custom (s # ss) =
     (if al_severity s \<notin> set Severities then Inl (CustomSeverity (al_name s) (al_severity s))
      else case build_rule (al_name s) (al_expr s) (al_cond s) (al_for s) (al_severity s)
             (al_summary s) ''NoData'' (al_labels s) of
             Inl e \<Rightarrow> Inl (CustomCondition (al_name s) e)
           | Inr r \<Rightarrow>
               (case Custom ss of
                  Inl e \<Rightarrow> Inl e
                | Inr out \<Rightarrow>
                    Inr (\<lparr>at_rule = r, at_severity = al_severity s, at_profile = al_profile s\<rparr> # out)))"

subsection \<open>Notification routing\<close>

record contact_point =
  cp_oncall :: "string option"
  cp_email :: "string list option"
  cp_webhook :: "string option"

record profile_route =
  pr_contact :: string
  pr_muted :: bool

type_synonym profile = "(string \<times> profile_route) list"

record notifications =
  nt_points :: "(string \<times> contact_point) list"
  nt_profiles :: "(string \<times> profile) list"

record observability =
  ob_grafana :: string
  ob_alerts :: "bool option"
  ob_profile :: string

definition AlertsEnabled :: "observability \<Rightarrow> bool" where
  "AlertsEnabled ob = (case ob_alerts ob of None \<Rightarrow> True | Some b \<Rightarrow> b)"

text \<open>The rule arguments handed to the provider.\<close>

record rule_args =
  ra_name :: string
  ra_condition :: string
  ra_for :: string
  ra_nodata :: string
  ra_labels :: "string \<rightharpoonup> string"
  ra_annotations :: "string \<rightharpoonup> string"
  ra_data :: "rule_data list"
  ra_contact :: string

datatype route_err = NoProfile string | UnknownProfile string string | NotRouted string string string

definition alert_profile :: "string \<Rightarrow> observability \<Rightarrow> string" where
  "alert_profile p ob = (if p = [] then ob_profile ob else p)"

definition ContactPointName :: "string \<Rightarrow> string \<Rightarrow> string" where
  "ContactPointName env name = ''inforge-'' @ env @ ''-'' @ name"

fun toRuleArgs :: "observability \<Rightarrow> notifications \<Rightarrow> string \<Rightarrow> alert list
    \<Rightarrow> route_err + rule_args list" where
  "toRuleArgs ob n env [] = Inr []"
| "toRuleArgs ob n env (a # as) =
     (let p = alert_profile (at_profile a) ob; r = at_rule a in
      if p = [] then Inl (NoProfile (ru_name r))
      else case map_of (nt_profiles n) p of
             None \<Rightarrow> Inl (UnknownProfile (ru_name r) p)
           | Some routes \<Rightarrow>
               (case map_of routes (at_severity a) of
                  None \<Rightarrow> Inl (NotRouted p (at_severity a) (ru_name r))
                | Some route \<Rightarrow>
                    if pr_muted route then toRuleArgs ob n env as
                    else (case toRuleArgs ob n env as of
                            Inl e \<Rightarrow> Inl e
                          | Inr out \<Rightarrow>
                              Inr (\<lparr>ra_name = ru_name r, ra_condition = ru_condition r,
                                    ra_for = ru_for r, ra_nodata = ru_nodata r,
                                    ra_labels = [''profile'' \<mapsto> p] ++ ru_labels r,
                                    ra_annotations = ru_annotations r, ra_data = ru_data r,
                                    ra_contact = ContactPointName env (pr_contact route)\<rparr> # out))))"

datatype contact_args = Oncall string | Emails "string list" | Webhook string

datatype contact_err = SecretFailed string | SecretMissing string string | NoIntegration string

text \<open>\<open>decrypt\<close> reads the reserved secret of the observability namespace.\<close>

definition contactPointArgs :: "(string \<Rightarrow> string + string) \<Rightarrow> bool \<Rightarrow> string \<Rightarrow> contact_point
    \<Rightarrow> contact_err + contact_args" where
  "contactPointArgs decrypt dryRun name cp =
     (case cp_oncall cp of
        Some key \<Rightarrow>
          (case decrypt key of
             Inl e \<Rightarrow> Inl (SecretFailed e)
           | Inr url \<Rightarrow> if url = [] \<and> \<not> dryRun then Inl (SecretMissing name key) else Inr (Oncall url))
      | None \<Rightarrow>
          (case cp_email cp of
             Some addrs \<Rightarrow> Inr (Emails addrs)
           | None \<Rightarrow>
               (case cp_webhook cp of
                  Some url \<Rightarrow> Inr (Webhook url)
                | None \<Rightarrow> Inl (NoIntegration name))))"

subsection \<open>Validation\<close>

datatype obs_err =
    OncallSecret string
  | EmailAddress string
  | WebhookUrl string
  | Integrations string nat
  | ProfileSeverity string string
  | RouteShape string string
  | RoutePoint string string string
  | DefaultRequired
  | DefaultUnknown string
  | DefaultRoutes string string
  | AlertName
  | AlertDuplicate string
  | AlertExpr string
  | AlertCondition string cond_err
  | AlertSeverity string string
  | AlertLabel string
  | AlertNoProfile string
  | AlertProfile string string
  | AlertRoute string string string

definition sortedKeys :: "(string \<times> 'a) list \<Rightarrow> string list" where
  "sortedKeys m = sort (map fst m)"

definition check_point :: "string \<Rightarrow> contact_point \<Rightarrow> obs_err list" where
  "check_point name cp =
     (let set_count = (if cp_oncall cp = None then 0 else 1) + (if cp_email cp = None then 0 else 1)
            + (if cp_webhook cp = None then 0 else 1 :: nat) in
      (case cp_oncall cp of Some u \<Rightarrow> if u = [] then [OncallSecret name] else [] | None \<Rightarrow> [])
      @ (case cp_email cp of Some as \<Rightarrow> if as = [] then [EmailAddress name] else [] | None \<Rightarrow> [])
      @ (case cp_webhook cp of Some u \<Rightarrow> if u = [] then [WebhookUrl name] else [] | None \<Rightarrow> [])
      @ (if set_count \<noteq> 1 then [Integrations name set_count] else []))"

definition check_profile_route ::
  "notifications \<Rightarrow> string \<Rightarrow> string \<Rightarrow> profile_route \<Rightarrow> obs_err list" where
  "check_profile_route n pname sev route =
     (let hasCP = pr_contact route \<noteq> [] in
      (if sev \<notin> set Severities then [ProfileSeverity pname sev] else [])
      @ (if hasCP = pr_muted route then [RouteShape pname sev] else [])
      @ (if hasCP \<and> map_of (nt_points n) (pr_contact route) = None
         then [RoutePoint pname sev (pr_contact route)] else []))"

definition check_default_profile :: "observability \<Rightarrow> notifications \<Rightarrow> obs_err list" where
  "check_default_profile ob n =
     (if ob_profile ob = [] then [DefaultRequired]
      else case map_of (nt_profiles n) (ob_profile ob) of
             None \<Rightarrow> [DefaultUnknown (ob_profile ob)]
           | Some routes \<Rightarrow>
               if AlertsEnabled ob
               then concat (map (\<lambda>sev. if map_of routes sev = None
                                       then [DefaultRoutes (ob_profile ob) sev] else [])
                      [''critical'', ''warning''])
               else [])"

definition alerts_managed :: "observability \<Rightarrow> alert_spec list \<Rightarrow> bool" where
  "alerts_managed ob alerts \<longleftrightarrow> ob_grafana ob \<noteq> [] \<and> (AlertsEnabled ob \<or> length alerts > 0)"

text \<open>The messages on \<open>notifications.yaml\<close>.\<close>

definition check_notifications ::
  "observability \<Rightarrow> notifications \<Rightarrow> alert_spec list \<Rightarrow> obs_err list" where
  "check_notifications ob n alerts =
     concat (map (\<lambda>name. check_point name (the (map_of (nt_points n) name))) (sortedKeys (nt_points n)))
     @ concat (map (\<lambda>pname.
         let p = the (map_of (nt_profiles n) pname) in
         concat (map (\<lambda>sev. check_profile_route n pname sev (the (map_of p sev))) (sortedKeys p)))
       (sortedKeys (nt_profiles n)))
     @ (if alerts_managed ob alerts then check_default_profile ob n else [])"

definition check_alert_routing :: "observability \<Rightarrow> notifications \<Rightarrow> alert_spec \<Rightarrow> obs_err list" where
  "check_alert_routing ob n a =
     (if ob_grafana ob \<noteq> [] \<and> al_severity a \<in> set Severities then
        let p = alert_profile (al_profile a) ob in
        if p = [] then [AlertNoProfile (al_name a)]
        else (case map_of (nt_profiles n) p of
                None \<Rightarrow> [AlertProfile (al_name a) p]
              | Some routes \<Rightarrow>
                  if map_of routes (al_severity a) = None
                  then [AlertRoute (al_name a) p (al_severity a)] else [])
      else [])"

text \<open>The messages on \<open>alerts.yaml\<close>; \<open>seen\<close> holds the names of earlier alerts.\<close>

fun check_alerts :: "observability \<Rightarrow> notifications \<Rightarrow> string list \<Rightarrow> alert_spec list \<Rightarrow> obs_err list" where
  "check_alerts ob n seen [] = []"
| "check_alerts ob n seen (a # as) =
     (if al_name a = [] then AlertName # check_alerts ob n seen as
      else
        (if al_name a \<in> set seen then [AlertDuplicate (al_name a)] else [])
        @ (if al_expr a = [] then [AlertExpr (al_name a)] else [])
        @ (case ValidCondition (al_cond a) of Some e \<Rightarrow> [AlertCondition (al_name a) e] | None \<Rightarrow> [])
        @ (if al_severity a \<notin> set Severities then [AlertSeverity (al_name a) (al_severity a)] else [])
        @ (if map_of (al_labels a) ''severity'' \<noteq> None then [AlertLabel (al_name a)] else [])
        @ check_alert_routing ob n a
        @ check_alerts ob n (al_name a # seen) as)"

subsection \<open>Lemmas\<close>

lemma parseCondition_ok:
  "parseCondition cond = Inr (op, v) \<Longrightarrow> op \<in> set operators \<and> v \<noteq> [] \<and> ParseFloat_ok v"
  by (auto simp: parseCondition_def Let_def find_Some_iff in_set_conv_nth
      split: option.splits if_splits)

lemma ValidCondition_None: "ValidCondition cond = None \<longleftrightarrow> is_ok (parseCondition cond)"
  by (auto simp: ValidCondition_def is_ok_def split: sum.splits)

text \<open>What a passing alert satisfies.\<close>

definition alert_valid :: "observability \<Rightarrow> notifications \<Rightarrow> alert_spec \<Rightarrow> bool" where
  "alert_valid ob n a \<longleftrightarrow> al_name a \<noteq> [] \<and> al_expr a \<noteq> [] \<and> ValidCondition (al_cond a) = None
     \<and> al_severity a \<in> set Severities \<and> map_of (al_labels a) ''severity'' = None
     \<and> check_alert_routing ob n a = []"

lemma check_alerts_nil:
  "check_alerts ob n seen as = [] \<Longrightarrow>
     list_all (alert_valid ob n) as \<and> distinct (map al_name as) \<and> set (map al_name as) \<inter> set seen = {}"
proof (induction as arbitrary: seen)
  case Nil
  then show ?case by simp
next
  case (Cons a as)
  have step: "alert_valid ob n a" "al_name a \<notin> set seen" "check_alerts ob n (al_name a # seen) as = []"
    using Cons.prems by (auto simp: alert_valid_def split: if_splits option.splits)
  show ?case using Cons.IH [OF step(3)] step by auto
qed

text \<open>A routed severity: the profile exists and names a route for it.\<close>

definition routed :: "observability \<Rightarrow> notifications \<Rightarrow> string \<Rightarrow> string \<Rightarrow> profile_route \<Rightarrow> bool" where
  "routed ob n p sev route \<longleftrightarrow> alert_profile p ob \<noteq> [] \<and>
     (\<exists>routes. map_of (nt_profiles n) (alert_profile p ob) = Some routes \<and> map_of routes sev = Some route)"

lemma check_alert_routing_nil:
  "check_alert_routing ob n a = [] \<Longrightarrow> ob_grafana ob \<noteq> [] \<Longrightarrow> al_severity a \<in> set Severities \<Longrightarrow>
     \<exists>route. routed ob n (al_profile a) (al_severity a) route"
  by (auto simp: check_alert_routing_def routed_def Let_def split: if_splits option.splits)

lemma Custom_ok:
  "list_all (alert_valid ob n) as \<Longrightarrow> \<exists>out. Custom as = Inr out
     \<and> map at_severity out = map al_severity as \<and> map at_profile out = map al_profile as
     \<and> map (\<lambda>a. ru_name (at_rule a)) out = map al_name as
     \<and> list_all (\<lambda>a. ru_labels (at_rule a) ''severity'' = Some (at_severity a)) out"
proof (induction as)
  case Nil
  then show ?case by simp
next
  case (Cons a as)
  then obtain out where out: "Custom as = Inr out" "map at_severity out = map al_severity as"
    "map at_profile out = map al_profile as" "map (\<lambda>a. ru_name (at_rule a)) out = map al_name as"
    "list_all (\<lambda>a. ru_labels (at_rule a) ''severity'' = Some (at_severity a)) out" by auto
  have v: "al_severity a \<in> set Severities" "map_of (al_labels a) ''severity'' = None"
    using Cons.prems by (auto simp: alert_valid_def)
  obtain op v where c: "parseCondition (al_cond a) = Inr (op, v)"
    using Cons.prems by (auto simp: alert_valid_def ValidCondition_None elim!: is_okE)
  show ?case
    using out v c by (auto simp: build_rule_def overlay_def map_add_def)
qed

text \<open>When every alert is routed, the rules are exactly the unmuted alerts, in order.\<close>

lemma toRuleArgs_routed:
  assumes "\<forall>a\<in>set as. \<exists>route. routed ob n (at_profile a) (at_severity a) route"
  shows "\<exists>rules. toRuleArgs ob n env as = Inr rules
    \<and> map ra_name rules = map (\<lambda>a. ru_name (at_rule a))
        (filter (\<lambda>a. \<forall>route. routed ob n (at_profile a) (at_severity a) route \<longrightarrow> \<not> pr_muted route) as)
    \<and> (\<forall>r\<in>set rules. \<exists>a\<in>set as. \<exists>route. routed ob n (at_profile a) (at_severity a) route
         \<and> \<not> pr_muted route \<and> ra_contact r = ContactPointName env (pr_contact route))"
  using assms
proof (induction as)
  case Nil
  then show ?case by simp
next
  case (Cons a as)
  then obtain rules where ih: "toRuleArgs ob n env as = Inr rules"
    "map ra_name rules = map (\<lambda>a. ru_name (at_rule a))
        (filter (\<lambda>a. \<forall>route. routed ob n (at_profile a) (at_severity a) route \<longrightarrow> \<not> pr_muted route) as)"
    "\<forall>r\<in>set rules. \<exists>a\<in>set as. \<exists>route. routed ob n (at_profile a) (at_severity a) route
         \<and> \<not> pr_muted route \<and> ra_contact r = ContactPointName env (pr_contact route)" by auto
  obtain route where r: "routed ob n (at_profile a) (at_severity a) route" using Cons.prems by auto
  then have only: "routed ob n (at_profile a) (at_severity a) q \<longleftrightarrow> q = route" for q
    by (auto simp: routed_def)
  show ?case
  proof (cases "pr_muted route")
    case True
    then have "toRuleArgs ob n env (a # as) = Inr rules"
      using r ih(1) by (auto simp: routed_def Let_def)
    then show ?thesis using ih True only by auto
  next
    case False
    then obtain x where "toRuleArgs ob n env (a # as) = Inr (x # rules)"
      "ra_name x = ru_name (at_rule a)" "ra_contact x = ContactPointName env (pr_contact route)"
      using r ih(1) by (auto simp: routed_def Let_def)
    then show ?thesis using ih False only r by auto
  qed
qed

lemma check_notifications_parts:
  assumes "check_notifications ob n alerts = []" "distinct (map fst (nt_profiles n))"
  shows "map_of (nt_points n) name = Some cp \<Longrightarrow> check_point name cp = []"
    and "map_of (nt_profiles n) pname = Some p \<Longrightarrow> map_of p sev = Some route \<Longrightarrow>
           check_profile_route n pname sev route = []"
    and "alerts_managed ob alerts \<Longrightarrow> check_default_profile ob n = []"
proof -
  have key: "k \<in> set (sortedKeys m)" if "map_of m k = Some v" for m :: "(string \<times> 'z) list" and k v
    using map_of_SomeD [OF that] by (force simp: sortedKeys_def)
  show "check_point name cp = []" if a: "map_of (nt_points n) name = Some cp"
    using assms(1) key [OF a] a unfolding check_notifications_def by auto
  show "check_profile_route n pname sev route = []"
    if a: "map_of (nt_profiles n) pname = Some p" and b: "map_of p sev = Some route"
  proof -
    have "\<forall>x\<in>set (sortedKeys p). check_profile_route n pname x (the (map_of p x)) = []"
      using assms(1) key [OF a] a unfolding check_notifications_def Let_def by auto
    then show ?thesis using key [OF b] b by auto
  qed
  show "check_default_profile ob n = []" if "alerts_managed ob alerts"
    using assms(1) that by (simp add: check_notifications_def)
qed

text \<open>Every route of a passing file is muted or names a declared, well-formed contact point.\<close>

lemma route_resolves:
  assumes "check_notifications ob n alerts = []" "distinct (map fst (nt_profiles n))"
    and "routed ob n p sev route" "\<not> pr_muted route"
  shows "\<exists>cp. map_of (nt_points n) (pr_contact route) = Some cp \<and> check_point (pr_contact route) cp = []"
proof -
  obtain routes where r: "map_of (nt_profiles n) (alert_profile p ob) = Some routes"
    "map_of routes sev = Some route" using assms(3) by (auto simp: routed_def)
  have "check_profile_route n (alert_profile p ob) sev route = []"
    by (rule check_notifications_parts(2) [OF assms(1,2) r])
  then obtain cp where "map_of (nt_points n) (pr_contact route) = Some cp"
    using assms(4) by (auto simp: check_profile_route_def Let_def split: if_splits)
  then show ?thesis using check_notifications_parts(1) [OF assms(1,2)] by blast
qed

lemma contactPointArgs_ok:
  assumes "check_point name cp = []" and "\<And>key. \<exists>url. decrypt key = Inr url \<and> url \<noteq> []"
  shows "is_ok (contactPointArgs decrypt dryRun name cp)"
  using assms by (auto simp: check_point_def contactPointArgs_def Let_def split: option.splits if_splits sum.splits)
    (metis Inl_Inr_False old.sum.exhaust Inr_inject)+

end
