(* ===== verification/Validate.thy ===== *)
theory Validate
  imports ValidateEdge Alerts
begin

text \<open>
  The run of \<open>inforge validate\<close>: the reporter, \<open>validateType\<close>, \<open>validateResourceSet\<close>, the checks of
  \<open>variables.yaml\<close> and \<open>regions.yaml\<close>, the cross-scope checks and \<open>ValidateResources\<close> of
  \<open>internal/validate/validate.go\<close>, with \<open>checkSecurity\<close> of \<open>internal/validate/security.go\<close>.  What
  was read from disk is an input: a resource file with its parse error and the messages of its
  JSON schema, and the loaded stores.
\<close>

subsection \<open>The reporter\<close>

datatype message =
    MsgParse string
  | MsgSchema string
  | MsgDuplicateName string
  | MsgNetwork network_err
  | MsgCompute compute_err
  | MsgCluster cluster_err
  | MsgDatabase database_err
  | MsgService svc_err
  | MsgPki pki_err
  | MsgIngress ingress_err
  | MsgApp app_err
  | MsgGateway gateway_err
  | MsgStore string
  | MsgUndeclaredService string
  | MsgOrphanSecret string string
  | MsgCrossService string
  | MsgCrossApp string
  | MsgVanity string string
  | MsgBaseDomain
  | MsgNoRegion
  | MsgSlug string
  | MsgProviders string
  | MsgDnsProvider string
  | MsgDnsZone string
  | MsgGlobalProviders
  | MsgPlacementRequired
  | MsgPlacementUnknown string
  | MsgPlacementDns string string
  | MsgGlobalUnplaced
  | MsgGlobalDns string
  | MsgUnavailable string string
  | MsgObservability obs_err
  | MsgNegative string int
  | MsgNothingToLimit

record report_line =
  ln_label :: string
  ln_warns :: "check_warning list"
  ln_errs :: "message list"

record reporter =
  rp_failed :: bool
  rp_lines :: "report_line list"

definition report :: "string \<Rightarrow> message list \<Rightarrow> check_warning list \<Rightarrow> reporter \<Rightarrow> reporter" where
  "report path errs warns r =
     r\<lparr>rp_failed := (rp_failed r \<or> errs \<noteq> []),
       rp_lines := rp_lines r @ [\<lparr>ln_label = path, ln_warns = warns, ln_errs = errs\<rparr>]\<rparr>"

definition fail :: "string \<Rightarrow> message list \<Rightarrow> reporter \<Rightarrow> reporter" where
  "fail label msgs r =
     r\<lparr>rp_failed := True,
       rp_lines := rp_lines r @ [\<lparr>ln_label = label, ln_warns = [], ln_errs = msgs\<rparr>]\<rparr>"

text \<open>A failure that is recorded only when there is something to say.\<close>

definition fail_some :: "string \<Rightarrow> message list \<Rightarrow> reporter \<Rightarrow> reporter" where
  "fail_some label msgs r = (if msgs = [] then r else fail label msgs r)"

definition report_some :: "string \<Rightarrow> message list \<Rightarrow> reporter \<Rightarrow> reporter" where
  "report_some label msgs r = (if msgs = [] then r else report label msgs [] r)"

subsection \<open>One type of resource\<close>

definition nameCount :: "('a \<Rightarrow> string) \<Rightarrow> 'a src_file list \<Rightarrow> string \<Rightarrow> nat" where
  "nameCount name files n = length (filter (\<lambda>s. name s = n) (parsed_specs files))"

definition file_messages :: "('a \<Rightarrow> string) \<Rightarrow> ('a \<Rightarrow> message list \<times> check_warning list)
    \<Rightarrow> 'a src_file list \<Rightarrow> 'a src_file \<Rightarrow> message list \<times> check_warning list" where
  "file_messages name semantic files f =
     (case sf_parse_err f of
        Some e \<Rightarrow> ([MsgParse e], [])
      | None \<Rightarrow>
          if sf_schema_errs f \<noteq> [] then (map MsgSchema (sf_schema_errs f), [])
          else
            let (es, ws) = semantic (sf_spec f) in
            ((if nameCount name files (name (sf_spec f)) > 1
              then [MsgDuplicateName (name (sf_spec f))] else []) @ es, ws))"

definition validateType :: "('a \<Rightarrow> string) \<Rightarrow> ('a \<Rightarrow> message list \<times> check_warning list)
    \<Rightarrow> 'a src_file list \<Rightarrow> reporter \<Rightarrow> reporter" where
  "validateType name semantic files r =
     fold (\<lambda>f. let (es, ws) = file_messages name semantic files f in report (sf_path f) es ws) files r"

subsection \<open>One resource set\<close>

text \<open>
  The \<open>environment.yaml\<close> of a service folder: its path, whether it is there, what
  \<open>LoadEnvironmentFile\<close> returns, and its schema messages.
\<close>

record sidecar =
  sc_path :: string
  sc_present :: bool
  sc_load :: "string + (string \<times> string) list option"
  sc_schema_errs :: "string list"

record raw_set =
  rw_files :: file_set
  rw_sidecars :: "sidecar list"

definition map_spec :: "('a \<Rightarrow> 'a) \<Rightarrow> 'a src_file \<Rightarrow> 'a src_file" where
  "map_spec f x = x\<lparr>sf_spec := f (sf_spec x)\<rparr>"

definition map_parsed :: "('a \<Rightarrow> 'a) \<Rightarrow> 'a src_file \<Rightarrow> 'a src_file" where
  "map_parsed f x = (if sf_parse_err x = None then map_spec f x else x)"

definition folder_of :: "string \<Rightarrow> string" where
  "folder_of path = trim_suffix ''/manifest.yaml'' path"

definition with_env :: "service_spec src_file \<times> sidecar \<Rightarrow> service_spec src_file" where
  "with_env x =
     (let f = fst x in
      if sf_parse_err f \<noteq> None then f
      else case sc_load (snd x) of
             Inl e \<Rightarrow> f\<lparr>sf_parse_err := Some e\<rparr>
           | Inr env \<Rightarrow>
               map_spec (\<lambda>s. NormalizeService
                 (s\<lparr>svc_env := (case env of None \<Rightarrow> [] | Some kvs \<Rightarrow> kvs)\<rparr>)) f)"

definition report_sidecar :: "service_spec src_file \<times> sidecar \<Rightarrow> reporter \<Rightarrow> reporter" where
  "report_sidecar x r =
     (let sc = snd x in
      if sf_parse_err (fst x) \<noteq> None then r
      else case sc_load sc of
             Inl e \<Rightarrow> report (sc_path sc) [MsgParse e] [] r
           | Inr (Some env) \<Rightarrow> report (sc_path sc) (map MsgSchema (sc_schema_errs sc)) [] r
           | Inr None \<Rightarrow> if sc_present sc then report (sc_path sc) [] [] r else r)"

text \<open>\<open>resolve folder path\<close> makes a relative cloud-init path absolute.\<close>

definition normal_set :: "(string \<Rightarrow> string \<Rightarrow> string) \<Rightarrow> raw_set \<Rightarrow> file_set" where
  "normal_set resolve rw =
     (let fs = rw_files rw in
      fs\<lparr>fs_compute := map (\<lambda>f. map_spec (NormalizeCompute (resolve (folder_of (sf_path f)))) f) (fs_compute fs),
         fs_cluster := map (map_parsed NormalizeDatabaseCluster) (fs_cluster fs),
         fs_database := map (map_parsed NormalizeDatabase) (fs_database fs),
         fs_pki := map (map_parsed NormalizePKIResource) (fs_pki fs),
         fs_ingress := map (map_parsed NormalizeIngress) (fs_ingress fs),
         fs_app := map (map_parsed NormalizeApp) (fs_app fs),
         fs_gateway := map (map_parsed NormalizeGateway) (fs_gateway fs),
         fs_service := map with_env (zip (fs_service fs) (rw_sidecars rw))\<rparr>)"

definition validateResourceSet :: "(string \<Rightarrow> bool) \<Rightarrow> (string \<Rightarrow> string \<Rightarrow> string) \<Rightarrow> validate_input
    \<Rightarrow> raw_set \<Rightarrow> reporter \<Rightarrow> reporter" where
  "validateResourceSet exists resolve vi rw r0 =
     (let fs = normal_set resolve rw; ctx = build_ctx vi fs;
          r1 = fold report_sidecar (zip (fs_service (rw_files rw)) (rw_sidecars rw)) r0;
          r2 = validateType net_name (\<lambda>s. (map MsgNetwork (checkNetwork s ctx), [])) (fs_network fs) r1;
          r3 = validateType cmp_name (\<lambda>s. apfst (map MsgCompute) (checkCompute exists s ctx)) (fs_compute fs) r2;
          r4 = validateType cl_name (\<lambda>s. (map MsgCluster (checkDatabaseCluster s ctx), [])) (fs_cluster fs) r3;
          r5 = validateType db_name (\<lambda>s. apfst (map MsgDatabase) (checkDatabase s ctx)) (fs_database fs) r4;
          r6 = validateType svc_name (\<lambda>s. apfst (map MsgService) (checkService s ctx)) (fs_service fs) r5;
          r7 = validateType pkr_name (\<lambda>s. (map MsgPki (checkPKIResource s), [])) (fs_pki fs) r6;
          r8 = validateType ing_name (\<lambda>s. (map MsgIngress (checkIngress s ctx), [])) (fs_ingress fs) r7;
          r9 = validateType app_name (\<lambda>s. (map MsgApp (checkApp s ctx), [])) (fs_app fs) r8
      in validateType gw_name (\<lambda>s. (map MsgGateway (checkGateway s ctx), [])) (fs_gateway fs) r9)"

subsection \<open>The files of the environment\<close>

type_synonym providers_block = "(string \<times> (string \<times> string) list) list"

definition provider_size :: "providers_block \<Rightarrow> string \<Rightarrow> nat" where
  "provider_size ps p = (case map_of ps p of None \<Rightarrow> 0 | Some cfg \<Rightarrow> length cfg)"

definition region_messages :: "string \<Rightarrow> abstract_region \<Rightarrow> message list" where
  "region_messages name ar =
     (if TrimSpace (ar_slug ar) = [] then [MsgSlug name] else [])
     @ (if ar_providers ar = [] then [MsgProviders name] else [])
     @ (case ar_dns ar of
          None \<Rightarrow> []
        | Some d \<Rightarrow> (if TrimSpace (dns_provider d) = [] then [MsgDnsProvider name] else [])
                  @ (if TrimSpace (dns_zone d) = [] then [MsgDnsZone name] else []))"

definition placement_messages :: "region_table \<Rightarrow> global_block \<Rightarrow> message list" where
  "placement_messages table g =
     (if TrimSpace (gb_placement g) = [] then [MsgPlacementRequired]
      else case map_of table (gb_placement g) of
             None \<Rightarrow> [MsgPlacementUnknown (gb_placement g)]
           | Some pr \<Rightarrow>
               (case ar_dns pr of
                  None \<Rightarrow> []
                | Some d \<Rightarrow>
                    let p = TrimSpace (dns_provider d) in
                    if p \<noteq> [] \<and> provider_size (gb_providers g) p = 0
                    then [MsgPlacementDns p (gb_placement g)] else []))"

definition regions_messages :: "region_table \<Rightarrow> global_block option \<Rightarrow> message list" where
  "regions_messages table global =
     (if table = [] then [MsgNoRegion] else [])
     @ concat (map (\<lambda>n. region_messages n (the (map_of table n))) (SortedNames table))
     @ (case global of
          None \<Rightarrow> []
        | Some g \<Rightarrow> (if gb_providers g = [] then [MsgGlobalProviders] else [])
                  @ placement_messages table g)"

definition checkRegionsFile :: "region_table \<Rightarrow> global_block option \<Rightarrow> string \<Rightarrow> reporter \<Rightarrow> reporter" where
  "checkRegionsFile table global path r = report path (regions_messages table global) [] r"

definition checkVariables :: "string \<Rightarrow> string \<Rightarrow> reporter \<Rightarrow> reporter" where
  "checkVariables baseDomain path r =
     report path (if TrimSpace baseDomain = [] then [MsgBaseDomain] else []) [] r"

definition security_messages :: "rate_limit_config \<Rightarrow> message list" where
  "security_messages rl =
     (if \<not> rl_enabled rl then []
      else (if rl_rps rl < 0 then [MsgNegative ''requests_per_second'' (rl_rps rl)] else [])
         @ (if rl_burst rl < 0 then [MsgNegative ''burst'' (rl_burst rl)] else [])
         @ (if rl_maxconn rl < 0 then [MsgNegative ''max_connections'' (rl_maxconn rl)] else [])
         @ (if rl_rps rl = 0 \<and> rl_maxconn rl = 0 then [MsgNothingToLimit] else []))"

definition checkSecurity :: "rate_limit_config \<Rightarrow> string \<Rightarrow> reporter \<Rightarrow> reporter" where
  "checkSecurity rl path r = fail_some path (security_messages rl) r"

text \<open>The loaded notification and alert files, or the error of the first that does not load.\<close>

definition checkObservability :: "string + notifications \<Rightarrow> string + alert_spec list \<Rightarrow> observability
    \<Rightarrow> string \<Rightarrow> string \<Rightarrow> reporter \<Rightarrow> reporter" where
  "checkObservability notif alerts ob notifPath alertsPath r =
     (case notif of
        Inl e \<Rightarrow> fail notifPath [MsgParse e] r
      | Inr n \<Rightarrow>
          (case alerts of
             Inl e \<Rightarrow> fail alertsPath [MsgParse e] r
           | Inr as \<Rightarrow>
               report_some alertsPath (map MsgObservability (check_alerts ob n [] as))
                 (report_some notifPath (map MsgObservability (check_notifications ob n as)) r)))"

subsection \<open>Checks across the two scopes\<close>

text \<open>The vault keys a service of either scope declares under a name.\<close>

definition declared_keys :: "service_spec list \<Rightarrow> string \<Rightarrow> string list" where
  "declared_keys svcs name =
     concat (map (\<lambda>s. if svc_name s = name
       then concat (map (\<lambda>(k, src). case ParseSource src of Inr (SourceVault key) \<Rightarrow> [key] | _ \<Rightarrow> []) (svc_env s))
       else []) svcs)"

definition secret_entry_messages :: "service_spec list \<Rightarrow> secret_store \<Rightarrow> string \<Rightarrow> message list" where
  "secret_entry_messages svcs store name =
     (if name \<notin> svc_name ` set svcs then [MsgUndeclaredService name]
      else concat (map (\<lambda>key. if key \<notin> set (declared_keys svcs name)
                              then [MsgOrphanSecret name key] else []) (store_Keys store name)))"

definition checkSecretStoreEntries :: "secret_store_state \<Rightarrow> resources \<Rightarrow> resources \<Rightarrow> string
    \<Rightarrow> reporter \<Rightarrow> reporter" where
  "checkSecretStoreEntries st regional global storePath r =
     (case ss_store st of
        None \<Rightarrow> r
      | Some store \<Rightarrow>
          fold (\<lambda>m. fail storePath [m])
            (concat (map (secret_entry_messages (res_service regional @ res_service global) store)
              (sort (map fst (st_services store))))) r)"

definition cross_messages :: "resources \<Rightarrow> resources \<Rightarrow> string \<Rightarrow> (string \<times> message) list" where
  "cross_messages regional global globalBase =
     concat (map (\<lambda>s. if svc_name s \<in> svc_name ` set (res_service regional)
                      then [(globalBase @ ''/service/'' @ svc_name s, MsgCrossService (svc_name s))]
                      else []) (res_service global))
     @ concat (map (\<lambda>a. if app_name a \<in> app_name ` set (res_app regional)
                        then [(globalBase @ ''/app/'' @ app_name a, MsgCrossApp (app_name a))]
                        else []) (res_app global))"

definition checkCrossScopeNames :: "resources \<Rightarrow> resources \<Rightarrow> string \<Rightarrow> reporter \<Rightarrow> reporter" where
  "checkCrossScopeNames regional global globalBase r =
     fold (\<lambda>(label, m). fail label [m]) (cross_messages regional global globalBase) r"

definition vanity_messages :: "string \<Rightarrow> service_spec \<Rightarrow> message list" where
  "vanity_messages baseDomain s =
     concat (map (\<lambda>rt. concat (map (\<lambda>v.
       let fqdn = ExpandVanity v ''env'' ''slug'' baseDomain in
       if InZone fqdn baseDomain then [] else [MsgVanity v fqdn]) (rt_vanity rt))) (svc_routes s))"

definition checkVanityZone :: "resources \<Rightarrow> string \<Rightarrow> string \<Rightarrow> reporter \<Rightarrow> reporter" where
  "checkVanityZone res base baseDomain r =
     (if baseDomain = [] \<or> contains_str baseDomain ''${'' then r
      else fold (\<lambda>s. fail_some (base @ ''/service/'' @ svc_name s) (vanity_messages baseDomain s))
             (res_service res) r)"

subsection \<open>Mesh membership and provider availability\<close>

definition checkServicePKI :: "file_set \<Rightarrow> string list \<Rightarrow> pki_store option \<Rightarrow> reporter \<Rightarrow> reporter" where
  "checkServicePKI fs scopes store r0 =
     (let r1 = fold (\<lambda>f. if sf_parse_err f \<noteq> None then id
                 else report_some (sf_path f) (map MsgPki (servicePKIErrors (NormalizeService (sf_spec f)) scopes store)))
               (fs_service fs) r0
      in fold (\<lambda>f. if sf_parse_err f \<noteq> None then id
           else report_some (sf_path f) (map MsgPki (pkiMembershipErrors (gw_pki (NormalizeGateway (sf_spec f))) scopes store)))
         (fs_gateway fs) r1)"

definition checkPKI :: "file_set \<Rightarrow> file_set \<Rightarrow> region_table \<Rightarrow> pki_store option \<Rightarrow> reporter \<Rightarrow> reporter" where
  "checkPKI globals regionals table store r =
     checkServicePKI regionals (SortedNames table) store (checkServicePKI globals [ScopeGlobal] store r)"

definition refsOf :: "('a \<Rightarrow> string) \<Rightarrow> 'a src_file list \<Rightarrow> (string \<times> string) list" where
  "refsOf providerOf files =
     concat (map (\<lambda>f. if sf_parse_err f = None \<and> providerOf (sf_spec f) \<noteq> []
                      then [(sf_path f, providerOf (sf_spec f))] else []) files)"

definition collectProviderRefs :: "file_set \<Rightarrow> provider_defaults \<Rightarrow> (string \<times> string) list" where
  "collectProviderRefs fs defaults =
     refsOf (\<lambda>s. ResolveProvider (net_provider s) ''network'' [] defaults) (fs_network fs)
     @ refsOf (\<lambda>s. ResolveProvider (cmp_provider s) ''compute'' [] defaults) (fs_compute fs)
     @ refsOf (\<lambda>s. let p = ResolveProvider (cl_provider s) ''database'' (cl_engine s) defaults in
                   if p = SelfHostedProvider then [] else p) (fs_cluster fs)"

definition availableProviders :: "providers_block \<Rightarrow> string \<Rightarrow> bool" where
  "availableProviders ps p \<longleftrightarrow> p \<in> set (map fst ps)"

definition missing_providers :: "(string \<times> string) list \<Rightarrow> providers_block \<Rightarrow> message list" where
  "missing_providers refs ps =
     concat (map (\<lambda>ref. if \<not> availableProviders ps (snd ref)
                        then [MsgUnavailable (fst ref) (snd ref)] else []) refs)"

definition checkProviderAvailability :: "file_set \<Rightarrow> region_table \<Rightarrow> provider_defaults
    \<Rightarrow> reporter \<Rightarrow> reporter" where
  "checkProviderAvailability fs table defaults r =
     fold (\<lambda>n. fail_some (''regions.yaml ['' @ n @ ''] provider availability'')
                 (missing_providers (collectProviderRefs fs defaults) (ar_providers (the (map_of table n)))))
       (SortedNames table) r"

definition checkGlobalProviderAvailability :: "file_set \<Rightarrow> global_block \<Rightarrow> provider_defaults
    \<Rightarrow> reporter \<Rightarrow> reporter" where
  "checkGlobalProviderAvailability fs global defaults r =
     fail_some ''regions.yaml [global] provider availability''
       (missing_providers (collectProviderRefs fs defaults) (gb_providers global)) r"

subsection \<open>The run\<close>

text \<open>The specs of a set, or \<open>None\<close> when a file does not load (\<open>loadResourceSet\<close> of the loader).\<close>

definition set_parses :: "file_set \<Rightarrow> bool" where
  "set_parses fs \<longleftrightarrow>
     list_all (\<lambda>f. sf_parse_err f = None) (fs_network fs) \<and> list_all (\<lambda>f. sf_parse_err f = None) (fs_compute fs)
     \<and> list_all (\<lambda>f. sf_parse_err f = None) (fs_cluster fs) \<and> list_all (\<lambda>f. sf_parse_err f = None) (fs_database fs)
     \<and> list_all (\<lambda>f. sf_parse_err f = None) (fs_service fs) \<and> list_all (\<lambda>f. sf_parse_err f = None) (fs_pki fs)
     \<and> list_all (\<lambda>f. sf_parse_err f = None) (fs_ingress fs) \<and> list_all (\<lambda>f. sf_parse_err f = None) (fs_app fs)
     \<and> list_all (\<lambda>f. sf_parse_err f = None) (fs_gateway fs)"

definition specs_of :: "file_set \<Rightarrow> resources" where
  "specs_of fs =
     \<lparr>res_network = all_specs (fs_network fs), res_compute = all_specs (fs_compute fs),
      res_cluster = all_specs (fs_cluster fs), res_database = all_specs (fs_database fs),
      res_service = all_specs (fs_service fs), res_pki = all_specs (fs_pki fs),
      res_ingress = all_specs (fs_ingress fs), res_app = all_specs (fs_app fs),
      res_gateway = all_specs (fs_gateway fs)\<rparr>"

definition loadResourceSet :: "(string \<Rightarrow> string \<Rightarrow> string) \<Rightarrow> raw_set \<Rightarrow> resources option" where
  "loadResourceSet resolve rw =
     (let fs = normal_set resolve rw in if set_parses fs then Some (specs_of fs) else None)"

datatype 'a loaded = StoreAbsent | StoreBroken string | StoreLoaded 'a

record project =
  pj_regions :: region_table
  pj_global :: "global_block option"
  pj_sizes :: "string list"
  pj_domain :: string
  pj_security :: rate_limit_config
  pj_obs :: observability
  pj_notifications :: "string + notifications"
  pj_alerts :: "string + alert_spec list"
  pj_regional_set :: raw_set
  pj_global_set :: raw_set
  pj_secrets :: "secret_store loaded"
  pj_pkis :: "pki_store loaded"
  pj_base :: string

definition secret_state :: "secret_store loaded \<Rightarrow> secret_store_state" where
  "secret_state l =
     (case l of
        StoreAbsent \<Rightarrow> \<lparr>ss_store = None, ss_unreadable = False\<rparr>
      | StoreBroken e \<Rightarrow> \<lparr>ss_store = None, ss_unreadable = True\<rparr>
      | StoreLoaded s \<Rightarrow> \<lparr>ss_store = Some s, ss_unreadable = False\<rparr>)"

definition fail_broken :: "string \<Rightarrow> 'a loaded \<Rightarrow> reporter \<Rightarrow> reporter" where
  "fail_broken path l r = (case l of StoreBroken e \<Rightarrow> fail path [MsgStore e] r | _ \<Rightarrow> r)"

definition loaded_option :: "'a loaded \<Rightarrow> 'a option" where
  "loaded_option l = (case l of StoreLoaded s \<Rightarrow> Some s | _ \<Rightarrow> None)"

text \<open>The mesh services of a regional set that loads, for the global pass.\<close>

definition regional_mesh :: "resources option \<Rightarrow> (string \<times> string) list" where
  "regional_mesh res =
     (case res of None \<Rightarrow> []
      | Some r \<Rightarrow> map (\<lambda>s. (svc_name s, svc_pki s)) (filter (\<lambda>s. svc_pki s \<noteq> []) (res_service r)))"

definition base_input :: "project \<Rightarrow> provider_defaults \<Rightarrow> bool \<Rightarrow> validate_input" where
  "base_input pj defaults bucket =
     \<lparr>vi_available = None, vi_sizes = pj_sizes pj, vi_global = None, vi_siblings = [],
      vi_store = secret_state (pj_secrets pj), vi_pkis = loaded_option (pj_pkis pj),
      vi_defaults = defaults, vi_bucket = bucket\<rparr>"

definition global_input :: "project \<Rightarrow> provider_defaults \<Rightarrow> bool \<Rightarrow> resources option \<Rightarrow> validate_input" where
  "global_input pj defaults bucket regional =
     (base_input pj defaults bucket)\<lparr>vi_siblings := regional_mesh regional\<rparr>"

definition regional_input :: "project \<Rightarrow> provider_defaults \<Rightarrow> bool \<Rightarrow> resources \<Rightarrow> validate_input" where
  "regional_input pj defaults bucket global =
     (base_input pj defaults bucket)\<lparr>vi_global := Some (buildGlobalRefs global)\<rparr>"

text \<open>The two checks of a global slice against \<open>regions.yaml\<close>.\<close>

definition checkGlobalSlot :: "project \<Rightarrow> resources \<Rightarrow> reporter \<Rightarrow> reporter" where
  "checkGlobalSlot pj globalRes r =
     (case pj_global pj of
        None \<Rightarrow> if HasAny globalRes then fail ''regions.yaml [global]'' [MsgGlobalUnplaced] r else r
      | Some g \<Rightarrow>
          if globalNeedsDNS globalRes
          then (case map_of (pj_regions pj) (gb_placement g) of
                  None \<Rightarrow> r
                | Some pr \<Rightarrow> if ar_dns pr = None
                            then fail ''regions.yaml [global]'' [MsgGlobalDns (gb_placement g)] r else r)
          else r)"

definition run_checks :: "(string \<Rightarrow> bool) \<Rightarrow> (string \<Rightarrow> string \<Rightarrow> string) \<Rightarrow> provider_defaults \<Rightarrow> bool
    \<Rightarrow> project \<Rightarrow> resources \<Rightarrow> resources option \<Rightarrow> reporter" where
  "run_checks exists resolve defaults bucket pj globalRes regional =
     (let base = pj_base pj; regionalBase = base @ ''/regional''; globalBase = base @ ''/global'';
          regFiles = rw_files (pj_regional_set pj); gloFiles = rw_files (pj_global_set pj);
          storePath = base @ ''/secrets.enc.yaml'';
          r1 = fail_broken storePath (pj_secrets pj) \<lparr>rp_failed = False, rp_lines = []\<rparr>;
          r2 = fail_broken (base @ ''/pki.enc.yaml'') (pj_pkis pj) r1;
          r3 = checkVariables (pj_domain pj) (base @ ''/variables.yaml'') r2;
          r4 = checkObservability (pj_notifications pj) (pj_alerts pj) (pj_obs pj)
                 (base @ ''/observability/notifications.yaml'') (base @ ''/observability/alerts.yaml'') r3;
          r5 = checkSecurity (pj_security pj) (base @ ''/variables.yaml'') r4;
          r6 = checkRegionsFile (pj_regions pj) (pj_global pj) (base @ ''/regions.yaml'') r5;
          r7 = validateResourceSet exists resolve (global_input pj defaults bucket regional) (pj_global_set pj) r6;
          r8 = checkGlobalSlot pj globalRes r7;
          r9 = validateResourceSet exists resolve (regional_input pj defaults bucket globalRes) (pj_regional_set pj) r8;
          r10 = (case regional of None \<Rightarrow> r9
                 | Some res \<Rightarrow> checkSecretStoreEntries (secret_state (pj_secrets pj)) res globalRes storePath
                                (checkCrossScopeNames res globalRes globalBase r9));
          r11 = checkVanityZone globalRes globalBase (pj_domain pj) r10;
          r12 = (case regional of None \<Rightarrow> r11 | Some res \<Rightarrow> checkVanityZone res regionalBase (pj_domain pj) r11);
          r13 = checkPKI gloFiles regFiles (pj_regions pj) (loaded_option (pj_pkis pj)) r12;
          r14 = checkProviderAvailability regFiles (pj_regions pj) defaults r13
      in case pj_global pj of
           None \<Rightarrow> r14
         | Some g \<Rightarrow> checkGlobalProviderAvailability gloFiles g defaults r14)"

datatype run_err = GlobalLoadFailed | ValidationFailed

definition ValidateResources :: "(string \<Rightarrow> bool) \<Rightarrow> (string \<Rightarrow> string \<Rightarrow> string) \<Rightarrow> provider_defaults \<Rightarrow> bool
    \<Rightarrow> project \<Rightarrow> run_err option" where
  "ValidateResources exists resolve defaults bucket pj =
     (case loadResourceSet resolve (pj_global_set pj) of
        None \<Rightarrow> Some GlobalLoadFailed
      | Some globalRes \<Rightarrow>
          if rp_failed (run_checks exists resolve defaults bucket pj globalRes
                          (loadResourceSet resolve (pj_regional_set pj)))
          then Some ValidationFailed else None)"

end
