(* ===== verification/ValidateFacts.thy ===== *)
theory ValidateFacts
  imports Validate
begin

text \<open>
  What a run that reports no failure establishes: the reporter never forgets a failure, each
  \<open>validateType\<close> fails exactly when a file of its type does, and an accepted project has two
  resource sets in which every file passes its check.
\<close>

subsection \<open>The reporter never forgets a failure\<close>

named_theorems failed_simps \<open>when a step of the run leaves the reporter failed\<close>

lemma failed_report [failed_simps]: "rp_failed (report p es ws r) \<longleftrightarrow> rp_failed r \<or> es \<noteq> []"
  by (simp add: report_def)

lemma failed_fail [failed_simps]: "rp_failed (fail p es r)"
  by (simp add: fail_def)

lemma failed_some [failed_simps]:
  "rp_failed (fail_some p es r) \<longleftrightarrow> rp_failed r \<or> es \<noteq> []"
  "rp_failed (report_some p es r) \<longleftrightarrow> rp_failed r \<or> es \<noteq> []"
  by (simp_all add: fail_some_def report_some_def fail_def report_def)

lemma failed_fold:
  assumes "\<And>x r. rp_failed (f x r) \<longleftrightarrow> rp_failed r \<or> P x"
  shows "rp_failed (fold f xs r) \<longleftrightarrow> rp_failed r \<or> (\<exists>x\<in>set xs. P x)"
  by (induction xs arbitrary: r) (auto simp: assms)

lemma failed_fold_id:
  assumes "\<And>x r. rp_failed (f x r) \<longleftrightarrow> rp_failed r \<or> P x"
  shows "rp_failed (fold (\<lambda>x. if Q x then id else f x) xs r) \<longleftrightarrow>
     rp_failed r \<or> (\<exists>x\<in>set xs. \<not> Q x \<and> P x)"
  by (induction xs arbitrary: r) (auto simp: assms)

lemma failed_fold_fail [failed_simps]:
  "rp_failed (fold (\<lambda>m. fail p [m]) ms r) \<longleftrightarrow> rp_failed r \<or> ms \<noteq> []"
  "rp_failed (fold (\<lambda>(l, m). fail l [m]) lms r) \<longleftrightarrow> rp_failed r \<or> lms \<noteq> []"
proof -
  have "rp_failed (fold (\<lambda>m. fail p [m]) ms r) \<longleftrightarrow> rp_failed r \<or> (\<exists>m\<in>set ms. True)"
    by (rule failed_fold) (simp add: failed_simps)
  then show "rp_failed (fold (\<lambda>m. fail p [m]) ms r) \<longleftrightarrow> rp_failed r \<or> ms \<noteq> []"
    by (cases ms) auto
  have "rp_failed (fold (\<lambda>(l, m). fail l [m]) lms r) \<longleftrightarrow> rp_failed r \<or> (\<exists>m\<in>set lms. True)"
    by (rule failed_fold) (simp add: failed_simps split: prod.splits)
  then show "rp_failed (fold (\<lambda>(l, m). fail l [m]) lms r) \<longleftrightarrow> rp_failed r \<or> lms \<noteq> []"
    by (cases lms) auto
qed

subsection \<open>One type of resource\<close>

definition type_passes :: "('a \<Rightarrow> string) \<Rightarrow> ('a \<Rightarrow> message list \<times> check_warning list)
    \<Rightarrow> 'a src_file list \<Rightarrow> bool" where
  "type_passes name semantic files \<longleftrightarrow>
     (\<forall>f\<in>set files. sf_parse_err f = None \<and> sf_schema_errs f = [] \<and> fst (semantic (sf_spec f)) = [])
     \<and> distinct (map name (all_specs files))"

lemma failed_validateType [failed_simps]:
  "rp_failed (validateType name semantic files r) \<longleftrightarrow>
     rp_failed r \<or> (\<exists>f\<in>set files. fst (file_messages name semantic files f) \<noteq> [])"
  unfolding validateType_def
  by (rule failed_fold) (simp add: failed_simps split: prod.splits)

lemma distinct_map_count:
  "distinct (map f xs) \<longleftrightarrow> (\<forall>x\<in>set xs. length (filter (\<lambda>y. f y = f x) xs) \<le> 1)"
proof (induction xs)
  case Nil
  then show ?case by simp
next
  case (Cons x xs)
  have one: "length (filter (\<lambda>y. f y = f x) xs) = 0 \<longleftrightarrow> f x \<notin> f ` set xs"
    by (auto simp: filter_empty_conv image_iff)
  show ?case
  proof
    assume d: "distinct (map f (x # xs))"
    then have "f x \<notin> f ` set xs" "\<forall>z\<in>set xs. length (filter (\<lambda>y. f y = f z) xs) \<le> 1"
      using Cons by auto
    then show "\<forall>z\<in>set (x # xs). length (filter (\<lambda>y. f y = f z) (x # xs)) \<le> 1"
      using one by (auto simp: image_iff)
  next
    assume a: "\<forall>z\<in>set (x # xs). length (filter (\<lambda>y. f y = f z) (x # xs)) \<le> 1"
    then have "f x \<notin> f ` set xs" using one by simp
    moreover have "\<forall>z\<in>set xs. length (filter (\<lambda>y. f y = f z) xs) \<le> 1"
    proof
      fix z assume "z \<in> set xs"
      then have "length (filter (\<lambda>y. f y = f z) (x # xs)) \<le> 1" using a by simp
      then show "length (filter (\<lambda>y. f y = f z) xs) \<le> 1" by (simp split: if_splits)
    qed
    ultimately show "distinct (map f (x # xs))" using Cons by simp
  qed
qed

lemma file_messages_nil:
  "(\<forall>f\<in>set files. fst (file_messages name semantic files f) = []) \<longleftrightarrow> type_passes name semantic files"
proof -
  have all: "parsed_specs files = all_specs files" if "\<forall>f\<in>set files. sf_parse_err f = None"
    using that by (simp add: parsed_specs_def all_specs_def filter_id_conv)
  have one: "fst (file_messages name semantic files f) = [] \<longleftrightarrow>
      sf_parse_err f = None \<and> sf_schema_errs f = [] \<and> fst (semantic (sf_spec f)) = []
      \<and> nameCount name files (name (sf_spec f)) \<le> 1" for f
    by (auto simp: file_messages_def split: option.splits prod.splits)
  have count: "distinct (map name (all_specs files)) \<longleftrightarrow>
      (\<forall>f\<in>set files. nameCount name files (name (sf_spec f)) \<le> 1)" if "\<forall>f\<in>set files. sf_parse_err f = None"
    unfolding distinct_map_count nameCount_def all [OF that] by (simp only: all_specs_def set_map ball_simps)
  show ?thesis
    unfolding type_passes_def one using count by blast
qed

lemma passing_specs:
  "type_passes name semantic files \<Longrightarrow> parsed_specs files = all_specs files"
  "type_passes name semantic files \<Longrightarrow> s \<in> set (all_specs files) \<Longrightarrow> fst (semantic s) = []"
  "type_passes name semantic files \<Longrightarrow> distinct (map name (parsed_specs files))"
  by (auto simp: type_passes_def parsed_specs_def all_specs_def filter_id_conv cong: filter_cong)

lemma passing_spec:
  assumes "type_passes name semantic files" and "s \<in> set (parsed_specs files)"
  shows "fst (semantic s) = []"
  using passing_specs [OF assms(1)] assms(2) by metis

subsection \<open>One resource set\<close>

definition set_accepts :: "(string \<Rightarrow> bool) \<Rightarrow> validate_input \<Rightarrow> file_set \<Rightarrow> bool" where
  "set_accepts exists vi fs \<longleftrightarrow>
     (let ctx = build_ctx vi fs in
      type_passes net_name (\<lambda>s. (map MsgNetwork (checkNetwork s ctx), [])) (fs_network fs)
      \<and> type_passes cmp_name (\<lambda>s. apfst (map MsgCompute) (checkCompute exists s ctx)) (fs_compute fs)
      \<and> type_passes cl_name (\<lambda>s. (map MsgCluster (checkDatabaseCluster s ctx), [])) (fs_cluster fs)
      \<and> type_passes db_name (\<lambda>s. apfst (map MsgDatabase) (checkDatabase s ctx)) (fs_database fs)
      \<and> type_passes svc_name (\<lambda>s. apfst (map MsgService) (checkService s ctx)) (fs_service fs)
      \<and> type_passes pkr_name (\<lambda>s. (map MsgPki (checkPKIResource s), [])) (fs_pki fs)
      \<and> type_passes ing_name (\<lambda>s. (map MsgIngress (checkIngress s ctx), [])) (fs_ingress fs)
      \<and> type_passes app_name (\<lambda>s. (map MsgApp (checkApp s ctx), [])) (fs_app fs)
      \<and> type_passes gw_name (\<lambda>s. (map MsgGateway (checkGateway s ctx), [])) (fs_gateway fs))"

definition sidecar_fails :: "service_spec src_file \<times> sidecar \<Rightarrow> bool" where
  "sidecar_fails x \<longleftrightarrow> sf_parse_err (fst x) = None \<and>
     (case sc_load (snd x) of
        Inl e \<Rightarrow> True
      | Inr (Some env) \<Rightarrow> sc_schema_errs (snd x) \<noteq> []
      | Inr None \<Rightarrow> False)"

lemma failed_sidecars [failed_simps]:
  "rp_failed (fold report_sidecar xs r) \<longleftrightarrow> rp_failed r \<or> (\<exists>x\<in>set xs. sidecar_fails x)"
  by (rule failed_fold)
     (auto simp: report_sidecar_def sidecar_fails_def failed_simps Let_def split: sum.splits option.splits)

lemma failed_resource_set [failed_simps]:
  "rp_failed (validateResourceSet exists resolve vi rw r) \<longleftrightarrow>
     rp_failed r \<or> (\<exists>x\<in>set (zip (fs_service (rw_files rw)) (rw_sidecars rw)). sidecar_fails x)
     \<or> \<not> set_accepts exists vi (normal_set resolve rw)"
  unfolding validateResourceSet_def set_accepts_def Let_def failed_simps file_messages_nil [symmetric]
  by blast

subsection \<open>The whole run\<close>

lemma failed_variables [failed_simps]:
  "rp_failed (checkVariables d p r) \<longleftrightarrow> rp_failed r \<or> TrimSpace d = []"
  by (simp add: checkVariables_def failed_simps)

lemma failed_regions [failed_simps]:
  "rp_failed (checkRegionsFile t g p r) \<longleftrightarrow> rp_failed r \<or> regions_messages t g \<noteq> []"
  by (simp add: checkRegionsFile_def failed_simps)

lemma failed_security [failed_simps]:
  "rp_failed (checkSecurity rl p r) \<longleftrightarrow> rp_failed r \<or> security_messages rl \<noteq> []"
  by (simp add: checkSecurity_def failed_simps)

definition observability_ok :: "string + notifications \<Rightarrow> string + alert_spec list \<Rightarrow> observability \<Rightarrow> bool" where
  "observability_ok notif alerts ob \<longleftrightarrow>
     (\<exists>n as. notif = Inr n \<and> alerts = Inr as \<and> check_notifications ob n as = [] \<and> check_alerts ob n [] as = [])"

lemma failed_observability [failed_simps]:
  "rp_failed (checkObservability notif alerts ob np ap r) \<longleftrightarrow>
     rp_failed r \<or> \<not> observability_ok notif alerts ob"
  by (auto simp: checkObservability_def observability_ok_def failed_simps split: sum.splits)

lemma failed_broken [failed_simps]:
  "rp_failed (fail_broken p l r) \<longleftrightarrow> rp_failed r \<or> (\<exists>e. l = StoreBroken e)"
  by (auto simp: fail_broken_def failed_simps split: loaded.splits)

definition slot_ok :: "project \<Rightarrow> resources \<Rightarrow> bool" where
  "slot_ok pj res \<longleftrightarrow>
     (case pj_global pj of
        None \<Rightarrow> \<not> HasAny res
      | Some g \<Rightarrow> globalNeedsDNS res \<longrightarrow>
          (\<forall>pr. map_of (pj_regions pj) (gb_placement g) = Some pr \<longrightarrow> ar_dns pr \<noteq> None))"

lemma failed_slot [failed_simps]:
  "rp_failed (checkGlobalSlot pj res r) \<longleftrightarrow> rp_failed r \<or> \<not> slot_ok pj res"
  by (auto simp: checkGlobalSlot_def slot_ok_def failed_simps split: option.splits)

lemma failed_entries [failed_simps]:
  "rp_failed (checkSecretStoreEntries st regional global p r) \<longleftrightarrow> rp_failed r \<or>
     (\<exists>store. ss_store st = Some store \<and> (\<exists>name\<in>set (map fst (st_services store)).
        secret_entry_messages (res_service regional @ res_service global) store name \<noteq> []))"
  by (auto simp: checkSecretStoreEntries_def failed_simps split: option.splits)

lemma failed_cross [failed_simps]:
  "rp_failed (checkCrossScopeNames regional global p r) \<longleftrightarrow>
     rp_failed r \<or> cross_messages regional global p \<noteq> []"
  by (simp add: checkCrossScopeNames_def failed_simps)

definition vanity_ok :: "string \<Rightarrow> resources \<Rightarrow> bool" where
  "vanity_ok d res \<longleftrightarrow> d = [] \<or> contains_str d ''${'' \<or> (\<forall>s\<in>set (res_service res). vanity_messages d s = [])"

lemma failed_vanity [failed_simps]:
  "rp_failed (checkVanityZone res p d r) \<longleftrightarrow> rp_failed r \<or> \<not> vanity_ok d res"
proof -
  have "rp_failed (fold (\<lambda>s. fail_some (p @ ''/service/'' @ svc_name s) (vanity_messages d s)) (res_service res) r)
      \<longleftrightarrow> rp_failed r \<or> (\<exists>s\<in>set (res_service res). vanity_messages d s \<noteq> [])"
    by (rule failed_fold) (simp add: failed_simps)
  then show ?thesis by (auto simp: checkVanityZone_def vanity_ok_def)
qed

definition members_ok :: "file_set \<Rightarrow> string list \<Rightarrow> pki_store option \<Rightarrow> bool" where
  "members_ok fs scopes store \<longleftrightarrow>
     (\<forall>f\<in>set (fs_service fs). sf_parse_err f = None \<longrightarrow>
        servicePKIErrors (NormalizeService (sf_spec f)) scopes store = [])
     \<and> (\<forall>f\<in>set (fs_gateway fs). sf_parse_err f = None \<longrightarrow>
        pkiMembershipErrors (gw_pki (NormalizeGateway (sf_spec f))) scopes store = [])"

lemma failed_members [failed_simps]:
  "rp_failed (checkServicePKI fs scopes store r) \<longleftrightarrow> rp_failed r \<or> \<not> members_ok fs scopes store"
proof -
  have 1: "rp_failed (fold (\<lambda>f. if sf_parse_err f \<noteq> None then id
       else report_some (sf_path f) (map MsgPki (servicePKIErrors (NormalizeService (sf_spec f)) scopes store))) xs r)
     \<longleftrightarrow> rp_failed r \<or> (\<exists>f\<in>set xs. \<not> sf_parse_err f \<noteq> None \<and>
           servicePKIErrors (NormalizeService (sf_spec f)) scopes store \<noteq> [])" for xs r
    by (rule failed_fold_id) (simp add: failed_simps)
  have 2: "rp_failed (fold (\<lambda>f. if sf_parse_err f \<noteq> None then id
       else report_some (sf_path f) (map MsgPki (pkiMembershipErrors (gw_pki (NormalizeGateway (sf_spec f))) scopes store))) xs r)
     \<longleftrightarrow> rp_failed r \<or> (\<exists>f\<in>set xs. \<not> sf_parse_err f \<noteq> None \<and>
           pkiMembershipErrors (gw_pki (NormalizeGateway (sf_spec f))) scopes store \<noteq> [])" for xs r
    by (rule failed_fold_id) (simp add: failed_simps)
  show ?thesis unfolding checkServicePKI_def Let_def 1 2 members_ok_def by blast
qed

definition providers_ok :: "file_set \<Rightarrow> region_table \<Rightarrow> provider_defaults \<Rightarrow> bool" where
  "providers_ok fs table d \<longleftrightarrow> (\<forall>n\<in>set (map fst table).
     missing_providers (collectProviderRefs fs d) (ar_providers (the (map_of table n))) = [])"

lemma failed_availability [failed_simps]:
  "rp_failed (checkProviderAvailability fs table d r) \<longleftrightarrow> rp_failed r \<or> \<not> providers_ok fs table d"
proof -
  have "rp_failed (checkProviderAvailability fs table d r) \<longleftrightarrow> rp_failed r \<or> (\<exists>n\<in>set (SortedNames table).
      missing_providers (collectProviderRefs fs d) (ar_providers (the (map_of table n))) \<noteq> [])"
    unfolding checkProviderAvailability_def by (rule failed_fold) (simp add: failed_simps)
  then show ?thesis by (auto simp: SortedNames_def providers_ok_def)
qed

definition sidecars_ok :: "raw_set \<Rightarrow> bool" where
  "sidecars_ok rw \<longleftrightarrow> (\<forall>x\<in>set (zip (fs_service (rw_files rw)) (rw_sidecars rw)). \<not> sidecar_fails x)"

definition entries_ok :: "secret_store loaded \<Rightarrow> service_spec list \<Rightarrow> bool" where
  "entries_ok secrets svcs \<longleftrightarrow>
     (case secrets of
        StoreAbsent \<Rightarrow> True
      | StoreBroken e \<Rightarrow> False
      | StoreLoaded store \<Rightarrow>
          (\<forall>name\<in>set (map fst (st_services store)). secret_entry_messages svcs store name = []))"

definition global_providers_ok :: "project \<Rightarrow> provider_defaults \<Rightarrow> bool" where
  "global_providers_ok pj d \<longleftrightarrow>
     (case pj_global pj of
        None \<Rightarrow> True
      | Some g \<Rightarrow> missing_providers (collectProviderRefs (rw_files (pj_global_set pj)) d) (gb_providers g) = [])"

text \<open>Every condition of an accepted run.\<close>

definition accepted :: "(string \<Rightarrow> bool) \<Rightarrow> (string \<Rightarrow> string \<Rightarrow> string) \<Rightarrow> provider_defaults \<Rightarrow> bool
    \<Rightarrow> project \<Rightarrow> resources \<Rightarrow> resources \<Rightarrow> bool" where
  "accepted exists resolve defaults bucket pj glob reg \<longleftrightarrow>
     loadResourceSet resolve (pj_global_set pj) = Some glob
     \<and> loadResourceSet resolve (pj_regional_set pj) = Some reg
     \<and> set_accepts exists (global_input pj defaults bucket (Some reg)) (normal_set resolve (pj_global_set pj))
     \<and> set_accepts exists (regional_input pj defaults bucket glob) (normal_set resolve (pj_regional_set pj))
     \<and> cross_messages reg glob (pj_base pj @ ''/global'') = []
     \<and> TrimSpace (pj_domain pj) \<noteq> []
     \<and> regions_messages (pj_regions pj) (pj_global pj) = []
     \<and> security_messages (pj_security pj) = []
     \<and> observability_ok (pj_notifications pj) (pj_alerts pj) (pj_obs pj)
     \<and> slot_ok pj glob
     \<and> (\<forall>e. pj_pkis pj \<noteq> StoreBroken e)
     \<and> sidecars_ok (pj_global_set pj) \<and> sidecars_ok (pj_regional_set pj)
     \<and> vanity_ok (pj_domain pj) glob \<and> vanity_ok (pj_domain pj) reg
     \<and> members_ok (rw_files (pj_global_set pj)) [ScopeGlobal] (loaded_option (pj_pkis pj))
     \<and> members_ok (rw_files (pj_regional_set pj)) (SortedNames (pj_regions pj)) (loaded_option (pj_pkis pj))
     \<and> providers_ok (rw_files (pj_regional_set pj)) (pj_regions pj) defaults
     \<and> global_providers_ok pj defaults
     \<and> entries_ok (pj_secrets pj) (res_service reg @ res_service glob)"

lemma set_accepts_parses:
  assumes "set_accepts exists vi fs"
  shows "set_parses fs"
  using assms by (simp add: set_accepts_def set_parses_def type_passes_def list_all_iff Let_def)

lemma failed_run:
  "rp_failed (run_checks exists resolve defaults bucket pj glob (Some reg)) \<longleftrightarrow>
     \<not> (set_accepts exists (global_input pj defaults bucket (Some reg)) (normal_set resolve (pj_global_set pj))
     \<and> set_accepts exists (regional_input pj defaults bucket glob) (normal_set resolve (pj_regional_set pj))
     \<and> cross_messages reg glob (pj_base pj @ ''/global'') = []
     \<and> TrimSpace (pj_domain pj) \<noteq> []
     \<and> regions_messages (pj_regions pj) (pj_global pj) = []
     \<and> security_messages (pj_security pj) = []
     \<and> observability_ok (pj_notifications pj) (pj_alerts pj) (pj_obs pj)
     \<and> slot_ok pj glob
     \<and> (\<forall>e. pj_pkis pj \<noteq> StoreBroken e)
     \<and> sidecars_ok (pj_global_set pj) \<and> sidecars_ok (pj_regional_set pj)
     \<and> vanity_ok (pj_domain pj) glob \<and> vanity_ok (pj_domain pj) reg
     \<and> members_ok (rw_files (pj_global_set pj)) [ScopeGlobal] (loaded_option (pj_pkis pj))
     \<and> members_ok (rw_files (pj_regional_set pj)) (SortedNames (pj_regions pj)) (loaded_option (pj_pkis pj))
     \<and> providers_ok (rw_files (pj_regional_set pj)) (pj_regions pj) defaults
     \<and> global_providers_ok pj defaults
     \<and> entries_ok (pj_secrets pj) (res_service reg @ res_service glob))"
proof -
  have store: "ss_store (secret_state l) = Some st \<longleftrightarrow> l = StoreLoaded st" for l st
    by (auto simp: secret_state_def split: loaded.splits)
  have entries: "entries_ok l svcs \<longleftrightarrow> \<not> (\<exists>e. l = StoreBroken e) \<and>
      \<not> (\<exists>store. l = StoreLoaded store \<and> (\<exists>name\<in>set (map fst (st_services store)).
           secret_entry_messages svcs store name \<noteq> []))" for l svcs
    by (auto simp: entries_ok_def split: loaded.splits)
  have glob: "rp_failed (case pj_global pj of None \<Rightarrow> r
      | Some g \<Rightarrow> checkGlobalProviderAvailability (rw_files (pj_global_set pj)) g defaults r)
      \<longleftrightarrow> rp_failed r \<or> \<not> global_providers_ok pj defaults" for r
    by (simp add: global_providers_ok_def checkGlobalProviderAvailability_def failed_simps split: option.splits)
  show ?thesis
    unfolding run_checks_def Let_def checkPKI_def option.case glob failed_simps sidecars_ok_def entries store
    by (simp only: reporter.simps) blast
qed

lemma ValidateResources_iff:
  "ValidateResources exists resolve defaults bucket pj = None \<longleftrightarrow>
     (\<exists>glob reg. accepted exists resolve defaults bucket pj glob reg)"
proof
  let ?reg = "loadResourceSet resolve (pj_regional_set pj)"
  assume "ValidateResources exists resolve defaults bucket pj = None"
  then obtain glob where glob: "loadResourceSet resolve (pj_global_set pj) = Some glob"
    and run: "\<not> rp_failed (run_checks exists resolve defaults bucket pj glob ?reg)"
    by (auto simp: ValidateResources_def split: option.splits if_splits)
  have "set_accepts exists (regional_input pj defaults bucket glob) (normal_set resolve (pj_regional_set pj))"
    using run by (auto simp: run_checks_def Let_def checkPKI_def checkGlobalProviderAvailability_def
        failed_simps split: option.splits)
  then have "set_parses (normal_set resolve (pj_regional_set pj))" by (rule set_accepts_parses)
  then obtain reg where reg: "?reg = Some reg" by (simp add: loadResourceSet_def Let_def)
  have "accepted exists resolve defaults bucket pj glob reg"
    using run unfolding accepted_def reg glob failed_run by simp
  then show "\<exists>glob reg. accepted exists resolve defaults bucket pj glob reg" by blast
next
  assume "\<exists>glob reg. accepted exists resolve defaults bucket pj glob reg"
  then obtain glob reg where a: "accepted exists resolve defaults bucket pj glob reg" by blast
  then have "\<not> rp_failed (run_checks exists resolve defaults bucket pj glob (Some reg))"
    unfolding failed_run accepted_def by simp
  with a show "ValidateResources exists resolve defaults bucket pj = None"
    by (simp add: ValidateResources_def accepted_def)
qed

subsection \<open>What acceptance means for each scope\<close>

lemma set_accepts_parts:
  assumes "set_accepts exists vi fs"
  shows "scope_ok vi fs"
    and "s \<in> set (parsed_specs (fs_network fs)) \<Longrightarrow> checkNetwork s (build_ctx vi fs) = []"
    and "c \<in> set (parsed_specs (fs_cluster fs)) \<Longrightarrow> checkDatabaseCluster c (build_ctx vi fs) = []"
    and "d \<in> set (parsed_specs (fs_database fs)) \<Longrightarrow> fst (checkDatabase d (build_ctx vi fs)) = []"
    and "i \<in> set (parsed_specs (fs_ingress fs)) \<Longrightarrow> checkIngress i (build_ctx vi fs) = []"
    and "x \<in> set (parsed_specs (fs_app fs)) \<Longrightarrow> checkApp x (build_ctx vi fs) = []"
    and "g \<in> set (parsed_specs (fs_gateway fs)) \<Longrightarrow> checkGateway g (build_ctx vi fs) = []"
    and "distinct (map net_name (parsed_specs (fs_network fs)))"
    and "distinct (map ing_name (parsed_specs (fs_ingress fs)))"
proof -
  note a = assms [unfolded set_accepts_def Let_def]
  from a have t: "type_passes svc_name (\<lambda>s. apfst (map MsgService) (checkService s (build_ctx vi fs))) (fs_service fs)"
    by blast
  show "scope_ok vi fs"
    using passing_specs(3) [OF t] passing_spec [OF t] by (auto simp: scope_ok_def list_all_iff service_ok_def)
  show "s \<in> set (parsed_specs (fs_network fs)) \<Longrightarrow> checkNetwork s (build_ctx vi fs) = []"
    using passing_spec [of net_name "\<lambda>s. (map MsgNetwork (checkNetwork s (build_ctx vi fs)), [])" "fs_network fs" s] a by auto
  show "c \<in> set (parsed_specs (fs_cluster fs)) \<Longrightarrow> checkDatabaseCluster c (build_ctx vi fs) = []"
    using passing_spec [of cl_name "\<lambda>s. (map MsgCluster (checkDatabaseCluster s (build_ctx vi fs)), [])" "fs_cluster fs" c] a by auto
  show "d \<in> set (parsed_specs (fs_database fs)) \<Longrightarrow> fst (checkDatabase d (build_ctx vi fs)) = []"
    using passing_spec [of db_name "\<lambda>s. apfst (map MsgDatabase) (checkDatabase s (build_ctx vi fs))" "fs_database fs" d] a by auto
  show "i \<in> set (parsed_specs (fs_ingress fs)) \<Longrightarrow> checkIngress i (build_ctx vi fs) = []"
    using passing_spec [of ing_name "\<lambda>s. (map MsgIngress (checkIngress s (build_ctx vi fs)), [])" "fs_ingress fs" i] a by auto
  show "x \<in> set (parsed_specs (fs_app fs)) \<Longrightarrow> checkApp x (build_ctx vi fs) = []"
    using passing_spec [of app_name "\<lambda>s. (map MsgApp (checkApp s (build_ctx vi fs)), [])" "fs_app fs" x] a by auto
  show "g \<in> set (parsed_specs (fs_gateway fs)) \<Longrightarrow> checkGateway g (build_ctx vi fs) = []"
    using passing_spec [of gw_name "\<lambda>s. (map MsgGateway (checkGateway s (build_ctx vi fs)), [])" "fs_gateway fs" g] a by auto
  show "distinct (map net_name (parsed_specs (fs_network fs)))"
    using a passing_specs(3) [of net_name _ "fs_network fs"] by blast
  show "distinct (map ing_name (parsed_specs (fs_ingress fs)))"
    using a passing_specs(3) [of ing_name _ "fs_ingress fs"] by blast
qed

text \<open>The two scopes of a project that the run accepts.\<close>

definition scopes_of :: "(string \<Rightarrow> string \<Rightarrow> string) \<Rightarrow> provider_defaults \<Rightarrow> bool \<Rightarrow> project
    \<Rightarrow> (validate_input \<times> file_set) list" where
  "scopes_of resolve defaults bucket pj =
     (let regional = loadResourceSet resolve (pj_regional_set pj) in
      (global_input pj defaults bucket regional, normal_set resolve (pj_global_set pj))
      # (case loadResourceSet resolve (pj_global_set pj) of
           None \<Rightarrow> []
         | Some glob \<Rightarrow> [(regional_input pj defaults bucket glob, normal_set resolve (pj_regional_set pj))]))"

lemma validated_scope:
  assumes "ValidateResources exists resolve defaults bucket pj = None"
    and "(vi, fs) \<in> set (scopes_of resolve defaults bucket pj)"
  shows "set_accepts exists vi fs"
  using assms(1) [unfolded ValidateResources_iff] assms(2)
  by (auto simp: accepted_def scopes_of_def Let_def)

lemma validated_ok:
  assumes "ValidateResources exists resolve defaults bucket pj = None"
    and "(vi, fs) \<in> set (scopes_of resolve defaults bucket pj)"
  shows "scope_ok vi fs"
  by (rule set_accepts_parts(1) [OF validated_scope [OF assms]])

lemma validated_all_parsed:
  assumes "ValidateResources exists resolve defaults bucket pj = None"
    and "(vi, fs) \<in> set (scopes_of resolve defaults bucket pj)"
  shows "parsed_specs (fs_network fs) = all_specs (fs_network fs)"
    and "\<forall>f\<in>set (fs_database fs). sf_parse_err f = None"
proof -
  have "set_parses fs" by (rule set_accepts_parses [OF validated_scope [OF assms]])
  then show "parsed_specs (fs_network fs) = all_specs (fs_network fs)"
    "\<forall>f\<in>set (fs_database fs). sf_parse_err f = None"
    by (auto simp: set_parses_def list_all_iff parsed_specs_def all_specs_def filter_id_conv cong: filter_cong)
qed

end
