(* ===== verification/ScopeFacts.thy ===== *)
theory ScopeFacts
  imports ValidateFacts
begin

text \<open>
  Consequences of acceptance that combine several checks: vault references against the secret
  store, the reserved port ranges, grants that can be materialised, names across the two scopes,
  mesh members against the PKI store and vanity names against the zone.
\<close>

subsection \<open>The store in the context\<close>

lemma store_kept:
  "cx_store (ctx_callers sib gl c) = cx_store c" "cx_store (ctx_network n c) = cx_store c"
  "cx_store (ctx_compute cp c) = cx_store c" "cx_store (ctx_cluster cl c) = cx_store c"
  "cx_store (ctx_database d c) = cx_store c" "cx_store (ctx_pki p c) = cx_store c"
  "cx_store (ctx_ingress i c) = cx_store c" "cx_store (ctx_app a c) = cx_store c"
  "cx_store (ctx_gateway g c) = cx_store c" "cx_store (ctx_service_names s c) = cx_store c"
proof -
  have inst: "cx_store (ctx_instance cp i c) = cx_store c" for i c
    by (simp add: ctx_instance_def Let_def)
  show "cx_store (ctx_callers sib gl c) = cx_store c" "cx_store (ctx_network n c) = cx_store c"
    "cx_store (ctx_compute cp c) = cx_store c" "cx_store (ctx_cluster cl c) = cx_store c"
    "cx_store (ctx_database d c) = cx_store c" "cx_store (ctx_pki p c) = cx_store c"
    "cx_store (ctx_ingress i c) = cx_store c" "cx_store (ctx_app a c) = cx_store c"
    "cx_store (ctx_gateway g c) = cx_store c" "cx_store (ctx_service_names s c) = cx_store c"
    by (simp_all add: ctx_callers_def ctx_network_def ctx_compute_def ctx_cluster_def ctx_database_def
        ctx_pki_def ctx_ingress_def ctx_app_def ctx_gateway_def ctx_service_names_def Let_def split_def
        fold_field [of cx_store] inst split: option.splits)
qed

lemma store_build: "cx_store (build_ctx vi fs) = vi_store vi"
proof -
  have "cx_store (start_ctx vi fs) = vi_store vi"
    by (simp add: start_ctx_def ctx_base_def Let_def fold_field [of cx_store] store_kept empty_ctx_def)
  then show ?thesis using ctx_le_same [OF start_build [of vi fs]] by (simp add: same_base_def)
qed

lemma scope_store:
  "(vi, fs) \<in> set (scopes_of resolve defaults bucket pj) \<Longrightarrow> vi_store vi = secret_state (pj_secrets pj)"
  by (auto simp: scopes_of_def Let_def global_input_def regional_input_def base_input_def split: option.splits)

lemma validated_store:
  assumes "ValidateResources exists resolve defaults bucket pj = None"
    and "(vi, fs) \<in> set (scopes_of resolve defaults bucket pj)" and "s \<in> set (services_of fs)"
    and "map_of (svc_env s) k = Some v" "ParseSource v = Inr (SourceVault key)"
    and "pj_secrets pj = StoreLoaded st"
  shows "store_Get st (svc_name s) key \<noteq> None"
proof (rule vault_present)
  show "service_ok (build_ctx vi fs) s" by (rule scope_okD [OF validated_ok [OF assms(1,2)] assms(3)])
  show "map_of (svc_env s) k = Some v" "ParseSource v = Inr (SourceVault key)" by fact+
qed (simp_all add: store_build scope_store [OF assms(2)] assms(6) secret_state_def)

text \<open>The other direction: an entry of the store is read by a service of one of the scopes.\<close>

lemma declared_keys_iff:
  "key \<in> set (declared_keys svcs name) \<longleftrightarrow>
     (\<exists>s\<in>set svcs. svc_name s = name \<and> (\<exists>(k, v)\<in>set (svc_env s). ParseSource v = Inr (SourceVault key)))"
proof -
  have one: "key \<in> set (case ParseSource v of Inr (SourceVault key) \<Rightarrow> [key] | _ \<Rightarrow> []) \<longleftrightarrow>
      ParseSource v = Inr (SourceVault key)" for v
    by (auto split: sum.splits source.splits)
  show ?thesis
    by (simp add: declared_keys_def one split_def) (metis (mono_tags, lifting) Int_iff mem_Collect_eq)
qed

lemma entry_declared:
  assumes "entries_ok (StoreLoaded st) svcs" and "store_Get st name key \<noteq> None"
  shows "\<exists>s\<in>set svcs. svc_name s = name \<and> (\<exists>(k, v)\<in>set (svc_env s). ParseSource v = Inr (SourceVault key))"
proof -
  obtain kvs c where kvs: "map_of (st_services st) name = Some kvs" "map_of kvs key = Some c"
    using assms(2) by (auto simp: store_Get_def nsGet_def ns_sub_def split: option.splits)
  then have "name \<in> set (map fst (st_services st))" by (force dest: map_of_SomeD)
  then have "secret_entry_messages svcs st name = []" using assms(1) by (auto simp: entries_ok_def)
  moreover have "key \<in> set (store_Keys st name)"
    using kvs map_of_SomeD [OF kvs(2)] by (force simp: store_Keys_def nsKeys_def ns_sub_def)
  ultimately have "key \<in> set (declared_keys svcs name)"
    by (auto simp: secret_entry_messages_def concat_guard_nil simp del: concat_eq_Nil_conv split: if_splits)
  then show ?thesis by (simp add: declared_keys_iff)
qed

subsection \<open>Reserved ports\<close>

lemma egress_clear:
  assumes "scope_ok vi fs" "s \<in> set (services_of fs)" "p \<in> set (tcp_binds s)"
  shows "\<not> InReservedEgressRange p"
  using bind_facts(1) [OF scope_okD [OF assms(1,2)] assms(3)] by (simp add: bind_clear_def)

subsection \<open>Grants\<close>

lemma database_outputs:
  assumes "service_ok ctx s" "g \<in> set (svc_grants s)" "(n, tmpl) \<in> set (gr_outputs g)"
    and "cut_at CHR ''/'' (gr_resource g) = Some (''database'', name)"
    and "Database_Grant prov role (gr_permission g) = Inr vals"
  shows "\<exists>t r. ParseTemplate tmpl = Inr t \<and> Interpolate t (map_of vals) = Inr r"
proof (rule template_ok_interpolates)
  show "template_ok Database (gr_permission g) tmpl"
    by (rule grant_template [OF assms(1-4)]) (simp add: grant_For_def)
  have "map fst vals = fst (FieldNames Database (gr_permission g))"
    using Database_Grant_fields [OF assms(5)] by blast
  then have "dom (map_of vals) = set (fst (FieldNames Database (gr_permission g)))"
    by (metis dom_map_of_conv_image_fst set_map)
  moreover have "snd (FieldNames Database (gr_permission g)) = []" by (simp add: FieldNames_def)
  ultimately show "set (fst (FieldNames Database (gr_permission g))) \<union> set (snd (FieldNames Database (gr_permission g)))
      \<subseteq> dom (map_of vals)" by simp
qed

subsection \<open>Names across the scopes\<close>

lemma cross_messages_nil:
  "cross_messages reg glob p = [] \<longleftrightarrow>
     svc_name ` set (res_service glob) \<inter> svc_name ` set (res_service reg) = {}
     \<and> app_name ` set (res_app glob) \<inter> app_name ` set (res_app reg) = {}"
  unfolding cross_messages_def append_is_Nil_conv concat_guard_nil by blast

subsection \<open>Mesh members and vanity names\<close>

lemma member_bundle:
  assumes "members_ok fs scopes (Some st)" and "f \<in> set (fs_service fs)" "sf_parse_err f = None"
    and "svc_pki (NormalizeService (sf_spec f)) = name" "name \<noteq> []"
    and "pki_Get st name = Some p" "r \<in> set (RootCerts p)" "TrimSpace r \<noteq> []"
  shows "is_ok (TrustBundle st name scopes)"
proof (rule membership_bundle)
  show "pkiMembershipErrors name scopes (Some st) = []"
    using assms(1-4) by (auto simp: members_ok_def servicePKIErrors_def)
qed (use assms in auto)

lemma vanity_messages_nil:
  "vanity_messages d s = [] \<longleftrightarrow>
     (\<forall>rt\<in>set (svc_routes s). \<forall>v\<in>set (rt_vanity rt). InZone (ExpandVanity v ''env'' ''slug'' d) d)"
  by (auto simp: vanity_messages_def Let_def split: if_splits)

lemma missing_providers_nil:
  "missing_providers refs ps = [] \<longleftrightarrow> (\<forall>ref\<in>set refs. availableProviders ps (snd ref))"
  unfolding missing_providers_def concat_guard_nil by blast

text \<open>Names within a scope.\<close>

lemma type_passes_names: "type_passes name semantic files \<Longrightarrow> distinct (map name (all_specs files))"
  by (simp add: type_passes_def)

lemma set_accepts_names:
  assumes "set_accepts exists vi fs"
  shows "distinct (map svc_name (all_specs (fs_service fs)))"
    and "distinct (map app_name (all_specs (fs_app fs)))"
proof -
  note a = assms [unfolded set_accepts_def Let_def]
  show "distinct (map svc_name (all_specs (fs_service fs)))"
    using a by (elim conjE) (erule type_passes_names)
  show "distinct (map app_name (all_specs (fs_app fs)))"
    using a by (elim conjE) (erule type_passes_names)
qed

lemma distinct_const_length:
  assumes "distinct (map f xs)" and "\<And>x y. x \<in> set xs \<Longrightarrow> y \<in> set xs \<Longrightarrow> f x = f y"
  shows "length xs \<le> 1"
proof (rule ccontr)
  assume "\<not> length xs \<le> 1"
  then obtain x y ys where "xs = x # y # ys" by (cases xs rule: remdups_adj.cases) simp_all
  then show False using assms by simp
qed

lemma loaded_specs:
  "loadResourceSet resolve rw = Some res \<Longrightarrow> res = specs_of (normal_set resolve rw)"
  by (simp add: loadResourceSet_def Let_def split: if_splits)

end
