(* ===== verification/Example.thy ===== *)
theory Example
  imports ValidateFacts
begin

text \<open>
  A small environment on which the properties of the validator are evaluated: one network, one
  compute, one self-hosted cluster with a database, an ingress, an app, a gateway and two services
  of one mesh.  The lemmas run the validator on it and end in \<open>ex_accepted\<close>.
\<close>

subsection \<open>The specs\<close>

definition ex_network :: network_spec where
  "ex_network = \<lparr>net_name = ''lan'',
     net_container = ''core'',
     net_provider = [],
     net_cidr = ''10.0.0.0/16'',
     net_subnets = [\<lparr>sub_name = ''apps'', sub_cidr = ''10.0.1.0/24''\<rparr>]\<rparr>"

definition ex_network2 :: network_spec where
  "ex_network2 = \<lparr>net_name = ''data'',
     net_container = ''core2'',
     net_provider = [],
     net_cidr = ''10.1.0.0/16'',
     net_subnets = [\<lparr>sub_name = ''db'', sub_cidr = ''10.1.2.0/24''\<rparr>]\<rparr>"

definition ex_compute :: compute_spec where
  "ex_compute = \<lparr>cmp_name = ''web'',
     cmp_kind = ''vm'',
     cmp_container = ''core'',
     cmp_provider = [],
     cmp_network = ''lan'',
     cmp_subnet = ''apps'',
     cmp_size = ''SMALL'',
     cmp_image = ''debian'',
     cmp_cloud_init = [],
     cmp_instances = 1,
     cmp_firewall = None,
     cmp_deploy_user = Some \<lparr>du_name = ''deploy''\<rparr>\<rparr>"

definition ex_cluster :: cluster_spec where
  "ex_cluster = \<lparr>cl_name = ''pg'',
     cl_container = ''core'',
     cl_engine = ''postgres'',
     cl_host = ''web'',
     cl_provider = [],
     cl_version = ''17''\<rparr>"

definition ex_database :: database_spec where
  "ex_database = \<lparr>db_name = ''orders'',
     db_container = ''core'',
     db_cluster = ''pg'',
     db_database = ''orders'',
     db_owner = ''owner'',
     db_size_gb = 5,
     db_backup = \<lparr>bk_enabled = Some True, bk_interval = ''24h'', bk_keep = 7\<rparr>,
     db_metrics = None\<rparr>"

definition ex_database2 :: database_spec where
  "ex_database2 = \<lparr>db_name = ''audit'',
     db_container = ''core'',
     db_cluster = ''pg'',
     db_database = ''audit'',
     db_owner = ''owner'',
     db_size_gb = 5,
     db_backup = \<lparr>bk_enabled = Some True, bk_interval = ''24h'', bk_keep = 7\<rparr>,
     db_metrics = None\<rparr>"

definition ex_ingress :: ingress_spec where
  "ex_ingress = \<lparr>ing_name = ''edge'',
     ing_container = ''core'',
     ing_host = ''web'',
     ing_health_port = 81,
     ing_security = None\<rparr>"

definition ex_app :: app_spec where
  "ex_app = \<lparr>app_name = ''site'',
     app_container = ''core'',
     app_ingress = ''edge'',
     app_subdomain = ''www'',
     app_spa = True\<rparr>"

definition ex_gateway :: gateway_spec where
  "ex_gateway = \<lparr>gw_name = ''front'',
     gw_container = ''core'',
     gw_host = ''web'',
     gw_ingress = ''edge'',
     gw_pki = ''mesh'',
     gw_subdomain = ''gw'',
     gw_services = [''api'', ''worker''],
     gw_health_port = 81,
     gw_health_paths = [''/healthz''],
     gw_security = None\<rparr>"

definition ex_api :: service_spec where
  "ex_api = \<lparr>svc_name = ''api'',
     svc_container = ''core'',
     svc_host = ''web'',
     svc_type = ''raw'',
     svc_user = ''svc'',
     svc_pki = ''mesh'',
     svc_mtls_files = False,
     svc_reload = [],
     svc_ingress = ''edge'',
     svc_routes = [\<lparr>rt_type = ''forward'', rt_listen = 9443, rt_target = 9000, rt_vanity = []\<rparr>,
      \<lparr>rt_type = ''tls-termination'', rt_listen = 443, rt_target = 9003, rt_vanity = [''shop'']\<rparr>],
     svc_health_port = 9001,
     svc_health_paths = [''/live''],
     svc_exposed = [\<lparr>ep_proto = ''udp'', ep_port = 5353\<rparr>],
     svc_mesh = Some \<lparr>mesh_port = 9002, mesh_allowed = [''worker'', ''gateway''],
       mesh_public = [''/api/**''], mesh_internal = [''/admin/*'']\<rparr>,
     svc_grants = [\<lparr>gr_resource = ''database/orders'', gr_permission = ''rw'',
       gr_outputs = [(''DB_URL'', ''pg://{USER}:{HOST}'')]\<rparr>],
     svc_env = [(''API_TOKEN'', ''vault:TOKEN''), (''LOG'', ''info'')]\<rparr>"

definition ex_worker :: service_spec where
  "ex_worker = \<lparr>svc_name = ''worker'',
     svc_container = ''core'',
     svc_host = ''web'',
     svc_type = ''raw'',
     svc_user = ''wrk'',
     svc_pki = ''mesh'',
     svc_mtls_files = False,
     svc_reload = [],
     svc_ingress = ''edge'',
     svc_routes = [\<lparr>rt_type = ''forward'', rt_listen = 9444, rt_target = 9102, rt_vanity = []\<rparr>],
     svc_health_port = 0,
     svc_health_paths = [],
     svc_exposed = [\<lparr>ep_proto = ''tcp'', ep_port = 9100\<rparr>, \<lparr>ep_proto = ''udp'', ep_port = 5354\<rparr>],
     svc_mesh = Some \<lparr>mesh_port = 9101, mesh_allowed = [''api'', ''gateway''],
       mesh_public = [''/jobs/*''], mesh_internal = []\<rparr>,
     svc_grants = [],
     svc_env = []\<rparr>"

definition ex_file :: "string \<Rightarrow> 'a \<Rightarrow> 'a src_file" where
  "ex_file path s = \<lparr>sf_path = path @ ''/manifest.yaml'', sf_parse_err = None, sf_schema_errs = [], sf_spec = s\<rparr>"

text \<open>The files as read: the environment of a service comes from its sidecar.\<close>

definition ex_raw :: raw_set where
  "ex_raw = \<lparr>rw_files =
     \<lparr>fs_network = [ex_file ''n/lan'' ex_network, ex_file ''n/data'' ex_network2], fs_compute = [ex_file ''c/web'' (ex_compute\<lparr>cmp_kind := [], cmp_instances := 0\<rparr>)],
      fs_cluster = [ex_file ''l/pg'' ex_cluster], fs_database = [ex_file ''d/orders'' ex_database, ex_file ''d/audit'' ex_database2],
      fs_service = [ex_file ''s/api'' (ex_api\<lparr>svc_env := []\<rparr>), ex_file ''s/worker'' (ex_worker\<lparr>svc_type := []\<rparr>)],
      fs_pki = [], fs_ingress = [ex_file ''i/edge'' (ex_ingress\<lparr>ing_health_port := 0\<rparr>)],
      fs_app = [ex_file ''a/site'' ex_app], fs_gateway = [ex_file ''g/front'' ex_gateway]\<rparr>,
    rw_sidecars =
     [\<lparr>sc_path = ''s/api/environment.yaml'', sc_present = True,
       sc_load = Inr (Some [(''API_TOKEN'', ''vault:TOKEN''), (''LOG'', ''info'')]), sc_schema_errs = []\<rparr>,
      \<lparr>sc_path = ''s/worker/environment.yaml'', sc_present = False, sc_load = Inr None, sc_schema_errs = []\<rparr>]\<rparr>"

definition ex_fs :: file_set where
  "ex_fs =
     \<lparr>fs_network = [ex_file ''n/lan'' ex_network, ex_file ''n/data'' ex_network2], fs_compute = [ex_file ''c/web'' ex_compute],
      fs_cluster = [ex_file ''l/pg'' ex_cluster], fs_database = [ex_file ''d/orders'' ex_database, ex_file ''d/audit'' ex_database2],
      fs_service = [ex_file ''s/api'' ex_api, ex_file ''s/worker'' ex_worker],
      fs_pki = [], fs_ingress = [ex_file ''i/edge'' ex_ingress],
      fs_app = [ex_file ''a/site'' ex_app], fs_gateway = [ex_file ''g/front'' ex_gateway]\<rparr>"

definition ex_no_raw :: raw_set where
  "ex_no_raw = \<lparr>rw_files = \<lparr>fs_network = [], fs_compute = [], fs_cluster = [], fs_database = [],
     fs_service = [], fs_pki = [], fs_ingress = [], fs_app = [], fs_gateway = []\<rparr>, rw_sidecars = []\<rparr>"

definition ex_pkis :: pki_store where
  "ex_pkis = \<lparr>ps_root_recipient = ''age2'', ps_recipient = ''age3'',
     ps_pkis = [(''mesh'', \<lparr>pki_topology = ''two-tier'', pki_scope = [],
       pki_root = \<lparr>mat_cert = ''R'', mat_key = ''K''\<rparr>, pki_previous_roots = [],
       pki_intermediates = [(''us-east-1'', \<lparr>mat_cert = ''I'', mat_key = ''J''\<rparr>)],
       pki_previous_intermediates = []\<rparr>)]\<rparr>"

definition ex_secrets :: secret_store where
  "ex_secrets = \<lparr>st_recipient = ''age1'', st_services = [(''api'', [(''TOKEN'', ''cipher'')])],
     st_reserved = [], st_containers = []\<rparr>"

definition ex_project :: project where
  "ex_project =
     \<lparr>pj_regions = [(''us-east-1'', \<lparr>ar_slug = ''use1'',
         ar_dns = Some \<lparr>dns_provider = ''cloudflare'', dns_zone = ''z1''\<rparr>,
         ar_providers = [(''hetzner'', [(''token'', ''t'')])]\<rparr>)],
      pj_global = None, pj_sizes = [''SMALL''], pj_domain = ''example.com'',
      pj_security = \<lparr>rl_enabled = False, rl_rps = 0, rl_burst = 0, rl_maxconn = 0\<rparr>,
      pj_obs = \<lparr>ob_grafana = [], ob_alerts = None, ob_profile = []\<rparr>,
      pj_notifications = Inr \<lparr>nt_points = [], nt_profiles = []\<rparr>, pj_alerts = Inr [],
      pj_regional_set = ex_raw, pj_global_set = ex_no_raw,
      pj_secrets = StoreLoaded ex_secrets, pj_pkis = StoreLoaded ex_pkis, pj_base = ''resources/prod''\<rparr>"

definition ex_defaults :: provider_defaults where
  "ex_defaults = \<lparr>pd_compute = ''hetzner'', pd_database = Map.empty\<rparr>"

definition ex_resolve :: "string \<Rightarrow> string \<Rightarrow> string" where
  "ex_resolve folder path = folder @ ''/'' @ path"

definition ex_vi :: validate_input where
  "ex_vi = \<lparr>vi_available = None, vi_sizes = [''SMALL''],
     vi_global = Some \<lparr>gl_databases = [], gl_computeKind = [], gl_pkiTopology = [], gl_meshServices = []\<rparr>,
     vi_siblings = [], vi_store = \<lparr>ss_store = Some ex_secrets, ss_unreadable = False\<rparr>,
     vi_pkis = Some ex_pkis, vi_defaults = ex_defaults, vi_bucket = True\<rparr>"

named_theorems ex_sel \<open>the fields of the example specs\<close>

lemma ex_network_sel [ex_sel]:
  "net_name ex_network = ''lan''"
  "net_container ex_network = ''core''"
  "net_provider ex_network = []"
  "net_cidr ex_network = ''10.0.0.0/16''"
  "net_subnets ex_network = [\<lparr>sub_name = ''apps'', sub_cidr = ''10.0.1.0/24''\<rparr>]"
  by (simp_all add: ex_network_def)

lemma ex_network2_sel [ex_sel]:
  "net_name ex_network2 = ''data''"
  "net_container ex_network2 = ''core2''"
  "net_provider ex_network2 = []"
  "net_cidr ex_network2 = ''10.1.0.0/16''"
  "net_subnets ex_network2 = [\<lparr>sub_name = ''db'', sub_cidr = ''10.1.2.0/24''\<rparr>]"
  by (simp_all add: ex_network2_def)

lemma ex_compute_sel [ex_sel]:
  "cmp_name ex_compute = ''web''"
  "cmp_kind ex_compute = ''vm''"
  "cmp_container ex_compute = ''core''"
  "cmp_provider ex_compute = []"
  "cmp_network ex_compute = ''lan''"
  "cmp_subnet ex_compute = ''apps''"
  "cmp_size ex_compute = ''SMALL''"
  "cmp_image ex_compute = ''debian''"
  "cmp_cloud_init ex_compute = []"
  "cmp_instances ex_compute = 1"
  "cmp_firewall ex_compute = None"
  "cmp_deploy_user ex_compute = Some \<lparr>du_name = ''deploy''\<rparr>"
  by (simp_all add: ex_compute_def)

lemma ex_cluster_sel [ex_sel]:
  "cl_name ex_cluster = ''pg''"
  "cl_container ex_cluster = ''core''"
  "cl_engine ex_cluster = ''postgres''"
  "cl_host ex_cluster = ''web''"
  "cl_provider ex_cluster = []"
  "cl_version ex_cluster = ''17''"
  by (simp_all add: ex_cluster_def)

lemma ex_database_sel [ex_sel]:
  "db_name ex_database = ''orders''"
  "db_container ex_database = ''core''"
  "db_cluster ex_database = ''pg''"
  "db_database ex_database = ''orders''"
  "db_owner ex_database = ''owner''"
  "db_size_gb ex_database = 5"
  "db_backup ex_database = \<lparr>bk_enabled = Some True, bk_interval = ''24h'', bk_keep = 7\<rparr>"
  "db_metrics ex_database = None"
  by (simp_all add: ex_database_def)

lemma ex_database2_sel [ex_sel]:
  "db_name ex_database2 = ''audit''"
  "db_container ex_database2 = ''core''"
  "db_cluster ex_database2 = ''pg''"
  "db_database ex_database2 = ''audit''"
  "db_owner ex_database2 = ''owner''"
  "db_size_gb ex_database2 = 5"
  "db_backup ex_database2 = \<lparr>bk_enabled = Some True, bk_interval = ''24h'', bk_keep = 7\<rparr>"
  "db_metrics ex_database2 = None"
  by (simp_all add: ex_database2_def)

lemma ex_ingress_sel [ex_sel]:
  "ing_name ex_ingress = ''edge''"
  "ing_container ex_ingress = ''core''"
  "ing_host ex_ingress = ''web''"
  "ing_health_port ex_ingress = 81"
  "ing_security ex_ingress = None"
  by (simp_all add: ex_ingress_def)

lemma ex_app_sel [ex_sel]:
  "app_name ex_app = ''site''"
  "app_container ex_app = ''core''"
  "app_ingress ex_app = ''edge''"
  "app_subdomain ex_app = ''www''"
  "app_spa ex_app = True"
  by (simp_all add: ex_app_def)

lemma ex_gateway_sel [ex_sel]:
  "gw_name ex_gateway = ''front''"
  "gw_container ex_gateway = ''core''"
  "gw_host ex_gateway = ''web''"
  "gw_ingress ex_gateway = ''edge''"
  "gw_pki ex_gateway = ''mesh''"
  "gw_subdomain ex_gateway = ''gw''"
  "gw_services ex_gateway = [''api'', ''worker'']"
  "gw_health_port ex_gateway = 81"
  "gw_health_paths ex_gateway = [''/healthz'']"
  "gw_security ex_gateway = None"
  by (simp_all add: ex_gateway_def)

lemma ex_api_sel [ex_sel]:
  "svc_name ex_api = ''api''"
  "svc_container ex_api = ''core''"
  "svc_host ex_api = ''web''"
  "svc_type ex_api = ''raw''"
  "svc_user ex_api = ''svc''"
  "svc_pki ex_api = ''mesh''"
  "svc_mtls_files ex_api = False"
  "svc_reload ex_api = []"
  "svc_ingress ex_api = ''edge''"
  "svc_routes ex_api = [\<lparr>rt_type = ''forward'', rt_listen = 9443, rt_target = 9000, rt_vanity = []\<rparr>,
      \<lparr>rt_type = ''tls-termination'', rt_listen = 443, rt_target = 9003, rt_vanity = [''shop'']\<rparr>]"
  "svc_health_port ex_api = 9001"
  "svc_health_paths ex_api = [''/live'']"
  "svc_exposed ex_api = [\<lparr>ep_proto = ''udp'', ep_port = 5353\<rparr>]"
  "svc_mesh ex_api = Some \<lparr>mesh_port = 9002, mesh_allowed = [''worker'', ''gateway''],
       mesh_public = [''/api/**''], mesh_internal = [''/admin/*'']\<rparr>"
  "svc_grants ex_api = [\<lparr>gr_resource = ''database/orders'', gr_permission = ''rw'',
       gr_outputs = [(''DB_URL'', ''pg://{USER}:{HOST}'')]\<rparr>]"
  "svc_env ex_api = [(''API_TOKEN'', ''vault:TOKEN''), (''LOG'', ''info'')]"
  by (simp_all add: ex_api_def)

lemma ex_worker_sel [ex_sel]:
  "svc_name ex_worker = ''worker''"
  "svc_container ex_worker = ''core''"
  "svc_host ex_worker = ''web''"
  "svc_type ex_worker = ''raw''"
  "svc_user ex_worker = ''wrk''"
  "svc_pki ex_worker = ''mesh''"
  "svc_mtls_files ex_worker = False"
  "svc_reload ex_worker = []"
  "svc_ingress ex_worker = ''edge''"
  "svc_routes ex_worker = [\<lparr>rt_type = ''forward'', rt_listen = 9444, rt_target = 9102, rt_vanity = []\<rparr>]"
  "svc_health_port ex_worker = 0"
  "svc_health_paths ex_worker = []"
  "svc_exposed ex_worker = [\<lparr>ep_proto = ''tcp'', ep_port = 9100\<rparr>, \<lparr>ep_proto = ''udp'', ep_port = 5354\<rparr>]"
  "svc_mesh ex_worker = Some \<lparr>mesh_port = 9101, mesh_allowed = [''api'', ''gateway''],
       mesh_public = [''/jobs/*''], mesh_internal = []\<rparr>"
  "svc_grants ex_worker = []"
  "svc_env ex_worker = []"
  by (simp_all add: ex_worker_def)

subsection \<open>The context\<close>

definition ex_ctx :: region_ctx where
  "ex_ctx =
     \<lparr>cx_available = None, cx_sizes = [''SMALL''],
      cx_networks = [(''lan'', ex_network), (''data'', ex_network2)],
      cx_computeKind = [''web-01'' \<mapsto> ''vm'', ''web'' \<mapsto> ''vm''],
      cx_canonical = [''web-01'' \<mapsto> ''web-01'', ''web'' \<mapsto> ''web-01''],
      cx_instances = (\<lambda>_. 0)(''web-01'' := 1, ''web'' := 1),
      cx_deployer = (\<lambda>_. False)(''web-01'' := True),
      cx_computeNames = (\<lambda>_. False)(''web'' := True),
      cx_computeNetwork =
        (\<lambda>_. [])(''web-01'' := ''lan'', ''web'' := ''lan''),
      cx_databaseNames =
        (\<lambda>_. False)(''orders'' := True, ''audit'' := True),
      cx_dbPhysical =
        (\<lambda>_. 0)
        (physical_key ''pg'' ''orders'' := Suc 0,
           physical_key ''pg'' ''audit'' := Suc 0),
      cx_backupsBucket = True,
      cx_clusterNames = (\<lambda>_. False)(''pg'' := True),
      cx_clusterHosts = (\<lambda>_. False)(''web-01'' := True),
      cx_clusterHostByName = (\<lambda>_. [])(''pg'' := ''web-01''),
      cx_dbCluster = (\<lambda>_. [])(''orders'' := ''pg'', ''audit'' := ''pg''),
      cx_ingressNames = [''edge''],
      cx_ingressHost = [''edge'' \<mapsto> ''web-01''],
      cx_appSubdomains = (\<lambda>_. 0)(''www'' := Suc 0),
      cx_pkiResources = \<lambda>x. None,
      cx_pkiGenerated = pkiGeneratedNames (Some ex_pkis),
      cx_portUsers =
        (\<lambda>_ _. [])
        (''web-01'' :=
           (\<lambda>_. [])
           (9443 := [''api''], 443 := [''api''], 9444 := [''worker''])),
      cx_nginxBinds =
        (\<lambda>_ x. None)
        (''web-01'' :=
           [443 \<mapsto> ''app TLS listener'',
            8442 \<mapsto> ''gateway routing listener'',
            80 \<mapsto> ''ACME HTTP-01 challenge/redirect'',
            81 \<mapsto> ''public health listener'']),
      cx_meshHosts = (\<lambda>_. False)(''web-01'' := True),
      cx_forwardUsers =
        (\<lambda>_ _. [])
        (''web-01'' := (\<lambda>_. [])(9443 := [''api''], 9444 := [''worker''])),
      cx_ingressHealth = (\<lambda>_. 0)(''edge'' := 81),
      cx_ingressNamesByHost = (\<lambda>_. [])(''web-01'' := [''edge'']),
      cx_targetUsers =
        (\<lambda>_ _. [])
        (''web-01'' :=
           (\<lambda>_. [])
           (9002 := [''api''], 9101 := [''worker''], 9001 := [''api''],
              9000 := [''api''], 9003 := [''api''], 9102 := [''worker''],
              9100 := [''worker''])),
      cx_udpUsers =
        (\<lambda>_ _. [])
        (''web-01'' := (\<lambda>_. [])(5353 := [''api''], 5354 := [''worker''])),
      cx_tlsTerm = [''web-01''], cx_gatewayCount = Suc 0,
      cx_allowsGateway = (\<lambda>_. False)(''api'' := True, ''worker'' := True),
      cx_publicPaths =
        (\<lambda>_. [])(''api'' := [''/api/**''], ''worker'' := [''/jobs/*'']),
      cx_gatewayTargets = (\<lambda>_. False)(''api'' := True, ''worker'' := True),
      cx_gatewayHost = ''web-01'', cx_gatewayIngressHost = ''web-01'',
      cx_gatewayHealth = 81,
      cx_servicePki =
        (\<lambda>_. [])(''api'' := ''mesh'', ''worker'' := ''mesh''),
      cx_serviceHost = (\<lambda>_. [])(''api'' := ''web'', ''worker'' := ''web''),
      cx_serviceNames = (\<lambda>_. False)(''api'' := True, ''worker'' := True),
      cx_meshServices = (\<lambda>_. False)(''api'' := True, ''worker'' := True),
      cx_callerCandidates = \<lambda>_. False, cx_forbiddenCallers = \<lambda>_. False,
      cx_callerPki = \<lambda>_. [],
      cx_store = \<lparr>ss_store = Some ex_secrets, ss_unreadable = False\<rparr>,
      cx_defaults = ex_defaults\<rparr>"

lemma ex_key: "SpecKey ''web'' 1 = ''web-01''" by code_simp
lemma ex_canon: "CanonicalComputeKeys [ex_compute] = [''web-01'' \<mapsto> ''web-01'', ''web'' \<mapsto> ''web-01'']"
  by (simp add: CanonicalComputeKeys_def ex_sel ex_key)
lemma ex_specs: "all_specs [] = []" "all_specs (ex_file p x # xs) = x # all_specs xs" 
   "parsed_specs [] = []" "parsed_specs (ex_file p x # xs) = x # parsed_specs xs" "sf_spec (ex_file p x) = x" "sf_parse_err (ex_file p x) = None"
  by (simp_all add: all_specs_def parsed_specs_def ex_file_def)
lemma ex_files: "fs_network ex_fs = [ex_file ''n/lan'' ex_network, ex_file ''n/data'' ex_network2]" "fs_compute ex_fs = [ex_file ''c/web'' ex_compute]"
      "fs_cluster ex_fs = [ex_file ''l/pg'' ex_cluster]" "fs_database ex_fs = [ex_file ''d/orders'' ex_database, ex_file ''d/audit'' ex_database2]"
      "fs_service ex_fs = [ex_file ''s/api'' ex_api, ex_file ''s/worker'' ex_worker]"
      "fs_pki ex_fs = []" "fs_ingress ex_fs = [ex_file ''i/edge'' ex_ingress]"
      "fs_app ex_fs = [ex_file ''a/site'' ex_app]" "fs_gateway ex_fs = [ex_file ''g/front'' ex_gateway]"
  by (simp_all add: ex_fs_def)

lemma ex_physical: "physical_key ''pg'' ''audit'' \<noteq> physical_key ''pg'' ''orders''"
  by (simp add: physical_key_def)

text \<open>One pass at a time, in the order of \<open>build_ctx\<close>.\<close>

lemma ex_ctx: "build_ctx ex_vi ex_fs = ex_ctx"
  apply (simp add: build_ctx_def ctx_callers_def empty_ctx_def ex_vi_def ex_files Let_def)
  apply (simp add: ctx_base_def ex_files ex_specs ex_canon Let_def)
  apply (simp add: ctx_network_def ex_sel)
  apply (simp add: ctx_compute_def ctx_instance_def ex_key ex_sel set_true_def Let_def)
  apply (simp add: ctx_cluster_def canonicalHost_def str_at_def ex_sel set_true_def Let_def)
  apply (simp add: ctx_database_def ex_specs ex_sel ex_physical ex_physical [symmetric] set_true_def Let_def)
  apply (simp add: ctx_ingress_def ingress_health_port_def canonicalHost_def str_at_def ex_sel set_true_def Let_def)
  apply (simp add: ctx_app_def ex_sel set_true_def Let_def)
  apply (simp add: ctx_gateway_def gateway_health_port_def canonicalHost_def str_at_def ex_sel set_true_def Let_def)
  apply (simp add: ctx_service_names_def ex_sel set_true_def Let_def)
  apply (simp add: ctx_binds_def ex_files ex_specs Let_def)
  apply (simp add: ctx_mesh_def gatewayCallerName_def canonicalHost_def str_at_def add_user_def ex_sel set_true_def Let_def)
  apply (simp add: ctx_routes_def ctx_route_def IngressTypeForward_def IngressTypeTLSTermination_def canonicalHost_def str_at_def add_user_def ex_sel Let_def)
  apply (simp add: ctx_exposed_def ctx_exposed_port_def canonicalHost_def str_at_def add_user_def ex_sel Let_def)
  apply (simp add: ctx_nginx_def ex_files ex_specs Let_def)
  apply (simp add: ctx_app_tls_def addNginxBind_def str_at_def ex_sel Let_def)
  apply (simp add: ctx_gateway_binds_def addNginxBind_def GatewayHTTPPort_def LoopbackBase_def MaxMixedPorts_def Let_def)
  apply (simp add: ctx_acme_def addNginxBind_def Let_def)
  apply (simp add: ctx_health_bind_def addNginxBind_def bindReasonHealth_def canonicalHost_def str_at_def ex_sel set_true_def Let_def)
  apply (simp add: ctx_gateway_mesh_def set_true_def ctx_global_def ex_ctx_def)
  done

subsection \<open>Normalisation\<close>

lemmas ex_trim = TrimSpace_graphic graphic_def trimAll_def

lemma ex_normal_specs:
  "NormalizeCompute (ex_resolve f) (ex_compute\<lparr>cmp_kind := [], cmp_instances := 0\<rparr>) = ex_compute"
  "NormalizeDatabaseCluster ex_cluster = ex_cluster" "NormalizeDatabase ex_database = ex_database" "NormalizeDatabase ex_database2 = ex_database2"
  "NormalizeIngress (ex_ingress\<lparr>ing_health_port := 0\<rparr>) = ex_ingress" "NormalizeApp ex_app = ex_app"
  "NormalizeGateway ex_gateway = ex_gateway"
  "NormalizeService (ex_api\<lparr>svc_env := [(''API_TOKEN'', ''vault:TOKEN''), (''LOG'', ''info'')]\<rparr>) = ex_api"
  "NormalizeService (ex_worker\<lparr>svc_type := [], svc_env := []\<rparr>) = ex_worker"
  by (simp_all add: NormalizeCompute_def NormalizeDatabaseCluster_def NormalizeDatabase_def NormalizeIngress_def
      NormalizeApp_def NormalizeGateway_def NormalizeService_def ex_compute_def ex_cluster_def ex_database_def ex_database2_def
      ex_ingress_def ex_app_def ex_gateway_def ex_api_def ex_worker_def ingress_health_port_def
      gateway_health_port_def DefaultHealthProbesPort_def ex_trim)

lemma ex_map:
  "map_spec f (ex_file p x) = ex_file p (f x)" "map_parsed f (ex_file p x) = ex_file p (f x)"
  by (simp_all add: map_spec_def map_parsed_def ex_file_def)

lemma ex_normal: "normal_set ex_resolve ex_raw = ex_fs" "normal_set ex_resolve ex_no_raw = rw_files ex_no_raw"
  by (simp_all add: normal_set_def ex_raw_def ex_no_raw_def ex_fs_def with_env_def Let_def ex_map ex_specs
      ex_normal_specs)

subsection \<open>The checks\<close>

lemma ex_check_network: "checkNetwork ex_network ex_ctx = []" by code_simp

lemma ex_check_network2: "checkNetwork ex_network2 ex_ctx = []" by code_simp

lemma ex_check_compute: "fst (checkCompute (\<lambda>_. True) ex_compute ex_ctx) = []" by code_simp

lemma ex_check_cluster: "checkDatabaseCluster ex_cluster ex_ctx = []" by code_simp

lemma ex_check_database: "fst (checkDatabase ex_database ex_ctx) = []" by code_simp

lemma ex_check_database2: "fst (checkDatabase ex_database2 ex_ctx) = []" by code_simp

lemma ex_check_api: "fst (checkService ex_api ex_ctx) = []" by code_simp

lemma ex_check_worker: "fst (checkService ex_worker ex_ctx) = []" by code_simp

lemma ex_check_ingress: "checkIngress ex_ingress ex_ctx = []" by code_simp

lemma ex_check_app: "checkApp ex_app ex_ctx = []" by code_simp

lemma ex_check_gateway: "checkGateway ex_gateway ex_ctx = []" by code_simp

lemmas ex_checks = ex_check_network ex_check_network2 ex_check_compute ex_check_cluster ex_check_database ex_check_database2 ex_check_api
  ex_check_worker ex_check_ingress ex_check_app ex_check_gateway

lemma ex_type_passes:
  "type_passes name semantic []"
  "type_passes name semantic [ex_file p x] \<longleftrightarrow> fst (semantic x) = []"
  "type_passes name semantic [ex_file p x, ex_file q y] \<longleftrightarrow>
     fst (semantic x) = [] \<and> fst (semantic y) = [] \<and> name x \<noteq> name y"
  by (auto simp: type_passes_def ex_file_def all_specs_def)

lemma ex_set_accepts: "set_accepts (\<lambda>_. True) ex_vi ex_fs"
  by (simp add: set_accepts_def ex_ctx ex_files ex_type_passes ex_checks ex_sel)

lemma ex_empty_accepts: "set_accepts exists vi (rw_files ex_no_raw)"
  by (simp add: set_accepts_def ex_no_raw_def ex_type_passes)

lemma ex_loads:
  "loadResourceSet ex_resolve ex_raw = Some (specs_of ex_fs)"
  "loadResourceSet ex_resolve ex_no_raw = Some (specs_of (rw_files ex_no_raw))"
proof -
  have "set_parses ex_fs" by (rule set_accepts_parses [OF ex_set_accepts])
  moreover have "set_parses (rw_files ex_no_raw)" by (rule set_accepts_parses [OF ex_empty_accepts])
  ultimately show "loadResourceSet ex_resolve ex_raw = Some (specs_of ex_fs)"
    "loadResourceSet ex_resolve ex_no_raw = Some (specs_of (rw_files ex_no_raw))"
    by (simp_all add: loadResourceSet_def ex_normal Let_def)
qed

lemma ex_inputs:
  "regional_input ex_project ex_defaults True (specs_of (rw_files ex_no_raw)) = ex_vi"
  by (simp add: regional_input_def base_input_def ex_project_def ex_vi_def secret_state_def loaded_option_def
      buildGlobalRefs_def specs_of_def ex_no_raw_def all_specs_def)

lemma ex_project_sel:
  "pj_regional_set ex_project = ex_raw" "pj_global_set ex_project = ex_no_raw" "pj_global ex_project = None"
  by (simp_all add: ex_project_def)

lemma ex_services: "res_service (specs_of ex_fs) = [ex_api, ex_worker]"
  by (simp add: specs_of_def ex_files ex_specs)

lemma ex_nothing:
  "specs_of (rw_files ex_no_raw) = \<lparr>res_network = [], res_compute = [], res_cluster = [], res_database = [],
     res_service = [], res_pki = [], res_ingress = [], res_app = [], res_gateway = []\<rparr>"
  by (simp add: specs_of_def ex_no_raw_def all_specs_def)

lemma ex_vanity: "InZone (ExpandVanity ''shop'' ''env'' ''slug'' ''example.com'') ''example.com''"
  by (rule ExpandVanity_bare) simp_all

lemma ex_conditions:
  "regions_messages (pj_regions ex_project) None = []"
  "security_messages (pj_security ex_project) = []"
  "TrimSpace (pj_domain ex_project) \<noteq> []"
  "vanity_ok (pj_domain ex_project) (specs_of ex_fs)"
  "SortedNames (pj_regions ex_project) = [''us-east-1'']"
  "observability_ok (pj_notifications ex_project) (pj_alerts ex_project) (pj_obs ex_project)"
  by (simp_all add: ex_project_def regions_messages_def region_messages_def SortedNames_def security_messages_def
      ex_trim vanity_ok_def ex_services vanity_messages_def ex_sel observability_ok_def check_notifications_def
      alerts_managed_def sortedKeys_def ex_vanity Let_def)

lemma ex_sources: "ParseSource ''vault:TOKEN'' = Inr (SourceVault ''TOKEN'')" "ParseSource ''info'' = Inr (SourceLiteral ''info'')"
  by (simp_all add: ParseSource_def ParseRef_def ParseKey_def RefScheme_def VaultScheme_def EnvScheme_def ex_trim
      trim_prefix_def)

lemma ex_entries: "entries_ok (pj_secrets ex_project) [ex_api, ex_worker]"
  by (simp add: entries_ok_def ex_project_def ex_secrets_def secret_entry_messages_def declared_keys_def ex_sel
      ex_sources store_Keys_def nsKeys_def ns_sub_def)

lemma ex_member: "pkiMembershipErrors ''mesh'' [''us-east-1''] (loaded_option (pj_pkis ex_project)) = []"
  by code_simp

lemma ex_members: "members_ok (rw_files ex_raw) [''us-east-1''] (loaded_option (pj_pkis ex_project))"
  by (simp add: members_ok_def ex_raw_def ex_file_def servicePKIErrors_def NormalizeService_def
      NormalizeGateway_def ex_sel ex_trim ex_member)

lemma ex_providers: "providers_ok (rw_files ex_raw) (pj_regions ex_project) ex_defaults"
  by (simp add: providers_ok_def ex_project_def collectProviderRefs_def refsOf_def ex_raw_def ex_file_def ex_sel
      ResolveProvider_def ex_defaults_def missing_providers_def availableProviders_def Let_def)

lemma ex_sidecars: "sidecars_ok ex_raw" "sidecars_ok ex_no_raw"
  by (simp_all add: sidecars_ok_def ex_raw_def ex_no_raw_def sidecar_fails_def)

lemma ex_global:
  "cross_messages r (specs_of (rw_files ex_no_raw)) p = []" "slot_ok ex_project (specs_of (rw_files ex_no_raw))"
  "vanity_ok d (specs_of (rw_files ex_no_raw))" "members_ok (rw_files ex_no_raw) scopes store"
  "global_providers_ok ex_project ex_defaults"
  by (simp_all add: ex_nothing cross_messages_def slot_ok_def HasAny_def vanity_ok_def members_ok_def
      global_providers_ok_def ex_project_sel) (simp_all add: ex_no_raw_def)

lemma ex_pkis_loaded: "pj_pkis ex_project \<noteq> StoreBroken e"
  by (simp add: ex_project_def)

lemma ex_all_services: "res_service (specs_of ex_fs) @ res_service (specs_of (rw_files ex_no_raw)) = [ex_api, ex_worker]"
  by (simp add: ex_services ex_nothing)

lemma ex_accepted: "ValidateResources (\<lambda>_. True) ex_resolve ex_defaults True ex_project = None"
proof -
  have "accepted (\<lambda>_. True) ex_resolve ex_defaults True ex_project (specs_of (rw_files ex_no_raw)) (specs_of ex_fs)"
    unfolding accepted_def ex_project_sel ex_loads ex_normal ex_inputs ex_all_services ex_conditions(5)
    by (intro conjI allI refl ex_set_accepts ex_empty_accepts ex_conditions ex_entries ex_members ex_providers
        ex_sidecars ex_global ex_pkis_loaded)
  then show ?thesis unfolding ValidateResources_iff by blast
qed

lemma ex_scope: "(ex_vi, ex_fs) \<in> set (scopes_of ex_resolve ex_defaults True ex_project)"
  by (simp add: scopes_of_def ex_project_sel ex_loads ex_normal ex_inputs)

lemma ex_parsed_services: "services_of ex_fs = [ex_api, ex_worker]"
  by (simp add: ex_files ex_specs)

lemma ex_hosts:
  "canonicalHost ''web'' (build_ctx ex_vi ex_fs) = ''web-01''"
  "cx_ingressHost (build_ctx ex_vi ex_fs) ''edge'' = Some ''web-01''"
  "cx_clusterHosts (build_ctx ex_vi ex_fs) ''web-01''"
  "hostRunsMeshProxy ''web-01'' (build_ctx ex_vi ex_fs)"
  by (simp_all add: ex_ctx ex_ctx_def canonicalHost_def str_at_def hostRunsMeshProxy_def)

lemma ex_binds:
  "tcp_binds ex_api = [9002, 9001, 9000, 9003]" "tcp_binds ex_worker = [9101, 9102, 9100]"
  "udp_exposed ex_api = [5353]" "udp_exposed ex_worker = [5354]"
  "health_binds ex_api = [9001]"
  by (simp_all add: tcp_binds_def mesh_binds_def health_binds_def route_binds_def tcp_exposed_def
      udp_exposed_def ex_sel)

lemma ex_differ: "ex_api \<noteq> ex_worker"
proof
  assume "ex_api = ex_worker"
  then have "svc_name ex_api = svc_name ex_worker" by simp
  then show False by (simp add: ex_sel)
qed

end
