(* ===== verification/EdgeGateway.thy ===== *)
theory EdgeGateway
  imports EdgeExample ScopeFacts Example
begin

text \<open>
  The gateway from its specification to the request: the routing server that a deploy renders for a
  validated gateway hands every request to the one service whose public paths cover it.
\<close>

subsection \<open>The specs a deploy loads\<close>

lemma validated_specs:
  assumes "ValidateResources exists resolve defaults bucket pj = None"
    and "(vi, fs) \<in> set (scopes_of resolve defaults bucket pj)"
  shows "res_service (specs_of fs) = services_of fs" "res_gateway (specs_of fs) = parsed_specs (fs_gateway fs)"
    "res_ingress (specs_of fs) = parsed_specs (fs_ingress fs)" "distinct (map svc_name (services_of fs))"
proof -
  have p: "set_parses fs" by (rule set_accepts_parses [OF validated_scope [OF assms]])
  have a: "all_specs xs = parsed_specs xs" if "\<forall>f\<in>set xs. sf_parse_err f = None" for xs :: "'x src_file list"
    using that by (simp add: parsed_specs_def all_specs_def filter_id_conv cong: filter_cong)
  show "res_service (specs_of fs) = services_of fs" "res_gateway (specs_of fs) = parsed_specs (fs_gateway fs)"
    "res_ingress (specs_of fs) = parsed_specs (fs_ingress fs)"
    using p by (auto simp: specs_of_def set_parses_def list_all_iff intro!: a)
  show "distinct (map svc_name (services_of fs))"
    using validated_ok [OF assms] by (simp add: scope_ok_def)
qed

lemma public_paths_from:
  "cx_publicPaths (fold ctx_service_names ss c) a \<noteq> [] \<Longrightarrow>
     cx_publicPaths c a \<noteq> [] \<or> (\<exists>s\<in>set ss. svc_name s = a \<and> svc_mesh s \<noteq> None)"
proof (induction ss arbitrary: c)
  case (Cons s ss)
  have "cx_publicPaths (ctx_service_names s c) a \<noteq> [] \<Longrightarrow> cx_publicPaths c a \<noteq> [] \<or> svc_name s = a \<and> svc_mesh s \<noteq> None"
    by (auto simp: ctx_service_names_def Let_def split: option.splits if_splits)
  then show ?case using Cons by auto
qed simp

lemma fold_publics: "(\<And>x c. cx_publicPaths (f x c) = cx_publicPaths c) \<Longrightarrow> cx_publicPaths (fold f xs c) = cx_publicPaths c"
  by (induction xs arbitrary: c) auto

lemma public_paths_before:
  "cx_publicPaths (ctx_network n c) = cx_publicPaths c" "cx_publicPaths (ctx_compute cp c) = cx_publicPaths c"
  "cx_publicPaths (ctx_cluster cl c) = cx_publicPaths c" "cx_publicPaths (ctx_database d c) = cx_publicPaths c"
  "cx_publicPaths (ctx_pki p c) = cx_publicPaths c" "cx_publicPaths (ctx_ingress i c) = cx_publicPaths c"
  "cx_publicPaths (ctx_app ap c) = cx_publicPaths c" "cx_publicPaths (ctx_gateway g c) = cx_publicPaths c"
  "cx_publicPaths (ctx_callers sib gl c) = cx_publicPaths c"
proof -
  have inst: "cx_publicPaths (ctx_instance cp i c) = cx_publicPaths c" for i c
    by (simp add: ctx_instance_def Let_def)
  show "cx_publicPaths (ctx_network n c) = cx_publicPaths c" "cx_publicPaths (ctx_compute cp c) = cx_publicPaths c"
    "cx_publicPaths (ctx_cluster cl c) = cx_publicPaths c" "cx_publicPaths (ctx_database d c) = cx_publicPaths c"
    "cx_publicPaths (ctx_pki p c) = cx_publicPaths c" "cx_publicPaths (ctx_ingress i c) = cx_publicPaths c"
    "cx_publicPaths (ctx_app ap c) = cx_publicPaths c" "cx_publicPaths (ctx_gateway g c) = cx_publicPaths c"
    "cx_publicPaths (ctx_callers sib gl c) = cx_publicPaths c"
    by (auto simp: ctx_network_def ctx_compute_def ctx_cluster_def ctx_database_def ctx_pki_def ctx_ingress_def ctx_app_def
        ctx_gateway_def ctx_callers_def Let_def split_def fold_publics inst split: option.splits)
qed

lemma public_paths_mesh:
  assumes "cx_publicPaths (build_ctx vi fs) a \<noteq> []"
  shows "\<exists>s\<in>set (services_of fs). svc_name s = a \<and> svc_mesh s \<noteq> None"
proof -
  have "cx_publicPaths (build_ctx vi fs) = cx_publicPaths (start_ctx vi fs)"
    using ctx_le_same [OF start_build [of vi fs]] by (simp add: same_base_def)
  then have "cx_publicPaths (start_ctx vi fs) a \<noteq> []" using assms by simp
  moreover have "\<exists>c. cx_publicPaths c = (\<lambda>_. []) \<and> cx_publicPaths (start_ctx vi fs) = cx_publicPaths (fold ctx_service_names (services_of fs) c)"
    unfolding start_ctx_def ctx_base_def Let_def
    by (rule exI, rule conjI [rotated], rule refl) (simp add: fold_publics public_paths_before empty_ctx_def)
  ultimately show ?thesis using public_paths_from [of "services_of fs" _ a] by auto
qed

subsection \<open>The routes of a gateway\<close>

lemma servicesByName_distinct:
  assumes "distinct (map svc_name svcs)"
  shows "servicesByName svcs name = Some s \<longleftrightarrow> s \<in> set svcs \<and> svc_name s = name"
proof
  assume "servicesByName svcs name = Some s"
  then show "s \<in> set svcs \<and> svc_name s = name" by (auto simp: servicesByName_def dest!: last_map_SomeD)
next
  assume "s \<in> set svcs \<and> svc_name s = name"
  then show "servicesByName svcs name = Some s"
    unfolding servicesByName_def using assms by (intro last_map_unique) (auto simp: distinct_map inj_on_def)
qed

text \<open>The rows of the table of a validated gateway are what the gateway serves.\<close>

lemma gateway_table:
  assumes "distinct (map svc_name (services_of fs))"
  shows "(\<exists>rt\<in>set (toGatewayNginxRoutes (gw_services g) (services_of fs)). gwr_service rt = a \<and> route_matches path rt)
     \<longleftrightarrow> gateway_serves g (build_ctx vi fs) a path"
proof
  assume "\<exists>rt\<in>set (toGatewayNginxRoutes (gw_services g) (services_of fs)). gwr_service rt = a \<and> route_matches path rt"
  then obtain s m p where s: "a \<in> set (gw_services g)" "servicesByName (services_of fs) a = Some s" "svc_mesh s = Some m"
    "p \<in> set (mesh_public m)" "route_matches path \<lparr>gwr_pattern = p, gwr_service = a\<rparr>"
    by (auto simp: toGatewayNginxRoutes_def bind_eq_Some_conv eq_commute [of "Some _" "Option.bind _ _"] split: option.splits)
  then have "p \<in> set (cx_publicPaths (build_ctx vi fs) a)"
    using public_paths_at [OF assms _ s(3), of vi] by (auto simp: servicesByName_distinct [OF assms])
  then show "gateway_serves g (build_ctx vi fs) a path"
    using s(1,5) by (auto simp: gateway_serves_def route_matches_def intro!: bexI [of _ p] split: sum.splits)
next
  assume g: "gateway_serves g (build_ctx vi fs) a path"
  then obtain gl where gl: "gl \<in> set (cx_publicPaths (build_ctx vi fs) a)" "route_matches path \<lparr>gwr_pattern = gl, gwr_service = a\<rparr>"
    by (auto simp: gateway_serves_def route_matches_def split: sum.splits)
  then obtain s m where s: "s \<in> set (services_of fs)" "svc_name s = a" "svc_mesh s = Some m"
    using public_paths_mesh [of vi fs a] by fastforce
  have sb: "Option.bind (servicesByName (services_of fs) a) svc_mesh = Some m"
    using s by (auto simp: servicesByName_distinct [OF assms] bind_eq_Some_conv)
  have "gl \<in> set (mesh_public m)" "a \<in> set (gw_services g)"
    using gl(1) s(2) g public_paths_at [OF assms s(1,3), of vi] by (auto simp: gateway_serves_def)
  then have "\<lparr>gwr_pattern = gl, gwr_service = a\<rparr> \<in> set (toGatewayNginxRoutes (gw_services g) (services_of fs))"
    by (auto simp: toGatewayNginxRoutes_def sb intro!: bexI [of _ a])
  then show "\<exists>rt\<in>set (toGatewayNginxRoutes (gw_services g) (services_of fs)). gwr_service rt = a \<and> route_matches path rt"
    using gl(2) by (intro bexI) auto
qed

text \<open>A routing server answers with the service of the first matching row; validation leaves one candidate.\<close>

lemma serve_validated:
  assumes ok: "checkGateway g (build_ctx vi fs) = []" "distinct (map svc_name (services_of fs))"
    and x: "ig_routes x = toGatewayNginxRoutes (gw_services g) (services_of fs)" "ig_probes x = gw_health_paths g"
      "gateway_route_err x = None" and path: "prefix ''/'' path"
  shows "gateway_serves g (build_ctx vi fs) a path \<Longrightarrow> serve path_rx vars (gatewayRoutingServer x) path =
      Proxied (''http://127.0.0.1:'' @ Itoa GatewayEgressPort) (gateway_headers a)"
    and "(\<And>b. \<not> gateway_serves g (build_ctx vi fs) b path) \<Longrightarrow> serve path_rx vars (gatewayRoutingServer x) path =
      (if path \<in> set (gw_health_paths g) then Answer [''200'', ''ok''] else Answer (d_args (last (children_of jsonNotFoundLocation))))"
proof -
  let ?rts = "sort_key (\<lambda>rt. (gwr_pattern rt, gwr_service rt)) (ig_routes x)"
  note sv = serve_gateway [OF x(3) path, of vars, unfolded x(2)]
  note tb = gateway_table [OF ok(2), of g _ path vi, folded x(1)]
  show "serve path_rx vars (gatewayRoutingServer x) path =
      Proxied (''http://127.0.0.1:'' @ Itoa GatewayEgressPort) (gateway_headers a)"
    if a: "gateway_serves g (build_ctx vi fs) a path"
  proof -
    have np: "path \<notin> set (gw_health_paths g)" using gateway_health_free [OF ok(1)] a by blast
    have "find (route_matches path) ?rts \<noteq> None" using tb [of a] a by (auto simp: find_None_iff)
    then obtain rt where rt: "find (route_matches path) ?rts = Some rt" by auto
    then have "rt \<in> set (ig_routes x)" "route_matches path rt" using find_eq_Some by force+
    then have "gateway_serves g (build_ctx vi fs) (gwr_service rt) path" using tb [of "gwr_service rt"] by blast
    then have "gwr_service rt = a" using gateway_unique_owner [OF ok(1)] a by blast
    then show ?thesis using sv np rt by simp
  qed
  show "serve path_rx vars (gatewayRoutingServer x) path =
      (if path \<in> set (gw_health_paths g) then Answer [''200'', ''ok''] else Answer (d_args (last (children_of jsonNotFoundLocation))))"
    if none: "\<And>b. \<not> gateway_serves g (build_ctx vi fs) b path"
  proof -
    have "find (route_matches path) ?rts = None" using tb none by (auto simp: find_None_iff)
    then show ?thesis using sv by simp
  qed
qed

text \<open>The guard of the deploy puts every gateway in front of an ingress.\<close>

lemma guarded_gateways:
  assumes "checkGatewayFKs res = None" "g \<in> set (res_gateway res)" "CanonicalComputeKeys (res_compute res) (gw_host g) = Some h"
  shows "\<exists>rg\<in>set (fronted_gateways res (CanonicalComputeKeys (res_compute res)) slug base eslug). rg_gw rg = g \<and> rg_host rg = h"
proof -
  let ?c = "CanonicalComputeKeys (res_compute res)"
  have "gateway_fk_err ?c (ingressHostsByName res ?c) g = None"
    using assms(1,2) unfolding checkGatewayFKs_def Let_def first_err_None by blast
  then obtain ih where ih: "ingressHostsByName res ?c (gw_ingress g) = Some ih"
    by (auto simp: gateway_fk_err_def split: if_splits)
  then have "ih \<noteq> []"
    by (auto simp: ingressHostsByName_def dest!: last_map_SomeD dest: canonical_nonempty [OF sym] split: option.splits)
  then have "\<lparr>rg_gw = g, rg_host = h, rg_ingHost = ih, rg_fqdn = AppFQDN (gw_subdomain g) slug base eslug\<rparr>
      \<in> set (fronted_gateways res ?c slug base eslug)"
    using ih assms(2,3) by (simp add: fronted_row)
  then show ?thesis by (intro bexI) auto
qed

text \<open>The routing server of a gateway in the configuration of its host.\<close>

lemma routing_server:
  assumes "edge_plan_of res sn sec = Inr pl" "realize_host res pl outs h = Inr tree"
    and "rg \<in> set (fronted_gateways res (CanonicalComputeKeys (res_compute res)) (sn_slug sn) (sn_base sn) (sn_eslug sn))" "rg_host rg = h"
  shows "\<exists>x. gatewayRoutingServer x \<in> set (http_context tree) \<and> ig_fqdn x = rg_fqdn rg \<and> gateway_route_err x = None
     \<and> ig_routes x = toGatewayNginxRoutes (gw_services (rg_gw rg)) (res_service res) \<and> ig_probes x = gw_health_paths (rg_gw rg)"
proof -
  obtain hi where hi: "realize_inputs res pl outs h = Inr hi"
    and nd: "nginx_directives (hi_routes hi) (eg_apps pl h) (hi_health hi) (host_health_port pl h) (hi_terms hi) (hi_routings hi) = Inr tree"
    by (rule realize_parts [OF assms(2)])
  obtain hostIP where f: "fill_inputs pl h (outs \<circ>\<^sub>m eg_cross pl h) (outs \<circ>\<^sub>m eg_peers pl h) hostIP = Inr hi"
    by (rule inputs_fill [OF hi])
  have keep: "fill_routing ips hip g = Inr y \<Longrightarrow> (ig_fqdn y, ig_routes y, ig_probes y) = (ig_fqdn g, ig_routes g, ig_probes g)" for ips hip g y
    by (auto simp: fill_routing_def split: sum.splits)
  have k: "map (\<lambda>g. (ig_fqdn g, ig_routes g, ig_probes g)) (hi_routings hi) = map (\<lambda>g. (ig_fqdn g, ig_routes g, ig_probes g)) (eg_routings pl h)"
    using f fill_all_map [of "fill_routing (outs \<circ>\<^sub>m eg_peers pl h) hostIP" "eg_routings pl h" _ "\<lambda>g. (ig_fqdn g, ig_routes g, ig_probes g)"] keep
    by (auto simp: fill_inputs_def split: if_splits sum.splits)
  have "routing_entry (res_service res) rg \<in> set (eg_routings pl h)"
    unfolding edge_plan_parts(4) [OF assms(1)] routings_def using assms(3,4) by auto
  then have "\<exists>g\<in>set (eg_routings pl h). (ig_fqdn g, ig_routes g, ig_probes g) =
      (rg_fqdn rg, toGatewayNginxRoutes (gw_services (rg_gw rg)) (res_service res), gw_health_paths (rg_gw rg))"
    by (intro bexI) (auto simp: routing_entry_def bare_gateway_def)
  then obtain x where x: "x \<in> set (hi_routings hi)" "(ig_fqdn x, ig_routes x, ig_probes x) =
      (rg_fqdn rg, toGatewayNginxRoutes (gw_services (rg_gw rg)) (res_service res), gw_health_paths (rg_gw rg))"
    using map_eq_bex [OF k, of "\<lambda>v. v = (rg_fqdn rg, toGatewayNginxRoutes (gw_services (rg_gw rg)) (res_service res), gw_health_paths (rg_gw rg))"] by blast
  let ?np = "plan_of (hi_routes hi) (eg_apps pl h) (hi_health hi) (host_health_port pl h) (hi_terms hi) (hi_routings hi)"
  have xs: "x \<in> set (np_gateway_routes ?np)" using x(1) by simp
  then have "gatewayRoutingServer x \<in> set (http_servers ?np)" by (simp add: http_servers_def Let_def)
  moreover have "np_gateway_routes ?np \<noteq> []" using xs by (metis empty_iff list.set(1))
  ultimately have "gatewayRoutingServer x \<in> set (http_context tree)"
    unfolding directives_ok(1) [OF nd] top_contexts by (simp add: httpBlock_def)
  moreover have "gateway_route_err x = None" using directives_ok(7) [OF nd] x(1) by (simp add: first_err_None)
  ultimately show ?thesis using x(2) by auto
qed

text \<open>C11: From the specification to the request: for a validated gateway that the deploy realises, the host of the
  gateway has a server with the gateway's name that hands a request to the mesh egress for the one service
  whose public paths cover it, answers the probe paths itself, and gives 404 on every other path.\<close>
theorem gateway_end_to_end:
  assumes "ValidateResources exists resolve defaults bucket pj = None"
    and "(vi, fs) \<in> set (scopes_of resolve defaults bucket pj)" "g \<in> set (parsed_specs (fs_gateway fs))"
    and "checkGatewayFKs (specs_of fs) = None" "edge_plan_of (specs_of fs) sn sec = Inr pl"
    and "CanonicalComputeKeys (res_compute (specs_of fs)) (gw_host g) = Some h" "realize_host (specs_of fs) pl outs h = Inr tree"
    and "prefix ''/'' path"
  shows "\<exists>srv\<in>set (http_context tree). d_name srv = ''server''
    \<and> server_names srv = [AppFQDN (gw_subdomain g) (sn_slug sn) (sn_base sn) (sn_eslug sn)]
    \<and> (\<forall>a. gateway_serves g (build_ctx vi fs) a path \<longrightarrow>
         serve path_rx vars srv path = Proxied (''http://127.0.0.1:'' @ Itoa GatewayEgressPort) (gateway_headers a))
    \<and> ((\<forall>a. \<not> gateway_serves g (build_ctx vi fs) a path) \<longrightarrow>
         serve path_rx vars srv path = (if path \<in> set (gw_health_paths g) then Answer [''200'', ''ok'']
           else Answer (d_args (last (children_of jsonNotFoundLocation)))))"
proof -
  note sp = validated_specs [OF assms(1,2)]
  obtain rg where rg: "rg \<in> set (fronted_gateways (specs_of fs) (CanonicalComputeKeys (res_compute (specs_of fs))) (sn_slug sn) (sn_base sn) (sn_eslug sn))"
    "rg_gw rg = g" "rg_host rg = h"
    using guarded_gateways [OF assms(4) assms(3) [folded sp(2)] assms(6)] by blast
  obtain x where x: "gatewayRoutingServer x \<in> set (http_context tree)" "ig_fqdn x = rg_fqdn rg" "gateway_route_err x = None"
    "ig_routes x = toGatewayNginxRoutes (gw_services g) (services_of fs)" "ig_probes x = gw_health_paths g"
    using routing_server [OF assms(5,7) rg(1,3)] rg(2) sp(1) by auto
  have ok: "checkGateway g (build_ctx vi fs) = []" by (rule set_accepts_parts(7) [OF validated_scope [OF assms(1,2)] assms(3)])
  note sv = serve_validated [OF ok sp(4) x(4,5,3) assms(8), where vars = vars]
  have "server_names (gatewayRoutingServer x) = [rg_fqdn rg]"
    using x(2) by (simp add: server_names_def gatewayRoutingServer_def jsonNotFoundLocation_def probe_location_def route_location_def named_def filter_empty_conv)
  moreover have "rg_fqdn rg = AppFQDN (gw_subdomain g) (sn_slug sn) (sn_base sn) (sn_eslug sn)" using rg(1,2) by (simp add: fronted_row)
  moreover have "d_name (gatewayRoutingServer x) = ''server''" by (simp add: gatewayRoutingServer_def)
  ultimately show ?thesis using x(1) sv by (intro bexI [of _ "gatewayRoutingServer x"]) auto
qed

subsection \<open>Witness\<close>

text \<open>The accepted project of the example, deployed: everything runs on one host.\<close>

definition gx_names :: scope_names where
  "gx_names = \<lparr>sn_env = ''prd'', sn_slug = ''us'', sn_base = ''ex.io'', sn_eslug = []\<rparr>"

definition gx_sec :: rate_limit_config where
  "gx_sec = \<lparr>rl_enabled = False, rl_rps = 0, rl_burst = 0, rl_maxconn = 0\<rparr>"

lemma gx_sel [simp]: "sn_env gx_names = ''prd''" "sn_slug gx_names = ''us''" "sn_base gx_names = ''ex.io''" "sn_eslug gx_names = []"
  by (simp_all add: gx_names_def)

lemma gx_res: "res_service (specs_of ex_fs) = [ex_api, ex_worker]" "res_ingress (specs_of ex_fs) = [ex_ingress]"
  "res_app (specs_of ex_fs) = [ex_app]" "res_gateway (specs_of ex_fs) = [ex_gateway]" "res_compute (specs_of ex_fs) = [ex_compute]"
  by (simp_all add: specs_of_def ex_files ex_specs)

abbreviation gx_canon :: "string \<rightharpoonup> string" where
  "gx_canon \<equiv> [''web-01'' \<mapsto> ''web-01'', ''web'' \<mapsto> ''web-01'']"

definition gx_is :: "service_spec \<Rightarrow> ingress_service" where
  "gx_is s = \<lparr>is_svc = s, is_ingHost = ''web-01'', is_svcHost = ''web-01'', is_coLocated = True\<rparr>"

lemma gx_ingress: "ingressHostsByName (specs_of ex_fs) gx_canon = [''edge'' \<mapsto> ''web-01'']"
  by (simp add: ingressHostsByName_def gx_res ex_sel last_map_def)

lemma gx_services: "resolveIngressServices (specs_of ex_fs) gx_canon = [gx_is ex_api, gx_is ex_worker]"
  by (simp add: resolveIngressServices_def gx_res gx_ingress ingress_service_of_def ex_sel gx_is_def)

lemma gx_apps: "resolveIngressApps (specs_of ex_fs) gx_canon = [\<lparr>ra_app = ex_app, ra_ingHost = ''web-01''\<rparr>]"
  by (simp add: resolveIngressApps_def gx_res gx_ingress ex_sel)

definition gx_rg :: resolved_gateway where
  "gx_rg = \<lparr>rg_gw = ex_gateway, rg_host = ''web-01'', rg_ingHost = ''web-01'', rg_fqdn = ''gw.us.ex.io''\<rparr>"

lemma gx_gateways: "fronted_gateways (specs_of ex_fs) gx_canon ''us'' ''ex.io'' [] = [gx_rg]"
  "fronted_gateways (specs_of ex_fs) gx_canon [] [] [] = [gx_rg\<lparr>rg_fqdn := ''gw.''\<rparr>]"
  by (simp_all add: fronted_gateways_def resolveGateways_def gx_res gx_ingress ex_sel gx_rg_def go_string_def AppFQDN_def)

lemma gx_no_health: "resolveGatewayHealthServices (specs_of ex_fs) gx_canon = []"
  by (simp add: resolveGatewayHealthServices_def gx_gateways gx_res gx_rg_def ex_sel servicesByName_def last_map_def)

definition gx_route :: "service_spec \<Rightarrow> string \<Rightarrow> string list \<Rightarrow> int \<Rightarrow> int \<Rightarrow> ingress_route" where
  "gx_route s ty names l t = \<lparr>ir_service = svc_name s, ir_type = ty, ir_fqdns = names, ir_listen = l, ir_target = t,
     ir_backend = ''127.0.0.1'', ir_limit = None\<rparr>"

definition gx_routes :: "ingress_route list" where
  "gx_routes = [gx_route ex_api ''forward'' [] 9443 9000,
     gx_route ex_api ''tls-termination'' [''api.svc.prd.us.ex.io'', ''shop.prd.us.ex.io''] 443 9003,
     gx_route ex_worker ''forward'' [] 9444 9102]"

lemma gx_entries: "route_entries (specs_of ex_fs) gx_canon ''prd'' ''us'' ''ex.io'' = map (Pair ''web-01'') gx_routes"
proof -
  have "sort [''api.svc.prd.us.ex.io'', ''shop.prd.us.ex.io''] = [''api.svc.prd.us.ex.io'', ''shop.prd.us.ex.io'']"
    by code_simp
  then show ?thesis
    by (simp add: route_entries_def gx_services gx_is_def ex_sel route_entry_def gx_routes_def gx_route_def ingressFQDNs_def
        ServiceFQDN_def RecordFQDN_def RecordName_def ExpandVanity_def IngressTypeTLSTermination_def)
qed

lemma gx_routes_ok: "is_ok (ingressRoutesByHost (specs_of ex_fs) gx_canon ''prd'' ''us'' ''ex.io'')"
  unfolding ingressRoutesByHost_def gx_entries Let_def
  by (simp add: entries_at_def gx_routes_def gx_route_def is_ok_def comp_def)

lemma gx_limit: "ResolvedRateLimit gx_sec = None"
  by (simp add: ResolvedRateLimit_def gx_sec_def)

lemma stamp_none [simp]: "stamp_route None res = (\<lambda>r. r)" "stamp_app None res = (\<lambda>a. a)" "stamp_gateway None res = (\<lambda>g. g)"
  by (rule ext, simp add: stamp_route_def stamp_app_def stamp_gateway_def)+

definition gx_app :: ingress_app where
  "gx_app = \<lparr>ia_name = ''site'', ia_fqdn = ''www.us.ex.io'', ia_root = ''/srv/wardnet/app/site/current'', ia_spa = True, ia_limit = None\<rparr>"

lemma gx_host_rows:
  "ingressAppsByHost (specs_of ex_fs) gx_canon ''us'' ''ex.io'' [] ''web-01'' = [gx_app]"
  "terminations (specs_of ex_fs) gx_canon ''us'' ''ex.io'' [] ''web-01'' = [termination_entry gx_rg]"
  "routings (specs_of ex_fs) gx_canon ''us'' ''ex.io'' [] ''web-01'' = [routing_entry [ex_api, ex_worker] gx_rg]"
  "gateway_peers (specs_of ex_fs) gx_canon ''us'' ''ex.io'' [] = []" "edge_cross (specs_of ex_fs) gx_canon = []"
  "map ih_fqdn (ingressHealthByHost (resolveIngressServices (specs_of ex_fs) gx_canon) ''prd'' ''us'' ''ex.io'' ''web-01'') = [''api.svc.prd.us.ex.io'']"
  "map is_ingHost (resolveIngressServices (specs_of ex_fs) gx_canon) = [''web-01'', ''web-01'']"
  unfolding ingressAppsByHost_def app_entries_def terminations_def routings_def gateway_peers_def edge_cross_def gx_gateways gx_apps
    gx_services gx_no_health ingressHealthByHost_def
  by (simp_all add: entries_at_def ex_sel gx_app_def AppFQDN_def CurrentPath_def app_Folder_def gx_rg_def gx_res gx_is_def
      ingressCrossHostBackends_def ingress_health_entries_def healthEntry_def ServiceFQDN_def RecordFQDN_def RecordName_def)

definition gx_plan :: edge_plan where
  "gx_plan = (case edge_plan_of (specs_of ex_fs) gx_names gx_sec of Inr pl \<Rightarrow> pl | Inl e \<Rightarrow> undefined)"

text \<open>The names of apps and gateways are free.\<close>

lemma route_owners_free:
  "(\<And>r. r \<in> set rts \<Longrightarrow> n \<notin> set (ir_fqdns r)) \<Longrightarrow> route_owners rts n = None"
  by (force simp: route_owners_def last_map_def map_of_eq_None_iff)

lemma gx_free: "r \<in> set gx_routes \<Longrightarrow> ''www.us.ex.io'' \<notin> set (ir_fqdns r) \<and> ''gw.us.ex.io'' \<notin> set (ir_fqdns r)"
  by (auto simp: gx_routes_def gx_route_def)

lemma gx_canon_eq: "CanonicalComputeKeys (res_compute (specs_of ex_fs)) = gx_canon"
  by (simp add: gx_res ex_canon)

lemma gx_planned: "edge_plan_of (specs_of ex_fs) gx_names gx_sec = Inr gx_plan"
proof -
  obtain rts where r: "ingressRoutesByHost (specs_of ex_fs) gx_canon ''prd'' ''us'' ''ex.io'' = Inr rts"
    using gx_routes_ok by (auto simp: is_ok_def split: sum.splits)
  then have rs: "rts ''web-01'' = sort_key (\<lambda>r. (ir_listen r, ir_service r)) gx_routes"
    by (auto simp: ingressRoutesByHost_def Let_def gx_entries entries_at_def comp_def split: option.splits)
  let ?own = "route_owners (rts ''web-01'')"
  have free: "?own ''www.us.ex.io'' = None" "?own ''gw.us.ex.io'' = None"
    using gx_free by (auto simp: rs intro!: route_owners_free)
  have "host_collision rts (ingressAppsByHost (specs_of ex_fs) gx_canon ''us'' ''ex.io'' [])
      (terminations (specs_of ex_fs) gx_canon ''us'' ''ex.io'' []) ''web-01'' = None"
    using free by (simp add: host_collision_def gx_host_rows gx_app_def termination_entry_def bare_gateway_def gx_rg_def)
  moreover have "set (edge_hosts (specs_of ex_fs) gx_canon) = {''web-01''}"
    unfolding edge_hosts_def gx_host_rows(7) gx_apps gx_gateways by (simp add: gx_rg_def)
  ultimately have c: "checkAppSNICollisions rts (ingressAppsByHost (specs_of ex_fs) gx_canon ''us'' ''ex.io'' [])
      (terminations (specs_of ex_fs) gx_canon ''us'' ''ex.io'' []) (edge_hosts (specs_of ex_fs) gx_canon) = None"
    by (auto simp: checkAppSNICollisions_def first_err_None)
  have "\<exists>pl. edge_plan_of (specs_of ex_fs) gx_names gx_sec = Inr pl"
    unfolding edge_plan_of_def Let_def gx_canon_eq gx_sel r gx_limit using c by (simp add: gx_no_health)
  then show ?thesis by (auto simp: gx_plan_def)
qed

lemma gx_plan_rows:
  "set (eg_routes gx_plan ''web-01'') = set gx_routes" "distinct (map ir_listen (eg_routes gx_plan ''web-01''))"
  "eg_apps gx_plan ''web-01'' = [gx_app]" "eg_terms gx_plan ''web-01'' = [termination_entry gx_rg]"
  "eg_routings gx_plan ''web-01'' = [routing_entry [ex_api, ex_worker] gx_rg]"
  "eg_cross gx_plan ''web-01'' = Map.empty" "eg_peers gx_plan ''web-01'' = Map.empty"
proof -
  note p = edge_plan_parts [OF gx_planned, unfolded gx_canon_eq gx_sel gx_limit]
  have l: "map ir_listen gx_routes = [9443, 443, 9444]" by (simp add: gx_routes_def gx_route_def)
  have e: "eg_routes gx_plan ''web-01'' = sort_key (\<lambda>r. (ir_listen r, ir_service r)) gx_routes"
    unfolding p(1) gx_entries by (simp add: entries_at_def comp_def)
  show "set (eg_routes gx_plan ''web-01'') = set gx_routes" by (simp add: e)
  have "distinct (map ir_listen gx_routes)" unfolding l by simp
  then show "distinct (map ir_listen (eg_routes gx_plan ''web-01''))" unfolding e by (simp add: distinct_map)
  show "eg_apps gx_plan ''web-01'' = [gx_app]" "eg_terms gx_plan ''web-01'' = [termination_entry gx_rg]"
    "eg_routings gx_plan ''web-01'' = [routing_entry [ex_api, ex_worker] gx_rg]"
    "eg_cross gx_plan ''web-01'' = Map.empty" "eg_peers gx_plan ''web-01'' = Map.empty"
    unfolding p by (simp_all add: gx_host_rows entries_at_def last_map_def)
qed

lemma gx_health_row: "x \<in> set (eg_health gx_plan ''web-01'') \<Longrightarrow> x = healthEntry ex_api True ''prd'' ''us'' ''ex.io''"
  unfolding edge_plan_parts(5) [OF gx_planned, unfolded gx_canon_eq gx_sel]
  by (auto simp: ingressHealthByHost_def gatewayHealthByHost_def ingress_health_entries_def gx_services gx_no_health gx_is_def ex_sel
      entries_at_def)

lemma forward_err_ok: "distinct (map ir_listen (seen @ fs)) \<Longrightarrow> forward_err seen fs = None"
proof (induction fs arbitrary: seen)
  case (Cons f fs)
  have "find (\<lambda>g. ir_listen g = ir_listen f) seen = None" using Cons.prems by (auto simp: find_None_iff) (metis image_eqI)
  then show ?case using Cons by simp
qed simp

lemma gx_globs: "pattern_err x \<lparr>gwr_pattern = ''/api/**'', gwr_service = a\<rparr> = None"
  "pattern_err x \<lparr>gwr_pattern = ''/jobs/*'', gwr_service = a\<rparr> = None"
proof -
  have "is_ok (Parse ''/api/**'')" "is_ok (Parse ''/jobs/*'')" by code_simp+
  then show "pattern_err x \<lparr>gwr_pattern = ''/api/**'', gwr_service = a\<rparr> = None"
    "pattern_err x \<lparr>gwr_pattern = ''/jobs/*'', gwr_service = a\<rparr> = None"
    by (auto simp: pattern_err_def is_ok_def split: sum.splits)
qed

lemma gx_routing_ok: "gateway_route_err (routing_entry [ex_api, ex_worker] gx_rg) = None"
  by (simp add: gateway_route_err_def routing_entry_def bare_gateway_def gx_rg_def GatewayHTTPPort_def ex_sel toGatewayNginxRoutes_def
      servicesByName_def last_map_def gx_globs)

definition gx_inputs :: host_inputs where
  "gx_inputs = \<lparr>hi_routes = eg_routes gx_plan ''web-01'', hi_health = eg_health gx_plan ''web-01'',
     hi_terms = [termination_entry gx_rg], hi_routings = [routing_entry [ex_api, ex_worker] gx_rg]\<rparr>"

definition gx_tree :: "directive list" where
  "gx_tree = nginx_top (plan_of (hi_routes gx_inputs) [gx_app] (hi_health gx_inputs) 81 (hi_terms gx_inputs) (hi_routings gx_inputs))"

lemma gx_accepted: "nginx_plan_err (hi_routes gx_inputs) [gx_app] (hi_health gx_inputs) 81 (hi_terms gx_inputs) (hi_routings gx_inputs) = None"
proof (rule plan_accepted)
  let ?np = "plan_of (hi_routes gx_inputs) [gx_app] (hi_health gx_inputs) 81 (hi_terms gx_inputs) (hi_routings gx_inputs)"
  have r: "set (hi_routes gx_inputs) = set gx_routes" by (simp add: gx_inputs_def gx_plan_rows)
  have ty: "IngressTypeTLSTermination = ''tls-termination''" "IngressTypeForward = ''forward''"
    by (simp_all add: IngressTypeTLSTermination_def IngressTypeForward_def)
  have fwd: "set (np_forward ?np) = {gx_routes ! 0, gx_routes ! 2}" "set (np_terminate ?np) = {gx_routes ! 1}"
    unfolding plan_of_sets r set_filter [symmetric] by (simp_all add: gx_routes_def gx_route_def ty)
  have port: "ir_listen ` set (np_forward ?np) = {9443, 9444}" "ir_listen ` set (np_terminate ?np) = {443}"
    unfolding fwd by (simp_all add: gx_routes_def gx_route_def)
  show "first_err route_err (hi_routes gx_inputs) = None"
    unfolding first_err_None r by (simp add: gx_routes_def gx_route_def route_err_def ty)
  show "first_err app_err [gx_app] = None" by (simp add: app_err_def gx_app_def)
  show "first_err health_err (hi_health gx_inputs) = None"
    unfolding first_err_None by (auto simp: gx_inputs_def health_err_def healthEntry_def ex_sel dest!: gx_health_row)
  show "health_port_err (hi_health gx_inputs) 81 = None" by (simp add: health_port_err_def)
  show "first_err gateway_err (hi_terms gx_inputs) = None"
    by (simp add: gx_inputs_def gateway_err_def termination_entry_def bare_gateway_def gx_rg_def GatewayHTTPPort_def)
  show "first_err gateway_route_err (hi_routings gx_inputs) = None" by (simp add: gx_inputs_def gx_routing_ok)
  show "forward_err [] (np_forward ?np) = None"
  proof (rule forward_err_ok)
    show "distinct (map ir_listen ([] @ np_forward ?np))"
      using gx_plan_rows(2) by (simp add: plan_of_def Let_def gx_inputs_def distinct_map inj_on_def)
  qed
  show "acme_err (terminatesTLS ?np) (np_forward ?np) = None"
    using port(1) by (simp add: acme_err_def forwardByListen_iff acmePort_def del: plan_of_sets)
  show "health_forward_err (hi_health gx_inputs) 81 (np_forward ?np) = None"
    using port(1) by (simp add: health_forward_err_def forwardByListen_iff del: plan_of_sets)
  have "set (plan_mixed ?np) = {}" unfolding plan_mixed_set port by auto
  then show "length (plan_mixed ?np) \<le> nat MaxMixedPorts" by simp
qed

lemma gx_rendered: "realize_host (specs_of ex_fs) gx_plan [''web-01'' \<mapsto> ''10.0.0.2''] ''web-01'' = Inr gx_tree"
proof -
  have e: "m \<circ>\<^sub>m Map.empty = Map.empty" for m :: "string \<rightharpoonup> string" by (rule ext) (simp add: map_comp_def)
  have i: "realize_inputs (specs_of ex_fs) gx_plan [''web-01'' \<mapsto> ''10.0.0.2''] ''web-01'' = Inr gx_inputs"
    by (simp add: realize_inputs_def gx_plan_rows(4-7) gx_res missing_output_def e fill_inputs_def gx_inputs_def)
  have hp: "host_health_port gx_plan ''web-01'' = 81"
  proof -
    have "ingressHealthPortByHost (specs_of ex_fs) gx_canon = [''web-01'' \<mapsto> 81]"
      by (simp add: ingressHealthPortByHost_def gx_res ex_sel ingress_health_port_def last_map_def)
    then have "eg_health_port gx_plan = [''web-01'' \<mapsto> 81]"
      using edge_plan_parts(6) [OF gx_planned, unfolded gx_canon_eq] by (simp add: gx_no_health)
    then show ?thesis by (simp add: host_health_port_def)
  qed
  show ?thesis
    unfolding realize_host_def i sum.case hp gx_plan_rows(3) nginx_directives_def gx_accepted by (simp add: gx_tree_def)
qed

theorem gateway_end_to_end_witness:
  "\<exists>srv\<in>set (http_context gx_tree). server_names srv = [''gw.us.ex.io'']
     \<and> serve path_rx (\<lambda>v. []) srv ''/jobs/7'' = Proxied (''http://127.0.0.1:'' @ Itoa GatewayEgressPort) (gateway_headers ''worker'')"
proof -
  have serves: "gateway_serves ex_gateway (build_ctx ex_vi ex_fs) ''worker'' ''/jobs/7''"
    unfolding ex_ctx by code_simp
  have fk: "checkGatewayFKs (specs_of ex_fs) = None"
    by (simp add: checkGatewayFKs_def gateway_fk_err_def gx_canon_eq gx_ingress) (simp add: gx_res ex_sel ex_canon gx_ingress gateway_fk_err_def)
  have g: "ex_gateway \<in> set (parsed_specs (fs_gateway ex_fs))" by (simp add: ex_files ex_specs)
  have h: "CanonicalComputeKeys (res_compute (specs_of ex_fs)) (gw_host ex_gateway) = Some ''web-01''"
    by (simp add: gx_canon_eq ex_sel)
  have n: "AppFQDN (gw_subdomain ex_gateway) (sn_slug gx_names) (sn_base gx_names) (sn_eslug gx_names) = ''gw.us.ex.io''"
    by (simp add: ex_sel AppFQDN_def)
  show ?thesis
    using gateway_end_to_end [OF ex_accepted ex_scope g fk gx_planned h gx_rendered, of "''/jobs/7''" "\<lambda>v. []"] serves unfolding n
    by auto
qed

end
