(* ===== verification/MeshNginx.thy ===== *)
theory MeshNginx
  imports NginxAst PathGlob Ports
begin

text \<open>
  The east-west mesh proxy (\<open>internal/meshnginx\<close>): the configuration of both planes, and what a
  callee server does with the request of a verified peer.
\<close>

subsection \<open>Inputs\<close>

record local_service =
  ls_name :: string
  ls_sni :: string
  ls_port :: int
  ls_cert :: string
  ls_key :: string
  ls_callers :: "string list"
  ls_paths :: "string list"

record egress_caller =
  ec_name :: string
  ec_port :: int
  ec_cert :: string
  ec_key :: string

record mesh_target =
  mt_name :: string
  mt_addr :: string
  mt_sni :: string

record mesh_config =
  mc_listen :: string
  mc_bundle :: string
  mc_local :: "local_service list"
  mc_egress :: "egress_caller list"
  mc_targets :: "mesh_target list"

datatype mesh_err =
    NoListenAddress
  | NoBundleLocal
  | NoBundleEgress
  | LocalUnresolved string
  | NoEndpointPaths string
  | BadGlob string string glob_err
  | TargetUnresolved string
  | EgressUnresolved string
  | BuildFailed string

subsection \<open>The callee plane\<close>

definition allow_char :: "char \<Rightarrow> char" where
  "allow_char c =
     (let n = of_char c :: nat in
      if 97 \<le> n \<and> n \<le> 122 \<or> 65 \<le> n \<and> n \<le> 90 \<or> 48 \<le> n \<and> n \<le> 57 then c else CHR ''_'')"

definition allowVarName :: "string \<Rightarrow> string" where
  "allowVarName service = ''mesh_allow_'' @ map allow_char service"

definition allowVar :: "string \<Rightarrow> string" where
  "allowVar service = CHR ''$'' # allowVarName service"

definition proxyLocation :: "local_service \<Rightarrow> string list \<Rightarrow> directive" where
  "proxyLocation s matcher =
     block ''location'' matcher
       [block ''if'' [allowVar (ls_name s), ''='', ''0''] [dir ''return'' [''403'']],
        dir ''proxy_http_version'' [''1.1''],
        dir ''proxy_set_header'' [''Upgrade'', ''$http_upgrade''],
        dir ''proxy_set_header'' [''Connection'', ''$connection_upgrade''],
        dir ''proxy_set_header'' [''X-Service-Identity'', ''$mesh_caller''],
        dir ''proxy_set_header'' [''X-Forwarded-For'', ''$proxy_add_x_forwarded_for''],
        dir ''proxy_read_timeout'' [''3600s''],
        dir ''proxy_pass'' [''http://127.0.0.1:'' @ Itoa (ls_port s)]]"

definition not_found_json :: string where
  "not_found_json = [CHR 0x7B, CHR 0x22] @ ''error'' @ [CHR 0x22] @ '':'' @ [CHR 0x22] @ ''not_found'' @ [CHR 0x22, CHR 0x7D]"

definition ingressServer :: "local_service \<Rightarrow> string \<Rightarrow> string \<Rightarrow> string list \<Rightarrow> directive" where
  "ingressServer s listenAddr bundlePath regexes =
     block ''server'' []
       ([dir ''listen'' [listenAddr @ '':'' @ Itoa MTLSPort, ''ssl''],
         dir ''server_name'' [ls_sni s],
         dir ''ssl_certificate'' [ls_cert s],
         dir ''ssl_certificate_key'' [ls_key s],
         dir ''ssl_client_certificate'' [bundlePath],
         dir ''ssl_verify_client'' [''on'']]
        @ map (\<lambda>re. proxyLocation s [''~'', re]) regexes
        @ [block ''location'' [''/'']
             [block ''if'' [allowVar (ls_name s), ''='', ''0''] [dir ''return'' [''403'']],
              dir ''default_type'' [''application/json''],
              dir ''return'' [''404'', not_found_json]]])"

text \<open>The expressions of the sorted path globs, or the first that does not parse.\<close>

fun glob_regexes :: "string \<Rightarrow> string list \<Rightarrow> mesh_err + string list" where
  "glob_regexes name [] = Inr []"
| "glob_regexes name (g # gs) =
     (case Parse g of
        Inl e \<Rightarrow> Inl (BadGlob name g e)
      | Inr p \<Rightarrow>
          (case glob_regexes name gs of
             Inl e \<Rightarrow> Inl e
           | Inr rs \<Rightarrow> Inr (Regex (segments p) (tail p) # rs)))"

definition local_regexes :: "local_service \<Rightarrow> mesh_err + string list" where
  "local_regexes s =
     (if ls_sni s = [] \<or> ls_port s < 1 \<or> ls_cert s = [] \<or> ls_key s = [] then Inl (LocalUnresolved (ls_name s))
      else if ls_paths s = [] then Inl (NoEndpointPaths (ls_name s))
      else glob_regexes (ls_name s) (sort (ls_paths s)))"

fun first_local_err :: "local_service list \<Rightarrow> mesh_err option" where
  "first_local_err [] = None"
| "first_local_err (s # ss) = (case local_regexes s of Inl e \<Rightarrow> Some e | Inr rs \<Rightarrow> first_local_err ss)"

text \<open>\<open>regexesOf\<close> is keyed by the name and appended to: services that share a name share the list.\<close>

definition regexes_of :: "local_service list \<Rightarrow> string \<Rightarrow> string list" where
  "regexes_of local name =
     concat (map (\<lambda>s. case local_regexes s of Inl e \<Rightarrow> [] | Inr rs \<Rightarrow> rs) (filter (\<lambda>s. ls_name s = name) local))"

definition caller_map :: directive where
  "caller_map = block ''map'' [''$ssl_client_s_dn'', ''$mesh_caller''] [dir ''default'' [[]], dir cn_regex [''$cn'']]"

definition allow_map :: "local_service \<Rightarrow> directive" where
  "allow_map s =
     block ''map'' [''$mesh_caller'', allowVar (ls_name s)]
       (dir ''default'' [''0''] # map (\<lambda>caller. dir caller [''1'']) (sort (ls_callers s)))"

definition ingressDirectives :: "local_service list \<Rightarrow> string \<Rightarrow> string \<Rightarrow> mesh_err + directive list" where
  "ingressDirectives local listenAddr bundlePath =
     (if local = [] then Inr []
      else if bundlePath = [] then Inl NoBundleLocal
      else
        let ls = sort_key ls_name local in
        case first_local_err ls of
          Some e \<Rightarrow> Inl e
        | None \<Rightarrow> Inr (caller_map # map allow_map ls
            @ map (\<lambda>s. ingressServer s listenAddr bundlePath (regexes_of ls (ls_name s))) ls))"

subsection \<open>The caller plane\<close>

definition egressServer :: "egress_caller \<Rightarrow> string \<Rightarrow> directive" where
  "egressServer e bundlePath =
     block ''server'' []
       [dir ''listen'' [''127.0.0.1:'' @ Itoa (ec_port e)],
        block ''location'' [''/'']
          [block ''if'' [''$mesh_addr'', ''='', []] [dir ''return'' [''502'']],
           dir ''proxy_http_version'' [''1.1''],
           dir ''proxy_set_header'' [''Upgrade'', ''$http_upgrade''],
           dir ''proxy_set_header'' [''Connection'', ''$connection_upgrade''],
           dir ''proxy_set_header'' [''Host'', ''$mesh_sni''],
           dir ''proxy_ssl_certificate'' [ec_cert e],
           dir ''proxy_ssl_certificate_key'' [ec_key e],
           dir ''proxy_ssl_trusted_certificate'' [bundlePath],
           dir ''proxy_ssl_verify'' [''on''],
           dir ''proxy_ssl_name'' [''$mesh_sni''],
           dir ''proxy_ssl_server_name'' [''on''],
           dir ''proxy_read_timeout'' [''3600s''],
           dir ''proxy_pass'' [''https://$mesh_addr'']]]"

definition egressDirectives :: "egress_caller list \<Rightarrow> mesh_target list \<Rightarrow> string \<Rightarrow> mesh_err + directive list" where
  "egressDirectives egress targets bundlePath =
     (if egress = [] then Inr []
      else if bundlePath = [] then Inl NoBundleEgress
      else
        let ts = sort_key mt_name targets; es = sort_key ec_name egress in
        case find (\<lambda>t. mt_addr t = [] \<or> mt_sni t = []) ts of
          Some t \<Rightarrow> Inl (TargetUnresolved (mt_name t))
        | None \<Rightarrow>
            (case find (\<lambda>e. ec_port e < 1 \<or> ec_cert e = [] \<or> ec_key e = []) es of
               Some e \<Rightarrow> Inl (EgressUnresolved (ec_name e))
             | None \<Rightarrow> Inr
                 ([block ''map'' [''$http_x_mesh_target'', ''$mesh_addr'']
                     (dir ''default'' [[]] # map (\<lambda>t. dir (mt_name t) [mt_addr t]) ts),
                   block ''map'' [''$http_x_mesh_target'', ''$mesh_sni'']
                     (dir ''default'' [[]] # map (\<lambda>t. dir (mt_name t) [mt_sni t]) ts)]
                  @ map (\<lambda>e. egressServer e bundlePath) es)))"

subsection \<open>The whole configuration\<close>

definition upgrade_map :: directive where
  "upgrade_map = block ''map'' [''$http_upgrade'', ''$connection_upgrade'']
     [dir ''default'' [''upgrade''], dir [CHR 0x27, CHR 0x27] [''close'']]"

definition PIDPath :: string where "PIDPath = ''/run/wardnet-mesh-nginx.pid''"

definition mesh_http :: "mesh_config \<Rightarrow> mesh_err + directive list" where
  "mesh_http c =
     (if mc_listen c = [] then Inl NoListenAddress
      else
        case ingressDirectives (mc_local c) (mc_listen c) (mc_bundle c) of
          Inl e \<Rightarrow> Inl e
        | Inr ing \<Rightarrow>
            (case egressDirectives (mc_egress c) (mc_targets c) (mc_bundle c) of
               Inl e \<Rightarrow> Inl e
             | Inr egr \<Rightarrow> Inr (upgrade_map # ing @ egr)))"

definition mesh_top :: "directive list \<Rightarrow> directive list" where
  "mesh_top http =
     [dir ''user'' [''nginx''],
      dir ''worker_processes'' [''auto''],
      dir ''pid'' [PIDPath],
      block ''events'' [] [dir ''worker_connections'' [''1024'']],
      block ''http'' [] http]"

text \<open>\<open>build\<close> is \<open>crossplane.Build\<close>; the banner and the newline around its text are left out.\<close>

definition mesh_Render :: "(directive list \<Rightarrow> string + string) \<Rightarrow> mesh_config \<Rightarrow> mesh_err + string" where
  "mesh_Render build c =
     (case mesh_http c of
        Inl e \<Rightarrow> Inl e
      | Inr http \<Rightarrow> (case build (mesh_top http) of Inl e \<Rightarrow> Inl (BuildFailed e) | Inr t \<Rightarrow> Inr t))"

subsection \<open>What the variables hold\<close>

lemma allowVar_inj: "allowVar a = allowVar b \<longleftrightarrow> map allow_char a = map allow_char b"
  by (simp add: allowVar_def allowVarName_def)

lemma allowVar_other [simp]:
  "allowVar n \<noteq> ''$mesh_caller''" "allowVar n \<noteq> ''$mesh_addr''" "allowVar n \<noteq> ''$mesh_sni''"
  "allowVar n \<noteq> ''$connection_upgrade''"
  by (simp_all add: allowVar_def allowVarName_def)

lemmas allowVar_other_sym [simp] = allowVar_other [symmetric]

lemma caller_map_parts [simp]:
  "d_name caller_map = ''map''" "d_args caller_map = [''$ssl_client_s_dn'', ''$mesh_caller'']"
  by (simp_all add: caller_map_def)

lemma upgrade_map_parts [simp]:
  "d_name upgrade_map = ''map''" "d_args upgrade_map = [''$http_upgrade'', ''$connection_upgrade'']"
  by (simp_all add: upgrade_map_def)

lemma caller_value: "cn_of dn = Some cn \<Longrightarrow> map_value (children_of caller_map) dn = cn"
  by (simp add: caller_map_def map_value_def entry_value_def)

lemma allow_map_parts [simp]:
  "d_name (allow_map a) = ''map''" "d_args (allow_map a) = [''$mesh_caller'', allowVar (ls_name a)]"
  by (simp_all add: allow_map_def)

lemma allow_vars_keep:
  "v \<notin> allowVar ` ls_name ` set ss \<Longrightarrow> map_vars (map allow_map ss) vars v = vars v"
  by (induction ss arbitrary: vars) auto

lemma allow_value:
  assumes "\<forall>caller\<in>set (ls_callers s). plain_key caller"
  shows "map_value (children_of (allow_map s)) cn = (if lower cn \<in> lower ` set (ls_callers s) then ''1'' else ''0'')"
proof -
  have "find (\<lambda>x. lower x = lower cn) (sort (ls_callers s)) = None \<longleftrightarrow> lower cn \<notin> lower ` set (ls_callers s)"
    by (auto simp: find_None_iff image_iff)
  then show ?thesis
    using assms by (auto simp: allow_map_def map_value_table [where key = "\<lambda>x. x" and val = "\<lambda>x. ''1''"] split: option.splits)
qed

lemma allow_vars_value:
  assumes "s \<in> set ss" "distinct (map (allowVar \<circ> ls_name) ss)"
  shows "map_vars (map allow_map ss) vars (allowVar (ls_name s)) = map_value (children_of (allow_map s)) (vars ''$mesh_caller'')"
  using assms
proof (induction ss arbitrary: vars)
  case (Cons a ss)
  show ?case
  proof (cases "s = a")
    case True
    then have "allowVar (ls_name s) \<notin> allowVar ` ls_name ` set ss" using Cons.prems(2) by (auto simp: image_image)
    from allow_vars_keep [OF this] show ?thesis using True by simp
  next
    case False
    then show ?thesis using Cons by simp
  qed
qed simp

subsection \<open>The callee server\<close>

definition proxied_headers :: "(string \<times> string) list" where
  "proxied_headers =
     [(''Upgrade'', ''$http_upgrade''), (''Connection'', ''$connection_upgrade''),
      (''X-Service-Identity'', ''$mesh_caller''), (''X-Forwarded-For'', ''$proxy_add_x_forwarded_for'')]"

lemma run_proxyLocation:
  "run_location vars (children_of (proxyLocation s m)) =
     (if vars (allowVar (ls_name s)) = ''0'' then Answer [''403'']
      else Proxied (''http://127.0.0.1:'' @ Itoa (ls_port s)) proxied_headers)"
  by (simp add: run_location_def proxyLocation_def proxied_headers_def)

lemma serve_ingress:
  assumes "prefix ''/'' path"
  shows "serve rx vars (ingressServer s la bp regexes) path =
     (if vars (allowVar (ls_name s)) = ''0'' then Answer [''403'']
      else if \<exists>r\<in>set regexes. rx r path then Proxied (''http://127.0.0.1:'' @ Itoa (ls_port s)) proxied_headers
      else Answer [''404'', not_found_json])"
proof -
  let ?regex = "map (\<lambda>r. proxyLocation s [''~'', r]) regexes"
  let ?last = "block ''location'' [''/'']
             [block ''if'' [allowVar (ls_name s), ''='', ''0''] [dir ''return'' [''403'']],
              dir ''default_type'' [''application/json''],
              dir ''return'' [''404'', not_found_json]]"
  let ?plain = "[dir ''listen'' [la @ '':'' @ Itoa MTLSPort, ''ssl''], dir ''server_name'' [ls_sni s],
         dir ''ssl_certificate'' [ls_cert s], dir ''ssl_certificate_key'' [ls_key s],
         dir ''ssl_client_certificate'' [bp], dir ''ssl_verify_client'' [''on'']]"
  have ch: "children_of (ingressServer s la bp regexes) = ?plain @ [] @ ?regex @ [?last]"
    by (simp add: ingressServer_def)
  have pick: "pick_location rx (?plain @ [] @ ?regex @ [?last]) path =
      (case find (\<lambda>d. rx (d_args d ! 1) path) ?regex of Some d \<Rightarrow> Some d | None \<Rightarrow> Some ?last)"
    by (subst pick_plain) (use assms in \<open>auto simp: proxyLocation_def split: option.splits\<close>)
  have find: "find (\<lambda>d. rx (d_args d ! 1) path) ?regex = map_option (\<lambda>r. proxyLocation s [''~'', r]) (find (\<lambda>r. rx r path) regexes)"
    by (induction regexes) (simp_all add: proxyLocation_def)
  have ex: "find (\<lambda>r. rx r path) regexes = None \<longleftrightarrow> \<not> (\<exists>r\<in>set regexes. rx r path)"
    by (auto simp: find_None_iff)
  have last: "run_location vars (children_of ?last) = (if vars (allowVar (ls_name s)) = ''0'' then Answer [''403''] else Answer [''404'', not_found_json])"
    by (simp add: run_location_def)
  show ?thesis
    unfolding serve_def ch pick find
    using ex last by (cases "find (\<lambda>r. rx r path) regexes") (auto simp: run_proxyLocation)
qed

lemma glob_regexes_match:
  "glob_regexes name gs = Inr rs \<Longrightarrow>
     (\<exists>r\<in>set rs. path_rx r path) \<longleftrightarrow> (\<exists>g\<in>set gs. \<exists>p. Parse g = Inr p \<and> Matches p path)"
  by (induction gs arbitrary: rs) (auto simp: path_rx_Regex split: sum.splits)

lemma local_regexes_match:
  assumes "local_regexes s = Inr rs"
  shows "(\<exists>r\<in>set rs. path_rx r path) \<longleftrightarrow> (\<exists>g\<in>set (ls_paths s). \<exists>p. Parse g = Inr p \<and> Matches p path)"
proof -
  have "glob_regexes (ls_name s) (sort (ls_paths s)) = Inr rs"
    using assms by (simp add: local_regexes_def split: if_splits)
  from glob_regexes_match [OF this, of path] show ?thesis by simp
qed

lemma first_local_err_None: "first_local_err ss = None \<Longrightarrow> s \<in> set ss \<Longrightarrow> \<exists>rs. local_regexes s = Inr rs"
  by (induction ss) (auto split: sum.splits)

lemma regexes_of_single:
  assumes "s \<in> set ss" "distinct (map ls_name ss)" "local_regexes s = Inr rs"
  shows "regexes_of ss (ls_name s) = rs"
proof -
  have "filter (\<lambda>t. ls_name t = ls_name s) ss = [s]"
    using assms(1,2) by (induction ss) (auto simp: filter_empty_conv, metis (full_types) imageI)
  then show ?thesis by (simp add: regexes_of_def assms(3))
qed

subsection \<open>The variables of a whole configuration\<close>

lemma named_map_servers [simp]:
  "named ''map'' (map (\<lambda>s. ingressServer s la bp (rs s)) ls) = []"
  "named ''map'' (map (\<lambda>e. egressServer e bp) es) = []"
  by (induction ls) (simp_all add: ingressServer_def, induction es, simp_all add: egressServer_def)

lemma egress_keep:
  assumes "egressDirectives egress targets bp = Inr egr" "v \<noteq> ''$mesh_addr''" "v \<noteq> ''$mesh_sni''"
  shows "map_vars egr vars v = vars v"
proof (cases "egress = []")
  case True
  then show ?thesis using assms(1) by (simp add: egressDirectives_def)
next
  case False
  then show ?thesis
    using assms by (auto simp: egressDirectives_def Let_def map_vars_skip split: if_splits option.splits)
qed

text \<open>The part of the http context that matters to a callee.\<close>

lemma mesh_http_local:
  assumes "mesh_http c = Inr http" "s \<in> set (mc_local c)"
  defines "ls \<equiv> sort_key ls_name (mc_local c)"
  obtains egr where "egressDirectives (mc_egress c) (mc_targets c) (mc_bundle c) = Inr egr"
    "first_local_err ls = None"
    "http = upgrade_map # (caller_map # map allow_map ls
       @ map (\<lambda>s. ingressServer s (mc_listen c) (mc_bundle c) (regexes_of ls (ls_name s))) ls) @ egr"
proof -
  have "mc_local c \<noteq> []" using assms(2) by auto
  then show thesis
    using assms(1) that unfolding ls_def
    by (auto simp: mesh_http_def ingressDirectives_def Let_def split: if_splits sum.splits option.splits)
qed

lemma mesh_vars:
  assumes c: "mesh_http c = Inr http" "s \<in> set (mc_local c)"
    and d: "distinct (map (allowVar \<circ> ls_name) (mc_local c))"
    and p: "\<forall>caller\<in>set (ls_callers s). plain_key caller"
    and cn: "cn_of (vars ''$ssl_client_s_dn'') = Some cn"
  shows "map_vars http vars (allowVar (ls_name s)) = (if lower cn \<in> lower ` set (ls_callers s) then ''1'' else ''0'')"
    and "map_vars http vars ''$mesh_caller'' = cn"
proof -
  let ?ls = "sort_key ls_name (mc_local c)"
  obtain egr where e: "egressDirectives (mc_egress c) (mc_targets c) (mc_bundle c) = Inr egr" "first_local_err ?ls = None"
    and http: "http = upgrade_map # (caller_map # map allow_map ?ls
       @ map (\<lambda>s. ingressServer s (mc_listen c) (mc_bundle c) (regexes_of ?ls (ls_name s))) ?ls) @ egr"
    by (rule mesh_http_local [OF c])
  have dl: "distinct (map (allowVar \<circ> ls_name) ?ls)"
    using d by (simp add: distinct_map)
  let ?v1 = "map_vars [upgrade_map] vars" and ?v2 = "map_vars [upgrade_map, caller_map] vars"
  have v1: "?v1 ''$ssl_client_s_dn'' = vars ''$ssl_client_s_dn''" by simp
  have v2: "?v2 ''$mesh_caller'' = cn" using caller_value [OF cn] v1 by simp
  have all: "map_vars http vars v = map_vars egr (map_vars (map allow_map ?ls) ?v2) v" for v
    unfolding http by (simp add: map_vars_append map_vars_skip)
  show "map_vars http vars (allowVar (ls_name s)) = (if lower cn \<in> lower ` set (ls_callers s) then ''1'' else ''0'')"
    unfolding all egress_keep [OF e(1) allowVar_other(2,3)]
    using allow_vars_value [OF _ dl, of s] c(2) allow_value [OF p] v2 by simp
  have "''$mesh_caller'' \<notin> allowVar ` ls_name ` set ?ls" by auto
  then show "map_vars http vars ''$mesh_caller'' = cn"
    unfolding all using egress_keep [OF e(1), of "''$mesh_caller''"] by (simp add: allow_vars_keep caller_value [OF cn])
qed

subsection \<open>Properties\<close>

text \<open>The mesh proxy of a host lets a verified peer reach a local service exactly when the service
  lists its identity and declares the path: on every path a peer that is not listed gets 403, a listed
  peer gets 404 outside the declared globs, and inside them the request goes to the service's loopback
  port with the identity of the certificate.\<close>
lemma mesh_authorization:
  assumes "mesh_http c = Inr http" "s \<in> set (mc_local c)"
    and "distinct (map (allowVar \<circ> ls_name) (mc_local c))"
    and "\<forall>caller\<in>set (ls_callers s). plain_key caller"
    and "cn_of (vars ''$ssl_client_s_dn'') = Some cn" "prefix ''/'' path"
  shows "\<exists>srv\<in>set http. d_name srv = ''server'' \<and> dir ''server_name'' [ls_sni s] \<in> set (children_of srv)
    \<and> map_vars http vars ''$mesh_caller'' = cn
    \<and> serve path_rx (map_vars http vars) srv path =
        (if lower cn \<notin> lower ` set (ls_callers s) then Answer [''403'']
         else if \<exists>g\<in>set (ls_paths s). \<exists>p. Parse g = Inr p \<and> Matches p path
         then Proxied (''http://127.0.0.1:'' @ Itoa (ls_port s)) proxied_headers
         else Answer [''404'', not_found_json])"
proof -
  let ?ls = "sort_key ls_name (mc_local c)"
  obtain egr where "egressDirectives (mc_egress c) (mc_targets c) (mc_bundle c) = Inr egr" and fe: "first_local_err ?ls = None"
    and http: "http = upgrade_map # (caller_map # map allow_map ?ls
       @ map (\<lambda>s. ingressServer s (mc_listen c) (mc_bundle c) (regexes_of ?ls (ls_name s))) ?ls) @ egr"
    by (rule mesh_http_local [OF assms(1,2)])
  have sl: "s \<in> set ?ls" using assms(2) by simp
  obtain rs where rs: "local_regexes s = Inr rs" using first_local_err_None [OF fe sl] by blast
  have dn: "distinct (map ls_name ?ls)"
    using assms(3) by (auto simp: distinct_map intro: inj_on_imageI2)
  let ?srv = "ingressServer s (mc_listen c) (mc_bundle c) (regexes_of ?ls (ls_name s))"
  have "?srv \<in> set http" using sl unfolding http by auto
  moreover have "d_name ?srv = ''server''" "dir ''server_name'' [ls_sni s] \<in> set (children_of ?srv)"
    by (simp_all add: ingressServer_def)
  moreover note mesh_vars [where vars = vars, OF assms(1-5)]
  moreover have "(\<exists>r\<in>set (regexes_of ?ls (ls_name s)). path_rx r path) \<longleftrightarrow>
      (\<exists>g\<in>set (ls_paths s). \<exists>p. Parse g = Inr p \<and> Matches p path)"
    unfolding regexes_of_single [OF sl dn rs] by (rule local_regexes_match [OF rs])
  ultimately show ?thesis
    by (intro bexI [of _ ?srv]) (simp_all add: serve_ingress [OF assms(6)])
qed

definition demo_local :: "string \<Rightarrow> string list \<Rightarrow> int \<Rightarrow> local_service" where
  "demo_local name callers port =
     \<lparr>ls_name = name, ls_sni = name @ ''.us'', ls_port = port, ls_cert = ''c'', ls_key = ''k'',
      ls_callers = callers, ls_paths = [''/v1/**'']\<rparr>"

definition demo_mesh :: "local_service list \<Rightarrow> mesh_config" where
  "demo_mesh ls = \<lparr>mc_listen = ''10.0.0.2'', mc_bundle = ''b'', mc_local = ls, mc_egress = [], mc_targets = []\<rparr>"

definition demo_vars :: "string \<Rightarrow> string \<Rightarrow> string" where
  "demo_vars cn = (\<lambda>v. if v = ''$ssl_client_s_dn'' then ''CN='' @ cn else [])"

definition http_of :: "mesh_config \<Rightarrow> directive list" where
  "http_of c = (case mesh_http c of Inr http \<Rightarrow> http | Inl e \<Rightarrow> [])"

lemma http_of_ok: "is_ok (mesh_http c) \<Longrightarrow> mesh_http c = Inr (http_of c)"
  by (cases "mesh_http c") (simp_all add: http_of_def is_ok_def)

lemma demo_regexes: "local_regexes (demo_local ''ddns'' [''us/api''] 9000) = Inr [''^/v1(/.*)?$'']"
  by code_simp

lemma demo_http_ok: "is_ok (mesh_http (demo_mesh [demo_local ''ddns'' [''us/api''] 9000]))"
  by (simp add: mesh_http_def demo_mesh_def ingressDirectives_def egressDirectives_def demo_regexes is_ok_def Let_def)

lemma port_text: "Itoa 9000 = ''9000''" "Itoa 9001 = ''9001''"
  by (simp_all add: Itoa_def itoa.simps digit_def) code_simp+

theorem mesh_authorization_witness:
  "\<exists>srv\<in>set (http_of (demo_mesh [demo_local ''ddns'' [''us/api''] 9000])).
     serve path_rx (map_vars (http_of (demo_mesh [demo_local ''ddns'' [''us/api''] 9000])) (demo_vars ''us/api'')) srv ''/v1/x''
       = Proxied ''http://127.0.0.1:9000'' proxied_headers"
proof -
  let ?s = "demo_local ''ddns'' [''us/api''] 9000"
  have p: "case Parse ''/v1/**'' of Inr p \<Rightarrow> Matches p ''/v1/x'' | Inl e \<Rightarrow> False" by code_simp
  then have m: "\<exists>g\<in>set (ls_paths ?s). \<exists>p. Parse g = Inr p \<and> Matches p ''/v1/x''"
    by (auto simp: demo_local_def split: sum.splits)
  have "\<forall>caller\<in>set (ls_callers ?s). plain_key caller" "cn_of (demo_vars ''us/api'' ''$ssl_client_s_dn'') = Some ''us/api''"
    by (simp_all add: demo_local_def demo_vars_def plain_key_def cn_of_def)
  moreover have "?s \<in> set (mc_local (demo_mesh [?s]))" "distinct (map (allowVar \<circ> ls_name) (mc_local (demo_mesh [?s])))"
    by (simp_all add: demo_mesh_def)
  moreover have "''http://127.0.0.1:'' @ Itoa (ls_port ?s) = ''http://127.0.0.1:9000''"
    by (simp add: demo_local_def port_text)
  moreover have "lower ''us/api'' \<in> lower ` set (ls_callers ?s)" by (simp add: demo_local_def)
  moreover have "prefix ''/'' ''/v1/x''" by simp
  ultimately have "\<exists>srv\<in>set (http_of (demo_mesh [?s])). d_name srv = ''server''
      \<and> dir ''server_name'' [ls_sni ?s] \<in> set (children_of srv)
      \<and> map_vars (http_of (demo_mesh [?s])) (demo_vars ''us/api'') ''$mesh_caller'' = ''us/api''
      \<and> serve path_rx (map_vars (http_of (demo_mesh [?s])) (demo_vars ''us/api'')) srv ''/v1/x'' =
        Proxied ''http://127.0.0.1:9000'' proxied_headers"
    using mesh_authorization [where vars = "demo_vars ''us/api''" and s = ?s and cn = "''us/api''" and path = "''/v1/x''",
        OF http_of_ok [OF demo_http_ok]] m
    by simp
  then show ?thesis by blast
qed

text \<open>
  Names that differ only in other characters share their allow variable, and the later map decides for
  both: here the peer that only \<open>a_b\<close> lists reaches \<open>a-b\<close>.
\<close>

definition clash_mesh :: mesh_config where
  "clash_mesh = demo_mesh [demo_local ''a-b'' [''us/x''] 9001, demo_local ''a_b'' [''us/y''] 9002]"

lemma clash_regexes:
  "local_regexes (demo_local ''a-b'' [''us/x''] 9001) = Inr [''^/v1(/.*)?$'']"
  "local_regexes (demo_local ''a_b'' [''us/y''] 9002) = Inr [''^/v1(/.*)?$'']"
  by code_simp+

lemma clash_http:
  "http_of clash_mesh = [upgrade_map, caller_map, allow_map (demo_local ''a-b'' [''us/x''] 9001),
     allow_map (demo_local ''a_b'' [''us/y''] 9002),
     ingressServer (demo_local ''a-b'' [''us/x''] 9001) ''10.0.0.2'' ''b'' [''^/v1(/.*)?$''],
     ingressServer (demo_local ''a_b'' [''us/y''] 9002) ''10.0.0.2'' ''b'' [''^/v1(/.*)?$'']]"
proof -
  have "sort_key ls_name [demo_local ''a-b'' [''us/x''] 9001, demo_local ''a_b'' [''us/y''] 9002]
      = [demo_local ''a-b'' [''us/x''] 9001, demo_local ''a_b'' [''us/y''] 9002]"
    by (simp add: demo_local_def)
  then show ?thesis
    by (simp add: http_of_def clash_mesh_def mesh_http_def demo_mesh_def ingressDirectives_def egressDirectives_def
        clash_regexes regexes_of_def Let_def) (simp add: demo_local_def)
qed

lemma allow_variables_clash:
  "\<exists>srv\<in>set (http_of clash_mesh).
     srv = ingressServer (demo_local ''a-b'' [''us/x''] 9001) ''10.0.0.2'' ''b'' [''^/v1(/.*)?$'']
     \<and> serve path_rx (map_vars (http_of clash_mesh) (demo_vars ''us/y'')) srv ''/v1/x''
         = Proxied ''http://127.0.0.1:9001'' proxied_headers"
proof -
  have v: "map_vars (http_of clash_mesh) (demo_vars ''us/y'') (allowVar ''a-b'') = ''1''"
  proof -
    have "allowVar ''a-b'' = allowVar ''a_b''" by code_simp
    moreover have "map_value (children_of (allow_map (demo_local ''a_b'' [''us/y''] 9002))) ''us/y'' = ''1''"
      by (subst allow_value) (simp_all add: demo_local_def plain_key_def)
    moreover have "map_value (children_of caller_map) (''CN=us/y'') = ''us/y''"
      by (rule caller_value) (simp add: cn_of_def)
    ultimately show ?thesis
      by (simp add: clash_http demo_vars_def map_vars_skip ingressServer_def) (simp add: demo_local_def)
  qed
  have rx: "path_rx ''^/v1(/.*)?$'' ''/v1/x''" by code_simp
  let ?srv = "ingressServer (demo_local ''a-b'' [''us/x''] 9001) ''10.0.0.2'' ''b'' [''^/v1(/.*)?$'']"
  have sv: "serve path_rx vs ?srv ''/v1/x'' = Proxied ''http://127.0.0.1:9001'' proxied_headers"
    if "vs (allowVar ''a-b'') = ''1''" for vs
    using that rx by (simp add: serve_ingress) (simp add: demo_local_def port_text)
  have "?srv \<in> set (http_of clash_mesh)" by (simp add: clash_http)
  then show ?thesis
    using sv [of "map_vars (http_of clash_mesh) (demo_vars ''us/y'')", OF v] by blast
qed

end
