(* ===== verification/ObjectStore.thy ===== *)
theory ObjectStore
  imports Prelude
begin

text \<open>
  The S3 interface of the release store and of the state-lock check (\<open>s3API\<close> of
  \<open>internal/release/store.go\<close>, \<open>stackLockChecker\<close> of \<open>cmd/inforge/statelock.go\<close>), the loop that
  pages a listing, and the laws the code relies on, as locales.  The bucket is a service: its
  operations are a parameter, and the laws state what S3 documents.  The in-memory fake of
  \<open>internal/release/fake_test.go\<close> is modelled and satisfies them.
\<close>

subsection \<open>The interface\<close>

record s3_err =
  se_status :: nat
  se_code :: "string option"

definition isNotFound :: "s3_err \<Rightarrow> bool" where
  "isNotFound e \<longleftrightarrow>
     se_status e = 404 \<or> (case se_code e of None \<Rightarrow> False | Some c \<Rightarrow> c = ''NoSuchKey'' \<or> c = ''NotFound'')"

definition isPreconditionFailed :: "s3_err \<Rightarrow> bool" where
  "isPreconditionFailed e \<longleftrightarrow>
     se_status e = 412 \<or> (case se_code e of None \<Rightarrow> False | Some c \<Rightarrow> c = ''PreconditionFailed'')"

datatype put_cond = Unconditional | IfMatch string | IfNoneMatch

record s3_object =
  so_key :: string
  so_modified :: "int option"

record list_page =
  pg_contents :: "s3_object list"
  pg_truncated :: bool
  pg_next :: "string option"

text \<open>
  \<open>'s\<close> is the world that holds the bucket and \<open>'b\<close> an object body; a body that breaks off while it
  is read is an \<open>Inl\<close>.
\<close>

record ('s, 'b) s3API =
  s3_PutObject :: "string \<Rightarrow> put_cond \<Rightarrow> 'b \<Rightarrow> 's \<Rightarrow> s3_err option \<times> 's"
  s3_GetObject :: "string \<Rightarrow> 's \<Rightarrow> (s3_err + (string + 'b) \<times> string) \<times> 's"
  s3_HeadObject :: "string \<Rightarrow> 's \<Rightarrow> s3_err option \<times> 's"
  s3_ListObjectsV2 :: "string \<Rightarrow> string option \<Rightarrow> 's \<Rightarrow> (s3_err + list_page) \<times> 's"
  s3_DeleteObject :: "string \<Rightarrow> 's \<Rightarrow> s3_err option \<times> 's"

subsection \<open>Paging a listing\<close>

text \<open>
  The loop that the listing functions share: \<open>handle\<close> processes one object, \<open>next\<close> decides from a
  page whether to go on and with which token.  \<open>None\<close> is a loop that never ends.
\<close>

fun handle_all :: "(s3_object \<Rightarrow> 'a \<Rightarrow> 's \<Rightarrow> ('e + 'a) \<times> 's) \<Rightarrow> s3_object list \<Rightarrow> 'a \<Rightarrow> 's
    \<Rightarrow> ('e + 'a) \<times> 's" where
  "handle_all handle [] acc s = (Inr acc, s)"
| "handle_all handle (ob # obs) acc s =
     (case handle ob acc s of
        (Inl e, s1) \<Rightarrow> (Inl e, s1)
      | (Inr acc1, s1) \<Rightarrow> handle_all handle obs acc1 s1)"

partial_function (option) page_loop :: "('s, 'b) s3API \<Rightarrow> string \<Rightarrow> (list_page \<Rightarrow> string option option)
    \<Rightarrow> (s3_err \<Rightarrow> 'e) \<Rightarrow> (s3_object \<Rightarrow> 'a \<Rightarrow> 's \<Rightarrow> ('e + 'a) \<times> 's) \<Rightarrow> 'a \<Rightarrow> string option \<Rightarrow> 's
    \<Rightarrow> (('e + 'a) \<times> 's) option" where
  "page_loop api pre next wrap handle acc tok s =
     (case s3_ListObjectsV2 api pre tok s of
        (Inl e, s1) \<Rightarrow> Some (Inl (wrap e), s1)
      | (Inr pg, s1) \<Rightarrow>
          (case handle_all handle (pg_contents pg) acc s1 of
             (Inl e, s2) \<Rightarrow> Some (Inl e, s2)
           | (Inr acc1, s2) \<Rightarrow>
               (case next pg of
                  None \<Rightarrow> Some (Inr acc1, s2)
                | Some tok1 \<Rightarrow> page_loop api pre next wrap handle acc1 tok1 s2)))"

declare page_loop.simps [code]

text \<open>The three ways the code decides to fetch another page.\<close>

definition more_truncated :: "list_page \<Rightarrow> string option option" where
  "more_truncated pg = (if pg_truncated pg then Some (pg_next pg) else None)"

definition more_guarded :: "list_page \<Rightarrow> string option option" where
  "more_guarded pg =
     (if \<not> pg_truncated pg then None
      else case pg_next pg of None \<Rightarrow> None | Some t \<Rightarrow> if t = [] then None else Some (Some t))"

definition more_token :: "list_page \<Rightarrow> string option option" where
  "more_token pg = map_option Some (pg_next pg)"

subsection \<open>The laws of conditional writes\<close>

text \<open>What an object must be for a conditional write to take place.\<close>

definition cond_holds :: "put_cond \<Rightarrow> ('b \<times> string) option \<Rightarrow> bool" where
  "cond_holds c v =
     (case c of
        Unconditional \<Rightarrow> True
      | IfNoneMatch \<Rightarrow> v = None
      | IfMatch t \<Rightarrow> (case v of None \<Rightarrow> False | Some (b, t') \<Rightarrow> t' = t))"

text \<open>
  \<open>obj s k\<close> is the body and ETag stored under \<open>k\<close>.  An ETag stands for one body of its key for good
  (\<open>later\<close> orders the states of one history).  A refused write changes nothing and is refused for
  its condition; a write that fails in any other way may have taken place or not.
\<close>

locale cas_store =
  fixes api :: "('s, 'b) s3API"
    and obj :: "'s \<Rightarrow> string \<Rightarrow> ('b \<times> string) option"
    and valid :: "'s \<Rightarrow> bool"
    and later :: "'s \<Rightarrow> 's \<Rightarrow> bool"
  assumes later_refl: "later s s"
    and later_trans: "later s s1 \<Longrightarrow> later s1 s2 \<Longrightarrow> later s s2"
    and later_valid: "valid s \<Longrightarrow> later s s1 \<Longrightarrow> valid s1"
    and later_version: "valid s \<Longrightarrow> later s s1 \<Longrightarrow> obj s k = Some (b, t) \<Longrightarrow> obj s1 k = Some (b1, t) \<Longrightarrow> b1 = b"
    and get_same: "valid s \<Longrightarrow> s3_GetObject api k s = (r, s1) \<Longrightarrow> later s s1 \<and> obj s1 = obj s"
    and get_found: "valid s \<Longrightarrow> s3_GetObject api k s = (Inr (body, t), s1) \<Longrightarrow>
          \<exists>b. obj s k = Some (b, t) \<and> (body = Inr b \<or> (\<exists>e. body = Inl e))"
    and get_missing: "valid s \<Longrightarrow> s3_GetObject api k s = (Inl e, s1) \<Longrightarrow> isNotFound e \<Longrightarrow> obj s k = None"
    and put_later: "valid s \<Longrightarrow> s3_PutObject api k c b s = (res, s1) \<Longrightarrow> later s s1"
    and put_done: "valid s \<Longrightarrow> s3_PutObject api k c b s = (None, s1) \<Longrightarrow>
          cond_holds c (obj s k) \<and> (\<exists>t. obj s1 = (obj s)(k \<mapsto> (b, t)))"
    and put_refused: "valid s \<Longrightarrow> s3_PutObject api k c b s = (Some e, s1) \<Longrightarrow> isPreconditionFailed e \<Longrightarrow>
          \<not> cond_holds c (obj s k) \<and> obj s1 = obj s"
    and put_failed: "valid s \<Longrightarrow> s3_PutObject api k c b s = (Some e, s1) \<Longrightarrow> \<not> isPreconditionFailed e \<Longrightarrow>
          obj s1 = obj s \<or> cond_holds c (obj s k) \<and> (\<exists>t. obj s1 = (obj s)(k \<mapsto> (b, t)))"

subsection \<open>The laws of listings and deletes\<close>

text \<open>
  \<open>rest s p tok\<close> is what a listing of prefix \<open>p\<close> has still to return from the token on.  A truncated
  page is not empty and names the token of the next.
\<close>

locale object_store = cas_store api obj valid later
  for api :: "('s, 'b) s3API" and obj valid later +
  fixes rest :: "'s \<Rightarrow> string \<Rightarrow> string option \<Rightarrow> s3_object list"
  assumes rest_cong: "valid s \<Longrightarrow> valid s1 \<Longrightarrow> obj s = obj s1 \<Longrightarrow> map so_key (rest s p tok) = map so_key (rest s1 p tok)"
    and rest_all: "valid s \<Longrightarrow> so_key ` set (rest s p None) = {k. obj s k \<noteq> None \<and> prefix p k}"
    and list_same: "valid s \<Longrightarrow> s3_ListObjectsV2 api p tok s = (page, s1) \<Longrightarrow> later s s1 \<and> obj s1 = obj s"
    and list_last: "valid s \<Longrightarrow> s3_ListObjectsV2 api p tok s = (Inr pg, s1) \<Longrightarrow> \<not> pg_truncated pg \<Longrightarrow>
          pg_next pg = None \<and> map so_key (rest s p tok) = map so_key (pg_contents pg)"
    and list_more: "valid s \<Longrightarrow> s3_ListObjectsV2 api p tok s = (Inr pg, s1) \<Longrightarrow> pg_truncated pg \<Longrightarrow>
          pg_contents pg \<noteq> [] \<and> (\<exists>t. pg_next pg = Some t \<and> t \<noteq> []
            \<and> map so_key (rest s p tok) = map so_key (pg_contents pg @ rest s p (Some t)))"
    and delete_later: "valid s \<Longrightarrow> s3_DeleteObject api k s = (gone, s1) \<Longrightarrow> later s s1"
    and delete_done: "valid s \<Longrightarrow> s3_DeleteObject api k s = (None, s1) \<Longrightarrow> obj s1 = (obj s)(k := None)"
    and delete_failed: "valid s \<Longrightarrow> s3_DeleteObject api k s = (Some e, s1) \<Longrightarrow>
          obj s1 = obj s \<or> obj s1 = (obj s)(k := None)"
begin

text \<open>The paging decisions agree on what the laws allow.\<close>

lemma more_agree:
  assumes "valid s" "s3_ListObjectsV2 api p tok s = (Inr pg, s1)"
  shows "more_guarded pg = more_truncated pg" and "more_token pg = more_truncated pg"
  using list_more [OF assms] list_last [OF assms]
  by (auto simp: more_guarded_def more_truncated_def more_token_def)

text \<open>
  Paging ends and visits every object: with an invariant \<open>I\<close> of the objects seen and the accumulator
  that one step keeps, the loop keeps it up to the whole listing.
\<close>

lemma handle_all_inv:
  assumes keeps: "\<And>ob acc s r s1. valid s \<Longrightarrow> obj s = V \<Longrightarrow> handle ob acc s = (r, s1) \<Longrightarrow> later s s1 \<and> obj s1 = V"
    and step: "\<And>ob acc s acc1 s1 seen. valid s \<Longrightarrow> obj s = V \<Longrightarrow> I seen acc \<Longrightarrow>
          handle ob acc s = (Inr acc1, s1) \<Longrightarrow> I (seen @ [ob]) acc1"
  shows "valid s \<Longrightarrow> obj s = V \<Longrightarrow> handle_all handle obs acc s = (r, s1) \<Longrightarrow>
     later s s1 \<and> obj s1 = V \<and> (\<forall>acc1. r = Inr acc1 \<longrightarrow> I seen acc \<longrightarrow> I (seen @ obs) acc1)"
proof (induction obs arbitrary: acc s seen)
  case Nil
  then show ?case by (auto simp: later_refl)
next
  case (Cons ob obs)
  obtain q s2 where h: "handle ob acc s = (q, s2)" by fastforce
  note k = keeps [OF Cons.prems(1,2) h]
  show ?case
  proof (cases q)
    case (Inl e)
    then show ?thesis using Cons.prems(3) h k by auto
  next
    case (Inr acc2)
    have "handle_all handle obs acc2 s2 = (r, s1)" using Cons.prems(3) h Inr by simp
    from Cons.IH [OF later_valid [OF Cons.prems(1)] _ this, of "seen @ [ob]"] k
    have ih: "later s2 s1 \<and> obj s1 = V \<and> (\<forall>acc1. r = Inr acc1 \<longrightarrow> I (seen @ [ob]) acc2 \<longrightarrow> I ((seen @ [ob]) @ obs) acc1)"
      by blast
    then show ?thesis using step [OF Cons.prems(1,2)] h Inr k later_trans by fastforce
  qed
qed

lemma page_loop_inv:
  assumes keeps: "\<And>ob acc s r s1. valid s \<Longrightarrow> obj s = V \<Longrightarrow> handle ob acc s = (r, s1) \<Longrightarrow> later s s1 \<and> obj s1 = V"
    and step: "\<And>ob acc s acc1 s1 seen. valid s \<Longrightarrow> obj s = V \<Longrightarrow> I seen acc \<Longrightarrow>
          handle ob acc s = (Inr acc1, s1) \<Longrightarrow> I (seen @ [ob]) acc1"
    and go: "\<And>s tok pg s1. valid s \<Longrightarrow> s3_ListObjectsV2 api p tok s = (Inr pg, s1) \<Longrightarrow> go pg = more_truncated pg"
  shows "valid s \<Longrightarrow> obj s = V \<Longrightarrow>
     \<exists>r s1. page_loop api p go wrap handle acc tok s = Some (r, s1) \<and> later s s1 \<and> obj s1 = V
       \<and> (\<forall>acc1. r = Inr acc1 \<longrightarrow> I seen acc \<longrightarrow>
            (\<exists>obs. map so_key obs = map so_key (rest s p tok) \<and> I (seen @ obs) acc1))"
proof (induction "length (rest s p tok)" arbitrary: s acc tok seen rule: less_induct)
  case less
  obtain q s2 where l: "s3_ListObjectsV2 api p tok s = (q, s2)" by fastforce
  note k = list_same [OF less.prems(1) l]
  show ?case
  proof (cases q)
    case (Inl e)
    then show ?thesis using l k less.prems by (subst page_loop.simps) auto
  next
    case (Inr pg)
    note l = l [unfolded Inr]
    obtain w s3 where h: "handle_all handle (pg_contents pg) acc s2 = (w, s3)" by fastforce
    have v2: "valid s2" "obj s2 = V" using k less.prems later_valid by auto
    have a: "later s2 s3 \<and> obj s3 = V \<and> (\<forall>acc1. w = Inr acc1 \<longrightarrow> I seen acc \<longrightarrow> I (seen @ pg_contents pg) acc1)"
      by (rule handle_all_inv [of V handle I, OF keeps step v2 h])
    have v3: "valid s3" "obj s3 = V" and s3: "later s s3" using a v2 k later_valid later_trans by blast+
    show ?thesis
    proof (cases w)
      case (Inl e)
      then show ?thesis using l h s3 v3 by (subst page_loop.simps) auto
    next
      case (Inr acc2)
      show ?thesis
      proof (cases "pg_truncated pg")
        case False
        then show ?thesis
          using l h s3 v3 a Inr list_last [OF less.prems(1) l False] go [OF less.prems(1) l]
          by (subst page_loop.simps) (auto simp: more_truncated_def)
      next
        case True
        then obtain t where t: "pg_next pg = Some t" "pg_contents pg \<noteq> []"
          "map so_key (rest s p tok) = map so_key (pg_contents pg @ rest s p (Some t))"
          using list_more [OF less.prems(1) l] by auto
        have eq: "map so_key (rest s3 p (Some t)) = map so_key (rest s p (Some t))"
          by (rule rest_cong) (simp_all add: v3 less.prems)
        have "length (rest s3 p (Some t)) < length (rest s p tok)"
          using map_eq_imp_length_eq [OF t(3)] map_eq_imp_length_eq [OF eq] t(2) by simp
        from less.hyps [OF this v3, of acc2 "seen @ pg_contents pg"] obtain r s1 where
          r: "page_loop api p go wrap handle acc2 (Some t) s3 = Some (r, s1)" "later s3 s1" "obj s1 = V"
            "\<forall>acc1. r = Inr acc1 \<longrightarrow> I (seen @ pg_contents pg) acc2 \<longrightarrow>
              (\<exists>obs. map so_key obs = map so_key (rest s3 p (Some t)) \<and> I ((seen @ pg_contents pg) @ obs) acc1)"
          by blast
        have "page_loop api p go wrap handle acc tok s = Some (r, s1)"
          using l h Inr r(1) True t(1) go [OF less.prems(1) l]
          by (subst page_loop.simps) (simp add: more_truncated_def)
        moreover have "\<exists>obs. map so_key obs = map so_key (rest s p tok) \<and> I (seen @ obs) acc1"
          if i: "r = Inr acc1" "I seen acc" for acc1
        proof -
          obtain obs where "map so_key obs = map so_key (rest s3 p (Some t))" "I ((seen @ pg_contents pg) @ obs) acc1"
            using r(4) i a Inr by blast
          then show ?thesis using t(3) eq by (intro exI [of _ "pg_contents pg @ obs"]) simp
        qed
        ultimately show ?thesis using r(2,3) later_trans [OF s3] by blast
      qed
    qed
  qed
qed

end

end
