(* ===== verification/Release.thy ===== *)
theory Release
  imports ObjectStore "HOL-Library.AList" "HOL-Library.Product_Lexorder"
begin

text \<open>
  The release store of \<open>internal/release\<close>: artifact keys, the listing of an artifact's logical
  releases, retention (\<open>store.go\<close>), and the per-environment manifests with their compare-and-swap
  update (\<open>manifest.go\<close>).  The S3 operations and the YAML codec of a manifest are parameters.
\<close>

subsection \<open>Artifact keys\<close>

definition artifactExt :: string where "artifactExt = ''.tar.gz''"
definition NoArch :: string where "NoArch = []"
definition SupportedArchs :: "string list" where "SupportedArchs = [''amd64'', ''arm64'']"

definition artifactKey :: "string \<Rightarrow> string \<Rightarrow> string \<Rightarrow> string" where
  "artifactKey service sha arch =
     (if arch = NoArch then service @ ''/'' @ sha @ artifactExt
      else service @ ''/'' @ sha @ ''-'' @ arch @ artifactExt)"

text \<open>The loop over the architectures strips at most one suffix.\<close>

fun strip_arch :: "string list \<Rightarrow> string \<Rightarrow> string" where
  "strip_arch [] stem = stem"
| "strip_arch (arch # archs) stem =
     (if suffix (''-'' @ arch) stem then trim_suffix (''-'' @ arch) stem else strip_arch archs stem)"

definition shaFromKey :: "string \<Rightarrow> string \<Rightarrow> string" where
  "shaFromKey service key =
     (let pre = service @ ''/'' in
      if \<not> prefix pre key \<or> \<not> suffix artifactExt key then []
      else
        let stem = trim_suffix artifactExt (trim_prefix pre key) in
        if stem = [] \<or> CHR ''/'' \<in> set stem then [] else strip_arch SupportedArchs stem)"

subsection \<open>Manifests\<close>

record deployment =
  dp_sha :: string
  dp_arch :: string
  dp_at :: int

type_synonym manifest = "(string \<times> deployment) list"

definition SHAs :: "manifest \<Rightarrow> string list" where
  "SHAs m = filter (\<lambda>sha. sha \<noteq> []) (map (\<lambda>(h, d). dp_sha d) m)"

definition manifestKey :: "string \<Rightarrow> string \<Rightarrow> string" where
  "manifestKey service env = service @ ''/manifest.'' @ env @ ''.yaml''"

definition isManifestKey :: "string \<Rightarrow> string \<Rightarrow> bool" where
  "isManifestKey service key \<longleftrightarrow> prefix (service @ ''/manifest.'') key \<and> suffix ''.yaml'' key"

datatype rel_err =
    UploadFailed string s3_err
  | HeadFailed string s3_err
  | ArtifactMissing string
  | DownloadFailed string s3_err
  | ListFailed string s3_err
  | DeleteFailed string s3_err
  | ManifestRead string s3_err
  | ManifestBody string string
  | ManifestParse string
  | ManifestMarshal string
  | ManifestWrite string s3_err
  | GaveUp string nat
  | EmptyEnv

text \<open>
  \<open>dec\<close> is the YAML parse and decode of a manifest body (\<open>yamldoc.Parse\<close>, \<open>Decode\<close>), \<open>enc\<close> is
  \<open>yaml.Marshal\<close>.
\<close>

definition getManifestByKey :: "('s, 'b) s3API \<Rightarrow> ('b \<Rightarrow> string + manifest) \<Rightarrow> string \<Rightarrow> 's
    \<Rightarrow> (rel_err + manifest) \<times> 's" where
  "getManifestByKey api dec key s =
     (case s3_GetObject api key s of
        (Inl e, s1) \<Rightarrow> (Inl (ManifestRead key e), s1)
      | (Inr (Inl e, t), s1) \<Rightarrow> (Inl (ManifestBody key e), s1)
      | (Inr (Inr body, t), s1) \<Rightarrow>
          (case dec body of Inl e \<Rightarrow> (Inl (ManifestParse e), s1) | Inr m \<Rightarrow> (Inr m, s1)))"

text \<open>\<open>LoadManifest\<close>: the manifest, its ETag, and whether it is there; a missing one is empty.\<close>

definition LoadManifest :: "('s, 'b) s3API \<Rightarrow> ('b \<Rightarrow> string + manifest) \<Rightarrow> string \<Rightarrow> string \<Rightarrow> 's
    \<Rightarrow> (rel_err + manifest \<times> string \<times> bool) \<times> 's" where
  "LoadManifest api dec service env s =
     (let key = manifestKey service env in
      case s3_GetObject api key s of
        (Inl e, s1) \<Rightarrow> if isNotFound e then (Inr ([], [], False), s1) else (Inl (ManifestRead key e), s1)
      | (Inr (Inl e, t), s1) \<Rightarrow> (Inl (ManifestBody key e), s1)
      | (Inr (Inr body, t), s1) \<Rightarrow>
          (case dec body of Inl e \<Rightarrow> (Inl (ManifestParse e), s1) | Inr m \<Rightarrow> (Inr (m, t, True), s1)))"

text \<open>
  One deployment to record.  \<open>SetDeployment\<close> is a loop of two interactions with the bucket, the read
  and the conditional write; other writers may act between them, so it is a machine of one step per
  interaction.
\<close>

record set_call =
  sc_service :: string
  sc_env :: string
  sc_host :: string
  sc_dep :: deployment

datatype set_pc = SetLoad nat | SetPut nat manifest string bool | SetDone "rel_err option"

definition manifestCASAttempts :: nat where "manifestCASAttempts = 5"

definition call_key :: "set_call \<Rightarrow> string" where
  "call_key c = manifestKey (sc_service c) (sc_env c)"

definition set_load :: "('s, 'b) s3API \<Rightarrow> ('b \<Rightarrow> string + manifest) \<Rightarrow> set_call \<Rightarrow> nat \<Rightarrow> 's \<Rightarrow> set_pc \<times> 's" where
  "set_load api dec c n s =
     (if n \<ge> manifestCASAttempts then (SetDone (Some (GaveUp (call_key c) manifestCASAttempts)), s)
      else case LoadManifest api dec (sc_service c) (sc_env c) s of
             (Inl e, s1) \<Rightarrow> (SetDone (Some e), s1)
           | (Inr (m, t, ex), s1) \<Rightarrow> (SetPut n m t ex, s1))"

definition set_put :: "('s, 'b) s3API \<Rightarrow> (manifest \<Rightarrow> string + 'b) \<Rightarrow> set_call \<Rightarrow> nat \<Rightarrow> manifest \<Rightarrow> string
    \<Rightarrow> bool \<Rightarrow> 's \<Rightarrow> set_pc \<times> 's" where
  "set_put api enc c n m t ex s =
     (case enc (AList.update (sc_host c) (sc_dep c) m) of
        Inl e \<Rightarrow> (SetDone (Some (ManifestMarshal e)), s)
      | Inr body \<Rightarrow>
          (case s3_PutObject api (call_key c) (if ex then IfMatch t else IfNoneMatch) body s of
             (None, s1) \<Rightarrow> (SetDone None, s1)
           | (Some e, s1) \<Rightarrow>
               if isPreconditionFailed e then (SetLoad (n + 1), s1)
               else (SetDone (Some (ManifestWrite (call_key c) e)), s1)))"

fun set_step :: "('s, 'b) s3API \<Rightarrow> ('b \<Rightarrow> string + manifest) \<Rightarrow> (manifest \<Rightarrow> string + 'b) \<Rightarrow> set_call
    \<Rightarrow> set_pc \<Rightarrow> 's \<Rightarrow> set_pc \<times> 's" where
  "set_step api dec enc c (SetLoad n) s = set_load api dec c n s"
| "set_step api dec enc c (SetPut n m t ex) s = set_put api enc c n m t ex s"
| "set_step api dec enc c (SetDone r) s = (SetDone r, s)"

text \<open>The call on its own: the steps one after the other, \<open>left\<close> attempts of the loop remaining.\<close>

fun set_attempts :: "('s, 'b) s3API \<Rightarrow> ('b \<Rightarrow> string + manifest) \<Rightarrow> (manifest \<Rightarrow> string + 'b) \<Rightarrow> set_call
    \<Rightarrow> nat \<Rightarrow> 's \<Rightarrow> rel_err option \<times> 's" where
  "set_attempts api dec enc c 0 s = (Some (GaveUp (call_key c) manifestCASAttempts), s)"
| "set_attempts api dec enc c (Suc left) s =
     (case set_load api dec c (manifestCASAttempts - Suc left) s of
        (SetPut n m t ex, s1) \<Rightarrow>
          (case set_put api enc c n m t ex s1 of
             (SetDone r, s2) \<Rightarrow> (r, s2)
           | (_, s2) \<Rightarrow> set_attempts api dec enc c left s2)
      | (SetDone r, s1) \<Rightarrow> (r, s1)
      | (SetLoad n, s1) \<Rightarrow> set_attempts api dec enc c left s1)"

definition SetDeployment :: "('s, 'b) s3API \<Rightarrow> ('b \<Rightarrow> string + manifest) \<Rightarrow> (manifest \<Rightarrow> string + 'b) \<Rightarrow> set_call
    \<Rightarrow> 's \<Rightarrow> rel_err option \<times> 's" where
  "SetDeployment api dec enc c s = set_attempts api dec enc c manifestCASAttempts s"

subsection \<open>Artifacts\<close>

definition PutArtifact :: "('s, 'b) s3API \<Rightarrow> string \<Rightarrow> string \<Rightarrow> string \<Rightarrow> 'b \<Rightarrow> 's \<Rightarrow> rel_err option \<times> 's" where
  "PutArtifact api service sha arch body s =
     (let key = artifactKey service sha arch in
      apfst (map_option (UploadFailed key)) (s3_PutObject api key Unconditional body s))"

definition ArtifactExists :: "('s, 'b) s3API \<Rightarrow> string \<Rightarrow> string \<Rightarrow> string \<Rightarrow> 's \<Rightarrow> (rel_err + bool) \<times> 's" where
  "ArtifactExists api service sha arch s =
     (let key = artifactKey service sha arch in
      case s3_HeadObject api key s of
        (None, s1) \<Rightarrow> (Inr True, s1)
      | (Some e, s1) \<Rightarrow> (if isNotFound e then Inr False else Inl (HeadFailed key e), s1))"

definition GetArtifact :: "('s, 'b) s3API \<Rightarrow> string \<Rightarrow> string \<Rightarrow> string \<Rightarrow> 's
    \<Rightarrow> (rel_err + (string + 'b)) \<times> 's" where
  "GetArtifact api service sha arch s =
     (let key = artifactKey service sha arch in
      case s3_GetObject api key s of
        (Inr (body, t), s1) \<Rightarrow> (Inr body, s1)
      | (Inl e, s1) \<Rightarrow> (Inl (if isNotFound e then ArtifactMissing key else DownloadFailed key e), s1))"

record artifact_object =
  ao_key :: string
  ao_sha :: string
  ao_modified :: int

definition artifact_row :: "string \<Rightarrow> s3_object \<Rightarrow> artifact_object list" where
  "artifact_row service ob =
     (let sha = shaFromKey service (so_key ob) in
      if sha = [] then []
      else [\<lparr>ao_key = so_key ob, ao_sha = sha,
             ao_modified = (case so_modified ob of None \<Rightarrow> 0 | Some t \<Rightarrow> t)\<rparr>])"

definition listArtifactObjects :: "('s, 'b) s3API \<Rightarrow> string \<Rightarrow> 's
    \<Rightarrow> ((rel_err + artifact_object list) \<times> 's) option" where
  "listArtifactObjects api service s =
     page_loop api (service @ ''/'') more_truncated (ListFailed service)
       (\<lambda>ob acc s. (Inr (acc @ artifact_row service ob), s)) [] None s"

record artifact =
  at_SHA :: string
  at_modified :: int

text \<open>
  The fold of \<open>coalesceArtifacts\<close>: the order of first sight and the newest time by SHA.  A SHA is
  known once it has a time after the epoch, the zero of the map.
\<close>

definition coalesce_step :: "artifact_object \<Rightarrow> string list \<times> (string \<times> int) list
    \<Rightarrow> string list \<times> (string \<times> int) list" where
  "coalesce_step ob st =
     (case st of (order, newest) \<Rightarrow>
        (if map_of newest (ao_sha ob) = None then order @ [ao_sha ob] else order,
         if ao_modified ob > (case map_of newest (ao_sha ob) of None \<Rightarrow> 0 | Some t \<Rightarrow> t)
         then AList.update (ao_sha ob) (ao_modified ob) newest else newest))"

definition coalesceArtifacts :: "artifact_object list \<Rightarrow> artifact list" where
  "coalesceArtifacts objs =
     (let (order, newest) = fold coalesce_step objs ([], []) in
      map (\<lambda>sha. \<lparr>at_SHA = sha, at_modified = (case map_of newest sha of None \<Rightarrow> 0 | Some t \<Rightarrow> t)\<rparr>) order)"

definition ListArtifacts :: "('s, 'b) s3API \<Rightarrow> string \<Rightarrow> 's \<Rightarrow> ((rel_err + artifact list) \<times> 's) option" where
  "ListArtifacts api service s =
     map_option (apfst (map_sum id coalesceArtifacts)) (listArtifactObjects api service s)"

subsection \<open>Retention\<close>

definition selectForPrune :: "artifact list \<Rightarrow> string list \<Rightarrow> int \<Rightarrow> string list" where
  "selectForPrune arts pinned keep =
     (if keep \<le> 0 then []
      else
        let unpinned = filter (\<lambda>a. at_SHA a \<notin> set pinned) arts in
        if int (length unpinned) \<le> keep then []
        else map at_SHA (drop (nat keep) (sort_key (\<lambda>a. (- at_modified a, at_SHA a)) unpinned)))"

definition pin_row :: "('s, 'b) s3API \<Rightarrow> ('b \<Rightarrow> string + manifest) \<Rightarrow> string \<Rightarrow> s3_object \<Rightarrow> string list \<Rightarrow> 's
    \<Rightarrow> (rel_err + string list) \<times> 's" where
  "pin_row api dec service ob pinned s =
     (if \<not> isManifestKey service (so_key ob) then (Inr pinned, s)
      else case getManifestByKey api dec (so_key ob) s of
             (Inl e, s1) \<Rightarrow> (Inl e, s1)
           | (Inr m, s1) \<Rightarrow> (Inr (pinned @ SHAs m), s1))"

definition PinnedSHAs :: "('s, 'b) s3API \<Rightarrow> ('b \<Rightarrow> string + manifest) \<Rightarrow> string \<Rightarrow> 's
    \<Rightarrow> ((rel_err + string list) \<times> 's) option" where
  "PinnedSHAs api dec service s =
     page_loop api (service @ ''/'') more_truncated (ListFailed service) (pin_row api dec service) [] None s"

text \<open>The delete sweep: the SHAs of the objects deleted and the errors, in the order of the objects.\<close>

fun delete_objects :: "('s, 'b) s3API \<Rightarrow> artifact_object list \<Rightarrow> 's \<Rightarrow> (string list \<times> rel_err list) \<times> 's" where
  "delete_objects api [] s = (([], []), s)"
| "delete_objects api (ob # obs) s =
     (case s3_DeleteObject api (ao_key ob) s of
        (Some e, s1) \<Rightarrow> (case delete_objects api obs s1 of ((gone, errs), s2) \<Rightarrow>
           ((gone, DeleteFailed (ao_key ob) e # errs), s2))
      | (None, s1) \<Rightarrow> (case delete_objects api obs s1 of ((gone, errs), s2) \<Rightarrow>
           ((ao_sha ob # gone, errs), s2)))"

definition victim_objects :: "artifact_object list \<Rightarrow> string list \<Rightarrow> artifact_object list" where
  "victim_objects objs victims = filter (\<lambda>ob. ao_sha ob \<in> set victims) objs"

definition prune_sweep :: "('s, 'b) s3API \<Rightarrow> artifact_object list \<Rightarrow> string list \<Rightarrow> 's
    \<Rightarrow> (string list \<times> rel_err list) \<times> 's" where
  "prune_sweep api objs victims s =
     (let vs = victim_objects objs victims in
      case delete_objects api vs s of
        ((gone, errs), s1) \<Rightarrow>
          ((filter (\<lambda>sha. count_list gone sha = count_list (map ao_sha vs) sha) victims, errs), s1))"

definition Prune :: "('s, 'b) s3API \<Rightarrow> ('b \<Rightarrow> string + manifest) \<Rightarrow> string \<Rightarrow> int \<Rightarrow> 's
    \<Rightarrow> ((rel_err + string list \<times> rel_err list) \<times> 's) option" where
  "Prune api dec service keep s =
     (case listArtifactObjects api service s of
        None \<Rightarrow> None
      | Some (Inl e, s1) \<Rightarrow> Some (Inl e, s1)
      | Some (Inr objs, s1) \<Rightarrow>
          (case PinnedSHAs api dec service s1 of
             None \<Rightarrow> None
           | Some (Inl e, s2) \<Rightarrow> Some (Inl e, s2)
           | Some (Inr pinned, s2) \<Rightarrow>
               Some (apfst Inr (prune_sweep api objs (selectForPrune (coalesceArtifacts objs) pinned keep) s2))))"

text \<open>Teardown of an environment: all its manifests, across the bucket, in the order of their keys.\<close>

fun delete_manifests :: "('s, 'b) s3API \<Rightarrow> string list \<Rightarrow> 's \<Rightarrow> (string list \<times> rel_err option) \<times> 's" where
  "delete_manifests api [] s = (([], None), s)"
| "delete_manifests api (key # keys) s =
     (case s3_DeleteObject api key s of
        (Some e, s1) \<Rightarrow> (([], Some (DeleteFailed key e)), s1)
      | (None, s1) \<Rightarrow> (case delete_manifests api keys s1 of ((gone, err), s2) \<Rightarrow> ((key # gone, err), s2)))"

definition DeleteEnvManifests :: "('s, 'b) s3API \<Rightarrow> string \<Rightarrow> 's
    \<Rightarrow> ((string list \<times> rel_err option) \<times> 's) option" where
  "DeleteEnvManifests api env s =
     (if env = [] then Some (([], Some EmptyEnv), s)
      else
        case page_loop api [] more_guarded (ListFailed env)
               (\<lambda>ob acc s. (Inr (if suffix (''/manifest.'' @ env @ ''.yaml'') (so_key ob)
                                then acc @ [so_key ob] else acc), s)) [] None s of
          None \<Rightarrow> None
        | Some (Inl e, s1) \<Rightarrow> Some (([], Some e), s1)
        | Some (Inr keys, s1) \<Rightarrow> Some (delete_manifests api (sort keys) s1))"

end
