(* ===== verification/ReleaseCas.thy ===== *)
theory ReleaseCas
  imports Release
begin

text \<open>
  The compare-and-swap of \<open>SetDeployment\<close> under concurrency.  Any number of calls run at once: a
  world step is one step of one call, or a change elsewhere in the bucket.  A log records the calls
  whose write took place, in order; the manifest is at any time the replay of the log.
\<close>

subsection \<open>The step relation\<close>

type_synonym 's world = "'s \<times> (nat \<Rightarrow> set_pc) \<times> nat list"

definition committed :: "('s \<Rightarrow> string \<Rightarrow> ('b \<times> string) option) \<Rightarrow> 's \<Rightarrow> set_pc \<Rightarrow> 's \<Rightarrow> set_pc \<Rightarrow> bool" where
  "committed obj s pc s1 pc1 \<longleftrightarrow> obj s1 \<noteq> obj s \<or> pc1 = SetDone None \<and> pc \<noteq> SetDone None"

inductive world_step :: "('s, 'b) s3API \<Rightarrow> ('s \<Rightarrow> string \<Rightarrow> ('b \<times> string) option) \<Rightarrow> ('s \<Rightarrow> 's \<Rightarrow> bool)
    \<Rightarrow> ('b \<Rightarrow> string + manifest) \<Rightarrow> (manifest \<Rightarrow> string + 'b) \<Rightarrow> (nat \<Rightarrow> set_call) \<Rightarrow> 's world \<Rightarrow> 's world \<Rightarrow> bool"
  for api obj later dec enc calls where
  own: "set_step api dec enc (calls i) (pc i) s = (pc1, s1) \<Longrightarrow>
      world_step api obj later dec enc calls (s, pc, log)
        (s1, pc(i := pc1), if committed obj s (pc i) s1 pc1 then log @ [i] else log)"
| foreign: "later s s1 \<Longrightarrow> \<forall>i. obj s1 (call_key (calls i)) = obj s (call_key (calls i)) \<Longrightarrow>
      world_step api obj later dec enc calls (s, pc, log) (s1, pc, log)"

inductive_cases world_stepE: "world_step api obj later dec enc calls (s, pc, log) w"

abbreviation start_world :: "'s \<Rightarrow> 's world" where
  "start_world s \<equiv> (s, \<lambda>_. SetLoad 0, [])"

subsection \<open>The abstract manifest\<close>

definition manifest_view :: "('b \<Rightarrow> string + manifest) \<Rightarrow> ('b \<times> string) option \<Rightarrow> (string \<rightharpoonup> deployment)" where
  "manifest_view dec v =
     (case v of
        None \<Rightarrow> Map.empty
      | Some (b, t) \<Rightarrow> (case dec b of Inl e \<Rightarrow> Map.empty | Inr m \<Rightarrow> map_of m))"

definition apply_call :: "(nat \<Rightarrow> set_call) \<Rightarrow> string \<Rightarrow> nat \<Rightarrow> (string \<rightharpoonup> deployment) \<Rightarrow> (string \<rightharpoonup> deployment)" where
  "apply_call calls key i m =
     (if call_key (calls i) = key then m(sc_host (calls i) \<mapsto> sc_dep (calls i)) else m)"

definition replay :: "(nat \<Rightarrow> set_call) \<Rightarrow> string \<Rightarrow> nat list \<Rightarrow> (string \<rightharpoonup> deployment) \<Rightarrow> (string \<rightharpoonup> deployment)" where
  "replay calls key log m = fold (apply_call calls key) log m"

definition commits :: "(nat \<Rightarrow> set_call) \<Rightarrow> string \<Rightarrow> nat list \<Rightarrow> nat" where
  "commits calls key log = length (filter (\<lambda>j. call_key (calls j) = key) log)"

lemma replay_snoc: "replay calls key (log @ [i]) m = apply_call calls key i (replay calls key log m)"
  by (simp add: replay_def)

lemma commits_snoc:
  "commits calls key (log @ [i]) = commits calls key log + (if call_key (calls i) = key then 1 else 0)"
  by (simp add: commits_def)

definition gave_up :: "set_pc \<Rightarrow> bool" where
  "gave_up pc \<longleftrightarrow> (\<exists>k n. pc = SetDone (Some (GaveUp k n)))"

subsection \<open>The invariant\<close>

text \<open>
  What a call knows between its read and its write: the manifest it read is the one of its ETag, and
  as long as no other write has intervened its condition still holds.
\<close>

definition put_ready :: "('s \<Rightarrow> string \<Rightarrow> ('b \<times> string) option) \<Rightarrow> ('s \<Rightarrow> bool) \<Rightarrow> ('s \<Rightarrow> 's \<Rightarrow> bool)
    \<Rightarrow> ('b \<Rightarrow> string + manifest) \<Rightarrow> string \<Rightarrow> nat \<Rightarrow> nat \<Rightarrow> manifest \<Rightarrow> string \<Rightarrow> bool \<Rightarrow> 's \<Rightarrow> bool" where
  "put_ready obj valid later dec key done n m t ex s \<longleftrightarrow>
     n < manifestCASAttempts
     \<and> (if ex then \<exists>sr b. valid sr \<and> later sr s \<and> obj sr key = Some (b, t) \<and> dec b = Inr m else m = [])
     \<and> (n < done \<or> n \<le> done \<and> cond_holds (if ex then IfMatch t else IfNoneMatch) (obj s key))"

definition pc_inv :: "('s \<Rightarrow> string \<Rightarrow> ('b \<times> string) option) \<Rightarrow> ('s \<Rightarrow> bool) \<Rightarrow> ('s \<Rightarrow> 's \<Rightarrow> bool)
    \<Rightarrow> ('b \<Rightarrow> string + manifest) \<Rightarrow> string \<Rightarrow> nat \<Rightarrow> bool \<Rightarrow> set_pc \<Rightarrow> 's \<Rightarrow> bool" where
  "pc_inv obj valid later dec key done in_log pc s \<longleftrightarrow>
     (case pc of
        SetLoad n \<Rightarrow> n \<le> done \<and> \<not> in_log
      | SetPut n m t ex \<Rightarrow> put_ready obj valid later dec key done n m t ex s \<and> \<not> in_log
      | SetDone None \<Rightarrow> in_log
      | SetDone (Some (GaveUp k n)) \<Rightarrow> manifestCASAttempts \<le> done \<and> \<not> in_log
      | SetDone (Some e) \<Rightarrow> True)"

definition world_inv :: "('s \<Rightarrow> string \<Rightarrow> ('b \<times> string) option) \<Rightarrow> ('s \<Rightarrow> bool) \<Rightarrow> ('s \<Rightarrow> 's \<Rightarrow> bool)
    \<Rightarrow> ('b \<Rightarrow> string + manifest) \<Rightarrow> (nat \<Rightarrow> set_call) \<Rightarrow> 's \<Rightarrow> 's world \<Rightarrow> bool" where
  "world_inv obj valid later dec calls s0 w \<longleftrightarrow>
     (case w of (s, pc, log) \<Rightarrow>
        valid s \<and> distinct log
        \<and> (\<forall>j. let key = call_key (calls j) in
             manifest_view dec (obj s key) = replay calls key log (manifest_view dec (obj s0 key)))
        \<and> (\<forall>i. pc_inv obj valid later dec (call_key (calls i)) (commits calls (call_key (calls i)) log)
                 (i \<in> set log) (pc i) s))"

subsection \<open>Preservation\<close>

text \<open>The YAML codec: a marshalled manifest decodes to the same entries.\<close>

locale release_cas = cas_store api obj valid later
  for api :: "('s, 'b) s3API" and obj valid later +
  fixes dec :: "'b \<Rightarrow> string + manifest" and enc :: "manifest \<Rightarrow> string + 'b"
  assumes codec: "enc m = Inr b \<Longrightarrow> \<exists>m1. dec b = Inr m1 \<and> map_of m1 = map_of m"
begin

lemma load_facts:
  assumes "valid s" "LoadManifest api dec svc env s = (r, s1)"
  shows "later s s1 \<and> obj s1 = obj s"
    and "r = Inr (m, t, True) \<Longrightarrow> \<exists>b. obj s (manifestKey svc env) = Some (b, t) \<and> dec b = Inr m"
    and "r = Inr (m, t, False) \<Longrightarrow> m = [] \<and> obj s (manifestKey svc env) = None"
    and "r \<noteq> Inl (GaveUp k n)"
proof -
  obtain q s2 where g: "s3_GetObject api (manifestKey svc env) s = (q, s2)" by fastforce
  have "s1 = s2" using assms(2) g by (auto simp: LoadManifest_def Let_def split: sum.splits prod.splits if_splits)
  then show "later s s1 \<and> obj s1 = obj s" using get_same [OF assms(1) g] by simp
  show "\<exists>b. obj s (manifestKey svc env) = Some (b, t) \<and> dec b = Inr m" if "r = Inr (m, t, True)"
    using assms(2) g that get_found [OF assms(1)]
    by (fastforce simp: LoadManifest_def Let_def split: sum.splits prod.splits if_splits)
  show "m = [] \<and> obj s (manifestKey svc env) = None" if "r = Inr (m, t, False)"
    using assms(2) g that get_missing [OF assms(1)]
    by (fastforce simp: LoadManifest_def Let_def split: sum.splits prod.splits if_splits)
  show "r \<noteq> Inl (GaveUp k n)"
    using assms(2) g by (auto simp: LoadManifest_def Let_def split: sum.splits prod.splits if_splits)
qed

text \<open>The outcomes of a conditional write of one call.\<close>

lemma put_cases:
  assumes v: "valid s" and p: "set_put api enc c n m t ex s = (pc1, s1)"
  defines "cnd \<equiv> (if ex then IfMatch t else IfNoneMatch)"
  obtains
    (written) b t' where "enc (AList.update (sc_host c) (sc_dep c) m) = Inr b" "cond_holds cnd (obj s (call_key c))"
      "obj s1 = (obj s)(call_key c \<mapsto> (b, t'))" "later s s1" "\<not> gave_up pc1" "\<exists>r. pc1 = SetDone r"
  | (refused) "pc1 = SetLoad (n + 1)" "\<not> cond_holds cnd (obj s (call_key c))" "obj s1 = obj s" "later s s1"
  | (unwritten) e where "pc1 = SetDone (Some e)" "\<not> gave_up pc1" "obj s1 = obj s" "later s s1"
proof (cases "enc (AList.update (sc_host c) (sc_dep c) m)")
  case (Inl e)
  then show thesis using p unwritten [of "ManifestMarshal e"] by (auto simp: set_put_def gave_up_def later_refl)
next
  case (Inr b)
  obtain q s2 where w: "s3_PutObject api (call_key c) cnd b s = (q, s2)" by fastforce
  have s2: "s1 = s2" using p w Inr by (auto simp: set_put_def cnd_def split: option.splits if_splits)
  note l = put_later [OF v w]
  show thesis
  proof (cases q)
    case None
    then show thesis
      using p w Inr l s2 put_done [OF v w [unfolded None]] written [of b]
      by (auto simp: set_put_def cnd_def gave_up_def)
  next
    case (Some e)
    note w = w [unfolded Some]
    show thesis
    proof (cases "isPreconditionFailed e")
      case True
      then show thesis
        using p w Inr l s2 put_refused [OF v w True] refused by (auto simp: set_put_def cnd_def)
    next
      case False
      have pc1: "pc1 = SetDone (Some (ManifestWrite (call_key c) e))"
        using p w Inr False by (simp add: set_put_def cnd_def)
      show thesis
        using put_failed [OF v w False]
      proof
        assume "obj s2 = obj s"
        then show thesis using unwritten [OF pc1] pc1 l s2 by (simp add: gave_up_def)
      next
        assume "cond_holds cnd (obj s (call_key c)) \<and> (\<exists>t. obj s2 = (obj s)(call_key c \<mapsto> (b, t)))"
        then show thesis using written [OF Inr] pc1 l s2 by (auto simp: gave_up_def)
      qed
    qed
  qed
qed

text \<open>A call whose condition still holds has read the manifest that is there.\<close>

lemma ready_current:
  assumes "put_ready obj valid later dec key done n m t ex s"
    and "cond_holds (if ex then IfMatch t else IfNoneMatch) (obj s key)"
  shows "map_of m = manifest_view dec (obj s key)"
proof (cases ex)
  case True
  then obtain sr b where r: "valid sr" "later sr s" "obj sr key = Some (b, t)" "dec b = Inr m"
    using assms(1) by (auto simp: put_ready_def)
  obtain b1 where b1: "obj s key = Some (b1, t)" using assms(2) True
    by (auto simp: cond_holds_def split: option.splits)
  then have "b1 = b" using later_version [OF r(1,2,3)] by blast
  then show ?thesis using b1 r(4) by (simp add: manifest_view_def)
next
  case False
  then show ?thesis using assms by (simp add: put_ready_def cond_holds_def manifest_view_def)
qed

text \<open>What another step leaves of a call's knowledge.\<close>

lemma pc_inv_mono:
  assumes "pc_inv obj valid later dec key done in_log pc s" "later s s1" "done \<le> done1"
    and "obj s1 key = obj s key \<or> done < done1"
  shows "pc_inv obj valid later dec key done1 in_log pc s1"
proof -
  have "put_ready obj valid later dec key done1 n m t ex s1"
    if r: "put_ready obj valid later dec key done n m t ex s" for n m t ex
  proof -
    have "n < done1 \<or> n \<le> done1 \<and> cond_holds (if ex then IfMatch t else IfNoneMatch) (obj s1 key)"
      using r assms(3,4) unfolding put_ready_def by auto
    moreover have "\<exists>sr b. valid sr \<and> later sr s1 \<and> obj sr key = Some (b, t) \<and> dec b = Inr m" if "ex"
      using r that later_trans [OF _ assms(2)] unfolding put_ready_def by auto
    ultimately show ?thesis using r unfolding put_ready_def by auto
  qed
  then show ?thesis using assms(1,3) unfolding pc_inv_def
    by (auto split: set_pc.splits option.splits rel_err.splits)
qed

text \<open>One step of one call: it writes its deployment and is logged, or leaves the bucket alone.\<close>

lemma own_effect:
  assumes v: "valid s" and inv: "pc_inv obj valid later dec (call_key c) done in_log pc s"
    and st: "set_step api dec enc c pc s = (pc1, s1)"
  defines "w \<equiv> committed obj s pc s1 pc1"
  shows "later s s1 \<and> pc_inv obj valid later dec (call_key c) (done + of_bool w) (in_log \<or> w) pc1 s1
    \<and> (if w then \<not> in_log \<and> (\<forall>k. k \<noteq> call_key c \<longrightarrow> obj s1 k = obj s k)
          \<and> manifest_view dec (obj s1 (call_key c)) = (manifest_view dec (obj s (call_key c)))(sc_host c \<mapsto> sc_dep c)
        else obj s1 = obj s)"
proof (cases pc)
  case (SetDone r)
  then show ?thesis using st inv by (auto simp: w_def committed_def later_refl)
next
  case (SetLoad n)
  then have n: "n \<le> done" "\<not> in_log" using inv by (simp_all add: pc_inv_def)
  have l: "set_load api dec c n s = (pc1, s1)" using st SetLoad by simp
  show ?thesis
  proof (cases "n \<ge> manifestCASAttempts")
    case True
    then show ?thesis
      using l n SetLoad by (auto simp: set_load_def w_def committed_def pc_inv_def later_refl)
  next
    case False
    obtain q s2 where ld: "LoadManifest api dec (sc_service c) (sc_env c) s = (q, s2)" by fastforce
    note f = load_facts [OF v ld]
    show ?thesis
    proof (cases q)
      case (Inl e)
      then have "pc1 = SetDone (Some e)" "s1 = s2" using l ld False by (auto simp: set_load_def)
      moreover have "pc_inv obj valid later dec (call_key c) done in_log (SetDone (Some e)) s2"
        using f(4) Inl by (simp add: pc_inv_def split: rel_err.splits)
      ultimately show ?thesis using f(1) by (simp add: w_def committed_def)
    next
      case (Inr z)
      obtain m t ex where z: "z = (m, t, ex)" by (cases z)
      then have pc1: "pc1 = SetPut n m t ex" "s1 = s2" using l ld False Inr by (auto simp: set_load_def)
      have "put_ready obj valid later dec (call_key c) done n m t ex s2"
      proof (cases ex)
        case True
        then obtain b where b: "obj s (call_key c) = Some (b, t)" "dec b = Inr m"
          using f(2) Inr z by (auto simp: call_key_def)
        then have "\<exists>sr b. valid sr \<and> later sr s2 \<and> obj sr (call_key c) = Some (b, t) \<and> dec b = Inr m"
          using v f(1) by blast
        then show ?thesis using True b n False f(1) by (simp add: put_ready_def cond_holds_def)
      next
        case False
        then show ?thesis
          using f(1) f(3) Inr z n \<open>\<not> n \<ge> manifestCASAttempts\<close>
          by (auto simp: put_ready_def cond_holds_def call_key_def)
      qed
      then show ?thesis using pc1 f(1) n by (simp add: w_def committed_def pc_inv_def)
    qed
  qed
next
  case (SetPut n m t ex)
  then have r: "put_ready obj valid later dec (call_key c) done n m t ex s" "\<not> in_log"
    using inv by (simp_all add: pc_inv_def)
  have p: "set_put api enc c n m t ex s = (pc1, s1)" using st SetPut by simp
  from v p show ?thesis
  proof (cases rule: put_cases)
    case (written b t')
    obtain m1 where m1: "dec b = Inr m1" "map_of m1 = map_of (AList.update (sc_host c) (sc_dep c) m)"
      using codec [OF written(1)] by blast
    have mv: "manifest_view dec (obj s1 (call_key c)) = (manifest_view dec (obj s (call_key c)))(sc_host c \<mapsto> sc_dep c)"
      using ready_current [OF r(1) written(2)] m1 written(3) by (simp add: manifest_view_def update_conv')
    obtain e where e: "pc1 = SetDone e" using written(6) by blast
    show ?thesis
    proof (cases w)
      case True
      have "pc_inv obj valid later dec (call_key c) (done + 1) True pc1 s1"
        using written(5) e by (auto simp: pc_inv_def gave_up_def split: option.splits rel_err.splits)
      then show ?thesis using True written(3,4) r(2) mv by simp
    next
      case False
      then have o: "obj s1 = obj s" "pc1 \<noteq> SetDone None" using SetPut by (auto simp: w_def committed_def)
      then have "pc_inv obj valid later dec (call_key c) done in_log pc1 s1"
        using written(5) e by (auto simp: pc_inv_def gave_up_def split: option.splits rel_err.splits)
      then show ?thesis using False o written(4) by simp
    qed
  next
    case refused
    then have "n < done" using r(1) by (simp add: put_ready_def)
    then show ?thesis using refused r(2) by (simp add: w_def committed_def pc_inv_def)
  next
    case (unwritten e)
    then have "pc_inv obj valid later dec (call_key c) done in_log pc1 s1"
      by (auto simp: pc_inv_def gave_up_def split: rel_err.splits)
    then show ?thesis using unwritten by (simp add: w_def committed_def)
  qed
qed

lemma world_inv_step:
  assumes "world_inv obj valid later dec calls s0 w" and "world_step api obj later dec enc calls w w1"
  shows "world_inv obj valid later dec calls s0 w1"
  using assms(2)
proof (cases rule: world_step.cases)
  case (own i pc s pc1 s1 log)
  let ?key = "\<lambda>j. call_key (calls j)"
  let ?w = "committed obj s (pc i) s1 pc1"
  let ?log1 = "if ?w then log @ [i] else log"
  have inv: "valid s" "distinct log"
    "\<And>j. manifest_view dec (obj s (?key j)) = replay calls (?key j) log (manifest_view dec (obj s0 (?key j)))"
    "\<And>j. pc_inv obj valid later dec (?key j) (commits calls (?key j) log) (j \<in> set log) (pc j) s"
    using assms(1) own(1) by (auto simp: world_inv_def Let_def)
  note eff = own_effect [OF inv(1) inv(4) own(3)]
  have "valid s1" using eff inv(1) later_valid by blast
  moreover have "distinct ?log1" using eff inv(2) by (auto split: if_splits)
  moreover have "manifest_view dec (obj s1 (?key j)) = replay calls (?key j) ?log1 (manifest_view dec (obj s0 (?key j)))" for j
    using eff inv(3) [of j] by (cases ?w; cases "?key j = ?key i") (auto simp: replay_snoc apply_call_def)
  moreover have "pc_inv obj valid later dec (?key j) (commits calls (?key j) ?log1) (j \<in> set ?log1) ((pc(i := pc1)) j) s1" for j
  proof (cases "j = i")
    case True
    have "(i \<in> set log \<or> ?w) = (i \<in> set ?log1)" "commits calls (?key i) log + of_bool ?w = commits calls (?key i) ?log1"
      by (auto simp: commits_snoc)
    then show ?thesis using eff True by simp
  next
    case False
    have "obj s1 (?key j) = obj s (?key j) \<or> commits calls (?key j) log < commits calls (?key j) ?log1"
      using eff by (cases ?w; cases "?key j = ?key i") (auto simp: commits_snoc)
    moreover have "commits calls (?key j) log \<le> commits calls (?key j) ?log1" by (simp add: commits_snoc)
    ultimately show ?thesis
      using pc_inv_mono [OF inv(4) [of j]] eff False by (auto split: if_splits)
  qed
  ultimately show ?thesis using own(2) by (simp add: world_inv_def Let_def)
next
  case (foreign s s1 pc log)
  have inv: "valid s" "distinct log"
    "\<And>j. manifest_view dec (obj s (call_key (calls j))) = replay calls (call_key (calls j)) log (manifest_view dec (obj s0 (call_key (calls j))))"
    "\<And>j. pc_inv obj valid later dec (call_key (calls j)) (commits calls (call_key (calls j)) log) (j \<in> set log) (pc j) s"
    using assms(1) foreign(1) by (auto simp: world_inv_def Let_def)
  then show ?thesis
    using foreign later_valid pc_inv_mono [OF inv(4) foreign(3) order_refl] by (simp add: world_inv_def Let_def)
qed

lemma world_inv_start: "valid s \<Longrightarrow> world_inv obj valid later dec calls s (start_world s)"
  by (simp add: world_inv_def replay_def pc_inv_def Let_def)

lemma world_inv_reach:
  assumes "valid s0" "(world_step api obj later dec enc calls)\<^sup>*\<^sup>* (start_world s0) w"
  shows "world_inv obj valid later dec calls s0 w"
  using assms(2) by (induction rule: rtranclp_induct) (auto intro: world_inv_start assms(1) world_inv_step)

end

subsection \<open>A call ends\<close>

text \<open>
  The states of a call that takes its steps in the bucket states \<open>st 0\<close>, \<open>st 1\<close> and so on, whatever
  happens to the bucket in between.
\<close>

fun set_trace :: "('s, 'b) s3API \<Rightarrow> ('b \<Rightarrow> string + manifest) \<Rightarrow> (manifest \<Rightarrow> string + 'b) \<Rightarrow> set_call
    \<Rightarrow> (nat \<Rightarrow> 's) \<Rightarrow> nat \<Rightarrow> set_pc" where
  "set_trace api dec enc c st 0 = SetLoad 0"
| "set_trace api dec enc c st (Suc k) = fst (set_step api dec enc c (set_trace api dec enc c st k) (st k))"

fun pc_rank :: "set_pc \<Rightarrow> nat" where
  "pc_rank (SetLoad n) = 2 * (manifestCASAttempts - n) + 1"
| "pc_rank (SetPut n m t ex) = 2 * (manifestCASAttempts - n)"
| "pc_rank (SetDone r) = 0"

lemma set_load_pc:
  "fst (set_load api dec c n s) = pc1 \<Longrightarrow> (\<exists>r. pc1 = SetDone r) \<or> (\<exists>m t ex. pc1 = SetPut n m t ex \<and> n < manifestCASAttempts)"
  by (auto simp: set_load_def split: prod.splits sum.splits if_splits)

lemma set_put_pc:
  "fst (set_put api enc c n m t ex s) = pc1 \<Longrightarrow> (\<exists>r. pc1 = SetDone r) \<or> pc1 = SetLoad (n + 1)"
  by (auto simp: set_put_def split: prod.splits sum.splits option.splits if_splits)

lemma set_step_rank:
  assumes "\<forall>n m t ex. pc = SetPut n m t ex \<longrightarrow> n < manifestCASAttempts"
  shows "pc_rank (fst (set_step api dec enc c pc s)) \<le> pc_rank pc - 1
    \<and> (\<forall>n m t ex. fst (set_step api dec enc c pc s) = SetPut n m t ex \<longrightarrow> n < manifestCASAttempts)"
proof (cases pc)
  case (SetLoad n)
  then show ?thesis using set_load_pc [of api dec c n s, OF refl] by auto
next
  case (SetPut n m t ex)
  then have "n < manifestCASAttempts" using assms by simp
  then show ?thesis using SetPut set_put_pc [of api enc c n m t ex s, OF refl] by auto
next
  case (SetDone r)
  then show ?thesis by simp
qed

lemma set_trace_rank:
  "pc_rank (set_trace api dec enc c st k) \<le> 2 * manifestCASAttempts + 1 - k
   \<and> (\<forall>n m t ex. set_trace api dec enc c st k = SetPut n m t ex \<longrightarrow> n < manifestCASAttempts)"
proof (induction k)
  case 0
  then show ?case by simp
next
  case (Suc k)
  let ?pc = "set_trace api dec enc c st k"
  have "pc_rank (set_trace api dec enc c st (Suc k)) \<le> pc_rank ?pc - 1"
    "\<forall>n m t ex. set_trace api dec enc c st (Suc k) = SetPut n m t ex \<longrightarrow> n < manifestCASAttempts"
    using set_step_rank [of ?pc api dec enc c "st k"] Suc by simp_all
  moreover have "pc_rank ?pc - 1 \<le> 2 * manifestCASAttempts + 1 - Suc k" using Suc by linarith
  ultimately show ?case by (meson le_trans)
qed

lemma pc_rank_0: "pc_rank pc = 0 \<Longrightarrow> \<forall>n m t ex. pc = SetPut n m t ex \<longrightarrow> n < manifestCASAttempts \<Longrightarrow> \<exists>r. pc = SetDone r"
  by (cases pc) auto

text \<open>Alone, the machine computes what the loop of the code returns.\<close>

definition machine_step :: "('s, 'b) s3API \<Rightarrow> ('b \<Rightarrow> string + manifest) \<Rightarrow> (manifest \<Rightarrow> string + 'b) \<Rightarrow> set_call
    \<Rightarrow> set_pc \<times> 's \<Rightarrow> set_pc \<times> 's" where
  "machine_step api dec enc c x = set_step api dec enc c (fst x) (snd x)"

lemma machine_done: "(machine_step api dec enc c ^^ k) (SetDone r, s) = (SetDone r, s)"
  by (induction k) (simp_all add: machine_step_def)

lemma machine_attempts:
  "left \<le> manifestCASAttempts \<Longrightarrow> set_attempts api dec enc c left s = (r, s1) \<Longrightarrow>
     (machine_step api dec enc c ^^ (2 * left + 1)) (SetLoad (manifestCASAttempts - left), s) = (SetDone r, s1)"
proof (induction left arbitrary: s)
  case 0
  then show ?case by (simp add: machine_step_def set_load_def)
next
  case (Suc left)
  let ?n = "manifestCASAttempts - Suc left"
  obtain pc1 s2 where l: "set_load api dec c ?n s = (pc1, s2)" by fastforce
  have two: "(machine_step api dec enc c ^^ (2 * Suc left + 1)) (SetLoad ?n, s)
      = (machine_step api dec enc c ^^ (2 * left + 2)) (pc1, s2)"
    using l by (simp add: funpow_swap1 machine_step_def)
  from set_load_pc [of api dec c ?n s pc1] l
  consider q where "pc1 = SetDone q" | m t ex where "pc1 = SetPut ?n m t ex" by fastforce
  then show ?case
  proof cases
    case 1
    then show ?thesis using Suc.prems l two by (simp add: machine_done del: funpow.simps)
  next
    case 2
    obtain pc2 s3 where p: "set_put api enc c ?n m t ex s2 = (pc2, s3)" by fastforce
    have three: "(machine_step api dec enc c ^^ (2 * left + 2)) (pc1, s2)
        = (machine_step api dec enc c ^^ (2 * left + 1)) (pc2, s3)"
      using p 2 by (simp add: funpow_swap1 machine_step_def)
    from set_put_pc [of api enc c ?n m t ex s2 pc2] p
    consider q where "pc2 = SetDone q" | "pc2 = SetLoad (?n + 1)" by fastforce
    then show ?thesis
    proof cases
      case 1
      then show ?thesis using Suc.prems l p 2 two three by (simp add: machine_done del: funpow.simps)
    next
      case pc2: 2
      have "set_attempts api dec enc c left s3 = (r, s1)" using Suc.prems l p 2 pc2 by simp
      then show ?thesis
        using Suc.IH [of s3] Suc.prems(1) pc2 two three by (simp add: Suc_diff_Suc del: funpow.simps)
    qed
  qed
qed

end
