(* ===== verification/FakeBucket.thy ===== *)
theory FakeBucket
  imports ReleaseCas
begin

text \<open>
  The in-memory bucket \<open>fakeS3\<close> of \<open>internal/release/fake_test.go\<close>, without its injection hooks: it
  honours the write conditions, numbers its ETags and lists everything on one page.  It satisfies the
  laws of both store locales.
\<close>

record 'b fake_obj =
  fo_body :: 'b
  fo_etag :: string
  fo_mod :: int

record 'b fakeS3 =
  fk_objs :: "(string \<times> 'b fake_obj) list"
  fk_seq :: nat

definition etag_text :: "nat \<Rightarrow> string" where
  "etag_text n = [CHR 0x22] @ ''etag-'' @ itoa n @ [CHR 0x22]"

definition fake_base :: int where "fake_base = 1700000000"

definition http_err :: "nat \<Rightarrow> s3_err" where
  "http_err code = \<lparr>se_status = code, se_code = None\<rparr>"

definition fake_Put :: "string \<Rightarrow> put_cond \<Rightarrow> 'b \<Rightarrow> 'b fakeS3 \<Rightarrow> s3_err option \<times> 'b fakeS3" where
  "fake_Put k c b s =
     (let existing = map_of (fk_objs s) k;
          refuse = (case c of
             Unconditional \<Rightarrow> False
           | IfNoneMatch \<Rightarrow> existing \<noteq> None
           | IfMatch t \<Rightarrow> (case existing of None \<Rightarrow> True | Some ob \<Rightarrow> fo_etag ob \<noteq> t)) in
      if refuse then (Some (http_err 412), s)
      else (None, \<lparr>fk_objs = AList.update k
               \<lparr>fo_body = b, fo_etag = etag_text (fk_seq s + 1), fo_mod = fake_base + int (fk_seq s) + 2\<rparr> (fk_objs s),
             fk_seq = fk_seq s + 2\<rparr>))"

definition fake_Get :: "string \<Rightarrow> 'b fakeS3 \<Rightarrow> (s3_err + (string + 'b) \<times> string) \<times> 'b fakeS3" where
  "fake_Get k s =
     (case map_of (fk_objs s) k of
        None \<Rightarrow> (Inl (http_err 404), s)
      | Some ob \<Rightarrow> (Inr (Inr (fo_body ob), fo_etag ob), s))"

definition fake_Head :: "string \<Rightarrow> 'b fakeS3 \<Rightarrow> s3_err option \<times> 'b fakeS3" where
  "fake_Head k s = (if map_of (fk_objs s) k = None then (Some (http_err 404), s) else (None, s))"

definition fake_rows :: "'b fakeS3 \<Rightarrow> string \<Rightarrow> s3_object list" where
  "fake_rows s p =
     map (\<lambda>k. \<lparr>so_key = k, so_modified = map_option fo_mod (map_of (fk_objs s) k)\<rparr>)
       (sort (filter (prefix p) (map fst (fk_objs s))))"

definition fake_List :: "string \<Rightarrow> string option \<Rightarrow> 'b fakeS3 \<Rightarrow> (s3_err + list_page) \<times> 'b fakeS3" where
  "fake_List p tok s = (Inr \<lparr>pg_contents = fake_rows s p, pg_truncated = False, pg_next = None\<rparr>, s)"

definition fake_Delete :: "string \<Rightarrow> 'b fakeS3 \<Rightarrow> s3_err option \<times> 'b fakeS3" where
  "fake_Delete k s = (None, s\<lparr>fk_objs := AList.delete k (fk_objs s)\<rparr>)"

definition fake_api :: "('b fakeS3, 'b) s3API" where
  "fake_api = \<lparr>s3_PutObject = fake_Put, s3_GetObject = fake_Get, s3_HeadObject = fake_Head,
     s3_ListObjectsV2 = fake_List, s3_DeleteObject = fake_Delete\<rparr>"

subsection \<open>The laws\<close>

definition fake_obj_of :: "'b fakeS3 \<Rightarrow> string \<Rightarrow> ('b \<times> string) option" where
  "fake_obj_of s k = map_option (\<lambda>ob. (fo_body ob, fo_etag ob)) (map_of (fk_objs s) k)"

definition fake_valid :: "'b fakeS3 \<Rightarrow> bool" where
  "fake_valid s \<longleftrightarrow> distinct (map fst (fk_objs s))
     \<and> (\<forall>k b t. fake_obj_of s k = Some (b, t) \<longrightarrow> (\<exists>n\<le>fk_seq s. t = etag_text n))"

definition fake_later :: "'b fakeS3 \<Rightarrow> 'b fakeS3 \<Rightarrow> bool" where
  "fake_later s s1 \<longleftrightarrow> fk_seq s \<le> fk_seq s1 \<and> (fake_valid s \<longrightarrow> fake_valid s1)
     \<and> (\<forall>k b n. fake_obj_of s1 k = Some (b, etag_text n) \<and> n \<le> fk_seq s \<longrightarrow> fake_obj_of s k = Some (b, etag_text n))"

lemma etag_text_inj [simp]: "etag_text m = etag_text n \<longleftrightarrow> m = n"
  by (auto simp: etag_text_def dest: itoa_inj)

lemma fake_later_refl: "fake_later s s"
  by (simp add: fake_later_def)

lemma fake_later_trans: "fake_later s s1 \<Longrightarrow> fake_later s1 s2 \<Longrightarrow> fake_later s s2"
  unfolding fake_later_def using le_trans by blast

lemma fake_Put_facts:
  assumes "fake_Put k c b s = (r, s1)"
  shows "r = None \<Longrightarrow> cond_holds c (fake_obj_of s k)
      \<and> fake_obj_of s1 = (fake_obj_of s)(k \<mapsto> (b, etag_text (fk_seq s + 1))) \<and> fk_seq s1 = fk_seq s + 2
      \<and> (distinct (map fst (fk_objs s)) \<longrightarrow> distinct (map fst (fk_objs s1)))"
    and "r = Some e \<Longrightarrow> isPreconditionFailed e \<and> \<not> cond_holds c (fake_obj_of s k) \<and> s1 = s"
  using assms
  by (auto simp: fake_Put_def Let_def cond_holds_def fake_obj_of_def fun_eq_iff update_conv' distinct_update
      isPreconditionFailed_def http_err_def split: if_splits put_cond.splits option.splits)

lemma fake_Put_later: "fake_Put k c b s = (r, s1) \<Longrightarrow> fake_later s s1"
proof (cases r)
  case None
  assume "fake_Put k c b s = (r, s1)"
  note f = fake_Put_facts(1) [OF this None]
  then show ?thesis
    unfolding fake_later_def fake_valid_def
    by (auto split: if_splits) (metis le_SucI le_Suc_eq)+
next
  case (Some e)
  assume "fake_Put k c b s = (r, s1)"
  from fake_Put_facts(2) [OF this Some] show ?thesis by (simp add: fake_later_refl)
qed

lemma fake_Delete_facts:
  "fake_obj_of (snd (fake_Delete k s)) = (fake_obj_of s)(k := None)"
  "fake_later s (snd (fake_Delete k s))"
proof -
  show d: "fake_obj_of (snd (fake_Delete k s)) = (fake_obj_of s)(k := None)"
    by (auto simp: fake_Delete_def fake_obj_of_def fun_eq_iff delete_conv')
  show "fake_later s (snd (fake_Delete k s))"
    unfolding fake_later_def fake_valid_def d by (auto simp: fake_Delete_def distinct_delete split: if_splits)
qed

lemma fake_keys: "set (map fst (fk_objs s)) = {k. fake_obj_of s k \<noteq> None}"
  by (auto simp: fake_obj_of_def map_of_eq_None_iff image_iff)

lemma fake_row_keys: "map so_key (fake_rows s p) = sort (filter (prefix p) (map fst (fk_objs s)))"
  by (simp add: fake_rows_def comp_def)

interpretation fake: object_store fake_api fake_obj_of fake_valid fake_later "\<lambda>s p tok. fake_rows s p"
proof unfold_locales
  fix s s1 s2 :: "'a fakeS3" and k p :: string and tok :: "string option" and b b1 :: 'a and t :: string
    and body :: "string + 'a" and r and e :: s3_err and c :: put_cond and res gone :: "s3_err option"
    and pg :: list_page and page :: "s3_err + list_page"
  show "fake_later s s" by (rule fake_later_refl)
  show "fake_later s s1 \<Longrightarrow> fake_later s1 s2 \<Longrightarrow> fake_later s s2" by (rule fake_later_trans)
  show "fake_valid s \<Longrightarrow> fake_later s s1 \<Longrightarrow> fake_valid s1" by (simp add: fake_later_def)
  show "fake_valid s \<Longrightarrow> fake_later s s1 \<Longrightarrow> fake_obj_of s k = Some (b, t) \<Longrightarrow> fake_obj_of s1 k = Some (b1, t) \<Longrightarrow> b1 = b"
    unfolding fake_valid_def fake_later_def by fastforce
  show "s3_GetObject fake_api k s = (r, s1) \<Longrightarrow> fake_later s s1 \<and> fake_obj_of s1 = fake_obj_of s"
    by (auto simp: fake_api_def fake_Get_def fake_later_refl split: option.splits)
  show "s3_GetObject fake_api k s = (Inr (body, t), s1) \<Longrightarrow>
      \<exists>b. fake_obj_of s k = Some (b, t) \<and> (body = Inr b \<or> (\<exists>e. body = Inl e))"
    by (auto simp: fake_api_def fake_Get_def fake_obj_of_def split: option.splits)
  show "s3_GetObject fake_api k s = (Inl e, s1) \<Longrightarrow> fake_obj_of s k = None"
    by (auto simp: fake_api_def fake_Get_def fake_obj_of_def split: option.splits)
  show "s3_PutObject fake_api k c b s = (res, s1) \<Longrightarrow> fake_later s s1"
    by (simp add: fake_api_def fake_Put_later)
  show "s3_PutObject fake_api k c b s = (None, s1) \<Longrightarrow>
      cond_holds c (fake_obj_of s k) \<and> (\<exists>t. fake_obj_of s1 = (fake_obj_of s)(k \<mapsto> (b, t)))"
    using fake_Put_facts(1) [of k c b s None s1] by (auto simp: fake_api_def)
  show "s3_PutObject fake_api k c b s = (Some e, s1) \<Longrightarrow> \<not> cond_holds c (fake_obj_of s k) \<and> fake_obj_of s1 = fake_obj_of s"
    using fake_Put_facts(2) [of k c b s "Some e" s1 e] by (auto simp: fake_api_def)
  show "s3_PutObject fake_api k c b s = (Some e, s1) \<Longrightarrow> \<not> isPreconditionFailed e \<Longrightarrow>
      fake_obj_of s1 = fake_obj_of s \<or> cond_holds c (fake_obj_of s k) \<and> (\<exists>t. fake_obj_of s1 = (fake_obj_of s)(k \<mapsto> (b, t)))"
    using fake_Put_facts(2) [of k c b s "Some e" s1 e] by (auto simp: fake_api_def)
  show "map so_key (fake_rows s p) = map so_key (fake_rows s1 p)"
    if "fake_valid s" "fake_valid s1" "fake_obj_of s = fake_obj_of s1"
  proof -
    have "set (map fst (fk_objs s)) = set (map fst (fk_objs s1))" using that(3) by (simp only: fake_keys)
    then show ?thesis
      using that(1,2) unfolding fake_row_keys fake_valid_def
      by (intro sorted_distinct_set_unique) (auto simp: distinct_filter)
  qed
  show "so_key ` set (fake_rows s p) = {k. fake_obj_of s k \<noteq> None \<and> prefix p k}"
    using fake_row_keys [of s p, THEN arg_cong, of set] fake_keys [of s] by auto
  show "s3_ListObjectsV2 fake_api p tok s = (page, s1) \<Longrightarrow> fake_later s s1 \<and> fake_obj_of s1 = fake_obj_of s"
    by (auto simp: fake_api_def fake_List_def fake_later_refl)
  show "s3_ListObjectsV2 fake_api p tok s = (Inr pg, s1) \<Longrightarrow> \<not> pg_truncated pg \<Longrightarrow>
      pg_next pg = None \<and> map so_key (fake_rows s p) = map so_key (pg_contents pg)"
    by (auto simp: fake_api_def fake_List_def)
  show "s3_ListObjectsV2 fake_api p tok s = (Inr pg, s1) \<Longrightarrow> pg_truncated pg \<Longrightarrow>
      pg_contents pg \<noteq> [] \<and> (\<exists>t. pg_next pg = Some t \<and> t \<noteq> []
        \<and> map so_key (fake_rows s p) = map so_key (pg_contents pg @ fake_rows s p))"
    by (auto simp: fake_api_def fake_List_def)
  show "s3_DeleteObject fake_api k s = (gone, s1) \<Longrightarrow> fake_later s s1"
    using fake_Delete_facts(2) [of s k] by (auto simp: fake_api_def)
  show "s3_DeleteObject fake_api k s = (None, s1) \<Longrightarrow> fake_obj_of s1 = (fake_obj_of s)(k := None)"
    using fake_Delete_facts(1) [of k s] by (auto simp: fake_api_def)
  show "s3_DeleteObject fake_api k s = (Some e, s1) \<Longrightarrow>
      fake_obj_of s1 = fake_obj_of s \<or> fake_obj_of s1 = (fake_obj_of s)(k := None)"
    by (auto simp: fake_api_def fake_Delete_def)
qed

text \<open>With manifests themselves as bodies the codec is the identity.\<close>

interpretation fake_cas: release_cas fake_api fake_obj_of fake_valid fake_later Inr Inr
  by unfold_locales auto

end
