(* ===== verification/ReleasePrune.thy ===== *)
theory ReleasePrune
  imports FakeBucket "HOL-Library.Multiset"
begin

text \<open>
  Listing, pinning and retention of the release store: keys and their SHAs, completeness of the paged
  listings, the retention policy, and what a prune may delete while deploys run.
\<close>

subsection \<open>Keys\<close>

lemma shaFromKey_stem:
  "shaFromKey service ((service @ ''/'') @ stem @ artifactExt) =
     (if stem = [] \<or> CHR ''/'' \<in> set stem then [] else strip_arch SupportedArchs stem)"
proof -
  have "prefix (service @ ''/'') ((service @ ''/'') @ stem @ artifactExt)" by (rule prefixI) (rule refl)
  moreover have "suffix artifactExt ((service @ ''/'') @ stem @ artifactExt)"
    by (rule suffixI [of _ "(service @ ''/'') @ stem"]) (simp only: append_assoc)
  ultimately show ?thesis
    unfolding shaFromKey_def Let_def by (simp only: trim_prefix_append trim_suffix_append simp_thms if_False)
qed

lemma shaFromKey_artifactKey:
  assumes "CHR ''/'' \<notin> set sha" "arch \<in> set SupportedArchs"
  shows "shaFromKey service (artifactKey service sha arch) = sha"
proof -
  have key: "artifactKey service sha arch = (service @ ''/'') @ (sha @ ''-'' @ arch) @ artifactExt"
    using assms(2) by (auto simp: artifactKey_def SupportedArchs_def NoArch_def)
  have "CHR ''/'' \<notin> set (sha @ ''-'' @ arch)" using assms by (auto simp: SupportedArchs_def)
  moreover have "strip_arch SupportedArchs (sha @ ''-'' @ arch) = sha"
  proof -
    have "\<not> suffix ''-amd64'' (sha @ ''-arm64'')" by (simp add: suffix_code_rev)
    then show ?thesis
      using assms(2) trim_suffix_append [of sha "''-'' @ arch"] suffix_appendI [of "''-'' @ arch" "''-'' @ arch" sha]
      by (auto simp: SupportedArchs_def)
  qed
  ultimately show ?thesis unfolding key shaFromKey_stem by simp
qed

lemma shaFromKey_app:
  assumes "sha \<noteq> []" "CHR ''/'' \<notin> set sha" "\<forall>arch\<in>set SupportedArchs. \<not> suffix (''-'' @ arch) sha"
  shows "shaFromKey service (artifactKey service sha NoArch) = sha"
proof -
  have key: "artifactKey service sha NoArch = (service @ ''/'') @ sha @ artifactExt"
    by (simp add: artifactKey_def)
  show ?thesis unfolding key shaFromKey_stem using assms by (simp add: SupportedArchs_def)
qed

lemma manifestKey_is: "isManifestKey service (manifestKey service env)"
proof -
  have "suffix ''.yaml'' ((service @ ''/manifest.'' @ env) @ ''.yaml'')" by (rule suffixI) (rule refl)
  then show ?thesis by (simp add: isManifestKey_def manifestKey_def)
qed

text \<open>A manifest is never an artifact.\<close>

lemma manifest_no_sha: "suffix ''.yaml'' key \<Longrightarrow> shaFromKey service key = []"
  by (auto simp: shaFromKey_def artifactExt_def suffix_def Let_def)

subsection \<open>Retention\<close>

lemma selectForPrune_unpinned:
  "sha \<in> set (selectForPrune arts pinned keep) \<Longrightarrow> sha \<notin> set pinned \<and> sha \<in> at_SHA ` set arts"
  by (auto simp: selectForPrune_def Let_def split: if_splits dest!: in_set_dropD)

text \<open>The newest \<open>keep\<close> unpinned releases stay.\<close>

lemma selectForPrune_spec:
  fixes arts :: "artifact list" and pinned :: "string list"
  assumes "0 < keep"
  defines "unpinned \<equiv> filter (\<lambda>a. at_SHA a \<notin> set pinned) arts"
  shows "\<exists>kept gone. mset unpinned = mset kept + mset gone \<and> selectForPrune arts pinned keep = map at_SHA gone
    \<and> int (length kept) = min keep (int (length unpinned))
    \<and> (\<forall>a\<in>set kept. \<forall>b\<in>set gone. at_modified b \<le> at_modified a)"
proof (cases "int (length unpinned) \<le> keep")
  case True
  then have "selectForPrune arts pinned keep = map at_SHA []" "int (length unpinned) = min keep (int (length unpinned))"
    using assms(1) by (simp_all add: selectForPrune_def unpinned_def Let_def)
  then show ?thesis by (intro exI [of _ unpinned] exI [of _ "[]"]) simp
next
  case False
  let ?f = "\<lambda>a. (- at_modified a, at_SHA a)"
  let ?s = "sort_key ?f unpinned"
  let ?kept = "take (nat keep) ?s" and ?gone = "drop (nat keep) ?s"
  have "sorted_wrt (\<lambda>a b. ?f a \<le> ?f b) (?kept @ ?gone)"
    using sorted_sort_key [of ?f unpinned] by (simp add: sorted_map)
  then have "\<forall>a\<in>set ?kept. \<forall>b\<in>set ?gone. at_modified b \<le> at_modified a"
    unfolding sorted_wrt_append by (fastforce simp: less_eq_prod_def)
  moreover have "mset unpinned = mset ?kept + mset ?gone"
    by (metis append_take_drop_id mset_append mset_sort)
  moreover have "selectForPrune arts pinned keep = map at_SHA ?gone"
    using False assms(1) by (simp add: selectForPrune_def unpinned_def Let_def)
  moreover have "int (length ?kept) = min keep (int (length unpinned))"
    using False assms(1) by simp
  ultimately show ?thesis by blast
qed

subsection \<open>Coalescing\<close>

text \<open>With times after the epoch there is one release per SHA.\<close>

lemma coalesce_fold:
  assumes "\<forall>ob\<in>set objs. ao_modified ob > 0" "distinct order" "set order = dom (map_of newest)"
    and "fold coalesce_step objs (order, newest) = (order1, newest1)"
  shows "distinct order1 \<and> set order1 = dom (map_of newest1) \<and> set order1 = set order \<union> ao_sha ` set objs"
  using assms
proof (induction objs arbitrary: order newest)
  case Nil
  then show ?case by simp
next
  case (Cons ob objs)
  obtain o2 n2 where st: "coalesce_step ob (order, newest) = (o2, n2)" by fastforce
  have d: "distinct o2" "set o2 = dom (map_of n2)" "set o2 = insert (ao_sha ob) (set order)"
    using st Cons.prems(1,2,3)
    by (auto simp: coalesce_step_def update_conv' dom_def split: if_splits option.splits)
  have f: "fold coalesce_step objs (o2, n2) = (order1, newest1)" using Cons.prems(4) st by simp
  show ?case using Cons.IH [OF _ d(1,2) f] Cons.prems(1) d(3) by auto
qed

lemma coalesce_distinct:
  assumes "\<forall>ob\<in>set objs. ao_modified ob > 0"
  shows "distinct (map at_SHA (coalesceArtifacts objs))"
    and "at_SHA ` set (coalesceArtifacts objs) = ao_sha ` set objs"
proof -
  obtain order newest where f: "fold coalesce_step objs ([], []) = (order, newest)" by fastforce
  have "map at_SHA (coalesceArtifacts objs) = order"
    by (simp add: coalesceArtifacts_def f comp_def)
  then show "distinct (map at_SHA (coalesceArtifacts objs))"
    "at_SHA ` set (coalesceArtifacts objs) = ao_sha ` set objs"
    using coalesce_fold [OF assms _ _ f] by (auto simp flip: set_map)
qed

lemma coalesce_fold_shas:
  "set (fst (fold coalesce_step objs (order, newest))) \<subseteq> set order \<union> ao_sha ` set objs"
proof (induction objs arbitrary: order newest)
  case (Cons ob objs)
  obtain o2 n2 where st: "coalesce_step ob (order, newest) = (o2, n2)" by fastforce
  then have "set o2 \<subseteq> insert (ao_sha ob) (set order)" by (auto simp: coalesce_step_def split: if_splits)
  then show ?case using Cons.IH [of o2 n2] st by fastforce
qed simp

lemma coalesce_shas: "at_SHA ` set (coalesceArtifacts objs) \<subseteq> ao_sha ` set objs"
proof -
  obtain order newest where f: "fold coalesce_step objs ([], []) = (order, newest)" by fastforce
  then show ?thesis using coalesce_fold_shas [of objs "[]" "[]"] by (auto simp: coalesceArtifacts_def f)
qed

lemma victims_listed:
  "sha \<in> set (selectForPrune (coalesceArtifacts objs) pinned keep) \<Longrightarrow> sha \<notin> set pinned \<and> sha \<in> ao_sha ` set objs"
  using selectForPrune_unpinned coalesce_shas by blast

subsection \<open>Listings and the sweep\<close>

context object_store
begin

text \<open>A listing that does not fail returns exactly the artifact objects of the service.\<close>

lemma listing_complete:
  assumes "valid s"
  shows "\<exists>r s1. listArtifactObjects api service s = Some (r, s1) \<and> later s s1 \<and> obj s1 = obj s
    \<and> (\<forall>objs. r = Inr objs \<longrightarrow>
         ao_key ` set objs = {k. obj s k \<noteq> None \<and> shaFromKey service k \<noteq> []}
         \<and> (\<forall>ob\<in>set objs. ao_sha ob = shaFromKey service (ao_key ob)))"
proof -
  let ?pre = "service @ ''/''"
  let ?I = "\<lambda>seen acc. acc = concat (map (artifact_row service) seen)"
  let ?h = "\<lambda>ob acc s. (Inr (acc @ artifact_row service ob), s)"
  have "\<exists>r s1. page_loop api ?pre more_truncated (ListFailed service) ?h [] None s = Some (r, s1)
      \<and> later s s1 \<and> obj s1 = obj s \<and> (\<forall>acc1. r = Inr acc1 \<longrightarrow> ?I [] [] \<longrightarrow>
        (\<exists>obs. map so_key obs = map so_key (rest s ?pre None) \<and> ?I ([] @ obs) acc1))"
    by (rule page_loop_inv [where I = ?I]) (auto simp: later_refl assms)
  then obtain r s1 where r: "listArtifactObjects api service s = Some (r, s1)" "later s s1" "obj s1 = obj s"
    "\<forall>acc1. r = Inr acc1 \<longrightarrow> (\<exists>obs. map so_key obs = map so_key (rest s ?pre None)
        \<and> acc1 = concat (map (artifact_row service) obs))"
    unfolding listArtifactObjects_def by auto
  have pre: "shaFromKey service k \<noteq> [] \<Longrightarrow> prefix ?pre k" for k
    by (auto simp: shaFromKey_def Let_def split: if_splits)
  have "ao_key ` set objs = {k. obj s k \<noteq> None \<and> shaFromKey service k \<noteq> []}
      \<and> (\<forall>ob\<in>set objs. ao_sha ob = shaFromKey service (ao_key ob))" if i: "r = Inr objs" for objs
  proof -
    obtain obs where obs: "map so_key obs = map so_key (rest s ?pre None)" "objs = concat (map (artifact_row service) obs)"
      using r(4) i by blast
    have keys: "so_key ` set obs = {k. obj s k \<noteq> None \<and> prefix ?pre k}"
      using obs(1) rest_all [OF assms] by (metis list.set_map)
    have "ao_key ` set objs = {k \<in> so_key ` set obs. shaFromKey service k \<noteq> []}"
      by (force simp: obs(2) artifact_row_def Let_def split: if_splits)
    then show ?thesis
      using keys pre by (auto simp: obs(2) artifact_row_def Let_def split: if_splits)
  qed
  then show ?thesis using r by blast
qed

text \<open>The pins that a read collects include those of every manifest that is there.\<close>

lemma pins_complete:
  assumes "valid s"
  shows "\<exists>r s1. PinnedSHAs api dec service s = Some (r, s1) \<and> later s s1 \<and> obj s1 = obj s
    \<and> (\<forall>pins k b t m. r = Inr pins \<longrightarrow> obj s k = Some (b, t) \<longrightarrow> isManifestKey service k \<longrightarrow>
         dec b = Inr m \<longrightarrow> set (SHAs m) \<subseteq> set pins)"
proof -
  let ?pre = "service @ ''/''"
  define I where "I = (\<lambda>(seen :: s3_object list) acc. \<forall>k\<in>so_key ` set seen. \<forall>b t m. isManifestKey service k \<longrightarrow>
      obj s k = Some (b, t) \<longrightarrow> dec b = Inr m \<longrightarrow> set (SHAs m) \<subseteq> set acc)"
  have pin: "later s2 s3 \<and> obj s3 = obj s2 \<and> (\<forall>pins1. q = Inr pins1 \<longrightarrow> set pins \<subseteq> set pins1
      \<and> (\<forall>b t m. isManifestKey service (so_key ob) \<longrightarrow> obj s2 (so_key ob) = Some (b, t) \<longrightarrow> dec b = Inr m \<longrightarrow>
           set (SHAs m) \<subseteq> set pins1))"
    if v: "valid s2" and h: "pin_row api dec service ob pins s2 = (q, s3)" for s2 ob pins q s3
  proof (cases "isManifestKey service (so_key ob)")
    case False
    then show ?thesis using h by (auto simp: pin_row_def later_refl)
  next
    case True
    obtain g s4 where g: "s3_GetObject api (so_key ob) s2 = (g, s4)" by fastforce
    have s4: "s3 = s4"
      using h True g by (auto simp: pin_row_def getManifestByKey_def split: sum.splits prod.splits)
    show ?thesis
      using get_same [OF v g] get_found [OF v] g h True s4
      by (fastforce simp: pin_row_def getManifestByKey_def split: sum.splits prod.splits)
  qed
  have "\<exists>r s1. page_loop api ?pre more_truncated (ListFailed service) (pin_row api dec service) [] None s = Some (r, s1)
      \<and> later s s1 \<and> obj s1 = obj s \<and> (\<forall>acc1. r = Inr acc1 \<longrightarrow> I [] [] \<longrightarrow>
        (\<exists>obs. map so_key obs = map so_key (rest s ?pre None) \<and> I ([] @ obs) acc1))"
  proof (rule page_loop_inv [where V = "obj s" and I = I])
    fix ob acc s2 q s3 assume "valid s2" "obj s2 = obj s" "pin_row api dec service ob acc s2 = (q, s3)"
    then show "later s2 s3 \<and> obj s3 = obj s" using pin by metis
  next
    fix ob acc s2 acc1 s3 seen
    assume a: "valid s2" "obj s2 = obj s" "I seen acc" "pin_row api dec service ob acc s2 = (Inr acc1, s3)"
    note p = pin [OF a(1,4)]
    show "I (seen @ [ob]) acc1" using p a(2,3) unfolding I_def by (simp add: ball_Un image_Un) blast
  qed (simp_all add: assms)
  then obtain r s1 where r: "PinnedSHAs api dec service s = Some (r, s1)" "later s s1" "obj s1 = obj s"
    "\<forall>acc1. r = Inr acc1 \<longrightarrow> (\<exists>obs. map so_key obs = map so_key (rest s ?pre None) \<and> I obs acc1)"
    unfolding PinnedSHAs_def by (auto simp: I_def)
  have "set (SHAs m) \<subseteq> set pins"
    if a: "r = Inr pins" "obj s k = Some (b, t)" "isManifestKey service k" "dec b = Inr m" for pins k b t m
  proof -
    obtain obs where obs: "map so_key obs = map so_key (rest s ?pre None)" "I obs pins" using r(4) a(1) by blast
    have "prefix ?pre k" using a(3) by (auto simp: isManifestKey_def prefix_def)
    moreover have "so_key ` set obs = {k. obj s k \<noteq> None \<and> prefix ?pre k}"
      using rest_all [OF assms, of ?pre] arg_cong [OF obs(1), of set] by simp
    ultimately have "k \<in> so_key ` set obs" using a(2) by simp
    then show ?thesis using obs(2) a unfolding I_def by blast
  qed
  then show ?thesis using r by blast
qed

text \<open>What a sweep leaves.\<close>

lemma sweep_facts:
  assumes "valid s" "delete_objects api obs s = ((gone, errs), s1)"
  shows "valid s1 \<and> (\<forall>k. obj s1 k = obj s k \<or> k \<in> ao_key ` set obs \<and> obj s1 k = None)
    \<and> count_list gone sha \<le> count_list (map ao_sha obs) sha
    \<and> (count_list gone sha = count_list (map ao_sha obs) sha \<longrightarrow>
         (\<forall>ob\<in>set obs. ao_sha ob = sha \<longrightarrow> obj s1 (ao_key ob) = None))
    \<and> (errs = [] \<longrightarrow> gone = map ao_sha obs)"
  using assms
proof (induction obs arbitrary: s s1 gone errs)
  case Nil
  then show ?case by simp
next
  case (Cons ob obs)
  obtain d s2 where d: "s3_DeleteObject api (ao_key ob) s = (d, s2)" by fastforce
  have v2: "valid s2" using delete_later [OF Cons.prems(1) d] Cons.prems(1) later_valid by blast
  obtain g es s3 where r: "delete_objects api obs s2 = ((g, es), s3)" by (metis surj_pair)
  note ih = Cons.IH [OF v2 r]
  have left: "obj s3 k = obj s2 k \<or> k \<in> ao_key ` set obs \<and> obj s3 k = None" for k using ih by blast
  show ?case
  proof (cases d)
    case None
    then have s: "gone = ao_sha ob # g" "errs = es" "s1 = s3" using Cons.prems(2) d r by auto
    have "obj s1 k = obj s k \<or> k \<in> ao_key ` set (ob # obs) \<and> obj s1 k = None" for k
      using left [of k] delete_done [OF Cons.prems(1) d [unfolded None]] s(3) by (cases "k = ao_key ob") auto
    moreover have "obj s1 (ao_key ob) = None"
      using left [of "ao_key ob"] delete_done [OF Cons.prems(1) d [unfolded None]] s(3) by auto
    ultimately show ?thesis using ih s by auto
  next
    case (Some e)
    then have s: "gone = g" "errs = DeleteFailed (ao_key ob) e # es" "s1 = s3" using Cons.prems(2) d r by auto
    have "obj s1 k = obj s k \<or> k \<in> ao_key ` set (ob # obs) \<and> obj s1 k = None" for k
      using left [of k] delete_failed [OF Cons.prems(1) d [unfolded Some]] s(3) by (cases "k = ao_key ob") auto
    then show ?thesis using ih s by auto
  qed
qed

text \<open>
  A sweep touches only objects of its victims, and the SHAs it reports have no object left of those
  that were listed.
\<close>

lemma prune_sweep_facts:
  assumes v: "valid s" and sw: "prune_sweep api objs victims s = ((gone, errs), s1)"
    and sha: "\<forall>ob\<in>set objs. ao_sha ob = shaFromKey service (ao_key ob)"
  shows "valid s1"
    and "\<And>k. obj s1 k = obj s k \<or> obj s1 k = None \<and> shaFromKey service k \<in> set victims \<and> k \<in> ao_key ` set objs"
    and "\<And>sh ob. sh \<in> set gone \<Longrightarrow> ob \<in> set objs \<Longrightarrow> ao_sha ob = sh \<Longrightarrow> obj s1 (ao_key ob) = None"
    and "set gone \<subseteq> set victims" and "errs = [] \<Longrightarrow> gone = victims"
proof -
  let ?vs = "victim_objects objs victims"
  obtain g where d: "delete_objects api ?vs s = ((g, errs), s1)"
    and gone: "gone = filter (\<lambda>sha. count_list g sha = count_list (map ao_sha ?vs) sha) victims"
    using sw by (auto simp: prune_sweep_def Let_def split: prod.splits)
  note f = sweep_facts [OF v d]
  show "valid s1" using f by blast
  show "obj s1 k = obj s k \<or> obj s1 k = None \<and> shaFromKey service k \<in> set victims \<and> k \<in> ao_key ` set objs" for k
    using f [THEN conjunct2, THEN conjunct1, THEN spec, of k] sha by (auto simp: victim_objects_def)
  show "set gone \<subseteq> set victims" using gone by auto
  show "obj s1 (ao_key ob) = None" if "sh \<in> set gone" "ob \<in> set objs" "ao_sha ob = sh" for sh ob
    using f [of sh] that by (auto simp: gone victim_objects_def)
  show "gone = victims" if "errs = []"
    using f that gone by (simp add: filter_True)
qed

text \<open>The whole prune: it returns, a failed read changes nothing, and what it deletes no manifest pins.\<close>

lemma prune_result:
  assumes "valid s"
  shows "\<exists>r s1. Prune api dec service keep s = Some (r, s1)
    \<and> (\<forall>e. r = Inl e \<longrightarrow> obj s1 = obj s)
    \<and> (\<forall>k. obj s1 k \<noteq> obj s k \<longrightarrow> obj s1 k = None \<and> shaFromKey service k \<noteq> [])
    \<and> (\<forall>k mk b t m. obj s mk = Some (b, t) \<longrightarrow> isManifestKey service mk \<longrightarrow> dec b = Inr m \<longrightarrow>
         shaFromKey service k \<in> set (SHAs m) \<longrightarrow> obj s1 k = obj s k)
    \<and> (\<forall>gone errs k. r = Inr (gone, errs) \<longrightarrow> shaFromKey service k \<in> set gone \<longrightarrow> obj s1 k = None)"
proof -
  obtain q s2 where l: "listArtifactObjects api service s = Some (q, s2)" "later s s2" "obj s2 = obj s"
    and lq: "\<And>objs. q = Inr objs \<Longrightarrow> ao_key ` set objs = {k. obj s k \<noteq> None \<and> shaFromKey service k \<noteq> []}
         \<and> (\<forall>ob\<in>set objs. ao_sha ob = shaFromKey service (ao_key ob))"
    using listing_complete [OF assms, of service] by blast
  have v2: "valid s2" using later_valid [OF assms l(2)] .
  obtain w s3 where p: "PinnedSHAs api dec service s2 = Some (w, s3)" "later s2 s3" "obj s3 = obj s2"
    and pw: "\<And>pins k b t m. w = Inr pins \<Longrightarrow> obj s2 k = Some (b, t) \<Longrightarrow> isManifestKey service k \<Longrightarrow>
         dec b = Inr m \<Longrightarrow> set (SHAs m) \<subseteq> set pins"
    using pins_complete [OF v2, of dec service] by blast
  have v3: "valid s3" using later_valid [OF v2 p(2)] .
  show ?thesis
  proof (cases q)
    case (Inl e)
    then show ?thesis using l by (simp add: Prune_def)
  next
    case q: (Inr objs)
    show ?thesis
    proof (cases w)
      case (Inl e)
      then show ?thesis using l p q by (simp add: Prune_def)
    next
      case w: (Inr pins)
      let ?vic = "selectForPrune (coalesceArtifacts objs) pins keep"
      obtain gone errs s4 where sw: "prune_sweep api objs ?vic s3 = ((gone, errs), s4)" by (metis surj_pair)
      have pr: "Prune api dec service keep s = Some (Inr (gone, errs), s4)"
        using l(1) p(1) q w sw by (simp add: Prune_def)
      note lq = lq [OF q]
      note f = prune_sweep_facts [OF v3 sw lq [THEN conjunct2]]
      have o3: "obj s3 = obj s" using l(3) p(3) by simp
      have a: "obj s4 k = None \<and> shaFromKey service k \<noteq> []" if "obj s4 k \<noteq> obj s k" for k
        using f(2) [of k] that o3 lq by auto
      have b: "obj s4 k = obj s k"
        if m: "obj s mk = Some (b, t)" "isManifestKey service mk" "dec b = Inr m" "shaFromKey service k \<in> set (SHAs m)"
        for k mk b t m
      proof -
        have "shaFromKey service k \<in> set pins" using pw [OF w, of mk b t m] m l(3) by auto
        then show ?thesis using f(2) [of k] victims_listed o3 by metis
      qed
      have c: "obj s4 k = None" if "shaFromKey service k \<in> set gone" for k
      proof (cases "obj s k = None")
        case True
        then show ?thesis using f(2) [of k] o3 by auto
      next
        case False
        have "shaFromKey service k \<in> ao_sha ` set objs" using that f(4) victims_listed by blast
        then obtain ob where ob: "ob \<in> set objs" "ao_sha ob = shaFromKey service k" by auto
        then have "ao_key ob \<in> {k. obj s k \<noteq> None \<and> shaFromKey service k \<noteq> []}" using lq by blast
        then have "shaFromKey service k \<noteq> []" using lq ob by auto
        then have "k \<in> ao_key ` set objs" using lq False by simp
        then obtain ob2 where "ob2 \<in> set objs" "ao_key ob2 = k" by auto
        then show ?thesis using f(3) [OF that, of ob2] lq by auto
      qed
      show ?thesis using pr a b c by blast
    qed
  qed
qed

end

end
