(* ===== verification/ReleaseProps.thy ===== *)
theory ReleaseProps
  imports ReleasePrune
begin

text \<open>
  The properties of the release store: concurrent deployments to one manifest, and a prune against
  concurrent deploys.
\<close>

subsection \<open>Runs of the fake bucket\<close>

text \<open>The world after the calls of a schedule have taken one step each, nothing else acting.\<close>

definition writes :: "set_pc \<Rightarrow> set_pc \<Rightarrow> bool" where
  "writes pc pc1 \<longleftrightarrow> pc1 = SetDone None \<and> pc \<noteq> SetDone None"

fun world_run :: "(nat \<Rightarrow> set_call) \<Rightarrow> nat list \<Rightarrow> manifest fakeS3 world \<Rightarrow> manifest fakeS3 world" where
  "world_run calls [] w = w"
| "world_run calls (i # is) (s, pc, log) =
     (case set_step fake_api Inr Inr (calls i) (pc i) s of
        (pc1, s1) \<Rightarrow> world_run calls is (s1, pc(i := pc1), if writes (pc i) pc1 then log @ [i] else log))"

lemma fake_committed:
  assumes "set_step fake_api Inr Inr c pc s = (pc1, s1)"
  shows "committed fake_obj_of s pc s1 pc1 \<longleftrightarrow> writes pc pc1"
proof -
  have "fake_obj_of s1 = fake_obj_of s" if "\<not> writes pc pc1"
    using assms that
    by (cases pc) (auto simp: writes_def set_load_def set_put_def LoadManifest_def fake_api_def fake_Get_def
        fake_Put_def Let_def split: option.splits prod.splits sum.splits if_splits)
  then show ?thesis by (auto simp: committed_def writes_def)
qed

lemma world_run_reach:
  "(world_step fake_api fake_obj_of fake_later Inr Inr calls)\<^sup>*\<^sup>* w (world_run calls is w)"
proof (induction calls "is" w rule: world_run.induct)
  case (2 calls i "is" s pc log)
  obtain pc1 s1 where st: "set_step fake_api Inr Inr (calls i) (pc i) s = (pc1, s1)" by fastforce
  let ?w = "(s1, pc(i := pc1), if writes (pc i) pc1 then log @ [i] else log)"
  have "world_step fake_api fake_obj_of fake_later Inr Inr calls (s, pc, log) ?w"
    using own [where calls = calls and i = i and pc = pc and log = log and obj = fake_obj_of and later = fake_later, OF st] by (simp add: fake_committed [OF st])
  then show ?case using 2 [OF st [symmetric]] st by (auto intro: converse_rtranclp_into_rtranclp)
qed simp

definition demo_call :: "nat \<Rightarrow> set_call" where
  "demo_call i = \<lparr>sc_service = ''api'', sc_env = ''prd'', sc_host = ''h'' @ itoa i,
     sc_dep = \<lparr>dp_sha = ''s'' @ itoa i, dp_arch = ''amd64'', dp_at = int i\<rparr>\<rparr>"

definition empty_bucket :: "'b fakeS3" where
  "empty_bucket = \<lparr>fk_objs = [], fk_seq = 0\<rparr>"

lemma empty_bucket_valid: "fake_valid empty_bucket"
  by (simp add: fake_valid_def empty_bucket_def fake_obj_of_def)

lemma demo_reach:
  "(world_step fake_api fake_obj_of fake_later Inr Inr demo_call)\<^sup>*\<^sup>* (start_world empty_bucket)
     (world_run demo_call is (start_world empty_bucket))"
  by (rule world_run_reach)

text \<open>Two calls that race, and a call that five others overtake.\<close>

definition race_end :: "manifest fakeS3 world" where
  "race_end = world_run demo_call [0, 1, 1, 0, 0, 0] (start_world empty_bucket)"

definition starved_end :: "manifest fakeS3 world" where
  "starved_end = world_run demo_call (concat (map (\<lambda>i. [0, i, i, 0]) [1, 2, 3, 4, 5]) @ [0]) (start_world empty_bucket)"

lemma starved_pc: "gave_up (fst (snd starved_end) 0)"
proof -
  have "fst (snd starved_end) 0 = SetDone (Some (GaveUp ''api/manifest.prd.yaml'' 5))" by code_simp
  then show ?thesis by (simp add: gave_up_def)
qed

text \<open>A bucket of three bundles of one app, the oldest deployed.\<close>

definition demo_bucket :: "manifest fakeS3" where
  "demo_bucket =
     \<lparr>fk_objs =
        [(''web/a.tar.gz'', \<lparr>fo_body = [], fo_etag = etag_text 1, fo_mod = 1\<rparr>),
         (''web/b.tar.gz'', \<lparr>fo_body = [], fo_etag = etag_text 2, fo_mod = 2\<rparr>),
         (''web/c.tar.gz'', \<lparr>fo_body = [], fo_etag = etag_text 3, fo_mod = 3\<rparr>),
         (''web/manifest.prd.yaml'',
          \<lparr>fo_body = [(''h'', \<lparr>dp_sha = ''a'', dp_arch = [], dp_at = 1\<rparr>)], fo_etag = etag_text 4, fo_mod = 4\<rparr>)],
      fk_seq = 4\<rparr>"

definition demo_listed :: "artifact_object list" where
  "demo_listed = (case listArtifactObjects fake_api ''web'' demo_bucket of Some (Inr objs, s) \<Rightarrow> objs | _ \<Rightarrow> [])"

definition demo_swept :: "(string list \<times> rel_err list) \<times> manifest fakeS3" where
  "demo_swept = prune_sweep fake_api demo_listed (selectForPrune (coalesceArtifacts demo_listed) [''a''] 1) demo_bucket"

lemma demo_bucket_valid: "fake_valid demo_bucket"
  by (auto simp: fake_valid_def demo_bucket_def fake_obj_of_def split: if_splits)

lemma demo_listing: "listArtifactObjects fake_api ''web'' demo_bucket = Some (Inr demo_listed, demo_bucket)"
  by code_simp

lemma demo_pins: "PinnedSHAs fake_api Inr ''web'' demo_bucket = Some (Inr [''a''], demo_bucket)"
  by code_simp

subsection \<open>Concurrent deployments\<close>

lemma world_inv_parts:
  assumes "world_inv obj valid later dec calls s0 (s, pc, log)"
  shows "distinct log" and "pc i = SetDone None \<Longrightarrow> i \<in> set log"
    and "gave_up (pc i) \<Longrightarrow> manifestCASAttempts \<le> commits calls (call_key (calls i)) log \<and> i \<notin> set log"
    and "manifest_view dec (obj s (call_key (calls i))) =
           replay calls (call_key (calls i)) log (manifest_view dec (obj s0 (call_key (calls i))))"
  using assms by (auto simp: world_inv_def Let_def gave_up_def pc_inv_def)
    (metis (no_types, lifting) option.case set_pc.case(3) rel_err.case(12))+

text \<open>C25: whatever the interleaving of any number of \<open>SetDeployment\<close> calls, no deployment is lost and
  none is applied twice: the manifest of each environment is the initial one with the deployments of
  the log applied in order, every call that returned success is in the log, exactly once, and a call
  that gave up is not.\<close>
theorem set_deployment_linearizable:
  assumes "release_cas api obj valid later dec enc" "valid s0"
    and "(world_step api obj later dec enc calls)\<^sup>*\<^sup>* (start_world s0) (s, pc, log)"
  shows "distinct log \<and> (\<forall>i. pc i = SetDone None \<longrightarrow> i \<in> set log) \<and> (\<forall>i. gave_up (pc i) \<longrightarrow> i \<notin> set log)
    \<and> (\<forall>i. manifest_view dec (obj s (call_key (calls i))) =
             replay calls (call_key (calls i)) log (manifest_view dec (obj s0 (call_key (calls i)))))"
  using world_inv_parts [OF release_cas.world_inv_reach [OF assms]] by blast

theorem set_deployment_linearizable_witness:
  "distinct (snd (snd race_end))
   \<and> manifest_view Inr (fake_obj_of (fst race_end) (call_key (demo_call 0)))
       = replay demo_call (call_key (demo_call 0)) (snd (snd race_end)) Map.empty
   \<and> snd (snd race_end) = [1, 0]"
proof -
  obtain s pc log where w: "race_end = (s, pc, log)" by (cases race_end)
  have e: "manifest_view Inr (fake_obj_of empty_bucket k) = Map.empty" for k
    by (simp add: manifest_view_def fake_obj_of_def empty_bucket_def)
  have log: "snd (snd race_end) = [1, 0]" by code_simp
  have lin: "distinct log \<and> manifest_view Inr (fake_obj_of s (call_key (demo_call 0)))
      = replay demo_call (call_key (demo_call 0)) log (manifest_view Inr (fake_obj_of empty_bucket (call_key (demo_call 0))))"
    using set_deployment_linearizable
      [OF fake_cas.release_cas_axioms empty_bucket_valid demo_reach [of "[0, 1, 1, 0, 0, 0]", folded race_end_def, unfolded w]]
    by blast
  then show ?thesis using log unfolding w e by simp
qed

text \<open>C26: a call gives up only when at least as many other deployments to the same manifest took
  place meanwhile as it has attempts, so the manifest always makes progress.\<close>
theorem set_deployment_progress:
  assumes "release_cas api obj valid later dec enc" "valid s0"
    and "(world_step api obj later dec enc calls)\<^sup>*\<^sup>* (start_world s0) (s, pc, log)"
    and "gave_up (pc i)"
  shows "manifestCASAttempts \<le> commits calls (call_key (calls i)) log \<and> i \<notin> set log"
  using world_inv_parts(3) [OF release_cas.world_inv_reach [OF assms(1-3)] assms(4)] .

theorem set_deployment_progress_witness:
  "manifestCASAttempts \<le> commits demo_call (call_key (demo_call 0)) (snd (snd starved_end)) \<and> 0 \<notin> set (snd (snd starved_end))"
proof -
  obtain s pc log where w: "starved_end = (s, pc, log)" by (cases starved_end)
  show ?thesis
    using set_deployment_progress
      [OF fake_cas.release_cas_axioms empty_bucket_valid
          demo_reach [of "concat (map (\<lambda>i. [0, i, i, 0]) [1, 2, 3, 4, 5]) @ [0]", folded starved_end_def, unfolded w]
          starved_pc [unfolded w fst_conv snd_conv]]
    by (simp add: w)
qed

text \<open>C27: a \<open>SetDeployment\<close> call returns after at most eleven of its own steps, whatever the bucket
  answers and whatever others do to it between the steps.\<close>
theorem set_deployment_ends:
  "\<exists>r. set_trace api dec enc c st (2 * manifestCASAttempts + 1) = SetDone r"
  using set_trace_rank [of api dec enc c st "2 * manifestCASAttempts + 1"] pc_rank_0 by simp

subsection \<open>Prune\<close>

text \<open>Which artifact keys name their SHA: those of an architecture, and an architecture-free bundle whose
  SHA does not itself end in the suffix of one.\<close>

definition names_sha :: "string \<Rightarrow> string \<Rightarrow> bool" where
  "names_sha sha arch \<longleftrightarrow> arch \<in> set SupportedArchs \<or> arch = NoArch \<and> (\<forall>a\<in>set SupportedArchs. \<not> suffix (''-'' @ a) sha)"

lemma shaFromKey_any:
  "shaFromKey service (artifactKey service sha arch) =
     (let stem = (if arch = NoArch then sha else sha @ ''-'' @ arch) in
      if stem = [] \<or> CHR ''/'' \<in> set stem then [] else strip_arch SupportedArchs stem)"
proof -
  have "artifactKey service sha arch = (service @ ''/'') @ (if arch = NoArch then sha else sha @ ''-'' @ arch) @ artifactExt"
    by (simp add: artifactKey_def)
  then show ?thesis by (simp only: shaFromKey_stem Let_def)
qed

lemma shaFromKey_slash: "CHR ''/'' \<in> set sha \<Longrightarrow> shaFromKey service (artifactKey service sha arch) = []"
  by (simp add: shaFromKey_any Let_def)

lemma shaFromKey_empty:
  assumes "arch \<in> set SupportedArchs \<or> arch = NoArch"
  shows "shaFromKey service (artifactKey service [] arch) = []"
proof -
  have s: "strip_arch SupportedArchs ''-amd64'' = []" "strip_arch SupportedArchs ''-arm64'' = []" by code_simp+
  have "arch = ''amd64'' \<or> arch = ''arm64'' \<or> arch = NoArch" using assms by (auto simp: SupportedArchs_def)
  then show ?thesis by (elim disjE) (simp_all add: shaFromKey_any Let_def s NoArch_def)
qed

lemma named_sha: "names_sha sha arch \<Longrightarrow> shaFromKey service (artifactKey service sha arch) \<in> {sha, []}"
  using shaFromKey_slash [of sha service arch] shaFromKey_empty [of arch service]
    shaFromKey_artifactKey [of sha arch service] shaFromKey_app [of sha service]
  unfolding names_sha_def by (cases "sha = []"; cases "CHR ''/'' \<in> set sha") auto

lemma manifest_no_artifact: "isManifestKey service k \<Longrightarrow> shaFromKey service k = []"
proof -
  assume "isManifestKey service k"
  then have "suffix ''.yaml'' k" by (simp add: isManifestKey_def)
  then have "last k = CHR ''l''" by (auto simp: suffix_def)
  then have "\<not> suffix artifactExt k" by (auto simp: artifactExt_def suffix_def)
  then show ?thesis by (simp add: shaFromKey_def)
qed

text \<open>C28: a prune never deletes an artifact of a release that a manifest pins when the prune reads the
  pins: whatever happens between the listing, the reading of the pins and the sweep, the sweep leaves
  every manifest and every foreign object as it is, and for each pinned SHA every object whose key reads
  as that SHA.  Those are the artifacts of the SHA for all supported architectures, and its
  architecture-free bundle unless the SHA itself ends in the suffix of an architecture, when the key
  reads as a shorter SHA.\<close>
theorem prune_keeps_pinned:
  assumes os: "object_store api obj valid later rest" and v: "valid s0"
    and l: "listArtifactObjects api service s0 = Some (Inr objs, s1)" and g1: "later s1 s2"
    and p: "PinnedSHAs api dec service s2 = Some (Inr pins, s3)" and g2: "later s3 s4"
    and sw: "prune_sweep api objs (selectForPrune (coalesceArtifacts objs) pins keep) s4 = ((gone, errs), s5)"
  shows "(\<forall>k. isManifestKey service k \<or> shaFromKey service k = [] \<longrightarrow> obj s5 k = obj s4 k)
    \<and> (\<forall>mk b t m sha. isManifestKey service mk \<longrightarrow> obj s2 mk = Some (b, t) \<longrightarrow> dec b = Inr m \<longrightarrow> sha \<in> set (SHAs m) \<longrightarrow>
         (\<forall>k. shaFromKey service k = sha \<longrightarrow> obj s5 k = obj s4 k)
         \<and> (\<forall>arch. names_sha sha arch \<longrightarrow> obj s5 (artifactKey service sha arch) = obj s4 (artifactKey service sha arch)))"
proof -
  note cs = object_store.axioms(1) [OF os]
  have l1: "later s0 s1" and keys: "ao_key ` set objs = {k. obj s0 k \<noteq> None \<and> shaFromKey service k \<noteq> []}"
    and sha: "\<forall>ob\<in>set objs. ao_sha ob = shaFromKey service (ao_key ob)"
    using object_store.listing_complete [OF os v, of service] l by auto
  have v2: "valid s2" using cas_store.later_valid [OF cs] v l1 g1 by blast
  have pins: "set (SHAs m) \<subseteq> set pins" if "isManifestKey service mk" "obj s2 mk = Some (b, t)" "dec b = Inr m" for mk b t m
    using object_store.pins_complete [OF os v2, of dec service] p that by auto
  have "later s2 s3" using object_store.pins_complete [OF os v2, of dec service] p by auto
  then have v4: "valid s4" using cas_store.later_valid [OF cs] v2 g2 by blast
  note f = object_store.prune_sweep_facts(2) [OF os v4 sw sha]
  have foreign: "obj s5 k = obj s4 k" if "shaFromKey service k = []" for k
    using f [of k] keys that by auto
  have kept: "obj s5 k = obj s4 k"
    if "isManifestKey service mk" "obj s2 mk = Some (b, t)" "dec b = Inr m" "shaFromKey service k \<in> set (SHAs m)" for k mk b t m
  proof (rule ccontr)
    assume "obj s5 k \<noteq> obj s4 k"
    then have "shaFromKey service k \<in> set (selectForPrune (coalesceArtifacts objs) pins keep)" using f [of k] by auto
    then show False using that(4) pins [OF that(1,2,3)] victims_listed by blast
  qed
  have "obj s5 (artifactKey service sha arch) = obj s4 (artifactKey service sha arch)"
    if m: "isManifestKey service mk" "obj s2 mk = Some (b, t)" "dec b = Inr m" "sha \<in> set (SHAs m)" and n: "names_sha sha arch"
    for mk b t m sha arch
    using named_sha [OF n, of service] kept [OF m(1,2,3), of "artifactKey service sha arch"] foreign m(4) by auto
  then show ?thesis using foreign kept manifest_no_artifact by blast
qed

theorem prune_keeps_pinned_witness:
  "fake_obj_of (snd demo_swept) ''web/a.tar.gz'' = fake_obj_of demo_bucket ''web/a.tar.gz''
   \<and> fake_obj_of (snd demo_swept) ''web/b.tar.gz'' = None \<and> fst (fst demo_swept) = [''b'']"
proof -
  obtain gone errs s5 where sw: "demo_swept = ((gone, errs), s5)" by (metis surj_pair)
  have k: "isManifestKey ''web'' ''web/manifest.prd.yaml''" "shaFromKey ''web'' ''web/a.tar.gz'' = ''a''" by code_simp+
  let ?m = "[(''h'', \<lparr>dp_sha = ''a'', dp_arch = [], dp_at = 1\<rparr>)]"
  have m: "fake_obj_of demo_bucket ''web/manifest.prd.yaml'' = Some (?m, etag_text 4)" "''a'' \<in> set (SHAs ?m)"
    by (simp_all add: fake_obj_of_def demo_bucket_def SHAs_def)
  have "fake_obj_of s5 ''web/a.tar.gz'' = fake_obj_of demo_bucket ''web/a.tar.gz''"
    using prune_keeps_pinned [OF fake.object_store_axioms demo_bucket_valid demo_listing fake_later_refl demo_pins
        fake_later_refl sw [unfolded demo_swept_def], THEN conjunct2, rule_format, OF k(1) m(1) refl m(2)] k(2) by simp
  moreover have "fst (fst demo_swept) = [''b''] \<and> map_of (fk_objs (snd demo_swept)) ''web/b.tar.gz'' = None" by code_simp
  ultimately show ?thesis by (simp add: sw fake_obj_of_def)
qed

text \<open>a prune returns; when a read fails it has changed nothing; it changes objects only by
  deleting artifacts of the service, none of a release that a manifest pins; and of every release it
  reports as pruned no artifact is left, of any architecture.\<close>
theorem prune_outcome:
  assumes "object_store api obj valid later rest" "valid s"
  shows "\<exists>r s1. Prune api dec service keep s = Some (r, s1)
    \<and> (\<forall>e. r = Inl e \<longrightarrow> obj s1 = obj s)
    \<and> (\<forall>k. obj s1 k \<noteq> obj s k \<longrightarrow> obj s1 k = None \<and> shaFromKey service k \<noteq> [])
    \<and> (\<forall>k mk b t m. obj s mk = Some (b, t) \<longrightarrow> isManifestKey service mk \<longrightarrow> dec b = Inr m \<longrightarrow>
         shaFromKey service k \<in> set (SHAs m) \<longrightarrow> obj s1 k = obj s k)
    \<and> (\<forall>gone errs k. r = Inr (gone, errs) \<longrightarrow> shaFromKey service k \<in> set gone \<longrightarrow> obj s1 k = None)"
  by (rule object_store.prune_result [OF assms])

theorem prune_outcome_witness:
  "\<exists>r s1. Prune fake_api Inr ''web'' 1 demo_bucket = Some (r, s1)
     \<and> fake_obj_of s1 ''web/a.tar.gz'' = fake_obj_of demo_bucket ''web/a.tar.gz''"
proof -
  have k: "isManifestKey ''web'' ''web/manifest.prd.yaml''" "shaFromKey ''web'' ''web/a.tar.gz'' = ''a''" by code_simp+
  let ?m = "[(''h'', \<lparr>dp_sha = ''a'', dp_arch = [], dp_at = 1\<rparr>)]"
  have m: "fake_obj_of demo_bucket ''web/manifest.prd.yaml'' = Some (?m, etag_text 4)" "''a'' \<in> set (SHAs ?m)"
    by (simp_all add: fake_obj_of_def demo_bucket_def SHAs_def)
  from prune_outcome [OF fake.object_store_axioms demo_bucket_valid, of Inr "''web''" 1] show ?thesis
  proof (elim exE conjE)
    fix r s1
    assume "Prune fake_api Inr ''web'' 1 demo_bucket = Some (r, s1)"
      and q: "\<forall>k mk b t m. fake_obj_of demo_bucket mk = Some (b, t) \<longrightarrow> isManifestKey ''web'' mk \<longrightarrow>
         Inr b = Inr m \<longrightarrow> shaFromKey ''web'' k \<in> set (SHAs m) \<longrightarrow> fake_obj_of s1 k = fake_obj_of demo_bucket k"
    moreover have "fake_obj_of s1 ''web/a.tar.gz'' = fake_obj_of demo_bucket ''web/a.tar.gz''"
      using q [rule_format, OF m(1) k(1) refl, of "''web/a.tar.gz''"] k(2) m(2) by simp
    ultimately show ?thesis by blast
  qed
qed

text \<open>the retention policy: with a positive \<open>keep\<close> the releases that no manifest pins split into
  the \<open>keep\<close> newest, which stay, and the others, which are exactly the ones selected.\<close>
theorem prune_retention:
  assumes "0 < keep"
  shows "\<exists>kept gone. mset (filter (\<lambda>a. at_SHA a \<notin> set pinned) arts) = mset kept + mset gone
    \<and> selectForPrune arts pinned keep = map at_SHA gone
    \<and> int (length kept) = min keep (int (length (filter (\<lambda>a. at_SHA a \<notin> set pinned) arts)))
    \<and> (\<forall>a\<in>set kept. \<forall>b\<in>set gone. at_modified b \<le> at_modified a)"
  by (rule selectForPrune_spec [OF assms])

theorem prune_retention_witness:
  "\<exists>kept gone. mset (filter (\<lambda>a. at_SHA a \<notin> set [''a'']) (coalesceArtifacts demo_listed)) = mset kept + mset gone
    \<and> [''b''] = map at_SHA gone"
proof -
  have "selectForPrune (coalesceArtifacts demo_listed) [''a''] 1 = [''b'']" by code_simp
  moreover have "\<exists>kept gone. mset (filter (\<lambda>a. at_SHA a \<notin> set [''a'']) (coalesceArtifacts demo_listed)) = mset kept + mset gone
      \<and> selectForPrune (coalesceArtifacts demo_listed) [''a''] 1 = map at_SHA gone"
    using prune_retention [OF zero_less_one, of "[''a'']" "coalesceArtifacts demo_listed"]
    by (elim exE conjE) (intro exI conjI)
  ultimately show ?thesis by (simp only:)
qed

lemma strip_arch_shorter:
  "suffix (''-'' @ arch) sha \<Longrightarrow> arch \<in> set archs \<Longrightarrow> strip_arch archs sha \<noteq> sha"
  by (induction archs) (auto simp: suffix_def)

text \<open>C29: the key of an artifact of a supported architecture gives back its SHA exactly when the SHA has
  no slash; for an architecture-free bundle it does so exactly when, besides, the SHA does not itself end
  in the suffix of an architecture.  A key with a slash in the SHA is read as no artifact at all.\<close>
theorem artifact_key_roundtrip:
  "(\<forall>arch\<in>set SupportedArchs. shaFromKey service (artifactKey service sha arch) = sha \<longleftrightarrow> CHR ''/'' \<notin> set sha)
    \<and> (shaFromKey service (artifactKey service sha NoArch) = sha
        \<longleftrightarrow> CHR ''/'' \<notin> set sha \<and> (\<forall>arch\<in>set SupportedArchs. \<not> suffix (''-'' @ arch) sha))
    \<and> (CHR ''/'' \<in> set sha \<longrightarrow> (\<forall>arch. shaFromKey service (artifactKey service sha arch) = []))"
proof (cases "sha = [] \<or> CHR ''/'' \<in> set sha")
  case True
  then show ?thesis
    using shaFromKey_slash [of sha service] shaFromKey_empty [of _ service] by (auto simp: SupportedArchs_def)
next
  case False
  then have sha: "sha \<noteq> []" "CHR ''/'' \<notin> set sha" by auto
  have key: "artifactKey service sha NoArch = (service @ ''/'') @ sha @ artifactExt"
    by (simp add: artifactKey_def)
  have "shaFromKey service (artifactKey service sha NoArch) \<noteq> sha" if "suffix (''-'' @ arch) sha" "arch \<in> set SupportedArchs" for arch
    using strip_arch_shorter [OF that] sha unfolding key shaFromKey_stem by auto
  then show ?thesis using shaFromKey_artifactKey [OF sha(2)] shaFromKey_app [OF sha] sha(2) by blast
qed

theorem artifact_key_roundtrip_witness:
  "shaFromKey ''web'' (artifactKey ''web'' ''v1'' ''arm64'') = ''v1'' \<and> shaFromKey ''web'' (artifactKey ''web'' ''v-amd64'' NoArch) \<noteq> ''v-amd64''
   \<and> shaFromKey ''web'' (artifactKey ''web'' ''feature/x'' ''amd64'') = []"
  using artifact_key_roundtrip [of "''web''" "''v1''"] artifact_key_roundtrip [of "''web''" "''v-amd64''"]
    artifact_key_roundtrip [of "''web''" "''feature/x''"]
  by (simp add: SupportedArchs_def suffix_code_rev)

end
