(* ===== verification/StateLock.thy ===== *)
theory StateLock
  imports FakeBucket
begin

text \<open>
  The state-lock check and \<open>inforge stack unlock\<close> (\<open>cmd/inforge/statelock.go\<close>): which lock objects
  of the state bucket belong to a stack, what a locked stack reports, and what an unlock deletes.
\<close>

subsection \<open>Backend\<close>

datatype lock_err =
    MalformedURL string
  | NoClient string
  | NoLocks string
  | ListLocks s3_err
  | DeleteLock string s3_err
  | StackLocked string "(string \<times> int option) list"

text \<open>
  \<open>client\<close> is \<open>r2.NewClient\<close>.  \<open>None\<close> is a backend without lock objects.
\<close>

definition stateLockClient :: "(string + 'c) \<Rightarrow> string \<Rightarrow> string \<Rightarrow> lock_err + ('c \<times> string) option" where
  "stateLockClient client backend url =
     (if backend = ''r2'' then
        let bucket = trim_prefix ''r2://'' url in
        if bucket = [] \<or> CHR ''/'' \<in> set bucket then Inl (MalformedURL url)
        else case client of Inl e \<Rightarrow> Inl (NoClient e) | Inr c \<Rightarrow> Inr (Some (c, bucket))
      else Inr None)"

subsection \<open>Finding the locks\<close>

record lock_object =
  lo_key :: string
  lo_modified :: "int option"

definition locksPrefix :: string where
  "locksPrefix = ''.pulumi/locks/''"

definition is_lock_of :: "string \<Rightarrow> string \<Rightarrow> bool" where
  "is_lock_of stack key \<longleftrightarrow> stack \<in> set (split_on (CHR ''/'') key)"

definition lock_row :: "string \<Rightarrow> s3_object \<Rightarrow> lock_object list" where
  "lock_row stack ob =
     (if is_lock_of stack (so_key ob) then [\<lparr>lo_key = so_key ob, lo_modified = so_modified ob\<rparr>] else [])"

definition findStackLocks :: "('s, 'b) s3API \<Rightarrow> string \<Rightarrow> 's \<Rightarrow> ((lock_err + lock_object list) \<times> 's) option" where
  "findStackLocks api stack s =
     map_option (apfst (map_sum id (sort_key lo_key)))
       (page_loop api locksPrefix more_token ListLocks (\<lambda>ob acc s. (Inr (acc @ lock_row stack ob), s)) [] None s)"

definition lockedStackError :: "lock_object list \<Rightarrow> string \<Rightarrow> lock_err option" where
  "lockedStackError locks stack =
     (if locks = [] then None else Some (StackLocked stack (map (\<lambda>l. (lo_key l, lo_modified l)) locks)))"

text \<open>The check before a deploy; a listing that fails does not stop it.\<close>

definition failOnStackLock :: "(string + ('s, 'b) s3API) \<Rightarrow> string \<Rightarrow> string \<Rightarrow> string \<Rightarrow> 's
    \<Rightarrow> (lock_err option \<times> 's) option" where
  "failOnStackLock client backend url stack s =
     (case stateLockClient client backend url of
        Inl e \<Rightarrow> Some (Some e, s)
      | Inr None \<Rightarrow> Some (None, s)
      | Inr (Some (api, bucket)) \<Rightarrow>
          (case findStackLocks api stack s of
             None \<Rightarrow> None
           | Some (Inl e, s1) \<Rightarrow> Some (None, s1)
           | Some (Inr locks, s1) \<Rightarrow> Some (lockedStackError locks stack, s1)))"

subsection \<open>Unlocking\<close>

text \<open>The keys removed and the error that stopped the loop, if any.\<close>

fun remove_locks :: "('s, 'b) s3API \<Rightarrow> lock_object list \<Rightarrow> 's \<Rightarrow> (string list \<times> lock_err option) \<times> 's" where
  "remove_locks api [] s = (([], None), s)"
| "remove_locks api (l # ls) s =
     (case s3_DeleteObject api (lo_key l) s of
        (Some e, s1) \<Rightarrow> (([], Some (DeleteLock (lo_key l) e)), s1)
      | (None, s1) \<Rightarrow> (case remove_locks api ls s1 of ((gone, err), s2) \<Rightarrow> ((lo_key l # gone, err), s2)))"

definition unlockStackLocks :: "('s, 'b) s3API \<Rightarrow> string \<Rightarrow> 's \<Rightarrow> ((string list \<times> lock_err option) \<times> 's) option" where
  "unlockStackLocks api stack s =
     (case findStackLocks api stack s of
        None \<Rightarrow> None
      | Some (Inl e, s1) \<Rightarrow> Some (([], Some e), s1)
      | Some (Inr locks, s1) \<Rightarrow> Some (remove_locks api locks s1))"

definition runStackUnlock :: "(string + ('s, 'b) s3API) \<Rightarrow> string \<Rightarrow> string \<Rightarrow> string \<Rightarrow> 's
    \<Rightarrow> ((string list \<times> lock_err option) \<times> 's) option" where
  "runStackUnlock client backend url stack s =
     (case stateLockClient client backend url of
        Inl e \<Rightarrow> Some (([], Some e), s)
      | Inr None \<Rightarrow> Some (([], Some (NoLocks backend)), s)
      | Inr (Some (api, bucket)) \<Rightarrow> unlockStackLocks api stack s)"

subsection \<open>Facts\<close>

context object_store
begin

lemma locks_complete:
  assumes "valid s"
  shows "\<exists>r s1. findStackLocks api stack s = Some (r, s1) \<and> later s s1 \<and> obj s1 = obj s
    \<and> (\<forall>locks. r = Inr locks \<longrightarrow> sorted (map lo_key locks)
         \<and> lo_key ` set locks = {k. obj s k \<noteq> None \<and> prefix locksPrefix k \<and> is_lock_of stack k})"
proof -
  let ?I = "\<lambda>seen acc. acc = concat (map (lock_row stack) seen)"
  let ?h = "\<lambda>ob acc s. (Inr (acc @ lock_row stack ob), s)"
  have "\<exists>r s1. page_loop api locksPrefix more_token ListLocks ?h [] None s = Some (r, s1)
      \<and> later s s1 \<and> obj s1 = obj s \<and> (\<forall>acc1. r = Inr acc1 \<longrightarrow> ?I [] [] \<longrightarrow>
        (\<exists>obs. map so_key obs = map so_key (rest s locksPrefix None) \<and> ?I ([] @ obs) acc1))"
    by (rule page_loop_inv [where I = ?I]) (auto simp: later_refl more_agree assms)
  then obtain r s1 where r: "page_loop api locksPrefix more_token ListLocks ?h [] None s = Some (r, s1)"
    "later s s1" "obj s1 = obj s"
    "\<forall>acc1. r = Inr acc1 \<longrightarrow> (\<exists>obs. map so_key obs = map so_key (rest s locksPrefix None)
        \<and> acc1 = concat (map (lock_row stack) obs))"
    by auto
  have keys: "lo_key ` set acc1 = {k. obj s k \<noteq> None \<and> prefix locksPrefix k \<and> is_lock_of stack k}"
    if i: "r = Inr acc1" for acc1
  proof -
    obtain obs where obs: "map so_key obs = map so_key (rest s locksPrefix None)" "acc1 = concat (map (lock_row stack) obs)"
      using r(4) i by blast
    have "so_key ` set obs = {k. obj s k \<noteq> None \<and> prefix locksPrefix k}"
      using arg_cong [OF obs(1), of set] rest_all [OF assms] by simp
    moreover have "lo_key ` set acc1 = {k \<in> so_key ` set obs. is_lock_of stack k}"
      by (force simp: obs(2) lock_row_def split: if_splits)
    ultimately show ?thesis by blast
  qed
  have "findStackLocks api stack s = Some (map_sum id (sort_key lo_key) r, s1)"
    by (simp add: findStackLocks_def r(1))
  moreover have "sorted (map lo_key locks) \<and> lo_key ` set locks = {k. obj s k \<noteq> None \<and> prefix locksPrefix k \<and> is_lock_of stack k}"
    if m: "map_sum id (sort_key lo_key) r = Inr locks" for locks
  proof -
    obtain l where l: "r = Inr l" "locks = sort_key lo_key l" using m by (cases r) auto
    show ?thesis using keys [OF l(1)] l(2) by (simp only: sorted_sort_key set_sort simp_thms)
  qed
  ultimately show ?thesis using r(2,3) by blast
qed

lemma remove_locks_facts:
  assumes "valid s" "remove_locks api ls s = ((gone, err), s1)"
  shows "(\<forall>k. obj s1 k = obj s k \<or> obj s1 k = None \<and> k \<in> lo_key ` set ls)
    \<and> prefix gone (map lo_key ls) \<and> (\<forall>k\<in>set gone. obj s1 k = None) \<and> (err = None \<longrightarrow> gone = map lo_key ls)"
  using assms
proof (induction ls arbitrary: s gone err)
  case (Cons l ls)
  obtain d s2 where d: "s3_DeleteObject api (lo_key l) s = (d, s2)" by fastforce
  show ?case
  proof (cases d)
    case None
    have v2: "valid s2" using delete_later [OF Cons.prems(1) d] Cons.prems(1) later_valid by blast
    obtain g er where r: "remove_locks api ls s2 = ((g, er), s1)" and g: "gone = lo_key l # g" "err = er"
      using Cons.prems(2) d None by (auto split: prod.splits)
    note ih = Cons.IH [OF v2 r]
    have o2: "obj s2 = (obj s)(lo_key l := None)" by (rule delete_done [OF Cons.prems(1) d [unfolded None]])
    have left: "obj s1 k = obj s2 k \<or> obj s1 k = None \<and> k \<in> lo_key ` set ls" for k using ih by blast
    have "obj s1 k = obj s k \<or> obj s1 k = None \<and> k \<in> lo_key ` set (l # ls)" for k
      using left [of k] o2 by (cases "k = lo_key l") auto
    moreover have "obj s1 (lo_key l) = None" using left [of "lo_key l"] o2 by auto
    ultimately show ?thesis using ih g by auto
  next
    case (Some e)
    then have "gone = []" "err = Some (DeleteLock (lo_key l) e)" "s1 = s2" using Cons.prems(2) d by auto
    then show ?thesis using delete_failed [OF Cons.prems(1) d [unfolded Some]] by auto
  qed
qed simp

lemma remove_locks_valid:
  "valid s \<Longrightarrow> remove_locks api ls s = ((gone, err), s1) \<Longrightarrow> valid s1"
proof (induction ls arbitrary: s gone err)
  case (Cons l ls)
  obtain d s2 where d: "s3_DeleteObject api (lo_key l) s = (d, s2)" by fastforce
  have "valid s2" using delete_later [OF Cons.prems(1) d] Cons.prems(1) later_valid by blast
  then show ?case using Cons.IH [of s2] Cons.prems(2) d by (auto split: option.splits prod.splits)
qed simp

end

subsection \<open>Properties\<close>

text \<open>C30: \<open>inforge stack unlock\<close> always comes back; it deletes nothing but lock objects of the stack, of
  which the stack is a whole path segment; when it reports success no lock of the stack is left, and the
  next check of the same bucket lets the deploy pass.\<close>
theorem unlock_outcome:
  assumes "object_store api obj valid later rest" "valid s"
  shows "\<exists>gone err s1. unlockStackLocks api stack s = Some ((gone, err), s1)
    \<and> (\<forall>k. obj s1 k \<noteq> obj s k \<longrightarrow> obj s1 k = None \<and> prefix locksPrefix k \<and> is_lock_of stack k)
    \<and> (\<forall>k\<in>set gone. obj s1 k = None)
    \<and> (err = None \<longrightarrow> (\<forall>k. prefix locksPrefix k \<longrightarrow> is_lock_of stack k \<longrightarrow> obj s1 k = None)
         \<and> (\<forall>r s2. findStackLocks api stack s1 = Some (Inr r, s2) \<longrightarrow> lockedStackError r stack = None))"
proof -
  note cs = object_store.axioms(1) [OF assms(1)]
  obtain q s2 where f: "findStackLocks api stack s = Some (q, s2)" "later s s2" "obj s2 = obj s"
    and fq: "\<And>locks. q = Inr locks \<Longrightarrow> lo_key ` set locks = {k. obj s k \<noteq> None \<and> prefix locksPrefix k \<and> is_lock_of stack k}"
    using object_store.locks_complete [OF assms, of stack] by blast
  have v2: "valid s2" by (rule cas_store.later_valid [OF cs assms(2) f(2)])
  show ?thesis
  proof (cases q)
    case (Inl e)
    then show ?thesis using f by (simp add: unlockStackLocks_def)
  next
    case (Inr locks)
    obtain gone err s1 where r: "remove_locks api locks s2 = ((gone, err), s1)" by (metis surj_pair)
    note rf = object_store.remove_locks_facts [OF assms(1) v2 r]
    have u: "unlockStackLocks api stack s = Some ((gone, err), s1)"
      by (simp add: unlockStackLocks_def f(1) Inr r)
    have a: "obj s1 k = None \<and> prefix locksPrefix k \<and> is_lock_of stack k" if "obj s1 k \<noteq> obj s k" for k
      using rf fq [OF Inr] that f(3) by (metis (no_types, lifting) mem_Collect_eq)
    have b: "obj s1 k = None" if "err = None" "prefix locksPrefix k" "is_lock_of stack k" for k
    proof (cases "obj s k = None")
      case True
      then show ?thesis using a [of k] by metis
    next
      case False
      then have "k \<in> lo_key ` set locks" using that fq [OF Inr] by simp
      then show ?thesis using rf that(1) by auto
    qed
    have c: "lockedStackError rr stack = None" if e: "err = None" "findStackLocks api stack s1 = Some (Inr rr, s3)" for rr s3
    proof -
      have "valid s1"
        using object_store.remove_locks_valid [OF assms(1) v2 r] .
      from object_store.locks_complete [OF assms(1) this, of stack] e(2)
      have "lo_key ` set rr = {k. obj s1 k \<noteq> None \<and> prefix locksPrefix k \<and> is_lock_of stack k}" by auto
      moreover have "{k. obj s1 k \<noteq> None \<and> prefix locksPrefix k \<and> is_lock_of stack k} = {}"
        using b [OF e(1)] by (auto simp del: not_None_eq)
      ultimately have "rr = []" by (metis image_is_empty set_empty)
      then show ?thesis by (simp add: lockedStackError_def)
    qed
    show ?thesis
    proof (intro exI conjI)
      show "unlockStackLocks api stack s = Some ((gone, err), s1)" by (rule u)
      show "\<forall>k\<in>set gone. obj s1 k = None" using rf by blast
    qed (use a b c in blast)+
  qed
qed

definition locked_bucket :: "string fakeS3" where
  "locked_bucket =
     \<lparr>fk_objs =
        [(''.pulumi/locks/organization/infra/prd/l1.json'', \<lparr>fo_body = [], fo_etag = etag_text 1, fo_mod = 1\<rparr>),
         (''.pulumi/locks/organization/infra/prd-eu/l2.json'', \<lparr>fo_body = [], fo_etag = etag_text 2, fo_mod = 2\<rparr>)],
      fk_seq = 2\<rparr>"

lemma locked_bucket_valid: "fake_valid locked_bucket"
  by (auto simp: fake_valid_def locked_bucket_def fake_obj_of_def split: if_splits)

lemma locked_run:
  "fst (the (unlockStackLocks fake_api ''prd'' locked_bucket)) = ([''.pulumi/locks/organization/infra/prd/l1.json''], None)"
  by code_simp

theorem unlock_outcome_witness:
  "\<exists>gone s1. unlockStackLocks fake_api ''prd'' locked_bucket = Some ((gone, None), s1)
     \<and> fake_obj_of s1 ''.pulumi/locks/organization/infra/prd/l1.json'' = None"
proof -
  have l: "prefix locksPrefix ''.pulumi/locks/organization/infra/prd/l1.json''"
    "is_lock_of ''prd'' ''.pulumi/locks/organization/infra/prd/l1.json''" by code_simp+
  from unlock_outcome [OF fake.object_store_axioms locked_bucket_valid, of "''prd''"] show ?thesis
  proof (elim exE conjE)
    fix gone err s1
    assume u: "unlockStackLocks fake_api ''prd'' locked_bucket = Some ((gone, err), s1)"
      and i: "err = None \<longrightarrow> (\<forall>k. prefix locksPrefix k \<longrightarrow> is_lock_of ''prd'' k \<longrightarrow> fake_obj_of s1 k = None)
         \<and> (\<forall>r s2. findStackLocks fake_api ''prd'' s1 = Some (Inr r, s2) \<longrightarrow> lockedStackError r ''prd'' = None)"
    have "err = None" using locked_run u by simp
    then show ?thesis using u i l by auto
  qed
qed

end
