(* ===== verification/MeshPlan.thy ===== *)
theory MeshPlan
  imports MeshNginx EdgePlan
begin

text \<open>
  Which services sit on which mesh host (\<open>internal/meshplan/meshplan.go\<close>), and the mesh inputs the
  Pulumi program derives from that (\<open>program/mesh.go\<close>): the callers a callee admits, the callee and
  caller halves of every host, the routing table of a scope, and the configuration of each host with
  the addresses of the computes filled in (\<open>providers/hetzner/mesh.go\<close>).  A Go map that the code
  ranges over in a sorted order is a function with the sorted list of its keys.
\<close>

subsection \<open>The grouping\<close>

definition mesh_host_of :: "(string \<rightharpoonup> string) \<Rightarrow> service_spec \<Rightarrow> string option" where
  "mesh_host_of canonical s = (if svc_pki s = [] then None else canonical (svc_host s))"

definition ServicesByHost :: "resources \<Rightarrow> (string \<rightharpoonup> string) \<Rightarrow> string \<Rightarrow> service_spec list" where
  "ServicesByHost res canonical h =
     sort_key svc_name (filter (\<lambda>s. mesh_host_of canonical s = Some h) (res_service res))"

definition HostKeys :: "resources \<Rightarrow> (string \<rightharpoonup> string) \<Rightarrow> string list" where
  "HostKeys res canonical =
     sort (remdups (concat (map (\<lambda>s. case mesh_host_of canonical s of None \<Rightarrow> [] | Some h \<Rightarrow> [h]) (res_service res))))"

definition gateway_member :: "gateway_spec \<Rightarrow> service_spec" where
  "gateway_member g =
     \<lparr>svc_name = GatewayMember, svc_container = [], svc_host = gw_host g, svc_type = [], svc_user = [],
      svc_pki = gw_pki g, svc_mtls_files = False, svc_reload = [], svc_ingress = [], svc_routes = [],
      svc_health_port = 0, svc_health_paths = [], svc_exposed = [], svc_mesh = None, svc_grants = [], svc_env = []\<rparr>"

definition GatewayMemberByHost :: "resources \<Rightarrow> (string \<rightharpoonup> string) \<Rightarrow> (string \<rightharpoonup> service_spec)" where
  "GatewayMemberByHost res canonical =
     last_map (concat (map (\<lambda>g. case canonical (gw_host g) of None \<Rightarrow> [] | Some h \<Rightarrow> [(h, gateway_member g)])
       (res_gateway res)))"

definition UnionHostKeys :: "resources \<Rightarrow> (string \<rightharpoonup> string) \<Rightarrow> string list" where
  "UnionHostKeys res canonical =
     sort (remdups (HostKeys res canonical
       @ concat (map (\<lambda>g. case canonical (gw_host g) of None \<Rightarrow> [] | Some h \<Rightarrow> [h]) (res_gateway res))))"

subsection \<open>The callers a callee admits\<close>

definition meshGatewayCaller :: string where "meshGatewayCaller = ''gateway''"

text \<open>The identities one authored name expands to.\<close>

definition caller_ids :: "string \<Rightarrow> string list \<Rightarrow> (string \<Rightarrow> bool) \<Rightarrow> (string \<Rightarrow> bool) \<Rightarrow> string \<Rightarrow> string list" where
  "caller_ids calleeScope regions regionalMesh globalMesh name =
     (if name = meshGatewayCaller then [calleeScope @ ''/'' @ meshGatewayCaller]
      else if calleeScope \<noteq> ScopeGlobal then [calleeScope @ ''/'' @ name]
      else (if regionalMesh name then map (\<lambda>r. r @ ''/'' @ name) regions else [])
           @ (if globalMesh name then [ScopeGlobal @ ''/'' @ name] else []))"

definition expandAllowedCallers :: "string list \<Rightarrow> string \<Rightarrow> string list \<Rightarrow> (string \<Rightarrow> bool) \<Rightarrow> (string \<Rightarrow> bool)
    \<Rightarrow> string list \<times> string list" where
  "expandAllowedCallers allowed calleeScope regions regionalMesh globalMesh =
     (let ids = caller_ids calleeScope regions regionalMesh globalMesh in
      (sort (remdups (concat (map ids allowed))), sort (filter (\<lambda>n. ids n = []) allowed)))"

definition meshMembers :: "resources \<Rightarrow> string \<Rightarrow> bool" where
  "meshMembers res n \<longleftrightarrow> n \<in> set (map svc_name (filter (\<lambda>s. svc_pki s \<noteq> []) (res_service res)))"

record mesh_universe =
  mu_regional :: "string \<Rightarrow> bool"
  mu_global :: "string \<Rightarrow> bool"

definition newMeshCallerUniverse :: "resources \<Rightarrow> resources \<Rightarrow> mesh_universe" where
  "newMeshCallerUniverse regionalRes globalRes =
     \<lparr>mu_regional = meshMembers regionalRes, mu_global = meshMembers globalRes\<rparr>"

definition allowedFor :: "mesh_universe \<Rightarrow> service_spec \<Rightarrow> string \<Rightarrow> string list \<Rightarrow> string list \<times> string list" where
  "allowedFor u s meshScope regionNames =
     (case svc_mesh s of
        None \<Rightarrow> ([], [])
      | Some m \<Rightarrow> expandAllowedCallers (mesh_allowed m) meshScope regionNames (mu_regional u) (mu_global u))"

subsection \<open>The inputs of a host\<close>

record mesh_host_inputs =
  mh_local :: "local_service list"
  mh_egress :: "egress_caller list"

definition egress_of :: "nat \<Rightarrow> service_spec \<Rightarrow> egress_caller" where
  "egress_of i s =
     \<lparr>ec_name = svc_name s, ec_port = EgressPort (int i), ec_cert = LeafCertPath (svc_name s),
      ec_key = LeafKeyPath (svc_name s)\<rparr>"

definition local_of :: "string \<Rightarrow> (service_spec \<Rightarrow> string list) \<Rightarrow> service_spec \<Rightarrow> local_service list" where
  "local_of scope allowed s =
     (case svc_mesh s of
        None \<Rightarrow> []
      | Some m \<Rightarrow>
          [\<lparr>ls_name = svc_name s, ls_sni = DNSName scope (svc_name s), ls_port = mesh_port m,
            ls_cert = LeafCertPath (svc_name s), ls_key = LeafKeyPath (svc_name s),
            ls_callers = allowed s, ls_paths = mesh_public m @ mesh_internal m\<rparr>])"

definition gateway_egress :: "service_spec \<Rightarrow> egress_caller" where
  "gateway_egress g =
     \<lparr>ec_name = svc_name g, ec_port = GatewayEgressPort, ec_cert = LeafCertPath (svc_name g),
      ec_key = LeafKeyPath (svc_name g)\<rparr>"

definition meshInputsByHost :: "resources \<Rightarrow> (string \<rightharpoonup> string) \<Rightarrow> string \<Rightarrow> (service_spec \<Rightarrow> string list)
    \<Rightarrow> (string \<rightharpoonup> mesh_host_inputs)" where
  "meshInputsByHost res canonical scope allowed h =
     (let svcs = ServicesByHost res canonical h;
          gw = GatewayMemberByHost res canonical h in
      if svcs = [] \<and> gw = None then None
      else Some \<lparr>mh_local = concat (map (local_of scope allowed) svcs),
             mh_egress = map (\<lambda>(i, s). egress_of i s) (enumerate 0 svcs)
               @ (case gw of None \<Rightarrow> [] | Some g \<Rightarrow> [gateway_egress g])\<rparr>)"

text \<open>The Go code ranges over the hosts in map order; the names of a scope are unique, so the order
  does not show.  Here it is the sorted one.\<close>

definition meshEgressPortsByService :: "resources \<Rightarrow> (string \<rightharpoonup> string) \<Rightarrow> (string \<rightharpoonup> int)" where
  "meshEgressPortsByService res canonical =
     last_map (concat (map (\<lambda>h. map (\<lambda>(i, s). (svc_name s, EgressPort (int i))) (enumerate 0 (ServicesByHost res canonical h)))
       (HostKeys res canonical)))"

subsection \<open>The routing table\<close>

record mesh_route =
  mr_name :: string
  mr_sni :: string
  mr_host :: string
  mr_global :: bool

fun scope_targets :: "string \<Rightarrow> bool \<Rightarrow> (string \<rightharpoonup> string) \<Rightarrow> string list \<Rightarrow> service_spec list \<Rightarrow> mesh_route list" where
  "scope_targets scope global canonical seen [] = []"
| "scope_targets scope global canonical seen (s # ss) =
     (if svc_mesh s = None then scope_targets scope global canonical seen ss
      else
        case canonical (svc_host s) of
          None \<Rightarrow> scope_targets scope global canonical seen ss
        | Some h \<Rightarrow>
            (if svc_name s \<in> set seen then scope_targets scope global canonical seen ss
             else \<lparr>mr_name = svc_name s, mr_sni = DNSName scope (svc_name s), mr_host = h, mr_global = global\<rparr>
               # scope_targets scope global canonical (svc_name s # seen) ss))"

definition meshTargets :: "resources \<Rightarrow> resources \<Rightarrow> (string \<rightharpoonup> string) \<Rightarrow> (string \<rightharpoonup> string) \<Rightarrow> string \<Rightarrow> bool
    \<Rightarrow> mesh_route list" where
  "meshTargets scopeRes globalRes scopeCanonical globalCanonical meshScope isGlobal =
     (let own = scope_targets meshScope False scopeCanonical [] (res_service scopeRes);
          other = (if isGlobal then []
                   else scope_targets ScopeGlobal True globalCanonical (map mr_name own) (res_service globalRes)) in
      sort_key mr_name (own @ other))"

subsection \<open>Realisation of a scope\<close>

record compute_outputs =
  co_public :: string
  co_private :: string

datatype mesh_plan_err =
    CallersDropped "(string \<times> string) list"
  | GlobalTargetNoOutput string string
  | TargetNoOutput string string
  | MeshHostNoOutput string
  | TargetNoIP string string
  | MeshRender mesh_err

definition dropped_callers :: "resources \<Rightarrow> (string \<rightharpoonup> string) \<Rightarrow> mesh_universe \<Rightarrow> string \<Rightarrow> string list \<Rightarrow> (string \<times> string) list" where
  "dropped_callers res canonical u meshScope regionNames =
     concat (map (\<lambda>h. concat (map (\<lambda>s. map (Pair (svc_name s)) (snd (allowedFor u s meshScope regionNames)))
         (ServicesByHost res canonical h))) (HostKeys res canonical))"

fun target_ips :: "(string \<rightharpoonup> compute_outputs) \<Rightarrow> (string \<rightharpoonup> compute_outputs) \<Rightarrow> mesh_route list
    \<Rightarrow> mesh_plan_err + (mesh_route \<times> string) list" where
  "target_ips scopeOut globalOut [] = Inr []"
| "target_ips scopeOut globalOut (t # ts) =
     (case (if mr_global t
            then (case globalOut (mr_host t) of None \<Rightarrow> Inl (GlobalTargetNoOutput (mr_name t) (mr_host t)) | Some o' \<Rightarrow> Inr (co_public o'))
            else (case scopeOut (mr_host t) of None \<Rightarrow> Inl (TargetNoOutput (mr_name t) (mr_host t)) | Some o' \<Rightarrow> Inr (co_private o'))) of
        Inl e \<Rightarrow> Inl e
      | Inr ip \<Rightarrow>
          (case target_ips scopeOut globalOut ts of Inl e \<Rightarrow> Inl e | Inr r \<Rightarrow> Inr ((t, ip) # r)))"

text \<open>
  What \<open>realizeMesh\<close> has before its loop over the hosts: the inputs of each host and the routing table
  with the address output of each target.  \<open>scopeKey\<close> is a region name or \<open>global\<close>.
\<close>

record mesh_plan =
  mp_hosts :: "string list"
  mp_inputs :: "string \<rightharpoonup> mesh_host_inputs"
  mp_targets :: "(mesh_route \<times> string) list"

definition mesh_plan_of :: "resources \<Rightarrow> resources \<Rightarrow> resources \<Rightarrow> (string \<rightharpoonup> compute_outputs)
    \<Rightarrow> (string \<rightharpoonup> compute_outputs) \<Rightarrow> string \<Rightarrow> string list \<Rightarrow> mesh_plan_err + mesh_plan" where
  "mesh_plan_of scopeRes regionalRes globalRes scopeOut globalOut scopeKey regionNames =
     (let canonical = CanonicalComputeKeys (res_compute scopeRes);
          globalCanonical = CanonicalComputeKeys (res_compute globalRes);
          u = newMeshCallerUniverse regionalRes globalRes;
          allowed = (\<lambda>s. fst (allowedFor u s scopeKey regionNames));
          dropped = dropped_callers scopeRes canonical u scopeKey regionNames in
      if dropped \<noteq> [] then Inl (CallersDropped dropped)
      else if UnionHostKeys scopeRes canonical = []
      then Inr \<lparr>mp_hosts = [], mp_inputs = Map.empty, mp_targets = []\<rparr>
      else
        case target_ips scopeOut globalOut
            (meshTargets scopeRes globalRes canonical globalCanonical scopeKey (scopeKey = ScopeGlobal)) of
          Inl e \<Rightarrow> Inl e
        | Inr ts \<Rightarrow> Inr \<lparr>mp_hosts = UnionHostKeys scopeRes canonical,
            mp_inputs = meshInputsByHost scopeRes canonical scopeKey allowed, mp_targets = ts\<rparr>)"

text \<open>The configuration of one host: the listen address, then the address of every target.\<close>

fun fill_targets :: "string \<Rightarrow> (mesh_route \<times> string) list \<Rightarrow> mesh_plan_err + mesh_target list" where
  "fill_targets hostKey [] = Inr []"
| "fill_targets hostKey ((t, ip) # ts) =
     (if ip = [] then Inl (TargetNoIP hostKey (mr_name t))
      else
        case fill_targets hostKey ts of
          Inl e \<Rightarrow> Inl e
        | Inr r \<Rightarrow> Inr (\<lparr>mt_name = mr_name t, mt_addr = ip @ '':'' @ Itoa MTLSPort, mt_sni = mr_sni t\<rparr> # r))"

definition BundlePath :: string where "BundlePath = mesh_RuntimeDir @ ''/'' @ BundleKey"

definition mesh_config_of :: "mesh_plan \<Rightarrow> (string \<rightharpoonup> compute_outputs) \<Rightarrow> string \<Rightarrow> string \<Rightarrow> mesh_plan_err + mesh_config" where
  "mesh_config_of pl scopeOut scopeKey hostKey =
     (case scopeOut hostKey of
        None \<Rightarrow> Inl (MeshHostNoOutput hostKey)
      | Some out \<Rightarrow>
          (case fill_targets hostKey (mp_targets pl) of
             Inl e \<Rightarrow> Inl e
           | Inr ts \<Rightarrow>
               (let mh = (case mp_inputs pl hostKey of None \<Rightarrow> \<lparr>mh_local = [], mh_egress = []\<rparr> | Some mh \<Rightarrow> mh) in
                Inr \<lparr>mc_listen = (if scopeKey = ScopeGlobal then ''0.0.0.0'' else co_private out),
                     mc_bundle = BundlePath, mc_local = mh_local mh, mc_egress = mh_egress mh, mc_targets = ts\<rparr>)))"

definition realize_mesh_host :: "mesh_plan \<Rightarrow> (string \<rightharpoonup> compute_outputs) \<Rightarrow> string \<Rightarrow> string \<Rightarrow> mesh_plan_err + directive list" where
  "realize_mesh_host pl scopeOut scopeKey hostKey =
     (case mesh_config_of pl scopeOut scopeKey hostKey of
        Inl e \<Rightarrow> Inl e
      | Inr c \<Rightarrow> (case mesh_http c of Inl e \<Rightarrow> Inl (MeshRender e) | Inr http \<Rightarrow> Inr http))"

text \<open>The services the mesh descriptor of a host lists.\<close>

definition descriptor_services :: "mesh_host_inputs \<Rightarrow> string list" where
  "descriptor_services mh = map ec_name (mh_egress mh)"

end
