(* ===== verification/DeployDesc.thy ===== *)
theory DeployDesc
  imports MeshPlan EdgeRealize
begin

text \<open>
  Where a release goes: the host paths and the systemd unit of a service (\<open>internal/service\<close>), the
  paths of an app (\<open>internal/app\<close>), the four deploy descriptors that a stack exports
  (\<open>internal/service\<close>, \<open>internal/app\<close>, \<open>internal/meshplan/deploy.go\<close>, \<open>program/dbdeploy.go\<close>), the
  deployment manifests of a service repository (\<open>internal/deployment\<close>), and the resolution of the
  targets of a release (\<open>cmd/inforge/releases.go\<close>, \<open>release.go\<close>).
\<close>

subsection \<open>Host paths\<close>

definition svc_Folder :: "string \<Rightarrow> string" where "svc_Folder name = ''/srv/wardnet/'' @ name"
definition UnitName :: "string \<Rightarrow> string" where "UnitName name = host_UnitName name"
definition UnitPath :: "string \<Rightarrow> string" where "UnitPath name = ''/etc/systemd/system/'' @ UnitName name"
definition AgentBin :: string where "AgentBin = ''/usr/local/bin/inforge-agent''"
definition DescriptorDir :: "string \<Rightarrow> string" where "DescriptorDir name = ''/etc/wardnet/services/'' @ name"
definition ExecPath :: "string \<Rightarrow> string" where "ExecPath name = svc_Folder name @ ''/run''"
definition DescriptorPath :: "string \<Rightarrow> string" where "DescriptorPath name = DescriptorDir name @ ''/descriptor.yaml''"
definition SecretsPath :: "string \<Rightarrow> string" where "SecretsPath name = DescriptorDir name @ ''/secrets.age''"
definition LeafPath :: "string \<Rightarrow> string" where "LeafPath name = DescriptorDir name @ ''/leaf.age''"

definition NL :: string where "NL = [CHR 0x0A]"

definition unlines :: "string list \<Rightarrow> string" where "unlines ls = concat (map (\<lambda>l. l @ NL) ls)"

definition Unit :: "service_spec \<Rightarrow> string" where
  "Unit s =
     (let name = svc_name s in
      unlines ([''[Unit]'', ''Description=wardnet '' @ name, ''After=network.target'', ''StartLimitIntervalSec=0'',
         ''ConditionPathExists='' @ ExecPath name, [], ''[Service]'', ''Type=simple'',
         ''WorkingDirectory='' @ svc_Folder name, ''RuntimeDirectory='' @ RuntimeSubdir name, ''RuntimeDirectoryMode=0700'',
         ''ExecStart='' @ AgentBin @ '' '' @ DescriptorDir name]
       @ (if svc_reload s \<noteq> [] then [''ExecReload='' @ svc_reload s] else [])
       @ [''Restart=always'', ''RestartSec=5'', [], ''[Install]'', ''WantedBy=multi-user.target'']))"

subsection \<open>The descriptors\<close>

definition defaultSSHUser :: string where "defaultSSHUser = ''deploy''"

definition ssh_user :: "(string \<rightharpoonup> string) \<Rightarrow> string \<Rightarrow> string" where
  "ssh_user deployUsers hostKey = (let u = go_string deployUsers hostKey in if u = [] then defaultSSHUser else u)"

record deploy_target =
  dt_service :: string
  dt_host_dns :: string
  dt_folder :: string
  dt_unit :: string
  dt_user :: string
  dt_ssh_user :: string
  dt_scope :: string

definition computeName :: "string \<Rightarrow> string" where "computeName specKey = BareComputeName specKey"

definition hostDNS :: "string \<Rightarrow> string \<Rightarrow> string \<Rightarrow> string \<Rightarrow> string" where
  "hostDNS hostKey env baseDomain slug = HostFQDN env slug (computeName hostKey) baseDomain"

definition service_target :: "string \<Rightarrow> string \<Rightarrow> resources \<Rightarrow> string \<Rightarrow> string \<Rightarrow> service_spec \<Rightarrow> deploy_target" where
  "service_target env base res slug scope s =
     \<lparr>dt_service = svc_name s, dt_host_dns = hostDNS (svc_host s) env base slug, dt_folder = svc_Folder (svc_name s),
      dt_unit = UnitName (svc_name s), dt_user = svc_user s,
      dt_ssh_user = ssh_user (DeployUsersByHost (res_compute res)) (go_string (CanonicalComputeKeys (res_compute res)) (svc_host s)),
      dt_scope = scope\<rparr>"

text \<open>
  Every descriptor lists the targets of the regional set once per region of the table, in the order of
  the names, and then those of the global set under an empty slug.
\<close>

fun region_rows :: "region_table \<Rightarrow> (string \<Rightarrow> string \<Rightarrow> 'a list) \<Rightarrow> string list \<Rightarrow> string + 'a list" where
  "region_rows table rows [] = Inr []"
| "region_rows table rows (r # rs) =
     (case region_Slug table r of
        None \<Rightarrow> Inl r
      | Some slug \<Rightarrow>
          (case region_rows table rows rs of Inl e \<Rightarrow> Inl e | Inr more' \<Rightarrow> Inr (rows slug r @ more')))"

definition scoped_rows :: "region_table \<Rightarrow> (resources \<Rightarrow> string \<Rightarrow> string \<Rightarrow> 'a list) \<Rightarrow> resources \<Rightarrow> resources \<Rightarrow> string + 'a list" where
  "scoped_rows table rows regional glob =
     (case region_rows table (rows regional) (SortedNames table) of
        Inl e \<Rightarrow> Inl e
      | Inr ts \<Rightarrow> Inr (ts @ rows glob [] ScopeGlobal))"

definition service_rows :: "string \<Rightarrow> string \<Rightarrow> resources \<Rightarrow> string \<Rightarrow> string \<Rightarrow> deploy_target list" where
  "service_rows env base res slug scope = map (service_target env base res slug scope) (res_service res)"

definition BuildDeployDescriptor :: "string \<Rightarrow> string \<Rightarrow> resources \<Rightarrow> resources \<Rightarrow> region_table \<Rightarrow> string + deploy_target list" where
  "BuildDeployDescriptor env base regional glob table = scoped_rows table (service_rows env base) regional glob"

subsection \<open>Apps\<close>

definition BundleDir :: "string \<Rightarrow> string \<Rightarrow> string" where "BundleDir name sha = app_Folder name @ ''/'' @ sha"
definition KeepReleases :: nat where "KeepReleases = 5"
definition PlaceholderSubdir :: string where "PlaceholderSubdir = ''placeholder''"
definition PlaceholderDir :: "string \<Rightarrow> string" where "PlaceholderDir name = app_Folder name @ ''/'' @ PlaceholderSubdir"
definition PlaceholderIndexPath :: "string \<Rightarrow> string" where "PlaceholderIndexPath name = PlaceholderDir name @ ''/index.html''"

record app_target =
  at_app :: string
  at_host_dns :: string
  at_path :: string
  at_fqdn :: string
  at_spa :: bool
  at_ssh_user :: string
  at_app_scope :: string

definition ingressHostNamesByApp :: "resources \<Rightarrow> (string \<rightharpoonup> string)" where
  "ingressHostNamesByApp res =
     (let hostByIngress = last_map (map (\<lambda>i. (ing_name i, ing_host i)) (res_ingress res)) in
      last_map (concat (map (\<lambda>a. case hostByIngress (app_ingress a) of None \<Rightarrow> [] | Some h \<Rightarrow> [(app_name a, h)]) (res_app res))))"

definition app_rows :: "string \<Rightarrow> string \<Rightarrow> string \<Rightarrow> resources \<Rightarrow> string \<Rightarrow> string \<Rightarrow> app_target list" where
  "app_rows env base eslug res slug scope =
     concat (map (\<lambda>a. case ingressHostNamesByApp res (app_name a) of
          None \<Rightarrow> []
        | Some hostName \<Rightarrow>
            [\<lparr>at_app = app_name a, at_host_dns = HostFQDN env slug hostName base, at_path = app_Folder (app_name a),
              at_fqdn = AppFQDN (app_subdomain a) slug base eslug, at_spa = app_spa a,
              at_ssh_user = ssh_user (DeployUsersByHost (res_compute res)) (go_string (CanonicalComputeKeys (res_compute res)) hostName),
              at_app_scope = scope\<rparr>]) (res_app res))"

definition app_BuildDeployDescriptor :: "string \<Rightarrow> string \<Rightarrow> resources \<Rightarrow> resources \<Rightarrow> region_table \<Rightarrow> string \<Rightarrow> string + app_target list" where
  "app_BuildDeployDescriptor env base regional glob table eslug = scoped_rows table (app_rows env base eslug) regional glob"

subsection \<open>Mesh hosts\<close>

record mesh_host_target =
  mht_host :: string
  mht_host_dns :: string
  mht_ssh_user :: string
  mht_scope :: string

definition mesh_rows :: "string \<Rightarrow> string \<Rightarrow> resources \<Rightarrow> string \<Rightarrow> string \<Rightarrow> mesh_host_target list" where
  "mesh_rows env base res slug scope =
     map (\<lambda>h. \<lparr>mht_host = h, mht_host_dns = HostFQDN env slug (BareComputeName h) base,
        mht_ssh_user = ssh_user (DeployUsersByHost (res_compute res)) h, mht_scope = scope\<rparr>)
       (UnionHostKeys res (CanonicalComputeKeys (res_compute res)))"

definition mesh_BuildDeployDescriptor :: "string \<Rightarrow> string \<Rightarrow> resources \<Rightarrow> resources \<Rightarrow> region_table \<Rightarrow> string + mesh_host_target list" where
  "mesh_BuildDeployDescriptor env base regional glob table = scoped_rows table (mesh_rows env base) regional glob"

subsection \<open>Databases\<close>

record db_target =
  dbt_cluster :: string
  dbt_database :: string
  dbt_host_dns :: string
  dbt_ssh_user :: string
  dbt_port :: int
  dbt_region_slug :: string
  dbt_backup :: bool

definition db_rows :: "string \<Rightarrow> string \<Rightarrow> resources \<Rightarrow> string \<Rightarrow> string \<Rightarrow> db_target list" where
  "db_rows env base res slug scope =
     (let canonical = CanonicalComputeKeys (res_compute res);
          regionSlug = (if slug = [] then ''global'' else slug) in
      concat (map (\<lambda>c. case canonical (cl_host c) of
           None \<Rightarrow> []
         | Some h \<Rightarrow> map (\<lambda>d. \<lparr>dbt_cluster = cl_name c, dbt_database = db_database d,
              dbt_host_dns = HostFQDN env slug (BareComputeName h) base,
              dbt_ssh_user = ssh_user (DeployUsersByHost (res_compute res)) h,
              dbt_port = (case clusterPortsByHost res canonical h (cl_name c) of None \<Rightarrow> 0 | Some p \<Rightarrow> p),
              dbt_region_slug = regionSlug,
              dbt_backup = (bk_enabled (db_backup d) = None \<or> bk_enabled (db_backup d) = Some True)\<rparr>)
             (databasesOfCluster res (cl_name c))) (res_cluster res)))"

definition buildDBDeployDescriptor :: "string \<Rightarrow> string \<Rightarrow> resources \<Rightarrow> resources \<Rightarrow> region_table \<Rightarrow> string + db_target list" where
  "buildDBDeployDescriptor env base regional glob table = scoped_rows table (db_rows env base) regional glob"

subsection \<open>The manifests of a service repository\<close>

record env_config =
  ec_artifact_path :: string
  ec_health_check :: string

record deployment_config =
  dc_platform :: string
  dc_services :: "string list"

record service_descriptor =
  sd_platform :: string
  sd_environments :: "(string \<times> env_config) list"

datatype deployment_err =
    ConfigNotFound string
  | ConfigUnreadable string
  | PlatformRequired string
  | NoServices string
  | NoEnvironments string
  | NoEnvironment string string

text \<open>A file that is read: absent, unreadable or not YAML of the right shape, or decoded.\<close>

datatype 'a read_file = Absent | Unreadable string | Decoded 'a

definition LoadConfig :: "string \<Rightarrow> deployment_config read_file \<Rightarrow> deployment_err + deployment_config" where
  "LoadConfig path f =
     (case f of
        Absent \<Rightarrow> Inl (ConfigNotFound path)
      | Unreadable e \<Rightarrow> Inl (ConfigUnreadable e)
      | Decoded c \<Rightarrow>
          if dc_platform c = [] then Inl (PlatformRequired path)
          else if dc_services c = [] then Inl (NoServices path)
          else Inr c)"

definition LoadServiceDescriptor :: "string \<Rightarrow> service_descriptor read_file \<Rightarrow> deployment_err + service_descriptor" where
  "LoadServiceDescriptor path f =
     (case f of
        Absent \<Rightarrow> Inl (ConfigNotFound path)
      | Unreadable e \<Rightarrow> Inl (ConfigUnreadable e)
      | Decoded d \<Rightarrow> if sd_environments d = [] then Inl (NoEnvironments path) else Inr d)"

definition deployment_Resolve :: "deployment_config \<Rightarrow> service_descriptor \<Rightarrow> string \<Rightarrow> string \<Rightarrow> deployment_err + string \<times> env_config" where
  "deployment_Resolve cfg desc service env =
     (let platform = (if sd_platform desc \<noteq> [] then sd_platform desc else dc_platform cfg) in
      case map_of (sd_environments desc) env of
        None \<Rightarrow> Inl (NoEnvironment service env)
      | Some c \<Rightarrow> Inr (platform, if ec_artifact_path c = [] then c\<lparr>ec_artifact_path := ''dist''\<rparr> else c))"

subsection \<open>The targets of a release\<close>

datatype target_err = StackUnavailable string | NoOutput string string | BadOutput string | TargetNotFound string string | MixedScopes string string

text \<open>
  The outputs of a stack: connecting and reading may fail; an output that is there may not decode to
  targets.
\<close>

definition resolveDescriptorTargets :: "string \<Rightarrow> string \<Rightarrow> string + (string \<rightharpoonup> string + 'a list) \<Rightarrow> ('a \<Rightarrow> bool) \<Rightarrow> target_err + 'a list" where
  "resolveDescriptorTargets env outputKey outputs keep =
     (case outputs of
        Inl e \<Rightarrow> Inl (StackUnavailable e)
      | Inr m \<Rightarrow>
          (case m outputKey of
             None \<Rightarrow> Inl (NoOutput env outputKey)
           | Some (Inl e) \<Rightarrow> Inl (BadOutput e)
           | Some (Inr ts) \<Rightarrow> Inr (filter keep ts)))"

definition hasMixedScope :: "'a list \<Rightarrow> ('a \<Rightarrow> string) \<Rightarrow> string \<Rightarrow> bool" where
  "hasMixedScope targets scopeOf globalScope \<longleftrightarrow>
     list_ex (\<lambda>t. scopeOf t = globalScope) targets \<and> list_ex (\<lambda>t. scopeOf t \<noteq> globalScope) targets"

definition resolve_targets :: "('a \<Rightarrow> string) \<Rightarrow> ('a \<Rightarrow> string) \<Rightarrow> string \<Rightarrow> string \<Rightarrow> string + (string \<rightharpoonup> string + 'a list) \<Rightarrow> string
    \<Rightarrow> target_err + 'a list" where
  "resolve_targets name scope env outputKey outputs n =
     (case resolveDescriptorTargets env outputKey outputs (\<lambda>t. name t = n) of
        Inl e \<Rightarrow> Inl e
      | Inr ts \<Rightarrow>
          if ts = [] then Inl (TargetNotFound n env)
          else if hasMixedScope ts scope ScopeGlobal then Inl (MixedScopes n env)
          else Inr ts)"

definition resolveDeployTargets :: "string \<Rightarrow> string + (string \<rightharpoonup> string + deploy_target list) \<Rightarrow> string \<Rightarrow> target_err + deploy_target list" where
  "resolveDeployTargets env outputs svc = resolve_targets dt_service dt_scope env ''deployDescriptor'' outputs svc"

definition resolveAppDeployTargets :: "string \<Rightarrow> string + (string \<rightharpoonup> string + app_target list) \<Rightarrow> string \<Rightarrow> target_err + app_target list" where
  "resolveAppDeployTargets env outputs n = resolve_targets at_app at_app_scope env ''appDeployDescriptor'' outputs n"

end
