(* ===== verification/MeshFacts.thy ===== *)
theory MeshFacts
  imports MeshPlan EdgeGateway
begin

text \<open>
  What validation gives the mesh plan: the callers a callee names are mesh members in a permitted
  direction, so that the expansion of the allow lists drops nobody and admits exactly them.
\<close>

subsection \<open>The mesh members the checks see\<close>

lemma mesh_names_fold:
  "cx_meshServices (fold ctx_service_names ss c) n \<longleftrightarrow>
     cx_meshServices c n \<or> (\<exists>s\<in>set ss. svc_pki s \<noteq> [] \<and> svc_name s = n)"
proof (induction ss arbitrary: c)
  case (Cons s ss)
  have "cx_meshServices (ctx_service_names s c) n \<longleftrightarrow> cx_meshServices c n \<or> svc_pki s \<noteq> [] \<and> svc_name s = n"
    by (auto simp: ctx_service_names_def set_true_def Let_def split: option.splits)
  then show ?case using Cons by auto
qed simp

lemmas fold_members = fold_field [of cx_meshServices] fold_field [of cx_callerCandidates]

definition members_kept :: "region_ctx \<Rightarrow> region_ctx \<Rightarrow> bool" where
  "members_kept c d \<longleftrightarrow> cx_meshServices d = cx_meshServices c \<and> cx_callerCandidates d = cx_callerCandidates c"

lemma members_before:
  "members_kept c (ctx_network n c)" "members_kept c (ctx_compute cp c)" "members_kept c (ctx_cluster cl c)"
  "members_kept c (ctx_database d c)" "members_kept c (ctx_pki p c)" "members_kept c (ctx_ingress i c)"
  "members_kept c (ctx_app ap c)" "members_kept c (ctx_gateway g c)"
proof -
  have inst: "cx_meshServices (ctx_instance cp i c) = cx_meshServices c"
    "cx_callerCandidates (ctx_instance cp i c) = cx_callerCandidates c" for i c
    by (simp_all add: ctx_instance_def Let_def)
  show "members_kept c (ctx_network n c)" "members_kept c (ctx_compute cp c)" "members_kept c (ctx_cluster cl c)"
    "members_kept c (ctx_database d c)" "members_kept c (ctx_pki p c)" "members_kept c (ctx_ingress i c)"
    "members_kept c (ctx_app ap c)" "members_kept c (ctx_gateway g c)"
    by (auto simp: members_kept_def ctx_network_def ctx_compute_def ctx_cluster_def ctx_database_def ctx_pki_def
        ctx_ingress_def ctx_app_def ctx_gateway_def Let_def fold_members inst)
qed

lemma fold_kept: "(\<And>x c. members_kept c (f x c)) \<Longrightarrow> members_kept c (fold f xs c)"
  by (induction xs arbitrary: c) (force simp: members_kept_def)+

lemma kept_trans: "members_kept a b \<Longrightarrow> members_kept b c \<Longrightarrow> members_kept a c"
  by (simp add: members_kept_def)

lemma candidates_names: "cx_callerCandidates (fold ctx_service_names ss c) = cx_callerCandidates c"
  by (rule fold_field) (auto simp: ctx_service_names_def Let_def split: option.splits)

lemma callers_members:
  "cx_meshServices (ctx_callers sib gl c) = cx_meshServices c"
  "cx_callerCandidates (ctx_callers sib gl c) n \<longleftrightarrow> cx_callerCandidates c n \<or> n \<in> fst ` set sib"
proof -
  have m: "cx_meshServices (fold (\<lambda>(name, pki) c. c\<lparr>cx_callerCandidates := set_true name (cx_callerCandidates c),
       cx_callerPki := (cx_callerPki c)(name := pki)\<rparr>) sib c) = cx_meshServices c" for sib c
    by (rule fold_field) (simp add: split_def)
  have f: "cx_meshServices (fold (\<lambda>(name, pki) c. c\<lparr>cx_forbiddenCallers := set_true name (cx_forbiddenCallers c),
       cx_callerPki := (cx_callerPki c)(name := pki)\<rparr>) xs c) = cx_meshServices c"
    "cx_callerCandidates (fold (\<lambda>(name, pki) c. c\<lparr>cx_forbiddenCallers := set_true name (cx_forbiddenCallers c),
       cx_callerPki := (cx_callerPki c)(name := pki)\<rparr>) xs c) = cx_callerCandidates c" for xs c
    by (rule fold_field, simp add: split_def)+
  have k: "cx_callerCandidates (fold (\<lambda>(name, pki) c. c\<lparr>cx_callerCandidates := set_true name (cx_callerCandidates c),
       cx_callerPki := (cx_callerPki c)(name := pki)\<rparr>) sib c) n \<longleftrightarrow> cx_callerCandidates c n \<or> n \<in> fst ` set sib" for sib c
    by (induction sib arbitrary: c) (auto simp: set_true_def split_def)
  show "cx_meshServices (ctx_callers sib gl c) = cx_meshServices c"
    "cx_callerCandidates (ctx_callers sib gl c) n \<longleftrightarrow> cx_callerCandidates c n \<or> n \<in> fst ` set sib"
    by (auto simp: ctx_callers_def Let_def m f k split: option.splits)
qed

lemma context_members:
  "cx_meshServices (build_ctx vi fs) n \<longleftrightarrow> (\<exists>s\<in>set (services_of fs). svc_pki s \<noteq> [] \<and> svc_name s = n)"
  "cx_callerCandidates (build_ctx vi fs) n \<longleftrightarrow> n \<in> fst ` set (vi_siblings vi)"
proof -
  let ?e = "empty_ctx (vi_available vi) (vi_sizes vi) (vi_bucket vi) (vi_pkis vi) (vi_store vi)
        (vi_defaults vi) (length (fs_gateway fs))"
  let ?c0 = "ctx_callers (vi_siblings vi) (vi_global vi) ?e"
  have s: "cx_meshServices (build_ctx vi fs) = cx_meshServices (start_ctx vi fs)"
    "cx_callerCandidates (build_ctx vi fs) = cx_callerCandidates (start_ctx vi fs)"
    using ctx_le_same [OF start_build [of vi fs]] by (simp_all add: same_base_def)
  obtain c where b: "start_ctx vi fs = fold ctx_service_names (services_of fs) c" and k: "members_kept ?c0 c"
  proof
    show "start_ctx vi fs = fold ctx_service_names (services_of fs)
       (fold ctx_gateway (parsed_specs (fs_gateway fs)) (fold ctx_app (parsed_specs (fs_app fs))
         (fold ctx_ingress (parsed_specs (fs_ingress fs)) (fold ctx_pki (parsed_specs (fs_pki fs))
           (fold ctx_database (fs_database fs) (fold ctx_cluster (parsed_specs (fs_cluster fs))
             ((fold ctx_compute (all_specs (fs_compute fs)) (fold ctx_network (all_specs (fs_network fs)) ?c0))
                \<lparr>cx_canonical := CanonicalComputeKeys (all_specs (fs_compute fs))\<rparr>)))))))"
      by (simp add: start_ctx_def ctx_base_def Let_def)
    have u: "members_kept c (c\<lparr>cx_canonical := x\<rparr>)" for c x by (simp add: members_kept_def)
    show "members_kept ?c0
       (fold ctx_gateway (parsed_specs (fs_gateway fs)) (fold ctx_app (parsed_specs (fs_app fs))
         (fold ctx_ingress (parsed_specs (fs_ingress fs)) (fold ctx_pki (parsed_specs (fs_pki fs))
           (fold ctx_database (fs_database fs) (fold ctx_cluster (parsed_specs (fs_cluster fs))
             ((fold ctx_compute (all_specs (fs_compute fs)) (fold ctx_network (all_specs (fs_network fs)) ?c0))
                \<lparr>cx_canonical := CanonicalComputeKeys (all_specs (fs_compute fs))\<rparr>)))))))"
      by (intro kept_trans [OF _ fold_kept] kept_trans [OF _ u] members_before fold_kept)
  qed
  have e: "\<not> cx_meshServices ?e n" "\<not> cx_callerCandidates ?e n" by (simp_all add: empty_ctx_def)
  show "cx_meshServices (build_ctx vi fs) n \<longleftrightarrow> (\<exists>s\<in>set (services_of fs). svc_pki s \<noteq> [] \<and> svc_name s = n)"
    using k e by (simp add: s b mesh_names_fold members_kept_def callers_members)
  show "cx_callerCandidates (build_ctx vi fs) n \<longleftrightarrow> n \<in> fst ` set (vi_siblings vi)"
    using k e by (simp add: s b candidates_names members_kept_def callers_members)
qed

subsection \<open>The scopes of an accepted environment\<close>

text \<open>The resource set a scope deploys: the global one, or the regional one in every region.\<close>

definition env_scope :: "project \<Rightarrow> resources \<Rightarrow> resources \<Rightarrow> string \<Rightarrow> resources \<Rightarrow> bool" where
  "env_scope pj regional glob scope res \<longleftrightarrow>
     (if scope = ScopeGlobal then res = glob else scope \<in> set (SortedNames (pj_regions pj)) \<and> res = regional)"

lemma accepted_loads:
  assumes "ValidateResources exists resolve defaults bucket pj = None"
    and "loadResourceSet resolve (pj_regional_set pj) = Some regional"
    and "loadResourceSet resolve (pj_global_set pj) = Some glob"
  shows "accepted exists resolve defaults bucket pj glob regional"
  using assms by (auto simp: ValidateResources_iff accepted_def)

lemma accepted_names_distinct:
  assumes a: "accepted exists resolve defaults bucket pj glob reg"
  shows "distinct (map svc_name (res_service reg @ res_service glob))"
proof -
  have "set_accepts exists (global_input pj defaults bucket (Some reg)) (normal_set resolve (pj_global_set pj))"
    "set_accepts exists (regional_input pj defaults bucket glob) (normal_set resolve (pj_regional_set pj))"
    using a by (simp_all add: accepted_def)
  note names = this [THEN set_accepts_names(1)]
  have "glob = specs_of (normal_set resolve (pj_global_set pj))" "reg = specs_of (normal_set resolve (pj_regional_set pj))"
    using a by (auto simp: accepted_def dest: loaded_specs)
  moreover have "cross_messages reg glob (pj_base pj @ ''/global'') = []" using a by (simp add: accepted_def)
  ultimately show ?thesis using names by (auto simp: cross_messages_nil specs_of_def)
qed

lemma scope_in_env:
  assumes a: "accepted exists resolve defaults bucket pj glob regional" and e: "env_scope pj regional glob scope res"
  obtains vi fs where "(vi, fs) \<in> set (scopes_of resolve defaults bucket pj)" "res = specs_of fs"
    "vi_siblings vi = (if scope = ScopeGlobal then regional_mesh (Some regional) else [])"
proof (cases "scope = ScopeGlobal")
  case True
  show thesis
    by (rule that [of "global_input pj defaults bucket (Some regional)" "normal_set resolve (pj_global_set pj)"])
       (use a e True in \<open>auto simp: scopes_of_def accepted_def env_scope_def global_input_def Let_def dest: loaded_specs\<close>)
next
  case False
  show thesis
    by (rule that [of "regional_input pj defaults bucket glob" "normal_set resolve (pj_regional_set pj)"])
       (use a e False in \<open>auto simp: scopes_of_def accepted_def env_scope_def regional_input_def base_input_def Let_def dest: loaded_specs\<close>)
qed

lemma meshMembers_iff: "meshMembers res n \<longleftrightarrow> (\<exists>s\<in>set (res_service res). svc_pki s \<noteq> [] \<and> svc_name s = n)"
  by (auto simp: meshMembers_def)

text \<open>Every name a callee lists is the gateway or a mesh member that may call it.\<close>

lemma listed_members:
  assumes ok: "ValidateResources exists resolve defaults bucket pj = None"
    and l: "loadResourceSet resolve (pj_regional_set pj) = Some regional" "loadResourceSet resolve (pj_global_set pj) = Some glob"
    and e: "env_scope pj regional glob scope res"
    and s: "s \<in> set (res_service res)" "svc_mesh s = Some m" "name \<in> set (mesh_allowed m)" "name \<noteq> meshGatewayCaller"
  shows "meshMembers res name \<or> scope = ScopeGlobal \<and> meshMembers regional name"
proof -
  obtain vi fs where fs: "(vi, fs) \<in> set (scopes_of resolve defaults bucket pj)" "res = specs_of fs"
    and sib: "vi_siblings vi = (if scope = ScopeGlobal then regional_mesh (Some regional) else [])"
    by (rule scope_in_env [OF accepted_loads [OF ok l] e])
  have sv: "res_service res = services_of fs" unfolding fs(2) by (rule validated_specs(1) [OF ok fs(1)])
  have "service_ok (build_ctx vi fs) s" using scope_okD [OF validated_ok [OF ok fs(1)]] s(1) sv by simp
  from allowed_caller(2) [OF this s(2,3)]
  have "cx_meshServices (build_ctx vi fs) name \<or> cx_callerCandidates (build_ctx vi fs) name"
    using s(4) by (simp add: meshGatewayCaller_def gatewayCallerName_def)
  then show ?thesis
    unfolding context_members sib meshMembers_iff sv by (auto simp: regional_mesh_def split: if_splits)
qed

text \<open>Two services of one scope: the caller named by the callee is in its mesh and network.\<close>

lemma same_scope_caller:
  assumes ok: "scope_ok vi fs" and s: "s \<in> set (services_of fs)" "svc_mesh s = Some m"
    and t: "t \<in> set (services_of fs)" "svc_pki t \<noteq> []" "svc_name t \<in> set (mesh_allowed m)"
  shows "t \<noteq> s \<and> svc_pki t = svc_pki s
    \<and> cx_computeNetwork (build_ctx vi fs) (own_host t (build_ctx vi fs))
      = cx_computeNetwork (build_ctx vi fs) (own_host s (build_ctx vi fs))"
proof -
  let ?ctx = "build_ctx vi fs"
  have g: "svc_name t \<noteq> gatewayCallerName"
    using service_ok_parts(1) [OF scope_okD [OF ok t(1)]] by (auto simp: check_identity_def split: if_splits)
  note c = allowed_caller [OF scope_okD [OF ok s(1)] s(2) t(3) g]
  have d: "distinct (map svc_name (services_of fs))" using ok by (simp add: scope_ok_def)
  have at: "cx_servicePki ?ctx (svc_name t) = svc_pki t" "cx_serviceHost ?ctx (svc_name t) = svc_host t"
    by (rule service_pki_at [OF d t(1)])+
  have "cx_meshServices ?ctx (svc_name t)" using t(1,2) by (auto simp: context_members)
  then show ?thesis
    using c(1,3,4) at t(2) service_host(1) [OF scope_okD [OF ok t(1)]] by (auto simp: meshPkiOf_def)
qed

text \<open>A listed caller of the same scope is a mesh member: a name of a service without a PKI is none.\<close>

lemma scope_caller_member:
  assumes ok: "ValidateResources exists resolve defaults bucket pj = None"
    and fs: "(vi, fs) \<in> set (scopes_of resolve defaults bucket pj)"
    and s: "s \<in> set (services_of fs)" "svc_mesh s = Some m"
    and t: "t \<in> set (services_of fs)" "svc_name t \<in> set (mesh_allowed m)"
  shows "svc_pki t \<noteq> []"
proof -
  obtain glob reg where a: "accepted exists resolve defaults bucket pj glob reg"
    using ok unfolding ValidateResources_iff by (auto simp: accepted_def)
  have sok: "scope_ok vi fs" by (rule validated_ok [OF ok fs])
  have "svc_name t \<noteq> gatewayCallerName"
    using service_ok_parts(1) [OF scope_okD [OF sok t(1)]] by (auto simp: check_identity_def split: if_splits)
  then have "cx_meshServices (build_ctx vi fs) (svc_name t) \<or> cx_callerCandidates (build_ctx vi fs) (svc_name t)"
    by (rule allowed_caller(2) [OF scope_okD [OF sok s(1)] s(2) t(2)])
  moreover have "\<not> cx_callerCandidates (build_ctx vi fs) (svc_name t)"
  proof
    assume "cx_callerCandidates (build_ctx vi fs) (svc_name t)"
    then have n: "svc_name t \<in> fst ` set (vi_siblings vi)" by (simp add: context_members)
    have "vi = global_input pj defaults bucket (Some reg) \<and> fs = normal_set resolve (pj_global_set pj)
        \<or> vi_siblings vi = []"
      using fs a by (auto simp: scopes_of_def accepted_def regional_input_def base_input_def Let_def)
    then have g: "vi_siblings vi = regional_mesh (Some reg)" "specs_of fs = glob"
      using n a by (auto simp: global_input_def accepted_def dest: loaded_specs)
    then have "svc_name t \<in> svc_name ` set (res_service reg)" using n by (auto simp: regional_mesh_def)
    moreover have "t \<in> set (res_service glob)" using t(1) validated_specs(1) [OF ok fs] g(2) by metis
    ultimately show False using accepted_names_distinct [OF a] by auto
  qed
  ultimately obtain u where "u \<in> set (services_of fs)" "svc_pki u \<noteq> []" "svc_name u = svc_name t"
    by (auto simp: context_members)
  moreover have "distinct (map svc_name (services_of fs))" using sok by (simp add: scope_ok_def)
  ultimately show ?thesis using t(1) by (metis distinct_map inj_on_eq_iff)
qed

subsection \<open>The identities a callee admits\<close>

definition mesh_member :: "resources \<Rightarrow> resources \<Rightarrow> string list \<Rightarrow> string \<Rightarrow> string \<Rightarrow> bool" where
  "mesh_member regional glob regions src name \<longleftrightarrow>
     (if src = ScopeGlobal then meshMembers glob name else src \<in> set regions \<and> meshMembers regional name)"

text \<open>
  The contract of a callee of \<open>scope\<close>: the identities of the mesh members it lists, from its own scope
  or, for a global callee, from any scope; the gateway only of its own scope.
\<close>

definition mesh_admits :: "resources \<Rightarrow> resources \<Rightarrow> string list \<Rightarrow> string \<Rightarrow> mesh_spec \<Rightarrow> string \<Rightarrow> bool" where
  "mesh_admits regional glob regions scope m cn \<longleftrightarrow>
     (\<exists>src name. cn = src @ ''/'' @ name \<and> name \<in> set (mesh_allowed m)
        \<and> (if name = meshGatewayCaller then src = scope
           else (src = scope \<or> scope = ScopeGlobal) \<and> mesh_member regional glob regions src name))"

lemma caller_ids_set:
  "cn \<in> set (caller_ids scope regions reg glo name) \<longleftrightarrow>
     (\<exists>src. cn = src @ ''/'' @ name
        \<and> (if name = meshGatewayCaller then src = scope
           else if scope \<noteq> ScopeGlobal then src = scope
           else src \<in> set regions \<and> reg name \<or> src = ScopeGlobal \<and> glo name))"
  by (auto simp: caller_ids_def)

lemma caller_ids_ne:
  "caller_ids scope regions reg glo name = [] \<longleftrightarrow>
     name \<noteq> meshGatewayCaller \<and> scope = ScopeGlobal \<and> (reg name \<longrightarrow> regions = []) \<and> \<not> glo name"
  by (auto simp: caller_ids_def)


lemma no_dropped:
  assumes ok: "ValidateResources exists resolve defaults bucket pj = None"
    and l: "loadResourceSet resolve (pj_regional_set pj) = Some regional" "loadResourceSet resolve (pj_global_set pj) = Some glob"
    and e: "env_scope pj regional glob scope res"
    and s: "s \<in> set (res_service res)" "svc_mesh s = Some m"
  defines "regions \<equiv> SortedNames (pj_regions pj)"
  shows "snd (allowedFor (newMeshCallerUniverse regional glob) s scope regions) = []"
proof -
  have "pj_regions pj \<noteq> []"
    using accepted_loads [OF ok l] by (auto simp: accepted_def regions_messages_def)
  then have r: "regions \<noteq> []" by (metis regions_def SortedNames_def sort_key_nil map_is_Nil_conv)
  have "caller_ids scope regions (meshMembers regional) (meshMembers glob) n \<noteq> []" if "n \<in> set (mesh_allowed m)" for n
    using listed_members [OF ok l e s that] e r by (auto simp: caller_ids_ne env_scope_def split: if_splits)
  then show ?thesis
    by (auto simp: allowedFor_def s(2) expandAllowedCallers_def newMeshCallerUniverse_def Let_def filter_empty_conv)
qed

lemma admitted:
  assumes ok: "ValidateResources exists resolve defaults bucket pj = None"
    and l: "loadResourceSet resolve (pj_regional_set pj) = Some regional" "loadResourceSet resolve (pj_global_set pj) = Some glob"
    and e: "env_scope pj regional glob scope res"
    and s: "s \<in> set (res_service res)" "svc_mesh s = Some m"
  defines "regions \<equiv> SortedNames (pj_regions pj)"
  assumes g: "ScopeGlobal \<notin> set regions"
  shows "cn \<in> set (fst (allowedFor (newMeshCallerUniverse regional glob) s scope regions))
     \<longleftrightarrow> mesh_admits regional glob regions scope m cn"
proof -
  have "(if n = meshGatewayCaller then src = scope else if scope \<noteq> ScopeGlobal then src = scope
       else src \<in> set regions \<and> meshMembers regional n \<or> src = ScopeGlobal \<and> meshMembers glob n)
     \<longleftrightarrow> (if n = meshGatewayCaller then src = scope
           else (src = scope \<or> scope = ScopeGlobal) \<and> mesh_member regional glob regions src n)"
    if "n \<in> set (mesh_allowed m)" for n src
    using listed_members [OF ok l e s that] e g by (auto simp: mesh_member_def env_scope_def regions_def split: if_splits)
  then show ?thesis
    by (auto simp: allowedFor_def s(2) expandAllowedCallers_def newMeshCallerUniverse_def Let_def caller_ids_set mesh_admits_def)
qed

end
