(* ===== verification/MeshProps.thy ===== *)
theory MeshProps
  imports MeshFacts
begin

text \<open>
  The mesh of an accepted environment, end to end: the callee plane of a host admits exactly the
  callers the service lists, the caller plane of a host reaches the callee it names, and the two meet
  in one call.
\<close>

subsection \<open>The inputs of a host\<close>

lemma plan_parts:
  fixes scope regions
  assumes p: "mesh_plan_of res regional glob scopeOut globalOut scope regions = Inr pl"
    and s: "s \<in> set (ServicesByHost res (CanonicalComputeKeys (res_compute res)) h)"
  defines "can \<equiv> CanonicalComputeKeys (res_compute res)"
  shows "mp_inputs pl = meshInputsByHost res can scope
      (\<lambda>s. fst (allowedFor (newMeshCallerUniverse regional glob) s scope regions))"
    and "target_ips scopeOut globalOut (meshTargets res glob can (CanonicalComputeKeys (res_compute glob)) scope (scope = ScopeGlobal))
       = Inr (mp_targets pl)"
    and "mp_hosts pl = UnionHostKeys res can"
proof -
  have "h \<in> set (HostKeys res can)"
    using s by (auto simp: HostKeys_def ServicesByHost_def can_def intro!: bexI)
  then have "h \<in> set (UnionHostKeys res can)" by (simp add: UnionHostKeys_def)
  then have "UnionHostKeys res can \<noteq> []" by (metis empty_iff list.set(1))
  then show "mp_inputs pl = meshInputsByHost res can scope
      (\<lambda>s. fst (allowedFor (newMeshCallerUniverse regional glob) s scope regions))"
    "target_ips scopeOut globalOut (meshTargets res glob can (CanonicalComputeKeys (res_compute glob)) scope (scope = ScopeGlobal))
       = Inr (mp_targets pl)" "mp_hosts pl = UnionHostKeys res can"
    using p by (auto simp: mesh_plan_of_def Let_def can_def split: if_splits sum.splits)
qed

lemma host_config:
  assumes "realize_mesh_host pl scopeOut scope h = Inr http"
  obtains c out where "mesh_config_of pl scopeOut scope h = Inr c" "mesh_http c = Inr http" "scopeOut h = Some out"
    "fill_targets h (mp_targets pl) = Inr (mc_targets c)" "mc_bundle c = BundlePath"
    "mc_local c = (case mp_inputs pl h of None \<Rightarrow> [] | Some mh \<Rightarrow> mh_local mh)"
    "mc_egress c = (case mp_inputs pl h of None \<Rightarrow> [] | Some mh \<Rightarrow> mh_egress mh)"
proof -
  obtain c where c: "mesh_config_of pl scopeOut scope h = Inr c" "mesh_http c = Inr http"
    using assms by (auto simp: realize_mesh_host_def split: sum.splits)
  obtain out where o': "scopeOut h = Some out" using c(1) by (auto simp: mesh_config_of_def split: option.splits)
  show thesis
    by (rule that [OF c o']) (use c(1) o' in \<open>auto simp: mesh_config_of_def Let_def split: option.splits sum.splits\<close>)
qed

lemma locals_of_host:
  "mp_inputs pl = meshInputsByHost res can scope allowed \<Longrightarrow> s \<in> set (ServicesByHost res can h) \<Longrightarrow>
   \<exists>mh. mp_inputs pl h = Some mh \<and> mh_local mh = concat (map (local_of scope allowed) (ServicesByHost res can h))
     \<and> (\<exists>g. mh_egress mh = map (\<lambda>(i, s). egress_of i s) (enumerate 0 (ServicesByHost res can h)) @ g
           \<and> g = (case GatewayMemberByHost res can h of None \<Rightarrow> [] | Some g \<Rightarrow> [gateway_egress g]))"
  by (auto simp: meshInputsByHost_def Let_def)

lemma local_names: "map ls_name (concat (map (local_of scope allowed) ss)) = map svc_name (filter (\<lambda>s. svc_mesh s \<noteq> None) ss)"
  by (induction ss) (auto simp: local_of_def split: option.splits)

lemma in_host: "s \<in> set (ServicesByHost res can h) \<longleftrightarrow> s \<in> set (res_service res) \<and> svc_pki s \<noteq> [] \<and> can (svc_host s) = Some h"
  by (auto simp: ServicesByHost_def mesh_host_of_def split: if_splits)

subsection \<open>The callee plane\<close>

text \<open>Identities in nginx maps: no key that nginx reads as something else.\<close>

definition no_tilde :: "string \<Rightarrow> bool" where
  "no_tilde k \<longleftrightarrow> (\<forall>c\<in>set (take 1 k). c \<noteq> CHR ''~'')"

lemma identity_plain: "no_tilde scope \<Longrightarrow> plain_key (scope @ ''/'' @ name)"
proof -
  assume p: "no_tilde scope"
  have "CHR ''/'' \<in> set (scope @ ''/'' @ name)" "CHR ''/'' \<notin> set ''default''" "CHR ''/'' \<notin> set ''include''" by simp_all
  then have "scope @ ''/'' @ name \<noteq> ''default''" "scope @ ''/'' @ name \<noteq> ''include''" by metis+
  then show ?thesis using p by (cases scope) (auto simp: plain_key_def no_tilde_def)
qed

text \<open>The callee server of a service of an accepted environment, for any verified peer.\<close>

lemma callee_server:
  assumes ok: "ValidateResources exists resolve defaults bucket pj = None"
    and l: "loadResourceSet resolve (pj_regional_set pj) = Some regional" "loadResourceSet resolve (pj_global_set pj) = Some glob"
    and e: "env_scope pj regional glob scope res"
    and r: "ScopeGlobal \<notin> set (SortedNames (pj_regions pj))" "\<forall>r\<in>set (SortedNames (pj_regions pj)). no_tilde r"
    and p: "mesh_plan_of res regional glob scopeOut globalOut scope (SortedNames (pj_regions pj)) = Inr pl"
    and h: "realize_mesh_host pl scopeOut scope h = Inr http"
    and s: "s \<in> set (ServicesByHost res (CanonicalComputeKeys (res_compute res)) h)" "svc_mesh s = Some m"
    and d: "distinct (map (allowVar \<circ> svc_name) (ServicesByHost res (CanonicalComputeKeys (res_compute res)) h))"
    and cn: "cn_of (vars ''$ssl_client_s_dn'') = Some cn" and path: "prefix ''/'' path"
  shows "\<exists>srv\<in>set http. d_name srv = ''server'' \<and> dir ''server_name'' [DNSName scope (svc_name s)] \<in> set (children_of srv)
    \<and> map_vars http vars ''$mesh_caller'' = cn
    \<and> serve path_rx (map_vars http vars) srv path =
        (if \<not> (\<exists>c. mesh_admits regional glob (SortedNames (pj_regions pj)) scope m c \<and> NginxAst.lower c = NginxAst.lower cn) then Answer [''403'']
         else if \<exists>g\<in>set (mesh_public m @ mesh_internal m). \<exists>p. Parse g = Inr p \<and> Matches p path
         then Proxied (''http://127.0.0.1:'' @ Itoa (mesh_port m)) proxied_headers
         else Answer [''404'', not_found_json])"
proof -
  let ?can = "CanonicalComputeKeys (res_compute res)" and ?rs = "SortedNames (pj_regions pj)"
  let ?allowed = "\<lambda>s. fst (allowedFor (newMeshCallerUniverse regional glob) s scope ?rs)"
  obtain c out where c: "mesh_http c = Inr http" and lc: "mc_local c = (case mp_inputs pl h of None \<Rightarrow> [] | Some mh \<Rightarrow> mh_local mh)"
    by (rule host_config [OF h])
  from locals_of_host [OF plan_parts(1) [OF p s(1)] s(1)] have loc: "mc_local c = concat (map (local_of scope ?allowed) (ServicesByHost res ?can h))"
    unfolding lc by auto
  define x where "x = \<lparr>ls_name = svc_name s, ls_sni = DNSName scope (svc_name s), ls_port = mesh_port m,
            ls_cert = LeafCertPath (svc_name s), ls_key = LeafKeyPath (svc_name s),
            ls_callers = ?allowed s, ls_paths = mesh_public m @ mesh_internal m\<rparr>"
  have "x \<in> set (local_of scope ?allowed s)" by (simp add: local_of_def x_def s(2))
  then have x: "x \<in> set (mc_local c)" unfolding loc using s(1) by auto
  have dn: "distinct (map (allowVar \<circ> ls_name) (mc_local c))"
    unfolding map_map [symmetric] loc local_names using d by (simp add: distinct_map inj_on_def)
  have sr: "s \<in> set (res_service res)" using s(1) by (simp add: in_host)
  have adm: "cn \<in> set (?allowed s) \<longleftrightarrow> mesh_admits regional glob ?rs scope m cn" for cn
    by (rule admitted [OF ok l e sr s(2) r(1)])
  have "no_tilde ScopeGlobal" by (simp add: ScopeGlobal_def no_tilde_def)
  then have "no_tilde src" if "src = ScopeGlobal \<or> src \<in> set ?rs" for src
    using that r(2) by metis
  then have src_plain: "no_tilde src" if "src = scope \<or> src = ScopeGlobal \<or> src \<in> set ?rs" for src
    using that e by (metis env_scope_def)
  have adp: "plain_key a" if ad: "mesh_admits regional glob ?rs scope m a" for a
  proof -
    obtain src name where a: "a = src @ ''/'' @ name" and "if name = meshGatewayCaller then src = scope
        else (src = scope \<or> scope = ScopeGlobal) \<and> mesh_member regional glob ?rs src name"
      using ad unfolding mesh_admits_def by blast
    then have "src = scope \<or> src = ScopeGlobal \<or> src \<in> set ?rs" by (auto simp: mesh_member_def split: if_splits)
    then have "no_tilde src" by (rule src_plain)
    then show ?thesis unfolding a by (rule identity_plain)
  qed
  then have pk: "\<forall>caller\<in>set (ls_callers x). plain_key caller" by (simp add: x_def adm)
  have listed: "NginxAst.lower cn \<notin> NginxAst.lower ` set (ls_callers x) \<longleftrightarrow>
      \<not> (\<exists>c. mesh_admits regional glob ?rs scope m c \<and> NginxAst.lower c = NginxAst.lower cn)"
    by (auto simp: x_def adm [symmetric] image_iff)
  have sel: "ls_sni x = DNSName scope (svc_name s)" "ls_port x = mesh_port m" "ls_paths x = mesh_public m @ mesh_internal m"
    by (simp_all add: x_def)
  show ?thesis
    using mesh_authorization [where vars = vars, OF c x dn pk cn path] unfolding sel listed .
qed

subsection \<open>The caller plane\<close>

lemma proxied_egress:
  "prefix ''/'' path \<Longrightarrow> serve rx vars (egressServer e bp) path =
     (if vars ''$mesh_addr'' = [] then Answer [''502'']
      else Proxied ''https://$mesh_addr''
        [(''Upgrade'', ''$http_upgrade''), (''Connection'', ''$connection_upgrade''), (''Host'', ''$mesh_sni'')])"
  by (auto simp: egressServer_def serve_def pick_location_def exact_location_def regex_location_def prefix_location_def
      run_location_def split: list.splits)

text \<open>The caller half of a configuration, and the two variables that a request sets there.\<close>

lemma egress_http:
  assumes "mesh_http c = Inr http" "e \<in> set (mc_egress c)"
  obtains ing where "ingressDirectives (mc_local c) (mc_listen c) (mc_bundle c) = Inr ing"
    "http = upgrade_map # ing
      @ [block ''map'' [''$http_x_mesh_target'', ''$mesh_addr'']
           (dir ''default'' [[]] # map (\<lambda>t. dir (mt_name t) [mt_addr t]) (sort_key mt_name (mc_targets c))),
         block ''map'' [''$http_x_mesh_target'', ''$mesh_sni'']
           (dir ''default'' [[]] # map (\<lambda>t. dir (mt_name t) [mt_sni t]) (sort_key mt_name (mc_targets c)))]
      @ map (\<lambda>e. egressServer e (mc_bundle c)) (sort_key ec_name (mc_egress c))"
proof -
  have "mc_egress c \<noteq> []" using assms(2) by auto
  then show thesis
    using assms(1) that
    by (auto simp: mesh_http_def egressDirectives_def Let_def split: if_splits sum.splits option.splits)
qed

lemma ingress_keep:
  assumes "ingressDirectives ls la bp = Inr ing" "v \<noteq> ''$mesh_caller''" "\<forall>n. v \<noteq> allowVar n"
  shows "map_vars ing vars v = vars v"
proof (cases "ls = []")
  case True
  then show ?thesis using assms(1) by (simp add: ingressDirectives_def)
next
  case False
  then have "ing = caller_map # map allow_map (sort_key ls_name ls)
            @ map (\<lambda>s. ingressServer s la bp (regexes_of (sort_key ls_name ls) (ls_name s))) (sort_key ls_name ls)"
    using assms(1) by (auto simp: ingressDirectives_def Let_def split: if_splits option.splits)
  moreover have "v \<notin> allowVar ` ls_name ` set (sort_key ls_name ls)" using assms(3) by auto
  ultimately show ?thesis using assms(2) by (simp add: map_vars_append map_vars_skip allow_vars_keep)
qed

lemma allowVar_plain: "''$http_x_mesh_target'' \<noteq> allowVar n" "''$mesh_addr'' \<noteq> allowVar n" "''$mesh_sni'' \<noteq> allowVar n"
  by (simp_all add: allowVar_def allowVarName_def)

definition target_entry :: "mesh_config \<Rightarrow> string \<Rightarrow> mesh_target option" where
  "target_entry c n = find (\<lambda>t. NginxAst.lower (mt_name t) = NginxAst.lower n) (sort_key mt_name (mc_targets c))"

lemma egress_vars:
  assumes c: "mesh_http c = Inr http" "e \<in> set (mc_egress c)" and p: "\<forall>t\<in>set (mc_targets c). plain_key (mt_name t)"
    and t: "target_entry c (vars ''$http_x_mesh_target'') = Some t"
  shows "map_vars http vars ''$mesh_addr'' = mt_addr t" "map_vars http vars ''$mesh_sni'' = mt_sni t"
proof -
  let ?ts = "sort_key mt_name (mc_targets c)"
  obtain ing where i: "ingressDirectives (mc_local c) (mc_listen c) (mc_bundle c) = Inr ing"
    and http: "http = upgrade_map # ing
      @ [block ''map'' [''$http_x_mesh_target'', ''$mesh_addr''] (dir ''default'' [[]] # map (\<lambda>t. dir (mt_name t) [mt_addr t]) ?ts),
         block ''map'' [''$http_x_mesh_target'', ''$mesh_sni''] (dir ''default'' [[]] # map (\<lambda>t. dir (mt_name t) [mt_sni t]) ?ts)]
      @ map (\<lambda>e. egressServer e (mc_bundle c)) (sort_key ec_name (mc_egress c))"
    by (rule egress_http [OF c])
  have key: "map_vars ing (map_vars [upgrade_map] vars) ''$http_x_mesh_target'' = vars ''$http_x_mesh_target''"
    using ingress_keep [OF i, of "''$http_x_mesh_target''"] by (simp add: allowVar_plain)
  have pt: "\<forall>t\<in>set ?ts. plain_key (mt_name t)" using p by simp
  note v = map_value_table [OF pt]
  have "map_vars http vars ''$mesh_addr'' = map_value (dir ''default'' [[]] # map (\<lambda>t. dir (mt_name t) [mt_addr t]) ?ts) (vars ''$http_x_mesh_target'')"
    "map_vars http vars ''$mesh_sni'' = map_value (dir ''default'' [[]] # map (\<lambda>t. dir (mt_name t) [mt_sni t]) ?ts) (vars ''$http_x_mesh_target'')"
    unfolding http using key by (simp_all add: map_vars_append map_vars_skip)
  then show "map_vars http vars ''$mesh_addr'' = mt_addr t" "map_vars http vars ''$mesh_sni'' = mt_sni t"
    using t by (simp_all add: v target_entry_def)
qed

subsection \<open>The routing table\<close>

lemma target_ips_rows:
  "target_ips so go rs = Inr ts \<Longrightarrow> map fst ts = rs
     \<and> (\<forall>(t, ip)\<in>set ts. \<exists>out. (if mr_global t then go else so) (mr_host t) = Some out
          \<and> ip = (if mr_global t then co_public out else co_private out))"
proof (induction rs arbitrary: ts)
  case (Cons t rs)
  obtain ip ts' where "ts = (t, ip) # ts'" "target_ips so go rs = Inr ts'"
    "\<exists>out. (if mr_global t then go else so) (mr_host t) = Some out \<and> ip = (if mr_global t then co_public out else co_private out)"
    using Cons.prems by (auto split: if_splits option.splits sum.splits)
  then show ?case using Cons.IH by auto
qed simp

lemma fill_targets_rows:
  "fill_targets h ts = Inr mts \<Longrightarrow>
     mts = map (\<lambda>(t, ip). \<lparr>mt_name = mr_name t, mt_addr = ip @ '':'' @ Itoa MTLSPort, mt_sni = mr_sni t\<rparr>) ts"
  by (induction h ts arbitrary: mts rule: fill_targets.induct) (auto split: if_splits sum.splits)

definition route_to :: "string \<Rightarrow> bool \<Rightarrow> string \<Rightarrow> service_spec \<Rightarrow> mesh_route" where
  "route_to scope global h s = \<lparr>mr_name = svc_name s, mr_sni = DNSName scope (svc_name s), mr_host = h, mr_global = global\<rparr>"

lemma scope_targets_rows:
  "t \<in> set (scope_targets scope global can seen ss) \<Longrightarrow>
     (\<exists>s\<in>set ss. \<exists>h. svc_mesh s \<noteq> None \<and> can (svc_host s) = Some h \<and> t = route_to scope global h s) \<and> mr_name t \<notin> set seen"
  by (induction scope global can seen ss rule: scope_targets.induct)
     (auto simp: route_to_def split: if_splits option.splits)

lemma scope_targets_distinct: "distinct (map mr_name (scope_targets scope global can seen ss))"
proof (induction scope global can seen ss rule: scope_targets.induct)
  case (2 scope global can seen s ss)
  then show ?case by (auto split: option.splits dest: scope_targets_rows)
qed simp

lemma scope_targets_in:
  "distinct (map svc_name ss) \<Longrightarrow> s \<in> set ss \<Longrightarrow> svc_mesh s \<noteq> None \<Longrightarrow> can (svc_host s) = Some h
   \<Longrightarrow> svc_name s \<notin> set seen \<Longrightarrow> route_to scope global h s \<in> set (scope_targets scope global can seen ss)"
proof (induction scope global can seen ss rule: scope_targets.induct)
  case (2 scope global can seen a ss)
  show ?case
  proof (cases "s = a")
    case True
    then show ?thesis using "2.prems" by (auto simp: route_to_def)
  next
    case False
    then have "s \<in> set ss" "svc_name s \<noteq> svc_name a" using "2.prems"(1,2) by (auto simp: rev_image_eqI)
    then show ?thesis using 2 by (auto split: option.splits)
  qed
qed simp

lemma distinct_map_sort: "distinct (map f (sort_key g xs)) = distinct (map f xs)"
  by (simp add: distinct_map)

lemma meshTargets_distinct: "distinct (map mr_name (meshTargets res glob can gcan scope isGlobal))"
proof -
  let ?own = "scope_targets scope False can [] (res_service res)"
  let ?other = "if isGlobal then [] else scope_targets ScopeGlobal True gcan (map mr_name ?own) (res_service glob)"
  have "distinct (map mr_name (?own @ ?other))"
  proof -
    have away: "mr_name t \<notin> mr_name ` set ?own" if "t \<in> set ?other" for t
      using that scope_targets_rows [THEN conjunct2, of t ScopeGlobal True gcan "map mr_name ?own"] by (auto split: if_splits)
    have "mr_name ` set ?own \<inter> mr_name ` set ?other = {}"
    proof (rule equals0I)
      fix y assume "y \<in> mr_name ` set ?own \<inter> mr_name ` set ?other"
      then obtain t where "t \<in> set ?other" "y = mr_name t" "y \<in> mr_name ` set ?own" by blast
      then show False using away [of t] by simp
    qed
    moreover have "distinct (map mr_name ?other)" by (simp add: scope_targets_distinct)
    ultimately show ?thesis
      unfolding map_append distinct_append set_map using scope_targets_distinct by blast
  qed
  then show ?thesis unfolding meshTargets_def Let_def distinct_map_sort .
qed

lemma find_unique: "x \<in> set xs \<Longrightarrow> P x \<Longrightarrow> (\<And>y. y \<in> set xs \<Longrightarrow> P y \<Longrightarrow> y = x) \<Longrightarrow> find P xs = Some x"
  by (metis (no_types, lifting) find_None_iff find_Some_iff nth_mem option.exhaust)

subsection \<open>Names\<close>

text \<open>
  The pattern of \<open>schemas/service.json\<close> for a name, and the names nginx would read as a parameter of a
  map (\<open>default\<close>) excluded: the schema lets that one through.
\<close>

definition name_char :: "char \<Rightarrow> bool" where
  "name_char c = (let n = of_char c :: nat in 97 \<le> n \<and> n \<le> 122 \<or> 48 \<le> n \<and> n \<le> 57 \<or> n = 45 \<or> n = 95)"

definition mesh_name :: "string \<Rightarrow> bool" where
  "mesh_name n \<longleftrightarrow> n \<noteq> [] \<and> list_all name_char n \<and> n \<noteq> ''default'' \<and> n \<noteq> ''include''"

lemma name_char_keeps: "name_char c \<Longrightarrow> lower_char c = c \<and> c \<noteq> CHR ''/'' \<and> c \<noteq> CHR ''~''"
  by (auto simp: name_char_def lower_char_def Let_def)

lemma mesh_name_lower: "mesh_name n \<Longrightarrow> NginxAst.lower n = n"
  by (auto simp: mesh_name_def NginxAst.lower_def list_all_iff name_char_keeps intro: map_idI)

lemma mesh_name_plain: "mesh_name n \<Longrightarrow> plain_key n"
  by (auto simp: mesh_name_def plain_key_def list_all_iff dest!: in_set_takeD dest: name_char_keeps)

lemma slash_lower: "lower_char c = CHR ''/'' \<longleftrightarrow> c = CHR ''/''"
  by (cases "65 \<le> (of_char c :: nat) \<and> of_char c \<le> (90 :: nat)")
     (auto simp: lower_char_def Let_def dest!: arg_cong [of _ _ "of_char :: char \<Rightarrow> nat"])

text \<open>The name of an identity is what follows its last slash.\<close>

lemma identity_name:
  assumes "NginxAst.lower (a @ ''/'' @ n) = NginxAst.lower (b @ ''/'' @ k)" "CHR ''/'' \<notin> set n" "CHR ''/'' \<notin> set k"
  shows "NginxAst.lower n = NginxAst.lower k"
proof -
  have t: "rev (NginxAst.lower x) = takeWhile (\<lambda>c. c \<noteq> CHR ''/'') (rev (NginxAst.lower (y @ ''/'' @ x)))"
    if "CHR ''/'' \<notin> set x" for x y
  proof -
    have "\<forall>c\<in>set (rev (NginxAst.lower x)). c \<noteq> CHR ''/''" using that by (auto simp: NginxAst.lower_def slash_lower)
    then have "takeWhile (\<lambda>c. c \<noteq> CHR ''/'') (rev (NginxAst.lower x) @ CHR ''/'' # rev (NginxAst.lower y)) = rev (NginxAst.lower x)"
      by (simp add: takeWhile_append)
    moreover have "lower_char CHR ''/'' = CHR ''/''" by (simp add: slash_lower)
    ultimately show ?thesis by (simp add: NginxAst.lower_def)
  qed
  show ?thesis using t [OF assms(2), of a] t [OF assms(3), of b] assms(1) by (metis rev_is_rev_conv)
qed

subsection \<open>A caller\<close>

definition caller_listener :: "service_spec \<Rightarrow> int \<Rightarrow> directive" where
  "caller_listener c port =
     egressServer \<lparr>ec_name = svc_name c, ec_port = port, ec_cert = LeafCertPath (svc_name c), ec_key = LeafKeyPath (svc_name c)\<rparr> BundlePath"

lemma egress_port_of:
  assumes "distinct (map svc_name (res_service res))" "c \<in> set (ServicesByHost res can h)"
  obtains i where "i < length (ServicesByHost res can h)" "ServicesByHost res can h ! i = c"
    "meshEgressPortsByService res can (svc_name c) = Some (EgressPort (int i))"
proof -
  obtain i where i: "i < length (ServicesByHost res can h)" "ServicesByHost res can h ! i = c"
    using assms(2) by (auto simp: in_set_conv_nth)
  have d: "distinct (ServicesByHost res can h)"
    using assms(1) by (simp add: ServicesByHost_def distinct_map)
  have "meshEgressPortsByService res can (svc_name c) = Some (EgressPort (int i))"
    unfolding meshEgressPortsByService_def
  proof (rule last_map_unique)
    have "h \<in> set (HostKeys res can)" using assms(2) by (auto simp: HostKeys_def in_host mesh_host_of_def intro!: bexI)
    then show "(svc_name c, EgressPort (int i)) \<in> set (concat (map (\<lambda>h. map (\<lambda>(i, s). (svc_name s, EgressPort (int i)))
        (enumerate 0 (ServicesByHost res can h))) (HostKeys res can)))"
      using i by (auto simp: in_set_enumerate_eq image_iff intro!: bexI [of _ h] bexI [of _ "(i, c)"])
  next
    fix w assume "(svc_name c, w) \<in> set (concat (map (\<lambda>h. map (\<lambda>(i, s). (svc_name s, EgressPort (int i)))
        (enumerate 0 (ServicesByHost res can h))) (HostKeys res can)))"
    then obtain h' j where j: "j < length (ServicesByHost res can h')" "svc_name (ServicesByHost res can h' ! j) = svc_name c"
      "w = EgressPort (int j)" by (auto simp: in_set_enumerate_eq)
    have m: "ServicesByHost res can h' ! j \<in> set (ServicesByHost res can h')" using j(1) by (rule nth_mem)
    have "ServicesByHost res can h' ! j = c"
      using assms(1) m assms(2) j(2) by (simp only: in_host) (metis distinct_map inj_onD)
    moreover have "h' = h" using m assms(2) calculation by (simp add: in_host)
    ultimately have "j = i" using j(1) i d by (metis nth_eq_iff_index_eq)
    then show "w = EgressPort (int i)" using j(3) by simp
  qed
  with i show thesis by (rule that)
qed

lemma caller_server:
  assumes p: "mesh_plan_of res regional glob scopeOut globalOut scope regions = Inr pl"
    and h: "realize_mesh_host pl scopeOut scope h = Inr http"
    and c: "c \<in> set (ServicesByHost res (CanonicalComputeKeys (res_compute res)) h)"
    and d: "distinct (map svc_name (res_service res))"
    and n: "\<forall>s\<in>set (res_service res) \<union> set (res_service glob). mesh_name (svc_name s)"
    and t: "(t, ip) \<in> set (mp_targets pl)" "vars ''$http_x_mesh_target'' = mr_name t" and path: "prefix ''/'' path"
  shows "\<exists>port. meshEgressPortsByService res (CanonicalComputeKeys (res_compute res)) (svc_name c) = Some port
     \<and> caller_listener c port \<in> set http
     \<and> serve rx (map_vars http vars) (caller_listener c port) path =
        Proxied ''https://$mesh_addr''
          [(''Upgrade'', ''$http_upgrade''), (''Connection'', ''$connection_upgrade''), (''Host'', ''$mesh_sni'')]
     \<and> map_vars http vars ''$mesh_addr'' = ip @ '':'' @ Itoa MTLSPort \<and> map_vars http vars ''$mesh_sni'' = mr_sni t"
proof -
  let ?can = "CanonicalComputeKeys (res_compute res)"
  obtain i where i: "i < length (ServicesByHost res ?can h)" "ServicesByHost res ?can h ! i = c"
    and port: "meshEgressPortsByService res ?can (svc_name c) = Some (EgressPort (int i))"
    by (rule egress_port_of [OF d c])
  obtain mc where mc: "mesh_http mc = Inr http" and ft: "fill_targets h (mp_targets pl) = Inr (mc_targets mc)"
    and b: "mc_bundle mc = BundlePath" and eg: "mc_egress mc = (case mp_inputs pl h of None \<Rightarrow> [] | Some mh \<Rightarrow> mh_egress mh)"
    by (rule host_config [OF h])
  have "egress_of i c \<in> set (mc_egress mc)"
    using locals_of_host [OF plan_parts(1) [OF p c] c] i unfolding eg
    by (auto simp: in_set_enumerate_eq image_iff intro!: bexI [of _ "(i, c)"])
  note e = this
  have listener: "egressServer (egress_of i c) (mc_bundle mc) = caller_listener c (EgressPort (int i))"
    by (simp add: b caller_listener_def egress_of_def)
  obtain ing where "http = upgrade_map # ing
      @ [block ''map'' [''$http_x_mesh_target'', ''$mesh_addr'']
           (dir ''default'' [[]] # map (\<lambda>t. dir (mt_name t) [mt_addr t]) (sort_key mt_name (mc_targets mc))),
         block ''map'' [''$http_x_mesh_target'', ''$mesh_sni'']
           (dir ''default'' [[]] # map (\<lambda>t. dir (mt_name t) [mt_sni t]) (sort_key mt_name (mc_targets mc)))]
      @ map (\<lambda>e. egressServer e (mc_bundle mc)) (sort_key ec_name (mc_egress mc))"
    by (rule egress_http [OF mc e])
  then have inh: "caller_listener c (EgressPort (int i)) \<in> set http" using e listener by force
  note rows = fill_targets_rows [OF ft] target_ips_rows [OF plan_parts(2) [OF p c]]
  define x where "x = \<lparr>mt_name = mr_name t, mt_addr = ip @ '':'' @ Itoa MTLSPort, mt_sni = mr_sni t\<rparr>"
  have names: "mt_name ` set (mc_targets mc) = mr_name ` set (meshTargets res glob ?can (CanonicalComputeKeys (res_compute glob)) scope (scope = ScopeGlobal))"
    unfolding rows(1) rows(2) [THEN conjunct1, symmetric] by (force simp: image_iff)
  have "mesh_name (mr_name r)" if "r \<in> set (meshTargets res glob ?can (CanonicalComputeKeys (res_compute glob)) scope (scope = ScopeGlobal))" for r
    using that n by (auto simp: meshTargets_def Let_def route_to_def dest!: scope_targets_rows split: if_splits)
  then have nm: "mesh_name (mt_name y)" if "y \<in> set (mc_targets mc)" for y using names that by (metis image_iff)
  have "distinct (map mt_name (mc_targets mc))"
    using meshTargets_distinct [of res glob ?can "CanonicalComputeKeys (res_compute glob)" scope "scope = ScopeGlobal"] unfolding rows(2) [THEN conjunct1, symmetric] rows(1)
    by (simp add: split_def comp_def)
  then have inj: "inj_on mt_name (set (mc_targets mc))" by (simp add: distinct_map)
  have x: "x \<in> set (mc_targets mc)" unfolding rows(1) x_def using t(1) by force
  have "target_entry mc (vars ''$http_x_mesh_target'') = Some x"
    unfolding target_entry_def t(2)
  proof (rule find_unique)
    show "x \<in> set (sort_key mt_name (mc_targets mc))" using x by simp
    fix y assume y: "y \<in> set (sort_key mt_name (mc_targets mc))" "NginxAst.lower (mt_name y) = NginxAst.lower (mr_name t)"
    then have "mt_name y = mt_name x"
      using nm [of y] nm [OF x] mesh_name_lower by (simp add: x_def)
    then show "y = x" using inj x y(1) by (simp add: inj_on_def)
  qed (simp add: x_def)
  moreover have "\<forall>t\<in>set (mc_targets mc). plain_key (mt_name t)" using nm mesh_name_plain by blast
  ultimately have v: "map_vars http vars ''$mesh_addr'' = ip @ '':'' @ Itoa MTLSPort" "map_vars http vars ''$mesh_sni'' = mr_sni t"
    using egress_vars [OF mc e, of vars x] by (simp_all add: x_def)
  have "serve rx (map_vars http vars) (caller_listener c (EgressPort (int i))) path =
        Proxied ''https://$mesh_addr''
          [(''Upgrade'', ''$http_upgrade''), (''Connection'', ''$connection_upgrade''), (''Host'', ''$mesh_sni'')]"
    unfolding caller_listener_def proxied_egress [OF path] v(1) by simp
  with port inh v show ?thesis by blast
qed

subsection \<open>A call\<close>

lemma identity_listed:
  assumes ok: "ValidateResources exists resolve defaults bucket pj = None"
    and l: "loadResourceSet resolve (pj_regional_set pj) = Some regional" "loadResourceSet resolve (pj_global_set pj) = Some glob"
    and e: "env_scope pj regional glob cscope cres" and dir: "cscope = scope \<or> scope = ScopeGlobal"
    and n: "\<forall>s\<in>set (res_service regional) \<union> set (res_service glob). mesh_name (svc_name s)"
    and c: "c \<in> set (res_service cres)" "svc_pki c \<noteq> []"
  shows "(\<exists>a. mesh_admits regional glob (SortedNames (pj_regions pj)) scope m a
       \<and> NginxAst.lower a = NginxAst.lower (cscope @ ''/'' @ svc_name c)) \<longleftrightarrow> svc_name c \<in> set (mesh_allowed m)"
proof -
  obtain vi fs where fs: "(vi, fs) \<in> set (scopes_of resolve defaults bucket pj)" "cres = specs_of fs"
    by (rule scope_in_env [OF accepted_loads [OF ok l] e])
  have "service_ok (build_ctx vi fs) c"
    using scope_okD [OF validated_ok [OF ok fs(1)]] c(1) validated_specs(1) [OF ok fs(1)] fs(2) by simp
  then have g: "svc_name c \<noteq> meshGatewayCaller"
    using service_ok_parts(1) by (fastforce simp: check_identity_def meshGatewayCaller_def gatewayCallerName_def split: if_splits)
  have cn: "mesh_name (svc_name c)" using n c(1) e by (auto simp: env_scope_def split: if_splits)
  have plain: "CHR ''/'' \<notin> set k" if "mesh_name k" for k using that name_char_keeps by (auto simp: mesh_name_def list_all_iff)
  have gw: "mesh_name meshGatewayCaller" by (simp add: mesh_name_def meshGatewayCaller_def name_char_def)
  have "mesh_member regional glob (SortedNames (pj_regions pj)) cscope (svc_name c)"
    using e c by (auto simp: mesh_member_def env_scope_def meshMembers_iff split: if_splits)
  then have admits: "svc_name c \<in> set (mesh_allowed m) \<Longrightarrow>
      mesh_admits regional glob (SortedNames (pj_regions pj)) scope m (cscope @ ''/'' @ svc_name c)"
    using g dir by (auto simp: mesh_admits_def)
  have "svc_name c \<in> set (mesh_allowed m)"
    if "mesh_admits regional glob (SortedNames (pj_regions pj)) scope m a"
      "NginxAst.lower a = NginxAst.lower (cscope @ ''/'' @ svc_name c)" for a
  proof -
    note ad = that(1)
    obtain src name where a: "a = src @ ''/'' @ name" "name \<in> set (mesh_allowed m)"
      and m: "name = meshGatewayCaller \<or> mesh_member regional glob (SortedNames (pj_regions pj)) src name"
      using ad unfolding mesh_admits_def by (metis (full_types))
    have "mesh_name name" using m gw n by (auto simp: mesh_member_def meshMembers_iff split: if_splits)
    moreover have "NginxAst.lower name = NginxAst.lower (svc_name c)"
      by (rule identity_name [OF that(2) [unfolded a(1)] plain plain]) (rule calculation, rule cn)
    ultimately have "name = svc_name c" using cn mesh_name_lower by simp
    then show ?thesis using a(2) by simp
  qed
  with admits show ?thesis by blast
qed

lemma call_target:
  assumes ok: "ValidateResources exists resolve defaults bucket pj = None"
    and l: "loadResourceSet resolve (pj_regional_set pj) = Some regional" "loadResourceSet resolve (pj_global_set pj) = Some glob"
    and e: "env_scope pj regional glob scope res" "env_scope pj regional glob cscope cres"
    and dir: "cscope = scope \<or> scope = ScopeGlobal"
    and s: "s \<in> set (ServicesByHost res (CanonicalComputeKeys (res_compute res)) h)" "svc_mesh s = Some m"
  shows "route_to scope (cscope \<noteq> scope) h s \<in> set (meshTargets cres glob (CanonicalComputeKeys (res_compute cres))
     (CanonicalComputeKeys (res_compute glob)) cscope (cscope = ScopeGlobal))"
proof -
  have d: "distinct (map svc_name (res_service regional @ res_service glob))"
    by (rule accepted_names_distinct [OF accepted_loads [OF ok l]])
  then have dr: "distinct (map svc_name (res_service res))" using e(1) by (auto simp: env_scope_def split: if_splits)
  have sr: "s \<in> set (res_service res)" "CanonicalComputeKeys (res_compute res) (svc_host s) = Some h" using s(1) by (auto simp: in_host)
  show ?thesis
  proof (cases "cscope = scope")
    case True
    then have "cres = res" using e by (auto simp: env_scope_def split: if_splits)
    then show ?thesis
      using scope_targets_in [where can = "CanonicalComputeKeys (res_compute res)" and seen = "[]" and scope = scope and global = False, OF dr sr(1) _ sr(2)] s(2) True by (simp add: meshTargets_def Let_def)
  next
    case False
    then have g: "scope = ScopeGlobal" "res = glob" "cres = regional" "cscope \<noteq> ScopeGlobal"
      using dir e by (auto simp: env_scope_def split: if_splits)
    let ?own = "scope_targets cscope False (CanonicalComputeKeys (res_compute cres)) [] (res_service cres)"
    have "svc_name s \<notin> svc_name ` set (res_service regional)" using d sr(1) g(2) by auto
    then have "svc_name s \<notin> set (map mr_name ?own)" unfolding g(3) by (force simp: route_to_def dest!: scope_targets_rows)
    then show ?thesis
      using scope_targets_in [where can = "CanonicalComputeKeys (res_compute res)" and seen = "map mr_name ?own" and scope = ScopeGlobal and global = True, OF dr sr(1) _ sr(2)] s(2) False g
      by (simp add: meshTargets_def Let_def)
  qed
qed

text \<open>C17: In an accepted environment a service that calls another one of its scope, or a global one,
  through the port it was given reaches the host of the callee on its mesh address, under the name of
  the callee and with its own certificate; and the callee's host passes the request on exactly when the
  callee lists the caller and declares the path, with the identity of the caller in a header.  The
  environment has no region named global and none whose name begins with a tilde, its services are named
  as the schema demands and none is called default or include, which nginx reads as directives of its maps,
  and no two services on the host of the callee have names that differ only in hyphens and underscores,
  since they would share one nginx variable.\<close>

theorem mesh_call:
  assumes ok: "ValidateResources exists resolve defaults bucket pj = None"
    and l: "loadResourceSet resolve (pj_regional_set pj) = Some regional" "loadResourceSet resolve (pj_global_set pj) = Some glob"
    and r: "ScopeGlobal \<notin> set (SortedNames (pj_regions pj))" "\<forall>r\<in>set (SortedNames (pj_regions pj)). no_tilde r"
    and n: "\<forall>s\<in>set (res_service regional) \<union> set (res_service glob). mesh_name (svc_name s)"
    and e: "env_scope pj regional glob scope res" "env_scope pj regional glob cscope cres" "cscope = scope \<or> scope = ScopeGlobal"
    and p: "mesh_plan_of res regional glob (out scope) (out ScopeGlobal) scope (SortedNames (pj_regions pj)) = Inr pl"
      "mesh_plan_of cres regional glob (out cscope) (out ScopeGlobal) cscope (SortedNames (pj_regions pj)) = Inr cpl"
    and h: "realize_mesh_host pl (out scope) scope h = Inr http" "realize_mesh_host cpl (out cscope) cscope ch = Inr chttp"
    and s: "s \<in> set (ServicesByHost res (CanonicalComputeKeys (res_compute res)) h)" "svc_mesh s = Some m"
    and c: "c \<in> set (ServicesByHost cres (CanonicalComputeKeys (res_compute cres)) ch)"
    and d: "distinct (map (allowVar \<circ> svc_name) (ServicesByHost res (CanonicalComputeKeys (res_compute res)) h))"
    and rq: "prefix ''/'' path" "cvars ''$http_x_mesh_target'' = svc_name s"
      "cn_of (vars ''$ssl_client_s_dn'') = Some (cscope @ ''/'' @ svc_name c)"
  shows "\<exists>port ip srv. meshEgressPortsByService cres (CanonicalComputeKeys (res_compute cres)) (svc_name c) = Some port
    \<and> caller_listener c port \<in> set chttp
    \<and> serve rx (map_vars chttp cvars) (caller_listener c port) path =
        Proxied ''https://$mesh_addr''
          [(''Upgrade'', ''$http_upgrade''), (''Connection'', ''$connection_upgrade''), (''Host'', ''$mesh_sni'')]
    \<and> map_vars chttp cvars ''$mesh_addr'' = ip @ '':'' @ Itoa MTLSPort
    \<and> map_vars chttp cvars ''$mesh_sni'' = DNSName scope (svc_name s)
    \<and> ip = (if cscope = scope then co_private else co_public) (the (out scope h))
    \<and> srv \<in> set http \<and> dir ''server_name'' [DNSName scope (svc_name s)] \<in> set (children_of srv)
    \<and> map_vars http vars ''$mesh_caller'' = cscope @ ''/'' @ svc_name c
    \<and> serve path_rx (map_vars http vars) srv path =
        (if svc_name c \<notin> set (mesh_allowed m) then Answer [''403'']
         else if \<exists>g\<in>set (mesh_public m @ mesh_internal m). \<exists>p. Parse g = Inr p \<and> Matches p path
         then Proxied (''http://127.0.0.1:'' @ Itoa (mesh_port m)) proxied_headers
         else Answer [''404'', not_found_json])"
proof -
  let ?t = "route_to scope (cscope \<noteq> scope) h s"
  have cr: "c \<in> set (res_service cres)" "svc_pki c \<noteq> []" using c by (simp_all add: in_host)
  have listed: "(\<exists>a. mesh_admits regional glob (SortedNames (pj_regions pj)) scope m a
       \<and> NginxAst.lower a = NginxAst.lower (cscope @ ''/'' @ svc_name c)) \<longleftrightarrow> svc_name c \<in> set (mesh_allowed m)"
    by (rule identity_listed [OF ok l e(2,3) n cr])
  note callee = callee_server [where vars = vars, OF ok l e(1) r p(1) h(1) s d rq(3) rq(1), unfolded listed]
  note rows = target_ips_rows [OF plan_parts(2) [OF p(2) c]]
  obtain ip where ip: "(?t, ip) \<in> set (mp_targets cpl)"
    using call_target [OF ok l e(1,2,3) s] unfolding rows [THEN conjunct1, symmetric] by auto
  have "ScopeGlobal = scope" if "cscope \<noteq> scope" using e(3) that by simp
  then have addr: "ip = (if cscope = scope then co_private else co_public) (the (out scope h))"
    using rows [THEN conjunct2] ip by (fastforce simp: route_to_def)
  have dc: "distinct (map svc_name (res_service cres))"
    using accepted_names_distinct [OF accepted_loads [OF ok l]] e(2) by (auto simp: env_scope_def split: if_splits)
  have nc: "\<forall>s\<in>set (res_service cres) \<union> set (res_service glob). mesh_name (svc_name s)"
    using n e(2) by (auto simp: env_scope_def split: if_splits)
  have tn: "cvars ''$http_x_mesh_target'' = mr_name ?t" "mr_sni ?t = DNSName scope (svc_name s)" using rq(2) by (simp_all add: route_to_def)
  note caller = caller_server [where vars = cvars and rx = rx, OF p(2) h(2) c dc nc ip tn(1) rq(1), unfolded tn(2)]
  from caller callee addr show ?thesis by blast
qed

end
