(* ===== verification/MeshLive.thy ===== *)
theory MeshLive
  imports MeshProps
begin

text \<open>
  The mesh of an accepted environment always renders: once every compute has its addresses, no check of
  the plan or of the renderer can fail.  The example environment then gives the witnesses.
\<close>

subsection \<open>The planes\<close>

lemma glob_regexes_ok: "\<forall>g\<in>set gs. \<exists>p. Parse g = Inr p \<Longrightarrow> \<exists>rs. glob_regexes n gs = Inr rs"
  by (induction gs) auto

lemma first_local_ok: "\<forall>s\<in>set ss. \<exists>rs. local_regexes s = Inr rs \<Longrightarrow> first_local_err ss = None"
  by (induction ss) (auto split: sum.splits)

lemma ingress_ok:
  assumes "\<forall>s\<in>set ls. \<exists>rs. local_regexes s = Inr rs" "bp \<noteq> []"
  shows "\<exists>ing. ingressDirectives ls la bp = Inr ing"
  using first_local_ok [of "sort_key ls_name ls"] assms by (simp add: ingressDirectives_def Let_def)

lemma egress_ok:
  assumes "\<forall>t\<in>set ts. mt_addr t \<noteq> [] \<and> mt_sni t \<noteq> []" "\<forall>e\<in>set es. ec_port e \<ge> 1 \<and> ec_cert e \<noteq> [] \<and> ec_key e \<noteq> []" "bp \<noteq> []"
  shows "\<exists>egr. egressDirectives es ts bp = Inr egr"
proof -
  have "find (\<lambda>t. mt_addr t = [] \<or> mt_sni t = []) (sort_key mt_name ts) = None"
    "find (\<lambda>e. ec_port e < 1 \<or> ec_cert e = [] \<or> ec_key e = []) (sort_key ec_name es) = None"
    using assms by (auto simp: find_None_iff)
  then show ?thesis using assms(3) by (simp add: egressDirectives_def Let_def)
qed

lemma paths_ne: "LeafCertPath n \<noteq> []" "LeafKeyPath n \<noteq> []" "DNSName scope n \<noteq> []" "BundlePath \<noteq> []"
  by (simp_all add: LeafCertPath_def LeafKeyPath_def DNSName_def BundlePath_def)

lemma egress_rows:
  "e \<in> set (mh_egress mh) \<Longrightarrow> meshInputsByHost res can scope allowed h = Some mh \<Longrightarrow> ec_port e \<ge> 1 \<and> ec_cert e \<noteq> [] \<and> ec_key e \<noteq> []"
  by (auto simp: meshInputsByHost_def Let_def egress_of_def gateway_egress_def paths_ne EgressPort_def EgressBase_def
      GatewayEgressPort_def MaxServices_def split: if_splits option.splits)

lemma local_rows:
  assumes "svc_mesh s = Some m" "1 \<le> mesh_port m" "mesh_public m \<noteq> [] \<or> mesh_internal m \<noteq> []"
    and "\<forall>g\<in>set (mesh_public m @ mesh_internal m). \<exists>p. Parse g = Inr p"
  shows "\<forall>x\<in>set (local_of scope allowed s). \<exists>rs. local_regexes x = Inr rs"
  using assms glob_regexes_ok [of "sort (mesh_public m @ mesh_internal m)"]
  by (auto simp: local_of_def local_regexes_def paths_ne)

lemma list_all2_Inr: "list_all2 (\<lambda>g p. Parse g = Inr p) gs ps \<Longrightarrow> g \<in> set gs \<Longrightarrow> \<exists>p. Parse g = Inr p"
  by (induction rule: list_all2_induct) auto

lemma callee_rows:
  assumes ok: "ValidateResources exists resolve defaults bucket pj = None"
    and l: "loadResourceSet resolve (pj_regional_set pj) = Some regional" "loadResourceSet resolve (pj_global_set pj) = Some glob"
    and e: "env_scope pj regional glob scope res" and s: "s \<in> set (res_service res)"
  shows "\<forall>x\<in>set (local_of key allowed s). \<exists>rs. local_regexes x = Inr rs"
proof (cases "svc_mesh s")
  case None
  then show ?thesis by (simp add: local_of_def)
next
  case (Some m)
  obtain vi fs where fs: "(vi, fs) \<in> set (scopes_of resolve defaults bucket pj)" "res = specs_of fs"
    by (rule scope_in_env [OF accepted_loads [OF ok l] e])
  have "service_ok (build_ctx vi fs) s"
    using scope_okD [OF validated_ok [OF ok fs(1)]] s validated_specs(1) [OF ok fs(1)] fs(2) by simp
  note c = service_ok_parts(6) [OF this Some]
  obtain ps qs where "list_all2 (\<lambda>g p. Parse g = Inr p) (mesh_public m) ps" "list_all2 (\<lambda>g p. Parse g = Inr p) (mesh_internal m) qs"
    using checkMesh_nil(2) [OF c] by blast
  then have "\<forall>g\<in>set (mesh_public m @ mesh_internal m). \<exists>p. Parse g = Inr p" using list_all2_Inr by auto
  then show ?thesis
    by (rule local_rows [OF Some check_mesh_port_nil(1) [OF checkMesh_nil(4) [OF c], THEN conjunct1] checkMesh_nil(3) [OF c]])
qed

subsection \<open>The plan\<close>

lemma target_ips_ok:
  "\<forall>t\<in>set rs. \<exists>out. (if mr_global t then go else so) (mr_host t) = Some out \<Longrightarrow> \<exists>ts. target_ips so go rs = Inr ts"
  by (induction rs) (auto split: if_splits)

lemma fill_targets_ok: "\<forall>(t, ip)\<in>set ts. ip \<noteq> [] \<Longrightarrow> \<exists>mts. fill_targets h ts = Inr mts"
  by (induction h ts rule: fill_targets.induct) auto

text \<open>The computes that have addresses.\<close>

definition outputs_ready :: "resources \<Rightarrow> (string \<rightharpoonup> compute_outputs) \<Rightarrow> bool" where
  "outputs_ready res out \<longleftrightarrow>
     (\<forall>h\<in>ran (CanonicalComputeKeys (res_compute res)). \<exists>x. out h = Some x \<and> co_public x \<noteq> [] \<and> co_private x \<noteq> [])"

lemma route_ready:
  assumes "t \<in> set (meshTargets res glob (CanonicalComputeKeys (res_compute res)) (CanonicalComputeKeys (res_compute glob)) scope g)"
    and "outputs_ready res so" "outputs_ready glob go"
  shows "\<exists>x. (if mr_global t then go else so) (mr_host t) = Some x \<and> co_public x \<noteq> [] \<and> co_private x \<noteq> []"
proof -
  have "mr_host t \<in> ran (CanonicalComputeKeys (res_compute (if mr_global t then glob else res)))"
    using assms(1) by (auto simp: meshTargets_def Let_def route_to_def ran_def dest!: scope_targets_rows split: if_splits)
  then show ?thesis using assms(2,3) unfolding outputs_ready_def by (cases "mr_global t") auto
qed

lemma union_host:
  "h \<in> set (UnionHostKeys res can) \<Longrightarrow> h \<in> ran can"
  by (auto simp: UnionHostKeys_def HostKeys_def mesh_host_of_def ran_def split: if_splits option.splits)

lemma route_sni: "t \<in> set (meshTargets res glob can gcan scope g) \<Longrightarrow> mr_sni t \<noteq> []"
  by (auto simp: meshTargets_def Let_def route_to_def paths_ne dest!: scope_targets_rows split: if_splits)

lemma scope_renders:
  assumes ok: "ValidateResources exists resolve defaults bucket pj = None"
    and l: "loadResourceSet resolve (pj_regional_set pj) = Some regional" "loadResourceSet resolve (pj_global_set pj) = Some glob"
    and e: "env_scope pj regional glob scope res"
    and out: "outputs_ready res (out scope)" "outputs_ready glob (out ScopeGlobal)"
  shows "\<exists>pl. mesh_plan_of res regional glob (out scope) (out ScopeGlobal) scope (SortedNames (pj_regions pj)) = Inr pl
     \<and> mp_hosts pl = UnionHostKeys res (CanonicalComputeKeys (res_compute res))
     \<and> (\<forall>h\<in>set (mp_hosts pl). \<exists>http. realize_mesh_host pl (out scope) scope h = Inr http)"
proof -
  let ?can = "CanonicalComputeKeys (res_compute res)" and ?gcan = "CanonicalComputeKeys (res_compute glob)"
  let ?rs = "SortedNames (pj_regions pj)" and ?u = "newMeshCallerUniverse regional glob"
  let ?allowed = "\<lambda>s. fst (allowedFor ?u s scope ?rs)"
  have "snd (allowedFor ?u s scope ?rs) = []" if "s \<in> set (res_service res)" for s
  proof (cases "svc_mesh s")
    case None
    then show ?thesis by (simp add: allowedFor_def)
  next
    case (Some m)
    then show ?thesis by (rule no_dropped [OF ok l e that])
  qed
  then have nd: "dropped_callers res ?can ?u scope ?rs = []"
    by (auto simp: dropped_callers_def concat_eq_Nil_conv in_host)
  let ?ms = "meshTargets res glob ?can ?gcan scope (scope = ScopeGlobal)"
  obtain ts where ts: "target_ips (out scope) (out ScopeGlobal) ?ms = Inr ts"
    using target_ips_ok [of ?ms "out ScopeGlobal" "out scope"] route_ready [OF _ out] by blast
  note rows = target_ips_rows [OF ts]
  have ips: "\<forall>(t, ip)\<in>set ts. ip \<noteq> []"
  proof (clarify)
    fix t assume t: "(t, []) \<in> set ts"
    then have "t \<in> set ?ms" unfolding rows [THEN conjunct1, symmetric] by force
    from route_ready [OF this out] show False using rows [THEN conjunct2] t by (fastforce split: if_splits)
  qed
  define pl where "pl = (if UnionHostKeys res ?can = [] then \<lparr>mp_hosts = [], mp_inputs = Map.empty, mp_targets = []\<rparr>
     else \<lparr>mp_hosts = UnionHostKeys res ?can, mp_inputs = meshInputsByHost res ?can scope ?allowed, mp_targets = ts\<rparr>)"
  have plan: "mesh_plan_of res regional glob (out scope) (out ScopeGlobal) scope ?rs = Inr pl"
    by (simp add: mesh_plan_of_def Let_def nd ts pl_def)
  have "\<exists>http. realize_mesh_host pl (out scope) scope h = Inr http" if h: "h \<in> set (UnionHostKeys res ?can)" for h
  proof -
    have p: "mp_inputs pl = meshInputsByHost res ?can scope ?allowed" "mp_targets pl = ts" using h by (auto simp: pl_def)
    obtain x where x: "out scope h = Some x" "co_private x \<noteq> []"
      using out(1) union_host [OF h] by (auto simp: outputs_ready_def)
    obtain mts where mts: "fill_targets h ts = Inr mts" using fill_targets_ok [OF ips] by blast
    let ?mh = "case meshInputsByHost res ?can scope ?allowed h of None \<Rightarrow> \<lparr>mh_local = [], mh_egress = []\<rparr> | Some mh \<Rightarrow> mh"
    let ?c = "\<lparr>mc_listen = if scope = ScopeGlobal then ''0.0.0.0'' else co_private x, mc_bundle = BundlePath,
       mc_local = mh_local ?mh, mc_egress = mh_egress ?mh, mc_targets = mts\<rparr>"
    have c: "mesh_config_of pl (out scope) scope h = Inr ?c"
      by (simp add: mesh_config_of_def p x mts Let_def)
    have "\<forall>s\<in>set (mh_local ?mh). \<exists>rs. local_regexes s = Inr rs"
      using callee_rows [OF ok l e, of _ scope ?allowed]
      by (auto simp: meshInputsByHost_def Let_def in_host split: option.splits if_splits)
    from ingress_ok [OF this paths_ne(4)] obtain ing where ing: "ingressDirectives (mc_local ?c) (mc_listen ?c) (mc_bundle ?c) = Inr ing"
      by fastforce
    have "mr_sni (fst x) \<noteq> []" if "x \<in> set ts" for x
    proof -
      have "fst x \<in> set ?ms" using that unfolding rows [THEN conjunct1, symmetric] by simp
      then show ?thesis by (rule route_sni)
    qed
    then have "\<forall>t\<in>set mts. mt_addr t \<noteq> [] \<and> mt_sni t \<noteq> []"
      unfolding fill_targets_rows [OF mts] by auto
    moreover have "\<forall>e\<in>set (mh_egress ?mh). ec_port e \<ge> 1 \<and> ec_cert e \<noteq> [] \<and> ec_key e \<noteq> []"
      using egress_rows [of _ _ res ?can scope ?allowed h] by (auto split: option.splits)
    ultimately obtain egr where egr: "egressDirectives (mh_egress ?mh) mts BundlePath = Inr egr"
      using egress_ok [OF _ _ paths_ne(4)] by blast
    have "mesh_http ?c = Inr (upgrade_map # ing @ egr)"
      using ing egr x(2) by (simp add: mesh_http_def)
    then show ?thesis by (simp add: realize_mesh_host_def c)
  qed
  then show ?thesis using plan by (auto simp: pl_def)
qed

subsection \<open>Properties\<close>

text \<open>C18: When an environment is accepted and its computes have their addresses, the mesh plan of every
  scope succeeds without dropping a caller, and the configuration of every mesh host renders.\<close>

theorem mesh_renders:
  assumes "ValidateResources exists resolve defaults bucket pj = None"
    and "loadResourceSet resolve (pj_regional_set pj) = Some regional" "loadResourceSet resolve (pj_global_set pj) = Some glob"
    and "env_scope pj regional glob scope res"
    and "outputs_ready res (out scope)" "outputs_ready glob (out ScopeGlobal)"
  shows "\<exists>pl. mesh_plan_of res regional glob (out scope) (out ScopeGlobal) scope (SortedNames (pj_regions pj)) = Inr pl
     \<and> mp_hosts pl = UnionHostKeys res (CanonicalComputeKeys (res_compute res))
     \<and> (\<forall>h\<in>set (mp_hosts pl). \<exists>http. realize_mesh_host pl (out scope) scope h = Inr http)"
  by (rule scope_renders [OF assms])

subsection \<open>The example environment\<close>

definition mx_none :: resources where "mx_none = specs_of (rw_files ex_no_raw)"

definition mx_out :: "string \<Rightarrow> string \<rightharpoonup> compute_outputs" where
  "mx_out = (\<lambda>_. [''web-01'' \<mapsto> \<lparr>co_public = ''192.0.2.7'', co_private = ''10.0.1.5''\<rparr>])"

lemma mx_facts:
  "env_scope ex_project (specs_of ex_fs) mx_none ''us-east-1'' (specs_of ex_fs)"
  "outputs_ready (specs_of ex_fs) (mx_out ''us-east-1'')" "outputs_ready mx_none (mx_out ScopeGlobal)"
  "loadResourceSet ex_resolve (pj_regional_set ex_project) = Some (specs_of ex_fs)"
  "loadResourceSet ex_resolve (pj_global_set ex_project) = Some mx_none"
  "SortedNames (pj_regions ex_project) = [''us-east-1'']"
  by (simp_all add: env_scope_def SortedNames_def ex_project_def ScopeGlobal_def outputs_ready_def gx_canon_eq mx_out_def
      ex_project_sel ex_loads mx_none_def ran_def)
     (simp_all add: ex_nothing CanonicalComputeKeys_def)

lemma mx_rendered:
  "\<exists>pl http. mesh_plan_of (specs_of ex_fs) (specs_of ex_fs) mx_none (mx_out ''us-east-1'') (mx_out ScopeGlobal) ''us-east-1''
        [''us-east-1''] = Inr pl \<and> realize_mesh_host pl (mx_out ''us-east-1'') ''us-east-1'' ''web-01'' = Inr http"
  if plan: "\<exists>pl. mesh_plan_of (specs_of ex_fs) (specs_of ex_fs) mx_none (mx_out ''us-east-1'') (mx_out ScopeGlobal) ''us-east-1''
        (SortedNames (pj_regions ex_project)) = Inr pl
     \<and> mp_hosts pl = UnionHostKeys (specs_of ex_fs) (CanonicalComputeKeys (res_compute (specs_of ex_fs)))
     \<and> (\<forall>h\<in>set (mp_hosts pl). \<exists>http. realize_mesh_host pl (mx_out ''us-east-1'') ''us-east-1'' h = Inr http)"
proof -
  have "''web-01'' \<in> set (UnionHostKeys (specs_of ex_fs) gx_canon)"
    by (simp add: UnionHostKeys_def HostKeys_def mesh_host_of_def gx_res ex_sel)
  moreover obtain pl where pl: "mesh_plan_of (specs_of ex_fs) (specs_of ex_fs) mx_none (mx_out ''us-east-1'') (mx_out ScopeGlobal)
      ''us-east-1'' (SortedNames (pj_regions ex_project)) = Inr pl" "mp_hosts pl = UnionHostKeys (specs_of ex_fs) gx_canon"
      "\<forall>h\<in>set (mp_hosts pl). \<exists>http. realize_mesh_host pl (mx_out ''us-east-1'') ''us-east-1'' h = Inr http"
    using plan unfolding gx_canon_eq by (elim exE conjE)
  ultimately obtain http where "realize_mesh_host pl (mx_out ''us-east-1'') ''us-east-1'' ''web-01'' = Inr http" by metis
  then show ?thesis using pl(1) unfolding mx_facts(6) by blast
qed

lemma mx_host: "ex_api \<in> set (ServicesByHost (specs_of ex_fs) gx_canon ''web-01'')"
  "ex_worker \<in> set (ServicesByHost (specs_of ex_fs) gx_canon ''web-01'')"
  "distinct (map (allowVar \<circ> svc_name) (ServicesByHost (specs_of ex_fs) gx_canon ''web-01''))"
proof -
  show "ex_api \<in> set (ServicesByHost (specs_of ex_fs) gx_canon ''web-01'')"
    "ex_worker \<in> set (ServicesByHost (specs_of ex_fs) gx_canon ''web-01'')"
    by (simp_all add: in_host gx_res ex_sel)
  have "allowVar ''api'' \<noteq> allowVar ''worker''" by code_simp
  then show "distinct (map (allowVar \<circ> svc_name) (ServicesByHost (specs_of ex_fs) gx_canon ''web-01''))"
    unfolding ServicesByHost_def distinct_map_sort by (simp add: gx_res mesh_host_of_def ex_sel)
qed

lemma mx_names:
  "ScopeGlobal \<notin> set (SortedNames (pj_regions ex_project))" "\<forall>r\<in>set (SortedNames (pj_regions ex_project)). no_tilde r"
  "\<forall>s\<in>set (res_service (specs_of ex_fs)) \<union> set (res_service mx_none). mesh_name (svc_name s)"
proof -
  show "ScopeGlobal \<notin> set (SortedNames (pj_regions ex_project))" "\<forall>r\<in>set (SortedNames (pj_regions ex_project)). no_tilde r"
    by (simp_all add: mx_facts ScopeGlobal_def no_tilde_def)
  have "mesh_name ''api''" "mesh_name ''worker''" by code_simp+
  then show "\<forall>s\<in>set (res_service (specs_of ex_fs)) \<union> set (res_service mx_none). mesh_name (svc_name s)"
    by (simp add: gx_res ex_sel mx_none_def ex_nothing)
qed

theorem mesh_renders_witness:
  "\<exists>pl http. mesh_plan_of (specs_of ex_fs) (specs_of ex_fs) mx_none (mx_out ''us-east-1'') (mx_out ScopeGlobal) ''us-east-1''
        [''us-east-1''] = Inr pl \<and> realize_mesh_host pl (mx_out ''us-east-1'') ''us-east-1'' ''web-01'' = Inr http"
  by (rule mx_rendered, rule mesh_renders [OF ex_accepted mx_facts(4,5,1,2,3)])

text \<open>The worker of the example calls the API of its host.\<close>

theorem mesh_call_witness:
  "\<exists>http srv. srv \<in> set http \<and> dir ''server_name'' [DNSName ''us-east-1'' ''api''] \<in> set (children_of srv)
     \<and> serve path_rx (map_vars http (\<lambda>v. if v = ''$ssl_client_s_dn'' then ''CN=us-east-1/worker'' else [])) srv ''/api/7''
        = Proxied ''http://127.0.0.1:9002'' proxied_headers"
proof -
  let ?vars = "\<lambda>v. if v = ''$ssl_client_s_dn'' then ''CN=us-east-1/worker'' else []"
  let ?cvars = "\<lambda>v. if v = ''$http_x_mesh_target'' then ''api'' else []"
  obtain pl http where p: "mesh_plan_of (specs_of ex_fs) (specs_of ex_fs) mx_none (mx_out ''us-east-1'') (mx_out ScopeGlobal) ''us-east-1''
        (SortedNames (pj_regions ex_project)) = Inr pl" and h: "realize_mesh_host pl (mx_out ''us-east-1'') ''us-east-1'' ''web-01'' = Inr http"
    using mx_rendered [OF scope_renders [OF ex_accepted mx_facts(4,5,1,2,3)]] unfolding mx_facts by blast
  have rq: "prefix ''/'' ''/api/7''" "?cvars ''$http_x_mesh_target'' = svc_name ex_api"
    "cn_of (?vars ''$ssl_client_s_dn'') = Some (''us-east-1'' @ ''/'' @ svc_name ex_worker)"
    by (simp_all add: ex_sel cn_of_def)
  have "case Parse ''/api/**'' of Inr p \<Rightarrow> Matches p ''/api/7'' | _ \<Rightarrow> False" by code_simp
  then have glob: "\<exists>p. Parse ''/api/**'' = Inr p \<and> Matches p ''/api/7''" by (auto split: sum.splits)
  have url: "''http://127.0.0.1:'' @ Itoa 9002 = ''http://127.0.0.1:9002''"
    by (simp add: Itoa_def itoa.simps digit_def) code_simp
  have "\<exists>srv. srv \<in> set http \<and> dir ''server_name'' [DNSName ''us-east-1'' ''api''] \<in> set (children_of srv)
     \<and> serve path_rx (map_vars http ?vars) srv ''/api/7'' = Proxied (''http://127.0.0.1:'' @ Itoa 9002) proxied_headers"
    using mesh_call [where vars = ?vars and cvars = ?cvars and rx = path_rx, OF ex_accepted mx_facts(4,5) mx_names mx_facts(1,1) _ p p h h
      _ _ _ _ rq, unfolded gx_canon_eq, OF _ mx_host(1) _ mx_host(2,3), of "the (svc_mesh ex_api)"] glob
    by (auto simp: ex_sel)
  then show ?thesis unfolding url by blast
qed

end
