(* ===== verification/DeployFacts.thy ===== *)
theory DeployFacts
  imports DeployDesc MeshLive
begin

text \<open>
  The descriptors of an accepted environment: which targets a release resolves to, and whether the
  name it connects to is the name of a DNS record of the host.
\<close>

subsection \<open>Rows\<close>

lemma region_rows_ok:
  "set rs \<subseteq> fst ` set table \<Longrightarrow> region_rows table rows rs = Inr (concat (map (\<lambda>r. rows (the (region_Slug table r)) r) rs))"
proof (induction rs)
  case (Cons r rs)
  then have "\<exists>a. map_of table r = Some a" by (metis insert_subset list.simps(15) map_of_eq_None_iff not_None_eq)
  then obtain slug where "region_Slug table r = Some slug" by (auto simp: region_Slug_def)
  then show ?case using Cons by simp
qed simp

lemma scoped_rows_ok:
  "scoped_rows table rows regional glob =
     Inr (concat (map (\<lambda>r. rows regional (the (region_Slug table r)) r) (SortedNames table)) @ rows glob [] ScopeGlobal)"
proof -
  have "set (SortedNames table) \<subseteq> fst ` set table" by (simp add: SortedNames_def)
  from region_rows_ok [OF this, of "rows regional"] show ?thesis by (simp add: scoped_rows_def)
qed

lemma filter_named: "distinct (map f xs) \<Longrightarrow> x \<in> set xs \<Longrightarrow> filter (\<lambda>y. f y = f x) xs = [x]"
  by (induction xs) (auto simp: filter_empty_conv, metis image_eqI)

lemma filter_missing: "n \<notin> f ` set xs \<Longrightarrow> filter (\<lambda>y. f y = n) xs = []"
  by (auto simp: filter_empty_conv)

lemma service_row_filter:
  "filter (\<lambda>t. dt_service t = n) (service_rows env base res slug scope)
     = map (service_target env base res slug scope) (filter (\<lambda>s. svc_name s = n) (res_service res))"
  by (simp add: service_rows_def filter_map comp_def service_target_def)

lemma rows_of_name:
  fixes table
  defines "slug \<equiv> \<lambda>r. the (region_Slug table r)"
  shows "filter (\<lambda>t. dt_service t = n) (concat (map (\<lambda>r. service_rows env base regional (slug r) r) (SortedNames table))
        @ service_rows env base glob [] ScopeGlobal)
     = concat (map (\<lambda>r. map (service_target env base regional (slug r) r) (filter (\<lambda>s. svc_name s = n) (res_service regional)))
         (SortedNames table))
       @ map (service_target env base glob [] ScopeGlobal) (filter (\<lambda>s. svc_name s = n) (res_service glob))"
  by (simp add: filter_concat comp_def service_row_filter)

text \<open>The targets of a release: one for every region, or one for a global service.  A region that is
  itself named global beside another one makes the targets of a regional service look mixed.\<close>

definition region_shadows_global :: "region_table \<Rightarrow> bool" where
  "region_shadows_global table \<longleftrightarrow> ScopeGlobal \<in> set (SortedNames table) \<and> (\<exists>r\<in>set (SortedNames table). r \<noteq> ScopeGlobal)"

lemma release_resolves:
  assumes ok: "ValidateResources exists resolve defaults bucket pj = None"
    and l: "loadResourceSet resolve (pj_regional_set pj) = Some regional" "loadResourceSet resolve (pj_global_set pj) = Some glob"
  defines "table \<equiv> pj_regions pj"
  shows "\<exists>ts. BuildDeployDescriptor env base regional glob table = Inr ts
     \<and> (\<forall>s\<in>set (res_service regional). resolveDeployTargets env (Inr [''deployDescriptor'' \<mapsto> Inr ts]) (svc_name s)
          = (if region_shadows_global table then Inl (MixedScopes (svc_name s) env)
             else Inr (map (\<lambda>r. service_target env base regional (the (region_Slug table r)) r s) (SortedNames table))))
     \<and> (\<forall>s\<in>set (res_service glob). resolveDeployTargets env (Inr [''deployDescriptor'' \<mapsto> Inr ts]) (svc_name s)
          = Inr [service_target env base glob [] ScopeGlobal s])
     \<and> (\<forall>n. n \<notin> svc_name ` (set (res_service regional) \<union> set (res_service glob)) \<longrightarrow>
          resolveDeployTargets env (Inr [''deployDescriptor'' \<mapsto> Inr ts]) n = Inl (TargetNotFound n env))"
proof -
  have a: "accepted exists resolve defaults bucket pj glob regional" by (rule accepted_loads [OF ok l])
  have d: "distinct (map svc_name (res_service regional @ res_service glob))" by (rule accepted_names_distinct [OF a])
  have "table \<noteq> []" using a by (auto simp: accepted_def regions_messages_def table_def)
  then have ne: "SortedNames table \<noteq> []" by (metis SortedNames_def sort_key_nil map_is_Nil_conv)
  define ts where "ts = concat (map (\<lambda>r. service_rows env base regional (the (region_Slug table r)) r) (SortedNames table))
        @ service_rows env base glob [] ScopeGlobal"
  have b: "BuildDeployDescriptor env base regional glob table = Inr ts"
    by (simp add: BuildDeployDescriptor_def scoped_rows_ok ts_def)
  have f: "filter (\<lambda>t. dt_service t = n) ts = concat (map (\<lambda>r. map (service_target env base regional (the (region_Slug table r)) r)
        (filter (\<lambda>s. svc_name s = n) (res_service regional))) (SortedNames table))
       @ map (service_target env base glob [] ScopeGlobal) (filter (\<lambda>s. svc_name s = n) (res_service glob))" for n
    unfolding ts_def by (rule rows_of_name)
  have r: "resolveDeployTargets env (Inr [''deployDescriptor'' \<mapsto> Inr ts]) n
       = (if filter (\<lambda>t. dt_service t = n) ts = [] then Inl (TargetNotFound n env)
          else if hasMixedScope (filter (\<lambda>t. dt_service t = n) ts) dt_scope ScopeGlobal then Inl (MixedScopes n env)
          else Inr (filter (\<lambda>t. dt_service t = n) ts))" for n
    by (simp add: resolveDeployTargets_def resolve_targets_def resolveDescriptorTargets_def)
  have sc: "dt_scope (service_target env base res slug scope s) = scope" for res slug scope s by (simp add: service_target_def)
  have regional: "resolveDeployTargets env (Inr [''deployDescriptor'' \<mapsto> Inr ts]) (svc_name s)
          = (if region_shadows_global table then Inl (MixedScopes (svc_name s) env)
             else Inr (map (\<lambda>r. service_target env base regional (the (region_Slug table r)) r s) (SortedNames table)))"
    if s: "s \<in> set (res_service regional)" for s
  proof -
    have one: "filter (\<lambda>y. svc_name y = svc_name s) (res_service regional) = [s]" using filter_named d s by auto
    have none: "filter (\<lambda>y. svc_name y = svc_name s) (res_service glob) = []" using d s by (intro filter_missing) auto
    have m: "hasMixedScope (map (\<lambda>r. service_target env base regional (the (region_Slug table r)) r s) (SortedNames table)) dt_scope ScopeGlobal
        \<longleftrightarrow> region_shadows_global table"
      by (simp add: hasMixedScope_def list_ex_iff sc region_shadows_global_def)
    show ?thesis unfolding r f one none using ne m by simp
  qed
  have global: "resolveDeployTargets env (Inr [''deployDescriptor'' \<mapsto> Inr ts]) (svc_name s) = Inr [service_target env base glob [] ScopeGlobal s]"
    if s: "s \<in> set (res_service glob)" for s
  proof -
    have one: "filter (\<lambda>y. svc_name y = svc_name s) (res_service glob) = [s]" using filter_named d s by auto
    have none: "filter (\<lambda>y. svc_name y = svc_name s) (res_service regional) = []" using d s by (intro filter_missing) auto
    show ?thesis unfolding r f one none by (simp add: hasMixedScope_def sc list_ex_iff)
  qed
  have absent: "resolveDeployTargets env (Inr [''deployDescriptor'' \<mapsto> Inr ts]) n = Inl (TargetNotFound n env)"
    if "n \<notin> svc_name ` (set (res_service regional) \<union> set (res_service glob))" for n
  proof -
    have "filter (\<lambda>y. svc_name y = n) (res_service regional) = []" "filter (\<lambda>y. svc_name y = n) (res_service glob) = []"
      using that by (auto intro!: filter_missing)
    then show ?thesis unfolding r f by simp
  qed
  show ?thesis using b regional global absent by blast
qed

subsection \<open>Host names\<close>

lemma HostFQDN_inj: "HostFQDN env slug a base = HostFQDN env slug b base \<longleftrightarrow> a = b"
  by (simp add: HostFQDN_def RecordFQDN_def RecordName_def)

lemma bare_id: "BareComputeName k = k \<longleftrightarrow> CHR ''-'' \<notin> set (tl k)"
proof (cases k)
  case Nil
  then show ?thesis by (simp add: BareComputeName_def last_index_def)
next
  case (Cons c cs)
  show ?thesis
  proof (cases "CHR ''-'' \<in> set cs")
    case True
    then obtain a b where cs: "cs = a @ CHR ''-'' # b" "CHR ''-'' \<notin> set b" by (meson split_list_last)
    have "last_index CHR ''-'' ((c # a) @ CHR ''-'' # b) = Some (length (c # a))" by (rule last_index_append [OF cs(2)])
    then show ?thesis by (simp add: BareComputeName_def Cons cs(1))
  next
    case False
    have "BareComputeName k = k"
    proof (cases "c = CHR ''-''")
      case True
      then have "last_index CHR ''-'' ([] @ CHR ''-'' # cs) = Some 0" using False last_index_append [of "CHR ''-''" cs "[]"] by simp
      then show ?thesis using True by (simp add: BareComputeName_def Cons)
    next
      case no: False
      then show ?thesis using False by (simp add: BareComputeName_def last_index_def Cons)
    qed
    then show ?thesis using False Cons by simp
  qed
qed

lemma compute_names_fold: "cx_computeNames (fold ctx_compute cs c) n \<longleftrightarrow> cx_computeNames c n \<or> n \<in> cmp_name ` set cs"
proof (induction cs arbitrary: c)
  case (Cons x cs)
  have inst: "cx_computeNames (fold (ctx_instance x) is c) = cx_computeNames c" for "is" c
    by (rule fold_field) (simp add: ctx_instance_def Let_def)
  have one: "cx_computeNames (ctx_instance x i c) = cx_computeNames c" for i c by (simp add: ctx_instance_def Let_def)
  have "cx_computeNames (ctx_compute x c) n \<longleftrightarrow> cx_computeNames c n \<or> n = cmp_name x"
    by (auto simp: ctx_compute_def Let_def inst one set_true_def)
  then show ?case using Cons by auto
qed simp

lemma context_computes:
  assumes "cx_computeNames (build_ctx vi fs) n"
  shows "n \<in> cmp_name ` set (all_specs (fs_compute fs))"
proof -
  have net: "cx_computeNames (fold ctx_network ns c) = cx_computeNames c" for ns c
    by (rule fold_field) (simp add: ctx_network_def)
  have cal: "cx_computeNames (ctx_callers sib gl c) = cx_computeNames c" for sib gl c
    by (auto simp: ctx_callers_def Let_def split_def fold_keeps split: option.splits)
  have "cx_computeNames (start_ctx vi fs) n"
    using assms ctx_le_same [OF start_build [of vi fs]] by (simp add: same_base_def)
  then show ?thesis
    by (simp add: start_ctx_def ctx_base_def Let_def fold_keeps compute_names_fold net cal empty_ctx_def)
qed

text \<open>The record of a compute, and the hosts of a set whose computes have one instance each.\<close>

lemma compute_record:
  "c \<in> set (res_compute res) \<Longrightarrow>
     (HostFQDN (sn_env sn) (sn_slug sn) (cmp_name c) (sn_base sn), cmp_container c, SpecKey (cmp_name c) 1) \<in> set (record_names res sn)"
  by (auto simp: record_names_def Let_def)

lemma single_host:
  assumes "\<forall>c\<in>set (res_compute res). cmp_instances c = 1 \<and> cmp_name c \<noteq> []" "h \<in> ran (CanonicalComputeKeys (res_compute res))"
  obtains c where "c \<in> set (res_compute res)" "h = SpecKey (cmp_name c) 1" "BareComputeName h = cmp_name c"
proof -
  obtain k where "CanonicalComputeKeys (res_compute res) k = Some h" using assms(2) by (auto simp: ran_def)
  from canonical_range [OF this] obtain c i where c: "c \<in> set (res_compute res)" "i \<in> {1..cmp_instances c}" "h = SpecKey (cmp_name c) i" by blast
  then have "h = SpecKey (cmp_name c) 1" using assms(1) by auto
  with c(1) assms(1) that show thesis by (metis BareComputeName_SpecKey)
qed

lemma db_row:
  assumes "t \<in> set (db_rows env base res slug scope)"
  obtains c h where "c \<in> set (res_cluster res)" "CanonicalComputeKeys (res_compute res) (cl_host c) = Some h" "dbt_cluster t = cl_name c"
    "dbt_host_dns t = HostFQDN env slug (BareComputeName h) base"
proof -
  obtain c where c: "c \<in> set (res_cluster res)" and t: "t \<in> set (case CanonicalComputeKeys (res_compute res) (cl_host c) of
      None \<Rightarrow> [] | Some h \<Rightarrow> map (\<lambda>d. \<lparr>dbt_cluster = cl_name c, dbt_database = db_database d,
              dbt_host_dns = HostFQDN env slug (BareComputeName h) base,
              dbt_ssh_user = ssh_user (DeployUsersByHost (res_compute res)) h,
              dbt_port = (case clusterPortsByHost res (CanonicalComputeKeys (res_compute res)) h (cl_name c) of None \<Rightarrow> 0 | Some p \<Rightarrow> p),
              dbt_region_slug = (if slug = [] then ''global'' else slug),
              dbt_backup = (bk_enabled (db_backup d) = None \<or> bk_enabled (db_backup d) = Some True)\<rparr>)
             (databasesOfCluster res (cl_name c)))"
    using assms unfolding db_rows_def Let_def set_concat set_map UN_iff image_image by blast
  show thesis
  proof (cases "CanonicalComputeKeys (res_compute res) (cl_host c)")
    case None
    then show ?thesis using t by simp
  next
    case (Some h)
    have "dbt_cluster t = cl_name c \<and> dbt_host_dns t = HostFQDN env slug (BareComputeName h) base"
      using t unfolding Some option.case by (auto split del: option.split)
    then show ?thesis using that [OF c Some] by blast
  qed
qed

text \<open>What a release of a service connects to, against the record of the service's host.\<close>

definition service_host_named :: "resources \<Rightarrow> scope_names \<Rightarrow> string \<Rightarrow> service_spec \<Rightarrow> bool" where
  "service_host_named res sn scope s \<longleftrightarrow>
     (let name = (\<lambda>c. HostFQDN (sn_env sn) (sn_slug sn) c (sn_base sn));
          target = dt_host_dns (service_target (sn_env sn) (sn_base sn) res (sn_slug sn) scope s) in
      (\<exists>k. (name (svc_host s), k, SpecKey (svc_host s) 1) \<in> set (record_names res sn))
      \<and> (target = name (svc_host s) \<longleftrightarrow> CHR ''-'' \<notin> set (tl (svc_host s)))
      \<and> target = name (BareComputeName (svc_host s))
      \<and> (target \<in> name ` cmp_name ` set (res_compute res) \<longleftrightarrow> BareComputeName (svc_host s) \<in> cmp_name ` set (res_compute res)))"

lemma service_named:
  assumes "c \<in> set (res_compute res)" "cmp_name c = svc_host s"
  shows "service_host_named res sn scope s"
proof -
  have t: "dt_host_dns (service_target (sn_env sn) (sn_base sn) res (sn_slug sn) scope s)
      = HostFQDN (sn_env sn) (sn_slug sn) (BareComputeName (svc_host s)) (sn_base sn)"
    by (simp add: service_target_def hostDNS_def computeName_def)
  have "inj (\<lambda>c. HostFQDN (sn_env sn) (sn_slug sn) c (sn_base sn))" by (simp add: inj_on_def HostFQDN_inj)
  then have i: "HostFQDN (sn_env sn) (sn_slug sn) x (sn_base sn)
      \<in> (\<lambda>c. HostFQDN (sn_env sn) (sn_slug sn) c (sn_base sn)) ` A \<longleftrightarrow> x \<in> A" for x A
    by (rule inj_image_mem_iff)
  have "(HostFQDN (sn_env sn) (sn_slug sn) (svc_host s) (sn_base sn), cmp_container c, SpecKey (svc_host s) 1) \<in> set (record_names res sn)"
    using compute_record [OF assms(1), of sn] unfolding assms(2) .
  then show ?thesis unfolding service_host_named_def Let_def t i HostFQDN_inj bare_id by blast
qed

subsection \<open>Properties\<close>

text \<open>C19: In an accepted environment a service name resolves to exactly its targets: one in every region,
  in the order of the names, for a regional service, a single one for a global service, and an error
  for any other name.  The mixed-scope error occurs for a regional service exactly when one region of
  several is named global, and never for a global one.\<close>

theorem release_targets:
  assumes "ValidateResources exists resolve defaults bucket pj = None"
    and "loadResourceSet resolve (pj_regional_set pj) = Some regional" "loadResourceSet resolve (pj_global_set pj) = Some glob"
  shows "\<exists>ts. BuildDeployDescriptor env base regional glob (pj_regions pj) = Inr ts
     \<and> (\<forall>s\<in>set (res_service regional). resolveDeployTargets env (Inr [''deployDescriptor'' \<mapsto> Inr ts]) (svc_name s)
          = (if region_shadows_global (pj_regions pj) then Inl (MixedScopes (svc_name s) env)
             else Inr (map (\<lambda>r. service_target env base regional (the (region_Slug (pj_regions pj) r)) r s) (SortedNames (pj_regions pj)))))
     \<and> (\<forall>s\<in>set (res_service glob). resolveDeployTargets env (Inr [''deployDescriptor'' \<mapsto> Inr ts]) (svc_name s)
          = Inr [service_target env base glob [] ScopeGlobal s])
     \<and> (\<forall>n. n \<notin> svc_name ` (set (res_service regional) \<union> set (res_service glob)) \<longrightarrow>
          resolveDeployTargets env (Inr [''deployDescriptor'' \<mapsto> Inr ts]) n = Inl (TargetNotFound n env))"
  by (rule release_resolves [OF assms])

text \<open>C20: In an accepted environment a scope whose computes are named and have one instance each gives
  every target of the mesh descriptor, and every database target, the name of the DNS record of its host.
  The host of a service has a record too, under the name of the compute; the service's own target has that
  name exactly when the compute's name has no hyphen after its first character.  Otherwise it has the name
  cut at the last hyphen, which is the name of a compute of the scope only when another compute is called
  that.\<close>

theorem descriptor_dns:
  assumes "ValidateResources exists resolve defaults bucket pj = None"
    and "loadResourceSet resolve (pj_regional_set pj) = Some regional" "loadResourceSet resolve (pj_global_set pj) = Some glob"
    and "env_scope pj regional glob scope res"
  shows "((\<forall>c\<in>set (res_compute res). cmp_instances c = 1 \<and> cmp_name c \<noteq> []) \<longrightarrow>
        (\<forall>t\<in>set (mesh_rows (sn_env sn) (sn_base sn) res (sn_slug sn) scope). \<exists>k. (mht_host_dns t, k, mht_host t) \<in> set (record_names res sn))
      \<and> (\<forall>t\<in>set (db_rows (sn_env sn) (sn_base sn) res (sn_slug sn) scope). \<exists>k h. (dbt_host_dns t, k, h) \<in> set (record_names res sn)
         \<and> (\<exists>c\<in>set (res_cluster res). cl_name c = dbt_cluster t \<and> CanonicalComputeKeys (res_compute res) (cl_host c) = Some h)))
    \<and> (\<forall>s\<in>set (res_service res). service_host_named res sn scope s)"
proof (intro conjI impI ballI)
  fix t assume one: "\<forall>c\<in>set (res_compute res). cmp_instances c = 1 \<and> cmp_name c \<noteq> []"
    and "t \<in> set (mesh_rows (sn_env sn) (sn_base sn) res (sn_slug sn) scope)"
  then have t: "mht_host t \<in> ran (CanonicalComputeKeys (res_compute res))"
    "mht_host_dns t = HostFQDN (sn_env sn) (sn_slug sn) (BareComputeName (mht_host t)) (sn_base sn)"
    using union_host by (auto simp: mesh_rows_def)
  from single_host [OF one t(1)] obtain c where "c \<in> set (res_compute res)" "mht_host t = SpecKey (cmp_name c) 1"
    "BareComputeName (mht_host t) = cmp_name c" .
  then show "\<exists>k. (mht_host_dns t, k, mht_host t) \<in> set (record_names res sn)" using compute_record [of c res sn] t(2) by auto
next
  fix t assume one: "\<forall>c\<in>set (res_compute res). cmp_instances c = 1 \<and> cmp_name c \<noteq> []"
    and t0: "t \<in> set (db_rows (sn_env sn) (sn_base sn) res (sn_slug sn) scope)"
  from t0 obtain c h where c: "c \<in> set (res_cluster res)" "CanonicalComputeKeys (res_compute res) (cl_host c) = Some h" "dbt_cluster t = cl_name c"
    and t: "dbt_host_dns t = HostFQDN (sn_env sn) (sn_slug sn) (BareComputeName h) (sn_base sn)"
    by (rule db_row)
  have "h \<in> ran (CanonicalComputeKeys (res_compute res))" using c(2) by (rule ranI)
  from single_host [OF one this] obtain x where "x \<in> set (res_compute res)" "h = SpecKey (cmp_name x) 1"
    "BareComputeName h = cmp_name x" .
  then show "\<exists>k h. (dbt_host_dns t, k, h) \<in> set (record_names res sn)
         \<and> (\<exists>c\<in>set (res_cluster res). cl_name c = dbt_cluster t \<and> CanonicalComputeKeys (res_compute res) (cl_host c) = Some h)"
    using compute_record [of x res sn] t c by metis
next
  fix s assume s: "s \<in> set (res_service res)"
  obtain vi fs where fs: "(vi, fs) \<in> set (scopes_of resolve defaults bucket pj)" "res = specs_of fs"
    by (rule scope_in_env [OF accepted_loads [OF assms(1,2,3)] assms(4)])
  have ok: "service_ok (build_ctx vi fs) s"
    using scope_okD [OF validated_ok [OF assms(1) fs(1)]] s validated_specs(1) [OF assms(1) fs(1)] fs(2) by simp
  have "cx_computeNames (build_ctx vi fs) (svc_host s)"
    using service_host(1) [OF ok] by (simp add: canonicalHost_def split: if_splits)
  then obtain c where "c \<in> set (res_compute res)" "cmp_name c = svc_host s"
    using context_computes by (fastforce simp: fs(2) specs_of_def)
  then show "service_host_named res sn scope s" by (rule service_named)
qed

subsection \<open>The example environment\<close>

theorem release_targets_witness:
  "\<exists>ts. BuildDeployDescriptor ''prd'' ''ex.io'' (specs_of ex_fs) mx_none (pj_regions ex_project) = Inr ts
     \<and> resolveDeployTargets ''prd'' (Inr [''deployDescriptor'' \<mapsto> Inr ts]) ''api''
          = Inr [service_target ''prd'' ''ex.io'' (specs_of ex_fs) ''use1'' ''us-east-1'' ex_api]
     \<and> resolveDeployTargets ''prd'' (Inr [''deployDescriptor'' \<mapsto> Inr ts]) ''nope'' = Inl (TargetNotFound ''nope'' ''prd'')"
proof -
  have slug: "the (region_Slug (pj_regions ex_project) ''us-east-1'') = ''use1''" by (simp add: region_Slug_def ex_project_def)
  have alone: "\<not> region_shadows_global (pj_regions ex_project)"
    using mx_names(1) by (simp add: region_shadows_global_def)
  from release_targets [OF ex_accepted mx_facts(4,5), of "''prd''" "''ex.io''"]
  obtain ts where ts: "BuildDeployDescriptor ''prd'' ''ex.io'' (specs_of ex_fs) mx_none (pj_regions ex_project) = Inr ts"
    "\<forall>s\<in>set (res_service (specs_of ex_fs)). resolveDeployTargets ''prd'' (Inr [''deployDescriptor'' \<mapsto> Inr ts]) (svc_name s)
       = Inr (map (\<lambda>r. service_target ''prd'' ''ex.io'' (specs_of ex_fs) (the (region_Slug (pj_regions ex_project) r)) r s) [''us-east-1''])"
    "\<forall>n. n \<notin> svc_name ` (set (res_service (specs_of ex_fs)) \<union> set (res_service mx_none)) \<longrightarrow>
          resolveDeployTargets ''prd'' (Inr [''deployDescriptor'' \<mapsto> Inr ts]) n = Inl (TargetNotFound n ''prd'')"
    unfolding mx_facts(6) if_not_P [OF alone] by blast
  have nope: "''nope'' \<notin> svc_name ` (set (res_service (specs_of ex_fs)) \<union> set (res_service mx_none))"
    by (simp add: gx_res mx_none_def ex_nothing ex_sel)
  have api: "ex_api \<in> set (res_service (specs_of ex_fs))" by (simp add: gx_res)
  note a = bspec [OF ts(2) api, unfolded slug list.map ex_api_sel(1)]
  note n = mp [OF spec [OF ts(3)] nope]
  from ts(1) a n show ?thesis by (intro exI conjI)
qed

theorem descriptor_dns_witness:
  "dt_host_dns (service_target (sn_env gx_names) (sn_base gx_names) (specs_of ex_fs) (sn_slug gx_names) ''us-east-1'' ex_api)
     = HostFQDN (sn_env gx_names) (sn_slug gx_names) ''web'' (sn_base gx_names)"
proof -
  have api: "ex_api \<in> set (res_service (specs_of ex_fs))" by (simp add: gx_res)
  have host: "svc_host ex_api = ''web''" by (simp add: ex_sel)
  have hyphen: "CHR ''-'' \<notin> set (tl (svc_host ex_api))" unfolding host by simp
  have "service_host_named (specs_of ex_fs) gx_names ''us-east-1'' ex_api"
    by (rule bspec [OF descriptor_dns [OF ex_accepted mx_facts(4,5,1), of gx_names, THEN conjunct2] api])
  then show ?thesis using hyphen unfolding service_host_named_def Let_def host by blast
qed

end
