(* ===== verification/PathClean.thy ===== *)
theory PathClean
  imports Prelude
begin

text \<open>
  Lexical paths: \<open>filepath.Clean\<close>, \<open>Dir\<close> and \<open>Join\<close> of the Go standard library for the separator
  \<open>/\<close>, on the components of a path.  \<open>comps\<close> is the list of names that the kernel walks.
\<close>

subsection \<open>The functions\<close>

text \<open>The components seen so far are kept in reverse.\<close>

definition clean_comp :: "bool \<Rightarrow> string \<Rightarrow> string list \<Rightarrow> string list" where
  "clean_comp rooted c st =
     (if c = [] \<or> c = ''.'' then st
      else if c = ''..'' then
        (case st of
           [] \<Rightarrow> if rooted then [] else [''..'']
         | x # xs \<Rightarrow> if x = ''..'' then ''..'' # st else xs)
      else c # st)"

definition is_rooted :: "string \<Rightarrow> bool" where
  "is_rooted p \<longleftrightarrow> prefix ''/'' p"

definition clean_comps :: "string \<Rightarrow> string list" where
  "clean_comps p = rev (fold (clean_comp (is_rooted p)) (split_on CHR ''/'' p) [])"

definition render_path :: "bool \<Rightarrow> string list \<Rightarrow> string" where
  "render_path rooted cs =
     (if rooted then ''/'' @ join ''/'' cs else if cs = [] then ''.'' else join ''/'' cs)"

definition path_Clean :: "string \<Rightarrow> string" where
  "path_Clean p = render_path (is_rooted p) (clean_comps p)"

text \<open>What precedes the last separator, the separator included.\<close>

definition dir_part :: "string \<Rightarrow> string" where
  "dir_part p = rev (dropWhile (\<lambda>c. c \<noteq> CHR ''/'') (rev p))"

definition path_Dir :: "string \<Rightarrow> string" where
  "path_Dir p = path_Clean (dir_part p)"

definition path_Join :: "string \<Rightarrow> string \<Rightarrow> string" where
  "path_Join a b =
     (if a \<noteq> [] then path_Clean (a @ ''/'' @ b)
      else if b \<noteq> [] then path_Clean b
      else [])"

text \<open>The names that a path resolution visits, from the root.\<close>

definition comps :: "string \<Rightarrow> string list" where
  "comps p = filter (\<lambda>c. c \<noteq> []) (split_on CHR ''/'' p)"

subsection \<open>Clean paths\<close>

definition name_ok :: "string \<Rightarrow> bool" where
  "name_ok c \<longleftrightarrow> c \<noteq> [] \<and> c \<noteq> ''.'' \<and> c \<noteq> ''..'' \<and> CHR ''/'' \<notin> set c"

text \<open>A relative path may climb, at its start only.\<close>

definition clean_list :: "bool \<Rightarrow> string list \<Rightarrow> bool" where
  "clean_list r cs \<longleftrightarrow> (\<exists>k ns. cs = replicate k ''..'' @ ns \<and> (r \<longrightarrow> k = 0) \<and> list_all name_ok ns)"

abbreviation abs_path :: "string list \<Rightarrow> string" where
  "abs_path cs \<equiv> render_path True cs"

lemma clean_list_abs: "clean_list True cs \<longleftrightarrow> list_all name_ok cs"
  by (simp add: clean_list_def)

lemma clean_comp_name [simp]: "name_ok c \<Longrightarrow> clean_comp r c st = c # st"
  by (simp add: clean_comp_def name_ok_def)

lemma clean_comp_blank [simp]: "clean_comp r [] st = st"
  by (simp add: clean_comp_def)

lemma fold_clean_names: "list_all name_ok cs \<Longrightarrow> fold (clean_comp r) cs st = rev cs @ st"
  by (induction cs arbitrary: st) auto

lemma fold_climb: "fold (clean_comp False) (replicate k ''..'') (replicate j ''..'') = replicate (k + j) ''..''"
proof (induction k arbitrary: j)
  case (Suc k)
  have "clean_comp False ''..'' (replicate j ''..'') = replicate (Suc j) ''..''" by (cases j) (simp_all add: clean_comp_def)
  then show ?case using Suc [of "Suc j"] by simp
qed simp

lemma fold_clean_list: "clean_list r cs \<Longrightarrow> fold (clean_comp r) cs [] = rev cs"
proof -
  assume "clean_list r cs"
  then obtain k ns where h: "cs = replicate k ''..'' @ ns" "r \<longrightarrow> k = 0" "list_all name_ok ns"
    unfolding clean_list_def by blast
  have "fold (clean_comp r) (replicate k ''..'') [] = replicate k ''..''"
    using fold_climb [of k 0] h(2) by (cases r) (simp_all only: add_0_right replicate.simps fold_simps simp_thms)
  then show ?thesis unfolding h(1) by (simp only: fold_append comp_apply fold_clean_names [OF h(3)] rev_append rev_replicate)
qed

lemma clean_list_comp: "clean_list r cs \<Longrightarrow> c \<in> set cs \<Longrightarrow> c \<noteq> [] \<and> CHR ''/'' \<notin> set c"
proof -
  assume "clean_list r cs" and c: "c \<in> set cs"
  then obtain k ns where h: "cs = replicate k ''..'' @ ns" "list_all name_ok ns" unfolding clean_list_def by blast
  then have "c = ''..'' \<or> name_ok c" using c by (auto simp: list_all_iff split: if_splits)
  then show ?thesis by (elim disjE) (simp_all add: name_ok_def)
qed

lemma clean_list_butlast: "clean_list r cs \<Longrightarrow> clean_list r (butlast cs)"
  unfolding clean_list_def
proof (elim exE conjE)
  fix k ns assume h: "cs = replicate k ''..'' @ ns" "r \<longrightarrow> k = 0" "list_all name_ok ns"
  show "\<exists>k ns. butlast cs = replicate k ''..'' @ ns \<and> (r \<longrightarrow> k = 0) \<and> list_all name_ok ns"
  proof (cases "ns = []")
    case True
    then have "butlast cs = replicate (k - 1) ''..'' @ []" using h(1) replicate_append_same [of "k - 1" "''..''"] by (cases k) (simp, metis append_Nil2 butlast_snoc diff_Suc_1 replicate_Suc)
    then show ?thesis using h(2) by (intro exI [of _ "k - 1"] exI [of _ "[]"]) simp
  next
    case False
    then have "butlast cs = replicate k ''..'' @ butlast ns" using h(1) by (simp add: butlast_append)
    moreover have "list_all name_ok (butlast ns)" using h(3) by (auto simp: list_all_iff dest: in_set_butlastD)
    ultimately show ?thesis using h(2) by blast
  qed
qed

lemma clean_step_list:
  assumes "CHR ''/'' \<notin> set c" "clean_list r (rev st)"
  shows "clean_list r (rev (clean_comp r c st))"
proof (cases "c = ''..''")
  case True
  show ?thesis
  proof (cases st)
    case Nil
    then show ?thesis using True by (cases r) (auto simp: clean_comp_def clean_list_def intro: exI [of _ 1])
  next
    case (Cons x xs)
    have "clean_list r (rev xs)" using clean_list_butlast [OF assms(2)] by (simp add: Cons)
    moreover have "clean_list r (rev st @ [''..''])" if x: "x = ''..''"
    proof -
      obtain k ns where h: "rev st = replicate k ''..'' @ ns" "r \<longrightarrow> k = 0" "list_all name_ok ns"
        using assms(2) by (auto simp: clean_list_def)
      have "ns = []"
        using h(1,3) x by (cases ns rule: rev_cases) (auto simp: Cons name_ok_def)
      then have "rev st @ [''..''] = replicate (Suc k) ''..'' @ []" "k \<noteq> 0"
        using h(1) Cons by (simp_all add: replicate_append_same) (cases k; simp)
      then show ?thesis using h(2) unfolding clean_list_def by (intro exI [of _ "Suc k"] exI [of _ "[]"]) auto
    qed
    ultimately show ?thesis using True Cons by (auto simp: clean_comp_def)
  qed
next
  case False
  show ?thesis
  proof (cases "c = [] \<or> c = ''.''")
    case True
    then show ?thesis using assms(2) by (auto simp: clean_comp_def)
  next
    case blank: False
    then have "name_ok c" using False assms(1) by (simp add: name_ok_def)
    moreover obtain k ns where h: "rev st = replicate k ''..'' @ ns" "r \<longrightarrow> k = 0" "list_all name_ok ns"
      using assms(2) by (auto simp: clean_list_def)
    ultimately have "list_all name_ok (ns @ [c])" "rev (clean_comp r c st) = replicate k ''..'' @ ns @ [c]" by auto
    then show ?thesis using h(2) unfolding clean_list_def by blast
  qed
qed

lemma clean_comps_list: "clean_list (is_rooted p) (clean_comps p)"
proof -
  have "clean_list r (rev (fold (clean_comp r) cs st))"
    if "\<forall>c\<in>set cs. CHR ''/'' \<notin> set c" "clean_list r (rev st)" for r cs st
    using that by (induction cs arbitrary: st) (auto simp: clean_step_list)
  moreover have "clean_list r (rev [])" for r by (simp add: clean_list_def)
  ultimately show ?thesis unfolding clean_comps_def using split_on_no_sep by blast
qed

lemma split_names:
  assumes "clean_list r cs" "cs \<noteq> []"
  shows "split_on CHR ''/'' (join ''/'' cs) = cs"
  by (rule split_on_join) (use assms clean_list_comp in auto)

lemma split_abs:
  assumes "clean_list r cs"
  shows "split_on CHR ''/'' (abs_path cs) = [] # (if cs = [] then [[]] else cs)"
  using split_names [OF assms] split_on_append_sep [of "CHR ''/''" "[]" "join ''/'' cs"] by (simp add: render_path_def)

lemma join_head: "cs \<noteq> [] \<Longrightarrow> hd cs \<noteq> [] \<Longrightarrow> hd (join ''/'' cs) = hd (hd cs) \<and> join ''/'' cs \<noteq> []"
  by (cases cs; cases "tl cs") (auto simp: join_Cons)

lemma rooted_render: "clean_list r cs \<Longrightarrow> is_rooted (render_path r cs) = r"
proof (cases "r \<or> cs = []")
  case True
  then show ?thesis by (auto simp: is_rooted_def render_path_def)
next
  case False
  assume c: "clean_list r cs"
  have h: "hd cs \<noteq> []" "CHR ''/'' \<notin> set (hd cs)" using clean_list_comp [OF c, of "hd cs"] False by auto
  then have "hd (join ''/'' cs) \<noteq> CHR ''/''" using join_head [of cs] False by (metis hd_in_set)
  then show ?thesis using False by (cases "join ''/'' cs") (auto simp: is_rooted_def render_path_def)
qed

lemma comps_of_render: "clean_list r cs \<Longrightarrow> clean_comps (render_path r cs) = cs"
proof -
  assume c: "clean_list r cs"
  show ?thesis
  proof (cases r)
    case True
    then show ?thesis using fold_clean_list [OF c] rooted_render [OF c] by (auto simp: clean_comps_def split_abs [OF c])
  next
    case False
    show ?thesis
    proof (cases "cs = []")
      case True
      then show ?thesis using False by (simp add: clean_comps_def is_rooted_def render_path_def clean_comp_def)
    next
      case ne: False
      then show ?thesis
        using fold_clean_list [OF c] rooted_render [OF c] split_names [OF c ne] False by (simp add: clean_comps_def render_path_def)
    qed
  qed
qed

lemma clean_render: "clean_list r cs \<Longrightarrow> path_Clean (render_path r cs) = render_path r cs"
  by (simp add: path_Clean_def comps_of_render rooted_render)

lemma render_inj: "clean_list r as \<Longrightarrow> clean_list r bs \<Longrightarrow> render_path r as = render_path r bs \<longleftrightarrow> as = bs"
  by (metis comps_of_render)

lemma comps_abs:
  assumes "list_all name_ok cs"
  shows "comps (abs_path cs) = cs"
proof -
  have "filter (\<lambda>c. c \<noteq> []) cs = cs" using assms by (auto simp: filter_id_conv name_ok_def list_all_iff)
  then show ?thesis using assms split_abs [of True cs] by (auto simp: comps_def clean_list_abs)
qed

lemma dir_part_sep: "CHR ''/'' \<notin> set b \<Longrightarrow> dir_part (a @ CHR ''/'' # b) = a @ ''/''"
  by (subst dir_part_def, simp, subst dropWhile_append2) auto

lemma dir_part_plain: "CHR ''/'' \<notin> set b \<Longrightarrow> dir_part b = []"
  by (auto simp: dir_part_def dropWhile_eq_Nil_conv)

lemma fold_clean_sep: "fold (clean_comp r) (split_on CHR ''/'' (p @ ''/'')) st = fold (clean_comp r) (split_on CHR ''/'' p) st"
  using split_on_app [of "CHR ''/''" p "[]"] by simp

lemma clean_sep: "p \<noteq> [] \<Longrightarrow> path_Clean (p @ ''/'') = path_Clean p"
proof -
  assume "p \<noteq> []"
  then have "is_rooted (p @ ''/'') = is_rooted p" by (cases p) (simp_all add: is_rooted_def)
  then show ?thesis by (simp only: path_Clean_def clean_comps_def fold_clean_sep)
qed

lemma join_snoc: "as \<noteq> [] \<Longrightarrow> join ''/'' (as @ [c]) = join ''/'' as @ CHR ''/'' # c"
  by (induction as rule: induct_list012) (auto simp: join_Cons)

lemma dir_render:
  assumes "clean_list r cs"
  shows "path_Dir (render_path r cs) = render_path r (butlast cs)"
proof (cases cs rule: rev_cases)
  case Nil
  have "path_Dir (render_path r []) = path_Clean (render_path r [])"
    by (cases r) (simp_all add: path_Dir_def dir_part_def render_path_def path_Clean_def clean_comps_def is_rooted_def clean_comp_def)
  then show ?thesis using clean_render [OF assms] by (simp add: Nil)
next
  case (snoc as c)
  have as: "clean_list r as" using clean_list_butlast [OF assms] by (simp add: snoc)
  have c: "CHR ''/'' \<notin> set c" using clean_list_comp [OF assms, of c] by (simp add: snoc)
  show ?thesis
  proof (cases "as = []")
    case True
    show ?thesis
    proof (cases r)
      case rooted: True
      have "abs_path cs = [] @ CHR ''/'' # c" by (simp add: snoc True render_path_def)
      then have "dir_part (abs_path cs) = ''/''" using dir_part_sep [OF c, of "[]"] by simp
      then show ?thesis using clean_render [of True "[]"] rooted by (simp add: path_Dir_def snoc True render_path_def clean_list_abs)
    next
      case False
      then show ?thesis
        using dir_part_plain [OF c] by (simp add: path_Dir_def snoc True render_path_def path_Clean_def clean_comps_def is_rooted_def clean_comp_def)
    qed
  next
    case False
    have ne: "render_path r as \<noteq> []"
      using join_head [OF False] clean_list_comp [OF as, of "hd as"] False by (auto simp: render_path_def)
    have "render_path r cs = render_path r as @ CHR ''/'' # c" using False by (simp add: snoc render_path_def join_snoc)
    then have "path_Dir (render_path r cs) = path_Clean (render_path r as @ ''/'')" using dir_part_sep [OF c] by (simp add: path_Dir_def)
    then show ?thesis using clean_render [OF as] clean_sep [OF ne] by (simp add: snoc)
  qed
qed

lemma join_abs:
  assumes "list_all name_ok as" "list_all name_ok bs" "bs \<noteq> []"
  shows "path_Join (abs_path as) (join ''/'' bs) = abs_path (as @ bs)"
proof -
  let ?p = "abs_path as @ ''/'' @ join ''/'' bs"
  have c: "clean_list True as" "clean_list True bs" using assms by (simp_all add: clean_list_abs)
  have r: "is_rooted ?p" by (simp add: is_rooted_def render_path_def)
  have "split_on CHR ''/'' ?p = split_on CHR ''/'' (abs_path as) @ split_on CHR ''/'' (join ''/'' bs)"
    using split_on_app by simp
  then have "clean_comps ?p = as @ bs"
    using fold_clean_names [OF assms(1)] fold_clean_names [OF assms(2)] unfolding clean_comps_def
    by (auto simp: r split_abs [OF c(1)] split_names [OF c(2) assms(3)])
  then have "path_Clean ?p = abs_path (as @ bs)" by (simp only: path_Clean_def r)
  moreover have "abs_path as \<noteq> []" by (simp add: render_path_def)
  ultimately show ?thesis by (simp add: path_Join_def)
qed

lemma prefix_abs:
  assumes "prefix as bs"
  shows "prefix (abs_path as) (abs_path bs)"
proof -
  obtain cs where bs: "bs = as @ cs" using assms by (auto simp: prefix_def)
  have "prefix (join ''/'' as) (join ''/'' (as @ cs))"
  proof (induction as)
    case (Cons a as)
    then show ?case by (cases "as = []"; cases "cs = []") (simp_all add: join_Cons)
  qed simp
  then show ?thesis by (simp add: render_path_def bs)
qed

end
