(* ===== verification/AgentFs.thy ===== *)
theory AgentFs
  imports PathClean
begin

text \<open>
  The projection of a service's files by the host agent (\<open>internal/agent/project.go\<close>) on a model of
  the host's file tree: every call of the \<open>os\<close> package that \<open>projectFiles\<close> makes is a step of a state
  and error monad, and any of them may fail.
\<close>

subsection \<open>The file tree\<close>

text \<open>Modes are numbers: 448 is octal 700, 384 is 600 and 256 is 400.\<close>

datatype fs_entry =
    FileE (fe_content: string) (fe_mode: nat) (fe_uid: int) (fe_gid: int)
  | DirE (de_mode: nat) (de_uid: int) (de_gid: int)

type_synonym fs_tree = "string list \<Rightarrow> fs_entry option"

datatype fs_call =
    MkdirAll string
  | Chown string
  | ReadFile string
  | CreateTemp string
  | WriteFile string
  | CloseFile string
  | Chmod string
  | Rename string string
  | Remove string

datatype agent_err =
    Faulted fs_call
  | NoEntry fs_call
  | WrongKind fs_call
  | TempTaken fs_call
  | MaterialMissing string string

text \<open>The tree, and how many calls were made so far: the calls that fail and the random numbers of
  \<open>os.CreateTemp\<close> depend on the latter.\<close>

record host =
  ho_tree :: fs_tree
  ho_tick :: nat

record fs_world =
  fw_fails :: "fs_call \<Rightarrow> nat \<Rightarrow> bool"
  fw_random :: "nat \<Rightarrow> nat"

subsection \<open>The monad\<close>

type_synonym 'a fsm = "host \<Rightarrow> (agent_err + 'a) \<times> host"

definition fs_ret :: "'a \<Rightarrow> 'a fsm" where
  "fs_ret x = (\<lambda>s. (Inr x, s))"

definition fs_bind :: "'a fsm \<Rightarrow> ('a \<Rightarrow> 'b fsm) \<Rightarrow> 'b fsm" where
  "fs_bind m f = (\<lambda>s. case m s of (Inl e, s') \<Rightarrow> (Inl e, s') | (Inr x, s') \<Rightarrow> f x s')"

text \<open>A clean-up whose own error is ignored.\<close>

definition on_error :: "'a fsm \<Rightarrow> unit fsm \<Rightarrow> 'a fsm" where
  "on_error m h = (\<lambda>s. case m s of (Inl e, s') \<Rightarrow> (Inl e, snd (h s')) | (Inr x, s') \<Rightarrow> (Inr x, s'))"

definition fs_step :: "fs_world \<Rightarrow> fs_call \<Rightarrow> (nat \<Rightarrow> fs_tree \<Rightarrow> agent_err + 'a \<times> fs_tree) \<Rightarrow> 'a fsm" where
  "fs_step w call act = (\<lambda>s.
     let s' = s\<lparr>ho_tick := Suc (ho_tick s)\<rparr> in
     if fw_fails w call (ho_tick s) then (Inl (Faulted call), s')
     else case act (ho_tick s) (ho_tree s) of
            Inl e \<Rightarrow> (Inl e, s')
          | Inr (x, t) \<Rightarrow> (Inr x, s'\<lparr>ho_tree := t\<rparr>))"

subsection \<open>The calls\<close>

definition is_file :: "fs_entry option \<Rightarrow> bool" where
  "is_file e \<longleftrightarrow> (case e of Some (FileE _ _ _ _) \<Rightarrow> True | _ \<Rightarrow> False)"

definition is_dir :: "fs_entry option \<Rightarrow> bool" where
  "is_dir e \<longleftrightarrow> (case e of Some (DirE _ _ _) \<Rightarrow> True | _ \<Rightarrow> False)"

definition os_MkdirAll :: "fs_world \<Rightarrow> string \<Rightarrow> unit fsm" where
  "os_MkdirAll w d = fs_step w (MkdirAll d) (\<lambda>_ t.
     let cs = comps d in
     if list_ex (\<lambda>p. is_file (t p)) (prefixes cs) then Inl (WrongKind (MkdirAll d))
     else Inr ((), \<lambda>p. if prefix p cs \<and> t p = None then Some (DirE 448 0 0) else t p))"

definition os_Chown :: "fs_world \<Rightarrow> string \<Rightarrow> int \<Rightarrow> int \<Rightarrow> unit fsm" where
  "os_Chown w p uid gid = fs_step w (Chown p) (\<lambda>_ t.
     case t (comps p) of
       None \<Rightarrow> Inl (NoEntry (Chown p))
     | Some (FileE c m _ _) \<Rightarrow> Inr ((), t(comps p \<mapsto> FileE c m uid gid))
     | Some (DirE m _ _) \<Rightarrow> Inr ((), t(comps p \<mapsto> DirE m uid gid)))"

text \<open>The content of a file, or nothing when there is no entry.\<close>

definition os_ReadFile :: "fs_world \<Rightarrow> string \<Rightarrow> string option fsm" where
  "os_ReadFile w p = fs_step w (ReadFile p) (\<lambda>_ t.
     if list_ex (\<lambda>q. is_file (t q)) (prefixes (butlast (comps p))) then Inl (WrongKind (ReadFile p))
     else case t (comps p) of
       None \<Rightarrow> Inr (None, t)
     | Some (FileE c _ _ _) \<Rightarrow> Inr (Some c, t)
     | Some (DirE _ _ _) \<Rightarrow> Inl (WrongKind (ReadFile p)))"

definition temp_name :: "nat \<Rightarrow> string" where
  "temp_name n = ''.tmp-'' @ itoa n"

definition temp_path :: "string \<Rightarrow> nat \<Rightarrow> string" where
  "temp_path d n = (if suffix ''/'' d then d @ temp_name n else d @ ''/'' @ temp_name n)"

definition os_CreateTemp :: "fs_world \<Rightarrow> string \<Rightarrow> string fsm" where
  "os_CreateTemp w d = fs_step w (CreateTemp d) (\<lambda>n t.
     let p = temp_path d (fw_random w n) in
     if \<not> is_dir (t (comps d)) then Inl (NoEntry (CreateTemp d))
     else if t (comps p) \<noteq> None then Inl (TempTaken (CreateTemp d))
     else Inr (p, t(comps p \<mapsto> FileE [] 384 0 0)))"

definition os_Write :: "fs_world \<Rightarrow> string \<Rightarrow> string \<Rightarrow> unit fsm" where
  "os_Write w p content = fs_step w (WriteFile p) (\<lambda>_ t.
     case t (comps p) of
       Some (FileE _ m u g) \<Rightarrow> Inr ((), t(comps p \<mapsto> FileE content m u g))
     | _ \<Rightarrow> Inl (WrongKind (WriteFile p)))"

definition os_Close :: "fs_world \<Rightarrow> string \<Rightarrow> unit fsm" where
  "os_Close w p = fs_step w (CloseFile p) (\<lambda>_ t. Inr ((), t))"

definition os_Chmod :: "fs_world \<Rightarrow> string \<Rightarrow> nat \<Rightarrow> unit fsm" where
  "os_Chmod w p mode = fs_step w (Chmod p) (\<lambda>_ t.
     case t (comps p) of
       None \<Rightarrow> Inl (NoEntry (Chmod p))
     | Some (FileE c _ u g) \<Rightarrow> Inr ((), t(comps p \<mapsto> FileE c mode u g))
     | Some (DirE _ u g) \<Rightarrow> Inr ((), t(comps p \<mapsto> DirE mode u g)))"

definition os_Rename :: "fs_world \<Rightarrow> string \<Rightarrow> string \<Rightarrow> unit fsm" where
  "os_Rename w a b = fs_step w (Rename a b) (\<lambda>_ t.
     if \<not> is_file (t (comps a)) then Inl (NoEntry (Rename a b))
     else if is_dir (t (comps b)) then Inl (WrongKind (Rename a b))
     else Inr ((), t(comps a := None, comps b := t (comps a))))"

definition os_Remove :: "fs_world \<Rightarrow> string \<Rightarrow> unit fsm" where
  "os_Remove w p = fs_step w (Remove p) (\<lambda>_ t.
     if is_file (t (comps p)) then Inr ((), t(comps p := None)) else Inl (NoEntry (Remove p)))"

subsection \<open>Owned directories\<close>

text \<open>
  The loop of \<open>ownedDirChain\<close> climbs with \<open>filepath.Dir\<close>, which has fixed points: the value \<^const>\<open>None\<close>
  is a loop that does not end.
\<close>

partial_function (option) chain_loop :: "string \<Rightarrow> string \<Rightarrow> string list option" where
  "chain_loop base p =
     (if \<not> prefix base p then Some []
      else if p = base then Some [p]
      else Option.bind (chain_loop base (path_Dir p)) (\<lambda>r. Some (p # r)))"

declare chain_loop.simps [code]

definition ownedDirChain :: "string \<Rightarrow> string \<Rightarrow> string list" where
  "ownedDirChain base dir = the (chain_loop (path_Clean base) (path_Clean dir))"

fun chown_all :: "fs_world \<Rightarrow> string list \<Rightarrow> int \<Rightarrow> int \<Rightarrow> unit fsm" where
  "chown_all w [] uid gid = fs_ret ()"
| "chown_all w (p # ps) uid gid = fs_bind (os_Chown w p uid gid) (\<lambda>_. chown_all w ps uid gid)"

definition mkdirOwned :: "fs_world \<Rightarrow> string \<Rightarrow> string \<Rightarrow> int \<Rightarrow> int \<Rightarrow> unit fsm" where
  "mkdirOwned w base dir uid gid =
     fs_bind (os_MkdirAll w dir) (\<lambda>_. chown_all w (ownedDirChain base dir) uid gid)"

subsection \<open>Staging and projecting\<close>

definition differs :: "fs_world \<Rightarrow> string \<Rightarrow> string \<Rightarrow> bool fsm" where
  "differs w dest want =
     fs_bind (os_ReadFile w dest) (\<lambda>r. fs_ret (case r of None \<Rightarrow> True | Some c \<Rightarrow> c \<noteq> want))"

definition stageFile :: "fs_world \<Rightarrow> string \<Rightarrow> string \<Rightarrow> string \<Rightarrow> int \<Rightarrow> int \<Rightarrow> string fsm" where
  "stageFile w base dest content uid gid =
     fs_bind (mkdirOwned w base (path_Dir dest) uid gid) (\<lambda>_.
     fs_bind (os_CreateTemp w (path_Dir dest)) (\<lambda>tmp.
       on_error
         (fs_bind (on_error (os_Write w tmp content) (os_Close w tmp)) (\<lambda>_.
          fs_bind (os_Close w tmp) (\<lambda>_.
          fs_bind (os_Chmod w tmp 256) (\<lambda>_.
          fs_bind (os_Chown w tmp uid gid) (\<lambda>_. fs_ret tmp)))))
         (os_Remove w tmp)))"

text \<open>The keys of a Go map, sorted.\<close>

definition map_keys :: "(string \<times> 'a) list \<Rightarrow> string list" where
  "map_keys m = sort (remdups (map fst m))"

definition file_dest :: "string \<Rightarrow> (string \<times> string) list \<Rightarrow> string \<Rightarrow> string" where
  "file_dest dir files v = path_Join dir (the (map_of files v))"

text \<open>The pairs staged so far come back with an error too: the clean-up removes them.\<close>

fun stage_pass :: "fs_world \<Rightarrow> (string \<times> string) list \<Rightarrow> (string \<times> string) list \<Rightarrow> string \<Rightarrow> int \<Rightarrow> int \<Rightarrow> string list
    \<Rightarrow> (string \<times> string) list \<Rightarrow> string list \<Rightarrow> bool \<Rightarrow> host
    \<Rightarrow> (agent_err + string list \<times> bool) \<times> (string \<times> string) list \<times> host" where
  "stage_pass w files secrets dir uid gid [] pending pathEnv changed s = (Inr (pathEnv, changed), pending, s)"
| "stage_pass w files secrets dir uid gid (v # vs) pending pathEnv changed s =
     (let key = the (map_of files v); dest = file_dest dir files v; pathEnv' = pathEnv @ [v @ ''='' @ dest] in
      case map_of secrets key of
        None \<Rightarrow> (Inl (MaterialMissing key v), pending, s)
      | Some val \<Rightarrow>
          if val = [] then (Inl (MaterialMissing key v), pending, s)
          else
            case differs w dest val s of
              (Inl e, s') \<Rightarrow> (Inl e, pending, s')
            | (Inr False, s') \<Rightarrow> stage_pass w files secrets dir uid gid vs pending pathEnv' changed s'
            | (Inr True, s') \<Rightarrow>
                (case stageFile w dir dest val uid gid s' of
                   (Inl e, s'') \<Rightarrow> (Inl e, pending, s'')
                 | (Inr tmp, s'') \<Rightarrow> stage_pass w files secrets dir uid gid vs (pending @ [(tmp, dest)]) pathEnv' True s''))"

fun commit_pass :: "fs_world \<Rightarrow> (string \<times> string) list \<Rightarrow> unit fsm" where
  "commit_pass w [] = fs_ret ()"
| "commit_pass w ((tmp, dest) # ps) = fs_bind (os_Rename w tmp dest) (\<lambda>_. commit_pass w ps)"

fun remove_all :: "fs_world \<Rightarrow> (string \<times> string) list \<Rightarrow> host \<Rightarrow> host" where
  "remove_all w [] s = s"
| "remove_all w ((tmp, dest) # ps) s = remove_all w ps (snd (os_Remove w tmp s))"

definition projectFiles :: "fs_world \<Rightarrow> (string \<times> string) list \<Rightarrow> (string \<times> string) list \<Rightarrow> string \<Rightarrow> int \<Rightarrow> int
    \<Rightarrow> (string list \<times> bool) fsm" where
  "projectFiles w files secrets dir uid gid = (\<lambda>s.
     if files = [] then (Inr ([], False), s)
     else
       case mkdirOwned w dir dir uid gid s of
         (Inl e, s') \<Rightarrow> (Inl e, s')
       | (Inr _, s') \<Rightarrow>
           (case stage_pass w files secrets dir uid gid (map_keys files) [] [] False s' of
              (Inl e, pending, s'') \<Rightarrow> (Inl e, remove_all w pending s'')
            | (Inr r, pending, s'') \<Rightarrow>
                (case commit_pass w pending s'' of
                   (Inl e, s3) \<Rightarrow> (Inl e, remove_all w pending s3)
                 | (Inr _, s3) \<Rightarrow> (Inr r, s3))))"

end
