(* ===== verification/AgentProject.thy ===== *)
theory AgentProject
  imports AgentFs
begin

text \<open>
  What the projection of files guarantees: \<open>ownedDirChain\<close> ends and is the list of the directories from
  the file's up to the runtime directory; a failed projection leaves every file as it was, unless the
  failure is a rename of the last pass; a projection that returns has put every file in place.
\<close>

subsection \<open>The chain of directories\<close>

lemma Clean_nonempty: "path_Clean p \<noteq> []"
  using join_head [of "clean_comps p"] clean_list_comp [OF clean_comps_list [of p]]
  by (auto simp: path_Clean_def render_path_def)

lemma chain_total: "clean_list r cs \<Longrightarrow> base \<noteq> [] \<Longrightarrow> \<exists>ps. chain_loop base (render_path r cs) = Some ps"
proof (induction "length cs" arbitrary: cs)
  case 0
  then have "prefix base (render_path r cs) \<Longrightarrow> render_path r cs = base"
    by (cases r) (auto simp: render_path_def prefix_Cons)
  then show ?case by (subst chain_loop.simps) auto
next
  case (Suc n)
  obtain ps where "chain_loop base (render_path r (butlast cs)) = Some ps"
    using Suc.hyps(1) [OF _ clean_list_butlast [OF Suc.prems(1)] Suc.prems(2)] Suc.hyps(2) by (metis diff_Suc_1 length_butlast)
  then show ?case using dir_render [OF Suc.prems(1)] by (subst chain_loop.simps) auto
qed

lemma chain_abs:
  assumes "list_all name_ok bs" "list_all name_ok ks"
  shows "chain_loop (abs_path bs) (abs_path (bs @ ks)) = Some (map (\<lambda>i. abs_path (bs @ take i ks)) (rev [0..<Suc (length ks)]))"
  using assms(2)
proof (induction ks rule: rev_induct)
  case Nil
  then show ?case by (subst chain_loop.simps) simp
next
  case (snoc k ks)
  have c: "clean_list True (bs @ ks @ [k])" "clean_list True bs" using assms(1) snoc.prems by (simp_all add: clean_list_abs)
  have ne: "abs_path (bs @ ks @ [k]) \<noteq> abs_path bs" using render_inj [OF c] by auto
  have ih: "chain_loop (abs_path bs) (abs_path (bs @ ks)) = Some (map (\<lambda>i. abs_path (bs @ take i ks)) (rev [0..<Suc (length ks)]))"
    using snoc by simp
  have d: "path_Dir (abs_path (bs @ ks @ [k])) = abs_path (bs @ ks)" using dir_render [OF c(1)] by (simp add: butlast_append)
  have p: "prefix (abs_path bs) (abs_path (bs @ ks @ [k]))" by (rule prefix_abs) simp
  have t: "map (\<lambda>i. abs_path (bs @ take i (ks @ [k]))) (rev [0..<Suc (length ks)]) = map (\<lambda>i. abs_path (bs @ take i ks)) (rev [0..<Suc (length ks)])"
    by (rule map_cong) auto
  have "chain_loop (abs_path bs) (abs_path (bs @ ks @ [k]))
      = Some (abs_path (bs @ ks @ [k]) # map (\<lambda>i. abs_path (bs @ take i ks)) (rev [0..<Suc (length ks)]))"
    by (subst chain_loop.simps) (simp only: p ne d ih not_True_eq_False if_False bind.simps)
  then show ?case unfolding t [symmetric] by simp
qed

lemma owned_chain:
  assumes "list_all name_ok bs" "list_all name_ok ks"
  shows "set (ownedDirChain (abs_path bs) (abs_path (bs @ ks))) = (\<lambda>i. abs_path (bs @ take i ks)) ` {..length ks}"
proof -
  have c: "clean_list True bs" "clean_list True (bs @ ks)" using assms by (simp_all add: clean_list_abs)
  show ?thesis
    unfolding ownedDirChain_def clean_render [OF c(1)] clean_render [OF c(2)] chain_abs [OF assms]
    by (simp only: option.sel set_map set_rev set_upt) (simp add: lessThan_Suc_atMost atLeast0LessThan)
qed

subsection \<open>Runs of the monad\<close>

lemma bindE:
  assumes "fs_bind m f s = (r, s')"
  obtains (err) e where "m s = (Inl e, s')" "r = Inl e"
    | (go) x s1 where "m s = (Inr x, s1)" "f x s1 = (r, s')"
  using assms by (cases "m s") (auto simp: fs_bind_def split: sum.splits)

lemma stepE:
  assumes "fs_step w call act s = (r, s')"
  obtains (err) e where "r = Inl e" "ho_tree s' = ho_tree s"
    | (go) x t where "r = Inr x" "act (ho_tick s) (ho_tree s) = Inr (x, t)" "ho_tree s' = t"
  using assms by (auto simp: fs_step_def Let_def split: if_splits sum.splits prod.splits)

definition file_at :: "fs_tree \<Rightarrow> string list \<Rightarrow> fs_entry option" where
  "file_at t p = (if is_file (t p) then t p else None)"

definition owned :: "int \<Rightarrow> int \<Rightarrow> fs_tree \<Rightarrow> string list \<Rightarrow> bool" where
  "owned uid gid t p \<longleftrightarrow> (\<exists>m. t p = Some (DirE m uid gid))"

text \<open>The files are the same, and no directory is lost or given away.\<close>

definition dirs_grow :: "int \<Rightarrow> int \<Rightarrow> fs_tree \<Rightarrow> fs_tree \<Rightarrow> bool" where
  "dirs_grow uid gid t t' \<longleftrightarrow>
     (\<forall>p. file_at t' p = file_at t p \<and> (owned uid gid t p \<longrightarrow> owned uid gid t' p) \<and> (is_dir (t p) \<longrightarrow> is_dir (t' p)))"

lemma entry_cases [simp]:
  "is_file (Some (FileE c m u g))" "\<not> is_file (Some (DirE m u g))" "\<not> is_file None"
  "is_dir (Some (DirE m u g))" "\<not> is_dir (Some (FileE c m u g))" "\<not> is_dir None"
  by (simp_all add: is_file_def is_dir_def)

lemma is_dirE: "is_dir e \<Longrightarrow> (\<And>m u g. e = Some (DirE m u g) \<Longrightarrow> P) \<Longrightarrow> P"
  by (auto simp: is_dir_def split: option.splits fs_entry.splits)

lemma is_fileE: "is_file e \<Longrightarrow> (\<And>c m u g. e = Some (FileE c m u g) \<Longrightarrow> P) \<Longrightarrow> P"
  by (auto simp: is_file_def split: option.splits fs_entry.splits)

lemma grow_refl [simp]: "dirs_grow uid gid t t"
  by (simp add: dirs_grow_def)

lemma grow_trans: "dirs_grow uid gid a b \<Longrightarrow> dirs_grow uid gid b c \<Longrightarrow> dirs_grow uid gid a c"
  by (simp add: dirs_grow_def)

lemma mkdir_step:
  assumes "os_MkdirAll w d s = (r, s')"
  obtains (err) e where "r = Inl e" "ho_tree s' = ho_tree s"
    | (go) "r = Inr ()" "\<forall>p. prefix p (comps d) \<longrightarrow> \<not> is_file (ho_tree s p)"
        "ho_tree s' = (\<lambda>p. if prefix p (comps d) \<and> ho_tree s p = None then Some (DirE 448 0 0) else ho_tree s p)"
  using assms unfolding os_MkdirAll_def
proof (cases rule: stepE)
  case (err e)
  then show ?thesis by (rule that(1))
next
  case (go x t)
  show ?thesis
    by (rule that(2)) (use go in \<open>auto simp: Let_def list_ex_iff split: if_splits\<close>)
qed

lemma mkdir_run:
  assumes "os_MkdirAll w d s = (r, s')"
  shows "dirs_grow uid gid (ho_tree s) (ho_tree s') \<and> (r = Inr x \<longrightarrow> (\<forall>p. prefix p (comps d) \<longrightarrow> is_dir (ho_tree s' p)))"
  using assms
proof (cases rule: mkdir_step)
  case go
  have "is_dir (ho_tree s' p)" if "prefix p (comps d)" for p
    using go(2) that unfolding go(3) by (cases "ho_tree s p") (auto simp: is_file_def is_dir_def split: fs_entry.splits)
  moreover have "dirs_grow uid gid (ho_tree s) (ho_tree s')" unfolding go(3) by (auto simp: dirs_grow_def file_at_def owned_def)
  ultimately show ?thesis by blast
qed auto

lemma chown_dir_run:
  assumes "os_Chown w p uid gid s = (r, s')" "is_dir (ho_tree s (comps p))"
  shows "dirs_grow uid gid (ho_tree s) (ho_tree s')" "r = Inr x \<Longrightarrow> owned uid gid (ho_tree s') (comps p)"
proof -
  obtain m u g where d: "ho_tree s (comps p) = Some (DirE m u g)" using assms(2) by (rule is_dirE)
  from assms(1) have "(\<exists>e. r = Inl e \<and> ho_tree s' = ho_tree s) \<or> (r = Inr () \<and> ho_tree s' = (ho_tree s)(comps p \<mapsto> DirE m uid gid))"
    unfolding os_Chown_def by (cases rule: stepE) (auto simp: d)
  then show "dirs_grow uid gid (ho_tree s) (ho_tree s')" "r = Inr x \<Longrightarrow> owned uid gid (ho_tree s') (comps p)"
    using d by (auto simp: dirs_grow_def file_at_def owned_def split: if_splits)
qed

lemma chown_all_run:
  "chown_all w ps uid gid s = (r, s') \<Longrightarrow> \<forall>p\<in>set ps. is_dir (ho_tree s (comps p)) \<Longrightarrow>
     dirs_grow uid gid (ho_tree s) (ho_tree s') \<and> (r = Inr x \<longrightarrow> (\<forall>p\<in>set ps. owned uid gid (ho_tree s') (comps p)))"
proof (induction ps arbitrary: s)
  case Nil
  then show ?case by (simp add: fs_ret_def)
next
  case (Cons p ps)
  have d: "is_dir (ho_tree s (comps p))" using Cons.prems(2) by simp
  from Cons.prems(1) have "fs_bind (os_Chown w p uid gid) (\<lambda>_. chown_all w ps uid gid) s = (r, s')" by simp
  then show ?case
  proof (cases rule: bindE)
    case (err e)
    then show ?thesis using chown_dir_run(1) [OF err(1) d] by simp
  next
    case (go u s1)
    note g = chown_dir_run(1) [OF go(1) d] and o1 = chown_dir_run(2) [OF go(1) d, of u]
    have "\<forall>q\<in>set ps. is_dir (ho_tree s1 (comps q))" using Cons.prems(2) g by (simp add: dirs_grow_def)
    note ih = Cons.IH [OF go(2) this]
    have "dirs_grow uid gid (ho_tree s) (ho_tree s')" by (rule grow_trans [OF g conjunct1 [OF ih]])
    moreover have "owned uid gid (ho_tree s') (comps p)" using o1 conjunct1 [OF ih] unfolding dirs_grow_def by blast
    ultimately show ?thesis using conjunct2 [OF ih] by simp
  qed
qed


lemma mkdirOwned_run:
  assumes "list_all name_ok bs" "list_all name_ok ks" "mkdirOwned w (abs_path bs) (abs_path (bs @ ks)) uid gid s = (r, s')"
  shows "dirs_grow uid gid (ho_tree s) (ho_tree s') \<and> (r = Inr x \<longrightarrow> (\<forall>i\<le>length ks. owned uid gid (ho_tree s') (bs @ take i ks)))"
  using assms(3) unfolding mkdirOwned_def
proof (cases rule: bindE)
  case (err e)
  then show ?thesis using mkdir_run [OF err(1)] by simp
next
  case (go u s1)
  have n: "list_all name_ok (bs @ ks)" "list_all name_ok (bs @ take i ks)" for i
    using assms(1,2) by (auto simp: list_all_iff dest: in_set_takeD)
  note g = mkdir_run [OF go(1), of uid gid u]
  have "\<forall>p\<in>set (ownedDirChain (abs_path bs) (abs_path (bs @ ks))). is_dir (ho_tree s1 (comps p))"
    using conjunct2 [OF g] n unfolding owned_chain [OF assms(1,2)] by (auto simp: comps_abs take_is_prefix)
  note c = chown_all_run [OF go(2) this, of x]
  have "dirs_grow uid gid (ho_tree s) (ho_tree s')" by (rule grow_trans [OF conjunct1 [OF g] conjunct1 [OF c]])
  moreover have "\<forall>i\<le>length ks. owned uid gid (ho_tree s') (bs @ take i ks)" if "r = Inr x"
    using mp [OF conjunct2 [OF c] that] n unfolding owned_chain [OF assms(1,2)] by (auto simp: comps_abs)
  ultimately show ?thesis by blast
qed

subsection \<open>Staging a file\<close>

lemma temp_name_ok: "name_ok (temp_name n)"
proof -
  have "CHR ''/'' \<notin> set (itoa n)" using itoa_digits [of "CHR ''/''" n] by auto
  then show ?thesis by (auto simp: name_ok_def temp_name_def)
qed

lemma temp_comps:
  assumes "list_all name_ok ds"
  shows "comps (temp_path (abs_path ds) n) = ds @ [temp_name n]"
proof -
  have "temp_path (abs_path ds) n = abs_path (ds @ [temp_name n])"
  proof (cases ds rule: rev_cases)
    case Nil
    then show ?thesis by (simp add: temp_path_def render_path_def)
  next
    case (snoc cs c)
    then have c: "c \<noteq> []" "CHR ''/'' \<notin> set c" using assms by (simp_all add: name_ok_def)
    have "abs_path ds = abs_path cs @ (if cs = [] then [] else ''/'') @ c"
      unfolding snoc render_path_def using join_snoc [of cs c] by simp
    then have "last (abs_path ds) \<noteq> CHR ''/''" using c by (metis append_is_Nil_conv last_appendR last_in_set)
    then have "\<not> suffix ''/'' (abs_path ds)" by (auto simp: suffix_def)
    then show ?thesis using join_snoc [of ds "temp_name n"] by (simp add: temp_path_def render_path_def snoc)
  qed
  then show ?thesis using comps_abs [of "ds @ [temp_name n]"] assms temp_name_ok by simp
qed

lemma stage_body:
  assumes "fs_bind (on_error (os_Write w tmp content) (os_Close w tmp)) (\<lambda>_.
          fs_bind (os_Close w tmp) (\<lambda>_.
          fs_bind (os_Chmod w tmp 256) (\<lambda>_.
          fs_bind (os_Chown w tmp uid gid) (\<lambda>_. fs_ret tmp)))) s = (r, s')"
    and "ho_tree s (comps tmp) = Some (FileE x m u g)"
  shows "(\<forall>p. p \<noteq> comps tmp \<longrightarrow> ho_tree s' p = ho_tree s p) \<and> is_file (ho_tree s' (comps tmp))
    \<and> (\<forall>y. r = Inr y \<longrightarrow> y = tmp \<and> ho_tree s' (comps tmp) = Some (FileE content 256 uid gid))"
  using assms
  by (auto simp: fs_bind_def on_error_def fs_step_def fs_ret_def os_Write_def os_Close_def os_Chmod_def os_Chown_def Let_def
      split: if_splits)

text \<open>A fault-free removal of a file.\<close>

lemma remove_run:
  assumes "\<And>n. \<not> fw_fails w (Remove p) n" "is_file (ho_tree s (comps p))"
  shows "ho_tree (snd (os_Remove w p s)) = (ho_tree s)(comps p := None)"
  using assms by (simp add: os_Remove_def fs_step_def Let_def)

text \<open>The tree with one more file, that was not there.\<close>

definition adds_file :: "int \<Rightarrow> int \<Rightarrow> fs_tree \<Rightarrow> fs_tree \<Rightarrow> string list \<Rightarrow> fs_entry \<Rightarrow> bool" where
  "adds_file uid gid t t' c e \<longleftrightarrow>
     file_at t c = None \<and> file_at t' c = Some e \<and> (\<forall>p. p \<noteq> c \<longrightarrow> file_at t' p = file_at t p)
     \<and> (\<forall>p. owned uid gid t p \<longrightarrow> owned uid gid t' p)"

lemma create_run:
  assumes "os_CreateTemp w d s = (r, s')"
  obtains (err) e where "r = Inl e" "ho_tree s' = ho_tree s"
    | (go) n where "r = Inr (temp_path d n)" "ho_tree s (comps (temp_path d n)) = None"
        "ho_tree s' = (ho_tree s)(comps (temp_path d n) \<mapsto> FileE [] 384 0 0)"
  using assms unfolding os_CreateTemp_def
proof (cases rule: stepE)
  case (err e)
  then show ?thesis by (rule that(1))
next
  case (go x t)
  then show ?thesis by (intro that(2) [of "fw_random w (ho_tick s)"]) (auto simp: Let_def split: if_splits)
qed

lemma stageFile_run:
  assumes "list_all name_ok bs" "list_all name_ok ks" "ks \<noteq> []" "\<And>p n. \<not> fw_fails w (Remove p) n"
    and "stageFile w (abs_path bs) (abs_path (bs @ ks)) content uid gid s = (r, s')"
  shows "(\<forall>e. r = Inl e \<longrightarrow> dirs_grow uid gid (ho_tree s) (ho_tree s'))
    \<and> (\<forall>tmp. r = Inr tmp \<longrightarrow> (\<exists>n. comps tmp = bs @ butlast ks @ [temp_name n])
        \<and> adds_file uid gid (ho_tree s) (ho_tree s') (comps tmp) (FileE content 256 uid gid)
        \<and> (\<forall>i<length ks. owned uid gid (ho_tree s') (bs @ take i ks)))"
proof -
  have n: "list_all name_ok (bs @ ks)" "list_all name_ok (butlast ks)" "list_all name_ok (bs @ butlast ks)"
    using assms(1,2) by (auto simp: list_all_iff dest: in_set_butlastD)
  have d: "path_Dir (abs_path (bs @ ks)) = abs_path (bs @ butlast ks)"
    using dir_render [of True "bs @ ks"] n assms(3) by (simp add: clean_list_abs butlast_append)
  from assms(5) show ?thesis unfolding stageFile_def d
  proof (cases rule: bindE)
    case (err e)
    then show ?thesis using mkdirOwned_run [OF assms(1) n(2) err(1)] by simp
  next
    case (go u s1)
    note m = mkdirOwned_run [OF assms(1) n(2) go(1), of u]
    have own: "\<forall>i<length ks. owned uid gid (ho_tree s1) (bs @ take i ks)"
      using m assms(3) by (auto simp: take_butlast)
    from go(2) show ?thesis
    proof (cases rule: bindE)
      case (err e)
      then have "ho_tree s' = ho_tree s1" by (cases rule: create_run) auto
      then show ?thesis using err(2) m by simp
    next
      case (go tmp s2)
      from go(1) obtain k where c: "tmp = temp_path (abs_path (bs @ butlast ks)) k" "ho_tree s1 (comps tmp) = None"
        "ho_tree s2 = (ho_tree s1)(comps tmp \<mapsto> FileE [] 384 0 0)"
        by (cases rule: create_run) auto
      let ?B = "fs_bind (on_error (os_Write w tmp content) (os_Close w tmp)) (\<lambda>_. fs_bind (os_Close w tmp) (\<lambda>_.
          fs_bind (os_Chmod w tmp 256) (\<lambda>_. fs_bind (os_Chown w tmp uid gid) (\<lambda>_. fs_ret tmp))))"
      obtain r3 s3 where b: "?B s2 = (r3, s3)" by (cases "?B s2")
      have b': "(\<forall>p. p \<noteq> comps tmp \<longrightarrow> ho_tree s3 p = ho_tree s2 p) \<and> is_file (ho_tree s3 (comps tmp))
          \<and> (\<forall>y. r3 = Inr y \<longrightarrow> y = tmp \<and> ho_tree s3 (comps tmp) = Some (FileE content 256 uid gid))"
        by (rule stage_body [OF b]) (simp add: c(3))
      have frame: "\<forall>p. p \<noteq> comps tmp \<longrightarrow> ho_tree s3 p = ho_tree s1 p" using b' by (simp add: c(3))
      show ?thesis
      proof (cases r3)
        case (Inl e)
        then have "r = Inl e" "s' = snd (os_Remove w tmp s3)" using go(2) b by (simp_all add: on_error_def)
        then have "ho_tree s' = (ho_tree s3)(comps tmp := None)" using remove_run [of w tmp s3] assms(4) b' by simp
        then have "ho_tree s' = ho_tree s1" using frame c(2) by (auto simp: fun_eq_iff)
        then show ?thesis using m \<open>r = Inl e\<close> by simp
      next
        case (Inr y)
        then have r: "r = Inr tmp" "s' = s3" "ho_tree s3 (comps tmp) = Some (FileE content 256 uid gid)"
          using go(2) b b' by (simp_all add: on_error_def)
        have "adds_file uid gid (ho_tree s) (ho_tree s') (comps tmp) (FileE content 256 uid gid)"
          unfolding adds_file_def r(2)
        proof (intro conjI allI impI)
          show "file_at (ho_tree s) (comps tmp) = None" 
          proof -
            have "file_at (ho_tree s1) (comps tmp) = file_at (ho_tree s) (comps tmp)" using m by (simp add: dirs_grow_def)
            then show ?thesis using c(2) by (simp add: file_at_def [of "ho_tree s1"])
          qed
          show "file_at (ho_tree s3) (comps tmp) = Some (FileE content 256 uid gid)" by (simp add: file_at_def r(3))
          show "file_at (ho_tree s3) p = file_at (ho_tree s) p" if "p \<noteq> comps tmp" for p
          proof -
            have "file_at (ho_tree s1) p = file_at (ho_tree s) p" using m by (simp add: dirs_grow_def)
            moreover have "file_at (ho_tree s3) p = file_at (ho_tree s1) p" using frame that unfolding file_at_def by simp
            ultimately show ?thesis by simp
          qed
          show "owned uid gid (ho_tree s3) p" if o1: "owned uid gid (ho_tree s) p" for p
          proof -
            have o2: "owned uid gid (ho_tree s1) p" using o1 m by (simp add: dirs_grow_def)
            then have "p \<noteq> comps tmp" using c(2) by (auto simp: owned_def)
            then show ?thesis using o2 frame by (simp add: owned_def)
          qed
        qed
        moreover have "\<forall>i<length ks. owned uid gid (ho_tree s') (bs @ take i ks)"
          using own frame c(2) unfolding r(2) owned_def by (metis option.distinct(1))
        moreover have "comps tmp = bs @ butlast ks @ [temp_name k]" using temp_comps [OF n(3)] by (simp add: c(1))
        ultimately show ?thesis using r(1) by blast
      qed
    qed
  qed
qed


subsection \<open>The first pass\<close>

text \<open>A key that names a file below the runtime directory, and no temporary one.\<close>

definition clean_key :: "string \<Rightarrow> bool" where
  "clean_key key \<longleftrightarrow> list_all name_ok (split_on CHR ''/'' key) \<and> \<not> prefix ''.tmp-'' (last (split_on CHR ''/'' key))"

definition target :: "string list \<Rightarrow> string \<Rightarrow> string list" where
  "target bs key = bs @ split_on CHR ''/'' key"

definition in_place :: "fs_tree \<Rightarrow> string list \<Rightarrow> string \<Rightarrow> bool" where
  "in_place t p content \<longleftrightarrow> (\<exists>m u g. t p = Some (FileE content m u g))"

lemma target_dest:
  assumes "list_all name_ok bs" "clean_key key"
  shows "path_Join (abs_path bs) key = abs_path (target bs key)" "comps (abs_path (target bs key)) = target bs key"
proof -
  have k: "list_all name_ok (split_on CHR ''/'' key)" using assms(2) by (simp add: clean_key_def)
  show "path_Join (abs_path bs) key = abs_path (target bs key)" using join_abs [OF assms(1) k] by (simp add: target_def)
  show "comps (abs_path (target bs key)) = target bs key" using assms(1) k by (intro comps_abs) (simp add: target_def)
qed

lemma target_inj: "target bs a = target bs b \<Longrightarrow> a = b"
  unfolding target_def by (metis join_split_on same_append_eq)

lemma target_not_temp: "clean_key key \<Longrightarrow> last (target bs key) \<noteq> temp_name n"
  by (auto simp: clean_key_def target_def temp_name_def)

lemma in_place_file_at: "file_at t' p = file_at t p \<Longrightarrow> in_place t' p c \<longleftrightarrow> in_place t p c"
  unfolding in_place_def file_at_def by (metis entry_cases(1) option.distinct(1))

lemma differs_run:
  assumes "differs w dest want s = (r, s')"
  shows "ho_tree s' = ho_tree s \<and> (\<forall>d. r = Inr d \<longrightarrow> d = (\<not> in_place (ho_tree s) (comps dest) want))"
  using assms by (auto simp: differs_def fs_bind_def fs_ret_def os_ReadFile_def fs_step_def Let_def in_place_def
      split: if_splits option.splits fs_entry.splits)

text \<open>
  Some keys staged: one new temporary file for each, no other file touched.
\<close>

definition temps :: "(string \<times> string) list \<Rightarrow> string list set" where
  "temps new = (\<lambda>x. comps (fst x)) ` set new"

definition staged :: "(string \<times> string) list \<Rightarrow> string list \<Rightarrow> int \<Rightarrow> int \<Rightarrow> fs_tree \<Rightarrow> fs_tree \<Rightarrow> string list
    \<Rightarrow> (string \<times> string) list \<Rightarrow> bool" where
  "staged secrets bs uid gid t t' ks new \<longleftrightarrow>
     list_all2 (\<lambda>k x. snd x = abs_path (target bs k)
        \<and> file_at t' (comps (fst x)) = Some (FileE (the (map_of secrets k)) 256 uid gid)) ks new
     \<and> distinct (map (\<lambda>x. comps (fst x)) new)
     \<and> (\<forall>c\<in>temps new. file_at t c = None \<and> (\<exists>n. last c = temp_name n))
     \<and> (\<forall>p. p \<notin> temps new \<longrightarrow> file_at t' p = file_at t p)
     \<and> (\<forall>p. owned uid gid t p \<longrightarrow> owned uid gid t' p)"

lemma staged_nil: "dirs_grow uid gid t t' \<Longrightarrow> staged secrets bs uid gid t t' [] []"
  by (simp add: staged_def dirs_grow_def temps_def)

lemma staged_cons:
  assumes "adds_file uid gid t t1 (comps tmp) (FileE (the (map_of secrets k)) 256 uid gid)" "\<exists>n. last (comps tmp) = temp_name n"
    and "staged secrets bs uid gid t1 t' ks new" "d = abs_path (target bs k)"
  shows "staged secrets bs uid gid t t' (k # ks) ((tmp, d) # new)"
proof -
  have new: "comps tmp \<notin> temps new" using assms(1,3) by (auto simp: staged_def adds_file_def)
  have old: "\<forall>c\<in>temps new. file_at t c = None"
  proof
    fix c assume c: "c \<in> temps new"
    then have "c \<noteq> comps tmp" using new by auto
    then have "file_at t1 c = file_at t c" using assms(1) by (simp add: adds_file_def)
    moreover have "file_at t1 c = None" using assms(3) c unfolding staged_def by blast
    ultimately show "file_at t c = None" by simp
  qed
  have dist: "distinct (map (\<lambda>x. comps (fst x)) ((tmp, d) # new))" using assms(3) new by (auto simp: staged_def temps_def)
  show ?thesis
    using assms new old dist unfolding staged_def adds_file_def by (simp add: temps_def) 
qed

lemma stage_pass_run:
  assumes "list_all name_ok bs" "\<And>p n. \<not> fw_fails w (Remove p) n"
  shows "stage_pass w files secrets (abs_path bs) uid gid vs pending pe ch s = (r, pend', s') \<Longrightarrow>
    \<forall>v\<in>set vs. clean_key (the (map_of files v)) \<Longrightarrow>
    \<exists>us new. pend' = pending @ new
      \<and> staged secrets bs uid gid (ho_tree s) (ho_tree s') (map (\<lambda>v. the (map_of files v)) us) new
      \<and> (\<forall>pe' ch'. r = Inr (pe', ch') \<longrightarrow>
           us = filter (\<lambda>v. \<not> in_place (ho_tree s) (target bs (the (map_of files v))) (the (map_of secrets (the (map_of files v))))) vs
           \<and> pe' = pe @ map (\<lambda>v. v @ ''='' @ abs_path (target bs (the (map_of files v)))) vs
           \<and> ch' = (ch \<or> us \<noteq> [])
           \<and> (\<forall>v\<in>set us. \<forall>i<length (split_on CHR ''/'' (the (map_of files v))).
                owned uid gid (ho_tree s') (bs @ take i (split_on CHR ''/'' (the (map_of files v)))))
           \<and> (\<forall>v\<in>set vs. \<exists>c. map_of secrets (the (map_of files v)) = Some c \<and> c \<noteq> []))"
proof (induction vs arbitrary: pending pe ch s)
  case Nil
  then show ?case using staged_nil [OF grow_refl] by (intro exI [of _ "[]"]) auto
next
  case (Cons v vs)
  let ?k = "the (map_of files v)"
  let ?d = "file_dest (abs_path bs) files v"
  have key: "clean_key ?k" using Cons.prems(2) by simp
  have d: "?d = abs_path (target bs ?k)" "comps ?d = target bs ?k"
    using target_dest [OF assms(1) key] by (simp_all add: file_dest_def)
  show ?case
  proof (cases "\<exists>c. map_of secrets ?k = Some c \<and> c \<noteq> []")
    case False
    then have "r = Inl (MaterialMissing ?k v) \<and> pend' = pending \<and> s' = s" using Cons.prems(1) by (auto simp: Let_def split: option.splits if_splits)
    then show ?thesis using staged_nil [OF grow_refl] by (intro exI [of _ "[]"]) simp
  next
    case True
    then obtain c where c: "map_of secrets ?k = Some c" "c \<noteq> []" by blast
    obtain r1 s1 where df: "differs w ?d c s = (r1, s1)" by (cases "differs w ?d c s")
    note dr = differs_run [OF df, unfolded d(2)]
    have tree: "ho_tree s1 = ho_tree s" using dr by simp
    show ?thesis
    proof (cases r1)
      case (Inl e)
      then have "r = Inl e \<and> pend' = pending \<and> s' = s1" using Cons.prems(1) c df by (simp add: Let_def)
      then show ?thesis using staged_nil [OF grow_refl] tree by (intro exI [of _ "[]"]) simp
    next
      case (Inr b)
      have b: "b = (\<not> in_place (ho_tree s) (target bs ?k) c)" using dr Inr by simp
      show ?thesis
      proof (cases b)
        case False
        then have "stage_pass w files secrets (abs_path bs) uid gid vs pending (pe @ [v @ ''='' @ ?d]) ch s1 = (r, pend', s')"
          using Cons.prems(1) c df Inr by (simp add: Let_def)
        from Cons.IH [OF this] Cons.prems(2) obtain us new where i: "pend' = pending @ new"
          "staged secrets bs uid gid (ho_tree s1) (ho_tree s') (map (\<lambda>v. the (map_of files v)) us) new"
          "\<forall>pe' ch'. r = Inr (pe', ch') \<longrightarrow>
           us = filter (\<lambda>v. \<not> in_place (ho_tree s1) (target bs (the (map_of files v))) (the (map_of secrets (the (map_of files v))))) vs
           \<and> pe' = (pe @ [v @ ''='' @ ?d]) @ map (\<lambda>v. v @ ''='' @ abs_path (target bs (the (map_of files v)))) vs
           \<and> ch' = (ch \<or> us \<noteq> [])
           \<and> (\<forall>v\<in>set us. \<forall>i<length (split_on CHR ''/'' (the (map_of files v))).
                owned uid gid (ho_tree s') (bs @ take i (split_on CHR ''/'' (the (map_of files v)))))
           \<and> (\<forall>v\<in>set vs. \<exists>c. map_of secrets (the (map_of files v)) = Some c \<and> c \<noteq> [])" by auto
        have inp: "in_place (ho_tree s) (target bs ?k) c" using b False by simp
        show ?thesis
        proof (intro exI conjI allI impI)
          show "pend' = pending @ new" by (rule i(1))
          show "staged secrets bs uid gid (ho_tree s) (ho_tree s') (map (\<lambda>v. the (map_of files v)) us) new" using i(2) tree by simp
        qed (use i(3) inp c tree d in auto)
      next
        case True
        obtain r2 s2 where st: "stageFile w (abs_path bs) ?d c uid gid s1 = (r2, s2)" by (cases "stageFile w (abs_path bs) ?d c uid gid s1")
        have kn: "list_all name_ok (split_on CHR ''/'' ?k)" "split_on CHR ''/'' ?k \<noteq> []" using key by (simp_all add: clean_key_def)
        have st': "stageFile w (abs_path bs) (abs_path (bs @ split_on CHR ''/'' ?k)) c uid gid s1 = (r2, s2)"
          using st d(1) by (simp add: target_def)
        note sr = stageFile_run [OF assms(1) kn assms(2) st', unfolded tree]
        show ?thesis
        proof (cases r2)
          case (Inl e)
          then have "r = Inl e \<and> pend' = pending \<and> s' = s2" using Cons.prems(1) c df \<open>r1 = Inr b\<close> True st by (simp add: Let_def)
          then show ?thesis using staged_nil [of uid gid "ho_tree s" "ho_tree s2"] sr Inl by (intro exI [of _ "[]"]) simp
        next
          case (Inr tmp)
          have run: "stage_pass w files secrets (abs_path bs) uid gid vs (pending @ [(tmp, ?d)]) (pe @ [v @ ''='' @ ?d]) True s2 = (r, pend', s')"
            using Cons.prems(1) c df \<open>r1 = Inr b\<close> True st Inr by (simp add: Let_def)
          have add: "adds_file uid gid (ho_tree s) (ho_tree s2) (comps tmp) (FileE (the (map_of secrets ?k)) 256 uid gid)"
            "\<exists>n. last (comps tmp) = temp_name n" "\<forall>i<length (split_on CHR ''/'' ?k). owned uid gid (ho_tree s2) (bs @ take i (split_on CHR ''/'' ?k))"
            using sr Inr c(1) by auto
          from Cons.IH [OF run] Cons.prems(2) obtain us new where i: "pend' = (pending @ [(tmp, ?d)]) @ new"
            "staged secrets bs uid gid (ho_tree s2) (ho_tree s') (map (\<lambda>v. the (map_of files v)) us) new"
            "\<forall>pe' ch'. r = Inr (pe', ch') \<longrightarrow>
             us = filter (\<lambda>v. \<not> in_place (ho_tree s2) (target bs (the (map_of files v))) (the (map_of secrets (the (map_of files v))))) vs
             \<and> pe' = (pe @ [v @ ''='' @ ?d]) @ map (\<lambda>v. v @ ''='' @ abs_path (target bs (the (map_of files v)))) vs
             \<and> ch' = (True \<or> us \<noteq> [])
             \<and> (\<forall>v\<in>set us. \<forall>i<length (split_on CHR ''/'' (the (map_of files v))).
                  owned uid gid (ho_tree s') (bs @ take i (split_on CHR ''/'' (the (map_of files v)))))
             \<and> (\<forall>v\<in>set vs. \<exists>c. map_of secrets (the (map_of files v)) = Some c \<and> c \<noteq> [])" by auto
          have same: "in_place (ho_tree s2) (target bs (the (map_of files x))) a \<longleftrightarrow> in_place (ho_tree s) (target bs (the (map_of files x))) a"
            if "x \<in> set vs" for x a
          proof (rule in_place_file_at)
            have "target bs (the (map_of files x)) \<noteq> comps tmp" using add(2) target_not_temp Cons.prems(2) that by (metis list.set_intros(2))
            then show "file_at (ho_tree s2) (target bs (the (map_of files x))) = file_at (ho_tree s) (target bs (the (map_of files x)))"
              using add(1) by (simp add: adds_file_def)
          qed
          have flt: "filter (\<lambda>v. \<not> in_place (ho_tree s2) (target bs (the (map_of files v))) (the (map_of secrets (the (map_of files v))))) vs
              = filter (\<lambda>v. \<not> in_place (ho_tree s) (target bs (the (map_of files v))) (the (map_of secrets (the (map_of files v))))) vs"
            using same by (intro filter_cong) auto
          have out: "\<not> in_place (ho_tree s) (target bs ?k) c" using b True by simp
          have mono: "\<forall>p. owned uid gid (ho_tree s2) p \<longrightarrow> owned uid gid (ho_tree s') p" using i(2) by (simp add: staged_def)
          have sc: "staged secrets bs uid gid (ho_tree s) (ho_tree s') (?k # map (\<lambda>v. the (map_of files v)) us) ((tmp, ?d) # new)"
            by (rule staged_cons [OF add(1,2) i(2) d(1)])
          show ?thesis
          proof (intro exI [of _ "v # us"] exI [of _ "(tmp, ?d) # new"] conjI allI impI)
            show "pend' = pending @ (tmp, ?d) # new" using i(1) by simp
            show "staged secrets bs uid gid (ho_tree s) (ho_tree s') (map (\<lambda>v. the (map_of files v)) (v # us)) ((tmp, ?d) # new)"
              using sc by simp
          qed (use i(3) flt out c d add(3) mono in auto)
        qed
      qed
    qed
  qed
qed


subsection \<open>The second pass and the clean-up\<close>

lemma temps_simps [simp]: "temps [] = {}" "temps (x # xs) = insert (comps (fst x)) (temps xs)"
  by (simp_all add: temps_def)

lemma remove_all_run:
  assumes "\<And>p n. \<not> fw_fails w (Remove p) n"
  shows "distinct (map (\<lambda>x. comps (fst x)) new) \<Longrightarrow> \<forall>c\<in>temps new. is_file (ho_tree s c) \<Longrightarrow>
    ho_tree (remove_all w new s) = (\<lambda>p. if p \<in> temps new then None else ho_tree s p)"
proof (induction new arbitrary: s)
  case (Cons x new)
  obtain tmp d where x: "x = (tmp, d)" by (cases x)
  have one: "ho_tree (snd (os_Remove w tmp s)) = (ho_tree s)(comps tmp := None)"
    using assms Cons.prems(2) by (intro remove_run) (simp_all add: x)
  have "comps tmp \<notin> temps new" using Cons.prems(1) by (auto simp: x temps_def)
  then have "\<forall>c\<in>temps new. is_file (ho_tree (snd (os_Remove w tmp s)) c)" using Cons.prems(2) one by (auto simp: x)
  from Cons.IH [OF _ this] Cons.prems(1) show ?case by (auto simp: x one fun_eq_iff)
qed simp

lemma staged_removed:
  assumes "\<And>p n. \<not> fw_fails w (Remove p) n" "staged secrets bs uid gid t (ho_tree s) ks new"
  shows "file_at (ho_tree (remove_all w new s)) p = file_at t p"
proof -
  have "is_file (ho_tree s c)" if "c \<in> temps new" for c
  proof -
    from that obtain x where x: "x \<in> set new" "c = comps (fst x)" by (auto simp: temps_def)
    have l: "list_all2 (\<lambda>k x. snd x = abs_path (target bs k)
        \<and> file_at (ho_tree s) (comps (fst x)) = Some (FileE (the (map_of secrets k)) 256 uid gid)) ks new"
      using assms(2) by (simp add: staged_def)
    obtain i where i: "i < length new" "x = new ! i" using x(1) by (auto simp: in_set_conv_nth)
    have "file_at (ho_tree s) (comps (fst x)) = Some (FileE (the (map_of secrets (ks ! i))) 256 uid gid)"
      using list_all2_nthD2 [OF l i(1)] by (simp add: i(2))
    then show ?thesis using x(2) by (auto simp: file_at_def split: if_splits)
  qed
  then have r: "ho_tree (remove_all w new s) = (\<lambda>p. if p \<in> temps new then None else ho_tree s p)"
    using remove_all_run [OF assms(1)] assms(2) by (simp add: staged_def)
  show ?thesis
  proof (cases "p \<in> temps new")
    case True
    then have "file_at t p = None" using assms(2) unfolding staged_def by blast
    then show ?thesis using True by (simp add: r file_at_def [of "\<lambda>p. if p \<in> temps new then None else ho_tree s p"])
  next
    case False
    then have "file_at (ho_tree s) p = file_at t p" using assms(2) by (simp add: staged_def)
    moreover have "file_at (\<lambda>p. if p \<in> temps new then None else ho_tree s p) p = file_at (ho_tree s) p"
      using False by (simp add: file_at_def)
    ultimately show ?thesis by (simp add: r)
  qed
qed

lemma rename_run:
  assumes "os_Rename w a b s = (r, s')" "file_at (ho_tree s) (comps a) = Some e" "comps b \<noteq> comps a"
  shows "(\<exists>x. r = Inl x \<and> (x = Faulted (Rename a b) \<or> x = WrongKind (Rename a b)))
    \<or> (r = Inr () \<and> (\<forall>p. file_at (ho_tree s') p = (if p = comps a then None else if p = comps b then Some e else file_at (ho_tree s) p))
        \<and> (\<forall>p. owned uid gid (ho_tree s) p \<longrightarrow> owned uid gid (ho_tree s') p))"
proof -
  have f: "ho_tree s (comps a) = Some e" "is_file (Some e)" using assms(2) by (auto simp: file_at_def split: if_splits)
  then obtain c m u g where e: "e = FileE c m u g" by (auto elim: is_fileE)
  from assms(1) have "(\<exists>x. r = Inl x \<and> (x = Faulted (Rename a b) \<or> x = WrongKind (Rename a b)))
      \<or> (r = Inr () \<and> \<not> is_dir (ho_tree s (comps b)) \<and> ho_tree s' = (ho_tree s)(comps a := None, comps b := Some e))"
    by (auto simp: os_Rename_def fs_step_def Let_def f split: if_splits)
  then show ?thesis
  proof (elim disjE conjE)
    assume r: "r = Inr ()" and d: "\<not> is_dir (ho_tree s (comps b))" and t: "ho_tree s' = (ho_tree s)(comps a := None, comps b := Some e)"
    have "owned uid gid (ho_tree s') p" if "owned uid gid (ho_tree s) p" for p
      using that d f unfolding t owned_def e by auto
    then show ?thesis using r f(2) assms(3) unfolding t by (auto simp: file_at_def)
  qed auto
qed

lemma commit_run:
  assumes "list_all name_ok bs"
  shows "commit_pass w new s = (r, s') \<Longrightarrow>
    list_all2 (\<lambda>k x. snd x = abs_path (target bs k) \<and> file_at (ho_tree s) (comps (fst x)) = Some (N k)) ks new \<Longrightarrow>
    distinct (map (\<lambda>x. comps (fst x)) new) \<Longrightarrow> \<forall>c\<in>temps new. \<exists>n. last c = temp_name n \<Longrightarrow> \<forall>k\<in>set ks. clean_key k \<Longrightarrow>
    (\<forall>e. r = Inl e \<longrightarrow> (\<exists>a b. e = Faulted (Rename a b) \<or> e = WrongKind (Rename a b)))
    \<and> (r = Inr () \<longrightarrow> (\<forall>k\<in>set ks. file_at (ho_tree s') (target bs k) = Some (N k))
        \<and> (\<forall>c\<in>temps new. file_at (ho_tree s') c = None)
        \<and> (\<forall>p. p \<notin> temps new \<longrightarrow> p \<notin> target bs ` set ks \<longrightarrow> file_at (ho_tree s') p = file_at (ho_tree s) p)
        \<and> (\<forall>p. owned uid gid (ho_tree s) p \<longrightarrow> owned uid gid (ho_tree s') p))"
proof (induction new arbitrary: ks s)
  case Nil
  then show ?case by (auto simp: fs_ret_def)
next
  case (Cons x new)
  obtain tmp d where x: "x = (tmp, d)" by (cases x)
  obtain k ks' where ks: "ks = k # ks'" using Cons.prems(2) by (auto simp: list_all2_Cons2)
  have k: "clean_key k" and d: "comps d = target bs k" and e: "file_at (ho_tree s) (comps tmp) = Some (N k)"
    using Cons.prems(2,5) target_dest(2) [OF assms] by (auto simp: ks x)
  have nt: "target bs k' \<noteq> c" if "c \<in> temps (x # new)" "clean_key k'" for c k'
    using Cons.prems(4) that target_not_temp by metis
  from Cons.prems(1) have "fs_bind (os_Rename w tmp d) (\<lambda>_. commit_pass w new) s = (r, s')" by (simp add: x)
  then show ?case
  proof (cases rule: bindE)
    case (err e')
    then show ?thesis using rename_run [OF err(1) e] nt [of "comps tmp", OF _ k] d by (fastforce simp: x)
  next
    case (go u s1)
    have ren: "\<forall>p. file_at (ho_tree s1) p = (if p = comps tmp then None else if p = target bs k then Some (N k) else file_at (ho_tree s) p)"
      "\<forall>p. owned uid gid (ho_tree s) p \<longrightarrow> owned uid gid (ho_tree s1) p"
      using rename_run [OF go(1) e, of uid gid] nt [of "comps tmp", OF _ k] d by (auto simp: x)
    have fresh: "comps tmp \<notin> temps new" using Cons.prems(3) by (auto simp: x temps_def)
    have keep: "file_at (ho_tree s1) c = file_at (ho_tree s) c" if "c \<in> temps new" for c
      using that fresh nt [of c, OF _ k] ren(1) by auto
    have "list_all2 (\<lambda>k x. snd x = abs_path (target bs k) \<and> file_at (ho_tree s1) (comps (fst x)) = Some (N k)) ks' new"
    proof (rule list.rel_mono_strong)
      show "list_all2 (\<lambda>k x. snd x = abs_path (target bs k) \<and> file_at (ho_tree s) (comps (fst x)) = Some (N k)) ks' new"
        using Cons.prems(2) by (simp add: ks)
    qed (use keep in \<open>simp add: temps_def\<close>)
    note ih = Cons.IH [OF go(2) this]
    have ih': "(\<forall>e. r = Inl e \<longrightarrow> (\<exists>a b. e = Faulted (Rename a b) \<or> e = WrongKind (Rename a b)))
      \<and> (r = Inr () \<longrightarrow> (\<forall>k\<in>set ks'. file_at (ho_tree s') (target bs k) = Some (N k))
        \<and> (\<forall>c\<in>temps new. file_at (ho_tree s') c = None)
        \<and> (\<forall>p. p \<notin> temps new \<longrightarrow> p \<notin> target bs ` set ks' \<longrightarrow> file_at (ho_tree s') p = file_at (ho_tree s1) p)
        \<and> (\<forall>p. owned uid gid (ho_tree s1) p \<longrightarrow> owned uid gid (ho_tree s') p))"
      using ih Cons.prems(3,4,5) by (simp add: ks)
    show ?thesis
    proof (intro conjI allI impI)
      show "\<exists>a b. e = Faulted (Rename a b) \<or> e = WrongKind (Rename a b)" if "r = Inl e" for e using ih' that by blast
      assume r: "r = Inr ()"
      note fin = mp [OF conjunct2 [OF ih'] r]
      have k1: "file_at (ho_tree s') (target bs k) = Some (N k)"
      proof (cases "target bs k \<in> target bs ` set ks'")
        case True
        then obtain k' where k': "k' \<in> set ks'" "target bs k' = target bs k" by auto
        then have "k' = k" using target_inj by blast
        then show ?thesis using fin k'(1) by blast
      next
        case False
        moreover have "target bs k \<notin> temps new" "target bs k \<noteq> comps tmp" using nt [OF _ k] by (auto simp: x)
        ultimately show ?thesis using fin ren(1) by simp
      qed
      show "\<forall>k\<in>set ks. file_at (ho_tree s') (target bs k) = Some (N k)" using fin k1 by (simp add: ks)
      have "comps tmp \<notin> target bs ` set ks'"
      proof
        assume "comps tmp \<in> target bs ` set ks'"
        then obtain k' where "k' \<in> set ks'" "target bs k' = comps tmp" by auto
        then show False using nt [of "comps tmp" k'] Cons.prems(5) by (simp add: x ks)
      qed
      then show "\<forall>c\<in>temps (x # new). file_at (ho_tree s') c = None" using fin fresh ren(1) by (simp add: x)
      show "file_at (ho_tree s') p = file_at (ho_tree s) p" if "p \<notin> temps (x # new)" "p \<notin> target bs ` set ks" for p
        using fin ren(1) that by (simp add: x ks)
      show "owned uid gid (ho_tree s') p" if "owned uid gid (ho_tree s) p" for p using fin ren(2) that by blast
    qed
  qed
qed


subsection \<open>A whole projection\<close>

text \<open>The variables whose file is not in place yet.\<close>

definition stale :: "(string \<times> string) list \<Rightarrow> (string \<times> string) list \<Rightarrow> string list \<Rightarrow> fs_tree \<Rightarrow> string list" where
  "stale files secrets bs t =
     filter (\<lambda>v. \<not> in_place t (target bs (the (map_of files v))) (the (map_of secrets (the (map_of files v))))) (map_keys files)"

lemma key_in: "v \<in> set (map_keys files) \<Longrightarrow> the (map_of files v) \<in> ran (map_of files) \<and> (v, the (map_of files v)) \<in> set files"
proof -
  assume "v \<in> set (map_keys files)"
  then obtain k where "map_of files v = Some k" by (auto simp: map_keys_def dest: weak_map_of_SomeI)
  then show ?thesis by (simp add: ranI map_of_SomeD)
qed

lemma stale_cong: "(\<And>p. file_at t' p = file_at t p) \<Longrightarrow> stale files secrets bs t' = stale files secrets bs t"
  unfolding stale_def by (intro filter_cong refl arg_cong [where f = Not] in_place_file_at)

text \<open>How a projection ends: with the files untouched, at a rename, or with every stale file written.\<close>

lemma project_run:
  assumes "list_all name_ok bs" "\<forall>(v, k)\<in>set files. clean_key k" "\<And>p n. \<not> fw_fails w (Remove p) n"
    and "projectFiles w files secrets (abs_path bs) uid gid s = (r, s')" "files \<noteq> []"
  obtains (early) e where "r = Inl e" "\<And>p. file_at (ho_tree s') p = file_at (ho_tree s) p"
    | (torn) e a b where "r = Inl e" "e = Faulted (Rename a b) \<or> e = WrongKind (Rename a b)"
    | (written) us pe where "r = Inr (pe, us \<noteq> [])" "us = stale files secrets bs (ho_tree s)"
        "pe = map (\<lambda>v. v @ ''='' @ abs_path (target bs (the (map_of files v)))) (map_keys files)"
        "\<forall>v\<in>set us. \<forall>i<length (split_on CHR ''/'' (the (map_of files v))).
            owned uid gid (ho_tree s') (bs @ take i (split_on CHR ''/'' (the (map_of files v))))"
        "\<forall>v\<in>set (map_keys files). \<exists>c. map_of secrets (the (map_of files v)) = Some c \<and> c \<noteq> []"
        "\<forall>v\<in>set us. file_at (ho_tree s') (target bs (the (map_of files v))) = Some (FileE (the (map_of secrets (the (map_of files v)))) 256 uid gid)"
        "\<And>p. p \<notin> (\<lambda>v. target bs (the (map_of files v))) ` set us \<Longrightarrow> file_at (ho_tree s') p = file_at (ho_tree s) p"
proof -
  let ?key = "\<lambda>v. the (map_of files v)"
  have keys: "\<forall>v\<in>set (map_keys files). clean_key (?key v)" using key_in assms(2) by fastforce
  obtain r1 s1 where m: "mkdirOwned w (abs_path bs) (abs_path bs) uid gid s = (r1, s1)"
    by (cases "mkdirOwned w (abs_path bs) (abs_path bs) uid gid s")
  have same: "file_at (ho_tree s1) p = file_at (ho_tree s) p" for p
    using mkdirOwned_run [OF assms(1), of "[]" w uid gid s r1 s1] m by (simp add: dirs_grow_def)
  obtain r2 pend s2 where st: "stage_pass w files secrets (abs_path bs) uid gid (map_keys files) [] [] False s1 = (r2, pend, s2)"
    by (metis prod_cases3)
  from stage_pass_run [OF assms(1,3) st keys] obtain us where
    us: "staged secrets bs uid gid (ho_tree s1) (ho_tree s2) (map ?key us) pend" and
    ok: "\<forall>pe ch. r2 = Inr (pe, ch) \<longrightarrow> us = stale files secrets bs (ho_tree s1)
         \<and> pe = map (\<lambda>v. v @ ''='' @ abs_path (target bs (?key v))) (map_keys files) \<and> ch = (us \<noteq> [])
         \<and> (\<forall>v\<in>set us. \<forall>i<length (split_on CHR ''/'' (?key v)). owned uid gid (ho_tree s2) (bs @ take i (split_on CHR ''/'' (?key v))))
         \<and> (\<forall>v\<in>set (map_keys files). \<exists>c. map_of secrets (?key v) = Some c \<and> c \<noteq> [])"
    by (auto simp: stale_def)
  show ?thesis
  proof (cases r1)
    case (Inl e)
    then show ?thesis using early [of e] same assms(4,5) m by (simp add: projectFiles_def)
  next
    case mk: (Inr u)
    show ?thesis
    proof (cases r2)
      case (Inl e)
      then show ?thesis using early [of e] staged_removed [OF assms(3) us] same assms(4,5) m mk st by (simp add: projectFiles_def)
    next
      case (Inr res)
      obtain pe ch where res: "r2 = Inr (pe, ch)" using Inr by (cases res) simp
      obtain r3 s3 where cm: "commit_pass w pend s2 = (r3, s3)" by (cases "commit_pass w pend s2")
      have su: "us = stale files secrets bs (ho_tree s)" using ok res stale_cong [of "ho_tree s1", OF same] by simp
      have ck: "\<forall>k\<in>set (map ?key us). clean_key k" using keys su by (auto simp: stale_def)
      note cr = commit_run [where N = "\<lambda>k. FileE (the (map_of secrets k)) 256 uid gid", OF assms(1) cm _ _ _ ck, of uid gid]
      have cr': "(\<forall>e. r3 = Inl e \<longrightarrow> (\<exists>a b. e = Faulted (Rename a b) \<or> e = WrongKind (Rename a b)))
        \<and> (r3 = Inr () \<longrightarrow> (\<forall>k\<in>set (map ?key us). file_at (ho_tree s3) (target bs k) = Some (FileE (the (map_of secrets k)) 256 uid gid))
            \<and> (\<forall>c\<in>temps pend. file_at (ho_tree s3) c = None)
            \<and> (\<forall>p. p \<notin> temps pend \<longrightarrow> p \<notin> target bs ` set (map ?key us) \<longrightarrow> file_at (ho_tree s3) p = file_at (ho_tree s2) p)
            \<and> (\<forall>p. owned uid gid (ho_tree s2) p \<longrightarrow> owned uid gid (ho_tree s3) p))"
        using us by (intro cr) (simp_all add: staged_def)
      show ?thesis
      proof (cases r3)
        case (Inl e)
        then show ?thesis using torn [of e] cr' assms(4,5) m mk st res cm by (auto simp: projectFiles_def)
      next
        case (Inr x)
        then have r: "r = Inr (pe, ch)" "s' = s3" using assms(4,5) m mk st res cm by (simp_all add: projectFiles_def)
        show ?thesis
        proof (rule written [OF _ su])
          show "file_at (ho_tree s') p = file_at (ho_tree s) p" if "p \<notin> (\<lambda>v. target bs (?key v)) ` set us" for p
            using that cr' Inr us same [of p] unfolding r(2) staged_def by (cases "p \<in> temps pend") auto
        qed (use ok res cr' Inr r in auto)
      qed
    qed
  qed
qed

lemma written_in_place:
  assumes "\<forall>v\<in>set (stale files secrets bs t). file_at t' (target bs (the (map_of files v))) = Some (FileE (the (map_of secrets (the (map_of files v)))) 256 uid gid)"
    and "\<And>p. p \<notin> (\<lambda>v. target bs (the (map_of files v))) ` set (stale files secrets bs t) \<Longrightarrow> file_at t' p = file_at t p"
    and "v \<in> set (map_keys files)" "map_of secrets (the (map_of files v)) = Some c"
  shows "in_place t' (target bs (the (map_of files v))) c
    \<and> (\<not> in_place t (target bs (the (map_of files v))) c \<longrightarrow>
         v \<in> set (stale files secrets bs t) \<and> t' (target bs (the (map_of files v))) = Some (FileE c 256 uid gid))"
proof -
  let ?p = "target bs (the (map_of files v))"
  have wr: "t' ?p = Some (FileE c 256 uid gid)" if u: "u \<in> set (stale files secrets bs t)" "target bs (the (map_of files u)) = ?p" for u
  proof -
    have "the (map_of files u) = the (map_of files v)" using u(2) by (rule target_inj)
    then have "file_at t' ?p = Some (FileE c 256 uid gid)" using assms(1,4) u(1) by force
    then show ?thesis by (simp add: file_at_def split: if_splits)
  qed
  show ?thesis
  proof (cases "?p \<in> (\<lambda>v. target bs (the (map_of files v))) ` set (stale files secrets bs t)")
    case True
    then obtain u where "u \<in> set (stale files secrets bs t)" "target bs (the (map_of files u)) = ?p"
      unfolding image_iff by (elim bexE) (rule that, simp_all only:)
    from wr [OF this] have "t' ?p = Some (FileE c 256 uid gid)" .
    moreover have "v \<in> set (stale files secrets bs t)" if "\<not> in_place t ?p c" using that assms(3,4) by (simp add: stale_def)
    ultimately show ?thesis unfolding in_place_def by blast
  next
    case False
    then have "v \<notin> set (stale files secrets bs t)" by blast
    then have "in_place t ?p c" using assms(3,4) by (simp add: stale_def)
    then show ?thesis using in_place_file_at [OF assms(2) [OF False]] by simp
  qed
qed

lemma project_outcome:
  assumes "list_all name_ok bs" "\<forall>(v, k)\<in>set files. clean_key k" "\<And>p n. \<not> fw_fails w (Remove p) n"
    and "projectFiles w files secrets (abs_path bs) uid gid s = (r, s')"
  shows "case r of
      Inl e \<Rightarrow> (\<forall>p. file_at (ho_tree s') p = file_at (ho_tree s) p) \<or> (\<exists>a b. e = Faulted (Rename a b) \<or> e = WrongKind (Rename a b))
    | Inr (pathEnv, changed) \<Rightarrow>
        pathEnv = map (\<lambda>v. v @ ''='' @ abs_path (target bs (the (map_of files v)))) (map_keys files)
        \<and> (\<forall>v\<in>set (map_keys files). let segs = split_on CHR ''/'' (the (map_of files v)) in
             \<exists>c. map_of secrets (the (map_of files v)) = Some c \<and> c \<noteq> [] \<and> in_place (ho_tree s') (bs @ segs) c
               \<and> (\<not> in_place (ho_tree s) (bs @ segs) c \<longrightarrow>
                    ho_tree s' (bs @ segs) = Some (FileE c 256 uid gid) \<and> (\<forall>i<length segs. owned uid gid (ho_tree s') (bs @ take i segs))))
        \<and> (\<forall>p. p \<notin> target bs ` ran (map_of files) \<longrightarrow> file_at (ho_tree s') p = file_at (ho_tree s) p)
        \<and> (changed \<longleftrightarrow> stale files secrets bs (ho_tree s) \<noteq> [])"
proof (cases "files = []")
  case True
  then show ?thesis using assms(4) by (auto simp: projectFiles_def map_keys_def stale_def)
next
  case False
  show ?thesis using assms False
  proof (cases rule: project_run)
    case (written us pe)
    have "let segs = split_on CHR ''/'' (the (map_of files v)) in
             \<exists>c. map_of secrets (the (map_of files v)) = Some c \<and> c \<noteq> [] \<and> in_place (ho_tree s') (bs @ segs) c
               \<and> (\<not> in_place (ho_tree s) (bs @ segs) c \<longrightarrow>
                    ho_tree s' (bs @ segs) = Some (FileE c 256 uid gid) \<and> (\<forall>i<length segs. owned uid gid (ho_tree s') (bs @ take i segs)))"
      if v: "v \<in> set (map_keys files)" for v
    proof -
      obtain c where c: "map_of secrets (the (map_of files v)) = Some c" "c \<noteq> []" using written(5) v by blast
      from written_in_place [OF written(6,7) [unfolded written(2)] v c(1)] c written(4) show ?thesis
        unfolding Let_def target_def written(2) by blast
    qed
    moreover have "p \<notin> (\<lambda>v. target bs (the (map_of files v))) ` set us" if "p \<notin> target bs ` ran (map_of files)" for p
      using that key_in [of _ files] by (auto simp: written(2) stale_def)
    ultimately show ?thesis using written(1,2,3,7) by simp
  qed auto
qed


lemma project_returns:
  assumes "list_all name_ok bs" "\<forall>(v, k)\<in>set files. clean_key k" "\<And>p n. \<not> fw_fails w (Remove p) n"
    and "projectFiles w files secrets (abs_path bs) uid gid s = (Inr (pathEnv, changed), s')" "map_of files v = Some k"
  shows "v @ ''='' @ abs_path (target bs k) \<in> set pathEnv
    \<and> (\<exists>c. map_of secrets k = Some c \<and> c \<noteq> [] \<and> in_place (ho_tree s') (target bs k) c)"
proof -
  have v: "v \<in> set (map_keys files)" "the (map_of files v) = k"
    using assms(5) by (auto simp: map_keys_def dest: map_of_SomeD intro: image_eqI [of _ _ "(v, k)"])
  note o1 = project_outcome [OF assms(1-4), unfolded sum.case prod.case]
  have "\<exists>c. map_of secrets k = Some c \<and> c \<noteq> [] \<and> in_place (ho_tree s') (target bs k) c"
    using bspec [OF conjunct1 [OF conjunct2 [OF o1]] v(1)] unfolding v(2) Let_def target_def by blast
  moreover have "v @ ''='' @ abs_path (target bs k) \<in> set pathEnv" using conjunct1 [OF o1] v by force
  ultimately show ?thesis by blast
qed

subsection \<open>Properties\<close>

text \<open>C36: The loop of \<open>ownedDirChain\<close> ends for every pair of directories, although \<open>filepath.Dir\<close> has
  fixed points.\<close>

theorem owned_chain_ends:
  "\<exists>ps. chain_loop (path_Clean base) (path_Clean dir) = Some ps"
  unfolding path_Clean_def [of dir] by (rule chain_total [OF clean_comps_list Clean_nonempty])

text \<open>C31: A projection whose clean-ups succeed is a transaction.  When it fails, every file of the host
  is as it was and no temporary file is left, unless it is a rename of the last pass that failed.  When
  it returns, every material the files map names is in place, what had to be written is readable by the
  owner only, belongs to the service's user and is reached through directories of that user, no other
  file has changed, and the flag tells whether anything was written.\<close>

theorem project_transaction:
  assumes "list_all name_ok bs" "\<forall>(v, k)\<in>set files. clean_key k" "\<And>p n. \<not> fw_fails w (Remove p) n"
    and "projectFiles w files secrets (abs_path bs) uid gid s = (r, s')"
  shows "case r of
      Inl e \<Rightarrow> (\<forall>p. file_at (ho_tree s') p = file_at (ho_tree s) p) \<or> (\<exists>a b. e = Faulted (Rename a b) \<or> e = WrongKind (Rename a b))
    | Inr (pathEnv, changed) \<Rightarrow>
        pathEnv = map (\<lambda>v. v @ ''='' @ abs_path (target bs (the (map_of files v)))) (map_keys files)
        \<and> (\<forall>v\<in>set (map_keys files). let segs = split_on CHR ''/'' (the (map_of files v)) in
             \<exists>c. map_of secrets (the (map_of files v)) = Some c \<and> c \<noteq> [] \<and> in_place (ho_tree s') (bs @ segs) c
               \<and> (\<not> in_place (ho_tree s) (bs @ segs) c \<longrightarrow>
                    ho_tree s' (bs @ segs) = Some (FileE c 256 uid gid) \<and> (\<forall>i<length segs. owned uid gid (ho_tree s') (bs @ take i segs))))
        \<and> (\<forall>p. p \<notin> target bs ` ran (map_of files) \<longrightarrow> file_at (ho_tree s') p = file_at (ho_tree s) p)
        \<and> (changed \<longleftrightarrow> stale files secrets bs (ho_tree s) \<noteq> [])"
  by (rule project_outcome [OF assms])

subsection \<open>An example\<close>

definition demo_world :: fs_world where
  "demo_world = \<lparr>fw_fails = (\<lambda>_ _. False), fw_random = (\<lambda>n. n)\<rparr>"

definition demo_files :: "(string \<times> string) list" where
  "demo_files = [(''MTLS_LEAF_KEY_PATH'', ''mtls/leaf.key''), (''MTLS_LEAF_CERT_PATH'', ''mtls/leaf.crt'')]"

definition demo_secrets :: "(string \<times> string) list" where
  "demo_secrets = [(''mtls/leaf.crt'', ''CERT''), (''mtls/leaf.key'', ''KEY'')]"

definition demo_start :: host where
  "demo_start = \<lparr>ho_tree = (\<lambda>_. None), ho_tick = 0\<rparr>"

definition demo_dir :: "string list" where
  "demo_dir = [''run'', ''wardnet'', ''api'']"

lemma demo_returns:
  "fst (projectFiles demo_world demo_files demo_secrets (abs_path demo_dir) 990 991 demo_start)
     = Inr ([''MTLS_LEAF_CERT_PATH=/run/wardnet/api/mtls/leaf.crt'', ''MTLS_LEAF_KEY_PATH=/run/wardnet/api/mtls/leaf.key''], True)"
  by code_simp

theorem project_transaction_witness:
  "ho_tree (snd (projectFiles demo_world demo_files demo_secrets (abs_path demo_dir) 990 991 demo_start))
     [''run'', ''wardnet'', ''api'', ''mtls'', ''leaf.key''] = Some (FileE ''KEY'' 256 990 991)"
proof -
  have n: "list_all name_ok demo_dir" by code_simp
  have k: "\<forall>(v, k)\<in>set demo_files. clean_key k" by code_simp
  have f: "\<not> fw_fails demo_world (Remove p) n" for p n by (simp add: demo_world_def)
  obtain r s' where p: "projectFiles demo_world demo_files demo_secrets (abs_path demo_dir) 990 991 demo_start = (r, s')"
    by (metis surj_pair)
  have r: "r = Inr ([''MTLS_LEAF_CERT_PATH=/run/wardnet/api/mtls/leaf.crt'', ''MTLS_LEAF_KEY_PATH=/run/wardnet/api/mtls/leaf.key''], True)"
    using demo_returns p by simp
  have segs: "the (map_of demo_files ''MTLS_LEAF_KEY_PATH'') = ''mtls/leaf.key''" "split_on CHR ''/'' ''mtls/leaf.key'' = [''mtls'', ''leaf.key'']"
    "''MTLS_LEAF_KEY_PATH'' \<in> set (map_keys demo_files)" "map_of demo_secrets ''mtls/leaf.key'' = Some ''KEY''"
    by code_simp+
  have out: "\<not> in_place (ho_tree demo_start) p c" for p c by (simp add: in_place_def demo_start_def)
  from project_transaction [OF n k f p] have "\<forall>v\<in>set (map_keys demo_files). let segs = split_on CHR ''/'' (the (map_of demo_files v)) in
             \<exists>c. map_of demo_secrets (the (map_of demo_files v)) = Some c \<and> c \<noteq> [] \<and> in_place (ho_tree s') (demo_dir @ segs) c
               \<and> (\<not> in_place (ho_tree demo_start) (demo_dir @ segs) c \<longrightarrow>
                    ho_tree s' (demo_dir @ segs) = Some (FileE c 256 990 991) \<and> (\<forall>i<length segs. owned 990 991 (ho_tree s') (demo_dir @ take i segs)))"
    unfolding r by simp
  from bspec [OF this segs(3)] show ?thesis
    unfolding segs(1) Let_def segs(2,4) using out p by (auto simp: demo_dir_def)
qed

end
