(* ===== verification/Agent.thy ===== *)
theory Agent
  imports AgentProject DeployDesc
begin

text \<open>
  The host agent (\<open>internal/agent\<close>): the two on-host descriptors, the environment of a service, the
  lookup of its user, the merge of the two secret blobs, the privilege drop, and the three entry points
  \<open>runBoot\<close>, \<open>runProjectLeaf\<close> and \<open>runMeshProject\<close>.  Decoding YAML and decrypting an age file are
  arguments: a file is absent, unreadable, or holds a value.
\<close>

subsection \<open>Descriptors\<close>

record agent_mesh =
  am_url :: string
  am_port :: int
  am_scope :: string

record agent_deployment =
  ad_region :: string
  ad_region_slug :: string
  ad_environment :: string
  ad_base_domain :: string
  ad_fqdn :: string
  ad_host_id :: string
  ad_cloud_provider :: string
  ad_cloud_region :: string
  ad_zone :: string
  ad_machine :: string

record agent_descriptor =
  de_version :: int
  de_service :: string
  de_exec :: string
  de_user :: string
  de_env :: "(string \<times> string) list"
  de_files :: "(string \<times> string) list"
  de_deployment :: agent_deployment
  de_mesh :: "agent_mesh option"

datatype descriptor_err =
    DescriptorRead string
  | DescriptorSyntax string
  | DescriptorVersion int int
  | DescriptorMissing string

definition SupportedVersion :: int where "SupportedVersion = 7"

definition ParseDescriptor :: "string + agent_descriptor \<Rightarrow> descriptor_err + agent_descriptor" where
  "ParseDescriptor decoded =
     (case decoded of
        Inl e \<Rightarrow> Inl (DescriptorSyntax e)
      | Inr d \<Rightarrow>
          if de_version d \<noteq> SupportedVersion then Inl (DescriptorVersion (de_version d) SupportedVersion)
          else if de_service d = [] then Inl (DescriptorMissing ''service'')
          else if de_exec d = [] then Inl (DescriptorMissing ''exec'')
          else if de_user d = [] then Inl (DescriptorMissing ''user'')
          else Inr d)"

text \<open>Here a file that cannot be read is an error whether or not it exists.\<close>

definition LoadDescriptor :: "(string + agent_descriptor) read_file \<Rightarrow> descriptor_err + agent_descriptor" where
  "LoadDescriptor f =
     (case f of
        Absent \<Rightarrow> Inl (DescriptorRead ''no such file'')
      | Unreadable e \<Rightarrow> Inl (DescriptorRead e)
      | Decoded d \<Rightarrow> ParseDescriptor d)"

record agent_mesh_descriptor =
  md_version :: int
  md_services :: "string list"

definition MeshSupportedVersion :: int where "MeshSupportedVersion = 2"

definition mesh_Files :: "agent_mesh_descriptor \<Rightarrow> (string \<times> string) list" where
  "mesh_Files d = (BundleKey, BundleKey)
     # concat (map (\<lambda>svc. [(LeafCertKey svc, LeafCertKey svc), (LeafKeyKey svc, LeafKeyKey svc)]) (md_services d))"

definition ParseMeshDescriptor :: "string + agent_mesh_descriptor \<Rightarrow> descriptor_err + agent_mesh_descriptor" where
  "ParseMeshDescriptor decoded =
     (case decoded of
        Inl e \<Rightarrow> Inl (DescriptorSyntax e)
      | Inr d \<Rightarrow>
          if md_version d \<noteq> MeshSupportedVersion then Inl (DescriptorVersion (md_version d) MeshSupportedVersion)
          else if md_services d = [] then Inl (DescriptorMissing ''services'')
          else Inr d)"

definition LoadMeshDescriptor :: "(string + agent_mesh_descriptor) read_file \<Rightarrow> descriptor_err + agent_mesh_descriptor" where
  "LoadMeshDescriptor f =
     (case f of
        Absent \<Rightarrow> Inl (DescriptorRead ''no such file'')
      | Unreadable e \<Rightarrow> Inl (DescriptorRead e)
      | Decoded d \<Rightarrow> ParseMeshDescriptor d)"

subsection \<open>The environment of a service\<close>

definition minimalPATH :: string where
  "minimalPATH = ''/usr/local/sbin:/usr/local/bin:/usr/sbin:/usr/bin:/sbin:/bin''"

definition env_entry :: "string \<Rightarrow> string \<Rightarrow> string" where
  "env_entry name value = name @ ''='' @ value"

definition no_deployment :: agent_deployment where
  "no_deployment = \<lparr>ad_region = [], ad_region_slug = [], ad_environment = [], ad_base_domain = [], ad_fqdn = [], ad_host_id = [],
     ad_cloud_provider = [], ad_cloud_region = [], ad_zone = [], ad_machine = []\<rparr>"

text \<open>The entries that inforge adds itself.\<close>

definition injected_env :: "agent_descriptor \<Rightarrow> string \<Rightarrow> string \<Rightarrow> (string \<times> string) list" where
  "injected_env d home instanceID =
     [(''PATH'', minimalPATH), (''HOME'', home), (''USER'', de_user d), (''LOGNAME'', de_user d),
      (''INFORGE_SERVICE_NAMESPACE'', de_service d)]
     @ (if instanceID \<noteq> [] then [(''INFORGE_INSTANCE_ID'', instanceID)] else [])
     @ (let dpl = de_deployment d in
        if dpl = no_deployment then []
        else [(''INFORGE_DEPLOYMENT_REGION'', ad_region dpl), (''INFORGE_DEPLOYMENT_REGION_SLUG'', ad_region_slug dpl),
              (''INFORGE_DEPLOYMENT_ENV'', ad_environment dpl), (''INFORGE_DEPLOYMENT_BASE_DOMAIN'', ad_base_domain dpl),
              (''INFORGE_DEPLOYMENT_FQDN'', ad_fqdn dpl), (''INFORGE_HOST_ID'', ad_host_id dpl)]
             @ filter (\<lambda>kv. snd kv \<noteq> [])
                 [(''INFORGE_CLOUD_PROVIDER'', ad_cloud_provider dpl), (''INFORGE_CLOUD_REGION'', ad_cloud_region dpl),
                  (''INFORGE_CLOUD_AVAILABILITY_ZONE'', ad_zone dpl), (''INFORGE_HOST_TYPE'', ad_machine dpl)])
     @ (case de_mesh d of
          None \<Rightarrow> []
        | Some m \<Rightarrow> [(''INFORGE_MESH_URL'', am_url m), (''INFORGE_MESH_SCOPE'', am_scope m)]
            @ (if am_port m > 0 then [(''INFORGE_MESH_PORT'', Itoa (am_port m))] else []))"

datatype env_err = ReservedName string | SecretMissing string string

fun secret_entries :: "(string \<times> string) list \<Rightarrow> (string \<times> string) list \<Rightarrow> string list \<Rightarrow> env_err + (string \<times> string) list" where
  "secret_entries env secrets [] = Inr []"
| "secret_entries env secrets (n # ns) =
     (if prefix ''INFORGE_'' n then Inl (ReservedName n)
      else
        let ref = the (map_of env n) in
        case map_of secrets ref of
          None \<Rightarrow> Inl (SecretMissing ref n)
        | Some v \<Rightarrow>
            if v = [] then Inl (SecretMissing ref n)
            else (case secret_entries env secrets ns of Inl e \<Rightarrow> Inl e | Inr r \<Rightarrow> Inr ((n, v) # r)))"

definition buildEnv :: "agent_descriptor \<Rightarrow> (string \<times> string) list \<Rightarrow> string \<Rightarrow> string \<Rightarrow> env_err + string list" where
  "buildEnv d secrets home instanceID =
     (case secret_entries (de_env d) secrets (map_keys (de_env d)) of
        Inl e \<Rightarrow> Inl e
      | Inr own \<Rightarrow> Inr (map (\<lambda>(n, v). env_entry n v) (injected_env d home instanceID @ own)))"

subsection \<open>The user of a service\<close>

record user_info =
  ui_uid :: int
  ui_gid :: int
  ui_home :: string

datatype passwd_err = BadUid string | BadGid string | PasswdRead string | UserNotFound string

text \<open>\<open>strconv.Atoi\<close>: a decimal number of 64 bits with an optional sign.\<close>

definition go_Atoi :: "string \<Rightarrow> int option" where
  "go_Atoi s =
     (let neg = prefix ''-'' s; digits = (if prefix ''-'' s \<or> prefix ''+'' s then tl s else s) in
      case atoi digits of
        None \<Rightarrow> None
      | Some n \<Rightarrow>
          let v = (if neg then - int n else int n) in
          if - (2 ^ 63) \<le> v \<and> v < 2 ^ 63 then Some v else None)"

text \<open>The lines that the scanner returns, and the error that ends it, if one does.\<close>

fun scan_passwd :: "string \<Rightarrow> string list \<Rightarrow> string option \<Rightarrow> passwd_err + user_info" where
  "scan_passwd name [] err = (case err of None \<Rightarrow> Inl (UserNotFound name) | Some e \<Rightarrow> Inl (PasswdRead e))"
| "scan_passwd name (line # ls) err =
     (if line = [] \<or> prefix ''#'' line then scan_passwd name ls err
      else
        let f = split_on CHR '':'' line in
        if length f < 7 \<or> f ! 0 \<noteq> name then scan_passwd name ls err
        else
          case go_Atoi (f ! 2) of
            None \<Rightarrow> Inl (BadUid name)
          | Some uid \<Rightarrow>
              (case go_Atoi (f ! 3) of
                 None \<Rightarrow> Inl (BadGid name)
               | Some gid \<Rightarrow> Inr \<lparr>ui_uid = uid, ui_gid = gid, ui_home = f ! 5\<rparr>))"

text \<open>\<open>bufio.ScanLines\<close>: a line loses a trailing carriage return, and the last line may lack its newline.\<close>

definition drop_cr :: "string \<Rightarrow> string" where
  "drop_cr l = trim_suffix [CHR 0x0D] l"

definition scan_lines :: "string \<Rightarrow> string list" where
  "scan_lines s = (let ls = split_on CHR 0x0A s in map drop_cr (if last ls = [] then butlast ls else ls))"

definition parsePasswd :: "string \<Rightarrow> string option \<Rightarrow> string \<Rightarrow> passwd_err + user_info" where
  "parsePasswd content err name = scan_passwd name (scan_lines content) err"

subsection \<open>The secrets of a service\<close>

record blob =
  bl_env :: "(string \<times> string) list"
  bl_files :: "(string \<times> string) list"

datatype blob_err = EnvClash string | FileClash string | BlobStat string string | BlobDecrypt string string

text \<open>
  The Go code ranges over the keys of the second map in an unspecified order, which shows only in the
  key that an error names.
\<close>

fun merge_map :: "(string \<Rightarrow> blob_err) \<Rightarrow> (string \<times> string) list \<Rightarrow> (string \<times> string) list \<Rightarrow> blob_err + (string \<times> string) list" where
  "merge_map clash dst [] = Inr dst"
| "merge_map clash dst ((k, v) # src) =
     (if map_of dst k \<noteq> None then Inl (clash k) else merge_map clash (dst @ [(k, v)]) src)"

definition mergeSecretsBlob :: "blob \<Rightarrow> blob \<Rightarrow> blob_err + blob" where
  "mergeSecretsBlob dst src =
     (case merge_map EnvClash (bl_env dst) (bl_env src) of
        Inl e \<Rightarrow> Inl e
      | Inr env \<Rightarrow>
          (case merge_map FileClash (bl_files dst) (bl_files src) of
             Inl e \<Rightarrow> Inl e
           | Inr files \<Rightarrow> Inr \<lparr>bl_env = env, bl_files = files\<rparr>))"

definition no_blob :: blob where "no_blob = \<lparr>bl_env = [], bl_files = []\<rparr>"

text \<open>\<open>blobs\<close> is what decrypting a file of the directory gives; the inner sum is the result of the
  decryption of a file that is there.\<close>

fun load_blobs :: "(string \<Rightarrow> (string + blob) read_file) \<Rightarrow> string \<Rightarrow> string list \<Rightarrow> blob \<Rightarrow> blob_err + blob" where
  "load_blobs blobs folder [] merged = Inr merged"
| "load_blobs blobs folder (name # names) merged =
     (let path = path_Join folder name in
      case blobs path of
        Absent \<Rightarrow> load_blobs blobs folder names merged
      | Unreadable e \<Rightarrow> Inl (BlobStat path e)
      | Decoded (Inl e) \<Rightarrow> Inl (BlobDecrypt path e)
      | Decoded (Inr b) \<Rightarrow>
          (case mergeSecretsBlob merged b of
             Inl e \<Rightarrow> Inl e
           | Inr m \<Rightarrow> load_blobs blobs folder names m))"

definition loadSecretsBlobs :: "(string \<Rightarrow> (string + blob) read_file) \<Rightarrow> string \<Rightarrow> blob_err + blob" where
  "loadSecretsBlobs blobs folder = load_blobs blobs folder [''secrets.age'', ''leaf.age''] no_blob"

subsection \<open>Dropping privilege\<close>

record creds =
  cr_uid :: int
  cr_gid :: int
  cr_groups :: "int list"

datatype sys_call = Setgroups "int list" | Setgid int | Setuid int | Exec string "string list" "string list"

text \<open>
  The calls of the kernel, as \<open>credentials(7)\<close> documents them: only the superuser may change its groups;
  another user may only set its own ids again.  Every call may fail.
\<close>

fun sys_set :: "(sys_call \<Rightarrow> bool) \<Rightarrow> sys_call \<Rightarrow> creds \<Rightarrow> creds option" where
  "sys_set fails (Setgroups gs) c = (if fails (Setgroups gs) \<or> cr_uid c \<noteq> 0 then None else Some (c\<lparr>cr_groups := gs\<rparr>))"
| "sys_set fails (Setgid g) c = (if fails (Setgid g) \<or> (cr_uid c \<noteq> 0 \<and> g \<noteq> cr_gid c) then None else Some (c\<lparr>cr_gid := g\<rparr>))"
| "sys_set fails (Setuid u) c = (if fails (Setuid u) \<or> (cr_uid c \<noteq> 0 \<and> u \<noteq> cr_uid c) then None else Some (c\<lparr>cr_uid := u\<rparr>))"
| "sys_set fails (Exec p argv env) c = None"

record image =
  im_creds :: creds
  im_path :: string
  im_argv :: "string list"
  im_env :: "string list"

datatype exec_err = PrivilegedId int int | SetgroupsFailed | SetgidFailed | SetuidFailed | UidMismatch int int | GidMismatch int int | ExecFailed string

text \<open>The result is the process image that replaces the agent.\<close>

definition dropAndExec :: "(sys_call \<Rightarrow> bool) \<Rightarrow> creds \<Rightarrow> string \<Rightarrow> int \<Rightarrow> int \<Rightarrow> string list \<Rightarrow> exec_err + image" where
  "dropAndExec fails c execPath uid gid envv =
     (if uid \<le> 0 \<or> gid \<le> 0 then Inl (PrivilegedId uid gid)
      else
        case sys_set fails (Setgroups [gid]) c of
          None \<Rightarrow> Inl SetgroupsFailed
        | Some c1 \<Rightarrow>
            (case sys_set fails (Setgid gid) c1 of
               None \<Rightarrow> Inl SetgidFailed
             | Some c2 \<Rightarrow>
                 (case sys_set fails (Setuid uid) c2 of
                    None \<Rightarrow> Inl SetuidFailed
                  | Some c3 \<Rightarrow>
                      if cr_uid c3 \<noteq> uid then Inl (UidMismatch (cr_uid c3) uid)
                      else if cr_gid c3 \<noteq> gid then Inl (GidMismatch (cr_gid c3) gid)
                      else if fails (Exec execPath [execPath] envv) then Inl (ExecFailed execPath)
                      else Inr \<lparr>im_creds = c3, im_path = execPath, im_argv = [execPath], im_env = envv\<rparr>)))"

subsection \<open>The entry points\<close>

text \<open>What the agent finds on its host.\<close>

record agent_host =
  ah_descriptor :: "string \<Rightarrow> (string + agent_descriptor) read_file"
  ah_blobs :: "string \<Rightarrow> (string + blob) read_file"
  ah_passwd :: "string \<times> string option"
  ah_sys_fails :: "sys_call \<Rightarrow> bool"
  ah_instance :: string
  ah_world :: fs_world

datatype boot_err =
    BootDescriptor descriptor_err
  | BootUser passwd_err
  | BootSecrets blob_err
  | BootProject agent_err
  | BootEnv env_err
  | BootExec exec_err
  | BootUsage

definition lookupUser :: "agent_host \<Rightarrow> string \<Rightarrow> passwd_err + user_info" where
  "lookupUser ah name = parsePasswd (fst (ah_passwd ah)) (snd (ah_passwd ah)) name"

text \<open>The agent runs as root.\<close>

definition root_creds :: creds where
  "root_creds = \<lparr>cr_uid = 0, cr_gid = 0, cr_groups = [0]\<rparr>"

definition runBoot :: "agent_host \<Rightarrow> string \<Rightarrow> host \<Rightarrow> (boot_err + image) \<times> host" where
  "runBoot ah folder s =
     (case LoadDescriptor (ah_descriptor ah (path_Join folder ''descriptor.yaml'')) of
        Inl e \<Rightarrow> (Inl (BootDescriptor e), s)
      | Inr desc \<Rightarrow>
          (case lookupUser ah (de_user desc) of
             Inl e \<Rightarrow> (Inl (BootUser e), s)
           | Inr user \<Rightarrow>
               (case loadSecretsBlobs (ah_blobs ah) folder of
                  Inl e \<Rightarrow> (Inl (BootSecrets e), s)
                | Inr b \<Rightarrow>
                    (case projectFiles (ah_world ah) (de_files desc) (bl_files b) (host_RuntimeDir (de_service desc))
                            (ui_uid user) (ui_gid user) s of
                       (Inl e, s') \<Rightarrow> (Inl (BootProject e), s')
                     | (Inr (pathEnv, changed), s') \<Rightarrow>
                         (case buildEnv desc (bl_env b) (ui_home user) (ah_instance ah) of
                            Inl e \<Rightarrow> (Inl (BootEnv e), s')
                          | Inr envv \<Rightarrow>
                              (case dropAndExec (ah_sys_fails ah) root_creds (de_exec desc) (ui_uid user) (ui_gid user) (envv @ pathEnv) of
                                 Inl e \<Rightarrow> (Inl (BootExec e), s')
                               | Inr im \<Rightarrow> (Inr im, s')))))))"

definition projectLeaf :: "agent_host \<Rightarrow> string \<Rightarrow> host \<Rightarrow> (boot_err + unit) \<times> host" where
  "projectLeaf ah folder s =
     (case ah_blobs ah (path_Join folder ''leaf.age'') of
        Absent \<Rightarrow> (Inr (), s)
      | Unreadable e \<Rightarrow> (Inl (BootSecrets (BlobStat (path_Join folder ''leaf.age'') e)), s)
      | Decoded _ \<Rightarrow>
          (case LoadDescriptor (ah_descriptor ah (path_Join folder ''descriptor.yaml'')) of
             Inl e \<Rightarrow> (Inl (BootDescriptor e), s)
           | Inr desc \<Rightarrow>
               (case lookupUser ah (de_user desc) of
                  Inl e \<Rightarrow> (Inl (BootUser e), s)
                | Inr user \<Rightarrow>
                    (case loadSecretsBlobs (ah_blobs ah) folder of
                       Inl e \<Rightarrow> (Inl (BootSecrets e), s)
                     | Inr b \<Rightarrow>
                         (case projectFiles (ah_world ah) (de_files desc) (bl_files b) (host_RuntimeDir (de_service desc))
                                 (ui_uid user) (ui_gid user) s of
                            (Inl e, s') \<Rightarrow> (Inl (BootProject e), s')
                          | (Inr r, s') \<Rightarrow> (Inr (), s'))))))"

definition runMeshProject :: "agent_host \<Rightarrow> string \<Rightarrow> host \<Rightarrow> (boot_err + unit) \<times> host" where
  "runMeshProject ah folder s =
     (let path = path_Join folder ''leaf.age'' in
      case ah_blobs ah path of
        Absent \<Rightarrow> (Inr (), s)
      | Unreadable e \<Rightarrow> (Inl (BootSecrets (BlobStat path e)), s)
      | Decoded (Inl e) \<Rightarrow> (Inl (BootSecrets (BlobDecrypt path e)), s)
      | Decoded (Inr b) \<Rightarrow>
          (case lookupUser ah ''nginx'' of
             Inl e \<Rightarrow> (Inl (BootUser e), s)
           | Inr user \<Rightarrow>
               (case projectFiles (ah_world ah) (map (\<lambda>(k, v). (k, k)) (bl_files b)) (bl_files b) mesh_RuntimeDir
                       (ui_uid user) (ui_gid user) s of
                  (Inl e, s') \<Rightarrow> (Inl (BootProject e), s')
                | (Inr r, s') \<Rightarrow> (Inr (), s'))))"

text \<open>What \<open>Run\<close> does with its arguments, the first of which is the program.\<close>

datatype agent_action = PrintVersion | MeshProject string | ProjectLeaf string | Boot string | Usage

definition agent_Run :: "string list \<Rightarrow> agent_action" where
  "agent_Run args =
     (if length args = 2 \<and> (args ! 1 = ''--version'' \<or> args ! 1 = ''version'') then PrintVersion
      else if length args = 3 \<and> args ! 1 = ''mesh-project'' then MeshProject (args ! 2)
      else if length args = 3 \<and> args ! 1 = ''project-leaf'' then ProjectLeaf (args ! 2)
      else if length args = 2 then Boot (args ! 1)
      else Usage)"

end
