(* ===== verification/AgentProps.thy ===== *)
theory AgentProps
  imports Agent
begin

text \<open>
  What the host agent guarantees of the process it starts, of the blobs it merges, and of the material
  the mesh proxy reads.
\<close>

subsection \<open>Reading an environment\<close>

text \<open>The value of a variable is the one of its first entry.\<close>

fun getenv :: "string list \<Rightarrow> string \<Rightarrow> string option" where
  "getenv [] n = None"
| "getenv (e # es) n =
     (case cut_at CHR ''='' e of
        None \<Rightarrow> getenv es n
      | Some (k, v) \<Rightarrow> if k = n then Some v else getenv es n)"

lemma getenv_entries:
  "\<forall>(n, v)\<in>set kvs. CHR ''='' \<notin> set n \<Longrightarrow> getenv (map (\<lambda>(n, v). env_entry n v) kvs) n = map_of kvs n"
  by (induction kvs) (auto simp: env_entry_def cut_at_append)

lemma injected_names:
  "(n, v) \<in> set (injected_env d home i) \<Longrightarrow>
     CHR ''='' \<notin> set n \<and> (n \<in> {''PATH'', ''HOME'', ''USER'', ''LOGNAME''} \<or> prefix ''INFORGE_'' n)"
proof -
  have f: "list_all P xs \<Longrightarrow> list_all P (filter Q xs)" for P :: "string \<times> string \<Rightarrow> bool" and Q xs
    by (simp add: list_all_iff)
  have "list_all (\<lambda>(n, v). CHR ''='' \<notin> set n \<and> (n \<in> {''PATH'', ''HOME'', ''USER'', ''LOGNAME''} \<or> prefix ''INFORGE_'' n)) (injected_env d home i)"
    unfolding injected_env_def Let_def list_all_append
    by (intro conjI) (simp_all add: f split: option.split)
  then show "(n, v) \<in> set (injected_env d home i) \<Longrightarrow>
     CHR ''='' \<notin> set n \<and> (n \<in> {''PATH'', ''HOME'', ''USER'', ''LOGNAME''} \<or> prefix ''INFORGE_'' n)"
    by (fastforce simp: list_all_iff)
qed

lemma secret_entries_map:
  "secret_entries env secrets ns = Inr own \<Longrightarrow>
     map fst own = ns \<and> (\<forall>(n, v)\<in>set own. \<not> prefix ''INFORGE_'' n \<and> map_of secrets (the (map_of env n)) = Some v \<and> v \<noteq> [])"
  by (induction ns arbitrary: own) (auto simp: Let_def split: if_splits option.splits sum.splits)

lemma map_of_functional: "\<forall>(k, v)\<in>set kvs. v = f k \<Longrightarrow> map_of kvs n = (if n \<in> fst ` set kvs then Some (f n) else None)"
  by (induction kvs) auto

lemma map_keys_set: "set (map_keys m) = fst ` set m"
  by (simp add: map_keys_def)

subsection \<open>The privilege drop\<close>

lemma dropAndExec_root:
  "dropAndExec fails root_creds p uid gid envv = Inr im \<Longrightarrow>
     uid > 0 \<and> gid > 0 \<and> im = \<lparr>im_creds = \<lparr>cr_uid = uid, cr_gid = gid, cr_groups = [gid]\<rparr>, im_path = p, im_argv = [p], im_env = envv\<rparr>"
  by (auto simp: dropAndExec_def root_creds_def split: if_splits)

subsection \<open>Runtime directories\<close>

lemma host_runtime_abs: "host_RuntimeDir svc = abs_path [''run'', ''wardnet'', svc]"
  by (simp add: host_RuntimeDir_def RuntimeSubdir_def render_path_def)

lemma mesh_runtime_abs: "mesh_RuntimeDir = abs_path [''run'', ''wardnet'', ''mesh'']"
  by (simp add: mesh_RuntimeDir_def render_path_def)

lemma names_ok [simp]: "name_ok ''run''" "name_ok ''wardnet''" "name_ok ''mesh''" "name_ok ''leaf.crt''" "name_ok ''leaf.key''" "name_ok ''bundle.crt''"
  by (simp_all add: name_ok_def)

lemma leaf_keys:
  assumes "name_ok svc"
  shows "clean_key (LeafCertKey svc)" "clean_key (LeafKeyKey svc)" "clean_key BundleKey"
    and "LeafCertPath svc = abs_path (target [''run'', ''wardnet'', ''mesh''] (LeafCertKey svc))"
    and "LeafKeyPath svc = abs_path (target [''run'', ''wardnet'', ''mesh''] (LeafKeyKey svc))"
    and "BundlePath = abs_path (target [''run'', ''wardnet'', ''mesh''] BundleKey)"
proof -
  have slash: "CHR ''/'' \<notin> set svc" using assms by (simp add: name_ok_def)
  have s: "split_on CHR ''/'' (LeafCertKey svc) = [svc, ''leaf.crt'']" "split_on CHR ''/'' (LeafKeyKey svc) = [svc, ''leaf.key'']"
    "split_on CHR ''/'' BundleKey = [''bundle.crt'']"
    using split_on_append_sep [OF slash, of "''leaf.crt''"] split_on_append_sep [OF slash, of "''leaf.key''"]
    by (simp_all add: LeafCertKey_def LeafKeyKey_def LeafCertFile_def LeafKeyFile_def BundleKey_def)
  show "clean_key (LeafCertKey svc)" "clean_key (LeafKeyKey svc)" "clean_key BundleKey"
    using assms by (simp_all add: clean_key_def s)
  show "LeafCertPath svc = abs_path (target [''run'', ''wardnet'', ''mesh''] (LeafCertKey svc))"
    "LeafKeyPath svc = abs_path (target [''run'', ''wardnet'', ''mesh''] (LeafKeyKey svc))"
    "BundlePath = abs_path (target [''run'', ''wardnet'', ''mesh''] BundleKey)"
    by (simp_all add: target_def s LeafCertPath_def LeafKeyPath_def BundlePath_def mesh_RuntimeDir_def render_path_def BundleKey_def)
qed

subsection \<open>The files that a mesh configuration names\<close>

definition tls_file_directives :: "string list" where
  "tls_file_directives = [''ssl_certificate'', ''ssl_certificate_key'', ''ssl_client_certificate'',
     ''proxy_ssl_certificate'', ''proxy_ssl_certificate_key'', ''proxy_ssl_trusted_certificate'']"

fun tls_files :: "directive \<Rightarrow> string list" where
  "tls_files (Directive n args b) =
     (if n \<in> set tls_file_directives then args else [])
     @ (case b of None \<Rightarrow> [] | Some ds \<Rightarrow> concat (map tls_files ds))"


lemma tls_ingressServer:
  "set (tls_files (ingressServer s la bp rs)) = {ls_cert s, ls_key s, bp}"
proof -
  have l: "tls_files (proxyLocation s m) = []" for m
    by (simp add: proxyLocation_def block_def dir_def tls_file_directives_def)
  show ?thesis
    by (auto simp: ingressServer_def block_def dir_def tls_file_directives_def l comp_def)
qed

lemma tls_egressServer: "set (tls_files (egressServer e bp)) = {ec_cert e, ec_key e, bp}"
  by (auto simp: egressServer_def block_def dir_def tls_file_directives_def)

lemma tls_map: "tls_files (block ''map'' as (map (\<lambda>x. dir (f x) [g x]) xs)) = concat (map (\<lambda>x. tls_files (dir (f x) [g x])) xs)"
  by (simp add: block_def tls_file_directives_def comp_def)

lemma mesh_http_servers:
  assumes "mesh_http c = Inr http" "d \<in> set http" "d_name d = ''server''"
  shows "(\<exists>s\<in>set (mc_local c). \<exists>rs. d = ingressServer s (mc_listen c) (mc_bundle c) rs) \<or> (\<exists>e\<in>set (mc_egress c). d = egressServer e (mc_bundle c))"
proof -
  obtain ing egr where h: "ingressDirectives (mc_local c) (mc_listen c) (mc_bundle c) = Inr ing"
    "egressDirectives (mc_egress c) (mc_targets c) (mc_bundle c) = Inr egr" "http = upgrade_map # ing @ egr"
    using assms(1) by (auto simp: mesh_http_def split: if_splits sum.splits)
  have i: "\<exists>s\<in>set (mc_local c). d = ingressServer s (mc_listen c) (mc_bundle c) (regexes_of (sort_key ls_name (mc_local c)) (ls_name s))"
    if "d \<in> set ing"
    using h(1) that assms(3) by (auto simp: ingressDirectives_def Let_def split: if_splits option.splits)
  have e: "\<exists>e\<in>set (mc_egress c). d = egressServer e (mc_bundle c)" if "d \<in> set egr"
    using h(2) that assms(3) by (auto simp: egressDirectives_def Let_def block_def split: if_splits option.splits)
  have "d \<in> set ing \<or> d \<in> set egr" using assms(2,3) h(3) by auto
  then show ?thesis using i e by blast
qed

text \<open>The material files that the servers of a mesh configuration name.\<close>

definition server_files :: "directive list \<Rightarrow> string list" where
  "server_files http = concat (map tls_files (filter (\<lambda>d. d_name d = ''server'') http))"

lemma server_files_from:
  assumes "mesh_http c = Inr http" "p \<in> set (server_files http)"
  shows "p = mc_bundle c \<or> p \<in> ls_cert ` set (mc_local c) \<or> p \<in> ls_key ` set (mc_local c)
    \<or> p \<in> ec_cert ` set (mc_egress c) \<or> p \<in> ec_key ` set (mc_egress c)"
proof -
  obtain d where d: "d \<in> set http" "d_name d = ''server''" "p \<in> set (tls_files d)"
    using assms(2) by (auto simp: server_files_def)
  from mesh_http_servers [OF assms(1) d(1,2)] show ?thesis
  proof (elim disjE bexE exE)
    fix s rs assume "s \<in> set (mc_local c)" "d = ingressServer s (mc_listen c) (mc_bundle c) rs"
    then show ?thesis using d(3) by (auto simp: tls_ingressServer)
  next
    fix e assume "e \<in> set (mc_egress c)" "d = egressServer e (mc_bundle c)"
    then show ?thesis using d(3) by (auto simp: tls_egressServer)
  qed
qed

text \<open>The inputs of a host take their material from the paths of the services the descriptor lists.\<close>

definition material_of :: "mesh_host_inputs \<Rightarrow> bool" where
  "material_of mh \<longleftrightarrow>
     (\<forall>l\<in>set (mh_local mh). \<exists>n\<in>set (descriptor_services mh). ls_cert l = LeafCertPath n \<and> ls_key l = LeafKeyPath n)
     \<and> (\<forall>e\<in>set (mh_egress mh). \<exists>n\<in>set (descriptor_services mh). ec_cert e = LeafCertPath n \<and> ec_key e = LeafKeyPath n)"

lemma inputs_material:
  assumes "meshInputsByHost res canonical scope allowed h = Some mh"
  shows "material_of mh"
proof -
  let ?svcs = "ServicesByHost res canonical h"
  have mh: "mh_local mh = concat (map (local_of scope allowed) ?svcs)"
    "mh_egress mh = map (\<lambda>(i, s). egress_of i s) (enumerate 0 ?svcs)
       @ (case GatewayMemberByHost res canonical h of None \<Rightarrow> [] | Some g \<Rightarrow> [gateway_egress g])"
    using assms by (auto simp: meshInputsByHost_def Let_def split: if_splits)
  have names: "svc_name s \<in> set (descriptor_services mh)" if "s \<in> set ?svcs" for s
  proof -
    obtain i where "i < length ?svcs" "?svcs ! i = s" using \<open>s \<in> set ?svcs\<close> by (auto simp: in_set_conv_nth)
    then have "(i, s) \<in> set (enumerate 0 ?svcs)" by (force simp: in_set_enumerate_eq)
    then show ?thesis by (force simp: descriptor_services_def mh(2) egress_of_def image_iff)
  qed
  have "\<exists>n\<in>set (descriptor_services mh). ls_cert l = LeafCertPath n \<and> ls_key l = LeafKeyPath n" if "l \<in> set (mh_local mh)" for l
    using that names by (auto simp: mh(1) local_of_def split: option.splits)
  moreover have "\<exists>n\<in>set (descriptor_services mh). ec_cert e = LeafCertPath n \<and> ec_key e = LeafKeyPath n" if "e \<in> set (mh_egress mh)" for e
  proof -
    have "ec_cert e = LeafCertPath (ec_name e) \<and> ec_key e = LeafKeyPath (ec_name e)"
      using that by (auto simp: mh(2) egress_of_def gateway_egress_def split: option.splits)
    then show ?thesis using that by (auto simp: descriptor_services_def)
  qed
  ultimately show ?thesis unfolding material_of_def by blast
qed

text \<open>The bundle and the leaves of the listed services, as keys of the projection.\<close>

lemma mesh_keys:
  "fst ` set (mesh_Files d) = insert BundleKey (LeafCertKey ` set (md_services d) \<union> LeafKeyKey ` set (md_services d))"
  by (auto simp: mesh_Files_def image_Union image_iff) 

lemma mesh_project_run:
  assumes "ah_blobs ah (path_Join folder ''leaf.age'') = Decoded (Inr b)" "runMeshProject ah folder s = (Inr (), s')"
    and "\<And>p n. \<not> fw_fails (ah_world ah) (Remove p) n" "\<forall>k\<in>fst ` set (bl_files b). clean_key k" "k \<in> fst ` set (bl_files b)"
  shows "\<exists>c. map_of (bl_files b) k = Some c \<and> c \<noteq> [] \<and> in_place (ho_tree s') (target [''run'', ''wardnet'', ''mesh''] k) c"
proof -
  let ?files = "map (\<lambda>(k, v). (k, k)) (bl_files b)"
  obtain user pe ch where run: "lookupUser ah ''nginx'' = Inr user"
    "projectFiles (ah_world ah) ?files (bl_files b) (abs_path [''run'', ''wardnet'', ''mesh'']) (ui_uid user) (ui_gid user) s = (Inr (pe, ch), s')"
    using assms(1,2) by (auto simp: runMeshProject_def Let_def mesh_runtime_abs split: sum.splits prod.splits)
  have n: "list_all name_ok [''run'', ''wardnet'', ''mesh'']" by simp
  have ck: "\<forall>(v, k)\<in>set ?files. clean_key k" using assms(4) by auto
  have "map_of (map (\<lambda>(k, v). (k, k)) fs) k = Some k" if "k \<in> fst ` set fs" for fs :: "(string \<times> string) list"
    using that by (induction fs) auto
  note mk = this [OF assms(5)]
  from project_returns [OF n ck assms(3) run(2) mk] show ?thesis by blast
qed


subsection \<open>Merging the blobs\<close>

lemma merge_map_eq:
  "distinct (map fst src) \<Longrightarrow>
     merge_map clash dst src =
       (case find (\<lambda>k. k \<in> fst ` set dst) (map fst src) of None \<Rightarrow> Inr (dst @ src) | Some k \<Rightarrow> Inl (clash k))"
proof (induction src arbitrary: dst)
  case (Cons x src)
  obtain k v where x: "x = (k, v)" by (cases x)
  have f: "find (\<lambda>k'. k' \<in> fst ` set (dst @ [(k, v)])) (map fst src) = find (\<lambda>k. k \<in> fst ` set dst) (map fst src)"
    by (rule find_cong) (use Cons.prems in \<open>auto simp: x\<close>)
  show ?case
  proof (cases "k \<in> fst ` set dst")
    case True
    then have "map_of dst k \<noteq> None" by (simp add: map_of_eq_None_iff)
    then show ?thesis using True by (simp add: x)
  next
    case False
    then have "map_of dst k = None" by (simp add: map_of_eq_None_iff)
    then show ?thesis using Cons f False by (simp add: x split: option.split)
  qed
qed simp

lemma merge_clash:
  "distinct (map fst src) \<Longrightarrow>
     (if fst ` set dst \<inter> fst ` set src = {} then merge_map clash dst src = Inr (dst @ src)
      else \<exists>k\<in>fst ` set dst \<inter> fst ` set src. merge_map clash dst src = Inl (clash k))"
proof -
  assume d: "distinct (map fst src)"
  show ?thesis
  proof (cases "find (\<lambda>k. k \<in> fst ` set dst) (map fst src)")
    case None
    then have "fst ` set dst \<inter> set (map fst src) = {}" unfolding find_None_iff by blast
    then have "fst ` set dst \<inter> fst ` set src = {}" by simp
    then show ?thesis using None by (simp add: merge_map_eq [OF d])
  next
    case (Some k)
    then have "k \<in> fst ` set dst \<inter> set (map fst src)" unfolding find_Some_iff by (metis IntI nth_mem)
    then have k: "k \<in> fst ` set dst \<inter> fst ` set src" by simp
    have "merge_map clash dst src = Inl (clash k)" using Some by (simp only: merge_map_eq [OF d] option.case)
    then show ?thesis using k by (metis empty_iff)
  qed
qed

definition blob_wf :: "blob \<Rightarrow> bool" where
  "blob_wf b \<longleftrightarrow> distinct (map fst (bl_env b)) \<and> distinct (map fst (bl_files b))"

definition blob_disjoint :: "blob \<Rightarrow> blob \<Rightarrow> bool" where
  "blob_disjoint a b \<longleftrightarrow> fst ` set (bl_env a) \<inter> fst ` set (bl_env b) = {} \<and> fst ` set (bl_files a) \<inter> fst ` set (bl_files b) = {}"

lemma merge_blobs:
  assumes "blob_wf b"
  shows "(blob_disjoint a b \<longrightarrow> mergeSecretsBlob a b = Inr \<lparr>bl_env = bl_env a @ bl_env b, bl_files = bl_files a @ bl_files b\<rparr>)
    \<and> (\<not> blob_disjoint a b \<longrightarrow>
        (\<exists>k. (k \<in> fst ` set (bl_env a) \<inter> fst ` set (bl_env b) \<and> mergeSecretsBlob a b = Inl (EnvClash k))
           \<or> (k \<in> fst ` set (bl_files a) \<inter> fst ` set (bl_files b) \<and> mergeSecretsBlob a b = Inl (FileClash k))))"
proof -
  have d: "distinct (map fst (bl_env b))" "distinct (map fst (bl_files b))" using assms by (simp_all add: blob_wf_def)
  note e = merge_clash [OF d(1), where dst = "bl_env a" and clash = EnvClash]
  note f = merge_clash [OF d(2), where dst = "bl_files a" and clash = FileClash]
  show ?thesis
  proof (cases "fst ` set (bl_env a) \<inter> fst ` set (bl_env b) = {}")
    case True
    then have ee: "merge_map EnvClash (bl_env a) (bl_env b) = Inr (bl_env a @ bl_env b)" using e by simp
    show ?thesis
    proof (cases "fst ` set (bl_files a) \<inter> fst ` set (bl_files b) = {}")
      case files: True
      then have "merge_map FileClash (bl_files a) (bl_files b) = Inr (bl_files a @ bl_files b)" using f by simp
      then show ?thesis using ee True files by (simp add: mergeSecretsBlob_def blob_disjoint_def)
    next
      case files: False
      then obtain k where "k \<in> fst ` set (bl_files a) \<inter> fst ` set (bl_files b)" "merge_map FileClash (bl_files a) (bl_files b) = Inl (FileClash k)"
        using f by (auto split: if_splits)
      then show ?thesis using ee files by (auto simp: mergeSecretsBlob_def blob_disjoint_def)
    qed
  next
    case False
    then obtain k where "k \<in> fst ` set (bl_env a) \<inter> fst ` set (bl_env b)" "merge_map EnvClash (bl_env a) (bl_env b) = Inl (EnvClash k)"
      using e by (auto split: if_splits)
    then show ?thesis using False by (auto simp: mergeSecretsBlob_def blob_disjoint_def)
  qed
qed

lemma first_blob: "blob_wf a \<Longrightarrow> mergeSecretsBlob no_blob a = Inr a"
  using merge_blobs [of a no_blob] by (simp add: blob_disjoint_def no_blob_def)

subsection \<open>Properties\<close>

text \<open>The entries that are built: what inforge injects, then the secrets.\<close>

lemma built_environment:
  assumes "buildEnv d secrets home instanceID = Inr env" "\<forall>n\<in>fst ` set (de_env d). CHR ''='' \<notin> set n"
  shows "getenv env n = (case map_of (injected_env d home instanceID) n of
        Some v \<Rightarrow> Some v
      | None \<Rightarrow> if n \<in> fst ` set (de_env d) then map_of secrets (the (map_of (de_env d) n)) else None)
    \<and> (n \<in> fst ` set (de_env d) \<longrightarrow> (\<exists>v. map_of secrets (the (map_of (de_env d) n)) = Some v \<and> v \<noteq> [])
        \<and> \<not> prefix ''INFORGE_'' n
        \<and> (map_of (injected_env d home instanceID) n \<noteq> None \<longrightarrow> n \<in> {''PATH'', ''HOME'', ''USER'', ''LOGNAME''}))"
proof -
  obtain own where own: "secret_entries (de_env d) secrets (map_keys (de_env d)) = Inr own"
    and env: "env = map (\<lambda>(n, v). env_entry n v) (injected_env d home instanceID @ own)"
    using assms(1) by (auto simp: buildEnv_def split: sum.splits)
  note m = secret_entries_map [OF own]
  have keys: "fst ` set own = fst ` set (de_env d)" using m by (metis list.set_map map_keys_set)
  have noeq: "\<forall>(n, v)\<in>set (injected_env d home instanceID @ own). CHR ''='' \<notin> set n"
  proof
    fix x assume "x \<in> set (injected_env d home instanceID @ own)"
    then consider "x \<in> set (injected_env d home instanceID)" | "fst x \<in> fst ` set own" by auto
    then show "case x of (n, v) \<Rightarrow> CHR ''='' \<notin> set n"
    proof cases
      case 1
      then show ?thesis using injected_names [of "fst x" "snd x" d home instanceID] by (simp add: split_def)
    next
      case 2
      then have "CHR ''='' \<notin> set (fst x)" using assms(2) unfolding keys by blast
      then show ?thesis by (simp add: split_def)
    qed
  qed
  have look: "(\<exists>v. map_of secrets (the (map_of (de_env d) n)) = Some v \<and> v \<noteq> []) \<and> \<not> prefix ''INFORGE_'' n"
    if h: "n \<in> fst ` set (de_env d)"
  proof -
    obtain v where "(n, v) \<in> set own" using h unfolding keys [symmetric] by auto
    then show ?thesis using conjunct2 [OF m] by auto
  qed
  have sec: "map_of own n = (if n \<in> fst ` set (de_env d) then map_of secrets (the (map_of (de_env d) n)) else None)"
  proof -
    have "\<forall>(k, v)\<in>set own. v = the (map_of secrets (the (map_of (de_env d) k)))" using m by auto
    from map_of_functional [OF this, of n] have "map_of own n = (if n \<in> fst ` set own then Some (the (map_of secrets (the (map_of (de_env d) n)))) else None)" .
    then show ?thesis unfolding keys by (metis look option.sel)
  qed
  have "getenv env n = (case map_of (injected_env d home instanceID) n of Some v \<Rightarrow> Some v | None \<Rightarrow> map_of own n)"
    unfolding env getenv_entries [OF noeq] by (simp add: map_add_def split: option.split)
  moreover have "n \<in> {''PATH'', ''HOME'', ''USER'', ''LOGNAME''} \<or> prefix ''INFORGE_'' n" if "map_of (injected_env d home instanceID) n \<noteq> None"
  proof -
    obtain v where "(n, v) \<in> set (injected_env d home instanceID)" using \<open>map_of (injected_env d home instanceID) n \<noteq> None\<close>
      by (auto dest: map_of_SomeD)
    from injected_names [OF this] show ?thesis by blast
  qed
  ultimately show ?thesis using look unfolding sec by blast
qed

lemma getenv_append:
  "\<forall>e\<in>set es. cut_at CHR ''='' e \<noteq> None \<Longrightarrow>
     getenv (es @ fs) n = (case getenv es n of Some v \<Rightarrow> Some v | None \<Rightarrow> getenv fs n)"
  by (induction es) (auto split: option.splits)

text \<open>The entries of the projected files, whatever the projection changed.\<close>

lemma stage_pass_env:
  "stage_pass w files secrets folder uid gid vs pending pathEnv changed s = (Inr (env, ch), r) \<Longrightarrow>
     env = pathEnv @ map (\<lambda>v. env_entry v (file_dest folder files v)) vs"
proof (induction vs arbitrary: pending pathEnv changed s)
  case (Cons v vs)
  have "\<exists>pending' changed' s'. stage_pass w files secrets folder uid gid vs pending'
      (pathEnv @ [v @ ''='' @ file_dest folder files v]) changed' s' = (Inr (env, ch), r)"
    using Cons.prems by (auto simp: Let_def split: if_splits option.splits sum.splits prod.splits bool.splits)
  then obtain pending' changed' s' where "stage_pass w files secrets folder uid gid vs pending'
      (pathEnv @ [v @ ''='' @ file_dest folder files v]) changed' s' = (Inr (env, ch), r)" by blast
  from Cons.IH [OF this] show ?case by (simp add: env_entry_def)
qed simp

lemma projected_env:
  assumes "projectFiles w files secrets folder uid gid s = (Inr (pathEnv, ch), s')"
  shows "pathEnv = map (\<lambda>v. env_entry v (file_dest folder files v)) (map_keys files)"
proof (cases "files = []")
  case True
  then show ?thesis using assms by (simp add: projectFiles_def map_keys_def)
next
  case False
  obtain a s1 where "mkdirOwned w folder folder uid gid s = (Inr a, s1)"
    using assms False by (auto simp: projectFiles_def split: prod.splits sum.splits)
  then obtain pending s2 where "stage_pass w files secrets folder uid gid (map_keys files) [] [] False s1 = (Inr (pathEnv, ch), pending, s2)"
    using assms False by (auto simp: projectFiles_def split: prod.splits sum.splits)
  from stage_pass_env [OF this] show ?thesis by simp
qed

lemma getenv_files:
  assumes "\<forall>v\<in>fst ` set files. CHR ''='' \<notin> set v"
  shows "getenv (map (\<lambda>v. env_entry v (file_dest folder files v)) (map_keys files)) n
    = (if n \<in> fst ` set files then Some (file_dest folder files n) else None)"
proof -
  have m: "map (\<lambda>v. env_entry v (file_dest folder files v)) vs
      = map (\<lambda>(n, v). env_entry n v) (map (\<lambda>v. (v, file_dest folder files v)) vs)" for vs by simp
  have e: "\<forall>(n, v)\<in>set (map (\<lambda>v. (v, file_dest folder files v)) (map_keys files)). CHR ''='' \<notin> set n"
    using assms by (auto simp: map_keys_set)
  have f: "\<forall>(k, v)\<in>set (map (\<lambda>v. (v, file_dest folder files v)) (map_keys files)). v = file_dest folder files k" by auto
  show ?thesis unfolding m getenv_entries [OF e] map_of_functional [OF f] by (simp add: map_keys_set image_image)
qed

text \<open>C34: The environment of the process that the agent starts.  A variable has the value inforge injects,
  if it injects one, and else the secret its descriptor maps it to, and else the path of the file its
  descriptor projects for it; no other variable is set.  Every variable mapped to a secret has a non-empty
  one and avoids the reserved prefix, so an injected variable can shadow a secret only when it is one of
  \<open>PATH\<close>, \<open>HOME\<close>, \<open>USER\<close> and \<open>LOGNAME\<close>.  The names of the descriptor have no equals sign.\<close>

theorem service_environment:
  assumes "runBoot ah folder s = (Inr im, s')"
    and "LoadDescriptor (ah_descriptor ah (path_Join folder ''descriptor.yaml'')) = Inr d"
    and "\<forall>n\<in>fst ` set (de_env d) \<union> fst ` set (de_files d). CHR ''='' \<notin> set n"
  shows "\<exists>user b. lookupUser ah (de_user d) = Inr user \<and> loadSecretsBlobs (ah_blobs ah) folder = Inr b
    \<and> (\<forall>n. getenv (im_env im) n =
         (case map_of (injected_env d (ui_home user) (ah_instance ah)) n of
            Some v \<Rightarrow> Some v
          | None \<Rightarrow>
              if n \<in> fst ` set (de_env d) then map_of (bl_env b) (the (map_of (de_env d) n))
              else if n \<in> fst ` set (de_files d) then Some (file_dest (host_RuntimeDir (de_service d)) (de_files d) n)
              else None))
    \<and> (\<forall>n\<in>fst ` set (de_env d). (\<exists>v. map_of (bl_env b) (the (map_of (de_env d) n)) = Some v \<and> v \<noteq> [])
         \<and> \<not> prefix ''INFORGE_'' n
         \<and> (map_of (injected_env d (ui_home user) (ah_instance ah)) n \<noteq> None \<longrightarrow> n \<in> {''PATH'', ''HOME'', ''USER'', ''LOGNAME''}))"
proof -
  obtain user b pathEnv ch env where run: "lookupUser ah (de_user d) = Inr user" "loadSecretsBlobs (ah_blobs ah) folder = Inr b"
    "projectFiles (ah_world ah) (de_files d) (bl_files b) (host_RuntimeDir (de_service d)) (ui_uid user) (ui_gid user) s = (Inr (pathEnv, ch), s')"
    "buildEnv d (bl_env b) (ui_home user) (ah_instance ah) = Inr env"
    "dropAndExec (ah_sys_fails ah) root_creds (de_exec d) (ui_uid user) (ui_gid user) (env @ pathEnv) = Inr im"
    using assms(1,2) by (auto simp: runBoot_def split: sum.splits prod.splits)
  have im: "im_env im = env @ pathEnv" using dropAndExec_root [OF run(5)] by simp
  have names: "\<forall>n\<in>fst ` set (de_env d). CHR ''='' \<notin> set n" "\<forall>n\<in>fst ` set (de_files d). CHR ''='' \<notin> set n" using assms(3) by auto
  note built = built_environment [OF run(4) names(1)]
  have "\<forall>e\<in>set env. cut_at CHR ''='' e \<noteq> None"
  proof
    fix e assume "e \<in> set env"
    then obtain k v where "e = env_entry k v" using run(4) by (auto simp: buildEnv_def split: sum.splits)
    then show "cut_at CHR ''='' e \<noteq> None" by (simp add: env_entry_def cut_at_None)
  qed
  note app = getenv_append [OF this]
  have "getenv (im_env im) n = (case getenv env n of Some v \<Rightarrow> Some v
      | None \<Rightarrow> if n \<in> fst ` set (de_files d) then Some (file_dest (host_RuntimeDir (de_service d)) (de_files d) n) else None)" for n
    unfolding im app projected_env [OF run(3)] getenv_files [OF names(2)] ..
  then have "getenv (im_env im) n =
         (case map_of (injected_env d (ui_home user) (ah_instance ah)) n of
            Some v \<Rightarrow> Some v
          | None \<Rightarrow>
              if n \<in> fst ` set (de_env d) then map_of (bl_env b) (the (map_of (de_env d) n))
              else if n \<in> fst ` set (de_files d) then Some (file_dest (host_RuntimeDir (de_service d)) (de_files d) n)
              else None)" for n
    using built [of n] by (auto split: option.split)
  then show ?thesis using run(1,2) built by blast
qed

text \<open>C35: The two secret files of a service are merged exactly when no key is in both, and then hold what
  either holds; otherwise the error names a key of both.\<close>

theorem blobs_merge:
  assumes "blobs (path_Join folder ''secrets.age'') = Decoded (Inr a)" "blobs (path_Join folder ''leaf.age'') = Decoded (Inr b)"
    and "blob_wf a" "blob_wf b"
  shows "if blob_disjoint a b
    then \<exists>m. loadSecretsBlobs blobs folder = Inr m
      \<and> map_of (bl_env m) = map_of (bl_env b) ++ map_of (bl_env a) \<and> map_of (bl_files m) = map_of (bl_files b) ++ map_of (bl_files a)
    else \<exists>k. (k \<in> fst ` set (bl_env a) \<inter> fst ` set (bl_env b) \<and> loadSecretsBlobs blobs folder = Inl (EnvClash k))
           \<or> (k \<in> fst ` set (bl_files a) \<inter> fst ` set (bl_files b) \<and> loadSecretsBlobs blobs folder = Inl (FileClash k))"
proof -
  have l: "loadSecretsBlobs blobs folder = (case mergeSecretsBlob a b of Inl e \<Rightarrow> Inl e | Inr m \<Rightarrow> Inr m)"
    by (simp add: loadSecretsBlobs_def Let_def assms(1,2) first_blob [OF assms(3)] split: sum.split)
  show ?thesis
  proof (cases "blob_disjoint a b")
    case True
    then have "loadSecretsBlobs blobs folder = Inr \<lparr>bl_env = bl_env a @ bl_env b, bl_files = bl_files a @ bl_files b\<rparr>"
      using merge_blobs [OF assms(4), of a] by (simp add: l)
    then show ?thesis using True by simp
  next
    case False
    then obtain k where "(k \<in> fst ` set (bl_env a) \<inter> fst ` set (bl_env b) \<and> mergeSecretsBlob a b = Inl (EnvClash k))
           \<or> (k \<in> fst ` set (bl_files a) \<inter> fst ` set (bl_files b) \<and> mergeSecretsBlob a b = Inl (FileClash k))"
      using merge_blobs [OF assms(4), of a] by blast
    then have "(k \<in> fst ` set (bl_env a) \<inter> fst ` set (bl_env b) \<and> loadSecretsBlobs blobs folder = Inl (EnvClash k))
           \<or> (k \<in> fst ` set (bl_files a) \<inter> fst ` set (bl_files b) \<and> loadSecretsBlobs blobs folder = Inl (FileClash k))"
      unfolding l by (elim disjE conjE) simp_all
    then show ?thesis using False by (simp only: if_False) (rule exI)
  qed
qed

text \<open>C32: When the agent starts a service, the process is the binary of the descriptor, run with no
  argument as the user of the descriptor, which is not privileged, and with that user's group only.  Its
  environment is the built one followed by the paths of the projected files; each of these files holds
  the material of the merged blobs, and no other file of the host has changed.\<close>

theorem boot_image:
  assumes "runBoot ah folder s = (Inr im, s')"
    and "LoadDescriptor (ah_descriptor ah (path_Join folder ''descriptor.yaml'')) = Inr desc"
    and "name_ok (de_service desc)" "\<forall>(v, k)\<in>set (de_files desc). clean_key k"
    and "\<And>p n. \<not> fw_fails (ah_world ah) (Remove p) n"
  shows "\<exists>user b env pathEnv. lookupUser ah (de_user desc) = Inr user \<and> ui_uid user > 0 \<and> ui_gid user > 0
    \<and> loadSecretsBlobs (ah_blobs ah) folder = Inr b \<and> buildEnv desc (bl_env b) (ui_home user) (ah_instance ah) = Inr env
    \<and> im = \<lparr>im_creds = \<lparr>cr_uid = ui_uid user, cr_gid = ui_gid user, cr_groups = [ui_gid user]\<rparr>, im_path = de_exec desc,
            im_argv = [de_exec desc], im_env = env @ pathEnv\<rparr>
    \<and> (\<forall>v k. map_of (de_files desc) v = Some k \<longrightarrow>
         v @ ''='' @ abs_path (target [''run'', ''wardnet'', de_service desc] k) \<in> set pathEnv
         \<and> (\<exists>c. map_of (bl_files b) k = Some c \<and> c \<noteq> [] \<and> in_place (ho_tree s') (target [''run'', ''wardnet'', de_service desc] k) c))
    \<and> (\<forall>p. p \<notin> target [''run'', ''wardnet'', de_service desc] ` ran (map_of (de_files desc)) \<longrightarrow>
         file_at (ho_tree s') p = file_at (ho_tree s) p)"
proof -
  let ?bs = "[''run'', ''wardnet'', de_service desc]"
  obtain user b pathEnv ch env where run: "lookupUser ah (de_user desc) = Inr user" "loadSecretsBlobs (ah_blobs ah) folder = Inr b"
    "projectFiles (ah_world ah) (de_files desc) (bl_files b) (abs_path ?bs) (ui_uid user) (ui_gid user) s = (Inr (pathEnv, ch), s')"
    "buildEnv desc (bl_env b) (ui_home user) (ah_instance ah) = Inr env"
    "dropAndExec (ah_sys_fails ah) root_creds (de_exec desc) (ui_uid user) (ui_gid user) (env @ pathEnv) = Inr im"
    using assms(1,2) by (auto simp: runBoot_def host_runtime_abs split: sum.splits prod.splits)
  have n: "list_all name_ok ?bs" using assms(3) by simp
  note ret = project_returns [OF n assms(4,5) run(3)]
  have other: "\<forall>p. p \<notin> target ?bs ` ran (map_of (de_files desc)) \<longrightarrow> file_at (ho_tree s') p = file_at (ho_tree s) p"
    using project_outcome [OF n assms(4,5) run(3), unfolded sum.case prod.case] by blast
  from dropAndExec_root [OF run(5)] show ?thesis using run(1,2,4) ret other by blast
qed

text \<open>C33: The projection of the mesh proxy puts every certificate, key and bundle in place that a server
  of the host's mesh configuration names, when the leaf file carries the keys of the services that the
  mesh descriptor of the host lists.\<close>

theorem mesh_material:
  assumes "meshInputsByHost res canonical scope allowed h = Some mh"
    and "c = \<lparr>mc_listen = la, mc_bundle = BundlePath, mc_local = mh_local mh, mc_egress = mh_egress mh, mc_targets = ts\<rparr>" "mesh_http c = Inr http"
    and "list_all name_ok (descriptor_services mh)"
    and "ah_blobs ah (path_Join folder ''leaf.age'') = Decoded (Inr b)"
    and "fst ` set (bl_files b) = fst ` set (mesh_Files \<lparr>md_version = MeshSupportedVersion, md_services = descriptor_services mh\<rparr>)"
    and "\<And>p n. \<not> fw_fails (ah_world ah) (Remove p) n" "runMeshProject ah folder s = (Inr (), s')" "p \<in> set (server_files http)"
  shows "\<exists>k c. comps p = target [''run'', ''wardnet'', ''mesh''] k \<and> map_of (bl_files b) k = Some c \<and> c \<noteq> []
    \<and> in_place (ho_tree s') (comps p) c"
proof -
  have keys: "fst ` set (bl_files b) = insert BundleKey (LeafCertKey ` set (descriptor_services mh) \<union> LeafKeyKey ` set (descriptor_services mh))"
    using assms(6) by (simp add: mesh_keys)
  have nm: "name_ok n" if "n \<in> set (descriptor_services mh)" for n using assms(4) that by (simp add: list_all_iff)
  have ck: "\<forall>k\<in>fst ` set (bl_files b). clean_key k"
    using leaf_keys(1,2) nm leaf_keys(3) [of "''mesh''"] unfolding keys by auto
  note mat = inputs_material [OF assms(1), unfolded material_of_def]
  have "p = BundlePath \<or> (\<exists>n\<in>set (descriptor_services mh). p = LeafCertPath n \<or> p = LeafKeyPath n)"
    using server_files_from [OF assms(3,9)] mat by (auto simp: assms(2))
  then obtain k where k: "k \<in> fst ` set (bl_files b)" "p = abs_path (target [''run'', ''wardnet'', ''mesh''] k)"
    using leaf_keys(4,5) leaf_keys(6) [of "''mesh''"] nm unfolding keys by (auto; metis image_eqI insertCI UnCI)
  have "comps p = target [''run'', ''wardnet'', ''mesh''] k"
    unfolding k(2) by (rule target_dest(2)) (use ck k(1) in auto)
  then show ?thesis using mesh_project_run [OF assms(5,8,7) ck k(1)] by metis
qed

end
