(* ===== verification/AgentDemo.thy ===== *)
theory AgentDemo
  imports AgentProps MeshLive
begin

text \<open>
  The agent on an example host: a service with one environment secret and two projected files, and a
  mesh proxy that carries the material of a gateway.
\<close>

subsection \<open>A service\<close>

definition demo_descriptor :: agent_descriptor where
  "demo_descriptor = \<lparr>de_version = 7, de_service = ''api'', de_exec = ''/srv/wardnet/api/run'', de_user = ''svc'',
     de_env = [(''TOKEN'', ''TOKEN'')], de_files = demo_files,
     de_deployment = no_deployment, de_mesh = Some \<lparr>am_url = ''http://127.0.0.1:9500'', am_port = 9002, am_scope = ''us-east-1''\<rparr>\<rparr>"

definition demo_env_blob :: blob where
  "demo_env_blob = \<lparr>bl_env = [(''TOKEN'', ''s3cret'')], bl_files = []\<rparr>"

definition demo_leaf_blob :: blob where
  "demo_leaf_blob = \<lparr>bl_env = [], bl_files = demo_secrets\<rparr>"

definition demo_passwd :: string where
  "demo_passwd = unlines [''root:x:0:0:root:/root:/bin/bash'', ''svc:x:990:991::/var/lib/svc:/usr/sbin/nologin'',
     ''nginx:x:101:102::/nonexistent:/bin/false'']"

definition demo_blobs :: "string \<Rightarrow> (string + blob) read_file" where
  "demo_blobs p =
     (if p = ''/etc/wardnet/services/api/secrets.age'' then Decoded (Inr demo_env_blob)
      else if p = ''/etc/wardnet/services/api/leaf.age'' then Decoded (Inr demo_leaf_blob)
      else Absent)"

definition demo_host :: agent_host where
  "demo_host = \<lparr>ah_descriptor = (\<lambda>_. Decoded (Inr demo_descriptor)), ah_blobs = demo_blobs, ah_passwd = (demo_passwd, None),
     ah_sys_fails = (\<lambda>_. False), ah_instance = ''1f'', ah_world = demo_world\<rparr>"

lemma demo_paths:
  "path_Join ''/etc/wardnet/services/api'' ''secrets.age'' = ''/etc/wardnet/services/api/secrets.age''"
  "path_Join ''/etc/wardnet/services/api'' ''leaf.age'' = ''/etc/wardnet/services/api/leaf.age''"
  by code_simp+

lemma demo_loads:
  "demo_blobs (path_Join ''/etc/wardnet/services/api'' ''secrets.age'') = Decoded (Inr demo_env_blob)"
  "demo_blobs (path_Join ''/etc/wardnet/services/api'' ''leaf.age'') = Decoded (Inr demo_leaf_blob)"
  by (simp_all add: demo_paths demo_blobs_def)

theorem blobs_merge_witness:
  "\<exists>m. loadSecretsBlobs demo_blobs ''/etc/wardnet/services/api'' = Inr m \<and> map_of (bl_env m) ''TOKEN'' = Some ''s3cret''
     \<and> map_of (bl_files m) ''mtls/leaf.key'' = Some ''KEY''"
proof -
  have w: "blob_wf demo_env_blob" "blob_wf demo_leaf_blob" "blob_disjoint demo_env_blob demo_leaf_blob"
    by (simp_all add: blob_wf_def blob_disjoint_def demo_env_blob_def demo_leaf_blob_def demo_secrets_def)
  from blobs_merge [OF demo_loads w(1,2)] obtain m where m: "loadSecretsBlobs demo_blobs ''/etc/wardnet/services/api'' = Inr m"
    "map_of (bl_env m) = map_of (bl_env demo_leaf_blob) ++ map_of (bl_env demo_env_blob)"
    "map_of (bl_files m) = map_of (bl_files demo_leaf_blob) ++ map_of (bl_files demo_env_blob)"
    unfolding if_P [OF w(3)] by (elim exE conjE)
  have "map_of (bl_env m) ''TOKEN'' = Some ''s3cret''" "map_of (bl_files m) ''mtls/leaf.key'' = Some ''KEY''"
    by (simp_all add: m(2,3) demo_env_blob_def demo_leaf_blob_def demo_secrets_def)
  then show ?thesis using m(1) by (intro exI conjI)
qed

lemma demo_env:
  "buildEnv demo_descriptor [(''TOKEN'', ''s3cret'')] home i
     = Inr (map (\<lambda>(n, v). env_entry n v) (injected_env demo_descriptor home i @ [(''TOKEN'', ''s3cret'')]))"
proof -
  have "de_env demo_descriptor = [(''TOKEN'', ''TOKEN'')]" by (simp add: demo_descriptor_def)
  then show ?thesis by (simp add: buildEnv_def map_keys_def)
qed

definition demo_blob :: blob where
  "demo_blob = \<lparr>bl_env = [(''TOKEN'', ''s3cret'')], bl_files = demo_secrets\<rparr>"

lemma demo_merged: "loadSecretsBlobs demo_blobs ''/etc/wardnet/services/api'' = Inr demo_blob"
  by (simp add: loadSecretsBlobs_def Let_def demo_loads demo_env_blob_def demo_leaf_blob_def mergeSecretsBlob_def no_blob_def
      demo_secrets_def demo_blob_def)

lemma demo_user: "lookupUser demo_host ''svc'' = Inr \<lparr>ui_uid = 990, ui_gid = 991, ui_home = ''/var/lib/svc''\<rparr>"
proof -
  have "parsePasswd demo_passwd None ''svc'' = Inr \<lparr>ui_uid = 990, ui_gid = 991, ui_home = ''/var/lib/svc''\<rparr>" by code_simp
  then show ?thesis by (simp add: lookupUser_def demo_host_def)
qed

lemma demo_boots: "\<exists>im s'. runBoot demo_host ''/etc/wardnet/services/api'' demo_start = (Inr im, s')"
proof -
  have d: "LoadDescriptor (ah_descriptor demo_host p) = Inr demo_descriptor" for p
    by (simp add: LoadDescriptor_def ParseDescriptor_def demo_host_def SupportedVersion_def demo_descriptor_def)
  have sel: "de_user demo_descriptor = ''svc''" "de_service demo_descriptor = ''api''" "de_files demo_descriptor = demo_files"
    by (simp_all add: demo_descriptor_def)
  have blobs: "loadSecretsBlobs (ah_blobs demo_host) ''/etc/wardnet/services/api'' = Inr demo_blob" using demo_merged by (simp add: demo_host_def)
  have world: "ah_world demo_host = demo_world" by (simp add: demo_host_def)
  have rd: "host_RuntimeDir ''api'' = abs_path demo_dir" by (simp add: host_runtime_abs demo_dir_def)
  obtain r s' where p: "projectFiles demo_world demo_files demo_secrets (abs_path demo_dir) 990 991 demo_start = (r, s')"
    by (metis surj_pair)
  then obtain pe where r: "r = Inr (pe, True)" using demo_returns by simp
  have bl: "bl_files demo_blob = demo_secrets" "bl_env demo_blob = [(''TOKEN'', ''s3cret'')]" by (simp_all add: demo_blob_def)
  have drop: "\<exists>im. dropAndExec (ah_sys_fails demo_host) root_creds e 990 991 envv = Inr im" for e envv
    by (simp add: dropAndExec_def demo_host_def root_creds_def)
  obtain im where im: "dropAndExec (ah_sys_fails demo_host) root_creds (de_exec demo_descriptor) 990 991
      (map (\<lambda>(n, v). env_entry n v) (injected_env demo_descriptor ''/var/lib/svc'' (ah_instance demo_host) @ [(''TOKEN'', ''s3cret'')]) @ pe) = Inr im"
    using drop by blast
  have "runBoot demo_host ''/etc/wardnet/services/api'' demo_start = (Inr im, s')"
    unfolding runBoot_def d sum.case sel demo_user blobs world rd user_info.simps bl p r prod.case demo_env im ..
  then show ?thesis by blast
qed

theorem service_environment_witness:
  "\<exists>im s'. runBoot demo_host ''/etc/wardnet/services/api'' demo_start = (Inr im, s')
     \<and> getenv (im_env im) ''TOKEN'' = Some ''s3cret'' \<and> getenv (im_env im) ''INFORGE_MESH_SCOPE'' = Some ''us-east-1''
     \<and> getenv (im_env im) ''MTLS_LEAF_KEY_PATH'' = Some ''/run/wardnet/api/mtls/leaf.key'' \<and> getenv (im_env im) ''LD_PRELOAD'' = None"
proof -
  obtain im s' where run: "runBoot demo_host ''/etc/wardnet/services/api'' demo_start = (Inr im, s')" using demo_boots by blast
  have d: "LoadDescriptor (ah_descriptor demo_host (path_Join ''/etc/wardnet/services/api'' ''descriptor.yaml'')) = Inr demo_descriptor"
    by (simp add: LoadDescriptor_def ParseDescriptor_def demo_host_def SupportedVersion_def demo_descriptor_def)
  have n: "\<forall>n\<in>fst ` set (de_env demo_descriptor) \<union> fst ` set (de_files demo_descriptor). CHR ''='' \<notin> set n"
    by (simp add: demo_descriptor_def demo_files_def)
  have maps: "fst ` set (de_env demo_descriptor) = {''TOKEN''}" "map_of (de_env demo_descriptor) ''TOKEN'' = Some ''TOKEN''"
    by (simp_all add: demo_descriptor_def)
  have inj: "map_of (injected_env demo_descriptor home i) ''TOKEN'' = None"
    "map_of (injected_env demo_descriptor home i) ''INFORGE_MESH_SCOPE'' = Some ''us-east-1''"
    "map_of (injected_env demo_descriptor home i) ''MTLS_LEAF_KEY_PATH'' = None"
    "map_of (injected_env demo_descriptor home i) ''LD_PRELOAD'' = None" for home i
    by (simp_all add: injected_env_def demo_descriptor_def Let_def)
  have files: "''MTLS_LEAF_KEY_PATH'' \<in> fst ` set (de_files demo_descriptor)" "''LD_PRELOAD'' \<notin> fst ` set (de_files demo_descriptor)"
    "file_dest (host_RuntimeDir (de_service demo_descriptor)) (de_files demo_descriptor) ''MTLS_LEAF_KEY_PATH'' = ''/run/wardnet/api/mtls/leaf.key''"
    by code_simp+
  obtain user :: user_info and b :: blob where l: "loadSecretsBlobs (ah_blobs demo_host) ''/etc/wardnet/services/api'' = Inr b"
    "\<forall>n. getenv (im_env im) n =
         (case map_of (injected_env demo_descriptor (ui_home user) (ah_instance demo_host)) n of
            Some v \<Rightarrow> Some v
          | None \<Rightarrow>
              if n \<in> fst ` set (de_env demo_descriptor) then map_of (bl_env b) (the (map_of (de_env demo_descriptor) n))
              else if n \<in> fst ` set (de_files demo_descriptor)
                then Some (file_dest (host_RuntimeDir (de_service demo_descriptor)) (de_files demo_descriptor) n)
              else None)"
    using service_environment [OF run d n] by (elim exE conjE)
  have "bl_env b = [(''TOKEN'', ''s3cret'')]" using l(1) demo_merged by (auto simp: demo_host_def demo_blob_def)
  then have "getenv (im_env im) ''TOKEN'' = Some ''s3cret''" "getenv (im_env im) ''INFORGE_MESH_SCOPE'' = Some ''us-east-1''"
    "getenv (im_env im) ''MTLS_LEAF_KEY_PATH'' = Some ''/run/wardnet/api/mtls/leaf.key''" "getenv (im_env im) ''LD_PRELOAD'' = None"
    unfolding l(2) [rule_format] inj maps using files by simp_all
  then show ?thesis using run by blast
qed

theorem boot_image_witness:
  "in_place (ho_tree (snd (runBoot demo_host ''/etc/wardnet/services/api'' demo_start))) [''run'', ''wardnet'', ''api'', ''mtls'', ''leaf.key''] ''KEY''"
proof -
  obtain im s' where run: "runBoot demo_host ''/etc/wardnet/services/api'' demo_start = (Inr im, s')" using demo_boots by blast
  have d: "LoadDescriptor (ah_descriptor demo_host (path_Join ''/etc/wardnet/services/api'' ''descriptor.yaml'')) = Inr demo_descriptor"
    by (simp add: LoadDescriptor_def ParseDescriptor_def demo_host_def SupportedVersion_def demo_descriptor_def)
  have s: "name_ok (de_service demo_descriptor)" by (simp add: demo_descriptor_def name_ok_def)
  have k: "\<forall>(v, k)\<in>set (de_files demo_descriptor). clean_key k" by code_simp
  have f: "\<not> fw_fails (ah_world demo_host) (Remove p) n" for p n by (simp add: demo_host_def demo_world_def)
  have key: "map_of (de_files demo_descriptor) ''MTLS_LEAF_KEY_PATH'' = Some ''mtls/leaf.key''" by code_simp
  have t: "target [''run'', ''wardnet'', de_service demo_descriptor] ''mtls/leaf.key'' = [''run'', ''wardnet'', ''api'', ''mtls'', ''leaf.key'']"
    by code_simp
  from boot_image [OF run d s k f] obtain b where b: "loadSecretsBlobs (ah_blobs demo_host) ''/etc/wardnet/services/api'' = Inr b"
    "\<exists>c. map_of (bl_files b) ''mtls/leaf.key'' = Some c \<and> c \<noteq> []
       \<and> in_place (ho_tree s') (target [''run'', ''wardnet'', de_service demo_descriptor] ''mtls/leaf.key'') c"
    using key by blast
  have "bl_files b = demo_secrets"
    using b(1) demo_merged by (auto simp: demo_host_def demo_blob_def)
  then show ?thesis using b(2) unfolding t run by (simp add: demo_secrets_def)
qed

subsection \<open>The mesh proxy\<close>

definition demo_mesh_res :: resources where
  "demo_mesh_res = mx_none\<lparr>res_gateway := [ex_gateway]\<rparr>"

definition demo_mesh_canonical :: "string \<rightharpoonup> string" where
  "demo_mesh_canonical = [''web'' \<mapsto> ''web-01'']"

definition demo_mesh_inputs :: mesh_host_inputs where
  "demo_mesh_inputs = \<lparr>mh_local = [], mh_egress = [gateway_egress (gateway_member ex_gateway)]\<rparr>"

definition demo_mesh_blob :: blob where
  "demo_mesh_blob = \<lparr>bl_env = [], bl_files = [(''bundle.crt'', ''CA''), (''gateway/leaf.crt'', ''CERT''), (''gateway/leaf.key'', ''KEY'')]\<rparr>"

definition demo_mesh_host :: agent_host where
  "demo_mesh_host = demo_host\<lparr>ah_blobs := (\<lambda>_. Decoded (Inr demo_mesh_blob))\<rparr>"

lemma demo_mesh_projects: "fst (runMeshProject demo_mesh_host ''/etc/wardnet/mesh'' demo_start) = Inr ()"
  by code_simp

theorem mesh_material_witness:
  "\<exists>k c. comps ''/run/wardnet/mesh/gateway/leaf.key'' = target [''run'', ''wardnet'', ''mesh''] k \<and> map_of (bl_files demo_mesh_blob) k = Some c
     \<and> c \<noteq> [] \<and> in_place (ho_tree (snd (runMeshProject demo_mesh_host ''/etc/wardnet/mesh'' demo_start))) (comps ''/run/wardnet/mesh/gateway/leaf.key'') c"
proof -
  have i: "meshInputsByHost demo_mesh_res demo_mesh_canonical ''us-east-1'' (\<lambda>_. []) ''web-01'' = Some demo_mesh_inputs"
    by (simp add: meshInputsByHost_def Let_def ServicesByHost_def GatewayMemberByHost_def last_map_def demo_mesh_res_def mx_none_def ex_nothing
        demo_mesh_canonical_def demo_mesh_inputs_def ex_sel)
  let ?c = "\<lparr>mc_listen = ''10.0.1.5'', mc_bundle = BundlePath, mc_local = mh_local demo_mesh_inputs, mc_egress = mh_egress demo_mesh_inputs, mc_targets = []\<rparr>"
  let ?http = "[upgrade_map, block ''map'' [''$http_x_mesh_target'', ''$mesh_addr''] [dir ''default'' [[]]],
      block ''map'' [''$http_x_mesh_target'', ''$mesh_sni''] [dir ''default'' [[]]], egressServer (gateway_egress (gateway_member ex_gateway)) BundlePath]"
  have h: "mesh_http ?c = Inr ?http"
    by (simp add: mesh_http_def ingressDirectives_def egressDirectives_def Let_def demo_mesh_inputs_def BundlePath_def gateway_egress_def
        mesh_port_defs LeafCertPath_def LeafKeyPath_def mesh_RuntimeDir_def)
  have d: "descriptor_services demo_mesh_inputs = [''gateway'']"
    by (simp add: descriptor_services_def demo_mesh_inputs_def gateway_egress_def gateway_member_def GatewayMember_def)
  have n: "list_all name_ok (descriptor_services demo_mesh_inputs)" by (simp add: d name_ok_def)
  have b: "ah_blobs demo_mesh_host (path_Join ''/etc/wardnet/mesh'' ''leaf.age'') = Decoded (Inr demo_mesh_blob)" by (simp add: demo_mesh_host_def)
  have k: "fst ` set (bl_files demo_mesh_blob)
      = fst ` set (mesh_Files \<lparr>md_version = MeshSupportedVersion, md_services = descriptor_services demo_mesh_inputs\<rparr>)"
    by (simp add: d mesh_Files_def demo_mesh_blob_def BundleKey_def LeafCertKey_def LeafKeyKey_def LeafCertFile_def LeafKeyFile_def)
  have f: "\<not> fw_fails (ah_world demo_mesh_host) (Remove p) n" for p n by (simp add: demo_mesh_host_def demo_host_def demo_world_def)
  have run: "runMeshProject demo_mesh_host ''/etc/wardnet/mesh'' demo_start = (Inr (), snd (runMeshProject demo_mesh_host ''/etc/wardnet/mesh'' demo_start))"
    using demo_mesh_projects by (metis prod.collapse)
  have "LeafKeyPath ''gateway'' \<in> set (tls_files (egressServer (gateway_egress (gateway_member ex_gateway)) BundlePath))"
    by (simp add: tls_egressServer gateway_egress_def gateway_member_def GatewayMember_def)
  moreover have "d_name (egressServer (gateway_egress (gateway_member ex_gateway)) BundlePath) = ''server''" by (simp add: egressServer_def block_def)
  ultimately have p: "''/run/wardnet/mesh/gateway/leaf.key'' \<in> set (server_files ?http)"
    by (simp add: server_files_def LeafKeyPath_def mesh_RuntimeDir_def)
  show ?thesis by (rule mesh_material [OF i refl h n b k f run p])
qed

end
