(* ===== verification/Shell.thy ===== *)
theory Shell
  imports DeployDesc PathClean
begin

text \<open>
  The shell commands a release runs on a host: quoting (\<open>internal/remote.Quote\<close>, \<open>internal/app\<close>'s copy of
  it), the snippets of \<open>internal/app\<close> and \<open>internal/remote\<close>, and the apply scripts of
  \<open>cmd/inforge/release.go\<close>.  The reference is the word splitting of the POSIX shell, on the fragment
  without expansions: plain words, blanks, backslashes, single quotes and \<open>&&\<close>.
\<close>

subsection \<open>Words of the shell\<close>

definition SQ :: char where "SQ = CHR 0x27"
definition BS :: char where "BS = CHR 0x5C"
definition DQ :: char where "DQ = CHR 0x22"

datatype sh_token = Word string | AndIf

definition word_of :: "string option \<Rightarrow> string" where
  "word_of cur = (case cur of None \<Rightarrow> [] | Some w \<Rightarrow> w)"

definition flush :: "string option \<Rightarrow> sh_token list" where
  "flush cur = (case cur of None \<Rightarrow> [] | Some w \<Rightarrow> [Word w])"

text \<open>Characters that mean something else outside quotes: the fragment stops there.\<close>

definition sh_special :: "char list" where
  "sh_special = [CHR 0x0A, CHR 0x09, CHR 0x24, CHR 0x60, CHR 0x22, CHR 0x3B, CHR 0x7C, CHR 0x3C, CHR 0x3E, CHR 0x28, CHR 0x29,
     CHR 0x2A, CHR 0x3F, CHR 0x5B, CHR 0x23, CHR 0x7E, CHR 0x7B, CHR 0x7D, CHR 0x21]"

definition sh_plain :: "char \<Rightarrow> bool" where
  "sh_plain c \<longleftrightarrow> c \<noteq> SQ \<and> c \<noteq> BS \<and> c \<noteq> CHR 0x20 \<and> c \<noteq> CHR 0x26 \<and> c \<notin> set sh_special"

text \<open>The first argument tells whether the scan is inside single quotes, the second is the current word.\<close>

fun sh_lex :: "bool \<Rightarrow> string option \<Rightarrow> string \<Rightarrow> sh_token list option" where
  "sh_lex True cur [] = None"
| "sh_lex True cur (c # cs) = (if c = SQ then sh_lex False cur cs else sh_lex True (Some (word_of cur @ [c])) cs)"
| "sh_lex False cur [] = Some (flush cur)"
| "sh_lex False cur [c] =
     (if c = CHR 0x20 then Some (flush cur) else if sh_plain c then Some (flush (Some (word_of cur @ [c]))) else None)"
| "sh_lex False cur (c # d # cs) =
     (if c = SQ then sh_lex True (Some (word_of cur)) (d # cs)
      else if c = BS then (if d = CHR 0x0A then None else sh_lex False (Some (word_of cur @ [d])) cs)
      else if c = CHR 0x20 then map_option ((@) (flush cur)) (sh_lex False None (d # cs))
      else if c = CHR 0x26 then (if d = CHR 0x26 then map_option ((@) (flush cur @ [AndIf])) (sh_lex False None cs) else None)
      else if sh_plain c then sh_lex False (Some (word_of cur @ [c])) (d # cs)
      else None)"

definition sh_words :: "string \<Rightarrow> sh_token list option" where
  "sh_words s = sh_lex False None s"

subsection \<open>Quoting\<close>

text \<open>\<open>strings.ReplaceAll\<close> of the quote by a closing quote, an escaped quote and an opening quote.\<close>

definition quote_char :: "char \<Rightarrow> string" where
  "quote_char c = (if c = SQ then [SQ, BS, SQ, SQ] else [c])"

definition remote_Quote :: "string \<Rightarrow> string" where
  "remote_Quote s = [SQ] @ concat (map quote_char s) @ [SQ]"

definition app_shQuote :: "string \<Rightarrow> string" where
  "app_shQuote s = [SQ] @ concat (map quote_char s) @ [SQ]"

lemma shQuote_Quote: "app_shQuote = remote_Quote"
  by (rule ext) (simp add: app_shQuote_def remote_Quote_def)

lemma SQ_BS [simp]: "SQ \<noteq> BS" "BS \<noteq> SQ" "SQ \<noteq> CHR 0x20" "SQ \<noteq> CHR 0x26" "BS \<noteq> CHR 0x20" "BS \<noteq> CHR 0x26" "SQ \<noteq> CHR 0x0A"
  by (simp_all add: SQ_def BS_def)

lemma lex_close: "sh_lex True (Some w) (SQ # rest) = sh_lex False (Some w) rest"
  by simp

lemma lex_open: "sh_lex False cur (SQ # concat (map quote_char s) @ SQ # rest) = sh_lex True (Some (word_of cur)) (concat (map quote_char s) @ SQ # rest)"
proof -
  obtain d ds where "concat (map quote_char s) @ SQ # rest = d # ds"
    by (cases "concat (map quote_char s)") auto
  then show ?thesis by simp
qed

lemma lex_quoted: "sh_lex True (Some w) (concat (map quote_char s) @ SQ # rest) = sh_lex False (Some (w @ s)) rest"
  by (induction s arbitrary: w) (auto simp: quote_char_def word_of_def lex_open)

lemma lex_Quote: "sh_lex False cur (remote_Quote s @ rest) = sh_lex False (Some (word_of cur @ s)) rest"
  by (simp del: sh_lex.simps add: remote_Quote_def lex_open lex_quoted)

lemma lex_plain_step: "sh_plain c \<Longrightarrow> sh_lex False cur (c # rest) = sh_lex False (Some (word_of cur @ [c])) rest"
  by (cases rest) (auto simp: sh_plain_def)

lemma lex_plain: "list_all sh_plain s \<Longrightarrow> s \<noteq> [] \<Longrightarrow> sh_lex False cur (s @ rest) = sh_lex False (Some (word_of cur @ s)) rest"
proof (induction s arbitrary: cur)
  case (Cons c s)
  then show ?case by (cases "s = []") (simp_all add: lex_plain_step word_of_def)
qed simp

lemma lex_blank: "sh_lex False cur (CHR 0x20 # rest) = map_option ((@) (flush cur)) (sh_lex False None rest)"
  by (cases rest) (simp_all add: flush_def SQ_def BS_def)

lemma lex_and: "sh_lex False cur (CHR 0x26 # CHR 0x26 # rest) = map_option ((@) (flush cur @ [AndIf])) (sh_lex False None rest)"
  by (simp add: SQ_def BS_def)

lemma lex_Quote_end: "sh_lex False cur (remote_Quote s) = Some [Word (word_of cur @ s)]"
  using lex_Quote [of cur s "[]"] by (simp add: flush_def)

lemma lex_end: "sh_lex False cur [] = Some (flush cur)"
  by simp

text \<open>One character or one quoted part at a time: the facts the simplifier needs to split a script.\<close>

lemmas plain_defs = sh_plain_def sh_special_def SQ_def BS_def
lemmas lex_script = sh_words_def lex_plain_step lex_blank lex_and lex_Quote lex_Quote_end lex_end word_of_def flush_def shQuote_Quote

subsection \<open>Snippets\<close>

definition DeleteFileScript :: "string \<Rightarrow> string" where
  "DeleteFileScript absPath = ''sudo rm -f '' @ remote_Quote absPath"

definition SwapCurrentScript :: "string \<Rightarrow> string \<Rightarrow> string" where
  "SwapCurrentScript name sha =
     (let tmp = app_Folder name @ ''/.current.tmp'' in
      ''sudo ln -sfn '' @ app_shQuote sha @ '' '' @ app_shQuote tmp @ '' && sudo mv -T '' @ app_shQuote tmp @ '' ''
        @ app_shQuote (CurrentPath name))"

definition SeedCurrentScript :: "string \<Rightarrow> string" where
  "SeedCurrentScript name =
     (let current = CurrentPath name in
      ''if [ ! -e '' @ app_shQuote current @ '' ] && [ ! -L '' @ app_shQuote current @ '' ]; then sudo ln -s ''
        @ app_shQuote PlaceholderSubdir @ '' '' @ app_shQuote current @ ''; fi'')"

definition GCReleasesScript :: "string \<Rightarrow> string" where
  "GCReleasesScript name =
     ''cd '' @ app_shQuote (app_Folder name) @ '' && current=$(readlink current 2>/dev/null || true) && ''
       @ ''ls -1dt */ 2>/dev/null | sed '' @ [SQ] @ ''s:/$::'' @ [SQ] @ '' | grep -vx '' @ app_shQuote PlaceholderSubdir
       @ '' | grep -vx current | grep -vx '' @ [DQ] @ ''$current'' @ [DQ] @ '' | ''
       @ ''tail -n +'' @ itoa (KeepReleases + 1) @ '' | xargs -r sudo rm -rf''"

definition serviceApplyScript :: "deploy_target \<Rightarrow> string \<Rightarrow> string" where
  "serviceApplyScript t payloadPath =
     join '' && ''
       [''sudo tar -xzf '' @ remote_Quote payloadPath @ '' -C '' @ remote_Quote (dt_folder t),
        ''sudo systemctl restart '' @ remote_Quote (dt_unit t)]"

definition appReleaseScript :: "app_target \<Rightarrow> string \<Rightarrow> string \<Rightarrow> string" where
  "appReleaseScript t sha payloadPath =
     (let bundleDir = BundleDir (at_app t) sha in
      join '' && ''
        [''sudo mkdir -p '' @ remote_Quote bundleDir,
         ''sudo tar -xzf '' @ remote_Quote payloadPath @ '' -C '' @ remote_Quote bundleDir,
         ''sudo nginx -t'',
         SwapCurrentScript (at_app t) sha,
         ''sudo systemctl reload nginx'',
         GCReleasesScript (at_app t)])"

definition appRollbackScript :: "app_target \<Rightarrow> string \<Rightarrow> string" where
  "appRollbackScript t sha =
     join '' && ''
       [''{ test -d '' @ remote_Quote (BundleDir (at_app t) sha) @ '' || { echo '' @ [DQ] @ ''bundle '' @ sha @ '' not present on ''
          @ at_app t @ '' '' @ [CHR 0xE2, CHR 0x80, CHR 0x94] @ '' release it before rolling back'' @ [DQ] @ '' >&2; exit 1; }; }'',
        ''sudo nginx -t'',
        SwapCurrentScript (at_app t) sha,
        ''sudo systemctl reload nginx'']"

definition reloadOrRestartCmd :: "string \<Rightarrow> string" where
  "reloadOrRestartCmd unit =
     ''if systemctl is-active --quiet '' @ unit @ ''; then sudo systemctl reload-or-restart '' @ unit @ ''; ''
       @ ''else echo '' @ [DQ] @ ''inforge: '' @ unit @ '' not running '' @ [CHR 0xE2, CHR 0x80, CHR 0x94]
       @ '' leaf.age staged, read on next start'' @ [DQ] @ ''; fi''"

text \<open>The standard base64 alphabet and its padding, on groups of three bytes.\<close>

definition b64_char :: "nat \<Rightarrow> char" where
  "b64_char n =
     (if n < 26 then char_of (65 + n) else if n < 52 then char_of (71 + n) else if n < 62 then char_of (n - 4)
      else if n = 62 then CHR 0x2B else CHR 0x2F)"

fun base64 :: "string \<Rightarrow> string" where
  "base64 [] = []"
| "base64 [a] = (let x = of_char a :: nat in [b64_char (x div 4), b64_char (x mod 4 * 16), CHR 0x3D, CHR 0x3D])"
| "base64 [a, b] =
     (let x = of_char a :: nat; y = of_char b :: nat in
      [b64_char (x div 4), b64_char (x mod 4 * 16 + y div 16), b64_char (y mod 16 * 4), CHR 0x3D])"
| "base64 (a # b # c # s) =
     (let x = of_char a :: nat; y = of_char b :: nat; z = of_char c :: nat in
      [b64_char (x div 4), b64_char (x mod 4 * 16 + y div 16), b64_char (y mod 16 * 4 + z div 64), b64_char (z mod 64)] @ base64 s)"

definition WriteFileScriptMode :: "string \<Rightarrow> string \<Rightarrow> string \<Rightarrow> string" where
  "WriteFileScriptMode absPath content mode =
     (let mode' = (if mode = [] then ''0644'' else mode); d = path_Dir absPath; tmp = [DQ] @ ''$tmp'' @ [DQ] in
      join NL
        [''set -euo pipefail'',
         ''sudo install -d -m 0755 '' @ remote_Quote d,
         ''tmp=$(sudo mktemp '' @ remote_Quote (d @ ''/.inforge-write.XXXXXX'') @ '')'',
         ''printf '' @ [SQ] @ ''%s'' @ [SQ] @ '' '' @ remote_Quote (base64 content) @ '' | base64 -d | sudo tee '' @ tmp @ '' >/dev/null'',
         ''sudo chmod '' @ remote_Quote mode' @ '' '' @ tmp,
         ''sudo mv '' @ tmp @ '' '' @ remote_Quote absPath])"

definition WriteFileScript :: "string \<Rightarrow> string \<Rightarrow> string" where
  "WriteFileScript absPath content = WriteFileScriptMode absPath content []"

subsection \<open>Properties\<close>

text \<open>The commands of an app release before the last, as the list the code joins.\<close>

definition release_steps :: "app_target \<Rightarrow> string \<Rightarrow> string \<Rightarrow> string list" where
  "release_steps t sha payloadPath =
     [''sudo mkdir -p '' @ remote_Quote (BundleDir (at_app t) sha),
      ''sudo tar -xzf '' @ remote_Quote payloadPath @ '' -C '' @ remote_Quote (BundleDir (at_app t) sha),
      ''sudo nginx -t'', SwapCurrentScript (at_app t) sha, ''sudo systemctl reload nginx'']"

text \<open>C37: Quoting is safe.  Whatever the paths, units and SHAs contain, the shell splits the service apply
  script, the symlink swap and the file removal into exactly the intended words, so none of them can end
  a word, start a command or be expanded; and an app release runs its whole upload, its check of the
  nginx configuration and the swap, in this order, before it reloads and collects old bundles.\<close>

theorem script_words:
  "sh_words (serviceApplyScript t p) = Some [Word ''sudo'', Word ''tar'', Word ''-xzf'', Word p, Word ''-C'', Word (dt_folder t), AndIf,
       Word ''sudo'', Word ''systemctl'', Word ''restart'', Word (dt_unit t)]
   \<and> sh_words (SwapCurrentScript name sha) = Some [Word ''sudo'', Word ''ln'', Word ''-sfn'', Word sha, Word (app_Folder name @ ''/.current.tmp''), AndIf,
       Word ''sudo'', Word ''mv'', Word ''-T'', Word (app_Folder name @ ''/.current.tmp''), Word (CurrentPath name)]
   \<and> sh_words (DeleteFileScript path) = Some [Word ''sudo'', Word ''rm'', Word ''-f'', Word path]
   \<and> (\<exists>before. appReleaseScript a sha p = before @ '' && '' @ GCReleasesScript (at_app a)
        \<and> sh_words before = Some
            [Word ''sudo'', Word ''mkdir'', Word ''-p'', Word (BundleDir (at_app a) sha), AndIf,
             Word ''sudo'', Word ''tar'', Word ''-xzf'', Word p, Word ''-C'', Word (BundleDir (at_app a) sha), AndIf,
             Word ''sudo'', Word ''nginx'', Word ''-t'', AndIf,
             Word ''sudo'', Word ''ln'', Word ''-sfn'', Word sha, Word (app_Folder (at_app a) @ ''/.current.tmp''), AndIf,
             Word ''sudo'', Word ''mv'', Word ''-T'', Word (app_Folder (at_app a) @ ''/.current.tmp''), Word (CurrentPath (at_app a)), AndIf,
             Word ''sudo'', Word ''systemctl'', Word ''reload'', Word ''nginx''])"
proof (intro conjI)
  show "sh_words (serviceApplyScript t p) = Some [Word ''sudo'', Word ''tar'', Word ''-xzf'', Word p, Word ''-C'', Word (dt_folder t), AndIf,
       Word ''sudo'', Word ''systemctl'', Word ''restart'', Word (dt_unit t)]"
    by (simp del: sh_lex.simps add: serviceApplyScript_def lex_script plain_defs)
  show "sh_words (SwapCurrentScript name sha) = Some [Word ''sudo'', Word ''ln'', Word ''-sfn'', Word sha, Word (app_Folder name @ ''/.current.tmp''), AndIf,
       Word ''sudo'', Word ''mv'', Word ''-T'', Word (app_Folder name @ ''/.current.tmp''), Word (CurrentPath name)]"
    by (simp del: sh_lex.simps add: SwapCurrentScript_def Let_def lex_script plain_defs)
  show "sh_words (DeleteFileScript path) = Some [Word ''sudo'', Word ''rm'', Word ''-f'', Word path]"
    by (simp del: sh_lex.simps add: DeleteFileScript_def lex_script plain_defs)
  show "\<exists>before. appReleaseScript a sha p = before @ '' && '' @ GCReleasesScript (at_app a)
        \<and> sh_words before = Some
            [Word ''sudo'', Word ''mkdir'', Word ''-p'', Word (BundleDir (at_app a) sha), AndIf,
             Word ''sudo'', Word ''tar'', Word ''-xzf'', Word p, Word ''-C'', Word (BundleDir (at_app a) sha), AndIf,
             Word ''sudo'', Word ''nginx'', Word ''-t'', AndIf,
             Word ''sudo'', Word ''ln'', Word ''-sfn'', Word sha, Word (app_Folder (at_app a) @ ''/.current.tmp''), AndIf,
             Word ''sudo'', Word ''mv'', Word ''-T'', Word (app_Folder (at_app a) @ ''/.current.tmp''), Word (CurrentPath (at_app a)), AndIf,
             Word ''sudo'', Word ''systemctl'', Word ''reload'', Word ''nginx'']"
  proof (intro exI conjI)
    show "appReleaseScript a sha p = join '' && '' (release_steps a sha p) @ '' && '' @ GCReleasesScript (at_app a)"
      by (simp add: appReleaseScript_def release_steps_def Let_def)
    show "sh_words (join '' && '' (release_steps a sha p)) = Some
            [Word ''sudo'', Word ''mkdir'', Word ''-p'', Word (BundleDir (at_app a) sha), AndIf,
             Word ''sudo'', Word ''tar'', Word ''-xzf'', Word p, Word ''-C'', Word (BundleDir (at_app a) sha), AndIf,
             Word ''sudo'', Word ''nginx'', Word ''-t'', AndIf,
             Word ''sudo'', Word ''ln'', Word ''-sfn'', Word sha, Word (app_Folder (at_app a) @ ''/.current.tmp''), AndIf,
             Word ''sudo'', Word ''mv'', Word ''-T'', Word (app_Folder (at_app a) @ ''/.current.tmp''), Word (CurrentPath (at_app a)), AndIf,
             Word ''sudo'', Word ''systemctl'', Word ''reload'', Word ''nginx'']"
      by (simp del: sh_lex.simps add: release_steps_def SwapCurrentScript_def Let_def lex_script plain_defs)
  qed
qed

end
