(* ===== verification/Deliver.thy ===== *)
theory Deliver
  imports Shell Sources Release
begin

text \<open>
  The delivery of a release (\<open>cmd/inforge/release.go\<close>, \<open>releases.go\<close>, \<open>arch.go\<close>): uploading a payload to
  each target, pinning the SHA in the manifest, applying it over SSH and removing the payload again;
  probing the architecture of the hosts; downloading the artifacts; and the two commands that put them
  together.  The answers of \<open>ssh\<close> and \<open>scp\<close> are parameters that may depend on every earlier call.
\<close>

subsection \<open>The transport\<close>

text \<open>The temporary files of the machine that runs the command, by path.\<close>

type_synonym 'b files = "(string \<times> 'b) list"

text \<open>A call of \<open>scp\<close> sends the content of a local file, when the file is there.\<close>

datatype 'b remote_call = ProbeSSH "string list" | RunSCP "string list" "'b option" | RunSSH "string list"

text \<open>The bucket, the temporary files, and the calls made so far, each with the bucket at its time.\<close>

record ('s, 'b) delivery =
  ds_bucket :: 's
  ds_files :: "'b files"
  ds_calls :: "('b remote_call \<times> 's) list"

record 'b transport =
  tr_probe :: "'b remote_call list \<Rightarrow> string list \<Rightarrow> string + string"
  tr_scp :: "'b remote_call list \<Rightarrow> string list \<Rightarrow> string option"
  tr_ssh :: "'b remote_call list \<Rightarrow> string list \<Rightarrow> string option"
  tr_now :: "'b remote_call list \<Rightarrow> int"

definition history :: "('s, 'b) delivery \<Rightarrow> 'b remote_call list" where
  "history st = map fst (ds_calls st)"

definition record_call :: "'b remote_call \<Rightarrow> ('s, 'b) delivery \<Rightarrow> ('s, 'b) delivery" where
  "record_call c st = st\<lparr>ds_calls := ds_calls st @ [(c, ds_bucket st)]\<rparr>"

definition runProbeSSH :: "'b transport \<Rightarrow> string list \<Rightarrow> ('s, 'b) delivery \<Rightarrow> (string + string) \<times> ('s, 'b) delivery" where
  "runProbeSSH tr args st = (tr_probe tr (history st) args, record_call (ProbeSSH args) st)"

definition runSCP :: "'b transport \<Rightarrow> string \<Rightarrow> string list \<Rightarrow> ('s, 'b) delivery \<Rightarrow> string option \<times> ('s, 'b) delivery" where
  "runSCP tr local args st = (tr_scp tr (history st) args, record_call (RunSCP args (map_of (ds_files st) local)) st)"

definition runSSH :: "'b transport \<Rightarrow> string list \<Rightarrow> ('s, 'b) delivery \<Rightarrow> string option \<times> ('s, 'b) delivery" where
  "runSSH tr args st = (tr_ssh tr (history st) args, record_call (RunSSH args) st)"

definition sshArgs :: "string \<Rightarrow> string list" where
  "sshArgs keyPath = [''-i'', keyPath, ''-o'', ''StrictHostKeyChecking=accept-new'', ''-o'', ''BatchMode=yes'']"

subsection \<open>Delivery to one target\<close>

definition remotePayloadTemplate :: string where
  "remotePayloadTemplate = ''/tmp/inforge-payload.XXXXXXXXXX''"

record delivery_target =
  dv_host :: string
  dv_ssh_user :: string
  dv_apply :: "string \<Rightarrow> string"
  dv_describe :: string
  dv_arch :: string
  dv_payload :: string

definition account_of :: "delivery_target \<Rightarrow> string" where
  "account_of t = dv_ssh_user t @ ''@'' @ dv_host t"

text \<open>The last line of the output that is not blank must be a path of the template.\<close>

definition payload_prefix :: string where
  "payload_prefix = trim_suffix ''XXXXXXXXXX'' remotePayloadTemplate"

fun mktemp_lines :: "string list \<Rightarrow> string option" where
  "mktemp_lines [] = None"
| "mktemp_lines (line # ls) =
     (let path = TrimSpace line in
      if path = [] then mktemp_lines ls
      else if \<not> prefix payload_prefix path \<or> length path \<le> length payload_prefix
              \<or> CHR 0x20 \<in> set path \<or> CHR 0x09 \<in> set path then None
      else Some path)"

definition parseMktempPath :: "string \<Rightarrow> string option" where
  "parseMktempPath stdout = mktemp_lines (rev (split_on (CHR 0x0A) stdout))"

datatype deliver_err =
    NoRemotePath string string
  | UploadRefused string string
  | PinFailed string rel_err
  | ApplyFailed string string

definition mktemp_args :: "string \<Rightarrow> string \<Rightarrow> string list" where
  "mktemp_args account key = sshArgs key @ [account, ''mktemp '' @ remotePayloadTemplate]"

definition remoteMktempPayload :: "'b transport \<Rightarrow> string \<Rightarrow> string \<Rightarrow> ('s, 'b) delivery \<Rightarrow> (deliver_err + string) \<times> ('s, 'b) delivery" where
  "remoteMktempPayload tr account key st =
     (case runProbeSSH tr (mktemp_args account key) st of
        (Inl e, st1) \<Rightarrow> (Inl (NoRemotePath account e), st1)
      | (Inr out, st1) \<Rightarrow>
          (case parseMktempPath out of None \<Rightarrow> (Inl (NoRemotePath account out), st1) | Some path \<Rightarrow> (Inr path, st1)))"

definition remove_args :: "string \<Rightarrow> string \<Rightarrow> string \<Rightarrow> string list" where
  "remove_args account key path = sshArgs key @ [account, ''rm -f '' @ remote_Quote path]"

text \<open>A failing removal is a warning on the terminal.\<close>

definition removeRemotePayload :: "'b transport \<Rightarrow> string \<Rightarrow> string \<Rightarrow> string \<Rightarrow> ('s, 'b) delivery \<Rightarrow> ('s, 'b) delivery" where
  "removeRemotePayload tr account key path st = snd (runSSH tr (remove_args account key path) st)"

type_synonym ('s, 'b) pinner = "string \<Rightarrow> string \<Rightarrow> ('s, 'b) delivery \<Rightarrow> rel_err option \<times> ('s, 'b) delivery"

definition apply_args :: "string \<Rightarrow> delivery_target \<Rightarrow> string \<Rightarrow> string list" where
  "apply_args key t path = sshArgs key @ [account_of t, dv_apply t path]"

text \<open>The part of \<open>deliverToTarget\<close> after the upload: the pin comes before the apply.\<close>

definition pin_and_apply :: "'b transport \<Rightarrow> ('s, 'b) pinner \<Rightarrow> string \<Rightarrow> delivery_target \<Rightarrow> string \<Rightarrow> ('s, 'b) delivery \<Rightarrow> deliver_err option \<times> ('s, 'b) delivery" where
  "pin_and_apply tr pin key t path st =
     (case pin (dv_host t) (dv_arch t) st of
        (Some e, st1) \<Rightarrow> (Some (PinFailed (dv_host t) e), st1)
      | (None, st1) \<Rightarrow>
          (case runSSH tr (apply_args key t path) st1 of
             (Some e, st2) \<Rightarrow> (Some (ApplyFailed (dv_host t) e), st2)
           | (None, st2) \<Rightarrow> (None, st2)))"

definition upload_args :: "string \<Rightarrow> delivery_target \<Rightarrow> string \<Rightarrow> string list" where
  "upload_args key t path = sshArgs key @ [dv_payload t, account_of t @ '':'' @ path]"

definition deliverToTarget :: "'b transport \<Rightarrow> ('s, 'b) pinner \<Rightarrow> string \<Rightarrow> delivery_target \<Rightarrow> ('s, 'b) delivery \<Rightarrow> deliver_err option \<times> ('s, 'b) delivery" where
  "deliverToTarget tr pin key t st =
     (if dv_payload t = [] then pin_and_apply tr pin key t [] st
      else
        case remoteMktempPayload tr (account_of t) key st of
          (Inl e, st1) \<Rightarrow> (Some e, st1)
        | (Inr path, st1) \<Rightarrow>
            (case runSCP tr (dv_payload t) (upload_args key t path) st1 of
               (Some e, st2) \<Rightarrow>
                 (Some (UploadRefused (dv_host t) e), removeRemotePayload tr (account_of t) key path st2)
             | (None, st2) \<Rightarrow>
                 (case pin_and_apply tr pin key t path st2 of
                    (r, st3) \<Rightarrow> (r, removeRemotePayload tr (account_of t) key path st3))))"

fun deliverReleaseTo :: "'b transport \<Rightarrow> ('s, 'b) pinner \<Rightarrow> string \<Rightarrow> delivery_target list \<Rightarrow> ('s, 'b) delivery \<Rightarrow> deliver_err option \<times> ('s, 'b) delivery" where
  "deliverReleaseTo tr pin key [] st = (None, st)"
| "deliverReleaseTo tr pin key (t # ts) st =
     (case deliverToTarget tr pin key t st of
        (Some e, st1) \<Rightarrow> (Some e, st1)
      | (None, st1) \<Rightarrow> deliverReleaseTo tr pin key ts st1)"

definition store_pin :: "'b transport \<Rightarrow> ('s, 'b) s3API \<Rightarrow> ('b \<Rightarrow> string + manifest) \<Rightarrow> (manifest \<Rightarrow> string + 'b) \<Rightarrow> string \<Rightarrow> string \<Rightarrow> string \<Rightarrow> ('s, 'b) pinner" where
  "store_pin tr api dec enc slug env sha h arch st =
     (let c = \<lparr>sc_service = slug, sc_env = env, sc_host = h,
                sc_dep = \<lparr>dp_sha = sha, dp_arch = arch, dp_at = tr_now tr (history st)\<rparr>\<rparr> in
      case SetDeployment api dec enc c (ds_bucket st) of (r, s1) \<Rightarrow> (r, st\<lparr>ds_bucket := s1\<rparr>))"

definition deliverRelease :: "'b transport \<Rightarrow> ('s, 'b) s3API \<Rightarrow> ('b \<Rightarrow> string + manifest) \<Rightarrow> (manifest \<Rightarrow> string + 'b) \<Rightarrow> string \<Rightarrow> string \<Rightarrow> string
    \<Rightarrow> delivery_target list \<Rightarrow> string \<Rightarrow> ('s, 'b) delivery \<Rightarrow> deliver_err option \<times> ('s, 'b) delivery" where
  "deliverRelease tr api dec enc slug env sha ts key st = deliverReleaseTo tr (store_pin tr api dec enc slug env sha) key ts st"

end
