(* ===== verification/ReleaseCmd.thy ===== *)
theory ReleaseCmd
  imports Deliver
begin

text \<open>
  The commands \<open>inforge releases deploy\<close> and \<open>inforge release app\<close> (\<open>cmd/inforge/releases.go\<close>,
  \<open>release.go\<close>, \<open>arch.go\<close>): the architecture of every host, the artifacts it needs, their download to
  temporary files, and the delivery.  Configuration files, the stack outputs, the creation of
  temporary files and \<open>tar\<close> are parameters.
\<close>

subsection \<open>Architectures\<close>

definition validArch :: "string \<Rightarrow> bool" where "validArch arch \<longleftrightarrow> arch \<in> set SupportedArchs"

definition mapUnameArch :: "string \<Rightarrow> string option" where
  "mapUnameArch machine = (if machine = ''x86_64'' then Some ''amd64'' else if machine = ''aarch64'' then Some ''arm64'' else None)"

datatype cmd_err =
    BadArchFlag string
  | NoSHA
  | ArchProbe string string
  | UnsupportedHost string string
  | ArtifactsMissing "(string \<times> string list) list"
  | NoArtifact string
  | FromStore rel_err
  | LocalFile string
  | NoSSHKey string
  | FromManifests deployment_err
  | FromTargets target_err
  | FromConfig string
  | FromDelivery deliver_err
  | RollbackWithBundle
  | MintFailed string

definition validateArchFlag :: "string \<Rightarrow> cmd_err option" where
  "validateArchFlag arch = (if validArch arch then None else Some (BadArchFlag arch))"

definition probe_args :: "string \<Rightarrow> string \<Rightarrow> string \<Rightarrow> string list" where
  "probe_args host user key = sshArgs key @ [user @ ''@'' @ host, ''uname -m'']"

definition probeHostArch :: "'b transport \<Rightarrow> string \<Rightarrow> string \<Rightarrow> string \<Rightarrow> ('s, 'b) delivery \<Rightarrow> (cmd_err + string) \<times> ('s, 'b) delivery" where
  "probeHostArch tr host user key st =
     (case runProbeSSH tr (probe_args host user key) st of
        (Inl e, st1) \<Rightarrow> (Inl (ArchProbe host e), st1)
      | (Inr out, st1) \<Rightarrow>
          (case mapUnameArch (TrimSpace out) of
             None \<Rightarrow> (Inl (UnsupportedHost host (TrimSpace out)), st1)
           | Some arch \<Rightarrow> (Inr arch, st1)))"

text \<open>
  The probes run at once; \<open>ts\<close> lists the targets in the order in which their probes complete.  The
  first failure is the result.
\<close>

fun probeTargetArchs :: "'b transport \<Rightarrow> string \<Rightarrow> deploy_target list \<Rightarrow> (string \<times> string) list \<Rightarrow> ('s, 'b) delivery
    \<Rightarrow> (cmd_err + (string \<times> string) list) \<times> ('s, 'b) delivery" where
  "probeTargetArchs tr key [] seen st = (Inr seen, st)"
| "probeTargetArchs tr key (t # ts) seen st =
     (case probeHostArch tr (dt_host_dns t) (dt_ssh_user t) key st of
        (Inl e, st1) \<Rightarrow> (Inl e, st1)
      | (Inr arch, st1) \<Rightarrow> probeTargetArchs tr key ts (seen @ [(dt_host_dns t, arch)]) st1)"

text \<open>Both maps of the probe: the architecture of a host, and the hosts of an architecture.\<close>

definition arch_of :: "(string \<times> string) list \<Rightarrow> (string \<rightharpoonup> string)" where
  "arch_of seen = map_of (rev seen)"

definition hosts_of_arch :: "(string \<times> string) list \<Rightarrow> string \<Rightarrow> string list" where
  "hosts_of_arch seen arch = map fst (filter (\<lambda>r. snd r = arch) seen)"

definition arch_list :: "(string \<times> string) list \<Rightarrow> string list" where
  "arch_list seen = sort (remdups (map snd seen))"

type_synonym ('s, 'b) checker = "string \<Rightarrow> ('s, 'b) delivery \<Rightarrow> (rel_err + bool) \<times> ('s, 'b) delivery"

fun missing_archs :: "('s, 'b) checker \<Rightarrow> string list \<Rightarrow> string list \<Rightarrow> ('s, 'b) delivery \<Rightarrow> (cmd_err + string list) \<times> ('s, 'b) delivery" where
  "missing_archs exists [] missing st = (Inr missing, st)"
| "missing_archs exists (arch # archs) missing st =
     (case exists arch st of
        (Inl e, st1) \<Rightarrow> (Inl (FromStore e), st1)
      | (Inr there, st1) \<Rightarrow> missing_archs exists archs (if there then missing else missing @ [arch]) st1)"

definition verifyArchsPushed :: "(string \<times> string) list \<Rightarrow> ('s, 'b) checker \<Rightarrow> ('s, 'b) delivery \<Rightarrow> (cmd_err + (string \<rightharpoonup> string) \<times> string list) \<times> ('s, 'b) delivery" where
  "verifyArchsPushed seen exists st =
     (case missing_archs exists (arch_list seen) [] st of
        (Inl e, st1) \<Rightarrow> (Inl e, st1)
      | (Inr missing, st1) \<Rightarrow>
          (if missing \<noteq> [] then Inl (ArtifactsMissing (map (\<lambda>a. (a, hosts_of_arch seen a)) missing))
           else Inr (arch_of seen, arch_list seen), st1))"

definition store_checker :: "('s, 'b) s3API \<Rightarrow> string \<Rightarrow> string \<Rightarrow> ('s, 'b) checker" where
  "store_checker api svc sha arch st =
     (case ArtifactExists api svc sha arch (ds_bucket st) of (r, s1) \<Rightarrow> (r, st\<lparr>ds_bucket := s1\<rparr>))"

definition probeAndVerifyArch :: "'b transport \<Rightarrow> ('s, 'b) s3API \<Rightarrow> string \<Rightarrow> string \<Rightarrow> deploy_target list \<Rightarrow> string \<Rightarrow> ('s, 'b) delivery
    \<Rightarrow> (cmd_err + (string \<rightharpoonup> string) \<times> string list) \<times> ('s, 'b) delivery" where
  "probeAndVerifyArch tr api svc sha ts key st =
     (case probeTargetArchs tr key ts [] st of
        (Inl e, st1) \<Rightarrow> (Inl e, st1)
      | (Inr seen, st1) \<Rightarrow> verifyArchsPushed seen (store_checker api svc sha) st1)"

fun anyArchPushed :: "string \<Rightarrow> string \<Rightarrow> ('s, 'b) checker \<Rightarrow> string list \<Rightarrow> ('s, 'b) delivery \<Rightarrow> (cmd_err + string list) \<times> ('s, 'b) delivery" where
  "anyArchPushed svc sha exists [] st = (Inr [], st)"
| "anyArchPushed svc sha exists (arch # archs) st =
     (case exists arch st of
        (Inl e, st1) \<Rightarrow> (Inl (FromStore e), st1)
      | (Inr there, st1) \<Rightarrow>
          (case anyArchPushed svc sha exists archs st1 of
             (Inl e, st2) \<Rightarrow> (Inl e, st2)
           | (Inr found, st2) \<Rightarrow> (Inr (if there then artifactKey svc sha arch # found else found), st2)))"

definition dryRunWithoutSSH :: "string \<Rightarrow> string \<Rightarrow> ('s, 'b) checker \<Rightarrow> ('s, 'b) delivery \<Rightarrow> cmd_err option \<times> ('s, 'b) delivery" where
  "dryRunWithoutSSH svc sha exists st =
     (case anyArchPushed svc sha exists SupportedArchs st of
        (Inl e, st1) \<Rightarrow> (Some e, st1)
      | (Inr found, st1) \<Rightarrow> (if found = [] then Some (NoArtifact sha) else None, st1))"

subsection \<open>Downloads\<close>

text \<open>Creating, writing and closing a temporary file may fail.\<close>

record 'b local_fs =
  lf_create :: "'b files \<Rightarrow> string + string"
  lf_write :: "string \<Rightarrow> string option"
  lf_close :: "string \<Rightarrow> string option"

definition remove_files :: "string list \<Rightarrow> ('s, 'b) delivery \<Rightarrow> ('s, 'b) delivery" where
  "remove_files paths st = st\<lparr>ds_files := filter (\<lambda>r. fst r \<notin> set paths) (ds_files st)\<rparr>"

definition write_file :: "string \<Rightarrow> 'b \<Rightarrow> ('s, 'b) delivery \<Rightarrow> ('s, 'b) delivery" where
  "write_file path b st = st\<lparr>ds_files := (path, b) # ds_files st\<rparr>"

definition downloadArtifact :: "'b local_fs \<Rightarrow> ('s, 'b) s3API \<Rightarrow> string \<Rightarrow> string \<Rightarrow> string \<Rightarrow> ('s, 'b) delivery
    \<Rightarrow> (cmd_err + string) \<times> ('s, 'b) delivery" where
  "downloadArtifact lf api svc sha arch st =
     (case GetArtifact api svc sha arch (ds_bucket st) of
        (Inl e, s1) \<Rightarrow> (Inl (FromStore e), st\<lparr>ds_bucket := s1\<rparr>)
      | (Inr body, s1) \<Rightarrow>
          (case lf_create lf (ds_files st) of
             Inl e \<Rightarrow> (Inl (LocalFile e), st\<lparr>ds_bucket := s1\<rparr>)
           | Inr path \<Rightarrow>
               (case (body, lf_write lf path, lf_close lf path) of
                  (Inr b, None, None) \<Rightarrow> (Inr path, write_file path b (st\<lparr>ds_bucket := s1\<rparr>))
                | (Inr b, None, Some e) \<Rightarrow> (Inl (LocalFile e), remove_files [path] (write_file path b (st\<lparr>ds_bucket := s1\<rparr>)))
                | (Inr b, Some e, _) \<Rightarrow> (Inl (LocalFile e), remove_files [path] (write_file path b (st\<lparr>ds_bucket := s1\<rparr>)))
                | (Inl e, _, _) \<Rightarrow> (Inl (LocalFile e), remove_files [path] (st\<lparr>ds_bucket := s1\<rparr>)))))"

text \<open>One download per architecture; a failure removes what was downloaded before.\<close>

fun download_archs :: "'b local_fs \<Rightarrow> ('s, 'b) s3API \<Rightarrow> string \<Rightarrow> string \<Rightarrow> string list \<Rightarrow> (string \<rightharpoonup> string) \<Rightarrow> string list \<Rightarrow> ('s, 'b) delivery
    \<Rightarrow> (cmd_err + (string \<rightharpoonup> string)) \<times> string list \<times> ('s, 'b) delivery" where
  "download_archs lf api svc sha [] payloadOf cleanups st = (Inr payloadOf, cleanups, st)"
| "download_archs lf api svc sha (arch # archs) payloadOf cleanups st =
     (case downloadArtifact lf api svc sha arch st of
        (Inl e, st1) \<Rightarrow> (Inl e, [], remove_files cleanups st1)
      | (Inr path, st1) \<Rightarrow>
          download_archs lf api svc sha archs (payloadOf(arch \<mapsto> path)) (cleanups @ [path]) st1)"

definition serviceDeliveryTargets :: "deploy_target list \<Rightarrow> (string \<rightharpoonup> string) \<Rightarrow> (string \<rightharpoonup> string) \<Rightarrow> delivery_target list" where
  "serviceDeliveryTargets targets archOf payloadOf =
     map (\<lambda>t. let arch = go_string archOf (dt_host_dns t) in
       \<lparr>dv_host = dt_host_dns t, dv_ssh_user = dt_ssh_user t, dv_apply = serviceApplyScript t,
        dv_describe = ''extracting to '' @ dt_folder t @ '' and restarting '' @ dt_unit t,
        dv_arch = arch, dv_payload = go_string payloadOf arch\<rparr>) targets"

definition downloadArchPayloads :: "'b local_fs \<Rightarrow> ('s, 'b) s3API \<Rightarrow> string \<Rightarrow> string \<Rightarrow> deploy_target list \<Rightarrow> (string \<rightharpoonup> string) \<times> string list
    \<Rightarrow> ('s, 'b) delivery \<Rightarrow> (cmd_err + delivery_target list) \<times> string list \<times> ('s, 'b) delivery" where
  "downloadArchPayloads lf api svc sha targets res st =
     (case download_archs lf api svc sha (snd res) Map.empty [] st of
        (Inl e, cl, st1) \<Rightarrow> (Inl e, cl, st1)
      | (Inr payloadOf, cl, st1) \<Rightarrow> (Inr (serviceDeliveryTargets targets (fst res) payloadOf), cl, st1))"

definition appDeliveryTargets :: "app_target list \<Rightarrow> string \<Rightarrow> string \<Rightarrow> bool \<Rightarrow> delivery_target list" where
  "appDeliveryTargets targets sha payload rollback =
     map (\<lambda>t.
       \<lparr>dv_host = at_host_dns t, dv_ssh_user = at_ssh_user t,
        dv_apply = (if rollback then (\<lambda>_. appRollbackScript t sha) else appReleaseScript t sha),
        dv_describe = (if rollback then ''rolling back'' else ''releasing'') @ '' '' @ BundleDir (at_app t) sha,
        dv_arch = [], dv_payload = (if rollback then [] else payload)\<rparr>) targets"

definition appArtifactSlug :: "string \<Rightarrow> string" where "appArtifactSlug name = ''app/'' @ name"

subsection \<open>Resolving the inputs\<close>

definition resolveSHA :: "string \<Rightarrow> string \<Rightarrow> cmd_err + string" where
  "resolveSHA flag env_sha = (if flag \<noteq> [] then Inr flag else if env_sha \<noteq> [] then Inr env_sha else Inl NoSHA)"

text \<open>The key file, and whether it is a temporary file to remove.\<close>

definition resolveSSHKey :: "string \<Rightarrow> string \<Rightarrow> string \<Rightarrow> (string \<Rightarrow> string + string) \<Rightarrow> cmd_err + string \<times> bool" where
  "resolveSSHKey flag env_path material write_temp =
     (if flag \<noteq> [] then Inr (flag, False)
      else if env_path \<noteq> [] then Inr (env_path, False)
      else if material \<noteq> [] then (case write_temp material of Inl e \<Rightarrow> Inl (NoSSHKey e) | Inr p \<Rightarrow> Inr (p, True))
      else Inl (NoSSHKey ''SSH deploy key required''))"

definition manifest_env :: "string \<Rightarrow> deployment_config read_file \<Rightarrow> service_descriptor read_file \<Rightarrow> string \<Rightarrow> string \<Rightarrow> deployment_err + string \<times> env_config" where
  "manifest_env folder cfgFile descFile svc env =
     (case LoadConfig (path_Join folder ''inforge.yaml'') cfgFile of
        Inl e \<Rightarrow> Inl e
      | Inr cfg \<Rightarrow>
          (case LoadServiceDescriptor (path_Join folder (svc @ ''.yaml'')) descFile of
             Inl e \<Rightarrow> Inl e
           | Inr desc \<Rightarrow> deployment_Resolve cfg desc svc env))"

definition resolvePlatform :: "string \<Rightarrow> deployment_config read_file \<Rightarrow> service_descriptor read_file \<Rightarrow> string \<Rightarrow> string \<Rightarrow> deployment_err + string" where
  "resolvePlatform folder cfgFile descFile svc env = map_sum id fst (manifest_env folder cfgFile descFile svc env)"

definition resolveArtifactPath :: "(string \<Rightarrow> string) \<Rightarrow> string \<Rightarrow> deployment_config read_file \<Rightarrow> service_descriptor read_file \<Rightarrow> string \<Rightarrow> string
    \<Rightarrow> deployment_err + string" where
  "resolveArtifactPath absolute folder cfgFile descFile svc env =
     map_sum id (\<lambda>r. absolute (ec_artifact_path (snd r))) (manifest_env folder cfgFile descFile svc env)"

subsection \<open>The commands\<close>

text \<open>
  What a command reads besides its arguments: the bucket and its codec, the transport, the temporary
  files, the environment variables, the manifests of the repository, the results of loading the
  project and stack configuration and of opening the store, the stack outputs, the order in which the
  probes complete, the minting of mesh leaves, and the packaging of a directory.
\<close>

record ('s, 'b) release_world =
  rw_api :: "('s, 'b) s3API"
  rw_dec :: "'b \<Rightarrow> string + manifest"
  rw_enc :: "manifest \<Rightarrow> string + 'b"
  rw_tr :: "'b transport"
  rw_lf :: "'b local_fs"
  rw_sha :: string
  rw_key_path :: string
  rw_key_material :: string
  rw_write_temp :: "string \<Rightarrow> string + string"
  rw_cfg :: "deployment_config read_file"
  rw_desc :: "service_descriptor read_file"
  rw_config :: "string option"
  rw_store :: "string option"
  rw_services :: "string + (string \<rightharpoonup> string + deploy_target list)"
  rw_apps :: "string + (string \<rightharpoonup> string + app_target list)"
  rw_order :: "deploy_target list \<Rightarrow> deploy_target list"
  rw_mint :: "('s, 'b) delivery \<Rightarrow> string option \<times> ('s, 'b) delivery"
  rw_absolute :: "string \<Rightarrow> string"
  rw_package :: "string \<Rightarrow> string + 'b"
  rw_keep :: int

text \<open>\<open>runReleasesDeploy\<close> once its inputs are resolved.\<close>

definition service_delivery :: "('s, 'b) release_world \<Rightarrow> string \<Rightarrow> string \<Rightarrow> string \<Rightarrow> deploy_target list \<Rightarrow> string \<Rightarrow> bool
    \<Rightarrow> ('s, 'b) delivery \<Rightarrow> cmd_err option \<times> ('s, 'b) delivery" where
  "service_delivery w env svc sha targets key dryRun st =
     (case probeAndVerifyArch (rw_tr w) (rw_api w) svc sha (rw_order w targets) key st of
        (Inl e, st1) \<Rightarrow> (Some e, st1)
      | (Inr res, st1) \<Rightarrow>
          if dryRun then (None, st1)
          else
            case rw_mint w st1 of
              (Some e, st2) \<Rightarrow> (Some (MintFailed e), st2)
            | (None, st2) \<Rightarrow>
                (case downloadArchPayloads (rw_lf w) (rw_api w) svc sha targets res st2 of
                   (Inl e, cl, st3) \<Rightarrow> (Some e, st3)
                 | (Inr dts, cl, st3) \<Rightarrow>
                     (case deliverRelease (rw_tr w) (rw_api w) (rw_dec w) (rw_enc w) svc env sha dts key st3 of
                        (r, st4) \<Rightarrow> (map_option FromDelivery r, remove_files cl st4))))"

definition runReleasesDeploy :: "('s, 'b) release_world \<Rightarrow> string \<Rightarrow> string \<Rightarrow> string \<Rightarrow> string \<Rightarrow> string \<Rightarrow> bool
    \<Rightarrow> ('s, 'b) delivery \<Rightarrow> cmd_err option \<times> ('s, 'b) delivery" where
  "runReleasesDeploy w folder env svc shaFlag keyFlag dryRun st =
     (case resolveSHA shaFlag (rw_sha w) of
        Inl e \<Rightarrow> (Some e, st)
      | Inr sha \<Rightarrow>
     (case resolvePlatform folder (rw_cfg w) (rw_desc w) svc env of
        Inl e \<Rightarrow> (Some (FromManifests e), st)
      | Inr platform \<Rightarrow>
     (case rw_config w of
        Some e \<Rightarrow> (Some (FromConfig e), st)
      | None \<Rightarrow>
     (case resolveDeployTargets env (rw_services w) svc of
        Inl e \<Rightarrow> (Some (FromTargets e), st)
      | Inr targets \<Rightarrow>
     (case rw_store w of
        Some e \<Rightarrow> (Some (FromConfig e), st)
      | None \<Rightarrow>
     (case resolveSSHKey keyFlag (rw_key_path w) (rw_key_material w) (rw_write_temp w) of
        Inl e \<Rightarrow>
          if dryRun then
            dryRunWithoutSSH svc sha (store_checker (rw_api w) svc sha) st
          else (Some e, st)
      | Inr (key, temp) \<Rightarrow> service_delivery w env svc sha targets key dryRun st))))))"

text \<open>
  Packaging, uploading and pruning, as \<open>releases push\<close> and \<open>release app --bundle\<close> do: the prune may
  fail without failing the push.  \<open>None\<close> is a listing that never ends.
\<close>

definition push_artifact :: "('s, 'b) release_world \<Rightarrow> string \<Rightarrow> string \<Rightarrow> string \<Rightarrow> string \<Rightarrow> ('s, 'b) delivery \<Rightarrow> (cmd_err option \<times> ('s, 'b) delivery) option" where
  "push_artifact w svc sha arch folder st =
     (case rw_package w folder of
        Inl e \<Rightarrow> Some (Some (LocalFile e), st)
      | Inr body \<Rightarrow>
          (case PutArtifact (rw_api w) svc sha arch body (ds_bucket st) of
             (Some e, s1) \<Rightarrow> Some (Some (FromStore e), st\<lparr>ds_bucket := s1\<rparr>)
           | (None, s1) \<Rightarrow>
               map_option (\<lambda>(pruned, s2). (None, st\<lparr>ds_bucket := s2\<rparr>)) (Prune (rw_api w) (rw_dec w) svc (rw_keep w) s1)))"

definition runReleasesPush :: "('s, 'b) release_world \<Rightarrow> string \<Rightarrow> string \<Rightarrow> string \<Rightarrow> string \<Rightarrow> string \<Rightarrow> ('s, 'b) delivery
    \<Rightarrow> (cmd_err option \<times> ('s, 'b) delivery) option" where
  "runReleasesPush w folder env svc shaFlag arch st =
     (case validateArchFlag arch of
        Some e \<Rightarrow> Some (Some e, st)
      | None \<Rightarrow>
     (case resolveSHA shaFlag (rw_sha w) of
        Inl e \<Rightarrow> Some (Some e, st)
      | Inr sha \<Rightarrow>
     (case resolveArtifactPath (rw_absolute w) folder (rw_cfg w) (rw_desc w) svc env of
        Inl e \<Rightarrow> Some (Some (FromManifests e), st)
      | Inr path \<Rightarrow>
     (case rw_config w of
        Some e \<Rightarrow> Some (Some (FromConfig e), st)
      | None \<Rightarrow>
     (case rw_store w of
        Some e \<Rightarrow> Some (Some (FromConfig e), st)
      | None \<Rightarrow> push_artifact w svc sha arch path st)))))"

text \<open>\<open>runReleaseApp\<close>: the bundle must be in the store before a delivery.\<close>

definition bundle_there :: "('s, 'b) release_world \<Rightarrow> string \<Rightarrow> string \<Rightarrow> ('s, 'b) delivery \<Rightarrow> cmd_err option \<times> ('s, 'b) delivery" where
  "bundle_there w slug sha st =
     (case store_checker (rw_api w) slug sha NoArch st of
        (Inl e, st1) \<Rightarrow> (Some (FromStore e), st1)
      | (Inr there, st1) \<Rightarrow> (if there then None else Some (NoArtifact sha), st1))"

definition app_delivery :: "('s, 'b) release_world \<Rightarrow> string \<Rightarrow> string \<Rightarrow> string \<Rightarrow> app_target list \<Rightarrow> string \<Rightarrow> ('s, 'b) delivery
    \<Rightarrow> cmd_err option \<times> ('s, 'b) delivery" where
  "app_delivery w env slug sha targets keyFlag st =
     (case bundle_there w slug sha st of
        (Some e, st1) \<Rightarrow> (Some e, st1)
      | (None, st1) \<Rightarrow>
          (case resolveSSHKey keyFlag (rw_key_path w) (rw_key_material w) (rw_write_temp w) of
             Inl e \<Rightarrow> (Some e, st1)
           | Inr (key, temp) \<Rightarrow>
               (case downloadArtifact (rw_lf w) (rw_api w) slug sha NoArch st1 of
                  (Inl e, st2) \<Rightarrow> (Some e, st2)
                | (Inr payload, st2) \<Rightarrow>
                    (case deliverRelease (rw_tr w) (rw_api w) (rw_dec w) (rw_enc w) slug env sha
                            (appDeliveryTargets targets sha payload False) key st2 of
                       (r, st3) \<Rightarrow> (map_option FromDelivery r, remove_files [payload] st3)))))"

definition app_rollback :: "('s, 'b) release_world \<Rightarrow> string \<Rightarrow> string \<Rightarrow> string \<Rightarrow> app_target list \<Rightarrow> string \<Rightarrow> ('s, 'b) delivery
    \<Rightarrow> cmd_err option \<times> ('s, 'b) delivery" where
  "app_rollback w env slug sha targets keyFlag st =
     (case resolveSSHKey keyFlag (rw_key_path w) (rw_key_material w) (rw_write_temp w) of
        Inl e \<Rightarrow> (Some e, st)
      | Inr (key, temp) \<Rightarrow>
          apfst (map_option FromDelivery)
            (deliverRelease (rw_tr w) (rw_api w) (rw_dec w) (rw_enc w) slug env sha (appDeliveryTargets targets sha [] True) key st))"

definition runReleaseApp :: "('s, 'b) release_world \<Rightarrow> string \<Rightarrow> string \<Rightarrow> string \<Rightarrow> string \<Rightarrow> string \<Rightarrow> bool \<Rightarrow> bool
    \<Rightarrow> ('s, 'b) delivery \<Rightarrow> (cmd_err option \<times> ('s, 'b) delivery) option" where
  "runReleaseApp w env name shaFlag bundleDir keyFlag rollback dryRun st =
     (if rollback \<and> bundleDir \<noteq> [] then Some (Some RollbackWithBundle, st)
      else
     (case resolveSHA shaFlag (rw_sha w) of
        Inl e \<Rightarrow> Some (Some e, st)
      | Inr sha \<Rightarrow>
     (case rw_config w of
        Some e \<Rightarrow> Some (Some (FromConfig e), st)
      | None \<Rightarrow>
     (case resolveAppDeployTargets env (rw_apps w) name of
        Inl e \<Rightarrow> Some (Some (FromTargets e), st)
      | Inr targets \<Rightarrow>
     (case rw_store w of
        Some e \<Rightarrow> Some (Some (FromConfig e), st)
      | None \<Rightarrow>
          let slug = appArtifactSlug name in
          if rollback then
            if dryRun then Some (None, st)
            else Some (app_rollback w env slug sha targets keyFlag st)
          else if dryRun then
            if bundleDir \<noteq> [] then Some (None, st)
            else Some (bundle_there w slug sha st)
          else if bundleDir \<noteq> [] then
            (case push_artifact w slug sha NoArch bundleDir st of
               None \<Rightarrow> None
             | Some (Some e, st1) \<Rightarrow> Some (Some e, st1)
             | Some (None, st1) \<Rightarrow> Some (app_delivery w env slug sha targets keyFlag st1))
          else Some (app_delivery w env slug sha targets keyFlag st))))))"

end
