(* ===== verification/DeliverFacts.thy ===== *)
theory DeliverFacts
  imports ReleaseCmd ReleaseProps
begin

text \<open>
  What a delivery does to the manifest and which calls it makes: a call of \<open>SetDeployment\<close> with nothing
  else acting, the session of one target, the sessions of a release, and the downloads.
\<close>

subsection \<open>A deployment recorded alone\<close>

context release_cas
begin

lemma load_view:
  assumes "valid s" "LoadManifest api dec svc env s = (Inr (m, t, ex), s1)"
  shows "map_of m = manifest_view dec (obj s (manifestKey svc env))
    \<and> cond_holds (if ex then IfMatch t else IfNoneMatch) (obj s (manifestKey svc env))"
proof (cases ex)
  case True
  then obtain b where "obj s (manifestKey svc env) = Some (b, t)" "dec b = Inr m"
    using load_facts(2) [OF assms] by auto
  then show ?thesis using True by (simp add: manifest_view_def cond_holds_def)
next
  case False
  then show ?thesis using load_facts(3) [OF assms] by (simp add: manifest_view_def cond_holds_def)
qed

lemma set_put_alone:
  assumes v: "valid s" and p: "set_put api enc c n m t ex s = (pc1, s1)"
    and m: "map_of m = manifest_view dec (obj s (call_key c))"
    and h: "cond_holds (if ex then IfMatch t else IfNoneMatch) (obj s (call_key c))"
  shows "later s s1 \<and> (\<forall>k. k \<noteq> call_key c \<longrightarrow> obj s1 k = obj s k)
    \<and> (\<exists>r. pc1 = SetDone r \<and>
        (r \<noteq> None \<and> obj s1 = obj s
         \<or> manifest_view dec (obj s1 (call_key c)) = (manifest_view dec (obj s (call_key c)))(sc_host c \<mapsto> sc_dep c)))"
  using v p
proof (cases rule: put_cases)
  case (written b t')
  obtain m1 where "dec b = Inr m1" "map_of m1 = map_of (AList.update (sc_host c) (sc_dep c) m)"
    using codec [OF written(1)] by blast
  then have "manifest_view dec (obj s1 (call_key c)) = (manifest_view dec (obj s (call_key c)))(sc_host c \<mapsto> sc_dep c)"
    using written(3) m by (simp add: manifest_view_def update_conv')
  then show ?thesis using written(3,4,6) by auto
next
  case refused
  then show ?thesis using h by simp
next
  case (unwritten e)
  then show ?thesis by simp
qed

lemma set_attempts_alone:
  assumes v: "valid s" and a: "set_attempts api dec enc c (Suc left) s = (r, s1)"
    and l: "Suc left \<le> manifestCASAttempts"
  shows "later s s1 \<and> (\<forall>k. k \<noteq> call_key c \<longrightarrow> obj s1 k = obj s k)
    \<and> (r \<noteq> None \<and> obj s1 = obj s
       \<or> manifest_view dec (obj s1 (call_key c)) = (manifest_view dec (obj s (call_key c)))(sc_host c \<mapsto> sc_dep c))"
proof -
  let ?n = "manifestCASAttempts - Suc left"
  obtain q s2 where ld: "LoadManifest api dec (sc_service c) (sc_env c) s = (q, s2)" by fastforce
  note same = load_facts(1) [OF v ld]
  have n: "\<not> ?n \<ge> manifestCASAttempts" using l by simp
  show ?thesis
  proof (cases q)
    case (Inl e)
    then have "r = Some e" "s1 = s2" using a ld n by (simp_all add: set_load_def)
    then show ?thesis using same by simp
  next
    case (Inr z)
    obtain m t ex where z: "z = (m, t, ex)" by (cases z)
    note lv = load_view [OF v ld [unfolded Inr z]]
    obtain pc1 s3 where p: "set_put api enc c ?n m t ex s2 = (pc1, s3)" by fastforce
    have v2: "valid s2" using later_valid [OF v] same by blast
    have f: "later s2 s3 \<and> (\<forall>k. k \<noteq> call_key c \<longrightarrow> obj s3 k = obj s2 k)
      \<and> (\<exists>r. pc1 = SetDone r \<and>
        (r \<noteq> None \<and> obj s3 = obj s2
         \<or> manifest_view dec (obj s3 (call_key c)) = (manifest_view dec (obj s2 (call_key c)))(sc_host c \<mapsto> sc_dep c)))"
      using set_put_alone [OF v2 p] lv same by (simp add: call_key_def)
    then obtain q where q: "pc1 = SetDone q" by blast
    have "set_load api dec c ?n s = (SetPut ?n m t ex, s2)" using ld Inr z n by (simp add: set_load_def)
    then have "r = q \<and> s1 = s3" using a p q by simp
    then show ?thesis using f q same later_trans by auto
  qed
qed

lemma set_alone:
  assumes "valid s" "SetDeployment api dec enc c s = (r, s1)"
  shows "later s s1 \<and> (\<forall>k. k \<noteq> call_key c \<longrightarrow> obj s1 k = obj s k)
    \<and> (r \<noteq> None \<and> obj s1 = obj s
       \<or> manifest_view dec (obj s1 (call_key c)) = (manifest_view dec (obj s (call_key c)))(sc_host c \<mapsto> sc_dep c))"
  using set_attempts_alone [of s c 4 r s1] assms by (simp add: SetDeployment_def manifestCASAttempts_def eval_nat_numeral)

end

subsection \<open>Pins\<close>

text \<open>What the manifest of a service and environment pins, without the times.\<close>

definition pins :: "('s \<Rightarrow> string \<Rightarrow> ('b \<times> string) option) \<Rightarrow> ('b \<Rightarrow> string + manifest) \<Rightarrow> string \<Rightarrow> string \<Rightarrow> 's \<Rightarrow> (string \<rightharpoonup> string \<times> string)" where
  "pins obj dec slug env s h = map_option (\<lambda>d. (dp_sha d, dp_arch d)) (manifest_view dec (obj s (manifestKey slug env)) h)"

lemma pins_cong: "obj s1 (manifestKey slug env) = obj s (manifestKey slug env) \<Longrightarrow> pins obj dec slug env s1 = pins obj dec slug env s"
  by (simp add: pins_def fun_eq_iff)

lemma pins_manifest:
  assumes "pins obj dec slug env s h = Some (sha, arch)" "sha \<noteq> []"
  obtains b t m where "obj s (manifestKey slug env) = Some (b, t)" "dec b = Inr m" "sha \<in> set (SHAs m)"
proof -
  obtain d where d: "manifest_view dec (obj s (manifestKey slug env)) h = Some d" "dp_sha d = sha"
    using assms(1) by (auto simp: pins_def)
  then obtain b t m where m: "obj s (manifestKey slug env) = Some (b, t)" "dec b = Inr m" "map_of m h = Some d"
    by (auto simp: manifest_view_def split: option.splits sum.splits)
  have "sha \<in> set (SHAs m)" using map_of_SomeD [OF m(3)] d(2) assms(2) by (force simp: SHAs_def)
  then show thesis using that m by blast
qed

lemma manifest_is_manifest: "isManifestKey slug (manifestKey slug env)"
  by (simp add: isManifestKey_def manifestKey_def suffix_def)

text \<open>What a pin guarantees: no prune from that state removes an object whose key reads as the SHA, nor
  the artifact that was delivered, when its key names its SHA.\<close>

definition prune_safe :: "('s, 'b) s3API \<Rightarrow> ('s \<Rightarrow> string \<Rightarrow> ('b \<times> string) option) \<Rightarrow> ('b \<Rightarrow> string + manifest) \<Rightarrow> string \<Rightarrow> string \<Rightarrow> string \<Rightarrow> 's \<Rightarrow> bool" where
  "prune_safe api obj dec slug sha arch s \<longleftrightarrow>
     (\<forall>keep r s1. Prune api dec slug keep s = Some (r, s1) \<longrightarrow>
        (\<forall>k. shaFromKey slug k = sha \<longrightarrow> obj s1 k = obj s k)
        \<and> (names_sha sha arch \<longrightarrow> obj s1 (artifactKey slug sha arch) = obj s (artifactKey slug sha arch)))"

lemma pinned_safe:
  assumes os: "object_store api obj valid later rest" and v: "valid s"
    and p: "pins obj dec slug env s h = Some (sha, arch)" "sha \<noteq> []"
  shows "prune_safe api obj dec slug sha arch' s"
  unfolding prune_safe_def
proof (intro allI impI)
  fix keep r s1
  assume a: "Prune api dec slug keep s = Some (r, s1)"
  obtain b t m where m: "obj s (manifestKey slug env) = Some (b, t)" "dec b = Inr m" "sha \<in> set (SHAs m)"
    using p by (rule pins_manifest)
  have all: "\<forall>k mk b t m. obj s mk = Some (b, t) \<longrightarrow> isManifestKey slug mk \<longrightarrow> dec b = Inr m \<longrightarrow>
         shaFromKey slug k \<in> set (SHAs m) \<longrightarrow> obj s1 k = obj s k"
    and foreign: "\<forall>k. obj s1 k \<noteq> obj s k \<longrightarrow> obj s1 k = None \<and> shaFromKey slug k \<noteq> []"
    using object_store.prune_result [OF os v, of dec slug keep] a by auto
  have kept: "obj s1 k = obj s k" if "shaFromKey slug k = sha" for k
    using all [rule_format, OF m(1) manifest_is_manifest m(2)] m(3) that by simp
  have "obj s1 (artifactKey slug sha arch') = obj s (artifactKey slug sha arch')" if "names_sha sha arch'"
    using named_sha [OF that, of slug] kept foreign by blast
  then show "(\<forall>k. shaFromKey slug k = sha \<longrightarrow> obj s1 k = obj s k)
      \<and> (names_sha sha arch' \<longrightarrow> obj s1 (artifactKey slug sha arch') = obj s (artifactKey slug sha arch'))"
    using kept by blast
qed

subsection \<open>The session of a target\<close>

text \<open>
  The calls of one target with the bucket of their time: nothing when the pin fails, one apply without
  a payload; else the creation of the payload path, the upload of the file's content \<open>body\<close>, the apply
  and always the removal.  \<open>good\<close> is what holds of the bucket when the host is changed.
\<close>

definition session :: "('s \<Rightarrow> bool) \<Rightarrow> string \<Rightarrow> delivery_target \<Rightarrow> 'b option \<Rightarrow> bool \<Rightarrow> ('b remote_call \<times> 's) list \<Rightarrow> bool" where
  "session good key t body complete cs \<longleftrightarrow>
     (let create = ProbeSSH (mktemp_args (account_of t) key);
          upload = (\<lambda>path. RunSCP (upload_args key t path) body);
          act = (\<lambda>path. RunSSH (apply_args key t path));
          clean = (\<lambda>path. RunSSH (remove_args (account_of t) key path)) in
      if dv_payload t = [] then \<not> complete \<and> cs = [] \<or> (\<exists>b. cs = [(act [], b)] \<and> good b)
      else
        \<not> complete \<and> (\<exists>b0. cs = [(create, b0)])
        \<or> \<not> complete \<and> (\<exists>path b0 b1 b2. cs = [(create, b0), (upload path, b1), (clean path, b2)])
        \<or> (\<exists>path b0 b1 b2 b3. cs = [(create, b0), (upload path, b1), (act path, b2), (clean path, b3)] \<and> good b2))"

lemma session_mono: "session good key t body True cs \<Longrightarrow> session good key t body complete cs"
  by (simp add: session_def Let_def split: if_splits)

lemma remoteMktemp_calls:
  assumes "remoteMktempPayload tr account key st = (q, st1)"
  shows "st1 = record_call (ProbeSSH (mktemp_args account key)) st"
  using assms by (auto simp: remoteMktempPayload_def runProbeSSH_def split: sum.splits option.splits)

lemma record_call_sel [simp]:
  "ds_bucket (record_call c st) = ds_bucket st"
  "ds_files (record_call c st) = ds_files st"
  "ds_calls (record_call c st) = ds_calls st @ [(c, ds_bucket st)]"
  by (simp_all add: record_call_def)

lemma removeRemote_sel [simp]:
  "ds_bucket (removeRemotePayload tr account key path st) = ds_bucket st"
  "ds_files (removeRemotePayload tr account key path st) = ds_files st"
  "ds_calls (removeRemotePayload tr account key path st) = ds_calls st @ [(RunSSH (remove_args account key path), ds_bucket st)]"
  by (simp_all add: removeRemotePayload_def runSSH_def)

lemma pin_and_apply_calls:
  assumes p: "pin (dv_host t) (dv_arch t) st = (q, st1)" "ds_calls st1 = ds_calls st \<and> ds_files st1 = ds_files st" "q = None \<longrightarrow> good (ds_bucket st1)"
    and a: "pin_and_apply tr pin key t path st = (r, st')"
  shows "ds_bucket st' = ds_bucket st1 \<and> ds_files st' = ds_files st \<and> (r = None \<longrightarrow> q = None)
    \<and> (r \<noteq> None \<and> ds_calls st' = ds_calls st
       \<or> q = None \<and> ds_calls st' = ds_calls st @ [(RunSSH (apply_args key t path), ds_bucket st1)] \<and> good (ds_bucket st1))"
proof (cases q)
  case None
  then show ?thesis using p a by (auto simp: pin_and_apply_def runSSH_def split: option.splits)
next
  case (Some e)
  then show ?thesis using p a by (auto simp: pin_and_apply_def)
qed

text \<open>
  The contract of a pinner: it makes no call, keeps the invariant \<open>V\<close> of the bucket, applies \<open>upd\<close> to what
  \<open>view\<close> sees of it or fails, and leaves the bucket good when it succeeds.
\<close>

locale pinner =
  fixes pin :: "('s, 'b) pinner" and V :: "'s \<Rightarrow> bool" and view :: "'s \<Rightarrow> 'v" and upd :: "delivery_target \<Rightarrow> 'v \<Rightarrow> 'v"
    and good :: "delivery_target \<Rightarrow> 's \<Rightarrow> bool"
  assumes pin_quiet: "pin (dv_host t) (dv_arch t) st = (q, st1) \<Longrightarrow> ds_calls st1 = ds_calls st \<and> ds_files st1 = ds_files st"
    and pin_keeps: "V (ds_bucket st) \<Longrightarrow> pin (dv_host t) (dv_arch t) st = (q, st1) \<Longrightarrow> V (ds_bucket st1)"
    and pin_view: "V (ds_bucket st) \<Longrightarrow> pin (dv_host t) (dv_arch t) st = (q, st1) \<Longrightarrow>
          q \<noteq> None \<and> view (ds_bucket st1) = view (ds_bucket st) \<or> view (ds_bucket st1) = upd t (view (ds_bucket st))"
    and pin_good: "V (ds_bucket st) \<Longrightarrow> pin (dv_host t) (dv_arch t) st = (None, st1) \<Longrightarrow> good t (ds_bucket st1)"
begin

definition moved :: "delivery_target \<Rightarrow> deliver_err option \<Rightarrow> 's \<Rightarrow> 's \<Rightarrow> bool" where
  "moved t r s s1 \<longleftrightarrow> V s1 \<and> (r \<noteq> None \<and> view s1 = view s \<or> view s1 = upd t (view s))"

lemma pin_and_apply_effect:
  assumes v: "V (ds_bucket st)" and a: "pin_and_apply tr pin key t path st = (r, st')"
  shows "moved t r (ds_bucket st) (ds_bucket st') \<and> ds_files st' = ds_files st
    \<and> (r \<noteq> None \<and> ds_calls st' = ds_calls st
       \<or> ds_calls st' = ds_calls st @ [(RunSSH (apply_args key t path), ds_bucket st')] \<and> good t (ds_bucket st'))"
proof -
  obtain q st1 where p: "pin (dv_host t) (dv_arch t) st = (q, st1)" by fastforce
  have g: "q = None \<longrightarrow> good t (ds_bucket st1)" using pin_good [OF v] p by auto
  note c = pin_and_apply_calls [where good = "good t", OF p pin_quiet [OF p] g a]
  show ?thesis using c pin_view [OF v p] pin_keeps [OF v p] unfolding moved_def by auto
qed

lemma target_session:
  assumes v: "V (ds_bucket st)" and d: "deliverToTarget tr pin key t st = (r, st')"
  shows "\<exists>cs. ds_calls st' = ds_calls st @ cs \<and> session (good t) key t (map_of (ds_files st) (dv_payload t)) (r = None) cs
    \<and> moved t r (ds_bucket st) (ds_bucket st') \<and> ds_files st' = ds_files st"
proof (cases "dv_payload t = []")
  case True
  then have "pin_and_apply tr pin key t [] st = (r, st')" using d by (simp add: deliverToTarget_def)
  from pin_and_apply_effect [OF v this] show ?thesis using True by (auto simp: session_def Let_def)
next
  case False
  obtain q st1 where m: "remoteMktempPayload tr (account_of t) key st = (q, st1)" by fastforce
  note st1 = remoteMktemp_calls [OF m]
  then have same: "ds_files st1 = ds_files st" by simp
  show ?thesis
  proof (cases q)
    case (Inl e)
    then have "r = Some e" "st' = st1" using d m False by (simp_all add: deliverToTarget_def)
    then show ?thesis using False st1 v by (auto simp: session_def Let_def moved_def)
  next
    case (Inr path)
    define st2 where "st2 = record_call (RunSCP (upload_args key t path) (map_of (ds_files st) (dv_payload t))) st1"
    show ?thesis
    proof (cases "tr_scp tr (history st1) (upload_args key t path)")
      case (Some e)
      then have "r = Some (UploadRefused (dv_host t) e)" "st' = removeRemotePayload tr (account_of t) key path st2"
        using d m False Inr by (simp_all add: deliverToTarget_def runSCP_def st2_def same)
      then show ?thesis using False st1 v by (auto simp: session_def Let_def moved_def st2_def)
    next
      case None
      obtain r3 st3 where p: "pin_and_apply tr pin key t path st2 = (r3, st3)" by fastforce
      have r: "r = r3" "st' = removeRemotePayload tr (account_of t) key path st3"
        using d m False Inr None p by (simp_all add: deliverToTarget_def runSCP_def st2_def same)
      have "V (ds_bucket st2)" using v st1 by (simp add: st2_def)
      from pin_and_apply_effect [OF this p] show ?thesis
        using r False st1 by (auto simp: session_def Let_def st2_def)
    qed
  qed
qed

lemma release_sessions:
  assumes "V (ds_bucket st)" "deliverReleaseTo tr pin key ts st = (r, st')"
  shows "\<exists>sess n. ds_calls st' = ds_calls st @ concat sess \<and> length sess \<le> length ts \<and> n \<le> length sess
    \<and> (r = None \<longrightarrow> n = length ts)
    \<and> (\<forall>i<length sess. session (good (ts ! i)) key (ts ! i) (map_of (ds_files st) (dv_payload (ts ! i))) (r = None \<or> Suc i < length sess) (sess ! i))
    \<and> V (ds_bucket st') \<and> ds_files st' = ds_files st \<and> view (ds_bucket st') = fold upd (take n ts) (view (ds_bucket st))"
  using assms
proof (induction ts arbitrary: st)
  case Nil
  then show ?case by simp
next
  case (Cons t ts)
  obtain q st1 where d: "deliverToTarget tr pin key t st = (q, st1)" by fastforce
  obtain cs where c: "ds_calls st1 = ds_calls st @ cs" "session (good t) key t (map_of (ds_files st) (dv_payload t)) (q = None) cs"
    and mv: "moved t q (ds_bucket st) (ds_bucket st1)" and fl: "ds_files st1 = ds_files st"
    using target_session [OF Cons.prems(1) d] by blast
  show ?case
  proof (cases q)
    case (Some e)
    then have r: "r = q" "st' = st1" using Cons.prems(2) d by simp_all
    have "\<exists>n\<le>1. view (ds_bucket st') = fold upd (take n (t # ts)) (view (ds_bucket st))"
      using mv r unfolding moved_def by (auto intro: exI [of _ 0] exI [of _ "Suc 0"])
    then obtain n where "n \<le> 1" "view (ds_bucket st') = fold upd (take n (t # ts)) (view (ds_bucket st))" by blast
    then show ?thesis using c mv r Some fl by (intro exI [of _ "[cs]"] exI [of _ n]) (auto simp: moved_def)
  next
    case None
    then have "deliverReleaseTo tr pin key ts st1 = (r, st')" using Cons.prems(2) d by simp
    from Cons.IH [OF _ this] mv obtain sess n where i: "ds_calls st' = ds_calls st1 @ concat sess" "length sess \<le> length ts"
      "n \<le> length sess" "r = None \<longrightarrow> n = length ts"
      "\<forall>i<length sess. session (good (ts ! i)) key (ts ! i) (map_of (ds_files st1) (dv_payload (ts ! i))) (r = None \<or> Suc i < length sess) (sess ! i)"
      "V (ds_bucket st')" "ds_files st' = ds_files st1" "view (ds_bucket st') = fold upd (take n ts) (view (ds_bucket st1))"
      unfolding moved_def by blast
    have v: "view (ds_bucket st') = fold upd (take (Suc n) (t # ts)) (view (ds_bucket st))"
      using i(8) mv None by (simp add: moved_def)
    have ss: "session (good ((t # ts) ! j)) key ((t # ts) ! j) (map_of (ds_files st) (dv_payload ((t # ts) ! j))) (r = None \<or> Suc j < length (cs # sess)) ((cs # sess) ! j)"
      if "j < length (cs # sess)" for j
    proof (cases j)
      case 0
      then show ?thesis using session_mono c(2) None by auto
    next
      case (Suc k)
      then show ?thesis using i(5) that fl by simp
    qed
    show ?thesis using c(1) i(1-4,6,7) v ss fl by (intro exI [of _ "cs # sess"] exI [of _ "Suc n"]) simp
  qed
qed

end

subsection \<open>The store as a pinner\<close>

definition pin_host :: "string \<Rightarrow> delivery_target \<Rightarrow> (string \<rightharpoonup> string \<times> string) \<Rightarrow> (string \<rightharpoonup> string \<times> string)" where
  "pin_host sha t m = m(dv_host t \<mapsto> (sha, dv_arch t))"

context release_cas
begin

lemma store_pin_effect:
  assumes v: "valid (ds_bucket st)" and p: "store_pin tr api dec enc slug env sha h arch st = (q, st1)"
  shows "ds_calls st1 = ds_calls st \<and> ds_files st1 = ds_files st \<and> valid (ds_bucket st1)
    \<and> (obj (ds_bucket st1))(manifestKey slug env := None) = (obj (ds_bucket st))(manifestKey slug env := None)
    \<and> (q \<noteq> None \<and> pins obj dec slug env (ds_bucket st1) = pins obj dec slug env (ds_bucket st)
       \<or> pins obj dec slug env (ds_bucket st1) = (pins obj dec slug env (ds_bucket st))(h \<mapsto> (sha, arch)))"
proof -
  define c where "c = \<lparr>sc_service = slug, sc_env = env, sc_host = h,
    sc_dep = \<lparr>dp_sha = sha, dp_arch = arch, dp_at = tr_now tr (history st)\<rparr>\<rparr>"
  obtain s1 where d: "SetDeployment api dec enc c (ds_bucket st) = (q, s1)" "st1 = st\<lparr>ds_bucket := s1\<rparr>"
    using p by (auto simp: store_pin_def c_def Let_def split: prod.splits)
  have k: "call_key c = manifestKey slug env" "sc_host c = h" "sc_dep c = \<lparr>dp_sha = sha, dp_arch = arch, dp_at = tr_now tr (history st)\<rparr>"
    by (simp_all add: call_key_def c_def)
  note f = set_alone [OF v d(1), unfolded k]
  have "pins obj dec slug env s1 = (pins obj dec slug env (ds_bucket st))(h \<mapsto> (sha, arch))"
    if "manifest_view dec (obj s1 (manifestKey slug env)) = (manifest_view dec (obj (ds_bucket st) (manifestKey slug env)))
          (h \<mapsto> \<lparr>dp_sha = sha, dp_arch = arch, dp_at = tr_now tr (history st)\<rparr>)"
    using that by (simp add: pins_def fun_eq_iff)
  moreover have "pins obj dec slug env s1 = pins obj dec slug env (ds_bucket st)" if "obj s1 = obj (ds_bucket st)"
    using that by (simp add: pins_def fun_eq_iff)
  moreover have "(obj s1)(manifestKey slug env := None) = (obj (ds_bucket st))(manifestKey slug env := None)"
    using f by auto
  moreover have "valid s1" using f later_valid [OF v] by blast
  ultimately show ?thesis using f d(2) by auto
qed

lemma store_pinner:
  "pinner (store_pin tr api dec enc slug env sha) valid (\<lambda>s. (pins obj dec slug env s, (obj s)(manifestKey slug env := None)))
     (\<lambda>t v. (pin_host sha t (fst v), snd v)) (\<lambda>t s. valid s \<and> pins obj dec slug env s (dv_host t) = Some (sha, dv_arch t))"
proof
  fix t :: delivery_target and st st1 :: "('s, 'b) delivery" and q
  assume p: "store_pin tr api dec enc slug env sha (dv_host t) (dv_arch t) st = (q, st1)"
  show "ds_calls st1 = ds_calls st \<and> ds_files st1 = ds_files st"
    using p by (auto simp: store_pin_def Let_def split: prod.splits)
  assume v: "valid (ds_bucket st)"
  show "valid (ds_bucket st1)" using store_pin_effect [OF v p] by simp
  show "q \<noteq> None \<and> (pins obj dec slug env (ds_bucket st1), (obj (ds_bucket st1))(manifestKey slug env := None))
        = (pins obj dec slug env (ds_bucket st), (obj (ds_bucket st))(manifestKey slug env := None))
     \<or> (pins obj dec slug env (ds_bucket st1), (obj (ds_bucket st1))(manifestKey slug env := None))
        = (pin_host sha t (fst (pins obj dec slug env (ds_bucket st), (obj (ds_bucket st))(manifestKey slug env := None))),
           snd (pins obj dec slug env (ds_bucket st), (obj (ds_bucket st))(manifestKey slug env := None)))"
    using store_pin_effect [OF v p] by (auto simp: pin_host_def)
next
  fix t :: delivery_target and st st1 :: "('s, 'b) delivery"
  assume p: "store_pin tr api dec enc slug env sha (dv_host t) (dv_arch t) st = (None, st1)" and v: "valid (ds_bucket st)"
  show "valid (ds_bucket st1) \<and> pins obj dec slug env (ds_bucket st1) (dv_host t) = Some (sha, dv_arch t)"
    using store_pin_effect [OF v p] by auto
qed

lemma fold_pin_pair:
  "fold (\<lambda>t v. (pin_host sha t (fst v), snd v)) ts (m, x) = (fold (pin_host sha) ts m, x)"
  by (induction ts arbitrary: m) simp_all

text \<open>A whole release: its sessions, and the manifest after it.\<close>

lemma release_effect:
  assumes v: "valid (ds_bucket st)" and d: "deliverRelease tr api dec enc slug env sha ts key st = (r, st')"
  shows "\<exists>sess n. ds_calls st' = ds_calls st @ concat sess \<and> length sess \<le> length ts \<and> n \<le> length sess
    \<and> (r = None \<longrightarrow> n = length ts)
    \<and> (\<forall>i<length sess. session (\<lambda>s. valid s \<and> pins obj dec slug env s (dv_host (ts ! i)) = Some (sha, dv_arch (ts ! i))) key (ts ! i) (map_of (ds_files st) (dv_payload (ts ! i)))
          (r = None \<or> Suc i < length sess) (sess ! i))
    \<and> valid (ds_bucket st') \<and> ds_files st' = ds_files st \<and> pins obj dec slug env (ds_bucket st') = fold (pin_host sha) (take n ts) (pins obj dec slug env (ds_bucket st))
    \<and> (\<forall>k. k \<noteq> manifestKey slug env \<longrightarrow> obj (ds_bucket st') k = obj (ds_bucket st) k)"
proof -
  have "deliverReleaseTo tr (store_pin tr api dec enc slug env sha) key ts st = (r, st')"
    using d by (simp add: deliverRelease_def)
  from pinner.release_sessions [OF store_pinner v this] obtain sess n where
    s: "ds_calls st' = ds_calls st @ concat sess" "length sess \<le> length ts" "n \<le> length sess" "r = None \<longrightarrow> n = length ts"
      "\<forall>i<length sess. session (\<lambda>s. valid s \<and> pins obj dec slug env s (dv_host (ts ! i)) = Some (sha, dv_arch (ts ! i))) key (ts ! i) (map_of (ds_files st) (dv_payload (ts ! i)))
          (r = None \<or> Suc i < length sess) (sess ! i)"
      "valid (ds_bucket st')" "ds_files st' = ds_files st"
    and w: "(pins obj dec slug env (ds_bucket st'), (obj (ds_bucket st'))(manifestKey slug env := None))
        = (fold (pin_host sha) (take n ts) (pins obj dec slug env (ds_bucket st)), (obj (ds_bucket st))(manifestKey slug env := None))"
    unfolding fold_pin_pair by blast
  have "obj (ds_bucket st') k = obj (ds_bucket st) k" if "k \<noteq> manifestKey slug env" for k
  proof -
    have "(obj (ds_bucket st'))(manifestKey slug env := None) = (obj (ds_bucket st))(manifestKey slug env := None)" using w by simp
    from fun_cong [OF this, of k] that show ?thesis by simp
  qed
  then show ?thesis using s w by blast
qed

end

end
