(* ===== verification/DeliverReads.thy ===== *)
theory DeliverReads
  imports DeliverFacts
begin

text \<open>
  The reads of a release: probing the hosts, looking for the artifacts and downloading them.  They leave
  the objects of the bucket alone, and what is downloaded is what the store holds for the architecture
  a host reported.
\<close>

subsection \<open>Histories\<close>

text \<open>The calls only grow.\<close>

definition extends :: "('s, 'b) delivery \<Rightarrow> ('s, 'b) delivery \<Rightarrow> bool" where
  "extends st st1 \<longleftrightarrow> (\<exists>cs. ds_calls st1 = ds_calls st @ cs)"

lemma extends_refl [simp]: "extends st st"
  by (simp add: extends_def)

lemma extends_trans: "extends st st1 \<Longrightarrow> extends st1 st2 \<Longrightarrow> extends st st2"
  by (auto simp: extends_def)

lemma extends_same: "ds_calls st1 = ds_calls st \<Longrightarrow> extends st st1"
  by (simp add: extends_def)

lemma extends_record [simp]: "extends st (record_call c st)"
  by (simp add: extends_def)

text \<open>What a host answered to \<open>uname -m\<close>, as an architecture.\<close>

definition reported :: "'b transport \<Rightarrow> string \<Rightarrow> ('s, 'b) delivery \<Rightarrow> deploy_target \<Rightarrow> string \<Rightarrow> bool" where
  "reported tr key st t arch \<longleftrightarrow>
     (\<exists>n out. n \<le> length (history st) \<and> tr_probe tr (take n (history st)) (probe_args (dt_host_dns t) (dt_ssh_user t) key) = Inr out
        \<and> mapUnameArch (TrimSpace out) = Some arch)"

lemma reported_extends: "reported tr key st t arch \<Longrightarrow> extends st st1 \<Longrightarrow> reported tr key st1 t arch"
proof -
  assume "reported tr key st t arch" "extends st st1"
  then obtain n out where n: "n \<le> length (history st)"
      "tr_probe tr (take n (history st)) (probe_args (dt_host_dns t) (dt_ssh_user t) key) = Inr out"
      "mapUnameArch (TrimSpace out) = Some arch"
    unfolding reported_def by blast
  obtain cs where "ds_calls st1 = ds_calls st @ cs" using \<open>extends st st1\<close> unfolding extends_def by blast
  then have "history st1 = history st @ map fst cs" by (simp add: history_def)
  with n show ?thesis unfolding reported_def by (intro exI [of _ n] exI [of _ out]) simp
qed

definition only_probes :: "('b remote_call \<times> 's) list \<Rightarrow> bool" where
  "only_probes cs \<longleftrightarrow> (\<forall>c\<in>set cs. \<exists>args. fst c = ProbeSSH args)"

subsection \<open>Probing\<close>

lemma probeHostArch_facts:
  assumes "probeHostArch tr (dt_host_dns t) (dt_ssh_user t) key st = (q, st1)"
  shows "ds_bucket st1 = ds_bucket st \<and> ds_files st1 = ds_files st \<and> (\<exists>cs. ds_calls st1 = ds_calls st @ cs \<and> only_probes cs)
    \<and> (\<forall>arch. q = Inr arch \<longrightarrow> reported tr key st1 t arch)"
proof -
  let ?args = "probe_args (dt_host_dns t) (dt_ssh_user t) key"
  have st1: "st1 = record_call (ProbeSSH ?args) st"
    using assms by (auto simp: probeHostArch_def runProbeSSH_def split: sum.splits option.splits)
  have "reported tr key st1 t arch" if "q = Inr arch" for arch
    unfolding reported_def st1
    by (rule exI [of _ "length (history st)"]) (use assms that in \<open>auto simp: probeHostArch_def runProbeSSH_def history_def split: sum.splits option.splits\<close>)
  then show ?thesis by (simp add: st1 only_probes_def)
qed

lemma probeTargetArchs_facts:
  assumes "probeTargetArchs tr key ts seen st = (q, st1)"
  shows "ds_bucket st1 = ds_bucket st \<and> ds_files st1 = ds_files st \<and> (\<exists>cs. ds_calls st1 = ds_calls st @ cs \<and> only_probes cs)
    \<and> (\<forall>seen1. q = Inr seen1 \<longrightarrow>
         (\<exists>as. length as = length ts \<and> seen1 = seen @ zip (map dt_host_dns ts) as \<and> (\<forall>i<length ts. reported tr key st1 (ts ! i) (as ! i))))"
  using assms
proof (induction ts arbitrary: seen st)
  case Nil
  then show ?case by (auto simp: only_probes_def)
next
  case (Cons t ts)
  obtain r st2 where h: "probeHostArch tr (dt_host_dns t) (dt_ssh_user t) key st = (r, st2)" by fastforce
  note f = probeHostArch_facts [OF h]
  obtain c1 where c1: "ds_calls st2 = ds_calls st @ c1" "only_probes c1" using f by blast
  show ?case
  proof (cases r)
    case (Inl e)
    then show ?thesis using Cons.prems h f by auto
  next
    case (Inr arch)
    have "probeTargetArchs tr key ts (seen @ [(dt_host_dns t, arch)]) st2 = (q, st1)" using Cons.prems h Inr by simp
    note ih = Cons.IH [OF this]
    obtain c2 where c2: "ds_calls st1 = ds_calls st2 @ c2" "only_probes c2" using ih by blast
    have rep: "reported tr key st1 t arch"
      using reported_extends [of tr key st2 t arch st1] f Inr c2(1) by (simp add: extends_def)
    have "\<exists>as. length as = length (t # ts) \<and> seen1 = seen @ zip (map dt_host_dns (t # ts)) as
        \<and> (\<forall>i<length (t # ts). reported tr key st1 ((t # ts) ! i) (as ! i))" if "q = Inr seen1" for seen1
    proof -
      obtain as where as: "length as = length ts" "seen1 = (seen @ [(dt_host_dns t, arch)]) @ zip (map dt_host_dns ts) as"
        "\<forall>i<length ts. reported tr key st1 (ts ! i) (as ! i)"
        using ih \<open>q = Inr seen1\<close> by blast
      have "reported tr key st1 ((t # ts) ! i) ((arch # as) ! i)" if "i < length (t # ts)" for i
        using as(3) rep that by (cases i) auto
      then show ?thesis using as(1,2) by (intro exI [of _ "arch # as"]) simp
    qed
    moreover have "ds_calls st1 = ds_calls st @ (c1 @ c2) \<and> only_probes (c1 @ c2)"
      using c1 c2 by (auto simp: only_probes_def)
    ultimately show ?thesis using f ih by (intro conjI) (blast | simp)+
  qed
qed

lemma arch_of_row:
  assumes "(h, a) \<in> set seen" "distinct (map fst seen)"
  shows "arch_of seen h = Some a"
  using assms by (simp add: arch_of_def rev_map [symmetric])

lemma arch_list_set [simp]: "set (arch_list seen) = snd ` set seen"
  by (simp add: arch_list_def)

subsection \<open>Temporary files\<close>

text \<open>\<open>os.CreateTemp\<close> names a file that is not there.\<close>

definition fresh :: "'b local_fs \<Rightarrow> bool" where
  "fresh lf \<longleftrightarrow> (\<forall>fs path. lf_create lf fs = Inr path \<longrightarrow> path \<noteq> [] \<and> path \<notin> fst ` set fs)"

lemma file_sel [simp]:
  "ds_bucket (write_file path b st) = ds_bucket st" "ds_calls (write_file path b st) = ds_calls st"
  "ds_files (write_file path b st) = (path, b) # ds_files st"
  "ds_bucket (remove_files paths st) = ds_bucket st" "ds_calls (remove_files paths st) = ds_calls st"
  "ds_files (remove_files paths st) = filter (\<lambda>r. fst r \<notin> set paths) (ds_files st)"
  by (simp_all add: write_file_def remove_files_def)

lemma filter_absent: "path \<notin> fst ` set fs \<Longrightarrow> filter (\<lambda>r. fst r \<noteq> path) fs = fs"
  by (induction fs) auto

lemma filter_absent_more:
  "path \<notin> fst ` set fs \<Longrightarrow> filter (\<lambda>r. fst r \<noteq> path \<and> fst r \<notin> S) fs = filter (\<lambda>r. fst r \<notin> S) fs"
  by (induction fs) auto

subsection \<open>Reading the store\<close>

text \<open>A store whose \<open>HeadObject\<close> is a read.\<close>

locale artifact_store = cas_store api obj valid later
  for api :: "('s, 'b) s3API" and obj valid later +
  assumes head_same: "valid s \<Longrightarrow> s3_HeadObject api k s = (r, s1) \<Longrightarrow> later s s1 \<and> obj s1 = obj s"
begin

definition unchanged :: "('s, 'b) delivery \<Rightarrow> ('s, 'b) delivery \<Rightarrow> bool" where
  "unchanged st st1 \<longleftrightarrow> later (ds_bucket st) (ds_bucket st1) \<and> obj (ds_bucket st1) = obj (ds_bucket st) \<and> ds_calls st1 = ds_calls st"

lemma unchanged_trans: "unchanged st st1 \<Longrightarrow> unchanged st1 st2 \<Longrightarrow> unchanged st st2"
  unfolding unchanged_def using later_trans by metis

lemma unchanged_valid: "valid (ds_bucket st) \<Longrightarrow> unchanged st st1 \<Longrightarrow> valid (ds_bucket st1)"
  unfolding unchanged_def using later_valid by blast

lemma store_checker_facts:
  assumes v: "valid (ds_bucket st)" and c: "store_checker api svc sha arch st = (q, st1)"
  shows "unchanged st st1 \<and> ds_files st1 = ds_files st"
proof -
  obtain r s1 where h: "s3_HeadObject api (artifactKey svc sha arch) (ds_bucket st) = (r, s1)" by fastforce
  have "st1 = st\<lparr>ds_bucket := s1\<rparr>"
    using c h by (auto simp: store_checker_def ArtifactExists_def Let_def split: option.splits)
  then show ?thesis using head_same [OF v h] by (simp add: unchanged_def)
qed

lemma missing_archs_facts:
  assumes "valid (ds_bucket st)" "missing_archs (store_checker api svc sha) archs missing st = (q, st1)"
  shows "unchanged st st1 \<and> ds_files st1 = ds_files st"
  using assms
proof (induction archs arbitrary: missing st)
  case Nil
  then show ?case by (simp add: unchanged_def later_refl)
next
  case (Cons arch archs)
  obtain r st2 where c: "store_checker api svc sha arch st = (r, st2)" by fastforce
  note f = store_checker_facts [OF Cons.prems(1) c]
  show ?case
  proof (cases r)
    case (Inl e)
    then show ?thesis using Cons.prems c f by simp
  next
    case (Inr there)
    then show ?thesis
      using Cons.prems(2) c f Cons.IH [of st2 "if there then missing else missing @ [arch]"] unchanged_valid [OF Cons.prems(1)]
        unchanged_trans by auto
  qed
qed

lemma anyArchPushed_facts:
  assumes "valid (ds_bucket st)" "anyArchPushed svc sha (store_checker api svc sha) archs st = (q, st1)"
  shows "unchanged st st1 \<and> ds_files st1 = ds_files st"
  using assms
proof (induction archs arbitrary: q st st1)
  case Nil
  then show ?case by (simp add: unchanged_def later_refl)
next
  case (Cons arch archs)
  obtain r st2 where c: "store_checker api svc sha arch st = (r, st2)" by fastforce
  note f = store_checker_facts [OF Cons.prems(1) c]
  show ?case
  proof (cases r)
    case (Inl e)
    then show ?thesis using Cons.prems c f by simp
  next
    case (Inr there)
    obtain q2 st3 where a: "anyArchPushed svc sha (store_checker api svc sha) archs st2 = (q2, st3)" by fastforce
    have "st3 = st1" using Cons.prems(2) c a Inr by (auto split: sum.splits)
    have v2: "valid (ds_bucket st2)" using unchanged_valid [OF Cons.prems(1)] f by blast
    from Cons.IH [OF v2 a] f unchanged_trans [of st st2 st3] \<open>st3 = st1\<close> show ?thesis by simp
  qed
qed

lemma downloadArtifact_facts:
  assumes v: "valid (ds_bucket st)" and d: "downloadArtifact lf api svc sha arch st = (q, st1)" and fr: "fresh lf"
  shows "unchanged st st1"
    and "q = Inl e \<Longrightarrow> ds_files st1 = ds_files st"
    and "q = Inr path \<Longrightarrow> path \<noteq> [] \<and> path \<notin> fst ` set (ds_files st)
      \<and> (\<exists>b t. obj (ds_bucket st) (artifactKey svc sha arch) = Some (b, t) \<and> ds_files st1 = (path, b) # ds_files st)"
proof -
  obtain g s1 where g: "s3_GetObject api (artifactKey svc sha arch) (ds_bucket st) = (g, s1)" by fastforce
  have same: "later (ds_bucket st) s1 \<and> obj s1 = obj (ds_bucket st)" by (rule get_same [OF v g])
  show "unchanged st st1"
    using d g same
    by (auto simp: downloadArtifact_def GetArtifact_def Let_def unchanged_def split: sum.splits prod.splits option.splits if_splits)
  have p: "path \<noteq> [] \<and> path \<notin> fst ` set (ds_files st)" if "lf_create lf (ds_files st) = Inr path" for path
    using fr that by (simp add: fresh_def)
  show "ds_files st1 = ds_files st" if "q = Inl e"
    using d g that p
    by (auto simp: downloadArtifact_def GetArtifact_def Let_def filter_absent split: sum.splits prod.splits option.splits if_splits)
  show "path \<noteq> [] \<and> path \<notin> fst ` set (ds_files st)
      \<and> (\<exists>b t. obj (ds_bucket st) (artifactKey svc sha arch) = Some (b, t) \<and> ds_files st1 = (path, b) # ds_files st)" if q: "q = Inr path"
  proof (cases g)
    case (Inl e)
    then show ?thesis using d g q by (auto simp: downloadArtifact_def GetArtifact_def Let_def split: if_splits)
  next
    case (Inr z)
    obtain body t where z: "z = (body, t)" by (cases z)
    obtain b where b: "obj (ds_bucket st) (artifactKey svc sha arch) = Some (b, t)" "body = Inr b \<or> (\<exists>e. body = Inl e)"
      using get_found [OF v g [unfolded Inr z]] by blast
    have c: "lf_create lf (ds_files st) = Inr path" "body = Inr b" "ds_files st1 = (path, b) # ds_files st"
      using d g q Inr z b(2)
      by (auto simp: downloadArtifact_def GetArtifact_def Let_def split: sum.splits option.splits)
    show ?thesis using p [OF c(1)] b(1) c(3) by blast
  qed
qed

text \<open>
  The loop over the architectures: each architecture gets a file of its own with the artifact of that
  architecture, and removing what the loop created restores the files.
\<close>

definition holds_artifact :: "string \<Rightarrow> string \<Rightarrow> ('s, 'b) delivery \<Rightarrow> string \<Rightarrow> string \<Rightarrow> bool" where
  "holds_artifact svc sha st arch path \<longleftrightarrow>
     path \<noteq> [] \<and> (\<exists>b t. map_of (ds_files st) path = Some b \<and> obj (ds_bucket st) (artifactKey svc sha arch) = Some (b, t))"

lemma download_archs_facts:
  assumes "valid (ds_bucket st)" "download_archs lf api svc sha archs payloadOf cl st = (q, cl1, st1)" "fresh lf"
    and "\<forall>arch path. payloadOf arch = Some path \<longrightarrow> holds_artifact svc sha st arch path"
    and "filter (\<lambda>r. fst r \<notin> set cl) (ds_files st) = fs"
  shows "unchanged st st1 \<and> filter (\<lambda>r. fst r \<notin> set cl1) (ds_files st1) = fs
    \<and> (\<forall>e. q = Inl e \<longrightarrow> ds_files st1 = fs)
    \<and> (\<forall>payloads. q = Inr payloads \<longrightarrow>
         dom payloadOf \<union> set archs \<subseteq> dom payloads \<and> (\<forall>arch path. payloads arch = Some path \<longrightarrow> holds_artifact svc sha st1 arch path))"
  using assms(1,2,4,5)
proof (induction archs arbitrary: payloadOf cl st)
  case Nil
  then show ?case by (auto simp: unchanged_def later_refl)
next
  case (Cons arch archs)
  obtain r st2 where d: "downloadArtifact lf api svc sha arch st = (r, st2)" by fastforce
  note f = downloadArtifact_facts [OF Cons.prems(1) d assms(3)]
  have v2: "valid (ds_bucket st2)" by (rule unchanged_valid [OF Cons.prems(1) f(1)])
  show ?case
  proof (cases r)
    case (Inl e)
    then have "q = Inl e" "cl1 = []" "st1 = remove_files cl st2" using Cons.prems(2) d by simp_all
    then show ?thesis using f(1) f(2) [OF Inl] Cons.prems(4) by (simp add: unchanged_def)
  next
    case (Inr path)
    note p = f(3) [OF Inr]
    obtain b t where b: "obj (ds_bucket st) (artifactKey svc sha arch) = Some (b, t)" "ds_files st2 = (path, b) # ds_files st"
      using p by blast
    have same: "obj (ds_bucket st2) = obj (ds_bucket st)" using f(1) by (simp add: unchanged_def)
    have new: "holds_artifact svc sha st2 arch path" using p b same by (simp add: holds_artifact_def)
    have old: "holds_artifact svc sha st2 a x" if "holds_artifact svc sha st a x" for a x
    proof -
      have "x \<noteq> path" using that p by (auto simp: holds_artifact_def dest!: map_of_SomeD) (metis fst_conv image_eqI)
      then show ?thesis using that b(2) same by (simp add: holds_artifact_def)
    qed
    have hold: "\<forall>a x. (payloadOf(arch \<mapsto> path)) a = Some x \<longrightarrow> holds_artifact svc sha st2 a x"
      using new old Cons.prems(3) by auto
    have fl: "filter (\<lambda>r. fst r \<notin> set (cl @ [path])) (ds_files st2) = fs"
      using p b(2) Cons.prems(4) by (simp add: filter_absent_more)
    have "download_archs lf api svc sha archs (payloadOf(arch \<mapsto> path)) (cl @ [path]) st2 = (q, cl1, st1)"
      using Cons.prems(2) d Inr by simp
    note ih = Cons.IH [OF v2 this hold fl]
    have dm: "dom payloadOf \<union> set (arch # archs) = dom (payloadOf(arch \<mapsto> path)) \<union> set archs" by (simp only: dom_fun_upd) simp
    show ?thesis unfolding dm using ih unchanged_trans [OF f(1)] by blast
  qed
qed

end

end
