(* ===== verification/DeliverProps.thy ===== *)
theory DeliverProps
  imports DeliverReads
begin

text \<open>
  The properties of a release: the protocol of a delivery, the manifest after it, the payload every host
  gets, and what a dry run and the temporary files leave.
\<close>

subsection \<open>The whole command\<close>

text \<open>Minting mesh leaves pushes them to hosts; it leaves the store and the temporary files alone.\<close>

definition mint_quiet :: "('s \<Rightarrow> string \<Rightarrow> ('b \<times> string) option) \<Rightarrow> ('s \<Rightarrow> bool) \<Rightarrow> ('s \<Rightarrow> 's \<Rightarrow> bool)
    \<Rightarrow> (('s, 'b) delivery \<Rightarrow> string option \<times> ('s, 'b) delivery) \<Rightarrow> bool" where
  "mint_quiet obj valid later mint \<longleftrightarrow>
     (\<forall>st r st1. valid (ds_bucket st) \<longrightarrow> mint st = (r, st1) \<longrightarrow>
        later (ds_bucket st) (ds_bucket st1) \<and> obj (ds_bucket st1) = obj (ds_bucket st) \<and> ds_files st1 = ds_files st \<and> extends st st1)"

context artifact_store
begin

text \<open>A part of a command that reads: objects and files stay, calls are added.\<close>

definition reads :: "('s, 'b) delivery \<Rightarrow> ('s, 'b) delivery \<Rightarrow> bool" where
  "reads st st1 \<longleftrightarrow> valid (ds_bucket st1) \<and> obj (ds_bucket st1) = obj (ds_bucket st) \<and> ds_files st1 = ds_files st \<and> extends st st1"

lemma reads_refl: "valid (ds_bucket st) \<Longrightarrow> reads st st"
  by (simp add: reads_def)

lemma reads_trans: "reads st st1 \<Longrightarrow> reads st1 st2 \<Longrightarrow> reads st st2"
  unfolding reads_def using extends_trans by metis

lemma unchanged_reads: "valid (ds_bucket st) \<Longrightarrow> unchanged st st1 \<Longrightarrow> ds_files st1 = ds_files st \<Longrightarrow> reads st st1"
  using unchanged_valid by (simp add: reads_def unchanged_def extends_same)

lemma mint_reads: "mint_quiet obj valid later mint \<Longrightarrow> valid (ds_bucket st) \<Longrightarrow> mint st = (r, st1) \<Longrightarrow> reads st st1"
  unfolding mint_quiet_def reads_def using later_valid by blast

lemma probeAndVerify_facts:
  assumes v: "valid (ds_bucket st)" and p: "probeAndVerifyArch tr api svc sha ts key st = (q, st1)"
  shows "reads st st1 \<and> (\<exists>cs. ds_calls st1 = ds_calls st @ cs \<and> only_probes cs)"
    and "q = Inr (archOf, archs) \<Longrightarrow> distinct (map dt_host_dns ts) \<Longrightarrow> t \<in> set ts \<Longrightarrow>
      \<exists>arch. archOf (dt_host_dns t) = Some arch \<and> reported tr key st1 t arch \<and> arch \<in> set archs"
proof -
  obtain g st2 where g: "probeTargetArchs tr key ts [] st = (g, st2)" by fastforce
  note f = probeTargetArchs_facts [OF g]
  have r2: "reads st st2" using f v by (auto simp: reads_def extends_def)
  then have v2: "valid (ds_bucket st2)" by (simp add: reads_def)
  have m: "unchanged st2 st3 \<and> ds_files st3 = ds_files st2"
    if "missing_archs (store_checker api svc sha) (arch_list seen) [] st2 = (x, st3)" for seen x st3
    by (rule missing_archs_facts [OF v2 that])
  have u: "reads st2 st1 \<and> ds_calls st1 = ds_calls st2"
  proof (cases g)
    case (Inl e)
    then show ?thesis using p g reads_refl [OF v2] by (simp add: probeAndVerifyArch_def)
  next
    case (Inr seen)
    obtain x st3 where x: "missing_archs (store_checker api svc sha) (arch_list seen) [] st2 = (x, st3)" by fastforce
    have "st1 = st3" using p g Inr x by (auto simp: probeAndVerifyArch_def verifyArchsPushed_def split: sum.splits)
    then show ?thesis using m [OF x] unchanged_reads [OF v2] by (simp add: unchanged_def)
  qed
  then show "reads st st1 \<and> (\<exists>cs. ds_calls st1 = ds_calls st @ cs \<and> only_probes cs)"
    using f reads_trans [OF r2] by auto
  assume q: "q = Inr (archOf, archs)" and dst: "distinct (map dt_host_dns ts)" and t: "t \<in> set ts"
  obtain seen where s: "g = Inr seen" "archOf = arch_of seen" "archs = arch_list seen"
    using p g q by (auto simp: probeAndVerifyArch_def verifyArchsPushed_def split: sum.splits prod.splits if_splits)
  obtain as where as: "length as = length ts" "seen = zip (map dt_host_dns ts) as" "\<forall>i<length ts. reported tr key st2 (ts ! i) (as ! i)"
    using f s(1) by auto
  obtain i where i: "i < length ts" "t = ts ! i" using t by (metis in_set_conv_nth)
  have row: "(dt_host_dns t, as ! i) \<in> set seen" using i as(1,2) by (force simp: set_zip)
  have "map fst seen = map dt_host_dns ts" using as(1,2) by simp
  then have "archOf (dt_host_dns t) = Some (as ! i)" using arch_of_row [OF row] dst s(2) by simp
  moreover have "reported tr key st1 t (as ! i)"
    using reported_extends as(3) i u extends_same by blast
  moreover have "as ! i \<in> set archs" using row s(3) by force
  ultimately show "\<exists>arch. archOf (dt_host_dns t) = Some arch \<and> reported tr key st1 t arch \<and> arch \<in> set archs" by blast
qed

lemma downloadArchPayloads_facts:
  assumes v: "valid (ds_bucket st)" and d: "downloadArchPayloads lf api svc sha targets (archOf, archs) st = (q, cl, st1)" and fr: "fresh lf"
  shows "unchanged st st1 \<and> filter (\<lambda>r. fst r \<notin> set cl) (ds_files st1) = ds_files st"
    and "q = Inl e \<Longrightarrow> ds_files st1 = ds_files st"
    and "q = Inr dts \<Longrightarrow> \<exists>payloads. dts = serviceDeliveryTargets targets archOf payloads \<and> set archs \<subseteq> dom payloads
      \<and> (\<forall>arch path. payloads arch = Some path \<longrightarrow> holds_artifact svc sha st1 arch path)"
proof -
  obtain g where g: "download_archs lf api svc sha archs Map.empty [] st = (g, cl, st1)"
    using d by (auto simp: downloadArchPayloads_def split: prod.splits sum.splits)
  note f = download_archs_facts [OF v g fr]
  have f': "unchanged st st1 \<and> filter (\<lambda>r. fst r \<notin> set cl) (ds_files st1) = ds_files st
    \<and> (\<forall>e. g = Inl e \<longrightarrow> ds_files st1 = ds_files st)
    \<and> (\<forall>payloads. g = Inr payloads \<longrightarrow>
         set archs \<subseteq> dom payloads \<and> (\<forall>arch path. payloads arch = Some path \<longrightarrow> holds_artifact svc sha st1 arch path))"
    using f by simp
  then show "unchanged st st1 \<and> filter (\<lambda>r. fst r \<notin> set cl) (ds_files st1) = ds_files st" by blast
  show "ds_files st1 = ds_files st" if "q = Inl e"
    using f' that d g by (auto simp: downloadArchPayloads_def split: sum.splits)
  show "\<exists>payloads. dts = serviceDeliveryTargets targets archOf payloads \<and> set archs \<subseteq> dom payloads
      \<and> (\<forall>arch path. payloads arch = Some path \<longrightarrow> holds_artifact svc sha st1 arch path)" if "q = Inr dts"
    using f' that d g by (auto simp: downloadArchPayloads_def split: sum.splits)
qed

end

text \<open>What a delivery of a service starts from: the target, its architecture and its artifact.\<close>

definition service_dt :: "deploy_target \<Rightarrow> string \<Rightarrow> string \<Rightarrow> delivery_target" where
  "service_dt t arch path =
     \<lparr>dv_host = dt_host_dns t, dv_ssh_user = dt_ssh_user t, dv_apply = serviceApplyScript t,
      dv_describe = ''extracting to '' @ dt_folder t @ '' and restarting '' @ dt_unit t, dv_arch = arch, dv_payload = path\<rparr>"

lemma service_dt_sel [simp]:
  "dv_host (service_dt t arch path) = dt_host_dns t" "dv_arch (service_dt t arch path) = arch"
  "dv_payload (service_dt t arch path) = path"
  "upload_args key (service_dt t arch path) rp = sshArgs key @ [path, dt_ssh_user t @ ''@'' @ dt_host_dns t @ '':'' @ rp]"
  "apply_args key (service_dt t arch path) rp = sshArgs key @ [dt_ssh_user t @ ''@'' @ dt_host_dns t, serviceApplyScript t rp]"
  by (simp_all add: service_dt_def upload_args_def apply_args_def account_of_def)

lemma serviceDelivery_map:
  "serviceDeliveryTargets targets archOf payloads =
     map (\<lambda>t. service_dt t (go_string archOf (dt_host_dns t)) (go_string payloads (go_string archOf (dt_host_dns t)))) targets"
  by (simp add: serviceDeliveryTargets_def service_dt_def Let_def)

context artifact_store
begin

lemma targets_ready:
  assumes v: "valid (ds_bucket st)" and fr: "fresh lf" and p: "probeAndVerifyArch tr api svc sha order' key st = (Inr (archOf, archs), st1)"
    and ord: "mset order' = mset targets" and dst: "distinct (map dt_host_dns targets)" and t: "t \<in> set targets"
    and rd: "reads st1 st2" and d: "downloadArchPayloads lf api svc sha targets (archOf, archs) st2 = (Inr dts, cl, st3)"
  shows "\<exists>arch path body tag. reported tr key st1 t arch \<and> service_dt t arch path \<in> set dts \<and> path \<noteq> []
    \<and> map_of (ds_files st3) path = Some body \<and> obj (ds_bucket st) (artifactKey svc sha arch) = Some (body, tag)
    \<and> distinct (map dv_host dts)"
proof -
  note pf = probeAndVerify_facts [OF v p]
  have v2: "valid (ds_bucket st2)" using rd by (simp add: reads_def)
  note df = downloadArchPayloads_facts [OF v2 d fr]
  have same: "obj (ds_bucket st3) = obj (ds_bucket st)"
    using pf(1) rd df(1) by (simp add: reads_def unchanged_def)
  obtain payloads where pl: "dts = serviceDeliveryTargets targets archOf payloads" "set archs \<subseteq> dom payloads"
      "\<forall>arch path. payloads arch = Some path \<longrightarrow> holds_artifact svc sha st3 arch path"
    using df(3) [OF refl] by blast
  have "distinct (map dt_host_dns order') = distinct (map dt_host_dns targets)"
    by (rule mset_eq_imp_distinct_iff) (simp add: ord)
  then obtain arch where arch: "archOf (dt_host_dns t) = Some arch" "reported tr key st1 t arch" "arch \<in> set archs"
    using pf(2) [OF refl, of t] dst t mset_eq_setD [OF ord] by blast
  then obtain path where path: "payloads arch = Some path" using pl(2) by blast
  obtain body tag where body: "path \<noteq> []" "map_of (ds_files st3) path = Some body"
      "obj (ds_bucket st3) (artifactKey svc sha arch) = Some (body, tag)"
    using pl(3) [rule_format, OF path] by (auto simp: holds_artifact_def)
  have "service_dt t arch path = service_dt t (go_string archOf (dt_host_dns t)) (go_string payloads (go_string archOf (dt_host_dns t)))"
    using arch(1) path by (simp add: go_string_def)
  then have "service_dt t arch path \<in> set dts" using t unfolding pl(1) serviceDelivery_map by simp
  moreover have "distinct (map dv_host dts)" using dst by (simp add: pl(1) serviceDelivery_map comp_def)
  ultimately show ?thesis using arch(2) body same by (intro exI [of _ arch] exI [of _ path] exI [of _ body] exI [of _ tag]) simp
qed

end

subsection \<open>The calls and pins of a delivery\<close>

lemma fold_pin_host:
  "t \<in> set ts \<Longrightarrow> distinct (map dv_host ts) \<Longrightarrow> fold (pin_host sha) ts m (dv_host t) = Some (sha, dv_arch t)"
proof (induction ts arbitrary: m)
  case (Cons u ts)
  have other: "fold (pin_host sha) ts m h = m h" if "h \<notin> dv_host ` set ts" for m h
    using that by (induction ts arbitrary: m) (auto simp: pin_host_def)
  show ?case
  proof (cases "t \<in> set ts")
    case True
    then show ?thesis using Cons by simp
  next
    case False
    then have "t = u" using Cons.prems(1) by simp
    moreover have "fold (pin_host sha) ts (pin_host sha u m) (dv_host u) = pin_host sha u m (dv_host u)"
      using other [of "dv_host u"] Cons.prems(2) by simp
    ultimately show ?thesis by (simp add: pin_host_def [of _ u])
  qed
qed simp

lemma session_good: "session good key t body c cs \<Longrightarrow> (\<And>s. good s \<Longrightarrow> good' s) \<Longrightarrow> session good' key t body c cs"
  unfolding session_def Let_def by (auto split: if_splits)

text \<open>A complete session with a payload uploads it and applies it.\<close>

lemma session_complete:
  assumes "session good key t body True cs" "dv_payload t \<noteq> []"
  obtains path s1 s2 where "(RunSCP (upload_args key t path) body, s1) \<in> set cs" "(RunSSH (apply_args key t path), s2) \<in> set cs" "good s2"
proof -
  obtain path b0 b1 b2 b3 where cs: "cs = [(ProbeSSH (mktemp_args (account_of t) key), b0), (RunSCP (upload_args key t path) body, b1),
      (RunSSH (apply_args key t path), b2), (RunSSH (remove_args (account_of t) key path), b3)]" "good b2"
    using assms unfolding session_def Let_def by auto
  show thesis by (rule that [of path b1 b2]) (simp_all add: cs)
qed

text \<open>C22: The protocol of a delivery of a non-empty SHA.  The calls of a release are the sessions of the
  targets in order; a session that fails is the last.  A session creates a payload path on its host,
  uploads, applies and removes the payload again, whatever happens after the creation; and when the host is
  changed the manifest already pins the SHA for it, so that no prune from that moment deletes an object
  whose key reads as the SHA.  The delivered artifact is one of them when it is for a supported
  architecture, and when it is an architecture-free bundle whose SHA does not end in the suffix of one.\<close>

theorem delivery_protocol:
  assumes "release_cas api obj valid later dec enc" "object_store api obj valid later rest" "valid (ds_bucket st)" "sha \<noteq> []"
    and "deliverRelease tr api dec enc slug env sha ts key st = (r, st')"
  shows "\<exists>sess. ds_calls st' = ds_calls st @ concat sess \<and> length sess \<le> length ts \<and> (r = None \<longrightarrow> length sess = length ts)
    \<and> (\<forall>i<length sess. session
          (\<lambda>s. pins obj dec slug env s (dv_host (ts ! i)) = Some (sha, dv_arch (ts ! i)) \<and> prune_safe api obj dec slug sha (dv_arch (ts ! i)) s)
          key (ts ! i) (map_of (ds_files st) (dv_payload (ts ! i))) (r = None \<or> Suc i < length sess) (sess ! i))"
proof -
  obtain sess n where e: "ds_calls st' = ds_calls st @ concat sess" "length sess \<le> length ts" "n \<le> length sess"
      "r = None \<longrightarrow> n = length ts"
    and ss: "\<forall>i<length sess. session (\<lambda>s. valid s \<and> pins obj dec slug env s (dv_host (ts ! i)) = Some (sha, dv_arch (ts ! i)))
          key (ts ! i) (map_of (ds_files st) (dv_payload (ts ! i))) (r = None \<or> Suc i < length sess) (sess ! i)"
    using release_cas.release_effect [OF assms(1,3,5)] by blast
  have "session (\<lambda>s. pins obj dec slug env s (dv_host (ts ! i)) = Some (sha, dv_arch (ts ! i)) \<and> prune_safe api obj dec slug sha (dv_arch (ts ! i)) s)
      key (ts ! i) (map_of (ds_files st) (dv_payload (ts ! i))) (r = None \<or> Suc i < length sess) (sess ! i)" if "i < length sess" for i
  proof (rule session_good [OF ss [rule_format, OF that]])
    fix s
    assume "valid s \<and> pins obj dec slug env s (dv_host (ts ! i)) = Some (sha, dv_arch (ts ! i))"
    then show "pins obj dec slug env s (dv_host (ts ! i)) = Some (sha, dv_arch (ts ! i)) \<and> prune_safe api obj dec slug sha (dv_arch (ts ! i)) s"
      using pinned_safe [OF assms(2) _ _ assms(4)] by blast
  qed
  then show ?thesis using e by (intro exI [of _ sess]) auto
qed

text \<open>C23: A release changes nothing in the store but the manifest of its environment, and there it pins
  the SHA for the hosts of a prefix of its targets, all of them when it succeeds, each with the
  architecture it was delivered for; every other host keeps its entry.\<close>

theorem delivery_pins:
  assumes "release_cas api obj valid later dec enc" "valid (ds_bucket st)"
    and "deliverRelease tr api dec enc slug env sha ts key st = (r, st')"
  shows "\<exists>n\<le>length ts. (r = None \<longrightarrow> n = length ts)
    \<and> pins obj dec slug env (ds_bucket st') = fold (pin_host sha) (take n ts) (pins obj dec slug env (ds_bucket st))
    \<and> (\<forall>k. k \<noteq> manifestKey slug env \<longrightarrow> obj (ds_bucket st') k = obj (ds_bucket st) k)"
  using release_cas.release_effect [OF assms] order_trans by blast

subsection \<open>The payload of every host\<close>

text \<open>C21: A successful \<open>releases deploy\<close> gives every host the artifact of its own architecture.  For each
  target of the descriptor, the file uploaded to its host has the content that the store holds for the
  service, the SHA and the architecture the host reported, its apply script ran on that upload, and
  the manifest pins the SHA and that architecture for the host.\<close>

theorem service_release:
  assumes "release_cas (rw_api w) obj valid later (rw_dec w) (rw_enc w)" "artifact_store (rw_api w) obj valid later"
    and "fresh (rw_lf w)" "mint_quiet obj valid later (rw_mint w)" "\<forall>ts. mset (rw_order w ts) = mset ts" "valid (ds_bucket st)"
    and "runReleasesDeploy w folder env svc shaFlag keyFlag False st = (None, st')"
    and "resolveDeployTargets env (rw_services w) svc = Inr targets" "distinct (map dt_host_dns targets)"
    and "resolveSHA shaFlag (rw_sha w) = Inr sha"
    and "resolveSSHKey keyFlag (rw_key_path w) (rw_key_material w) (rw_write_temp w) = Inr (key, temp)"
    and "t \<in> set targets"
  shows "\<exists>arch body tag path rp s1 s2. reported (rw_tr w) key st' t arch
    \<and> obj (ds_bucket st) (artifactKey svc sha arch) = Some (body, tag)
    \<and> (RunSCP (sshArgs key @ [path, dt_ssh_user t @ ''@'' @ dt_host_dns t @ '':'' @ rp]) (Some body), s1) \<in> set (ds_calls st')
    \<and> (RunSSH (sshArgs key @ [dt_ssh_user t @ ''@'' @ dt_host_dns t, serviceApplyScript t rp]), s2) \<in> set (ds_calls st')
    \<and> pins obj (rw_dec w) svc env (ds_bucket st') (dt_host_dns t) = Some (sha, arch)"
proof -
  note as = assms(2)
  have "service_delivery w env svc sha targets key False st = (None, st')"
    using assms(7,8,10,11) by (auto simp: runReleasesDeploy_def split: sum.splits option.splits)
  then obtain archOf archs st1 st2 dts cl st3 st4 where
      p: "probeAndVerifyArch (rw_tr w) (rw_api w) svc sha (rw_order w targets) key st = (Inr (archOf, archs), st1)"
    and m: "rw_mint w st1 = (None, st2)"
    and d: "downloadArchPayloads (rw_lf w) (rw_api w) svc sha targets (archOf, archs) st2 = (Inr dts, cl, st3)"
    and dl: "deliverRelease (rw_tr w) (rw_api w) (rw_dec w) (rw_enc w) svc env sha dts key st3 = (None, st4)"
    and st': "st' = remove_files cl st4"
    by (auto simp: service_delivery_def split: sum.splits option.splits prod.splits)
  have v1: "valid (ds_bucket st1)"
    using artifact_store.probeAndVerify_facts(1) [OF as assms(6) p] by (simp add: artifact_store.reads_def [OF as])
  have mr: "artifact_store.reads obj valid st1 st2" by (rule artifact_store.mint_reads [OF as assms(4) v1 m])
  then have v2: "valid (ds_bucket st2)" by (simp add: artifact_store.reads_def [OF as])
  have un: "artifact_store.unchanged obj later st2 st3"
    using artifact_store.downloadArchPayloads_facts(1) [OF as v2 d assms(3)] by blast
  have v3: "valid (ds_bucket st3)" by (rule artifact_store.unchanged_valid [OF as v2 un])
  obtain arch path body tag where r: "reported (rw_tr w) key st1 t arch" "service_dt t arch path \<in> set dts" "path \<noteq> []"
      "map_of (ds_files st3) path = Some body" "obj (ds_bucket st) (artifactKey svc sha arch) = Some (body, tag)" "distinct (map dv_host dts)"
    using artifact_store.targets_ready [OF as assms(6,3) p assms(5) [rule_format] assms(9,12) mr d] by blast
  obtain sess where sess: "ds_calls st4 = ds_calls st3 @ concat sess" "length sess = length dts"
      "\<forall>i<length sess. session (\<lambda>s. valid s \<and> pins obj (rw_dec w) svc env s (dv_host (dts ! i)) = Some (sha, dv_arch (dts ! i)))
         key (dts ! i) (map_of (ds_files st3) (dv_payload (dts ! i))) True (sess ! i)"
    and pins4: "pins obj (rw_dec w) svc env (ds_bucket st4) = fold (pin_host sha) dts (pins obj (rw_dec w) svc env (ds_bucket st3))"
    using release_cas.release_effect [OF assms(1) v3 dl] by auto
  obtain i where i: "i < length dts" "dts ! i = service_dt t arch path" using r(2) by (metis in_set_conv_nth)
  have "session (\<lambda>s. valid s \<and> pins obj (rw_dec w) svc env s (dt_host_dns t) = Some (sha, arch)) key (service_dt t arch path) (Some body) True (sess ! i)"
    using sess(3) [rule_format, of i] i sess(2) r(4) by simp
  then obtain rp s1 s2 where calls: "(RunSCP (upload_args key (service_dt t arch path) rp) (Some body), s1) \<in> set (sess ! i)"
      "(RunSSH (apply_args key (service_dt t arch path) rp), s2) \<in> set (sess ! i)"
    using r(3) by (elim session_complete) auto
  have sub: "set (sess ! i) \<subseteq> set (ds_calls st')" using sess(1,2) i(1) by (auto simp: st')
  have ext: "extends st1 st'"
    using mr un sess(1) by (auto simp: artifact_store.reads_def [OF as] artifact_store.unchanged_def [OF as] extends_def st')
  have pinned: "pins obj (rw_dec w) svc env (ds_bucket st') (dt_host_dns t) = Some (sha, arch)"
    using fold_pin_host [OF r(2,6), of sha] pins4 by (simp add: st')
  show ?thesis
    by (intro exI conjI, rule reported_extends [OF r(1) ext], rule r(5), rule subsetD [OF sub calls(1), unfolded service_dt_sel],
        rule subsetD [OF sub calls(2), unfolded service_dt_sel], rule pinned)
qed

subsection \<open>What a deploy leaves behind\<close>

definition footprint :: "('s \<Rightarrow> string \<Rightarrow> ('b \<times> string) option) \<Rightarrow> string \<Rightarrow> bool \<Rightarrow> ('s, 'b) delivery \<Rightarrow> ('s, 'b) delivery \<Rightarrow> bool" where
  "footprint obj mk dryRun st st' \<longleftrightarrow>
     ds_files st' = ds_files st \<and> (\<forall>k. k \<noteq> mk \<longrightarrow> obj (ds_bucket st') k = obj (ds_bucket st) k)
     \<and> (dryRun \<longrightarrow> obj (ds_bucket st') = obj (ds_bucket st) \<and> (\<exists>cs. ds_calls st' = ds_calls st @ cs \<and> only_probes cs))"

lemma footprint_refl: "footprint obj mk dryRun st st"
  by (auto simp: footprint_def only_probes_def)

lemma service_delivery_footprint:
  assumes rc: "release_cas (rw_api w) obj valid later (rw_dec w) (rw_enc w)" and as: "artifact_store (rw_api w) obj valid later"
    and fr: "fresh (rw_lf w)" and mq: "mint_quiet obj valid later (rw_mint w)" and v: "valid (ds_bucket st)"
    and s: "service_delivery w env svc sha targets key dryRun st = (r, st')"
  shows "footprint obj (manifestKey svc env) dryRun st st'"
proof -
  obtain q st1 where p: "probeAndVerifyArch (rw_tr w) (rw_api w) svc sha (rw_order w targets) key st = (q, st1)" by fastforce
  note pf = artifact_store.probeAndVerify_facts(1) [OF as v p]
  have v1: "valid (ds_bucket st1)" using pf by (simp add: artifact_store.reads_def [OF as])
  have f1: "footprint obj (manifestKey svc env) dryRun st st1"
    using pf by (simp add: footprint_def artifact_store.reads_def [OF as])
  show ?thesis
  proof (cases "(\<exists>e. q = Inl e) \<or> dryRun")
    case True
    then have "st' = st1" using s p by (cases q) (auto simp: service_delivery_def)
    then show ?thesis using f1 by simp
  next
    case False
    then obtain archOf archs where q: "q = Inr (archOf, archs)" and dry: "\<not> dryRun" by (cases q) auto
    obtain m st2 where m: "rw_mint w st1 = (m, st2)" by fastforce
    have mr: "artifact_store.reads obj valid st1 st2" by (rule artifact_store.mint_reads [OF as mq v1 m])
    then have v2: "valid (ds_bucket st2)" by (simp add: artifact_store.reads_def [OF as])
    have f2: "footprint obj (manifestKey svc env) dryRun st st2"
      using f1 mr dry by (simp add: footprint_def artifact_store.reads_def [OF as])
    obtain g cl st3 where d: "downloadArchPayloads (rw_lf w) (rw_api w) svc sha targets (archOf, archs) st2 = (g, cl, st3)"
      by (metis prod_cases3)
    note df = artifact_store.downloadArchPayloads_facts [OF as v2 d fr]
    have un: "artifact_store.unchanged obj later st2 st3" using df(1) by blast
    have v3: "valid (ds_bucket st3)" by (rule artifact_store.unchanged_valid [OF as v2 un])
    show ?thesis
    proof (cases m)
      case (Some e)
      then have "st' = st2" using s p q dry m by (simp add: service_delivery_def)
      then show ?thesis using f2 by simp
    next
      case None
      show ?thesis
      proof (cases g)
        case (Inl e)
        then have "st' = st3" using s p q dry m None d by (simp add: service_delivery_def)
        then show ?thesis using f2 dry un df(2) [OF Inl] by (simp add: footprint_def artifact_store.unchanged_def [OF as])
      next
        case (Inr dts)
        obtain x st4 where x: "deliverRelease (rw_tr w) (rw_api w) (rw_dec w) (rw_enc w) svc env sha dts key st3 = (x, st4)" by fastforce
        have st': "st' = remove_files cl st4" using s p q dry m None d Inr x by (simp add: service_delivery_def)
        have "ds_files st4 = ds_files st3 \<and> (\<forall>k. k \<noteq> manifestKey svc env \<longrightarrow> obj (ds_bucket st4) k = obj (ds_bucket st3) k)"
          using release_cas.release_effect [OF rc v3 x] by blast
        then show ?thesis using f2 dry un df(1) st' by (simp add: footprint_def artifact_store.unchanged_def [OF as])
      qed
    qed
  qed
qed

text \<open>C24: Whatever the outcome, a \<open>releases deploy\<close> leaves no temporary file of its downloads and changes no
  object of the store but the manifest of its service and environment; a dry run changes no object at
  all, and the only calls it makes are probes.\<close>

theorem deploy_footprint:
  assumes "release_cas (rw_api w) obj valid later (rw_dec w) (rw_enc w)" "artifact_store (rw_api w) obj valid later"
    and "fresh (rw_lf w)" "mint_quiet obj valid later (rw_mint w)" "valid (ds_bucket st)"
    and "runReleasesDeploy w folder env svc shaFlag keyFlag dryRun st = (r, st')"
  shows "ds_files st' = ds_files st \<and> (\<forall>k. k \<noteq> manifestKey svc env \<longrightarrow> obj (ds_bucket st') k = obj (ds_bucket st) k)
    \<and> (dryRun \<longrightarrow> obj (ds_bucket st') = obj (ds_bucket st) \<and> (\<exists>cs. ds_calls st' = ds_calls st @ cs \<and> only_probes cs))"
proof -
  consider "st' = st"
    | sha where "dryRunWithoutSSH svc sha (store_checker (rw_api w) svc sha) st = (r, st')"
    | sha targets key where "service_delivery w env svc sha targets key dryRun st = (r, st')"
    using assms(6) by (auto simp: runReleasesDeploy_def split: sum.splits option.splits if_splits)
  then have "footprint obj (manifestKey svc env) dryRun st st'"
  proof cases
    case 1
    then show ?thesis by (simp add: footprint_refl)
  next
    case (2 sha)
    obtain x st1 where "anyArchPushed svc sha (store_checker (rw_api w) svc sha) SupportedArchs st = (x, st1)" "st1 = st'"
      using 2 by (auto simp: dryRunWithoutSSH_def split: prod.splits sum.splits)
    then have "artifact_store.unchanged obj later st st' \<and> ds_files st' = ds_files st"
      using artifact_store.anyArchPushed_facts [OF assms(2,5)] by blast
    then show ?thesis by (auto simp: footprint_def artifact_store.unchanged_def [OF assms(2)] only_probes_def)
  next
    case (3 sha targets key)
    then show ?thesis by (rule service_delivery_footprint [OF assms(1-5)])
  qed
  then show ?thesis unfolding footprint_def .
qed

end
