(* ===== verification/DeliverDemo.thy ===== *)
theory DeliverDemo
  imports DeliverProps
begin

text \<open>
  A release to two hosts of different architecture on the fake bucket: the witnesses of the properties
  of \<open>DeliverProps\<close>.
\<close>

interpretation fake_art: artifact_store fake_api fake_obj_of fake_valid fake_later
proof
  fix s s1 :: "'b fakeS3" and k r
  assume "s3_HeadObject fake_api k s = (r, s1)"
  then have "s1 = s" by (auto simp: fake_api_def fake_Head_def split: if_splits)
  then show "fake_later s s1 \<and> fake_obj_of s1 = fake_obj_of s" by (simp add: fake_later_refl)
qed

definition demo_tar :: "string \<Rightarrow> manifest" where
  "demo_tar arch = [(arch, \<lparr>dp_sha = [], dp_arch = arch, dp_at = 0\<rparr>)]"

definition shelf :: "manifest fakeS3" where
  "shelf = \<lparr>fk_objs = [(''api/s1-amd64.tar.gz'', \<lparr>fo_body = demo_tar ''amd64'', fo_etag = etag_text 1, fo_mod = 1\<rparr>),
       (''api/s1-arm64.tar.gz'', \<lparr>fo_body = demo_tar ''arm64'', fo_etag = etag_text 2, fo_mod = 2\<rparr>)], fk_seq = 2\<rparr>"

definition demo_tr :: "manifest transport" where
  "demo_tr = \<lparr>tr_probe = (\<lambda>h args. Inr (if last args = ''uname -m'' then (if args ! 6 = ''deploy@h1'' then ''x86_64'' else ''aarch64'')
        else ''/tmp/inforge-payload.Ab12'')),
     tr_scp = (\<lambda>h args. None), tr_ssh = (\<lambda>h args. None), tr_now = (\<lambda>h. 7)\<rparr>"

definition demo_target :: "string \<Rightarrow> deploy_target" where
  "demo_target h = \<lparr>dt_service = ''api'', dt_host_dns = h, dt_folder = ''/srv/wardnet/api'', dt_unit = ''wardnet-api.service'',
     dt_user = ''api'', dt_ssh_user = ''deploy'', dt_scope = ''eu''\<rparr>"

definition demo_lf :: "'b local_fs" where
  "demo_lf = \<lparr>lf_create = (\<lambda>fs. Inr (CHR ''t'' # concat (map fst fs))), lf_write = (\<lambda>p. None), lf_close = (\<lambda>p. None)\<rparr>"

definition rl_world :: "(manifest fakeS3, manifest) release_world" where
  "rl_world = \<lparr>rw_api = fake_api, rw_dec = Inr, rw_enc = Inr, rw_tr = demo_tr, rw_lf = demo_lf, rw_sha = [], rw_key_path = [],
     rw_key_material = [], rw_write_temp = Inl, rw_cfg = Decoded \<lparr>dc_platform = ''wardnet/infra'', dc_services = [''api'']\<rparr>,
     rw_desc = Decoded \<lparr>sd_platform = [], sd_environments = [(''prd'', \<lparr>ec_artifact_path = [], ec_health_check = []\<rparr>)]\<rparr>,
     rw_config = None, rw_store = None,
     rw_services = Inr (\<lambda>k. if k = ''deployDescriptor'' then Some (Inr [demo_target ''h1'', demo_target ''h2'']) else None),
     rw_apps = Inl [], rw_order = rev, rw_mint = Pair None, rw_absolute = id, rw_package = Inl, rw_keep = 0\<rparr>"

definition rl_start :: "(manifest fakeS3, manifest) delivery" where
  "rl_start = \<lparr>ds_bucket = shelf, ds_files = [], ds_calls = []\<rparr>"

definition demo_deploy :: "bool \<Rightarrow> cmd_err option \<times> (manifest fakeS3, manifest) delivery" where
  "demo_deploy dryRun = runReleasesDeploy rl_world ''deployments'' ''prd'' ''api'' ''s1'' ''key'' dryRun rl_start"

lemma shelf_valid: "fake_valid shelf"
  by (auto simp: fake_valid_def shelf_def fake_obj_of_def split: if_splits intro: exI [of _ 1] exI [of _ 2])

lemma demo_deployed: "fst (demo_deploy False) = None"
  by code_simp

lemma demo_fresh: "fresh demo_lf"
proof -
  have "length x \<le> length (concat (map fst fs))" if "x \<in> fst ` set fs" for x :: string and fs :: "'b files"
    using that by (induction fs) (auto simp: rev_image_eqI trans_le_add2)
  then show ?thesis unfolding fresh_def demo_lf_def by fastforce
qed

lemma demo_mint: "mint_quiet fake_obj_of fake_valid fake_later (Pair None)"
  by (simp add: mint_quiet_def fake_later_refl)

lemma rl_sel:
  "rw_api rl_world = fake_api" "rw_dec rl_world = Inr" "rw_enc rl_world = Inr" "rw_tr rl_world = demo_tr"
  "rw_lf rl_world = demo_lf" "rw_mint rl_world = Pair None" "rw_order rl_world = rev" "ds_bucket rl_start = shelf"
  "ds_files rl_start = []" "ds_calls rl_start = []" "rw_sha rl_world = []"
  by (simp_all add: rl_world_def rl_start_def)

lemma demo_reported: "reported demo_tr key st (demo_target ''h2'') arch \<Longrightarrow> arch = ''arm64''"
proof -
  assume "reported demo_tr key st (demo_target ''h2'') arch"
  moreover have "tr_probe demo_tr h (probe_args ''h2'' ''deploy'' key) = Inr ''aarch64''" for h
    by (simp add: demo_tr_def probe_args_def sshArgs_def)
  moreover have "mapUnameArch (TrimSpace ''aarch64'') = Some ''arm64''" by code_simp
  ultimately show ?thesis by (auto simp: reported_def demo_target_def)
qed

lemma demo_result: "demo_deploy False = (None, snd (demo_deploy False))"
  using demo_deployed by (metis prod.collapse)

theorem service_release_witness:
  "(\<exists>path rp s1. (RunSCP (sshArgs ''key'' @ [path, ''deploy@h2:'' @ rp]) (Some (demo_tar ''arm64'')), s1) \<in> set (ds_calls (snd (demo_deploy False))))
   \<and> pins fake_obj_of Inr ''api'' ''prd'' (ds_bucket (snd (demo_deploy False))) ''h2'' = Some (''s1'', ''arm64'')"
proof -
  let ?ts = "[demo_target ''h1'', demo_target ''h2'']"
  have rt: "resolveDeployTargets ''prd'' (rw_services rl_world) ''api'' = Inr ?ts"
    by (simp add: resolveDeployTargets_def resolve_targets_def resolveDescriptorTargets_def hasMixedScope_def ScopeGlobal_def rl_world_def demo_target_def)
  have ky: "resolveSSHKey ''key'' (rw_key_path rl_world) (rw_key_material rl_world) (rw_write_temp rl_world) = Inr (''key'', False)"
    "resolveSHA ''s1'' (rw_sha rl_world) = Inr ''s1''" by (simp_all add: resolveSSHKey_def resolveSHA_def)
  have run: "runReleasesDeploy rl_world ''deployments'' ''prd'' ''api'' ''s1'' ''key'' False rl_start = (None, snd (demo_deploy False))"
    using demo_result by (simp only: demo_deploy_def)
  from service_release [where w = rl_world and obj = fake_obj_of and valid = fake_valid and later = fake_later, unfolded rl_sel,
      OF fake_cas.release_cas_axioms fake_art.artifact_store_axioms demo_fresh demo_mint _ _ run [unfolded rl_sel] rt _ ky(2) [unfolded rl_sel] ky(1),
      of "demo_target ''h2''"]
  obtain arch body tag path rp s1 where r: "reported demo_tr ''key'' (snd (demo_deploy False)) (demo_target ''h2'') arch"
      "fake_obj_of shelf (artifactKey ''api'' ''s1'' arch) = Some (body, tag)"
      "(RunSCP (sshArgs ''key'' @ [path, ''deploy@h2:'' @ rp]) (Some body), s1) \<in> set (ds_calls (snd (demo_deploy False)))"
      "pins fake_obj_of Inr ''api'' ''prd'' (ds_bucket (snd (demo_deploy False))) ''h2'' = Some (''s1'', arch)"
    by (force simp: shelf_valid rl_sel demo_target_def)
  have "arch = ''arm64''" by (rule demo_reported [OF r(1)])
  moreover have "body = demo_tar ''arm64''"
    using r(2) calculation by (simp add: artifactKey_def NoArch_def artifactExt_def fake_obj_of_def shelf_def)
  ultimately show ?thesis using r(3,4) by blast
qed

theorem deploy_footprint_witness:
  "ds_files (snd (demo_deploy True)) = [] \<and> fake_obj_of (ds_bucket (snd (demo_deploy True))) = fake_obj_of shelf
   \<and> length (ds_calls (snd (demo_deploy True))) = 2"
proof -
  have run: "runReleasesDeploy rl_world ''deployments'' ''prd'' ''api'' ''s1'' ''key'' True rl_start = (fst (demo_deploy True), snd (demo_deploy True))"
    by (simp add: demo_deploy_def)
  have "ds_files (snd (demo_deploy True)) = ds_files rl_start
    \<and> fake_obj_of (ds_bucket (snd (demo_deploy True))) = fake_obj_of (ds_bucket rl_start)"
    using deploy_footprint [where w = rl_world and obj = fake_obj_of and valid = fake_valid and later = fake_later, unfolded rl_sel,
      OF fake_cas.release_cas_axioms fake_art.artifact_store_axioms demo_fresh demo_mint _ run]
    by (simp add: shelf_valid rl_sel)
  moreover have "length (ds_calls (snd (demo_deploy True))) = 2" by code_simp
  ultimately show ?thesis by (simp add: rl_sel)
qed

definition demo_dts :: "delivery_target list" where
  "demo_dts = [service_dt (demo_target ''h1'') ''amd64'' ''t'', service_dt (demo_target ''h2'') ''arm64'' ''tt'']"

definition demo_delivery :: "deliver_err option \<times> (manifest fakeS3, manifest) delivery" where
  "demo_delivery = deliverRelease demo_tr fake_api Inr Inr ''api'' ''prd'' ''s1'' demo_dts ''key'' rl_start"

lemma demo_delivered: "demo_delivery = (None, snd demo_delivery)"
proof -
  have "fst demo_delivery = None" by code_simp
  then show ?thesis by (metis prod.collapse)
qed

interpretation fake_pin: pinner "store_pin demo_tr fake_api Inr Inr ''api'' ''prd'' ''s1''" fake_valid
  "\<lambda>s. (pins fake_obj_of Inr ''api'' ''prd'' s, (fake_obj_of s)(manifestKey ''api'' ''prd'' := None))"
  "\<lambda>t v. (pin_host ''s1'' t (fst v), snd v)"
  "\<lambda>t s. fake_valid s \<and> pins fake_obj_of Inr ''api'' ''prd'' s (dv_host t) = Some (''s1'', dv_arch t)"
  by (rule fake_cas.store_pinner)

theorem delivery_protocol_witness:
  "\<exists>sess. ds_calls (snd demo_delivery) = concat sess \<and> length sess = 2
    \<and> session (\<lambda>s. pins fake_obj_of Inr ''api'' ''prd'' s ''h2'' = Some (''s1'', ''arm64'') \<and> prune_safe fake_api fake_obj_of Inr ''api'' ''s1'' ''arm64'' s)
         ''key'' (demo_dts ! 1) None True (sess ! 1)"
proof -
  have run: "deliverRelease demo_tr fake_api Inr Inr ''api'' ''prd'' ''s1'' demo_dts ''key'' rl_start = (None, snd demo_delivery)"
    using demo_delivered by (simp only: demo_delivery_def)
  have two: "length demo_dts = 2" "dv_host (demo_dts ! 1) = ''h2''" "dv_arch (demo_dts ! 1) = ''arm64''"
    by (simp_all add: demo_dts_def demo_target_def)
  obtain sess where s: "ds_calls (snd demo_delivery) = ds_calls rl_start @ concat sess" "length sess = length demo_dts"
      "\<forall>i<length sess. session
          (\<lambda>s. pins fake_obj_of Inr ''api'' ''prd'' s (dv_host (demo_dts ! i)) = Some (''s1'', dv_arch (demo_dts ! i))
             \<and> prune_safe fake_api fake_obj_of Inr ''api'' ''s1'' (dv_arch (demo_dts ! i)) s)
          ''key'' (demo_dts ! i) (map_of (ds_files rl_start) (dv_payload (demo_dts ! i))) True (sess ! i)"
    using delivery_protocol [OF fake_cas.release_cas_axioms fake.object_store_axioms _ _ run] by (auto simp: shelf_valid rl_sel)
  from s(3) [rule_format, of 1] show ?thesis using s(1,2) two by (intro exI [of _ sess]) (simp add: rl_sel)
qed

theorem delivery_pins_witness:
  "pins fake_obj_of Inr ''api'' ''prd'' (ds_bucket (snd demo_delivery)) ''h1'' = Some (''s1'', ''amd64'')
   \<and> fake_obj_of (ds_bucket (snd demo_delivery)) ''api/s1-amd64.tar.gz'' = Some (demo_tar ''amd64'', etag_text 1)"
proof -
  have run: "deliverRelease demo_tr fake_api Inr Inr ''api'' ''prd'' ''s1'' demo_dts ''key'' rl_start = (None, snd demo_delivery)"
    using demo_delivered by (simp only: demo_delivery_def)
  have d: "pins fake_obj_of Inr ''api'' ''prd'' (ds_bucket (snd demo_delivery)) = fold (pin_host ''s1'') demo_dts (pins fake_obj_of Inr ''api'' ''prd'' shelf)"
    "fake_obj_of (ds_bucket (snd demo_delivery)) k = fake_obj_of shelf k" if "k \<noteq> manifestKey ''api'' ''prd''" for k
    using delivery_pins [OF fake_cas.release_cas_axioms _ run] that by (auto simp: shelf_valid rl_sel)
  have "manifestKey ''api'' ''prd'' \<noteq> ''api/s1-amd64.tar.gz''" by code_simp
  from d [OF this [symmetric]] show ?thesis
    by (simp add: demo_dts_def pin_host_def demo_target_def fake_obj_of_def shelf_def)
qed

end
