(* ===== verification/Spec2Isabelle.thy ===== *)
theory Spec2Isabelle
  imports EdgeGateway MeshNginx Example ScopeFacts Dsl PgRole Cidr Duration Stores Ports Naming ReleaseProps StateLock DeployFacts AgentDemo DeliverDemo
begin

text \<open>
  A verification development for inforge, a command line that validates a declarative description of
  an infrastructure (the files of \<open>resources/<env>/\<close>, per region and global), deploys it with
  Pulumi, delivers releases to the hosts over SSH, and leaves an agent on every host that starts the
  services.  File and function names below are relative to \<open>src/\<close>; a definition carries the name of
  the Go function or field it models (a field with the prefix of its record).

  \<^bold>\<open>How the parts interact.\<close>  \<open>inforge validate\<close> reads the files of a scope (a region, or the global
  scope), normalises them and checks them against one context of the whole resource set.  The deploy
  derives from the same specifications the inputs of every nginx, the firewall, the DNS records, the
  mesh proxies, the database roles and the deploy descriptors.  A release resolves a service name in
  those descriptors, pins the SHA in a manifest of the release bucket by compare-and-swap, and applies
  it on each host.  The agent merges the secret blobs of a service, projects its files and executes the
  binary.  The properties follow these seams: what validation accepts, what the deploy then builds, what
  a request, a release or a process then does.

  \<^bold>\<open>Shared theories.\<close>
  \<^item> \<open>Prelude\<close>: Go's string functions, ordered deduplication, the named collections.
  \<^item> \<open>PathGlob\<close>: \<open>internal/pathglob\<close>, with the fragment of Go's \<open>regexp\<close> it compiles to; the worklist
    automaton of \<open>Overlaps\<close> is exact for the languages of the compiled expressions.
  \<^item> \<open>Naming\<close>: \<open>internal/naming\<close>, \<open>tags\<close>, \<open>regions\<close>, \<open>sizes\<close>.  \<open>Ports\<close>: \<open>internal/meshpaths\<close>,
    \<open>hostpaths\<close>, \<open>postgres\<close> and \<open>nginx\<close> paths, \<open>meshcert\<close>.  \<open>Cidr\<close>: \<open>internal/validate/cidr.go\<close>.
    \<open>Duration\<close>: \<open>time.ParseDuration\<close>.  \<open>PathClean\<close>: \<open>filepath.Clean\<close>, \<open>Dir\<close>, \<open>Join\<close>.
  \<^item> \<open>Types\<close>: \<open>internal/types\<close>, one record per struct.  \<open>Sources\<close>: \<open>internal/yamldoc\<close>,
    \<open>internal/validate/source.go\<close>, the normalisation of \<open>internal/loader\<close>.  \<open>Dsl\<close>: \<open>internal/grant\<close>.
    \<open>PgRole\<close>: \<open>internal/pgrole\<close>, with the effect of its statements on the rights and the ownership of
    a database as the reference.  \<open>Stores\<close>: \<open>internal/secretstore\<close>, \<open>internal/pki/store.go\<close>.

  \<^bold>\<open>Validation\<close> (\<open>internal/validate/validate.go\<close>, \<open>observability.go\<close>, \<open>internal/loader\<close>).
  \<^item> \<open>ValidateCtx\<close> is \<open>regionContext\<close> and every pass of \<open>validateResourceSet\<close> that fills it;
    \<open>ValidateBinds\<close> the port rules; \<open>ValidateInfra\<close>, \<open>ValidateService\<close>, \<open>ValidateGrants\<close>,
    \<open>ValidateMesh\<close>, \<open>ValidateEdge\<close> the \<open>check\<close> functions; \<open>Alerts\<close> the observability checks;
    \<open>Validate\<close> the reporter, the checks across scopes and \<open>ValidateResources\<close>, which is \<open>None\<close> exactly
    when the command succeeds.
  \<^item> \<open>CtxFacts\<close>, \<open>CtxBinds\<close>, \<open>CtxBase\<close> read the context back as a function of the files;
    \<open>ServiceFacts\<close>, \<open>GrantFacts\<close>, \<open>ValidateFacts\<close>, \<open>ScopeFacts\<close> turn acceptance into facts on the
    specifications; \<open>Example\<close> is an accepted environment for the witnesses.  C1 to C10 are stated here.

  \<^bold>\<open>The edge\<close> (\<open>internal/nginx/config.go\<close>, \<open>program/program.go\<close>, \<open>program/dbcluster.go\<close>,
  \<open>providers/hetzner/tls.go\<close>).
  \<^item> \<open>NginxAst\<close>: configurations as trees of directives, and what nginx does with servers, locations,
    maps and sockets.  A map with a row named \<open>default\<close> or \<open>include\<close> has no reading as a plain table.
  \<^item> \<open>NginxConfig\<close>: the checks and blocks of \<open>Render\<close>.  \<open>EdgePlan\<close>, \<open>EdgeRealize\<close>: the inputs of each
    host, the substitution of addresses, firewall, cluster ports and DNS records.
  \<^item> \<open>NginxFacts\<close>, \<open>NginxProps\<close>, \<open>EdgeFacts\<close>, \<open>EdgeProps\<close>, \<open>EdgeDns\<close>, \<open>EdgeGateway\<close>: sockets and the
    demultiplexing by server name, the firewall against the sockets, the workload behind every proxied
    address, the records behind every certificate, and a gateway from its specification to a request
    (C11 to C16).  \<open>EdgeExample\<close> holds the witnesses.

  \<^bold>\<open>The mesh\<close> (\<open>internal/meshplan\<close>, \<open>internal/meshnginx\<close>, \<open>program/mesh.go\<close>,
  \<open>providers/hetzner/mesh.go\<close>).  \<open>MeshPlan\<close> groups the services by host and expands the callers;
  \<open>MeshNginx\<close> renders both planes of a host.  \<open>MeshFacts\<close>, \<open>MeshProps\<close>, \<open>MeshLive\<close>: one call from the
  caller's port to the callee's location, and that rendering cannot fail after acceptance (C17, C18).

  \<^bold>\<open>Descriptors and releases\<close> (\<open>internal/service\<close>, \<open>app\<close>, \<open>deployment\<close>, \<open>release\<close>, \<open>remote\<close>,
  \<open>cmd/inforge\<close>).
  \<^item> \<open>DeployDesc\<close>, \<open>DeployFacts\<close>: the descriptors a stack exports and the targets of a name (C19, C20).
  \<^item> \<open>Deliver\<close>, \<open>ReleaseCmd\<close>, \<open>DeliverFacts\<close>, \<open>DeliverReads\<close>, \<open>DeliverProps\<close>, \<open>DeliverDemo\<close>: probe,
    download, upload, pin, apply and clean up, as explicit sequences of calls (C21 to C24).
  \<^item> \<open>ObjectStore\<close>, \<open>Release\<close>, \<open>ReleaseCas\<close>, \<open>ReleasePrune\<close>, \<open>ReleaseProps\<close>, \<open>FakeBucket\<close>: artifact
    keys, manifests, retention, and the concurrent \<open>SetDeployment\<close> as a step relation (C25 to C29).
  \<^item> \<open>StateLock\<close>: \<open>cmd/inforge/statelock.go\<close> (C30).  \<open>Shell\<close>: the scripts a release runs, against the
    word splitting of the POSIX shell on the fragment without expansions (C37).

  \<^bold>\<open>The host agent\<close> (\<open>internal/agent\<close>, \<open>cmd/inforge-agent\<close>).  \<open>AgentFs\<close> is a file tree in which every
  call of the \<open>os\<close> package may fail, with \<open>projectFiles\<close> as a state and error monad; \<open>Agent\<close> the
  environment, the blobs, the users, the privilege drop and the entry points; \<open>AgentProject\<close>,
  \<open>AgentProps\<close>, \<open>AgentDemo\<close> the transaction of the projection, the executed image, and the material of
  the mesh proxy (C31 to C36).  C38 to C40, on globs, database roles and output templates, close this
  theory.

  \<^bold>\<open>Interfaces.\<close>  \<open>cas_store\<close> states the laws of a bucket with conditional writes; \<open>object_store\<close>
  extends it by listing and deletion, \<open>artifact_store\<close> by existence checks and \<open>release_cas\<close> by the
  coding of manifests.  \<open>pinner\<close> is what a delivery needs of the pinning of a host, \<open>path_language\<close> what
  the route checks need of patterns, \<open>secret_view\<close> what the commands need of a namespace of secrets.
  They are interpreted on the bucket of \<open>internal/release/fake_test.go\<close>, on \<open>store_pin\<close>, on \<open>PathGlob\<close>,
  and on both namespaces of the secret store.

  \<^bold>\<open>Bounds and termination.\<close>  \<open>SetDeployment\<close> makes five attempts, as in the source; that it returns
  is C27.  \<open>ParseDuration\<close> is the one function with fuel, the length of its input, and
  \<open>duration_loop_fuel\<close> shows that more changes nothing.  The loop of \<open>ownedDirChain\<close> and the paging of
  a listing may run forever and are partial functions with \<open>None\<close> for that; C36 and the paging lemma of
  \<open>object_store\<close> show that they return.  Every other recursion is structural or has a termination
  proof.  Go's \<open>int\<close> is \<open>int\<close> where the code only compares and adds small values; bytes, addresses and
  durations keep their range.

  \<^bold>\<open>Parameters.\<close>  The S3 client, \<open>crossplane.Build\<close>, YAML and age decoding, the role provisioner, ssh,
  scp and tar, the minting of leaf certificates, the failures of system calls, and the addresses that
  Pulumi resolves are arguments of the definitions that use them.  \<open>sort.Slice\<close> is a stable sort.  A Go
  map that the code ranges over unordered is read so that no result depends on the order, or the order
  is an argument or that of first appearance.

  \<^bold>\<open>Not modelled.\<close>  The registration of resources through the Pulumi SDK and the calls into the cloud
  providers' SDKs (their effects lie outside the program), Grafana's rule and dashboard templates, the
  install scripts of hosts and proxies (text), ephemeral environments, backup storage (S3 clients), the
  wiring and printing of the commands, the translation of engine events, the provider registry, and
  the cryptography of certificates and age.
\<close>

section \<open>Properties of an accepted environment\<close>

text \<open>C1: Two services of a validated scope that run on the same host never bind the same backend
  TCP port, whether the port is a mesh port, a health port, a route target or an exposed port.\<close>

theorem validated_tcp_exclusive:
  assumes "ValidateResources exists resolve defaults bucket pj = None"
    and "(vi, fs) \<in> set (scopes_of resolve defaults bucket pj)"
    and "s \<in> set (services_of fs)" "t \<in> set (services_of fs)" "s \<noteq> t"
    and "canonicalHost (svc_host s) (build_ctx vi fs) = canonicalHost (svc_host t) (build_ctx vi fs)"
  shows "set (tcp_binds s) \<inter> set (tcp_binds t) = {}"
  by (rule tcp_exclusive [OF validated_ok [OF assms(1,2)] assms(3-6)])

theorem validated_tcp_exclusive_witness:
  "tcp_binds ex_api = [9002, 9001, 9000, 9003] \<and> tcp_binds ex_worker = [9101, 9102, 9100]
   \<and> set (tcp_binds ex_api) \<inter> set (tcp_binds ex_worker) = {}"
  by (intro conjI ex_binds validated_tcp_exclusive [OF ex_accepted ex_scope])
     (simp_all add: ex_parsed_services ex_differ ex_sel)

text \<open>C2: On the host of an ingress no backend of a validated scope binds a port on which nginx
  listens for a route of any service of the scope.\<close>

theorem validated_off_listens:
  assumes "ValidateResources exists resolve defaults bucket pj = None"
    and "(vi, fs) \<in> set (scopes_of resolve defaults bucket pj)"
    and "s \<in> set (services_of fs)" "p \<in> set (tcp_binds s)"
    and "t \<in> set (services_of fs)" "rt \<in> set (svc_routes t)"
    and "cx_ingressHost (build_ctx vi fs) (svc_ingress t) = Some (canonicalHost (svc_host s) (build_ctx vi fs))"
  shows "p \<noteq> rt_listen rt"
  by (rule backend_off_listens [OF validated_ok [OF assms(1,2)] assms(3-7)])

theorem validated_off_listens_witness:
  "9100 \<in> set (tcp_binds ex_worker) \<and> 9100 \<noteq> rt_listen (hd (svc_routes ex_api))"
proof
  show "9100 \<noteq> rt_listen (hd (svc_routes ex_api))"
    by (rule validated_off_listens [OF ex_accepted ex_scope, of ex_worker _ ex_api])
       (simp_all add: ex_parsed_services ex_binds ex_sel ex_hosts)
qed (simp add: ex_binds)

text \<open>C3: Of the services behind a validated gateway at most one serves a given request path.\<close>

theorem validated_gateway_owner:
  assumes "ValidateResources exists resolve defaults bucket pj = None"
    and "(vi, fs) \<in> set (scopes_of resolve defaults bucket pj)"
    and "g \<in> set (parsed_specs (fs_gateway fs))"
    and "gateway_serves g (build_ctx vi fs) a path" "gateway_serves g (build_ctx vi fs) b path"
  shows "a = b"
  by (rule gateway_unique_owner
      [OF set_accepts_parts(7) [OF validated_scope [OF assms(1,2)] assms(3)] assms(4,5)])

theorem validated_gateway_owner_witness:
  "gateway_serves ex_gateway ex_ctx ''worker'' ''/jobs/7''
   \<and> \<not> gateway_serves ex_gateway ex_ctx ''api'' ''/jobs/7''"
proof -
  have w: "gateway_serves ex_gateway ex_ctx ''worker'' ''/jobs/7''" by code_simp
  moreover have "\<not> gateway_serves ex_gateway ex_ctx ''api'' ''/jobs/7''"
  proof
    assume "gateway_serves ex_gateway ex_ctx ''api'' ''/jobs/7''"
    with w have "''worker'' = ''api''"
      using validated_gateway_owner [OF ex_accepted ex_scope, of ex_gateway "''worker''" "''/jobs/7''" "''api''"]
      by (simp add: ex_files ex_specs ex_ctx)
    then show False by simp
  qed
  ultimately show ?thesis by blast
qed

text \<open>A health probe path of a validated gateway is never a path of a service behind it, so the
  probe endpoint is not shadowed.\<close>

theorem validated_gateway_health:
  assumes "ValidateResources exists resolve defaults bucket pj = None"
    and "(vi, fs) \<in> set (scopes_of resolve defaults bucket pj)"
    and "g \<in> set (parsed_specs (fs_gateway fs))" "hp \<in> set (gw_health_paths g)"
  shows "\<not> gateway_serves g (build_ctx vi fs) name hp"
  by (rule gateway_health_free
      [OF set_accepts_parts(7) [OF validated_scope [OF assms(1,2)] assms(3)] assms(4)])

theorem validated_gateway_health_witness: "\<not> gateway_serves ex_gateway ex_ctx ''api'' ''/healthz''"
  using validated_gateway_health [OF ex_accepted ex_scope, of ex_gateway "''/healthz''" "''api''"]
  by (simp add: ex_files ex_specs ex_sel ex_ctx)

text \<open>C4: No request path is both public and internal on a service of a validated scope.\<close>

theorem validated_visibility:
  assumes "ValidateResources exists resolve defaults bucket pj = None"
    and "(vi, fs) \<in> set (scopes_of resolve defaults bucket pj)"
    and "s \<in> set (services_of fs)" "svc_mesh s = Some m"
    and "g \<in> set (mesh_public m)" "Parse g = Inr p" "Matches p path"
    and "h \<in> set (mesh_internal m)" "Parse h = Inr q"
  shows "\<not> Matches q path"
  by (rule mesh_visibility
      [OF service_ok_parts(6) [OF scope_okD [OF validated_ok [OF assms(1,2)] assms(3)] assms(4)] assms(5-9)])

theorem validated_visibility_witness:
  "(case Parse ''/api/**'' of Inr p \<Rightarrow> Matches p ''/api/v1/x'' | Inl e \<Rightarrow> False)
   \<and> (case Parse ''/admin/*'' of Inr q \<Rightarrow> \<not> Matches q ''/api/v1/x'' | Inl e \<Rightarrow> False)"
proof -
  have api: "\<exists>p. Parse ''/api/**'' = Inr p \<and> Matches p ''/api/v1/x''"
  proof (cases "Parse ''/api/**''")
    case (Inl e)
    have "is_ok (Parse ''/api/**'')" by code_simp
    with Inl show ?thesis by simp
  next
    case (Inr p)
    have "(case Parse ''/api/**'' of Inr p \<Rightarrow> Matches p ''/api/v1/x'' | Inl e \<Rightarrow> False)" by code_simp
    with Inr show ?thesis by simp
  qed
  have "is_ok (Parse ''/admin/*'')" by code_simp
  then obtain q where q: "Parse ''/admin/*'' = Inr q" by (elim is_okE)
  from api obtain p where p: "Parse ''/api/**'' = Inr p" "Matches p ''/api/v1/x''" by blast
  have "\<not> Matches q ''/api/v1/x''"
    by (rule validated_visibility [OF ex_accepted ex_scope _ _ _ p _ q])
       (auto simp: ex_parsed_services ex_sel)
  with p q show ?thesis by simp
qed



text \<open>C6: A passthrough port of an ingress host belongs to at most one service of a validated scope.\<close>

theorem validated_forward_exclusive:
  assumes "ValidateResources exists resolve defaults bucket pj = None"
    and "(vi, fs) \<in> set (scopes_of resolve defaults bucket pj)"
    and "s \<in> set (services_of fs)" "t \<in> set (services_of fs)" "s \<noteq> t"
    and "r \<in> set (svc_routes s)" "rt_type r = IngressTypeForward"
    and "cx_ingressHost (build_ctx vi fs) (svc_ingress s) = Some ih"
    and "cx_ingressHost (build_ctx vi fs) (svc_ingress t) = Some ih"
    and "q \<in> set (svc_routes t)" "rt_type q = IngressTypeForward"
  shows "rt_listen r \<noteq> rt_listen q"
  using forward_exclusive [OF validated_ok [OF assms(1,2)] assms(3-7,10,11) assms(8,9)] by blast

theorem validated_forward_exclusive_witness:
  "rt_listen (hd (svc_routes ex_api)) \<noteq> rt_listen (hd (svc_routes ex_worker))"
  by (rule validated_forward_exclusive [OF ex_accepted ex_scope, of ex_api ex_worker])
     (simp_all add: ex_parsed_services ex_differ ex_sel ex_hosts IngressTypeForward_def)

text \<open>C7: A service of a validated scope that another service of the scope lists as a caller is
  not that service itself, is a member of the same mesh (both declare one non-empty PKI), and runs on a
  host of the same network.\<close>

theorem validated_callers:
  assumes "ValidateResources exists resolve defaults bucket pj = None"
    and "(vi, fs) \<in> set (scopes_of resolve defaults bucket pj)"
    and "s \<in> set (services_of fs)" "svc_mesh s = Some m"
    and "t \<in> set (services_of fs)" "svc_name t \<in> set (mesh_allowed m)"
  shows "t \<noteq> s \<and> svc_pki t = svc_pki s \<and> svc_pki s \<noteq> []
    \<and> cx_computeNetwork (build_ctx vi fs) (canonicalHost (svc_host t) (build_ctx vi fs))
      = cx_computeNetwork (build_ctx vi fs) (canonicalHost (svc_host s) (build_ctx vi fs))"
  using same_scope_caller [OF validated_ok [OF assms(1,2)] assms(3-5) scope_caller_member [OF assms] assms(6)]
    scope_caller_member [OF assms]
  by auto

theorem validated_callers_witness: "svc_name ex_worker \<in> set (mesh_allowed (the (svc_mesh ex_api)))
    \<and> svc_pki ex_worker = svc_pki ex_api"
proof
  show "svc_pki ex_worker = svc_pki ex_api"
    using validated_callers [OF ex_accepted ex_scope, of ex_api "the (svc_mesh ex_api)" ex_worker]
    by (simp add: ex_parsed_services ex_sel)
qed (simp add: ex_sel)

text \<open>The subnets of a validated network lie inside it, address by address, whenever the two
  ranges are of one address family.\<close>

theorem validated_subnets:
  assumes "ValidateResources exists resolve defaults bucket pj = None"
    and "(vi, fs) \<in> set (scopes_of resolve defaults bucket pj)"
    and "n \<in> set (parsed_specs (fs_network fs))" "sub \<in> set (net_subnets n)"
    and "ParseCIDR (net_cidr n) = Some c" "ParseCIDR (sub_cidr sub) = Some d"
    and "length (ipn_ip c) = length (ipn_ip d)" "Contains d ip"
  shows "Contains c ip"
proof (rule cidrContains_sound [OF _ assms(7,8)])
  have "checkNetwork n (build_ctx vi fs) = []"
    by (rule set_accepts_parts(2) [OF validated_scope [OF assms(1,2)] assms(3)])
  then show "cidrContains c d" using checkNetwork_nil(2) assms(4-6) by force
qed

theorem validated_subnets_witness:
  "case (ParseCIDR ''10.0.0.0/16'', ParseCIDR ''10.0.1.0/24'') of
     (Some c, Some d) \<Rightarrow> Contains d [10, 0, 1, 7] \<and> Contains c [10, 0, 1, 7]
   | _ \<Rightarrow> False"
proof -
  have "\<exists>c d. ParseCIDR ''10.0.0.0/16'' = Some c \<and> ParseCIDR ''10.0.1.0/24'' = Some d
      \<and> length (ipn_ip c) = length (ipn_ip d) \<and> Contains d [10, 0, 1, 7]"
  proof -
    have "(case (ParseCIDR ''10.0.0.0/16'', ParseCIDR ''10.0.1.0/24'') of
        (Some c, Some d) \<Rightarrow> length (ipn_ip c) = length (ipn_ip d) \<and> Contains d [10, 0, 1, 7] | _ \<Rightarrow> False)"
      by code_simp
    then show ?thesis by (auto split: option.splits)
  qed
  then obtain c d where cd: "ParseCIDR ''10.0.0.0/16'' = Some c" "ParseCIDR ''10.0.1.0/24'' = Some d"
    "length (ipn_ip c) = length (ipn_ip d)" "Contains d [10, 0, 1, 7]" by blast
  have "Contains c [10, 0, 1, 7]"
    by (rule validated_subnets [OF ex_accepted ex_scope, of ex_network "hd (net_subnets ex_network)" _ d])
       (use cd in \<open>simp_all add: ex_files ex_specs ex_sel\<close>)
  with cd show ?thesis by simp
qed

text \<open>Two networks of a validated scope share no subnet name, and agree on the address range when
  they are realised in one container.\<close>

theorem validated_networks:
  assumes "ValidateResources exists resolve defaults bucket pj = None"
    and "(vi, fs) \<in> set (scopes_of resolve defaults bucket pj)"
    and "a \<in> set (parsed_specs (fs_network fs))" "b \<in> set (parsed_specs (fs_network fs))" "a \<noteq> b"
  shows "set (map sub_name (net_subnets a)) \<inter> set (map sub_name (net_subnets b)) = {}
    \<and> (net_container a = net_container b \<longrightarrow> net_cidr a = net_cidr b)"
proof -
  note all = validated_all_parsed(1) [OF assms(1,2)]
  have d: "distinct (map net_name (all_specs (fs_network fs)))"
    using set_accepts_parts(8) [OF validated_scope [OF assms(1,2)]] all by simp
  have p: "\<forall>n\<in>set (all_specs (fs_network fs)). checkNetwork n (build_ctx vi fs) = []"
    using set_accepts_parts(2) [OF validated_scope [OF assms(1,2)]] all by simp
  show ?thesis using scope_networks [OF d p] assms(3-5) all by metis
qed

theorem validated_networks_witness:
  "set (map sub_name (net_subnets ex_network)) \<inter> set (map sub_name (net_subnets ex_network2)) = {}"
proof -
  have "ex_network \<noteq> ex_network2"
  proof
    assume "ex_network = ex_network2"
    then have "net_name ex_network = net_name ex_network2" by simp
    then show False by (simp add: ex_sel)
  qed
  then show ?thesis
    using validated_networks [OF ex_accepted ex_scope, of ex_network ex_network2]
    by (simp only: ex_files ex_specs list.set insert_iff simp_thms)
qed

text \<open>Two database files of a validated scope never name the same physical database of a cluster.\<close>

theorem validated_databases:
  assumes "ValidateResources exists resolve defaults bucket pj = None"
    and "(vi, fs) \<in> set (scopes_of resolve defaults bucket pj)"
    and "f \<in> set (fs_database fs)" "db_cluster (sf_spec f) \<noteq> []" "db_database (sf_spec f) \<noteq> []"
    and "g \<in> set (fs_database fs)" "f \<noteq> g"
  shows "(db_cluster (sf_spec f), db_database (sf_spec f)) \<noteq> (db_cluster (sf_spec g), db_database (sf_spec g))"
proof (rule scope_databases [OF _ validated_all_parsed(2) [OF assms(1,2)] assms(3-7)])
  show "\<forall>f\<in>set (fs_database fs). fst (checkDatabase (sf_spec f) (build_ctx vi fs)) = []"
    using set_accepts_parts(4) [OF validated_scope [OF assms(1,2)]] validated_all_parsed(2) [OF assms(1,2)]
    by (simp add: parsed_specs_def)
qed

theorem validated_databases_witness:
  "(db_cluster ex_database, db_database ex_database) \<noteq> (db_cluster ex_database2, db_database ex_database2)"
proof -
  have "ex_file ''d/orders'' ex_database \<noteq> ex_file ''d/audit'' ex_database2"
    by (simp add: ex_file_def)
  then show ?thesis
    using validated_databases [OF ex_accepted ex_scope, of "ex_file ''d/orders'' ex_database" "ex_file ''d/audit'' ex_database2"]
    by (simp only: ex_files ex_specs list.set insert_iff simp_thms ex_sel list.distinct)
qed

text \<open>C8: Every output template of a database grant of a validated service parses, and the fields the
  grant publishes fill it: materialising the environment cannot fail on it.\<close>

theorem validated_grant_outputs:
  assumes "ValidateResources exists resolve defaults bucket pj = None"
    and "(vi, fs) \<in> set (scopes_of resolve defaults bucket pj)"
    and "s \<in> set (services_of fs)" "g \<in> set (svc_grants s)" "(n, tmpl) \<in> set (gr_outputs g)"
    and "cut_at CHR ''/'' (gr_resource g) = Some (''database'', name)"
    and "Database_Grant prov role (gr_permission g) = Inr vals"
  shows "\<exists>t r. ParseTemplate tmpl = Inr t \<and> Interpolate t (map_of vals) = Inr r"
  by (rule database_outputs [OF scope_okD [OF validated_ok [OF assms(1,2)] assms(3)] assms(4-7)])

theorem validated_grant_outputs_witness:
  "case (ParseTemplate ''pg://{USER}:{HOST}'',
       Database_Grant (Some (\<lambda>role perm. Inr \<lparr>rf_user = ''u'', rf_password = ''p'', rf_host = ''h'',
         rf_port = ''5432'', rf_dbname = ''d'', rf_url = ''x''\<rparr>)) ''role'' ''rw'') of
     (Inr t, Inr vals) \<Rightarrow> is_ok (Interpolate t (map_of vals)) | _ \<Rightarrow> False"
proof -
  let ?prov = "Some (\<lambda>role perm. Inr \<lparr>rf_user = ''u'', rf_password = ''p'', rf_host = ''h'',
         rf_port = ''5432'', rf_dbname = ''d'', rf_url = ''x''\<rparr>)"
  have "is_ok (Database_Grant ?prov ''role'' ''rw'')" by code_simp
  then obtain vals where v: "Database_Grant ?prov ''role'' ''rw'' = Inr vals" by (elim is_okE)
  have "\<exists>t r. ParseTemplate ''pg://{USER}:{HOST}'' = Inr t \<and> Interpolate t (map_of vals) = Inr r"
    by (rule validated_grant_outputs [OF ex_accepted ex_scope, of ex_api "hd (svc_grants ex_api)" _ _ "''orders''"])
       (use v in \<open>simp_all add: ex_parsed_services ex_sel\<close>)
  then show ?thesis using v by auto
qed

text \<open>C9: With a secret store that loads, every \<open>vault:\<close> reference of a validated service has a
  ciphertext stored under that service.\<close>

theorem validated_vault:
  assumes "ValidateResources exists resolve defaults bucket pj = None"
    and "(vi, fs) \<in> set (scopes_of resolve defaults bucket pj)" and "s \<in> set (services_of fs)"
    and "map_of (svc_env s) k = Some v" "ParseSource v = Inr (SourceVault key)"
    and "pj_secrets pj = StoreLoaded st"
  shows "store_Get st (svc_name s) key \<noteq> None"
  by (rule validated_store [OF assms])

theorem validated_vault_witness: "store_Get ex_secrets ''api'' ''TOKEN'' \<noteq> None"
proof -
  have "store_Get ex_secrets (svc_name ex_api) ''TOKEN'' \<noteq> None"
    by (rule validated_vault [OF ex_accepted ex_scope, of _ "''API_TOKEN''" "''vault:TOKEN''"])
       (simp_all add: ex_parsed_services ex_sel ex_sources ex_project_def)
  then show ?thesis by (simp add: ex_sel)
qed



text \<open>A service or app name of a validated project is declared in one scope only, so a deploy that
  resolves its target by bare name has one target.\<close>

theorem validated_names_unique:
  assumes "ValidateResources exists resolve defaults bucket pj = None"
    and "loadResourceSet resolve (pj_global_set pj) = Some glob"
    and "loadResourceSet resolve (pj_regional_set pj) = Some reg"
  shows "distinct (map svc_name (res_service reg @ res_service glob))
    \<and> distinct (map app_name (res_app reg @ res_app glob))"
proof -
  have a: "accepted exists resolve defaults bucket pj glob reg"
    using assms(1) unfolding ValidateResources_iff by (auto simp: accepted_def assms(2,3))
  then have "set_accepts exists (global_input pj defaults bucket (Some reg)) (normal_set resolve (pj_global_set pj))"
    "set_accepts exists (regional_input pj defaults bucket glob) (normal_set resolve (pj_regional_set pj))"
    by (simp_all add: accepted_def)
  note names = this [THEN set_accepts_names(1)] this [THEN set_accepts_names(2)]
  have "res_service glob = all_specs (fs_service (normal_set resolve (pj_global_set pj)))"
    "res_app glob = all_specs (fs_app (normal_set resolve (pj_global_set pj)))"
    "res_service reg = all_specs (fs_service (normal_set resolve (pj_regional_set pj)))"
    "res_app reg = all_specs (fs_app (normal_set resolve (pj_regional_set pj)))"
    by (simp_all add: loaded_specs [OF assms(2)] loaded_specs [OF assms(3)] specs_of_def)
  note d = names [folded this]
  show ?thesis using a d by (auto simp: accepted_def cross_messages_nil)
qed

theorem validated_names_unique_witness: "distinct (map svc_name [ex_api, ex_worker])"
proof -
  have "distinct (map svc_name (res_service (specs_of ex_fs) @ res_service (specs_of (rw_files ex_no_raw))))
    \<and> distinct (map app_name (res_app (specs_of ex_fs) @ res_app (specs_of (rw_files ex_no_raw))))"
    by (rule validated_names_unique [OF ex_accepted]) (simp_all add: ex_project_sel ex_loads)
  then show ?thesis by (simp only: ex_all_services)
qed

text \<open>Every mesh service of a validated regional set can be given its trust bundle in every region
  the set deploys to, as soon as its PKI carries a root certificate.\<close>

theorem validated_trust_bundle:
  assumes "ValidateResources exists resolve defaults bucket pj = None"
    and "f \<in> set (fs_service (rw_files (pj_regional_set pj)))" "sf_parse_err f = None"
    and "svc_pki (NormalizeService (sf_spec f)) = name" "name \<noteq> []"
    and "pj_pkis pj = StoreLoaded st"
    and "pki_Get st name = Some p" "r \<in> set (RootCerts p)" "TrimSpace r \<noteq> []"
  shows "is_ok (TrustBundle st name (SortedNames (pj_regions pj)))"
proof (rule member_bundle [OF _ assms(2-5,7-9)])
  show "members_ok (rw_files (pj_regional_set pj)) (SortedNames (pj_regions pj)) (Some st)"
    using assms(1,6) unfolding ValidateResources_iff by (auto simp: accepted_def loaded_option_def)
qed

theorem validated_trust_bundle_witness: "is_ok (TrustBundle ex_pkis ''mesh'' [''us-east-1''])"
proof -
  have "is_ok (TrustBundle ex_pkis ''mesh'' (SortedNames (pj_regions ex_project)))"
    by (rule validated_trust_bundle [OF ex_accepted, of "ex_file ''s/worker'' (ex_worker\<lparr>svc_type := []\<rparr>)" _ _
          "snd (hd (ps_pkis ex_pkis))" "''R''"])
       (simp_all add: ex_project_sel ex_raw_def ex_specs NormalizeService_def ex_sel ex_trim,
        simp_all add: ex_project_def ex_pkis_def pki_Get_def RootCerts_def)
  then show ?thesis by (simp only: ex_conditions)
qed

text \<open>A vanity name of a route of a validated project expands to a name inside the base domain,
  so the record the DNS provider creates is the name that was asked for.\<close>

theorem validated_vanity:
  assumes "ValidateResources exists resolve defaults bucket pj = None"
    and "loadResourceSet resolve (pj_regional_set pj) = Some reg"
    and "pj_domain pj \<noteq> []" "\<not> contains_str (pj_domain pj) ''${''"
    and "s \<in> set (res_service reg)" "rt \<in> set (svc_routes s)" "v \<in> set (rt_vanity rt)"
  shows "InZone (ExpandVanity v ''env'' ''slug'' (pj_domain pj)) (pj_domain pj)"
proof -
  have "vanity_ok (pj_domain pj) reg"
    using assms(1,2) unfolding ValidateResources_iff by (auto simp: accepted_def)
  then show ?thesis using assms(3-7) by (auto simp: vanity_ok_def vanity_messages_nil)
qed

theorem validated_vanity_witness:
  "InZone (ExpandVanity ''shop'' ''env'' ''slug'' ''example.com'') ''example.com''"
proof -
  have "InZone (ExpandVanity ''shop'' ''env'' ''slug'' (pj_domain ex_project)) (pj_domain ex_project)"
    by (rule validated_vanity [OF ex_accepted, of "specs_of ex_fs" ex_api "svc_routes ex_api ! 1"])
       (simp_all add: ex_project_sel ex_loads ex_services ex_sel, simp_all add: ex_project_def)
  then show ?thesis by (simp add: ex_project_def)
qed

text \<open>Every provider that a network, a compute or a managed cluster of a validated regional set
  resolves to is declared in every region of the project.\<close>

theorem validated_providers:
  assumes "ValidateResources exists resolve defaults bucket pj = None"
    and "map_of (pj_regions pj) region = Some ar"
    and "(path, provider) \<in> set (collectProviderRefs (rw_files (pj_regional_set pj)) defaults)"
  shows "provider \<in> set (map fst (ar_providers ar))"
proof -
  have "providers_ok (rw_files (pj_regional_set pj)) (pj_regions pj) defaults"
    using assms(1) unfolding ValidateResources_iff by (auto simp: accepted_def)
  moreover have "region \<in> set (map fst (pj_regions pj))"
    using assms(2) by (force dest: map_of_SomeD)
  ultimately have "missing_providers (collectProviderRefs (rw_files (pj_regional_set pj)) defaults) (ar_providers ar) = []"
    using assms(2) by (auto simp: providers_ok_def)
  then show ?thesis using assms(3) by (force simp: missing_providers_nil availableProviders_def)
qed

theorem validated_providers_witness:
  "(''c/web/manifest.yaml'', ''hetzner'') \<in> set (collectProviderRefs (rw_files ex_raw) ex_defaults)
   \<and> ''hetzner'' \<in> set (map fst [(''hetzner'', [(''token'', ''t'')])])"
proof
  show ref: "(''c/web/manifest.yaml'', ''hetzner'') \<in> set (collectProviderRefs (rw_files ex_raw) ex_defaults)"
    by (simp add: collectProviderRefs_def refsOf_def ex_raw_def ex_file_def ex_sel ResolveProvider_def ex_defaults_def)
  have "''hetzner'' \<in> set (map fst (ar_providers (snd (hd (pj_regions ex_project)))))"
    by (rule validated_providers [OF ex_accepted _ ref [folded ex_project_sel], of "''us-east-1''"])
       (simp add: ex_project_def)
  then show "''hetzner'' \<in> set (map fst [(''hetzner'', [(''token'', ''t'')])])" by (simp add: ex_project_def)
qed

text \<open>A validated scope has at most one ingress.\<close>

theorem validated_one_ingress:
  assumes "ValidateResources exists resolve defaults bucket pj = None"
    and "(vi, fs) \<in> set (scopes_of resolve defaults bucket pj)"
  shows "length (parsed_specs (fs_ingress fs)) \<le> 1"
proof -
  note a = validated_scope [OF assms]
  show ?thesis
    using distinct_const_length [OF set_accepts_parts(9) [OF a]]
      one_ingress [OF ballI [OF set_accepts_parts(5) [OF a]] _ _ ingress_names_build] by blast
qed

theorem validated_one_ingress_witness: "length [ex_ingress] \<le> 1"
  using validated_one_ingress [OF ex_accepted ex_scope] by (simp add: ex_files ex_specs)

section \<open>The run\<close>

text \<open>The run of all checks accepts a project exactly when the declarative conditions hold: both
  resource sets load and every file of them passes its checks in its scope, names are unique across
  scopes, and the stores, regions, alerts, vanity names, mesh members and providers are in order.\<close>

theorem run_accepts:
  "ValidateResources exists resolve defaults bucket pj = None \<longleftrightarrow>
     (\<exists>glob reg. accepted exists resolve defaults bucket pj glob reg)"
  by (rule ValidateResources_iff)

section \<open>Path globs\<close>

text \<open>C38: The automaton that compares two path globs is exact: it reports an overlap if and only if
  some request path is matched by the compiled expressions of both.\<close>

theorem globs_overlap_exact:
  assumes "Parse g = Inr p" "Parse h = Inr q"
  shows "Overlaps p q \<longleftrightarrow> (\<exists>path. Matches p path \<and> Matches q path)"
  by (rule wf_overlaps_iff [OF Parse_wf(1) [OF assms(1)] Parse_wf(1) [OF assms(2)]])

theorem globs_overlap_exact_witness:
  "case (Parse ''/v*/jobs'', Parse ''/v1/**'') of
     (Inr p, Inr q) \<Rightarrow> \<exists>path. Matches p path \<and> Matches q path | _ \<Rightarrow> False"
proof -
  have "case (Parse ''/v*/jobs'', Parse ''/v1/**'') of (Inr p, Inr q) \<Rightarrow> Overlaps p q | _ \<Rightarrow> False"
    by code_simp
  then obtain p q where p: "Parse ''/v*/jobs'' = Inr p" and q: "Parse ''/v1/**'' = Inr q" and "Overlaps p q"
    by (auto split: sum.splits)
  then show ?thesis using globs_overlap_exact [OF p q] by simp
qed

text \<open>The expression a glob compiles to matches a path exactly when the path is a slash-separated
  instance of its segments, a star standing for one or more characters other than a slash, followed,
  for a glob that ends in \<open>/**\<close>, by nothing or by a further subtree.\<close>

theorem glob_matches:
  assumes "Parse s = Inr p"
  shows "Matches p path \<longleftrightarrow> path_lang (segments p) (tail p) path"
  by (rule Parse_matches [OF assms])

theorem glob_matches_witness:
  "case Parse ''/v*/jobs/**'' of Inr p \<Rightarrow> path_lang (segments p) (tail p) ''/v12/jobs/7/log'' | _ \<Rightarrow> False"
proof -
  have "case Parse ''/v*/jobs/**'' of Inr p \<Rightarrow> Matches p ''/v12/jobs/7/log'' | _ \<Rightarrow> False" by code_simp
  then obtain p where p: "Parse ''/v*/jobs/**'' = Inr p" and "Matches p ''/v12/jobs/7/log''"
    by (auto split: sum.splits)
  then show ?thesis using glob_matches [OF p] by simp
qed

text \<open>The worklist loop of the overlap check ends on every pair of segments, and its answer on
  segments of a path is whether they have a common instance.\<close>

theorem overlap_loop_ends:
  assumes "CHR ''/'' \<notin> set a" "CHR ''/'' \<notin> set b"
  shows "segmentsOverlap a b = Some (\<exists>w. tmatch (tokens a) w \<and> tmatch (tokens b) w)"
  using segmentsOverlap_total [of a b] segmentsOverlap_iff [OF assms] by auto

theorem overlap_loop_ends_witness: "\<exists>w. tmatch (tokens ''a*b'') w \<and> tmatch (tokens ''*c*'') w"
proof -
  have "segmentsOverlap ''a*b'' ''*c*'' = Some True" by code_simp
  then show ?thesis using overlap_loop_ends [of "''a*b''" "''*c*''"] by simp
qed

section \<open>Postgres roles\<close>

text \<open>A quoted identifier or literal reads back, under the quoting rules of Postgres, as the name
  without its NUL bytes, whatever statement text follows: no name can end its own quotes.\<close>

theorem quoting_reads_back:
  assumes "rest = [] \<or> hd rest \<noteq> dquote" and "rest' = [] \<or> hd rest' \<noteq> squote"
  shows "read_quoted dquote (QuoteIdent s @ rest) = Some (strip_nul s, rest)
    \<and> read_quoted squote (QuoteLiteral s @ rest') = Some (strip_nul s, rest')"
  by (intro conjI read_QuoteIdent read_QuoteLiteral assms)

theorem quoting_reads_back_witness:
  "read_quoted dquote (QuoteIdent ''a; DROP ROLE b'' @ '' NOLOGIN'') = Some (''a; DROP ROLE b'', '' NOLOGIN'')"
proof -
  have "read_quoted dquote (QuoteIdent ''a; DROP ROLE b'' @ '' NOLOGIN'')
      = Some (strip_nul ''a; DROP ROLE b'', '' NOLOGIN'')"
    by (rule conjunct1 [OF quoting_reads_back [of "'' NOLOGIN''" "[]"]]) (simp_all add: dquote_def)
  then show ?thesis by (simp add: strip_nul_def NUL_def)
qed

text \<open>C39: Whatever rights a login role held before, after the statements of a mint it holds on the
  database exactly the rights of its permission: a downgrade leaves no write access behind, and a
  read-write role keeps the objects it owns and nothing else beyond its rights.  The one exception is a
  read-only mint that names the role itself as the owner: it then keeps what it owns.\<close>

theorem mint_exact:
  assumes "MintRoleSQL role password d owner perm = Inr stmts"
  shows "rights_on role d (apply_all stmts S) =
    (if perm = ''ro'' then ro_rights d \<union> (if owner = role \<and> (role, Owns) \<in> S then {Owns} else {})
     else rw_rights d \<union> (if (role, Owns) \<in> S then {Owns} else {}))"
proof -
  have "perm = ''ro'' \<or> perm = ''rw''" using MintRoleSQL_Inr [OF assms] by blast
  then show ?thesis
  proof
    assume p: "perm = ''ro''"
    show ?thesis using mint_ro_exact [OF assms [unfolded p]] p by simp
  next
    assume p: "perm = ''rw''"
    show ?thesis using mint_rw_exact [OF assms [unfolded p]] p by simp
  qed
qed

theorem mint_exact_witness:
  "case MintRoleSQL ''api'' ''pw'' ''orders'' ''app'' ''ro'' of
     Inr stmts \<Rightarrow> rights_on ''api'' ''orders'' (apply_all stmts {(''api'', Owns), (''api'', Modify Tables)})
       = ro_rights ''orders''
   | Inl e \<Rightarrow> False"
proof -
  have "is_ok (MintRoleSQL ''api'' ''pw'' ''orders'' ''app'' ''ro'')" by code_simp
  then obtain stmts where s: "MintRoleSQL ''api'' ''pw'' ''orders'' ''app'' ''ro'' = Inr stmts" by (elim is_okE)
  show ?thesis using mint_exact [OF s, of "{(''api'', Owns), (''api'', Modify Tables)}"] s by simp
qed

text \<open>A mint is refused exactly for a permission other than read-only and read-write, a read-only
  grant without a database owner, or derived group roles that are too long or collide.\<close>

theorem mint_refusals:
  "is_ok (MintRoleSQL role password d owner perm) \<longleftrightarrow>
     (perm = ''ro'' \<and> owner \<noteq> [] \<or> perm = ''rw'') \<and> CheckGroupRoleNames role d owner = None"
  by (rule mint_ok_iff)

section \<open>Templates, names and sources\<close>

text \<open>C40: The segments of a parsed outputs template print back as the template, and interpolation
  succeeds exactly when every field the template names has a value.\<close>

theorem template_roundtrip:
  assumes "ParseTemplate s = Inr t"
  shows "concat (map render_seg t) = s
    \<and> (is_ok (Interpolate t vs) \<longleftrightarrow> set (template_Fields t) \<subseteq> dom vs)
    \<and> (\<forall>f\<in>set (template_Fields t). fieldNameRE f)"
  using ParseTemplate_render [OF assms] Interpolate_ok_iff
    template_Fields_wf [OF ParseTemplate_wf [OF assms]] by blast

theorem template_roundtrip_witness:
  "case ParseTemplate ''{USER}:{PORT}/x'' of
     Inr t \<Rightarrow> concat (map render_seg t) = ''{USER}:{PORT}/x'' \<and> \<not> is_ok (Interpolate t [''USER'' \<mapsto> ''u''])
   | Inl e \<Rightarrow> False"
proof -
  have "case ParseTemplate ''{USER}:{PORT}/x'' of Inr t \<Rightarrow> template_Fields t = [''USER'', ''PORT''] | _ \<Rightarrow> False"
    by code_simp
  then obtain t where t: "ParseTemplate ''{USER}:{PORT}/x'' = Inr t" and f: "template_Fields t = [''USER'', ''PORT'']"
    by (auto split: sum.splits)
  show ?thesis using template_roundtrip [OF t, of "[''USER'' \<mapsto> ''u'']"] t f by simp
qed

text \<open>A resource name built for an environment, a region slug and a resource type parses back to
  its type, name and slug.\<close>

theorem resource_name_roundtrip:
  assumes "typ \<in> set resourceTypes" "slug \<noteq> []" "CHR ''-'' \<notin> set slug" "slug \<notin> set resourceTypes"
    and "\<forall>t\<in>set (tl (split_on CHR ''-'' env)). t \<notin> set resourceTypes"
  shows "ParseResourceName (Resource env slug typ name) = Some (typ, name, slug)"
  by (rule parse_Resource [OF assms])

theorem resource_name_roundtrip_witness:
  "ParseResourceName (Resource ''prod'' ''use1'' ''vm'' ''edge-vm'') = Some (''vm'', ''edge-vm'', ''use1'')"
  by (rule resource_name_roundtrip) code_simp+

text \<open>The name of a global resource, which carries no region, parses back without a slug only in
  an environment whose name has no hyphen; otherwise the last part of the environment is taken for one.\<close>

theorem global_name_slug:
  assumes "typ \<in> set resourceTypes"
    and "\<forall>t\<in>set (tl (split_on CHR ''-'' env)). t \<notin> set resourceTypes"
  shows "ParseResourceName (GlobalResource env typ name) =
     Some (typ, name, if CHR ''-'' \<in> set env then last (split_on CHR ''-'' env) else [])"
  by (rule parse_GlobalResource [OF assms])

theorem global_name_slug_witness:
  "ParseResourceName (GlobalResource ''pr-42'' ''vm'' ''edge'') = Some (''vm'', ''edge'', ''42'')"
proof -
  have "ParseResourceName (GlobalResource ''pr-42'' ''vm'' ''edge'') =
     Some (''vm'', ''edge'', if CHR ''-'' \<in> set ''pr-42'' then last (split_on CHR ''-'' ''pr-42'') else [])"
    by (rule global_name_slug) code_simp+
  then show ?thesis by simp
qed

text \<open>A source that parses has the kind of its scheme and keeps its text: a reference prints back
  as written, a key is the trimmed text after its scheme and never empty, and only text with none of
  the schemes is a literal.\<close>

theorem source_kinds:
  assumes "ParseSource s = Inr src"
  shows "case src of
      SourceRef t n out \<Rightarrow> s = ref_text \<lparr>ref_Type = t, ref_Name = n, ref_Output = out\<rparr>
        \<and> ref_wf \<lparr>ref_Type = t, ref_Name = n, ref_Output = out\<rparr>
    | SourceVault k \<Rightarrow> prefix VaultScheme s \<and> k = TrimSpace (drop (length VaultScheme) s) \<and> k \<noteq> []
    | SourceEnv k \<Rightarrow> prefix EnvScheme s \<and> k = TrimSpace (drop (length EnvScheme) s) \<and> k \<noteq> []
    | SourceLiteral v \<Rightarrow> v = s \<and> \<not> prefix RefScheme s \<and> \<not> prefix VaultScheme s
        \<and> \<not> prefix EnvScheme s"
  by (rule ParseSource_kind [OF assms])

theorem source_kinds_witness:
  "ParseSource ''ref:compute/edge.publicIp'' = Inr (SourceRef ''compute'' ''edge'' ''publicIp'')
   \<and> ''ref:compute/edge.publicIp'' = ref_text \<lparr>ref_Type = ''compute'', ref_Name = ''edge'', ref_Output = ''publicIp''\<rparr>"
proof -
  have s: "ParseSource ''ref:compute/edge.publicIp'' = Inr (SourceRef ''compute'' ''edge'' ''publicIp'')" by code_simp
  then show ?thesis using source_kinds [OF s] by simp
qed

section \<open>Stores and certificates\<close>

text \<open>Every update of the secret store keeps it well-formed: one entry per namespace and key, and no
  empty namespace left behind by a delete.\<close>

theorem store_invariant:
  assumes "stored_wf s"
  shows "stored_wf (store_Set s n k v) \<and> stored_wf (store_SetReserved s n k v)
    \<and> stored_wf (snd (store_Delete s n k)) \<and> stored_wf (snd (store_DeleteReserved s n k))"
  by (intro conjI stored_wf_ops assms)

theorem store_invariant_witness: "stored_wf (snd (store_Delete ex_secrets ''api'' ''TOKEN''))"
proof -
  have w: "stored_wf ex_secrets" by code_simp
  show ?thesis by (rule store_invariant [OF w, THEN conjunct2, THEN conjunct2, THEN conjunct1])
qed

text \<open>A ciphertext that is stored is the one read back, other keys keep theirs, a deleted key is
  gone, and the service and reserved halves of the store never see each other's updates.\<close>

theorem store_reads_writes:
  "store_Get (store_Set s n k v) n' k' = (if n' = n \<and> k' = k then Some v else store_Get s n' k')
   \<and> store_Get (snd (store_Delete s n k)) n' k' = (if n' = n \<and> k' = k then None else store_Get s n' k')
   \<and> (fst (store_Delete s n k) \<longleftrightarrow> store_Get s n k \<noteq> None)
   \<and> store_GetReserved (store_Set s n k v) = store_GetReserved s
   \<and> store_Get (store_SetReserved s n k v) = store_Get s
   \<and> store_GetReserved (snd (store_Delete s n k)) = store_GetReserved s
   \<and> store_Get (snd (store_DeleteReserved s n k)) = store_Get s"
  by (intro conjI services.look_put services.look_del services.del_found store_isolation)

text \<open>A trust bundle is issued exactly when the PKI exists, has an intermediate for every scope and
  a root certificate that is not blank.\<close>

theorem trust_bundle_issued:
  "is_ok (TrustBundle s n scopes) \<longleftrightarrow>
     (\<exists>p. pki_Get s n = Some p \<and> (\<forall>sc\<in>set scopes. map_of (pki_intermediates p) sc \<noteq> None)
        \<and> (\<exists>r\<in>set (RootCerts p). TrimSpace r \<noteq> []))"
  by (rule TrustBundle_ok_iff)

theorem trust_bundle_issued_witness:
  "\<exists>p. pki_Get ex_pkis ''mesh'' = Some p \<and> map_of (pki_intermediates p) ''us-east-1'' \<noteq> None"
proof -
  have "is_ok (TrustBundle ex_pkis ''mesh'' [''us-east-1''])" by code_simp
  from trust_bundle_issued [THEN iffD1, OF this] show ?thesis by auto
qed

section \<open>Postgres ports and alerts of a validated project\<close>

text \<open>No backend port of a validated service on a host with database clusters is the port of one
  of the clusters that can run there.\<close>

theorem validated_cluster_ports:
  assumes "ValidateResources exists resolve defaults bucket pj = None"
    and "(vi, fs) \<in> set (scopes_of resolve defaults bucket pj)"
    and "s \<in> set (services_of fs)" "p \<in> set (tcp_binds s)"
    and "d \<in> set (parsed_specs (fs_cluster fs))"
    and "canonicalHost (cl_host d) (build_ctx vi fs) = canonicalHost (svc_host s) (build_ctx vi fs)"
    and "0 \<le> i" "i < MaxClustersPerHost"
  shows "p \<noteq> ClusterPort i"
  using cluster_ports_clear [OF validated_ok [OF assms(1,2)] assms(3-6)] assms(7,8)
  by (auto simp: pg_range_iff)

theorem validated_cluster_ports_witness: "9001 \<in> set (tcp_binds ex_api) \<and> 9001 \<noteq> ClusterPort 3"
proof
  show "9001 \<noteq> ClusterPort 3"
    by (rule validated_cluster_ports [OF ex_accepted ex_scope, of ex_api _ ex_cluster])
       (simp_all add: ex_parsed_services ex_binds ex_sel ex_hosts ex_specs ex_files MaxClustersPerHost_def)
qed (simp add: ex_binds)

text \<open>When the observability files pass validation and Grafana is configured, a deploy compiles every
  custom alert and resolves a route for each: the rules are the alerts whose route is not muted, in
  order, and each rule notifies a contact point that the environment declares.\<close>

theorem alerts_deploy:
  assumes "\<not> rp_failed (checkObservability (Inr n) (Inr as) ob np ap r)"
    and "distinct (map fst (nt_profiles n))" "ob_grafana ob \<noteq> []"
  shows "\<exists>alerts rules. Custom as = Inr alerts \<and> toRuleArgs ob n env alerts = Inr rules
    \<and> map ra_name rules = map (\<lambda>a. ru_name (at_rule a))
        (filter (\<lambda>a. \<forall>route. routed ob n (at_profile a) (at_severity a) route \<longrightarrow> \<not> pr_muted route) alerts)
    \<and> (\<forall>rule\<in>set rules. \<exists>cp. ra_contact rule = ContactPointName env cp
         \<and> cp \<in> set (map fst (nt_points n)))"
proof -
  have ok: "check_notifications ob n as = []" "check_alerts ob n [] as = []"
    using assms(1) by (auto simp: failed_observability observability_ok_def)
  have valid: "list_all (alert_valid ob n) as" using check_alerts_nil [OF ok(2)] by simp
  then obtain alerts where c: "Custom as = Inr alerts" "map at_severity alerts = map al_severity as"
    "map at_profile alerts = map al_profile as"
    using Custom_ok by blast
  have "\<exists>route. routed ob n (al_profile x) (al_severity x) route" if "x \<in> set as" for x
    using valid that check_alert_routing_nil [OF _ assms(3)] by (auto simp: alert_valid_def list_all_iff)
  then have "\<forall>i<length as. \<exists>route. routed ob n (map at_profile alerts ! i) (map at_severity alerts ! i) route"
    unfolding c by simp
  moreover have len: "length alerts = length as" using map_eq_imp_length_eq [OF c(2)] .
  ultimately have "\<forall>a\<in>set alerts. \<exists>route. routed ob n (at_profile a) (at_severity a) route"
    by (auto simp: in_set_conv_nth)
  from toRuleArgs_routed [OF this] obtain rules where r: "toRuleArgs ob n env alerts = Inr rules"
    "map ra_name rules = map (\<lambda>a. ru_name (at_rule a))
        (filter (\<lambda>a. \<forall>route. routed ob n (at_profile a) (at_severity a) route \<longrightarrow> \<not> pr_muted route) alerts)"
    "\<forall>r\<in>set rules. \<exists>a\<in>set alerts. \<exists>route. routed ob n (at_profile a) (at_severity a) route
         \<and> \<not> pr_muted route \<and> ra_contact r = ContactPointName env (pr_contact route)" by blast
  have "\<exists>cp. ra_contact rule = ContactPointName env cp \<and> cp \<in> set (map fst (nt_points n))" if "rule \<in> set rules" for rule
    using r(3) that route_resolves [OF ok(1) assms(2)] by (force dest: map_of_SomeD)
  then show ?thesis using c(1) r by blast
qed

theorem alerts_deploy_witness:
  "let ob = \<lparr>ob_grafana = ''https://g'', ob_alerts = Some False, ob_profile = ''ops''\<rparr>;
       n = \<lparr>nt_points = [(''mail'', \<lparr>cp_oncall = None, cp_email = Some [''a@x''], cp_webhook = None\<rparr>)],
            nt_profiles = [(''ops'', [(''critical'', \<lparr>pr_contact = ''mail'', pr_muted = False\<rparr>),
              (''info'', \<lparr>pr_contact = [], pr_muted = True\<rparr>)])]\<rparr>;
       a = \<lparr>al_name = ''down'', al_expr = ''up'', al_cond = ''<1'', al_for = [], al_severity = ''critical'',
            al_profile = [], al_summary = [], al_labels = []\<rparr>
   in \<exists>alerts rules. Custom [a] = Inr alerts \<and> toRuleArgs ob n ''prod'' alerts = Inr rules"
proof -
  let ?ob = "\<lparr>ob_grafana = ''https://g'', ob_alerts = Some False, ob_profile = ''ops''\<rparr>"
  let ?n = "\<lparr>nt_points = [(''mail'', \<lparr>cp_oncall = None, cp_email = Some [''a@x''], cp_webhook = None\<rparr>)],
            nt_profiles = [(''ops'', [(''critical'', \<lparr>pr_contact = ''mail'', pr_muted = False\<rparr>),
              (''info'', \<lparr>pr_contact = [], pr_muted = True\<rparr>)])]\<rparr>"
  let ?a = "\<lparr>al_name = ''down'', al_expr = ''up'', al_cond = ''<1'', al_for = [], al_severity = ''critical'',
            al_profile = [], al_summary = [], al_labels = []\<rparr>"
  have t: "TrimSpace ''<1'' = ''<1''" "TrimSpace ''1'' = ''1''" by code_simp+
  have "ParseFloat_ok ''1''"
    by (simp add: ParseFloat_ok_def strip_sign_def digits_int_def dec_digit_def read_exponent_def
        in_float_range_def float_overflow_def special_float_def hex_digit_value_def lower_def)
  then have c: "ValidCondition ''<1'' = None"
    by (simp add: ValidCondition_def parseCondition_def operators_def t trim_prefix_def)
  have "check_notifications ?ob ?n [?a] = []"
    by (simp add: check_notifications_def sortedKeys_def check_point_def check_profile_route_def
        Severities_def alerts_managed_def check_default_profile_def AlertsEnabled_def Let_def)
  moreover have "check_alerts ?ob ?n [] [?a] = []"
    by (simp add: c check_alert_routing_def alert_profile_def Severities_def Let_def)
  ultimately have ok: "\<not> rp_failed (checkObservability (Inr ?n) (Inr [?a]) ?ob ''n'' ''a''
      \<lparr>rp_failed = False, rp_lines = []\<rparr>)"
    by (simp only: failed_observability observability_ok_def) simp
  have d: "distinct (map fst (nt_profiles ?n))" and g: "ob_grafana ?ob \<noteq> []" by simp_all
  have "\<exists>alerts rules. Custom [?a] = Inr alerts \<and> toRuleArgs ?ob ?n ''prod'' alerts = Inr rules"
    by (insert alerts_deploy [OF ok d g, of "''prod''"], elim exE conjE, intro exI conjI)
  then show ?thesis unfolding Let_def .
qed

end
